(* ===== verification/Values.thy ===== *)
theory Values
  imports Prelude
begin

text \<open>
  The values the program computes with: 64-bit floats as far as the sources compare them,
  conversion of integers to floats, \<open>String::from_utf8_lossy\<close>, and JSON
  (\<open>serde_json::Value\<close>) with the accessors the sources call.
\<close>

subsection \<open>64-bit floats\<close>

text \<open>
  A finite float is its exact value; the two zeros are one value, which no comparison can tell
  apart. Comparison with \<open>NaN\<close> is always false.
\<close>

datatype f64 = Fin rat | PosInf | NegInf | NaN

datatype ordering = Less | Equal | Greater

definition rat_cmp :: "rat \<Rightarrow> rat \<Rightarrow> ordering" where
  "rat_cmp x y = (if x < y then Less else if x = y then Equal else Greater)"

fun partial_cmp :: "f64 \<Rightarrow> f64 \<Rightarrow> ordering option" where
  "partial_cmp NaN _ = None"
| "partial_cmp _ NaN = None"
| "partial_cmp (Fin x) (Fin y) = Some (rat_cmp x y)"
| "partial_cmp NegInf NegInf = Some Equal"
| "partial_cmp NegInf _ = Some Less"
| "partial_cmp _ NegInf = Some Greater"
| "partial_cmp PosInf PosInf = Some Equal"
| "partial_cmp PosInf _ = Some Greater"
| "partial_cmp _ PosInf = Some Less"

definition f64_lt :: "f64 \<Rightarrow> f64 \<Rightarrow> bool" where
  "f64_lt x y \<longleftrightarrow> partial_cmp x y = Some Less"

definition f64_le :: "f64 \<Rightarrow> f64 \<Rightarrow> bool" where
  "f64_le x y \<longleftrightarrow> partial_cmp x y = Some Less \<or> partial_cmp x y = Some Equal"

definition f64_eq :: "f64 \<Rightarrow> f64 \<Rightarrow> bool" where
  "f64_eq x y \<longleftrightarrow> partial_cmp x y = Some Equal"

definition is_finite :: "f64 \<Rightarrow> bool" where
  "is_finite x \<longleftrightarrow> (case x of Fin _ \<Rightarrow> True | _ \<Rightarrow> False)"

definition is_nan :: "f64 \<Rightarrow> bool" where
  "is_nan x \<longleftrightarrow> x = NaN"

lemma rat_cmp_simps [simp]:
  "rat_cmp x y = Less \<longleftrightarrow> x < y"
  "rat_cmp x y = Equal \<longleftrightarrow> x = y"
  "rat_cmp x y = Greater \<longleftrightarrow> y < x"
  by (auto simp: rat_cmp_def)

lemma f64_Fin_simps [simp]:
  "f64_lt (Fin x) (Fin y) \<longleftrightarrow> x < y"
  "f64_le (Fin x) (Fin y) \<longleftrightarrow> x \<le> y"
  "f64_eq (Fin x) (Fin y) \<longleftrightarrow> x = y"
  by (auto simp: f64_lt_def f64_le_def f64_eq_def)

lemma f64_NaN_simps [simp]:
  "\<not> f64_lt NaN y" "\<not> f64_lt x NaN" "\<not> f64_le NaN y" "\<not> f64_le x NaN"
  "\<not> f64_eq NaN y" "\<not> f64_eq x NaN"
  by (cases x; simp add: f64_lt_def f64_le_def f64_eq_def)+

lemma f64_lt_not_le: "f64_lt x y \<Longrightarrow> \<not> f64_le y x"
  by (cases x; cases y) (auto simp: f64_lt_def f64_le_def)

lemma f64_lt_le_trans: "f64_lt x y \<Longrightarrow> f64_le y z \<Longrightarrow> f64_lt x z"
  by (cases x; cases y; cases z) (auto simp: f64_lt_def f64_le_def)

lemma f64_le_lt_trans: "f64_le x y \<Longrightarrow> f64_lt y z \<Longrightarrow> f64_lt x z"
  by (cases x; cases y; cases z) (auto simp: f64_lt_def f64_le_def)

lemma f64_le_eq: "f64_le x y \<longleftrightarrow> f64_lt x y \<or> f64_eq x y"
  by (auto simp: f64_lt_def f64_le_def f64_eq_def)

lemma f64_total: "x \<noteq> NaN \<Longrightarrow> y \<noteq> NaN \<Longrightarrow> f64_lt x y \<or> f64_le y x"
  by (cases x; cases y) (auto simp: f64_lt_def f64_le_def)

lemma partial_cmp_None: "partial_cmp x y = None \<longleftrightarrow> x = NaN \<or> y = NaN"
  by (cases x; cases y) auto

lemma partial_cmp_flip:
  "partial_cmp y x = Some Less \<longleftrightarrow> partial_cmp x y = Some Greater"
  "partial_cmp y x = Some Equal \<longleftrightarrow> partial_cmp x y = Some Equal"
  by (cases x; cases y; auto)+

text \<open>
  An integer cast to a float (\<open>n as f64\<close>): rounding to a 53-bit significand, ties to even.
\<close>

definition round_half_even :: "nat \<Rightarrow> nat \<Rightarrow> nat" where
  "round_half_even n d =
     (let q = n div d; r = n mod d in
      if 2 * r < d then q else if 2 * r > d then q + 1 else if even q then q else q + 1)"

definition round_to_53 :: "nat \<Rightarrow> nat" where
  "round_to_53 n =
     (if n \<le> 2 ^ 53 then n
      else let d = 2 ^ (nat (bitlen (int n)) - 53) in round_half_even n d * d)"

definition f64_of_nat :: "nat \<Rightarrow> f64" where
  "f64_of_nat n = Fin (rat_of_nat (round_to_53 n))"

definition f64_of_int :: "int \<Rightarrow> f64" where
  "f64_of_int i =
     (if i < 0 then Fin (- rat_of_nat (round_to_53 (nat (- i)))) else f64_of_nat (nat i))"

lemma f64_of_nat_exact: "n \<le> 2 ^ 53 \<Longrightarrow> f64_of_nat n = Fin (rat_of_nat n)"
  by (simp add: f64_of_nat_def round_to_53_def)

lemma f64_of_int_exact: "\<bar>i\<bar> \<le> 2 ^ 53 \<Longrightarrow> f64_of_int i = Fin (rat_of_int i)"
  by (auto simp: f64_of_int_def f64_of_nat_def round_to_53_def)

subsection \<open>Bytes to text\<close>

text \<open>
  \<open>String::from_utf8_lossy\<close>: a valid sequence is kept; each maximal invalid piece becomes one
  replacement character (the bytes EF BF BD). \<open>utf8_step\<close> looks at the first bytes and says
  how many to take and whether they are a character.
\<close>

definition byte :: "char \<Rightarrow> nat" where
  "byte c = of_char c"

definition replacement_char :: bytes where
  "replacement_char = [CHR 0xEF, CHR 0xBF, CHR 0xBD]"

definition in_range :: "nat \<Rightarrow> nat \<Rightarrow> bytes \<Rightarrow> nat \<Rightarrow> bool" where
  "in_range lo hi bs i \<longleftrightarrow> i < length bs \<and> lo \<le> byte (bs ! i) \<and> byte (bs ! i) \<le> hi"

definition utf8_second_range :: "nat \<Rightarrow> nat \<times> nat" where
  "utf8_second_range b =
     (if b = 0xE0 then (0xA0, 0xBF) else if b = 0xED then (0x80, 0x9F)
      else if b = 0xF0 then (0x90, 0xBF) else if b = 0xF4 then (0x80, 0x8F)
      else (0x80, 0xBF))"

definition utf8_step :: "bytes \<Rightarrow> bool \<times> nat" where
  "utf8_step bs =
     (let b = byte (hd bs); r = utf8_second_range b;
          cont1 = in_range (fst r) (snd r) bs 1;
          cont2 = in_range 0x80 0xBF bs 2; cont3 = in_range 0x80 0xBF bs 3 in
      if b < 0x80 then (True, 1)
      else if 0xC2 \<le> b \<and> b \<le> 0xDF then (if cont1 then (True, 2) else (False, 1))
      else if 0xE0 \<le> b \<and> b \<le> 0xEF then
        (if \<not> cont1 then (False, 1) else if \<not> cont2 then (False, 2) else (True, 3))
      else if 0xF0 \<le> b \<and> b \<le> 0xF4 then
        (if \<not> cont1 then (False, 1) else if \<not> cont2 then (False, 2)
         else if \<not> cont3 then (False, 3) else (True, 4))
      else (False, 1))"

lemma utf8_step_pos: "0 < snd (utf8_step bs)"
  by (simp add: utf8_step_def Let_def)

function from_utf8_lossy :: "bytes \<Rightarrow> string" where
  "from_utf8_lossy bs =
     (if bs = [] then []
      else (if fst (utf8_step bs) then take (snd (utf8_step bs)) bs else replacement_char)
             @ from_utf8_lossy (drop (snd (utf8_step bs)) bs))"
  by pat_completeness auto
termination
  by (relation "measure length") (auto simp: utf8_step_pos)

declare from_utf8_lossy.simps [simp del]

lemma from_utf8_lossy_Nil [simp]: "from_utf8_lossy [] = []"
  by (simp add: from_utf8_lossy.simps)

lemma from_utf8_lossy_ascii:
  "(\<And>c. c \<in> set bs \<Longrightarrow> byte c < 0x80) \<Longrightarrow> from_utf8_lossy bs = bs"
proof (induction bs)
  case (Cons b bs)
  have "utf8_step (b # bs) = (True, 1)"
    using Cons.prems by (simp add: utf8_step_def)
  with Cons show ?case by (subst from_utf8_lossy.simps) simp
qed simp

subsection \<open>JSON\<close>

text \<open>
  \<open>serde_json::Value\<close>. A number is stored as a non-negative integer, a negative integer or a
  finite float, and two numbers are equal only when they are stored alike. An object's entries
  are kept in key order.
\<close>

datatype json_number = PosInt nat | NegInt int | Float f64

datatype json =
    JNull
  | JBool bool
  | JNum json_number
  | JStr string
  | JArr "json list"
  | JObj "(string \<times> json) list"

definition number_as_f64 :: "json_number \<Rightarrow> f64" where
  "number_as_f64 n = (case n of PosInt k \<Rightarrow> f64_of_nat k | NegInt i \<Rightarrow> f64_of_int i | Float x \<Rightarrow> x)"

definition as_f64 :: "json \<Rightarrow> f64 option" where
  "as_f64 v = (case v of JNum n \<Rightarrow> Some (number_as_f64 n) | _ \<Rightarrow> None)"

definition as_u64 :: "json \<Rightarrow> nat option" where
  "as_u64 v = (case v of JNum (PosInt k) \<Rightarrow> Some k | _ \<Rightarrow> None)"

definition as_bool :: "json \<Rightarrow> bool option" where
  "as_bool v = (case v of JBool b \<Rightarrow> Some b | _ \<Rightarrow> None)"

definition as_str :: "json \<Rightarrow> string option" where
  "as_str v = (case v of JStr s \<Rightarrow> Some s | _ \<Rightarrow> None)"

definition json_get :: "json \<Rightarrow> string \<Rightarrow> json option" where
  "json_get v k = (case v of JObj kvs \<Rightarrow> map_of kvs k | _ \<Rightarrow> None)"

definition from_f64 :: "f64 \<Rightarrow> json_number option" where
  "from_f64 x = (if is_finite x then Some (Float x) else None)"

lemma as_simps [simp]:
  "as_f64 (JNum n) = Some (number_as_f64 n)" "as_f64 (JStr s) = None" "as_f64 (JBool b) = None"
  "as_f64 JNull = None" "as_f64 (JArr xs) = None" "as_f64 (JObj kvs) = None"
  "as_u64 (JNum (PosInt k)) = Some k" "as_u64 (JStr s) = None"
  "as_bool (JBool b) = Some b" "as_bool (JStr s) = None" "as_bool JNull = None"
  "as_str (JStr s) = Some s" "as_str (JBool b) = None" "as_str (JNum n) = None"
  "json_get (JObj kvs) key = map_of kvs key" "json_get (JStr s) key = None"
  "json_get JNull key = None"
  by (simp_all add: as_f64_def as_u64_def as_bool_def as_str_def json_get_def)

lemma number_as_f64_simps [simp]:
  "number_as_f64 (PosInt k) = f64_of_nat k"
  "number_as_f64 (NegInt i) = f64_of_int i"
  "number_as_f64 (Float x) = x"
  by (simp_all add: number_as_f64_def)

end
