(* ===== verification/Rule_Types.thy ===== *)
theory Rule_Types
  imports Values
begin

text \<open>
  The shared data of the program, from the crate \<open>hc-types\<close>: device provenance
  (\<open>device.rs\<close>), alerts and their filters (\<open>alert.rs\<close>), bus events (\<open>event.rs\<close>) and
  rules with their triggers, conditions and actions (\<open>rule.rs\<close>). Constructors carry the
  source's variant names with a prefix for their enum (\<open>Tr\<close>, \<open>Co\<close>, \<open>Ac\<close>, \<open>Ev\<close>); struct
  variants list their fields in the source's order.
\<close>

subsection \<open>Device provenance\<close>

datatype device_change_kind = Homecore | Physical | External | Unknown

record device_change =
  dc_changed_at :: timestamp
  dc_kind :: device_change_kind
  dc_source :: "string option"
  dc_actor_id :: "string option"
  dc_actor_name :: "string option"
  dc_correlation_id :: "string option"

subsection \<open>Alerts\<close>

datatype alert_severity = Info | Warning | SevError | Critical

datatype alert_kind = Wet | Smoke | Offline | Jammed | LowBattery | KRule | KPlugin

definition alert_kind_as_str :: "alert_kind \<Rightarrow> string" where
  "alert_kind_as_str k =
     (case k of Wet \<Rightarrow> ''wet'' | Smoke \<Rightarrow> ''smoke'' | Offline \<Rightarrow> ''offline'' | Jammed \<Rightarrow> ''jammed''
      | LowBattery \<Rightarrow> ''low_battery'' | KRule \<Rightarrow> ''rule'' | KPlugin \<Rightarrow> ''plugin'')"

record acknowledged =
  ack_by :: string
  ack_at :: timestamp

datatype alert_action_target = TargetDevice | TargetPlugin

record alert_action =
  aa_label :: string
  aa_id :: string
  aa_target :: alert_action_target
  aa_params :: json
  aa_confirm :: bool

record alert =
  al_id :: string
  al_kind :: alert_kind
  al_device_id :: string
  al_rule_id :: "string option"
  al_message :: string
  al_reason :: string
  al_severity :: alert_severity
  al_raised_at :: timestamp
  al_acknowledged :: "acknowledged option"
  al_plugin_id :: "string option"
  al_topic :: "string option"
  al_key :: "string option"
  al_action :: "alert_action option"
  al_device_plugin_id :: "string option"

record alert_filter =
  af_kind :: "alert_kind option"
  af_plugin_id :: "string option"
  af_topic :: "string option"
  af_device_ids :: "string list"
  af_min_severity :: "alert_severity option"
  af_key :: "string option"
  af_rule_id :: "string option"

definition alert_filter_default :: alert_filter where
  "alert_filter_default =
     \<lparr>af_kind = None, af_plugin_id = None, af_topic = None, af_device_ids = [],
      af_min_severity = None, af_key = None, af_rule_id = None\<rparr>"

definition severity_rank :: "alert_severity \<Rightarrow> nat" where
  "severity_rank s = (case s of Info \<Rightarrow> 0 | Warning \<Rightarrow> 1 | SevError \<Rightarrow> 2 | Critical \<Rightarrow> 3)"

definition is_none_or :: "'a option \<Rightarrow> ('a \<Rightarrow> bool) \<Rightarrow> bool" where
  "is_none_or x p = (case x of None \<Rightarrow> True | Some v \<Rightarrow> p v)"

definition option_or :: "'a option \<Rightarrow> 'a option \<Rightarrow> 'a option" where
  "option_or x y = (case x of None \<Rightarrow> y | Some v \<Rightarrow> Some v)"

lemma is_none_or_simps [simp]: "is_none_or None p" "is_none_or (Some v) p = p v"
  by (simp_all add: is_none_or_def)

lemma option_or_simps [simp]: "option_or None y = y" "option_or (Some v) y = Some v"
  by (simp_all add: option_or_def)

definition filter_matches :: "alert_filter \<Rightarrow> alert \<Rightarrow> bool" where
  "filter_matches f a =
     (let same = (\<lambda>want have. is_none_or want (\<lambda>w. have = Some w));
          plugin = option_or (al_plugin_id a) (al_device_plugin_id a) in
      is_none_or (af_kind f) (\<lambda>k. k = al_kind a)
      \<and> is_none_or (af_plugin_id f) (\<lambda>w. plugin = Some w)
      \<and> same (af_topic f) (al_topic a)
      \<and> same (af_key f) (al_key a)
      \<and> same (af_rule_id f) (al_rule_id a)
      \<and> (af_device_ids f = [] \<or> al_device_id a \<in> set (af_device_ids f))
      \<and> is_none_or (af_min_severity f)
           (\<lambda>m. severity_rank m \<le> severity_rank (al_severity a)))"

lemma filter_default_matches [simp]: "filter_matches alert_filter_default a"
  by (simp add: filter_matches_def alert_filter_default_def)

record alert_ignore =
  ai_id :: string
  ai_kind :: "alert_kind option"
  ai_device_id :: "string option"
  ai_rule_id :: "string option"
  ai_plugin_id :: "string option"
  ai_topic :: "string option"
  ai_key :: "string option"
  ai_until :: "timestamp option"
  ai_note :: "string option"
  ai_by :: "string option"
  ai_created_at :: timestamp

definition ignore_active :: "alert_ignore \<Rightarrow> timestamp \<Rightarrow> bool" where
  "ignore_active i now \<longleftrightarrow> is_none_or (ai_until i) (\<lambda>u. now < u)"

text \<open>Whether an alert of these parts is covered, for one that is not made yet.\<close>

definition covers_parts :: "alert_ignore \<Rightarrow> alert_kind \<Rightarrow> string \<Rightarrow> string option \<Rightarrow> timestamp \<Rightarrow> bool" where
  "covers_parts i kind device_id rule_id now \<longleftrightarrow>
     ignore_active i now \<and> is_none_or (ai_kind i) (\<lambda>k. k = kind) \<and> is_none_or (ai_device_id i) (\<lambda>d. d = device_id)
     \<and> is_none_or (ai_rule_id i) (\<lambda>r. rule_id = Some r)"

definition covers :: "alert_ignore \<Rightarrow> alert \<Rightarrow> timestamp \<Rightarrow> bool" where
  "covers i a now \<longleftrightarrow>
     (let same = (\<lambda>mine theirs. is_none_or mine (\<lambda>m. theirs = Some m)) in
      covers_parts i (al_kind a) (al_device_id a) (al_rule_id a) now
      \<and> same (ai_plugin_id i) (al_plugin_id a) \<and> same (ai_topic i) (al_topic a) \<and> same (ai_key i) (al_key a))"

subsection \<open>Rules\<close>

datatype weekday = Mon | Tue | Wed | Thu | Fri | Sat | Sun

datatype button_event_type = Pushed | Held | DoubleTapped | Released

datatype threshold_op = Above | Below | CrossesAbove | CrossesBelow

datatype periodic_unit = Minutes | Hours | Days | Weeks

datatype sun_event_type = Sunrise | Sunset | SolarNoon | CivilDawn | CivilDusk

datatype compare_op = OpEq | OpNe | OpGt | OpGte | OpLt | OpLte

datatype variable_op = VSet | VAdd | VSubtract | VMultiply | VDivide | VToggle

datatype mode_command = ModeOn | ModeOff | ModeToggle

datatype log_level = LTrace | LDebug | LInfo | LWarn | LError

datatype run_mode = Parallel | Single | Restart | Queued nat

definition default_max_queue :: nat where
  "default_max_queue = 10"

datatype trigger =
    TrDeviceStateChanged (tr_device_id: string) (tr_device_ids: "string list")
      (tr_attribute: "string option") (tr_to: "json option") (tr_from: "json option")
      (tr_not_from: "json option") (tr_not_to: "json option")
      (tr_for_duration: "nat option") (tr_change_kind: "device_change_kind option")
      (tr_change_source: "string option")
  | TrMqttMessage string "string option" "string option" "compare_op option" "json option"
  | TrTimeOfDay nanos "weekday list"
  | TrSunEvent sun_event_type int
  | TrWebhookReceived string
  | TrManualTrigger
  | TrCustomEvent string
  | TrSystemStarted
  | TrCron string
  | TrDeviceAvailabilityChanged string "bool option" "nat option"
  | TrButtonEvent string "nat option" button_event_type
  | TrNumericThreshold string string threshold_op f64 "nat option"
  | TrPeriodic nat periodic_unit
  | TrHubVariableChanged "string option"
  | TrModeChanged "string option" "bool option"
  | TrCalendarEvent "string option" "string option" int
  | TrDeviceBatteryLow "string option"
  | TrDeviceBatteryRecovered "string option"
  | TrAlertRaised alert_filter
  | TrAlertCleared alert_filter
  | TrAlertAcknowledged alert_filter
  | TrAlertActiveFor alert_filter nat

datatype condition =
    CoDeviceState string string compare_op json
  | CoTimeWindow nanos nanos
  | CoScriptExpression string
  | CoTimeElapsed string string nat
  | CoDeviceLastChange string "device_change_kind option" "string option" "string option"
      "string option"
  | CoNot condition
  | CoAnd "condition list"
  | CoOr "condition list"
  | CoXor "condition list"
  | CoPrivateBooleanIs string bool
  | CoHubVariable string compare_op json
  | CoModeIs string bool
  | CoCalendarActive "string option" "string option"
  | CoAlertActive alert_filter nat
  | CoNoAlertActive alert_filter
  | CoTriggerAlertActive

datatype if_check = IfScript string | IfCheck condition

record mode_state_entry =
  mse_mode :: string
  mse_state :: json

record mode_delay_entry =
  mde_mode :: string
  mde_duration_secs :: nat

record mode_scene_entry =
  msce_mode :: string
  msce_scene_id :: uuid

datatype action =
    AcSetDeviceState string json bool
  | AcPublishMqtt string string bool
  | AcCallService string string json "nat option" "nat option" "string option"
  | AcFireEvent string json
  | AcRunScript string
  | AcNotify string string "string option"
  | AcDelay nat bool "string option"
  | AcParallel "action list"
  | AcRepeatUntil string "action list" "nat option" "nat option"
  | AcRepeatWhile string "action list" "nat option" "nat option"
  | AcRepeatCount nat "action list" "nat option"
  | AcConditional if_check "action list" "conditional_branch list" "action list"
  | AcStopRuleChain
  | AcExitRule
  | AcComment string
  | AcWaitForEvent "string option" "string option" "string option" "nat option"
  | AcWaitForExpression string "nat option" "nat option" "nat option"
  | AcSetVariable string json "variable_op option"
  | AcRunRuleActions uuid
  | AcPauseRule uuid
  | AcResumeRule uuid
  | AcCancelDelays "string option"
  | AcCancelRuleTimers "uuid option"
  | AcSetPrivateBoolean string bool
  | AcLogMessage string "log_level option"
  | AcSetDeviceStatePerMode string "mode_state_entry list" "json option"
  | AcPingHost string "nat option" "nat option" "action list" "action list" "string option"
  | AcCaptureDeviceState string "string list"
  | AcRestoreDeviceState string
  | AcDelayPerMode "mode_delay_entry list" "nat option"
  | AcSetHubVariable string json "variable_op option"
  | AcActivateScenePerMode "mode_scene_entry list" "uuid option"
  | AcFadeDevice string json nat "nat option"
  | AcSetMode string mode_command
  | AcForEachAlert alert_filter "action list"
  | AcPressAlert "string option"
  | AcWaitAlertCleared "string option" nat "action list"
  | AcAcknowledgeAlert "string option"
  | AcSkipAlert "string option"
  | AcIgnoreAlerts alert_filter "nat option" "string option"
and conditional_branch = ConditionalBranch if_check "action list"

record rule_action =
  ra_enabled :: bool
  ra_action :: action

record rule =
  ru_id :: uuid
  ru_name :: string
  ru_enabled :: bool
  ru_priority :: int
  ru_tags :: "string list"
  ru_trigger :: trigger
  ru_triggers :: "trigger list"
  ru_conditions :: "condition list"
  ru_actions :: "rule_action list"
  ru_error :: "string option"
  ru_cooldown_secs :: "nat option"
  ru_log_events :: bool
  ru_log_triggers :: bool
  ru_log_actions :: bool
  ru_required_expression :: "string option"
  ru_cancel_on_false :: bool
  ru_trigger_condition :: "string option"
  ru_variables :: "string \<rightharpoonup> json"
  ru_trigger_label :: "string option"
  ru_run_mode :: run_mode

definition all_triggers :: "rule \<Rightarrow> trigger list" where
  "all_triggers r = ru_trigger r # ru_triggers r"

record trigger_context =
  tc_device_id :: "string option"
  tc_attribute :: "string option"
  tc_value :: "json option"
  tc_prev_value :: "json option"
  tc_event_type :: "string option"
  tc_change_kind :: "device_change_kind option"
  tc_change_source :: "string option"
  tc_change_actor_id :: "string option"
  tc_change_actor_name :: "string option"
  tc_correlation_id :: "string option"
  tc_extra :: "json option"
  tc_trigger_label :: "string option"
  tc_trigger_index :: "nat option"

definition trigger_context_default :: trigger_context where
  "trigger_context_default =
     \<lparr>tc_device_id = None, tc_attribute = None, tc_value = None, tc_prev_value = None,
      tc_event_type = None, tc_change_kind = None, tc_change_source = None,
      tc_change_actor_id = None, tc_change_actor_name = None, tc_correlation_id = None,
      tc_extra = None, tc_trigger_label = None, tc_trigger_index = None\<rparr>"

subsection \<open>Bus events\<close>

text \<open>
  The events the rule engine distinguishes carry their fields; the others, which the engine only
  passes over, are \<open>EvOther\<close> with their serialised tag.
\<close>

datatype event =
    EvDeviceStateChanged string "(string \<times> json) list" "(string \<times> json) list" device_change
  | EvDeviceAvailabilityChanged string bool
  | EvRuleFired uuid string string nat
  | EvDeviceBatteryLow string f64 f64
  | EvDeviceBatteryRecovered string f64
  | EvAlertRaised alert bool
  | EvAlertCleared string string "alert option"
  | EvAlertAcknowledged alert
  | EvMqttMessage string bytes bool
  | EvCustom string json
  | EvOther string

end
