(* ===== verification/Triggers.thy ===== *)
theory Triggers
  imports Rule_Types
begin

text \<open>
  Trigger matching of the rule engine (\<open>hc-core/src/engine.rs\<close>, from
  \<open>extract_trigger_ctx\<close> to \<open>num_cmp\<close>): which events start which rules, the dispatcher's
  pre-filter, the re-check of a trigger with a duration, the context an event gives to a firing,
  MQTT topic patterns and JSON comparison.

  Code outside the repository is a field of the record \<open>externals\<close>: the JSON parser and pointer
  lookup of \<open>serde_json\<close>, the text forms of values, Unicode lower-casing, UUID parsing,
  reading an alert back from JSON, and the Rhai interpreter behind \<open>ScriptRuntime\<close>.
\<close>

text \<open>The attributes of each device, as the engine caches them and as scripts see them.\<close>

type_synonym device_attrs = "string \<rightharpoonup> string \<rightharpoonup> json"

record externals =
  parse_json :: "string \<Rightarrow> json option"
  json_pointer :: "json \<Rightarrow> string \<Rightarrow> json option"
  show_json :: "json \<Rightarrow> string"
  show_utc :: "timestamp \<Rightarrow> string"
  show_time :: "nanos \<Rightarrow> string"
  show_hms :: "nanos \<Rightarrow> string"
  to_lowercase :: "string \<Rightarrow> string"
  parse_uuid :: "string \<Rightarrow> uuid option"
  show_uuid :: "uuid \<Rightarrow> string"
  alert_of_json :: "json \<Rightarrow> alert option"
  eval_condition_script ::
    "string \<Rightarrow> device_attrs \<Rightarrow> (string \<rightharpoonup> json) \<Rightarrow> trigger_context \<Rightarrow> (string, bool) result"

subsection \<open>Comparison of JSON values\<close>

definition num_cmp :: "json \<Rightarrow> json \<Rightarrow> ordering option" where
  "num_cmp a b = (case (as_f64 a, as_f64 b) of (Some x, Some y) \<Rightarrow> partial_cmp x y | _ \<Rightarrow> None)"

definition compare_op_symbol :: "compare_op \<Rightarrow> string" where
  "compare_op_symbol op =
     (case op of OpEq \<Rightarrow> ''=='' | OpNe \<Rightarrow> ''!='' | OpGt \<Rightarrow> ''>'' | OpGte \<Rightarrow> ''>='' | OpLt \<Rightarrow> ''<''
      | OpLte \<Rightarrow> ''<='')"

definition compare :: "json \<Rightarrow> compare_op \<Rightarrow> json \<Rightarrow> bool" where
  "compare actual op expected =
     (case op of
        OpEq \<Rightarrow> actual = expected
      | OpNe \<Rightarrow> actual \<noteq> expected
      | OpGt \<Rightarrow> num_cmp actual expected = Some Greater
      | OpGte \<Rightarrow> num_cmp actual expected = Some Greater \<or> num_cmp actual expected = Some Equal
      | OpLt \<Rightarrow> num_cmp actual expected = Some Less
      | OpLte \<Rightarrow> num_cmp actual expected = Some Less \<or> num_cmp actual expected = Some Equal)"

subsection \<open>MQTT topic patterns\<close>

fun topic_parts_match :: "string list \<Rightarrow> string list \<Rightarrow> bool" where
  "topic_parts_match [] ts \<longleftrightarrow> ts = []"
| "topic_parts_match (p # ps) ts \<longleftrightarrow>
     (if p = ''#'' then True
      else case ts of [] \<Rightarrow> False
           | t # ts' \<Rightarrow> if p = ''+'' \<or> p = t then topic_parts_match ps ts' else False)"

definition mqtt_topic_matches :: "string \<Rightarrow> string \<Rightarrow> bool" where
  "mqtt_topic_matches pattern topic =
     topic_parts_match (split_on (CHR ''/'') pattern) (split_on (CHR ''/'') topic)"

subsection \<open>The trigger matcher\<close>

datatype trigger_result = Matched | NoMatch string

type_synonym attrs = "(string \<times> json) list"

definition check_attribute ::
  "string \<Rightarrow> json option \<Rightarrow> json option \<Rightarrow> json option \<Rightarrow> json option \<Rightarrow> attrs \<Rightarrow> attrs \<Rightarrow> string option"
where
  "check_attribute attr to' from' not_from not_to current previous =
     (case map_of current attr of
        None \<Rightarrow> Some ''attribute not in current state''
      | Some curr_val \<Rightarrow>
          let prev_val = map_of previous attr in
          if prev_val = Some curr_val then Some ''attribute value unchanged''
          else if \<not> is_none_or to' (\<lambda>expected. curr_val = expected) then
            Some ''attribute did not change to expected value (to)''
          else if \<not> is_none_or not_to (\<lambda>excluded. curr_val \<noteq> excluded) then
            Some ''attribute changed to excluded value (not_to)''
          else if \<not> is_none_or from' (\<lambda>expected. prev_val = Some expected) then
            Some ''previous value does not match 'from' filter''
          else if \<not> is_none_or not_from (\<lambda>excluded. prev_val \<noteq> Some excluded) then
            Some ''previous value matches 'not_from' exclusion''
          else None)"

definition check_device_state_changed :: "trigger \<Rightarrow> string \<Rightarrow> attrs \<Rightarrow> attrs \<Rightarrow> device_change \<Rightarrow> trigger_result"
where
  "check_device_state_changed t eid current previous change =
     (if \<not> (tr_device_id t = eid \<or> eid \<in> set (tr_device_ids t)) then NoMatch ''device_id mismatch''
      else case (case tr_attribute t of None \<Rightarrow> None
                 | Some attr \<Rightarrow> check_attribute attr (tr_to t) (tr_from t) (tr_not_from t) (tr_not_to t)
                     current previous) of
        Some reason \<Rightarrow> NoMatch reason
      | None \<Rightarrow>
          if \<not> is_none_or (tr_change_kind t) (\<lambda>k. dc_kind change = k) then NoMatch ''change_kind mismatch''
          else if \<not> is_none_or (tr_change_source t) (\<lambda>s. dc_source change = Some s) then
            NoMatch ''change_source mismatch''
          else Matched)"

definition button_attribute :: "button_event_type \<Rightarrow> string" where
  "button_attribute b =
     (case b of Pushed \<Rightarrow> ''pushed'' | Held \<Rightarrow> ''held'' | DoubleTapped \<Rightarrow> ''double_tapped''
      | Released \<Rightarrow> ''released'')"

text \<open>\<open>as u32\<close> keeps the low 32 bits of the button number.\<close>

definition check_button_event ::
  "string \<Rightarrow> nat option \<Rightarrow> button_event_type \<Rightarrow> string \<Rightarrow> attrs \<Rightarrow> attrs \<Rightarrow> trigger_result"
where
  "check_button_event device_id button_number btn_event eid current previous =
     (if device_id \<noteq> eid then NoMatch ''device_id mismatch''
      else let attr = button_attribute btn_event in
      case map_of current attr of
        None \<Rightarrow> NoMatch ''button attribute not in current state''
      | Some new_val \<Rightarrow>
          if map_of previous attr = Some new_val then NoMatch ''button attribute value unchanged''
          else if \<not> is_none_or button_number
                 (\<lambda>b. (case as_u64 new_val of None \<Rightarrow> 0 | Some n \<Rightarrow> n mod 2 ^ 32) = b) then
            NoMatch ''button number mismatch''
          else Matched)"

definition attr_f64 :: "attrs \<Rightarrow> string \<Rightarrow> f64 option" where
  "attr_f64 m a = Option.bind (map_of m a) as_f64"

definition threshold_fires :: "threshold_op \<Rightarrow> f64 \<Rightarrow> f64 option \<Rightarrow> f64 \<Rightarrow> bool" where
  "threshold_fires op threshold prev_f curr_f =
     (case op of
        Above \<Rightarrow> f64_lt threshold curr_f
      | Below \<Rightarrow> f64_lt curr_f threshold
      | CrossesAbove \<Rightarrow>
          (case prev_f of None \<Rightarrow> False | Some p \<Rightarrow> f64_le p threshold) \<and> f64_lt threshold curr_f
      | CrossesBelow \<Rightarrow>
          (case prev_f of None \<Rightarrow> False | Some p \<Rightarrow> f64_le threshold p) \<and> f64_lt curr_f threshold)"

definition check_numeric_threshold ::
  "string \<Rightarrow> string \<Rightarrow> threshold_op \<Rightarrow> f64 \<Rightarrow> string \<Rightarrow> attrs \<Rightarrow> attrs \<Rightarrow> trigger_result"
where
  "check_numeric_threshold device_id attribute op threshold eid current previous =
     (if device_id \<noteq> eid then NoMatch ''device_id mismatch''
      else case attr_f64 current attribute of
        None \<Rightarrow> NoMatch ''attribute not numeric in current state''
      | Some curr_f \<Rightarrow>
          if threshold_fires op threshold (attr_f64 previous attribute) curr_f then Matched
          else NoMatch ''threshold condition not met'')"

definition check_mqtt_message ::
  "externals \<Rightarrow> string \<Rightarrow> string option \<Rightarrow> string option \<Rightarrow> compare_op option \<Rightarrow> json option \<Rightarrow>
   string \<Rightarrow> bytes \<Rightarrow> trigger_result"
where
  "check_mqtt_message x topic_pattern expected_payload value_path value_op value_cmp topic msg_payload =
     (if \<not> mqtt_topic_matches topic_pattern topic then NoMatch ''topic pattern mismatch''
      else let payload_str = from_utf8_lossy msg_payload in
      if \<not> is_none_or expected_payload (\<lambda>expected. payload_str = expected) then NoMatch ''payload mismatch''
      else case (value_path, value_op, value_cmp) of
        (Some path, Some op, Some cmp) \<Rightarrow>
          (case parse_json x payload_str of
             None \<Rightarrow> NoMatch ''payload is not valid JSON for value_path match''
           | Some j \<Rightarrow>
               (case json_pointer x j path of
                  None \<Rightarrow> NoMatch ''value_path not found in payload''
                | Some actual \<Rightarrow>
                    if \<not> compare actual op cmp then NoMatch ''value_path comparison failed'' else Matched))
      | _ \<Rightarrow> Matched)"

definition check_mode_changed :: "string option \<Rightarrow> bool option \<Rightarrow> json \<Rightarrow> trigger_result" where
  "check_mode_changed mode_id to' payload =
     (if \<not> is_none_or mode_id (\<lambda>m. Option.bind (json_get payload ''mode_id'') as_str = Some m) then
        NoMatch ''mode_id mismatch''
      else if \<not> is_none_or to' (\<lambda>on. (case Option.bind (json_get payload ''on'') as_bool of
                                         None \<Rightarrow> False | Some b \<Rightarrow> b) = on) then
        NoMatch ''mode 'to' state mismatch''
      else Matched)"

definition check_alert :: "alert_filter \<Rightarrow> alert \<Rightarrow> trigger_result" where
  "check_alert f a = (if filter_matches f a then Matched else NoMatch ''not an alert like that'')"

definition check_alert_cleared :: "alert_filter \<Rightarrow> alert option \<Rightarrow> trigger_result" where
  "check_alert_cleared f a =
     (case a of
        Some al \<Rightarrow> if filter_matches f al then Matched else NoMatch ''not an alert like that''
      | None \<Rightarrow> if f = alert_filter_default then Matched else NoMatch ''not an alert like that'')"

definition is_scheduler_trigger :: "trigger \<Rightarrow> bool" where
  "is_scheduler_trigger t =
     (case t of TrTimeOfDay _ _ \<Rightarrow> True | TrSunEvent _ _ \<Rightarrow> True | TrCron _ \<Rightarrow> True
      | TrPeriodic _ _ \<Rightarrow> True | TrCalendarEvent _ _ _ \<Rightarrow> True | _ \<Rightarrow> False)"

text \<open>The reason given for a pair of trigger and event that no arm of the match is about.\<close>

definition unrelated_reason :: "trigger \<Rightarrow> event \<Rightarrow> string" where
  "unrelated_reason t e =
     (case e of
        EvDeviceStateChanged _ _ _ _ \<Rightarrow> ''wrong trigger type for DeviceStateChanged''
      | _ \<Rightarrow>
          if is_scheduler_trigger t then ''handled by scheduler''
          else if t = TrManualTrigger then ''manual trigger only fires via API''
          else (case e of
              EvDeviceAvailabilityChanged _ _ \<Rightarrow> ''wrong trigger type for DeviceAvailabilityChanged''
            | EvDeviceBatteryLow _ _ _ \<Rightarrow> ''wrong trigger type for DeviceBatteryLow''
            | EvDeviceBatteryRecovered _ _ \<Rightarrow> ''wrong trigger type for DeviceBatteryRecovered''
            | _ \<Rightarrow> ''event type does not match trigger type''))"

definition check_battery :: "string option \<Rightarrow> string \<Rightarrow> trigger_result" where
  "check_battery want ev_device =
     (case want of
        Some w \<Rightarrow> if w \<noteq> ev_device then NoMatch ''device_id mismatch'' else Matched
      | None \<Rightarrow> Matched)"

definition check_custom :: "trigger \<Rightarrow> string \<Rightarrow> json \<Rightarrow> trigger_result" where
  "check_custom t event_type payload =
     (case t of
        TrWebhookReceived path \<Rightarrow>
          if event_type \<noteq> ''webhook'' then NoMatch ''not a webhook event''
          else if Option.bind (json_get payload ''path'') as_str = Some path then Matched
          else NoMatch ''webhook path mismatch''
      | TrCustomEvent et \<Rightarrow> if et = event_type then Matched else NoMatch ''event_type mismatch''
      | TrSystemStarted \<Rightarrow>
          if event_type = ''system_started'' then Matched else NoMatch ''not system_started''
      | TrHubVariableChanged want \<Rightarrow>
          if event_type = ''hub_variable_changed'' then
            (case want of None \<Rightarrow> Matched
             | Some n \<Rightarrow>
                 if Option.bind (json_get payload ''name'') as_str = Some n then Matched
                 else NoMatch ''hub variable name mismatch'')
          else NoMatch (unrelated_reason t (EvCustom event_type payload))
      | TrModeChanged mode_id to' \<Rightarrow>
          if event_type = ''mode_changed'' then check_mode_changed mode_id to' payload
          else NoMatch (unrelated_reason t (EvCustom event_type payload))
      | _ \<Rightarrow> NoMatch (unrelated_reason t (EvCustom event_type payload)))"

definition trigger_check :: "externals \<Rightarrow> trigger \<Rightarrow> event \<Rightarrow> trigger_result" where
  "trigger_check x t e =
     (case e of
        EvDeviceStateChanged eid current previous change \<Rightarrow>
          (case t of
             TrDeviceStateChanged _ _ _ _ _ _ _ _ _ _ \<Rightarrow>
               check_device_state_changed t eid current previous change
           | TrButtonEvent device_id button_number btn_event \<Rightarrow>
               check_button_event device_id button_number btn_event eid current previous
           | TrNumericThreshold device_id attribute op value _ \<Rightarrow>
               check_numeric_threshold device_id attribute op value eid current previous
           | _ \<Rightarrow> NoMatch (unrelated_reason t e))
      | EvMqttMessage topic payload _ \<Rightarrow>
          (case t of
             TrMqttMessage pat pl vp vo vc \<Rightarrow> check_mqtt_message x pat pl vp vo vc topic payload
           | _ \<Rightarrow> NoMatch (unrelated_reason t e))
      | EvCustom event_type payload \<Rightarrow> check_custom t event_type payload
      | EvDeviceAvailabilityChanged ev_device available \<Rightarrow>
          (case t of
             TrDeviceAvailabilityChanged device_id to' _ \<Rightarrow>
               if device_id \<noteq> ev_device then NoMatch ''device_id mismatch''
               else if \<not> is_none_or to' (\<lambda>expected. expected = available) then
                 NoMatch ''availability mismatch''
               else Matched
           | _ \<Rightarrow> NoMatch (unrelated_reason t e))
      | EvDeviceBatteryLow ev_device _ _ \<Rightarrow>
          (case t of TrDeviceBatteryLow want \<Rightarrow> check_battery want ev_device
           | _ \<Rightarrow> NoMatch (unrelated_reason t e))
      | EvDeviceBatteryRecovered ev_device _ \<Rightarrow>
          (case t of TrDeviceBatteryRecovered want \<Rightarrow> check_battery want ev_device
           | _ \<Rightarrow> NoMatch (unrelated_reason t e))
      | EvAlertRaised a update \<Rightarrow>
          (case t of
             TrAlertRaised f \<Rightarrow>
               if update then NoMatch ''an alert already active changed, not a new one''
               else check_alert f a
           | _ \<Rightarrow> NoMatch (unrelated_reason t e))
      | EvAlertCleared _ _ a \<Rightarrow>
          (case t of TrAlertCleared f \<Rightarrow> check_alert_cleared f a
           | _ \<Rightarrow> NoMatch (unrelated_reason t e))
      | EvAlertAcknowledged a \<Rightarrow>
          (case t of TrAlertAcknowledged f \<Rightarrow> check_alert f a
           | _ \<Rightarrow> NoMatch (unrelated_reason t e))
      | _ \<Rightarrow> NoMatch (unrelated_reason t e))"

subsection \<open>The dispatcher's pre-filter\<close>

definition is_api_or_scheduler_only :: "trigger \<Rightarrow> bool" where
  "is_api_or_scheduler_only t =
     (case t of TrTimeOfDay _ _ \<Rightarrow> True | TrSunEvent _ _ \<Rightarrow> True | TrCron _ \<Rightarrow> True
      | TrPeriodic _ _ \<Rightarrow> True | TrAlertActiveFor _ _ \<Rightarrow> True | TrManualTrigger \<Rightarrow> True
      | _ \<Rightarrow> False)"

definition custom_kind_can_match :: "trigger \<Rightarrow> string \<Rightarrow> bool" where
  "custom_kind_can_match t event_type =
     (if event_type = ''webhook'' then (case t of TrWebhookReceived _ \<Rightarrow> True | _ \<Rightarrow> False)
      else if event_type = ''hub_variable_changed'' then
        (case t of TrHubVariableChanged _ \<Rightarrow> True | _ \<Rightarrow> False)
      else if event_type = ''calendar_event'' then
        (case t of TrCalendarEvent _ _ _ \<Rightarrow> True | _ \<Rightarrow> False)
      else if event_type = ''system_started'' then (case t of TrSystemStarted \<Rightarrow> True | _ \<Rightarrow> False)
      else if event_type = ''mode_changed'' then (case t of TrModeChanged _ _ \<Rightarrow> True | _ \<Rightarrow> False)
      else (case t of TrCustomEvent _ \<Rightarrow> True | _ \<Rightarrow> False))"

definition trigger_kind_can_match_event :: "trigger \<Rightarrow> event \<Rightarrow> bool" where
  "trigger_kind_can_match_event t e =
     (if is_api_or_scheduler_only t then False
      else case e of
        EvDeviceStateChanged _ _ _ _ \<Rightarrow>
          (case t of TrDeviceStateChanged _ _ _ _ _ _ _ _ _ _ \<Rightarrow> True | TrButtonEvent _ _ _ \<Rightarrow> True
           | TrNumericThreshold _ _ _ _ _ \<Rightarrow> True | _ \<Rightarrow> False)
      | EvDeviceAvailabilityChanged _ _ \<Rightarrow>
          (case t of TrDeviceAvailabilityChanged _ _ _ \<Rightarrow> True | _ \<Rightarrow> False)
      | EvDeviceBatteryLow _ _ _ \<Rightarrow> (case t of TrDeviceBatteryLow _ \<Rightarrow> True | _ \<Rightarrow> False)
      | EvDeviceBatteryRecovered _ _ \<Rightarrow> (case t of TrDeviceBatteryRecovered _ \<Rightarrow> True | _ \<Rightarrow> False)
      | EvAlertRaised _ _ \<Rightarrow> (case t of TrAlertRaised _ \<Rightarrow> True | _ \<Rightarrow> False)
      | EvAlertCleared _ _ _ \<Rightarrow> (case t of TrAlertCleared _ \<Rightarrow> True | _ \<Rightarrow> False)
      | EvAlertAcknowledged _ \<Rightarrow> (case t of TrAlertAcknowledged _ \<Rightarrow> True | _ \<Rightarrow> False)
      | EvMqttMessage _ _ _ \<Rightarrow> (case t of TrMqttMessage _ _ _ _ _ \<Rightarrow> True | _ \<Rightarrow> False)
      | EvCustom event_type _ \<Rightarrow> custom_kind_can_match t event_type
      | _ \<Rightarrow> True)"

subsection \<open>Triggers with a duration\<close>

definition trigger_for_duration :: "trigger \<Rightarrow> nat option" where
  "trigger_for_duration t =
     (case t of
        TrDeviceStateChanged _ _ _ _ _ _ _ d _ _ \<Rightarrow> d
      | TrDeviceAvailabilityChanged _ _ d \<Rightarrow> d
      | TrNumericThreshold _ _ _ _ d \<Rightarrow> d
      | _ \<Rightarrow> None)"

definition still_matches_for_duration :: "trigger \<Rightarrow> device_attrs \<Rightarrow> bool" where
  "still_matches_for_duration t cache =
     (case t of
        TrDeviceStateChanged device_id _ attribute to' _ _ not_to _ _ _ \<Rightarrow>
          (case cache device_id of
             None \<Rightarrow> False
           | Some attrs \<Rightarrow>
               (case attribute of
                  None \<Rightarrow> True
                | Some attr \<Rightarrow>
                    (case attrs attr of
                       None \<Rightarrow> False
                     | Some cur \<Rightarrow>
                         is_none_or to' (\<lambda>expected. cur = expected)
                         \<and> is_none_or not_to (\<lambda>excluded. cur \<noteq> excluded))))
      | TrNumericThreshold device_id attribute op threshold _ \<Rightarrow>
          (case cache device_id of
             None \<Rightarrow> False
           | Some attrs \<Rightarrow>
               (case Option.bind (attrs attribute) as_f64 of
                  None \<Rightarrow> False
                | Some curr_f \<Rightarrow>
                    (case op of
                       Above \<Rightarrow> f64_lt threshold curr_f | CrossesAbove \<Rightarrow> f64_lt threshold curr_f
                     | Below \<Rightarrow> f64_lt curr_f threshold | CrossesBelow \<Rightarrow> f64_lt curr_f threshold)))
      | _ \<Rightarrow> True)"

text \<open>\<open>get_available\<close> is the state store's answer: the device's availability, if it is known.\<close>

definition availability_held :: "(string \<rightharpoonup> bool) \<Rightarrow> trigger \<Rightarrow> bool option \<Rightarrow> bool" where
  "availability_held get_available t held =
     (case t of
        TrDeviceAvailabilityChanged device_id _ _ \<Rightarrow>
          (case held of None \<Rightarrow> False | Some h \<Rightarrow> get_available device_id = Some h)
      | _ \<Rightarrow> True)"

definition trigger_type :: "trigger \<Rightarrow> string" where
  "trigger_type t =
     (case t of
        TrDeviceStateChanged _ _ _ _ _ _ _ _ _ _ \<Rightarrow> ''DeviceStateChanged''
      | TrMqttMessage _ _ _ _ _ \<Rightarrow> ''MqttMessage''
      | TrTimeOfDay _ _ \<Rightarrow> ''TimeOfDay''
      | TrSunEvent _ _ \<Rightarrow> ''SunEvent''
      | TrWebhookReceived _ \<Rightarrow> ''WebhookReceived''
      | TrManualTrigger \<Rightarrow> ''ManualTrigger''
      | TrCustomEvent _ \<Rightarrow> ''CustomEvent''
      | TrSystemStarted \<Rightarrow> ''SystemStarted''
      | TrCron _ \<Rightarrow> ''Cron''
      | TrDeviceAvailabilityChanged _ _ _ \<Rightarrow> ''DeviceAvailabilityChanged''
      | TrButtonEvent _ _ _ \<Rightarrow> ''ButtonEvent''
      | TrNumericThreshold _ _ _ _ _ \<Rightarrow> ''NumericThreshold''
      | TrPeriodic _ _ \<Rightarrow> ''Periodic''
      | TrHubVariableChanged _ \<Rightarrow> ''HubVariableChanged''
      | TrCalendarEvent _ _ _ \<Rightarrow> ''CalendarEvent''
      | TrModeChanged _ _ \<Rightarrow> ''ModeChanged''
      | TrDeviceBatteryLow _ \<Rightarrow> ''DeviceBatteryLow''
      | TrDeviceBatteryRecovered _ \<Rightarrow> ''DeviceBatteryRecovered''
      | TrAlertRaised _ \<Rightarrow> ''AlertRaised''
      | TrAlertCleared _ \<Rightarrow> ''AlertCleared''
      | TrAlertAcknowledged _ \<Rightarrow> ''AlertAcknowledged''
      | TrAlertActiveFor _ _ \<Rightarrow> ''AlertActiveFor'')"

subsection \<open>The context of a firing\<close>

definition severity_as_str :: "alert_severity \<Rightarrow> string" where
  "severity_as_str s =
     (case s of Info \<Rightarrow> ''info'' | Warning \<Rightarrow> ''warning'' | SevError \<Rightarrow> ''error''
      | Critical \<Rightarrow> ''critical'')"

definition opt_field :: "string \<Rightarrow> json option \<Rightarrow> (string \<times> json) list" where
  "opt_field k v = (case v of None \<Rightarrow> [] | Some j \<Rightarrow> [(k, j)])"

definition alert_action_to_json :: "alert_action \<Rightarrow> json" where
  "alert_action_to_json a = JObj
     ((if aa_confirm a then [(''confirm'', JBool True)] else [])
      @ [(''id'', JStr (aa_id a)), (''label'', JStr (aa_label a))]
      @ (if aa_params a = JNull then [] else [(''params'', aa_params a)])
      @ (if aa_target a = TargetDevice then [] else [(''target'', JStr ''plugin'')]))"

definition alert_to_json :: "externals \<Rightarrow> alert \<Rightarrow> json" where
  "alert_to_json x a = JObj
     (opt_field ''acknowledged''
        (map_option (\<lambda>k. JObj [(''at'', JStr (show_utc x (ack_at k))), (''by'', JStr (ack_by k))])
           (al_acknowledged a))
      @ opt_field ''action'' (map_option alert_action_to_json (al_action a))
      @ [(''device_id'', JStr (al_device_id a))]
      @ opt_field ''device_plugin_id'' (map_option JStr (al_device_plugin_id a))
      @ [(''id'', JStr (al_id a))]
      @ opt_field ''key'' (map_option JStr (al_key a))
      @ [(''kind'', JStr (alert_kind_as_str (al_kind a))), (''message'', JStr (al_message a))]
      @ opt_field ''plugin_id'' (map_option JStr (al_plugin_id a))
      @ [(''raised_at'', JStr (show_utc x (al_raised_at a))), (''reason'', JStr (al_reason a))]
      @ opt_field ''rule_id'' (map_option JStr (al_rule_id a))
      @ [(''severity'', JStr (severity_as_str (al_severity a)))]
      @ opt_field ''topic'' (map_option JStr (al_topic a)))"

definition trigger_alert_id :: "trigger_context \<Rightarrow> string option" where
  "trigger_alert_id tctx =
     Option.bind (tc_extra tctx) (\<lambda>e. Option.bind (json_get e ''alert'')
       (\<lambda>a. Option.bind (json_get a ''id'') as_str))"

definition alert_trigger_ctx :: "externals \<Rightarrow> alert \<Rightarrow> string \<Rightarrow> string option \<Rightarrow> trigger_context" where
  "alert_trigger_ctx x a event_type label = trigger_context_default
     \<lparr>tc_device_id := Some (al_device_id a), tc_event_type := Some event_type,
      tc_extra := Some (JObj [(''alert'', alert_to_json x a)]), tc_trigger_label := label\<rparr>"

text \<open>The attribute a device event is about, as the trigger names it.\<close>

definition ctx_attribute :: "trigger \<Rightarrow> string option" where
  "ctx_attribute t =
     (case t of
        TrDeviceStateChanged _ _ attribute _ _ _ _ _ _ _ \<Rightarrow> attribute
      | TrButtonEvent _ _ b \<Rightarrow> Some (button_attribute b)
      | TrNumericThreshold _ attribute _ _ _ \<Rightarrow> Some attribute
      | _ \<Rightarrow> None)"

definition device_trigger_ctx ::
  "string \<Rightarrow> attrs \<Rightarrow> attrs \<Rightarrow> device_change \<Rightarrow> trigger \<Rightarrow> string option \<Rightarrow> trigger_context"
where
  "device_trigger_ctx device_id current previous change t label =
     (let attr = ctx_attribute t;
          vals = (case attr of
              Some a \<Rightarrow> (map_of current a, map_of previous a)
            | None \<Rightarrow>
                (case List.find (\<lambda>(k, v). map_of previous k \<noteq> Some v) current of
                   Some (_, v) \<Rightarrow> (Some v, None) | None \<Rightarrow> (None, None))) in
      \<lparr>tc_device_id = Some device_id, tc_attribute = attr, tc_value = fst vals,
       tc_prev_value = snd vals, tc_event_type = Some ''device_state_changed'',
       tc_change_kind = Some (dc_kind change), tc_change_source = dc_source change,
       tc_change_actor_id = dc_actor_id change, tc_change_actor_name = dc_actor_name change,
       tc_correlation_id = dc_correlation_id change, tc_extra = None, tc_trigger_label = label,
       tc_trigger_index = None\<rparr>)"

definition trigger_ctx_of :: "externals \<Rightarrow> event \<Rightarrow> trigger \<Rightarrow> string option \<Rightarrow> trigger_context" where
  "trigger_ctx_of x e t label =
     (case e of
        EvDeviceStateChanged device_id current previous change \<Rightarrow>
          device_trigger_ctx device_id current previous change t label
      | EvMqttMessage topic payload _ \<Rightarrow> trigger_context_default
          \<lparr>tc_value := Some (JStr (from_utf8_lossy payload)),
           tc_event_type := Some (''mqtt:'' @ topic), tc_trigger_label := label\<rparr>
      | EvCustom event_type payload \<Rightarrow>
          if event_type = ''webhook'' then trigger_context_default
            \<lparr>tc_value := json_get payload ''body'', tc_event_type := Some event_type,
             tc_extra := json_get payload ''query'', tc_trigger_label := label\<rparr>
          else trigger_context_default
            \<lparr>tc_value := Some payload, tc_event_type := Some event_type, tc_trigger_label := label\<rparr>
      | EvAlertRaised a _ \<Rightarrow> alert_trigger_ctx x a ''alert_raised'' label
      | EvAlertAcknowledged a \<Rightarrow> alert_trigger_ctx x a ''alert_acknowledged'' label
      | EvAlertCleared _ _ (Some a) \<Rightarrow> alert_trigger_ctx x a ''alert_cleared'' label
      | EvDeviceAvailabilityChanged device_id available \<Rightarrow> trigger_context_default
          \<lparr>tc_device_id := Some device_id, tc_attribute := Some ''available'',
           tc_value := Some (JBool available),
           tc_event_type := Some ''device_availability_changed'', tc_trigger_label := label\<rparr>
      | EvDeviceBatteryLow device_id battery_pct threshold_pct \<Rightarrow> trigger_context_default
          \<lparr>tc_device_id := Some device_id, tc_attribute := Some ''battery'',
           tc_value := map_option JNum (from_f64 battery_pct),
           tc_prev_value := map_option JNum (from_f64 threshold_pct),
           tc_event_type := Some ''device_battery_low'', tc_trigger_label := label\<rparr>
      | EvDeviceBatteryRecovered device_id battery_pct \<Rightarrow> trigger_context_default
          \<lparr>tc_device_id := Some device_id, tc_attribute := Some ''battery'',
           tc_value := map_option JNum (from_f64 battery_pct),
           tc_event_type := Some ''device_battery_recovered'', tc_trigger_label := label\<rparr>
      | _ \<Rightarrow> trigger_context_default)"

definition extract_trigger_ctx :: "externals \<Rightarrow> event \<Rightarrow> rule \<Rightarrow> trigger \<Rightarrow> nat \<Rightarrow> trigger_context" where
  "extract_trigger_ctx x e r t index =
     (let tctx = trigger_ctx_of x e t (ru_trigger_label r) in
      if ru_triggers r \<noteq> [] then tctx\<lparr>tc_trigger_index := Some index\<rparr> else tctx)"

definition MANUAL_RUN :: string where
  "MANUAL_RUN = ''manual_run''"

definition nth_trigger :: "rule \<Rightarrow> nat \<Rightarrow> trigger" where
  "nth_trigger r i = (if i < length (all_triggers r) then all_triggers r ! i else ru_trigger r)"

definition matched_trigger :: "rule \<Rightarrow> trigger_context \<Rightarrow> trigger" where
  "matched_trigger r tctx =
     nth_trigger r (case tc_trigger_index tctx of None \<Rightarrow> 0 | Some i \<Rightarrow> i)"

definition fired_by :: "rule \<Rightarrow> trigger_context \<Rightarrow> string" where
  "fired_by r tctx =
     (if tc_event_type tctx = Some MANUAL_RUN then ''ManualRun''
      else trigger_type (matched_trigger r tctx))"

text \<open>
  The dispatch loop's search: the first of the rule's triggers that passes the pre-filter and
  matches, with its index.
\<close>

fun find_matching :: "externals \<Rightarrow> event \<Rightarrow> nat \<Rightarrow> trigger list \<Rightarrow> (nat \<times> trigger) option" where
  "find_matching x e i [] = None"
| "find_matching x e i (t # ts) =
     (if \<not> trigger_kind_can_match_event t e then find_matching x e (Suc i) ts
      else if trigger_check x t e = Matched then Some (i, t)
      else find_matching x e (Suc i) ts)"

subsection \<open>A sample instance of the outside code\<close>

text \<open>For concrete runs: no text is JSON, lower-casing leaves text alone, every script is true.\<close>

definition sample_externals :: externals where
  "sample_externals =
     \<lparr>parse_json = (\<lambda>s. None), json_pointer = (\<lambda>j p. None), show_json = (\<lambda>j. []),
      show_utc = (\<lambda>t. []), show_time = (\<lambda>t. []), show_hms = (\<lambda>t. []), to_lowercase = (\<lambda>s. s),
      parse_uuid = (\<lambda>s. Some (length s)), show_uuid = (\<lambda>u. replicate u CHR ''0''),
      alert_of_json = (\<lambda>j. None), eval_condition_script = (\<lambda>s d h t. Inr True)\<rparr>"

definition sample_change :: device_change where
  "sample_change = \<lparr>dc_changed_at = 0, dc_kind = Unknown, dc_source = None, dc_actor_id = None,
     dc_actor_name = None, dc_correlation_id = None\<rparr>"

definition sample_rule :: rule where
  "sample_rule =
     \<lparr>ru_id = 1, ru_name = ''sample'', ru_enabled = True, ru_priority = 0, ru_tags = [],
      ru_trigger = TrManualTrigger, ru_triggers = [], ru_conditions = [], ru_actions = [],
      ru_error = None, ru_cooldown_secs = None, ru_log_events = False, ru_log_triggers = False,
      ru_log_actions = False, ru_required_expression = None, ru_cancel_on_false = False,
      ru_trigger_condition = None, ru_variables = Map.empty, ru_trigger_label = None,
      ru_run_mode = Parallel\<rparr>"

section \<open>Theorems\<close>

subsection \<open>Comparison\<close>

lemma num_cmp_Some:
  "num_cmp a b = Some r \<longleftrightarrow> (\<exists>x y. as_f64 a = Some x \<and> as_f64 b = Some y \<and> partial_cmp x y = Some r)"
  by (auto simp: num_cmp_def split: option.splits)

lemma num_cmp_flip:
  "num_cmp b a = Some Less \<longleftrightarrow> num_cmp a b = Some Greater"
  "num_cmp b a = Some Equal \<longleftrightarrow> num_cmp a b = Some Equal"
  by (auto simp: num_cmp_Some partial_cmp_flip)

lemma compare_simps [simp]:
  "compare a OpEq b \<longleftrightarrow> a = b"
  "compare a OpNe b \<longleftrightarrow> a \<noteq> b"
  "compare a OpGt b \<longleftrightarrow> num_cmp a b = Some Greater"
  "compare a OpLt b \<longleftrightarrow> num_cmp a b = Some Less"
  "compare a OpGte b \<longleftrightarrow> num_cmp a b = Some Greater \<or> num_cmp a b = Some Equal"
  "compare a OpLte b \<longleftrightarrow> num_cmp a b = Some Less \<or> num_cmp a b = Some Equal"
  by (simp_all add: compare_def)

lemma compare_numeric_only:
  assumes "op \<in> {OpGt, OpGte, OpLt, OpLte}" and "compare a op b"
  shows "\<exists>x y. as_f64 a = Some x \<and> as_f64 b = Some y \<and> x \<noteq> NaN \<and> y \<noteq> NaN"
proof -
  from assms have "num_cmp a b \<noteq> None"
    by (auto simp: compare_def split: compare_op.splits)
  then obtain x y where "as_f64 a = Some x" "as_f64 b = Some y" "partial_cmp x y \<noteq> None"
    by (auto simp: num_cmp_def split: option.splits)
  then show ?thesis by (simp add: partial_cmp_None)
qed

lemma num_cmp_cases:
  assumes "as_f64 a = Some x" "as_f64 b = Some y" "x \<noteq> NaN" "y \<noteq> NaN"
  obtains "num_cmp a b = Some Less" | "num_cmp a b = Some Equal" | "num_cmp a b = Some Greater"
proof -
  have "num_cmp a b = partial_cmp x y"
    using assms by (simp add: num_cmp_def)
  moreover have "partial_cmp x y \<noteq> None"
    using assms by (simp add: partial_cmp_None)
  ultimately show ?thesis
    using that by (metis option.exhaust ordering.exhaust)
qed

subsection \<open>Topics\<close>

lemma topic_parts_match_iff:
  "topic_parts_match ps ts \<longleftrightarrow>
     (\<exists>k<length ps. ps ! k = ''#'' \<and> k \<le> length ts \<and> (\<forall>i<k. ps ! i = ''+'' \<or> ps ! i = ts ! i))
     \<or> (length ps = length ts \<and> (\<forall>i<length ps. ps ! i = ''+'' \<or> ps ! i = ts ! i))"
  (is "?M ps ts \<longleftrightarrow> ?H ps ts \<or> ?L ps ts")
proof (induction ps arbitrary: ts)
  case Nil
  then show ?case by auto
next
  case (Cons p ps)
  show ?case
  proof (cases "p = ''#''")
    case True
    then have "?H (p # ps) ts" by (intro exI [of _ 0]) simp
    with True show ?thesis by simp
  next
    case no_hash: False
    show ?thesis
    proof (cases ts)
      case Nil
      with no_hash show ?thesis by (auto simp: nth_Cons')
    next
      case (Cons t ts')
      have H: "?H (p # ps) (t # ts') \<longleftrightarrow> (p = ''+'' \<or> p = t) \<and> ?H ps ts'"
      proof
        assume "?H (p # ps) (t # ts')"
        then obtain k where k: "k < Suc (length ps)" "(p # ps) ! k = ''#''" "k \<le> Suc (length ts')"
          and below: "\<forall>i<k. (p # ps) ! i = ''+'' \<or> (p # ps) ! i = (t # ts') ! i" by auto
        from no_hash k obtain j where j: "k = Suc j" by (cases k) auto
        with below have "p = ''+'' \<or> p = t" by (metis nth_Cons_0 zero_less_Suc)
        moreover have "?H ps ts'"
          using k below j by (intro exI [of _ j]) (auto dest: spec [of _ "Suc _"])
        ultimately show "(p = ''+'' \<or> p = t) \<and> ?H ps ts'" ..
      next
        assume "(p = ''+'' \<or> p = t) \<and> ?H ps ts'"
        then obtain k where "p = ''+'' \<or> p = t" "k < length ps" "ps ! k = ''#''" "k \<le> length ts'"
          "\<forall>i<k. ps ! i = ''+'' \<or> ps ! i = ts' ! i" by auto
        then show "?H (p # ps) (t # ts')"
          by (intro exI [of _ "Suc k"]) (auto simp: less_Suc_eq_0_disj)
      qed
      have L: "?L (p # ps) (t # ts') \<longleftrightarrow> (p = ''+'' \<or> p = t) \<and> ?L ps ts'"
        by (auto simp: less_Suc_eq_0_disj)
      have "?M (p # ps) (t # ts') \<longleftrightarrow> (p = ''+'' \<or> p = t) \<and> ?M ps ts'"
        using no_hash by simp
      then show ?thesis
        unfolding Cons using H L Cons.IH by blast
    qed
  qed
qed

lemma topic_parts_match_refl: "topic_parts_match ts ts"
  by (simp add: topic_parts_match_iff)

lemma split_on_inject: "split_on c s = split_on c t \<longleftrightarrow> s = t"
  by (metis join_split_on)

lemma mqtt_topic_matches_literal:
  assumes "''#'' \<notin> set (split_on (CHR ''/'') p)" and "''+'' \<notin> set (split_on (CHR ''/'') p)"
  shows "mqtt_topic_matches p t \<longleftrightarrow> p = t"
proof -
  let ?ps = "split_on (CHR ''/'') p" and ?ts = "split_on (CHR ''/'') t"
  have "topic_parts_match ?ps ?ts \<longleftrightarrow> length ?ps = length ?ts \<and> (\<forall>i<length ?ps. ?ps ! i = ?ts ! i)"
    using assms by (auto simp: topic_parts_match_iff in_set_conv_nth)
  also have "\<dots> \<longleftrightarrow> ?ps = ?ts" by (simp add: list_eq_iff_nth_eq)
  finally show ?thesis by (simp add: mqtt_topic_matches_def split_on_inject)
qed

subsection \<open>What a match means\<close>

lemma check_attribute_None:
  "check_attribute attr to' from' not_from not_to cur prev = None \<longleftrightarrow>
     (\<exists>v. map_of cur attr = Some v \<and> map_of prev attr \<noteq> Some v
        \<and> (\<forall>w. to' = Some w \<longrightarrow> v = w) \<and> (\<forall>w. not_to = Some w \<longrightarrow> v \<noteq> w)
        \<and> (\<forall>w. from' = Some w \<longrightarrow> map_of prev attr = Some w)
        \<and> (\<forall>w. not_from = Some w \<longrightarrow> map_of prev attr \<noteq> Some w))"
  by (auto simp: check_attribute_def is_none_or_def Let_def split: option.splits)

lemma check_device_state_changed_Matched:
  "check_device_state_changed t eid cur prev ch = Matched \<longleftrightarrow>
     (tr_device_id t = eid \<or> eid \<in> set (tr_device_ids t))
     \<and> (\<forall>a. tr_attribute t = Some a \<longrightarrow>
          check_attribute a (tr_to t) (tr_from t) (tr_not_from t) (tr_not_to t) cur prev = None)
     \<and> (\<forall>k. tr_change_kind t = Some k \<longrightarrow> dc_kind ch = k)
     \<and> (\<forall>s. tr_change_source t = Some s \<longrightarrow> dc_source ch = Some s)"
  by (auto simp: check_device_state_changed_def is_none_or_def split: option.splits)

lemma check_numeric_threshold_Matched:
  "check_numeric_threshold d a op th eid cur prev = Matched \<longleftrightarrow>
     d = eid \<and> (\<exists>v. attr_f64 cur a = Some v \<and> threshold_fires op th (attr_f64 prev a) v)"
  by (auto simp: check_numeric_threshold_def split: option.splits)

lemma trigger_check_device_simps [simp]:
  "trigger_check x (TrDeviceStateChanged d ds a t f nf nt fd ck cs) (EvDeviceStateChanged eid cur prev ch)
     = check_device_state_changed (TrDeviceStateChanged d ds a t f nf nt fd ck cs) eid cur prev ch"
  "trigger_check x (TrNumericThreshold d att op v fd) (EvDeviceStateChanged eid cur prev ch)
     = check_numeric_threshold d att op v eid cur prev"
  by (simp_all add: trigger_check_def)

definition reserved_event_types :: "string set" where
  "reserved_event_types =
     {''webhook'', ''hub_variable_changed'', ''calendar_event'', ''system_started'', ''mode_changed''}"

lemma check_custom_prefilter:
  "check_custom t et pl = Matched \<and> \<not> custom_kind_can_match t et \<longleftrightarrow>
     t = TrCustomEvent et \<and> et \<in> reserved_event_types"
  by (cases t) (auto simp: check_custom_def custom_kind_can_match_def reserved_event_types_def)

lemma check_custom_api_only: "check_custom t et pl = Matched \<Longrightarrow> \<not> is_api_or_scheduler_only t"
  by (cases t) (auto simp: check_custom_def is_api_or_scheduler_only_def)

lemma prefilter_drops_iff:
  "trigger_check x t e = Matched \<and> \<not> trigger_kind_can_match_event t e \<longleftrightarrow>
     (\<exists>et pl. t = TrCustomEvent et \<and> e = EvCustom et pl \<and> et \<in> reserved_event_types)"
proof (cases e)
  case (EvCustom et pl)
  then show ?thesis
    using check_custom_prefilter [of t et pl] check_custom_api_only [of t et pl]
    by (auto simp: trigger_check_def trigger_kind_can_match_event_def is_api_or_scheduler_only_def)
qed (cases t; simp add: trigger_check_def trigger_kind_can_match_event_def
        is_api_or_scheduler_only_def)+

subsection \<open>The dispatcher's search\<close>

definition starts :: "externals \<Rightarrow> event \<Rightarrow> trigger \<Rightarrow> bool" where
  "starts x e t \<longleftrightarrow> trigger_kind_can_match_event t e \<and> trigger_check x t e = Matched"

lemma find_matching_Some:
  "find_matching x e i ts = Some (j, t) \<longleftrightarrow>
     i \<le> j \<and> j - i < length ts \<and> ts ! (j - i) = t \<and> starts x e t
     \<and> (\<forall>k<j - i. \<not> starts x e (ts ! k))"
proof (induction ts arbitrary: i)
  case (Cons u ts)
  show ?case
  proof (cases "starts x e u")
    case True
    then show ?thesis by (auto simp: starts_def) (metis diff_self_eq_0 le_antisym nat_less_le nth_Cons_0 zero_less_diff)+
  next
    case False
    then have "find_matching x e i (u # ts) = find_matching x e (Suc i) ts"
      by (auto simp: starts_def)
    also have "\<dots> = Some (j, t) \<longleftrightarrow> Suc i \<le> j \<and> j - Suc i < length ts \<and> ts ! (j - Suc i) = t
        \<and> starts x e t \<and> (\<forall>k<j - Suc i. \<not> starts x e (ts ! k))"
      by (rule Cons.IH)
    also have "\<dots> \<longleftrightarrow> i \<le> j \<and> j - i < length (u # ts) \<and> (u # ts) ! (j - i) = t \<and> starts x e t
        \<and> (\<forall>k<j - i. \<not> starts x e ((u # ts) ! k))"
    proof (cases "i < j")
      case True
      then obtain d where "j = Suc (i + d)" by (auto simp: less_iff_Suc_add)
      with False show ?thesis by (auto simp: less_Suc_eq_0_disj)
    next
      case False
      with \<open>\<not> starts x e u\<close> show ?thesis by (auto simp: nth_Cons')
    qed
    finally show ?thesis .
  qed
qed simp

lemma find_matching_None: "find_matching x e i ts = None \<longleftrightarrow> (\<forall>t\<in>set ts. \<not> starts x e t)"
  by (induction ts arbitrary: i) (auto simp: starts_def)

subsection \<open>Properties\<close>

text \<open>
  C6. What the dispatcher's pre-filter loses. Of the triggers that \<open>trigger_check\<close> would match on an event, the pre-filter drops
  exactly the \<open>CustomEvent\<close> triggers that name one of the five event types the engine emits itself
  (\<open>webhook\<close>, \<open>hub_variable_changed\<close>, \<open>calendar_event\<close>, \<open>system_started\<close>, \<open>mode_changed\<close>).
  (It may let through triggers that \<open>trigger_check\<close> then turns down.)
\<close>

theorem prefilter_loses_iff:
  "trigger_check x t e = Matched \<and> \<not> trigger_kind_can_match_event t e \<longleftrightarrow>
     (\<exists>et pl. t = TrCustomEvent et \<and> e = EvCustom et pl \<and> et \<in> reserved_event_types)"
  by (rule prefilter_drops_iff)

text \<open>
  A rule is started by the first of its triggers that passes the pre-filter and matches: the
  search returns index \<open>i\<close> exactly when trigger \<open>i\<close> starts the rule and none before it does,
  and it finds nothing exactly when no trigger starts the rule.
\<close>

theorem first_matching_trigger_starts:
  "(find_matching x e 0 (all_triggers r) = Some (i, t) \<longleftrightarrow>
      i < length (all_triggers r) \<and> all_triggers r ! i = t \<and> starts x e t
      \<and> (\<forall>k<i. \<not> starts x e (all_triggers r ! k)))
   \<and> (find_matching x e 0 (all_triggers r) = None \<longleftrightarrow> \<not> list_ex (starts x e) (all_triggers r))"
  by (simp add: find_matching_Some find_matching_None list_ex_iff)

theorem first_matching_trigger_starts_witness:
  "\<exists>i t. find_matching sample_externals (EvCustom ''bell'' JNull) 0
      (all_triggers (sample_rule\<lparr>ru_triggers := [TrCustomEvent ''bell'']\<rparr>)) = Some (i, t)
    \<and> i = 1 \<and> starts sample_externals (EvCustom ''bell'' JNull) t"
  using first_matching_trigger_starts [of sample_externals "EvCustom ''bell'' JNull"
      "sample_rule\<lparr>ru_triggers := [TrCustomEvent ''bell'']\<rparr>" 1 "TrCustomEvent ''bell''"]
  by (simp add: all_triggers_def sample_rule_def starts_def trigger_check_def check_custom_def
      trigger_kind_can_match_event_def is_api_or_scheduler_only_def custom_kind_can_match_def)

text \<open>
  The topic matcher is MQTT's rule: up to the first \<open>#\<close> level of the pattern, or to the end
  of both, every pattern level is \<open>+\<close> or equal to the topic's level at its place.
\<close>

theorem mqtt_topic_matches_spec:
  "mqtt_topic_matches p t \<longleftrightarrow>
     (let ps = split_on (CHR ''/'') p; ts = split_on (CHR ''/'') t in
      (\<exists>k<length ps. ps ! k = ''#'' \<and> k \<le> length ts \<and> (\<forall>i<k. ps ! i = ''+'' \<or> ps ! i = ts ! i))
      \<or> (length ps = length ts \<and> (\<forall>i<length ps. ps ! i = ''+'' \<or> ps ! i = ts ! i)))"
  unfolding mqtt_topic_matches_def Let_def by (rule topic_parts_match_iff)

theorem mqtt_topic_matches_spec_witness:
  "mqtt_topic_matches ''homecore/+/state'' ''homecore/lamp/state''
   \<and> mqtt_topic_matches ''homecore/#'' ''homecore'' \<and> \<not> mqtt_topic_matches ''homecore/+'' ''homecore''"
  using mqtt_topic_matches_spec [of "''homecore/#''" "''homecore''"]
  by (simp add: mqtt_topic_matches_def)

lemma threshold_step_up:
  assumes lo: "f64_le (v i) th" and hi: "f64_lt th (v j)" and ij: "i < j"
    and num: "\<And>k. i \<le> k \<Longrightarrow> k \<le> j \<Longrightarrow> v k \<noteq> NaN" and th: "th \<noteq> NaN"
  shows "\<exists>k. i \<le> k \<and> k < j \<and> f64_le (v k) th \<and> f64_lt th (v (Suc k))"
  using lo hi ij num
proof (induction j)
  case (Suc j)
  show ?case
  proof (cases "f64_le (v j) th")
    case True
    with Suc.prems show ?thesis by (intro exI [of _ j]) auto
  next
    case False
    with Suc.prems(1) have "j \<noteq> i" by auto
    with Suc.prems have "i < j" "v j \<noteq> NaN" by auto
    with False th have "f64_lt th (v j)" using f64_total by blast
    with Suc \<open>i < j\<close> show ?thesis by (meson le_SucI less_SucI)
  qed
qed simp

text \<open>Event \<open>k\<close> of a sequence of reports of one device, and whether it matches.\<close>

definition report_fires ::
  "externals \<Rightarrow> trigger \<Rightarrow> string \<Rightarrow> device_change \<Rightarrow> (nat \<Rightarrow> attrs) \<Rightarrow> nat \<Rightarrow> bool"
where
  "report_fires x t d ch cur k \<longleftrightarrow>
     trigger_check x t (EvDeviceStateChanged d (cur (Suc k)) (cur k) ch) = Matched"

text \<open>
  A \<open>CrossesAbove\<close> threshold is an edge: on a sequence of reports in which each event's
  previous attributes are the reported ones before it, it matches somewhere between a value at or
  below the threshold and a later value above it (no crossing is missed), and between two
  matches the value has been at or below the threshold again.
\<close>

theorem crosses_above_edge:
  assumes num: "\<And>k. i \<le> k \<Longrightarrow> k \<le> j \<Longrightarrow> attr_f64 (cur k) a = Some (v k) \<and> v k \<noteq> NaN"
    and th: "th \<noteq> NaN" and ij: "i < j" and lo: "f64_le (v i) th" and hi: "f64_lt th (v j)"
    and t: "t = TrNumericThreshold d a CrossesAbove th fd"
  shows "(\<exists>k. i \<le> k \<and> k < j \<and> report_fires x t d ch cur k)
         \<and> (\<forall>k m. i \<le> k \<and> k < m \<and> m < j \<and> report_fires x t d ch cur k \<and> report_fires x t d ch cur m
              \<longrightarrow> Suc k < m \<and> f64_le (v m) th)"
proof -
  have fires: "report_fires x t d ch cur k \<longleftrightarrow> f64_le (v k) th \<and> f64_lt th (v (Suc k))"
    if "i \<le> k" "k < j" for k
    using num [of k] num [of "Suc k"] that
    by (simp add: t report_fires_def check_numeric_threshold_Matched threshold_fires_def)
  have "\<exists>k. i \<le> k \<and> k < j \<and> report_fires x t d ch cur k"
    using threshold_step_up [of v i th j] num th ij lo hi fires by blast
  moreover have "Suc k < m \<and> f64_le (v m) th"
    if "i \<le> k" "k < m" "m < j" "report_fires x t d ch cur k" "report_fires x t d ch cur m" for k m
  proof -
    have "f64_le (v m) th" "f64_lt th (v (Suc k))"
      using that fires [of k] fires [of m] by auto
    then have "Suc k \<noteq> m" using f64_lt_not_le by blast
    with \<open>k < m\<close> \<open>f64_le (v m) th\<close> show ?thesis by simp
  qed
  ultimately show ?thesis by blast
qed

theorem crosses_above_edge_witness:
  "\<exists>k<2. report_fires sample_externals (TrNumericThreshold ''d'' ''t'' CrossesAbove (Fin 20) None)
     ''d'' sample_change (\<lambda>k. [(''t'', JNum (Float (Fin (if k = 2 then 25 else 18))))]) k"
  using crosses_above_edge [where i = 0 and j = 2 and d = "''d''" and a = "''t''" and th = "Fin 20"
      and cur = "\<lambda>k. [(''t'', JNum (Float (Fin (if k = 2 then 25 else 18))))]"
      and v = "\<lambda>k. Fin (if k = 2 then 25 else 18)" and x = sample_externals and fd = None
      and ch = sample_change, OF _ _ _ _ _ refl]
  by (simp add: attr_f64_def)

lemma recheck_after_attribute:
  assumes "check_attribute a to' from' not_from not_to cur prev = None"
    and "\<And>k v. map_of cur k = Some v \<Longrightarrow> m k = Some v"
  shows "\<exists>v. m a = Some v \<and> is_none_or to' (\<lambda>w. v = w) \<and> is_none_or not_to (\<lambda>w. v \<noteq> w)"
  using assms by (auto simp: check_attribute_None is_none_or_def split: option.splits)

text \<open>
  A device trigger with a duration that has just matched on its own device passes its
  re-check as long as the cache still holds what the event reported: the delayed firing asks for
  nothing the match did not have.
\<close>

theorem recheck_holds_after_match:
  assumes "trigger_check x t (EvDeviceStateChanged d cur prev ch) = Matched"
    and "trigger_for_duration t = Some secs"
    and "case t of TrDeviceStateChanged d' _ _ _ _ _ _ _ _ _ \<Rightarrow> d' = d | _ \<Rightarrow> True"
    and "cache d = Some m" and "\<And>k v. map_of cur k = Some v \<Longrightarrow> m k = Some v"
  shows "still_matches_for_duration t cache"
proof (cases t)
  case (TrDeviceStateChanged d' ds a to' from' nf nt fd ck cs)
  with assms have dev: "cache d' = Some m" by simp
  show ?thesis
  proof (cases a)
    case (Some attr)
    with TrDeviceStateChanged assms(1) have "check_attribute attr to' from' nf nt cur prev = None"
      by (simp add: check_device_state_changed_Matched)
    from recheck_after_attribute [where m = m, OF this assms(5)] show ?thesis
      using TrDeviceStateChanged Some dev by (auto simp: still_matches_for_duration_def)
  qed (simp add: TrDeviceStateChanged dev still_matches_for_duration_def)
next
  case (TrNumericThreshold d' a op th fd)
  then obtain v where "d' = d" "attr_f64 cur a = Some v" "threshold_fires op th (attr_f64 prev a) v"
    using assms(1) by (auto simp: check_numeric_threshold_Matched)
  moreover from this assms(5) have "Option.bind (m a) as_f64 = Some v"
    by (auto simp: attr_f64_def bind_eq_Some_conv)
  ultimately show ?thesis
    using TrNumericThreshold assms(4)
    by (cases op) (auto simp: still_matches_for_duration_def threshold_fires_def)
qed (use assms in \<open>simp_all add: trigger_check_def trigger_for_duration_def\<close>)

theorem recheck_holds_after_match_witness:
  "still_matches_for_duration
     (TrDeviceStateChanged ''lamp'' [] (Some ''on'') (Some (JBool True)) None None None (Some 60)
        None None) [''lamp'' \<mapsto> [''on'' \<mapsto> JBool True]]"
  by (rule recheck_holds_after_match [where x = sample_externals and d = "''lamp''"
        and cur = "[(''on'', JBool True)]" and prev = "[(''on'', JBool False)]"
        and ch = sample_change and secs = 60 and m = "[''on'' \<mapsto> JBool True]"])
    (auto simp: check_device_state_changed_Matched check_attribute_None trigger_for_duration_def
        split: if_splits)

text \<open>
  The re-check of a trigger that names several devices looks at the first device only: it
  ignores the state of the device whose change matched, so a trigger "any of these stays on"
  fires or not by the state of another device.
\<close>

theorem recheck_ignores_other_devices:
  assumes "t = TrDeviceStateChanged first others a to' from' nf nt fd ck cs" and "d \<noteq> first"
  shows "still_matches_for_duration t (cache(d := s)) = still_matches_for_duration t cache"
  using assms by (simp add: still_matches_for_duration_def)

theorem recheck_ignores_other_devices_witness:
  "let t = TrDeviceStateChanged ''a'' [''b''] (Some ''on'') (Some (JBool True)) None None None
             (Some 60) None None in
   trigger_check sample_externals t
     (EvDeviceStateChanged ''b'' [(''on'', JBool True)] [(''on'', JBool False)] sample_change) = Matched
   \<and> \<not> still_matches_for_duration t
        ([''a'' \<mapsto> [''on'' \<mapsto> JBool False]](''b'' := Some [''on'' \<mapsto> JBool True]))"
  using recheck_ignores_other_devices [where d = "''b''" and first = "''a''" and others = "[''b'']"
      and a = "Some ''on''" and to' = "Some (JBool True)" and from' = None and nf = None and nt = None
      and fd = "Some 60" and ck = None and cs = None and cache = "[''a'' \<mapsto> [''on'' \<mapsto> JBool False]]"
      and s = "Some [''on'' \<mapsto> JBool True]", OF refl]
  by (simp add: Let_def still_matches_for_duration_def check_device_state_changed_Matched
      check_attribute_None)

lemma extract_trigger_index:
  "tc_trigger_index (extract_trigger_ctx x e r t i) = (if ru_triggers r = [] then None else Some i)"
  by (simp add: extract_trigger_ctx_def Let_def trigger_ctx_of_def device_trigger_ctx_def
      alert_trigger_ctx_def trigger_context_default_def split: event.splits option.splits)

text \<open>
  A firing's context leads back to the trigger that started it: the trigger recovered from
  the context of a match is the one the search found, so the history records its kind (unless the
  event's type is the reserved word for a run someone asked for).
\<close>

theorem matched_trigger_roundtrip:
  assumes "find_matching x e 0 (all_triggers r) = Some (i, t)"
  shows "matched_trigger r (extract_trigger_ctx x e r t i) = t
    \<and> fired_by r (extract_trigger_ctx x e r t i) =
        (if tc_event_type (extract_trigger_ctx x e r t i) = Some MANUAL_RUN then ''ManualRun''
         else trigger_type t)"
proof -
  from assms have "i < length (all_triggers r)" "all_triggers r ! i = t"
    by (auto simp: find_matching_Some)
  then have "matched_trigger r (extract_trigger_ctx x e r t i) = t"
    by (auto simp: matched_trigger_def extract_trigger_index nth_trigger_def all_triggers_def)
  then show ?thesis by (simp add: fired_by_def)
qed

theorem matched_trigger_roundtrip_witness:
  "matched_trigger (sample_rule\<lparr>ru_triggers := [TrSystemStarted]\<rparr>)
     (extract_trigger_ctx sample_externals (EvCustom ''system_started'' JNull)
        (sample_rule\<lparr>ru_triggers := [TrSystemStarted]\<rparr>) TrSystemStarted 1) = TrSystemStarted"
  by (rule matched_trigger_roundtrip [THEN conjunct1])
    (simp add: all_triggers_def sample_rule_def trigger_check_def check_custom_def
      trigger_kind_can_match_event_def is_api_or_scheduler_only_def custom_kind_can_match_def)

lemma trigger_alert_id_roundtrip:
  "trigger_alert_id (alert_trigger_ctx x a et l) = Some (al_id a)"
  by (auto simp: trigger_alert_id_def alert_trigger_ctx_def alert_to_json_def opt_field_def
      split: option.splits)

text \<open>
  Ordering comparisons of a condition are numeric and total: on two numbers that are not
  \<open>NaN\<close> exactly one of greater, less and neither holds, \<open>>=\<close> and \<open><=\<close> are the negations
  of the strict ones, and swapping the sides swaps the operator.
\<close>

theorem compare_total_order:
  assumes "as_f64 a = Some u" "as_f64 b = Some v" "u \<noteq> NaN" "v \<noteq> NaN"
  shows "compare a OpGte b = (\<not> compare a OpLt b) \<and> compare a OpLte b = (\<not> compare a OpGt b)
    \<and> compare a OpGt b = compare b OpLt a \<and> compare a OpGte b = compare b OpLte a
    \<and> \<not> (compare a OpGt b \<and> compare a OpLt b)"
  by (rule num_cmp_cases [OF assms]) (auto simp: num_cmp_flip [of b a])

theorem compare_total_order_witness:
  "compare (JNum (PosInt 21)) OpGte (JNum (Float (Fin 20)))
     = (\<not> compare (JNum (PosInt 21)) OpLt (JNum (Float (Fin 20))))"
  by (rule compare_total_order [THEN conjunct1, of _ "Fin 21" _ "Fin 20"])
    (simp_all add: f64_of_nat_exact)

text \<open>
  Equality of a condition is not numeric equality: a whole number and the same value stored
  as a float compare as both \<open>>=\<close> and \<open><=\<close> but not as equal.
\<close>

theorem compare_eq_is_not_numeric:
  "n \<le> 2 ^ 53 \<Longrightarrow>
     (let a = JNum (PosInt n); b = JNum (Float (Fin (rat_of_nat n))) in
      compare a OpGte b \<and> compare a OpLte b \<and> \<not> compare a OpEq b \<and> compare a OpNe b)"
  by (simp add: f64_of_nat_exact num_cmp_def)

theorem compare_eq_is_not_numeric_witness:
  "compare (JNum (PosInt 20)) OpGte (JNum (Float (Fin 20)))
   \<and> compare (JNum (PosInt 20)) OpLte (JNum (Float (Fin 20)))
   \<and> \<not> compare (JNum (PosInt 20)) OpEq (JNum (Float (Fin 20)))"
  using compare_eq_is_not_numeric [of 20] by (simp add: Let_def)

end
