(* ===== verification/Conditions.thy ===== *)
theory Conditions
  imports Triggers
begin

text \<open>
  Condition evaluation of the rule engine (\<open>hc-core/src/engine.rs\<close>, \<open>evaluate_conditions\<close>,
  \<open>evaluate_one\<close>, \<open>alert_check\<close>): the engine's shared state, what it reads from the world
  around it (the clock, the device store, the calendars, the active alerts), one definition per
  condition with the trace it records, and the short-circuit evaluation of a rule's list.

  Time does not pass inside one evaluation. Parameters that only feed log lines are left out.
\<close>

subsection \<open>Traces and firings\<close>

record condition_trace =
  ct_condition_type :: string
  ct_passed :: bool
  ct_actual :: "json option"
  ct_expected :: "json option"
  ct_reason :: string

datatype action_outcome = AoSuccess | AoError string | AoSkipped

record action_trace =
  at_index :: nat
  at_action_type :: string
  at_description :: string
  at_outcome :: action_outcome
  at_duration_ms :: nat

datatype fire_outcome =
    Fired
  | ConditionFailed nat string
  | Cooldown nat
  | Paused
  | RequiredExpressionFailed
  | TriggerGateFailed
  | Skipped string

record rule_firing =
  rf_timestamp :: timestamp
  rf_trigger_type :: string
  rf_trigger_context :: trigger_context
  rf_outcome :: fire_outcome
  rf_conditions :: "condition_trace list"
  rf_actions :: "action_trace list"
  rf_eval_ms :: nat

text \<open>
  An evaluation ends early with an error of the script runtime, which the caller passes on, or
  with a panic, which takes the engine's task down.
\<close>

datatype engine_error = ScriptError string | Panic string

subsection \<open>The engine's state and its world\<close>

text \<open>
  A rule's runs in flight: how many, and the newest one's stop flag. The engine shares these
  objects with the tasks it spawns, so they live in a heap; a stop flag is the number of its run.
\<close>

record rule_runs =
  rr_count :: nat
  rr_latest :: "nat option"

definition rule_runs_default :: rule_runs where
  "rule_runs_default = \<lparr>rr_count = 0, rr_latest = None\<rparr>"

text \<open>
  A spawned task that runs a rule's actions. A queued run waits for its turn
  (\<open>rt_turn = False\<close>); the others start with the snapshot of the firing.
\<close>

record run_task =
  rt_id :: nat
  rt_rule :: rule
  rt_obj :: nat
  rt_tctx :: trigger_context
  rt_snapshot :: device_attrs
  rt_turn :: bool
  rt_lost :: bool
  rt_conditions :: "condition_trace list"
  rt_eval_ms :: nat

text \<open>A spawned task that waits for a trigger's duration and re-checks it.\<close>

record deferred_task =
  df_due :: nanos
  df_rule_id :: uuid
  df_trigger :: trigger
  df_index :: nat
  df_held :: "bool option"

record engine =
  en_rules :: "rule list"
  en_device_cache :: device_attrs
  en_attr_changed_at :: "string \<rightharpoonup> string \<rightharpoonup> timestamp"
  en_fire_history :: "uuid \<rightharpoonup> rule_firing list"
  en_in_flight :: nat
  en_cooldown_map :: "uuid \<rightharpoonup> nanos"
  en_delay_registry :: "string set"
  en_pause_state :: "uuid \<rightharpoonup> bool"
  en_rule_vars :: "uuid \<times> string \<rightharpoonup> json"
  en_priv_bools :: "uuid \<times> string \<rightharpoonup> bool"
  en_capture_store :: "uuid \<times> string \<rightharpoonup> (string \<times> (string \<rightharpoonup> json)) list"
  en_hub_vars :: "string \<rightharpoonup> json"
  en_rule_in_flight :: "uuid \<rightharpoonup> nat"
  en_heap :: "nat \<Rightarrow> rule_runs"
  en_next_obj :: nat
  en_runs :: "run_task list"
  en_next_run :: nat
  en_stopped :: "nat set"
  en_deferred :: "deferred_task list"
  en_published :: "event list"

record stored_device =
  sd_canonical_name :: "string option"
  sd_name :: string
  sd_name_override :: "string option"
  sd_available :: bool
  sd_last_change :: "device_change option"

record cal_event =
  ce_summary :: string
  ce_start :: timestamp
  ce_end :: timestamp

record calendar_entry =
  cal_id :: string
  cal_events :: "cal_event list"

record world =
  w_now :: timestamp
  w_time :: nanos
  w_instant :: nanos
  w_devices :: "string \<rightharpoonup> stored_device"
  w_calendars :: "calendar_entry list option"
  w_alerts :: "alert list option"

definition device_log_name :: "world \<Rightarrow> string \<Rightarrow> string" where
  "device_log_name w device_id =
     (case w_devices w device_id of
        Some d \<Rightarrow>
          (case option_or (sd_canonical_name d) (if sd_name d = [] then None else Some (sd_name d)) of
             Some n \<Rightarrow> n | None \<Rightarrow> device_id)
      | None \<Rightarrow> device_id)"

subsection \<open>Text\<close>

fun show_nat :: "nat \<Rightarrow> string" where
  "show_nat n = (if n < 10 then [char_of (48 + n)] else show_nat (n div 10) @ [char_of (48 + n mod 10)])"

declare show_nat.simps [simp del]

definition show_bool :: "bool \<Rightarrow> string" where
  "show_bool b = (if b then ''true'' else ''false'')"

definition pass_fail :: "bool \<Rightarrow> string" where
  "pass_fail b = '' '' @ [CHR 0xE2, CHR 0x86, CHR 0x92] @ (if b then '' pass'' else '' FAIL'')"

subsection \<open>One definition per condition\<close>

type_synonym snapshot = device_attrs

type_synonym cond_result = "bool \<times> condition_trace"

definition mk_trace :: "string \<Rightarrow> bool \<Rightarrow> json option \<Rightarrow> json option \<Rightarrow> string \<Rightarrow> cond_result" where
  "mk_trace kind passed actual expected reason =
     (passed, \<lparr>ct_condition_type = kind, ct_passed = passed, ct_actual = actual,
               ct_expected = expected, ct_reason = reason\<rparr>)"

definition quoted :: "string \<Rightarrow> string" where
  "quoted s = [CHR 0x27] @ s @ [CHR 0x27]"

definition eval_device_state ::
  "externals \<Rightarrow> world \<Rightarrow> engine \<Rightarrow> string \<Rightarrow> string \<Rightarrow> compare_op \<Rightarrow> json \<Rightarrow> cond_result"
where
  "eval_device_state x w en device_id attribute op value =
     (let device = device_log_name w device_id in
      case en_device_cache en device_id of
        None \<Rightarrow> mk_trace ''device_state'' False None (Some value)
                  (''device '' @ quoted device @ '' not found in cache'')
      | Some attrs \<Rightarrow>
          (case attrs attribute of
             None \<Rightarrow> mk_trace ''device_state'' False None (Some value)
                       (''device '' @ quoted device @ '' has no attribute '' @ quoted attribute)
           | Some actual \<Rightarrow>
               let result = compare actual op value in
               mk_trace ''device_state'' result (Some actual) (Some value)
                 (device @ ''.'' @ attribute @ '' '' @ compare_op_symbol op @ '' '' @ show_json x value
                  @ '' (actual: '' @ show_json x actual @ '')'' @ pass_fail result)))"

definition in_time_window :: "nanos \<Rightarrow> nanos \<Rightarrow> nanos \<Rightarrow> bool" where
  "in_time_window start end' now =
     (if start \<le> end' then start \<le> now \<and> now \<le> end' else start \<le> now \<or> now \<le> end')"

definition eval_time_window :: "externals \<Rightarrow> world \<Rightarrow> nanos \<Rightarrow> nanos \<Rightarrow> cond_result" where
  "eval_time_window x w start end' =
     (let now = w_time w; result = in_time_window start end' now in
      mk_trace ''time_window'' result (Some (JStr (show_hms x now)))
        (Some (JStr (show_time x start @ ''-'' @ show_time x end')))
        (''now '' @ show_hms x now @ '' within ['' @ show_time x start @ '', '' @ show_time x end'
         @ '']'' @ pass_fail result))"

text \<open>
  \<open>&script[..80]\<close> panics when byte 80 is inside a character.
\<close>

definition is_char_boundary :: "string \<Rightarrow> nat \<Rightarrow> bool" where
  "is_char_boundary s i \<longleftrightarrow>
     i = 0 \<or> i = length s \<or> (i < length s \<and> \<not> (0x80 \<le> byte (s ! i) \<and> byte (s ! i) < 0xC0))"

definition script_snippet :: "string \<Rightarrow> (engine_error, string) result" where
  "script_snippet script =
     (if 80 < length script then
        if is_char_boundary script 80 then Inr (take 80 script)
        else Inl (Panic ''byte index 80 is not a char boundary'')
      else Inr script)"

definition map_script_error :: "(string, 'a) result \<Rightarrow> (engine_error, 'a) result" where
  "map_script_error r = (case r of Inl e \<Rightarrow> Inl (ScriptError e) | Inr a \<Rightarrow> Inr a)"

definition eval_script_expression ::
  "externals \<Rightarrow> engine \<Rightarrow> snapshot \<Rightarrow> string \<Rightarrow> (engine_error, cond_result) result"
where
  "eval_script_expression x en snap script =
     try_bind (script_snippet script) (\<lambda>snippet.
     try_bind (map_script_error (eval_condition_script x script snap (en_hub_vars en) trigger_context_default))
       (\<lambda>result.
         Inr (mk_trace ''script_expression'' result None (Some (JStr snippet))
               (''script '' @ [CHR 0xE2, CHR 0x86, CHR 0x92] @ '' '' @ show_bool result
                @ pass_fail result))))"

definition eval_private_boolean :: "engine \<Rightarrow> uuid \<Rightarrow> string \<Rightarrow> bool \<Rightarrow> cond_result" where
  "eval_private_boolean en rule_id name value =
     (let actual = (case en_priv_bools en (rule_id, name) of None \<Rightarrow> False | Some b \<Rightarrow> b);
          result = (actual = value) in
      mk_trace ''private_boolean_is'' result (Some (JBool actual)) (Some (JBool value))
        (''priv_bool.'' @ name @ '' == '' @ show_bool value @ '' (actual: '' @ show_bool actual
         @ '')'' @ pass_fail result))"

definition eval_hub_variable ::
  "externals \<Rightarrow> engine \<Rightarrow> string \<Rightarrow> compare_op \<Rightarrow> json \<Rightarrow> cond_result"
where
  "eval_hub_variable x en name op value =
     (let actual = en_hub_vars en name;
          rd = (case actual of Some a \<Rightarrow> (compare a op value, a) | None \<Rightarrow> (False, JNull)) in
      mk_trace ''hub_variable'' (fst rd) (Some (snd rd)) (Some value)
        (''hub.'' @ name @ '' '' @ compare_op_symbol op @ '' '' @ show_json x value @ '' (actual: ''
         @ show_json x (snd rd) @ '')'' @ pass_fail (fst rd)))"

definition eval_mode_is :: "engine \<Rightarrow> string \<Rightarrow> bool \<Rightarrow> cond_result" where
  "eval_mode_is en mode_id expected_on =
     (let actual_on =
            (case Option.bind (en_device_cache en mode_id) (\<lambda>attrs. Option.bind (attrs ''on'') as_bool) of
               None \<Rightarrow> False | Some b \<Rightarrow> b);
          result = (actual_on = expected_on) in
      mk_trace ''mode_is'' result (Some (JBool actual_on)) (Some (JBool expected_on))
        (''mode.'' @ mode_id @ ''.on == '' @ show_bool expected_on @ '' (actual: ''
         @ show_bool actual_on @ '')'' @ pass_fail result))"

text \<open>\<open>(Utc::now() - changed_at).num_seconds().max(0)\<close>: whole seconds, a change in the future
  counts as none.\<close>

definition elapsed_secs :: "timestamp \<Rightarrow> timestamp \<Rightarrow> nat" where
  "elapsed_secs now changed_at = nat ((now - changed_at) div 1000000000)"

definition eval_time_elapsed :: "world \<Rightarrow> engine \<Rightarrow> string \<Rightarrow> string \<Rightarrow> nat \<Rightarrow> cond_result" where
  "eval_time_elapsed w en device_id attribute duration_secs =
     (let device = device_log_name w device_id in
      case Option.bind (en_attr_changed_at en device_id) (\<lambda>ts. ts attribute) of
        None \<Rightarrow> mk_trace ''time_elapsed'' False None (Some (JNum (PosInt duration_secs)))
                  (device @ ''.'' @ attribute @ '' not tracked '' @ [CHR 0xE2, CHR 0x80, CHR 0x94]
                   @ '' no change recorded since startup'')
      | Some changed_at \<Rightarrow>
          let elapsed = elapsed_secs (w_now w) changed_at; result = (duration_secs \<le> elapsed) in
          mk_trace ''time_elapsed'' result (Some (JNum (PosInt elapsed)))
            (Some (JNum (PosInt duration_secs)))
            (device @ ''.'' @ attribute @ '': elapsed '' @ show_nat elapsed @ ''s ''
             @ (if result then ''>='' else ''<'') @ '' '' @ show_nat duration_secs @ ''s''
             @ pass_fail result))"

definition change_kind_as_str :: "device_change_kind \<Rightarrow> string" where
  "change_kind_as_str k =
     (case k of Homecore \<Rightarrow> ''homecore'' | Physical \<Rightarrow> ''physical'' | External \<Rightarrow> ''external''
      | Unknown \<Rightarrow> ''unknown'')"

definition device_change_to_json :: "externals \<Rightarrow> device_change \<Rightarrow> json" where
  "device_change_to_json x c = JObj
     (opt_field ''actor_id'' (map_option JStr (dc_actor_id c))
      @ opt_field ''actor_name'' (map_option JStr (dc_actor_name c))
      @ [(''changed_at'', JStr (show_utc x (dc_changed_at c)))]
      @ opt_field ''correlation_id'' (map_option JStr (dc_correlation_id c))
      @ [(''kind'', JStr (change_kind_as_str (dc_kind c)))]
      @ opt_field ''source'' (map_option JStr (dc_source c)))"

definition opt_json :: "string option \<Rightarrow> json" where
  "opt_json v = (case v of None \<Rightarrow> JNull | Some s \<Rightarrow> JStr s)"

definition provenance_matches ::
  "device_change \<Rightarrow> device_change_kind option \<Rightarrow> string option \<Rightarrow> string option \<Rightarrow> string option \<Rightarrow> bool"
where
  "provenance_matches change kind source actor_id actor_name \<longleftrightarrow>
     is_none_or kind (\<lambda>v. v = dc_kind change) \<and> is_none_or source (\<lambda>v. dc_source change = Some v)
     \<and> is_none_or actor_id (\<lambda>v. dc_actor_id change = Some v)
     \<and> is_none_or actor_name (\<lambda>v. dc_actor_name change = Some v)"

definition eval_device_last_change ::
  "externals \<Rightarrow> world \<Rightarrow> string \<Rightarrow> device_change_kind option \<Rightarrow> string option \<Rightarrow> string option \<Rightarrow>
   string option \<Rightarrow> cond_result"
where
  "eval_device_last_change x w device_id kind source actor_id actor_name =
     (let device = device_log_name w device_id in
      case w_devices w device_id of
        None \<Rightarrow> mk_trace ''device_last_change'' False None None (''device '' @ quoted device @ '' not found'')
      | Some d \<Rightarrow>
          (case sd_last_change d of
             None \<Rightarrow> mk_trace ''device_last_change'' False None None
                       (''device '' @ quoted device @ '' has no last_change metadata'')
           | Some change \<Rightarrow>
               let passed = provenance_matches change kind source actor_id actor_name in
               mk_trace ''device_last_change'' passed (Some (device_change_to_json x change))
                 (Some (JObj [(''actor_id'', opt_json actor_id), (''actor_name'', opt_json actor_name),
                    (''kind'', opt_json (map_option change_kind_as_str kind)),
                    (''source'', opt_json source)]))
                 (device @ (if passed then ''.last_change matched requested provenance''
                            else ''.last_change did not match requested provenance''))))"

text \<open>The scan of one calendar stops at the first event that has not started.\<close>

fun scan_events :: "externals \<Rightarrow> timestamp \<Rightarrow> string option \<Rightarrow> cal_event list \<Rightarrow> string option" where
  "scan_events x now title [] = None"
| "scan_events x now title (ev # evs) =
     (if now < ce_start ev then None
      else if ce_end ev \<le> now then scan_events x now title evs
      else if \<not> is_none_or title
             (\<lambda>s. str_contains (to_lowercase x s) (to_lowercase x (ce_summary ev))) then
        scan_events x now title evs
      else Some (ce_summary ev))"

fun scan_calendars ::
  "externals \<Rightarrow> timestamp \<Rightarrow> string option \<Rightarrow> string option \<Rightarrow> calendar_entry list \<Rightarrow> string option"
where
  "scan_calendars x now cid title [] = None"
| "scan_calendars x now cid title (c # cs) =
     (if \<not> is_none_or cid (\<lambda>i. cal_id c = i) then scan_calendars x now cid title cs
      else case scan_events x now title (cal_events c) of
        Some s \<Rightarrow> Some s
      | None \<Rightarrow> scan_calendars x now cid title cs)"

definition eval_calendar_active ::
  "externals \<Rightarrow> world \<Rightarrow> string option \<Rightarrow> string option \<Rightarrow> cond_result"
where
  "eval_calendar_active x w calendar_id title_contains =
     (case w_calendars w of
        None \<Rightarrow> mk_trace ''calendar_active'' False None None ''no calendar store configured''
      | Some entries \<Rightarrow>
          let matched = scan_calendars x (w_now w) calendar_id title_contains entries;
              result = (matched \<noteq> None) in
          mk_trace ''calendar_active'' result (map_option JStr matched)
            (Some (JObj [(''calendar_id'', opt_json calendar_id),
                         (''title_contains'', opt_json title_contains)]))
            (if result then ''calendar event currently active''
             else ''no matching calendar event active right now''))"

definition alert_names :: "alert list \<Rightarrow> string" where
  "alert_names as = join_with ''; '' (map al_message as)"

definition alert_check :: "condition \<Rightarrow> alert list \<Rightarrow> string option \<Rightarrow> cond_result" where
  "alert_check cond active trig =
     (case cond of
        CoAlertActive f at_least \<Rightarrow>
          let found = filter (filter_matches f) active;
              passed = (max at_least 1 \<le> length found mod 2 ^ 32) in
          mk_trace ''alert_active'' passed (Some (JNum (PosInt (length found)))) None
            (if passed then ''active: '' @ alert_names found
             else if found = [] then ''no alert like that is active''
             else ''only '' @ show_nat (length found) @ '' like that active, not '' @ show_nat at_least)
      | CoNoAlertActive f \<Rightarrow>
          let found = filter (filter_matches f) active; passed = (found = []) in
          mk_trace ''no_alert_active'' passed (Some (JNum (PosInt (length found)))) None
            (if passed then ''no alert like that is active'' else ''active: '' @ alert_names found)
      | CoTriggerAlertActive \<Rightarrow>
          (case trig of
             None \<Rightarrow> mk_trace ''trigger_alert_active'' False None None ''no alert started this''
           | Some aid \<Rightarrow>
               let passed = list_ex (\<lambda>a. al_id a = aid) active in
               mk_trace ''trigger_alert_active'' passed None None
                 (if passed then ''the alert that started this is still active''
                  else ''the alert that started this has cleared''))
      | _ \<Rightarrow> mk_trace ''alert'' False None None ''not an alert check'')"

subsection \<open>Evaluation\<close>

text \<open>
  \<open>And\<close> stops at the first failure, \<open>Or\<close> at the first success, \<open>Xor\<close> counts them all; an
  error of a nested condition ends the evaluation.
\<close>

fun evaluate_one ::
  "externals \<Rightarrow> world \<Rightarrow> engine \<Rightarrow> uuid \<Rightarrow> snapshot \<Rightarrow> string option \<Rightarrow> condition \<Rightarrow>
   (engine_error, cond_result) result"
and eval_and ::
  "externals \<Rightarrow> world \<Rightarrow> engine \<Rightarrow> uuid \<Rightarrow> snapshot \<Rightarrow> string option \<Rightarrow> condition list \<Rightarrow>
   (engine_error, bool) result"
and eval_or ::
  "externals \<Rightarrow> world \<Rightarrow> engine \<Rightarrow> uuid \<Rightarrow> snapshot \<Rightarrow> string option \<Rightarrow> condition list \<Rightarrow>
   (engine_error, bool) result"
and eval_xor ::
  "externals \<Rightarrow> world \<Rightarrow> engine \<Rightarrow> uuid \<Rightarrow> snapshot \<Rightarrow> string option \<Rightarrow> condition list \<Rightarrow>
   (engine_error, nat) result"
where
  "evaluate_one x w en rid snap trig (CoDeviceState d a op v) = Inr (eval_device_state x w en d a op v)"
| "evaluate_one x w en rid snap trig (CoTimeWindow s e) = Inr (eval_time_window x w s e)"
| "evaluate_one x w en rid snap trig (CoScriptExpression s) = eval_script_expression x en snap s"
| "evaluate_one x w en rid snap trig (CoTimeElapsed d a n) = Inr (eval_time_elapsed w en d a n)"
| "evaluate_one x w en rid snap trig (CoDeviceLastChange d k s ai an) =
     Inr (eval_device_last_change x w d k s ai an)"
| "evaluate_one x w en rid snap trig (CoNot c) =
     try_bind (evaluate_one x w en rid snap trig c) (\<lambda>(inner, _).
       Inr (mk_trace ''not'' (\<not> inner) None None
             (''not('' @ show_bool inner @ '')'' @ pass_fail (\<not> inner))))"
| "evaluate_one x w en rid snap trig (CoAnd cs) =
     try_bind (eval_and x w en rid snap trig cs) (\<lambda>all_passed.
       Inr (mk_trace ''and'' all_passed None None
             (''and('' @ show_nat (length cs) @ '' conditions)'' @ pass_fail all_passed)))"
| "evaluate_one x w en rid snap trig (CoOr cs) =
     try_bind (eval_or x w en rid snap trig cs) (\<lambda>any_passed.
       Inr (mk_trace ''or'' any_passed None None
             (''or('' @ show_nat (length cs) @ '' conditions)'' @ pass_fail any_passed)))"
| "evaluate_one x w en rid snap trig (CoXor cs) =
     try_bind (eval_xor x w en rid snap trig cs) (\<lambda>n.
       Inr (mk_trace ''xor'' (n = 1) (Some (JNum (PosInt n))) (Some (JNum (PosInt 1)))
             (''xor('' @ show_nat (length cs) @ '' conditions): '' @ show_nat n @ '' passed''
              @ pass_fail (n = 1))))"
| "evaluate_one x w en rid snap trig (CoPrivateBooleanIs n v) = Inr (eval_private_boolean en rid n v)"
| "evaluate_one x w en rid snap trig (CoHubVariable n op v) = Inr (eval_hub_variable x en n op v)"
| "evaluate_one x w en rid snap trig (CoModeIs m on) = Inr (eval_mode_is en m on)"
| "evaluate_one x w en rid snap trig (CoCalendarActive c t) = Inr (eval_calendar_active x w c t)"
| "evaluate_one x w en rid snap trig (CoAlertActive f n) =
     Inr (alert_check (CoAlertActive f n) (case w_alerts w of None \<Rightarrow> [] | Some as \<Rightarrow> as) trig)"
| "evaluate_one x w en rid snap trig (CoNoAlertActive f) =
     Inr (alert_check (CoNoAlertActive f) (case w_alerts w of None \<Rightarrow> [] | Some as \<Rightarrow> as) trig)"
| "evaluate_one x w en rid snap trig CoTriggerAlertActive =
     Inr (alert_check CoTriggerAlertActive (case w_alerts w of None \<Rightarrow> [] | Some as \<Rightarrow> as) trig)"
| "eval_and x w en rid snap trig [] = Inr True"
| "eval_and x w en rid snap trig (c # cs) =
     try_bind (evaluate_one x w en rid snap trig c) (\<lambda>(passed, _).
       if passed then eval_and x w en rid snap trig cs else Inr False)"
| "eval_or x w en rid snap trig [] = Inr False"
| "eval_or x w en rid snap trig (c # cs) =
     try_bind (evaluate_one x w en rid snap trig c) (\<lambda>(passed, _).
       if passed then Inr True else eval_or x w en rid snap trig cs)"
| "eval_xor x w en rid snap trig [] = Inr 0"
| "eval_xor x w en rid snap trig (c # cs) =
     try_bind (evaluate_one x w en rid snap trig c) (\<lambda>(passed, _).
       try_bind (eval_xor x w en rid snap trig cs) (\<lambda>n. Inr (if passed then Suc n else n)))"

text \<open>A rule's conditions in order, up to and including the first that fails.\<close>

fun evaluate_conditions ::
  "externals \<Rightarrow> world \<Rightarrow> engine \<Rightarrow> uuid \<Rightarrow> snapshot \<Rightarrow> string option \<Rightarrow> condition list \<Rightarrow>
   (engine_error, condition_trace list) result"
where
  "evaluate_conditions x w en rid snap trig [] = Inr []"
| "evaluate_conditions x w en rid snap trig (c # cs) =
     try_bind (evaluate_one x w en rid snap trig c) (\<lambda>(passed, trace).
       if passed then
         try_bind (evaluate_conditions x w en rid snap trig cs) (\<lambda>traces. Inr (trace # traces))
       else Inr [trace])"

definition conditions_passed :: "condition list \<Rightarrow> condition_trace list \<Rightarrow> bool" where
  "conditions_passed cs traces \<longleftrightarrow>
     cs = [] \<or> (length traces = length cs \<and> list_all ct_passed traces)"

section \<open>Theorems\<close>

lemma mk_trace_passed [simp]:
  "fst (mk_trace k p a e r) = p" "ct_passed (snd (mk_trace k p a e r)) = p"
  by (simp_all add: mk_trace_def)

lemma mk_trace_eq: "mk_trace k p a e r = (q, t) \<Longrightarrow> q = p \<and> ct_passed t = p"
  by (auto simp: mk_trace_def)

subsection \<open>What a condition means\<close>

text \<open>
  The reference meaning of a condition: a Boolean, with no order of evaluation, and what it takes
  for the scripts inside a condition to run.
\<close>

definition script_ok :: "externals \<Rightarrow> engine \<Rightarrow> snapshot \<Rightarrow> string \<Rightarrow> bool" where
  "script_ok x en snap s \<longleftrightarrow> (\<exists>r. eval_script_expression x en snap s = Inr r)"

fun scripts_ok :: "externals \<Rightarrow> engine \<Rightarrow> snapshot \<Rightarrow> condition \<Rightarrow> bool" where
  "scripts_ok x en snap (CoScriptExpression s) = script_ok x en snap s"
| "scripts_ok x en snap (CoNot c) = scripts_ok x en snap c"
| "scripts_ok x en snap (CoAnd cs) = list_all (scripts_ok x en snap) cs"
| "scripts_ok x en snap (CoOr cs) = list_all (scripts_ok x en snap) cs"
| "scripts_ok x en snap (CoXor cs) = list_all (scripts_ok x en snap) cs"
| "scripts_ok x en snap _ = True"

fun holds :: "externals \<Rightarrow> world \<Rightarrow> engine \<Rightarrow> uuid \<Rightarrow> snapshot \<Rightarrow> string option \<Rightarrow> condition \<Rightarrow> bool" where
  "holds x w en rid snap trig (CoDeviceState d a op v) =
     (\<exists>attrs actual. en_device_cache en d = Some attrs \<and> attrs a = Some actual \<and> compare actual op v)"
| "holds x w en rid snap trig (CoTimeWindow s e) = in_time_window s e (w_time w)"
| "holds x w en rid snap trig (CoScriptExpression s) =
     (eval_condition_script x s snap (en_hub_vars en) trigger_context_default = Inr True)"
| "holds x w en rid snap trig (CoTimeElapsed d a n) =
     (\<exists>ts at'. en_attr_changed_at en d = Some ts \<and> ts a = Some at' \<and> n \<le> elapsed_secs (w_now w) at')"
| "holds x w en rid snap trig (CoDeviceLastChange d k s ai an) =
     (\<exists>sd ch. w_devices w d = Some sd \<and> sd_last_change sd = Some ch \<and> provenance_matches ch k s ai an)"
| "holds x w en rid snap trig (CoNot c) = (\<not> holds x w en rid snap trig c)"
| "holds x w en rid snap trig (CoAnd cs) = list_all (holds x w en rid snap trig) cs"
| "holds x w en rid snap trig (CoOr cs) = list_ex (holds x w en rid snap trig) cs"
| "holds x w en rid snap trig (CoXor cs) =
     (length (filter (\<lambda>b. b) (map (holds x w en rid snap trig) cs)) = 1)"
| "holds x w en rid snap trig (CoPrivateBooleanIs n v) =
     (v \<longleftrightarrow> en_priv_bools en (rid, n) = Some True)"
| "holds x w en rid snap trig (CoHubVariable n op v) =
     (\<exists>a. en_hub_vars en n = Some a \<and> compare a op v)"
| "holds x w en rid snap trig (CoModeIs m on) =
     (on \<longleftrightarrow> (\<exists>attrs. en_device_cache en m = Some attrs \<and> attrs ''on'' = Some (JBool True)))"
| "holds x w en rid snap trig (CoCalendarActive c t) =
     (\<exists>entries. w_calendars w = Some entries \<and> scan_calendars x (w_now w) c t entries \<noteq> None)"
| "holds x w en rid snap trig (CoAlertActive f n) =
     (max n 1 \<le> length (filter (filter_matches f) (case w_alerts w of None \<Rightarrow> [] | Some as \<Rightarrow> as))
                 mod 2 ^ 32)"
| "holds x w en rid snap trig (CoNoAlertActive f) =
     (filter (filter_matches f) (case w_alerts w of None \<Rightarrow> [] | Some as \<Rightarrow> as) = [])"
| "holds x w en rid snap trig CoTriggerAlertActive =
     (\<exists>i as a. trig = Some i \<and> w_alerts w = Some as \<and> a \<in> set as \<and> al_id a = i)"

lemmas eval_leaf_defs =
  eval_device_state_def eval_time_window_def eval_time_elapsed_def eval_device_last_change_def
  eval_private_boolean_def eval_hub_variable_def eval_mode_is_def eval_calendar_active_def
  alert_check_def

lemma as_bool_Some: "as_bool v = Some b \<longleftrightarrow> v = JBool b"
  by (cases v) (auto simp: as_bool_def)

lemma script_ok_holds:
  assumes "script_ok x en snap s"
  obtains t where "eval_script_expression x en snap s =
     Inr (eval_condition_script x s snap (en_hub_vars en) trigger_context_default = Inr True, t)"
  using assms
  by (auto simp: script_ok_def eval_script_expression_def mk_trace_def map_script_error_def
      try_bind_eq_Inr split: sum.splits)

lemma eval_leaf_fst:
  "fst (eval_device_state x w en d a op v) = holds x w en rid snap trig (CoDeviceState d a op v)"
  "fst (eval_time_window x w s e) = holds x w en rid snap trig (CoTimeWindow s e)"
  "fst (eval_time_elapsed w en d a n) = holds x w en rid snap trig (CoTimeElapsed d a n)"
  "fst (eval_device_last_change x w d k sc ai an) =
     holds x w en rid snap trig (CoDeviceLastChange d k sc ai an)"
  "fst (eval_private_boolean en rid nm b) = holds x w en rid snap trig (CoPrivateBooleanIs nm b)"
  "fst (eval_hub_variable x en nm op v) = holds x w en rid snap trig (CoHubVariable nm op v)"
  "fst (eval_mode_is en m b) = holds x w en rid snap trig (CoModeIs m b)"
  "fst (eval_calendar_active x w ci ti) = holds x w en rid snap trig (CoCalendarActive ci ti)"
  by (auto simp: eval_leaf_defs Let_def as_bool_Some bind_eq_Some_conv split: option.splits)

lemma alert_check_fst:
  "c \<in> {CoAlertActive f n, CoNoAlertActive f, CoTriggerAlertActive} \<Longrightarrow>
   fst (alert_check c (case w_alerts w of None \<Rightarrow> [] | Some as \<Rightarrow> as) trig)
     = holds x w en rid snap trig c"
  by (auto simp: alert_check_def Let_def list_ex_iff split: option.splits)

lemma fst_exI: "fst r = b \<Longrightarrow> \<exists>t. r = (b, t)"
  by (cases r) auto

lemma evaluate_one_holds:
  "scripts_ok x en snap c \<Longrightarrow>
     \<exists>t. evaluate_one x w en rid snap trig c = Inr (holds x w en rid snap trig c, t)"
  "list_all (scripts_ok x en snap) cs \<Longrightarrow>
     eval_and x w en rid snap trig cs = Inr (list_all (holds x w en rid snap trig) cs)"
  "list_all (scripts_ok x en snap) cs \<Longrightarrow>
     eval_or x w en rid snap trig cs = Inr (list_ex (holds x w en rid snap trig) cs)"
  "list_all (scripts_ok x en snap) cs \<Longrightarrow>
     eval_xor x w en rid snap trig cs
       = Inr (length (filter (\<lambda>b. b) (map (holds x w en rid snap trig) cs)))"
proof (induction x w en rid snap trig c and x w en rid snap trig cs and x w en rid snap trig cs
    and x w en rid snap trig cs rule: evaluate_one_eval_and_eval_or_eval_xor.induct)
  case (3 x w en rid snap trig s)
  then have "script_ok x en snap s" by simp
  then obtain t where "eval_script_expression x en snap s =
     Inr (eval_condition_script x s snap (en_hub_vars en) trigger_context_default = Inr True, t)"
    by (rule script_ok_holds)
  then show ?case by simp
qed (auto simp del: holds.simps(1-5,10-16) simp: mk_trace_def
      intro!: fst_exI eval_leaf_fst alert_check_fst)

lemma evaluate_one_flag:
  "evaluate_one x w en rid snap trig c = Inr (p, t) \<Longrightarrow> ct_passed t = p"
proof (cases c)
  case (CoScriptExpression s)
  then show "evaluate_one x w en rid snap trig c = Inr (p, t) \<Longrightarrow> ct_passed t = p"
    by (auto simp: eval_script_expression_def try_bind_eq_Inr dest: mk_trace_eq)
qed (auto simp: try_bind_eq_Inr eval_leaf_defs Let_def dest!: mk_trace_eq
      split: option.splits if_splits)

lemma evaluate_conditions_traces:
  assumes "evaluate_conditions x w en rid snap trig cs = Inr traces"
  shows "length traces \<le> length cs
    \<and> (\<forall>i<length traces. evaluate_one x w en rid snap trig (cs ! i) = Inr (ct_passed (traces ! i), traces ! i))
    \<and> (\<forall>i. Suc i < length traces \<longrightarrow> ct_passed (traces ! i))
    \<and> (length traces < length cs \<longrightarrow> traces \<noteq> [] \<and> \<not> ct_passed (last traces))"
  using assms
proof (induction cs arbitrary: traces)
  case (Cons c cs)
  from Cons.prems obtain p t where one: "evaluate_one x w en rid snap trig c = Inr (p, t)"
    by (auto simp: try_bind_eq_Inr)
  then have flag: "ct_passed t = p" by (rule evaluate_one_flag)
  show ?case
  proof (cases p)
    case True
    with Cons.prems one obtain ts where ts: "evaluate_conditions x w en rid snap trig cs = Inr ts"
      "traces = t # ts" by (auto simp: try_bind_eq_Inr)
    from Cons.IH [OF ts(1)] show ?thesis
      using one flag True by (auto simp: ts(2) nth_Cons' less_Suc_eq_0_disj)
  next
    case False
    with Cons.prems one flag show ?thesis by auto
  qed
qed simp

lemma evaluate_conditions_passed:
  assumes "list_all (scripts_ok x en snap) cs"
  shows "\<exists>traces. evaluate_conditions x w en rid snap trig cs = Inr traces
    \<and> (conditions_passed cs traces \<longleftrightarrow> list_all (holds x w en rid snap trig) cs)"
  using assms
proof (induction cs)
  case (Cons c cs)
  then obtain t where one: "evaluate_one x w en rid snap trig c = Inr (holds x w en rid snap trig c, t)"
    using evaluate_one_holds(1) [of x en snap c w rid trig] by auto
  moreover from one have "ct_passed t = holds x w en rid snap trig c" by (rule evaluate_one_flag)
  moreover from Cons obtain ts where "evaluate_conditions x w en rid snap trig cs = Inr ts"
    "conditions_passed cs ts \<longleftrightarrow> list_all (holds x w en rid snap trig) cs" by auto
  ultimately show ?case
    by (cases cs) (auto simp: conditions_passed_def)
qed (simp add: conditions_passed_def)

lemma evaluate_conditions_error:
  "evaluate_conditions x w en rid snap trig cs = Inl e \<longleftrightarrow>
     (\<exists>i<length cs. evaluate_one x w en rid snap trig (cs ! i) = Inl e
        \<and> (\<forall>j<i. \<exists>t. evaluate_one x w en rid snap trig (cs ! j) = Inr (True, t)))"
proof (induction cs)
  case (Cons c cs)
  show ?case
  proof (cases "evaluate_one x w en rid snap trig c")
    case (Inr r)
    then show ?thesis
    proof (cases r)
      case (Pair p t)
      with Inr Cons.IH show ?thesis
        by (cases p) (auto simp: Ex_less_Suc2 All_less_Suc2 try_bind_eq_Inl)
    qed
  qed (auto simp: Ex_less_Suc2 All_less_Suc2)
qed simp

subsection \<open>Calendars\<close>

definition event_active :: "externals \<Rightarrow> timestamp \<Rightarrow> string option \<Rightarrow> cal_event \<Rightarrow> bool" where
  "event_active x now title ev \<longleftrightarrow>
     ce_start ev \<le> now \<and> now < ce_end ev
     \<and> is_none_or title (\<lambda>s. str_contains (to_lowercase x s) (to_lowercase x (ce_summary ev)))"

definition sorted_events :: "cal_event list \<Rightarrow> bool" where
  "sorted_events evs \<longleftrightarrow> sorted (map ce_start evs)"

lemma scan_events_iff:
  "sorted_events evs \<Longrightarrow>
     scan_events x now title evs \<noteq> None \<longleftrightarrow> list_ex (event_active x now title) evs"
proof (induction evs)
  case (Cons ev evs)
  show ?case
  proof (cases "now < ce_start ev")
    case True
    with Cons.prems have "\<forall>v\<in>set evs. now < ce_start v"
      by (force simp: sorted_events_def)
    with True show ?thesis by (auto simp: list_ex_iff event_active_def)
  next
    case False
    with Cons show ?thesis by (auto simp: event_active_def sorted_events_def)
  qed
qed simp

lemma scan_calendars_iff:
  "list_all (\<lambda>c. sorted_events (cal_events c)) cs \<Longrightarrow>
     scan_calendars x now cid title cs \<noteq> None \<longleftrightarrow>
       list_ex (\<lambda>c. is_none_or cid (\<lambda>i. cal_id c = i)
                  \<and> list_ex (event_active x now title) (cal_events c)) cs"
proof (induction cs)
  case (Cons c cs)
  then have "scan_events x now title (cal_events c) \<noteq> None
      \<longleftrightarrow> list_ex (event_active x now title) (cal_events c)"
    by (intro scan_events_iff) simp
  with Cons show ?case by (auto split: option.splits)
qed simp

subsection \<open>Sample engine and world\<close>

definition sample_engine :: engine where
  "sample_engine =
     \<lparr>en_rules = [], en_device_cache = [''lamp'' \<mapsto> [''on'' \<mapsto> JBool True]],
      en_attr_changed_at = Map.empty, en_fire_history = Map.empty, en_in_flight = 0,
      en_cooldown_map = Map.empty, en_delay_registry = {}, en_pause_state = Map.empty,
      en_rule_vars = Map.empty, en_priv_bools = Map.empty, en_capture_store = Map.empty,
      en_hub_vars = Map.empty, en_rule_in_flight = Map.empty, en_heap = (\<lambda>o'. rule_runs_default),
      en_next_obj = 0, en_runs = [], en_next_run = 0, en_stopped = {}, en_deferred = [],
      en_published = []\<rparr>"

definition sample_world :: world where
  "sample_world =
     \<lparr>w_now = 0, w_time = 0, w_instant = 0, w_devices = Map.empty, w_calendars = None,
      w_alerts = None\<rparr>"

subsection \<open>Properties\<close>

text \<open>
  C7. Evaluating a rule's conditions decides their conjunction: when the scripts in them run,
  the evaluation returns traces, and the engine's test of those traces (one per condition, all
  passed) succeeds exactly when every condition holds in the reference meaning, in which
  \<open>And\<close>, \<open>Or\<close> and \<open>Xor\<close> have no order of evaluation.
\<close>

theorem conditions_decide_conjunction:
  assumes "list_all (scripts_ok x en snap) cs"
  shows "\<exists>traces. evaluate_conditions x w en rid snap trig cs = Inr traces
    \<and> (conditions_passed cs traces \<longleftrightarrow> list_all (holds x w en rid snap trig) cs)"
  by (rule evaluate_conditions_passed [OF assms])

theorem conditions_decide_conjunction_witness:
  "\<exists>traces. evaluate_conditions sample_externals sample_world sample_engine 1 Map.empty None
      [CoOr [CoDeviceState ''lamp'' ''on'' OpEq (JBool True), CoScriptExpression ''false'']] = Inr traces
    \<and> conditions_passed
        [CoOr [CoDeviceState ''lamp'' ''on'' OpEq (JBool True), CoScriptExpression ''false'']] traces"
  using conditions_decide_conjunction [of sample_externals sample_engine Map.empty
      "[CoOr [CoDeviceState ''lamp'' ''on'' OpEq (JBool True), CoScriptExpression ''false'']]"
      sample_world 1 None]
  by (simp add: sample_engine_def script_ok_def eval_script_expression_def script_snippet_def
      sample_externals_def map_script_error_def)

text \<open>
  The recorded traces are the evaluations of the first conditions, in order; all but the
  last passed; and evaluation stops short of the list only at a condition that failed.
\<close>

theorem condition_traces_short_circuit:
  assumes "evaluate_conditions x w en rid snap trig cs = Inr traces"
  shows "length traces \<le> length cs
    \<and> (\<forall>i<length traces. evaluate_one x w en rid snap trig (cs ! i) = Inr (ct_passed (traces ! i), traces ! i))
    \<and> (\<forall>i. Suc i < length traces \<longrightarrow> ct_passed (traces ! i))
    \<and> (length traces < length cs \<longrightarrow> traces \<noteq> [] \<and> \<not> ct_passed (last traces))"
  by (rule evaluate_conditions_traces [OF assms])

theorem condition_traces_short_circuit_witness:
  "\<exists>traces. evaluate_conditions sample_externals sample_world sample_engine 1 Map.empty None
      [CoModeIs ''night'' True, CoScriptExpression ''x''] = Inr traces
    \<and> length traces = 1 \<and> \<not> ct_passed (last traces)"
proof -
  have "evaluate_conditions sample_externals sample_world sample_engine 1 Map.empty None
      [CoModeIs ''night'' True, CoScriptExpression ''x'']
    = Inr [snd (eval_mode_is sample_engine ''night'' True)]"
    by (simp add: eval_mode_is_def mk_trace_def sample_engine_def)
  from condition_traces_short_circuit [OF this] this show ?thesis by simp
qed

text \<open>
  Evaluation fails with an error exactly when some condition fails with that error and every
  condition before it passed: a condition behind a failed one is never run.
\<close>

theorem condition_error_reached:
  "evaluate_conditions x w en rid snap trig cs = Inl e \<longleftrightarrow>
     (\<exists>i<length cs. evaluate_one x w en rid snap trig (cs ! i) = Inl e
        \<and> (\<forall>j<i. \<exists>t. evaluate_one x w en rid snap trig (cs ! j) = Inr (True, t)))"
  by (rule evaluate_conditions_error)

theorem condition_error_reached_witness:
  "evaluate_conditions sample_externals sample_world sample_engine 1 Map.empty None
     [CoModeIs ''night'' False, CoScriptExpression (replicate 80 CHR ''a'' @ [CHR 0x80])]
   = Inl (Panic ''byte index 80 is not a char boundary'')"
  unfolding condition_error_reached
  by (rule exI [of _ 1]) (simp add: eval_mode_is_def mk_trace_def sample_engine_def
      eval_script_expression_def script_snippet_def is_char_boundary_def byte_def nth_append)

text \<open>
  A script longer than 80 bytes whose byte 80 is inside a multi-byte character panics the
  evaluation of a \<open>ScriptExpression\<close> condition before the script is run; no other script does.
\<close>

theorem script_condition_panics:
  "(\<exists>m. evaluate_one x w en rid snap trig (CoScriptExpression s) = Inl (Panic m)) \<longleftrightarrow>
     80 < length s \<and> 0x80 \<le> byte (s ! 80) \<and> byte (s ! 80) < 0xC0"
  by (auto simp: eval_script_expression_def script_snippet_def is_char_boundary_def try_bind_eq_Inl
      map_script_error_def split: sum.splits)

text \<open>
  A time window from \<open>s\<close> to \<open>e\<close> that is later than \<open>e\<close> wraps past midnight: it and
  the window from \<open>e\<close> to \<open>s\<close> cover the day and share only their two ends.
\<close>

theorem time_window_wraps:
  assumes "s \<noteq> e"
  shows "(fst (eval_time_window x w s e) \<or> fst (eval_time_window x w e s))
    \<and> (fst (eval_time_window x w s e) \<and> fst (eval_time_window x w e s) \<longleftrightarrow>
        w_time w = s \<or> w_time w = e)"
  using assms by (auto simp: eval_time_window_def in_time_window_def Let_def)

theorem time_window_wraps_witness:
  "fst (eval_time_window sample_externals sample_world (22 * 3600000000000) (6 * 3600000000000))
   \<and> \<not> fst (eval_time_window sample_externals sample_world (6 * 3600000000000) (22 * 3600000000000))"
  using time_window_wraps [of "22 * 3600000000000" "6 * 3600000000000" sample_externals sample_world]
  by (simp add: eval_time_window_def in_time_window_def sample_world_def Let_def)

text \<open>
  A calendar condition passes exactly when an event of the named calendar is in progress and
  its title contains the text, provided each calendar's events are in order of their start; the
  early exit of the scan loses nothing.
\<close>

theorem calendar_active_iff:
  assumes "w_calendars w = Some cs" and "list_all (\<lambda>c. sorted_events (cal_events c)) cs"
  shows "fst (eval_calendar_active x w cid title) \<longleftrightarrow>
     (\<exists>c ev. c \<in> set cs \<and> ev \<in> set (cal_events c) \<and> is_none_or cid (\<lambda>i. cal_id c = i)
        \<and> event_active x (w_now w) title ev)"
  using scan_calendars_iff [OF assms(2), of x "w_now w" cid title] assms(1)
  by (auto simp: eval_calendar_active_def Let_def list_ex_iff)

theorem calendar_active_iff_witness:
  "let w = sample_world\<lparr>w_now := 5, w_calendars := Some [\<lparr>cal_id = ''hol'', cal_events =
         [\<lparr>ce_summary = ''Old'', ce_start = 0, ce_end = 2\<rparr>,
          \<lparr>ce_summary = ''Summer Holiday'', ce_start = 3, ce_end = 9\<rparr>]\<rparr>]\<rparr> in
   fst (eval_calendar_active sample_externals w (Some ''hol'') (Some ''Holi''))"
proof -
  define w where "w = sample_world\<lparr>w_now := 5, w_calendars := Some [\<lparr>cal_id = ''hol'', cal_events =
         [\<lparr>ce_summary = ''Old'', ce_start = 0, ce_end = 2\<rparr>,
          \<lparr>ce_summary = ''Summer Holiday'', ce_start = 3, ce_end = 9\<rparr>]\<rparr>]\<rparr>"
  obtain cs where cs: "w_calendars w = Some cs" "list_all (\<lambda>c. sorted_events (cal_events c)) cs"
    by (simp add: w_def sorted_events_def)
  have "fst (eval_calendar_active sample_externals w (Some ''hol'') (Some ''Holi''))"
    unfolding calendar_active_iff [OF cs] using cs(1)
    by (auto simp: w_def event_active_def sample_externals_def starts_with_def conj_disj_distribR
        ex_disj_distrib)
  then show ?thesis by (simp add: w_def)
qed

end
