(* ===== verification/Engine.thy ===== *)
theory Engine
  imports Conditions
begin

text \<open>
  The rule engine's state transitions (\<open>hc-core/src/engine.rs\<close>): recording history, firing a
  rule through its gates and run modes, handling a bus event, and the spawned tasks (action runs
  and the wait of a trigger's duration). The engine handles one event at a time; the spawned
  tasks are kept in the state and make steps of their own in \<open>engine_step\<close>.

  An operation returns the new state together with its result, because an error leaves what was
  changed before it.
\<close>

subsection \<open>History\<close>

definition HISTORY_RING_SIZE :: nat where
  "HISTORY_RING_SIZE = 20"

definition ring_push :: "'a \<Rightarrow> 'a list \<Rightarrow> 'a list" where
  "ring_push a buf = (if HISTORY_RING_SIZE \<le> length buf then tl buf else buf) @ [a]"

definition history_of :: "engine \<Rightarrow> uuid \<Rightarrow> rule_firing list" where
  "history_of en rid = (case en_fire_history en rid of None \<Rightarrow> [] | Some buf \<Rightarrow> buf)"

definition push_history :: "uuid \<Rightarrow> rule_firing \<Rightarrow> engine \<Rightarrow> engine" where
  "push_history rid firing en =
     en\<lparr>en_fire_history := (en_fire_history en)(rid \<mapsto> ring_push firing (history_of en rid))\<rparr>"

text \<open>
  \<open>populate_fire_history\<close>: the stored records of each rule, oldest first. Records whose rule id
  is no UUID are dropped, records that cannot be read (\<open>None\<close>) are skipped.
\<close>

definition populate_fire_history ::
  "externals \<Rightarrow> (string \<times> rule_firing option list) list \<Rightarrow> engine \<Rightarrow> engine"
where
  "populate_fire_history x records en =
     fold (\<lambda>(rid_str, jsons) en.
         case parse_uuid x rid_str of
           None \<Rightarrow> en
         | Some rid \<Rightarrow>
             en\<lparr>en_fire_history := (en_fire_history en)(rid \<mapsto>
                  fold (\<lambda>j buf. case j of None \<Rightarrow> buf | Some f \<Rightarrow> ring_push f buf) jsons
                    (history_of en rid))\<rparr>)
       records en"

definition early_firing :: "world \<Rightarrow> rule \<Rightarrow> trigger_context \<Rightarrow> fire_outcome \<Rightarrow> rule_firing" where
  "early_firing w r tctx outcome =
     \<lparr>rf_timestamp = w_now w, rf_trigger_type = fired_by r tctx, rf_trigger_context = tctx,
      rf_outcome = outcome, rf_conditions = [], rf_actions = [], rf_eval_ms = 0\<rparr>"

subsection \<open>Firing\<close>

datatype run = RunEvent | RunAsked bool

definition run_checks :: "run \<Rightarrow> bool" where
  "run_checks run = (case run of RunEvent \<Rightarrow> True | RunAsked checks \<Rightarrow> checks)"

definition stops_the_chain :: "rule \<Rightarrow> bool" where
  "stops_the_chain r = list_ex (\<lambda>ra. ra_enabled ra \<and> ra_action ra = AcStopRuleChain) (ru_actions r)"

text \<open>The cancellable delays of a rule have keys that start with its id and a slash.\<close>

definition cut_delays :: "externals \<Rightarrow> uuid \<Rightarrow> engine \<Rightarrow> engine" where
  "cut_delays x rid en =
     en\<lparr>en_delay_registry := {k \<in> en_delay_registry en. \<not> starts_with (show_uuid x rid @ ''/'') k}\<rparr>"

type_synonym 'a outcome = "engine \<times> (engine_error, 'a) result"

definition refuse :: "world \<Rightarrow> rule \<Rightarrow> trigger_context \<Rightarrow> fire_outcome \<Rightarrow> engine \<Rightarrow> bool outcome" where
  "refuse w r tctx outcome en = (push_history (ru_id r) (early_firing w r tctx outcome) en, Inr False)"

definition is_paused :: "engine \<Rightarrow> uuid \<Rightarrow> bool" where
  "is_paused en rid = (case en_pause_state en rid of None \<Rightarrow> False | Some b \<Rightarrow> b)"

text \<open>Whole seconds since the rule's last firing, and the rest it has left, if any.\<close>

definition cooldown_left :: "world \<Rightarrow> rule \<Rightarrow> engine \<Rightarrow> nat option" where
  "cooldown_left w r en =
     (case (ru_cooldown_secs r, en_cooldown_map en (ru_id r)) of
        (Some cooldown_secs, Some last_fire) \<Rightarrow>
          let elapsed = (w_instant w - last_fire) div 1000000000 in
          if elapsed < cooldown_secs then Some (cooldown_secs - elapsed) else None
      | _ \<Rightarrow> None)"

definition gate ::
  "externals \<Rightarrow> string option \<Rightarrow> bool \<Rightarrow> snapshot \<Rightarrow> trigger_context \<Rightarrow> (engine_error, bool) result"
where
  "gate x expr checks snap tctx =
     (case expr of
        Some e \<Rightarrow> if checks then map_script_error (eval_condition_script x e snap Map.empty tctx)
                  else Inr True
      | None \<Rightarrow> Inr True)"

definition runs_of :: "uuid \<Rightarrow> engine \<Rightarrow> nat \<times> engine" where
  "runs_of rid en =
     (case en_rule_in_flight en rid of
        Some o' \<Rightarrow> (o', en)
      | None \<Rightarrow>
          (en_next_obj en,
           en\<lparr>en_rule_in_flight := (en_rule_in_flight en)(rid \<mapsto> en_next_obj en),
              en_heap := (en_heap en)(en_next_obj en := rule_runs_default),
              en_next_obj := Suc (en_next_obj en)\<rparr>))"

text \<open>The run mode's decision: a reason to skip, or the state to go on with.\<close>

definition run_mode_gate :: "externals \<Rightarrow> rule \<Rightarrow> nat \<Rightarrow> engine \<Rightarrow> string option \<times> engine" where
  "run_mode_gate x r o' en =
     (case ru_run_mode r of
        Parallel \<Rightarrow> (None, en)
      | Single \<Rightarrow>
          (if 0 < rr_count (en_heap en o') then Some ''single: already in-flight'' else None, en)
      | Queued max_queue \<Rightarrow>
          (if max_queue \<le> rr_count (en_heap en o') then
             Some (''queued: queue full (max '' @ show_nat max_queue @ '')'') else None, en)
      | Restart \<Rightarrow>
          (None,
           cut_delays x (ru_id r)
             (en\<lparr>en_stopped :=
                  (case rr_latest (en_heap en o') of None \<Rightarrow> en_stopped en
                   | Some old \<Rightarrow> insert old (en_stopped en))\<rparr>)))"

fun first_failed :: "condition_trace list \<Rightarrow> nat option" where
  "first_failed [] = None"
| "first_failed (t # ts) = (if \<not> ct_passed t then Some 0 else map_option Suc (first_failed ts))"

definition condition_firing ::
  "world \<Rightarrow> rule \<Rightarrow> trigger_context \<Rightarrow> condition_trace list \<Rightarrow> nat \<Rightarrow> rule_firing"
where
  "condition_firing w r tctx traces eval_ms =
     (let failed_idx = (case first_failed traces of None \<Rightarrow> 0 | Some i \<Rightarrow> i);
          reason = (if failed_idx < length traces then ct_reason (traces ! failed_idx) else []) in
      \<lparr>rf_timestamp = w_now w, rf_trigger_type = fired_by r tctx, rf_trigger_context = tctx,
       rf_outcome = ConditionFailed failed_idx reason, rf_conditions = traces, rf_actions = [],
       rf_eval_ms = eval_ms\<rparr>)"

text \<open>
  The rule fires: its cooldown starts, its run gets a stop flag and is counted, and the task that
  runs its actions is spawned.
\<close>

definition spawn_run ::
  "world \<Rightarrow> rule \<Rightarrow> trigger_context \<Rightarrow> nat \<Rightarrow> snapshot \<Rightarrow> condition_trace list \<Rightarrow> nat \<Rightarrow> engine \<Rightarrow> engine"
where
  "spawn_run w r tctx o' snap traces eval_ms en =
     en\<lparr>en_cooldown_map :=
          (if ru_cooldown_secs r \<noteq> None then (en_cooldown_map en)(ru_id r \<mapsto> w_instant w)
           else en_cooldown_map en),
        en_heap := (en_heap en)(o' := \<lparr>rr_count = Suc (rr_count (en_heap en o')),
                                        rr_latest = Some (en_next_run en)\<rparr>),
        en_in_flight := Suc (en_in_flight en),
        en_runs := en_runs en @
          [\<lparr>rt_id = en_next_run en, rt_rule = r, rt_obj = o', rt_tctx = tctx, rt_snapshot = snap,
            rt_turn = (case ru_run_mode r of Queued _ \<Rightarrow> False | _ \<Rightarrow> True), rt_lost = False,
            rt_conditions = traces, rt_eval_ms = eval_ms\<rparr>],
        en_next_run := Suc (en_next_run en)\<rparr>"

text \<open>
  From the run mode check on. \<open>eval_ms\<close>, the time the conditions took, is an input.
\<close>

definition fire_checked ::
  "externals \<Rightarrow> world \<Rightarrow> nat \<Rightarrow> rule \<Rightarrow> trigger_context \<Rightarrow> bool \<Rightarrow> snapshot \<Rightarrow> engine \<Rightarrow> bool outcome"
where
  "fire_checked x w eval_ms r tctx checks snap en =
     (let (o', en1) = runs_of (ru_id r) en; (skip, en2) = run_mode_gate x r o' en1 in
      case skip of
        Some reason \<Rightarrow> refuse w r tctx (Skipped reason) en2
      | None \<Rightarrow>
          (case (if checks then
                   evaluate_conditions x w en2 (ru_id r) snap (trigger_alert_id tctx) (ru_conditions r)
                 else Inr []) of
             Inl e \<Rightarrow> (en2, Inl e)
           | Inr traces \<Rightarrow>
               if checks \<and> \<not> conditions_passed (ru_conditions r) traces then
                 (push_history (ru_id r) (condition_firing w r tctx traces eval_ms) en2, Inr False)
               else (spawn_run w r tctx o' snap traces eval_ms en2, Inr (stops_the_chain r))))"

definition fire ::
  "externals \<Rightarrow> world \<Rightarrow> nat \<Rightarrow> rule \<Rightarrow> trigger_context \<Rightarrow> run \<Rightarrow> engine \<Rightarrow> bool outcome"
where
  "fire x w eval_ms r tctx run en =
     (let checks = run_checks run; snap = en_device_cache en in
      if run = RunEvent \<and> is_paused en (ru_id r) then refuse w r tctx Paused en
      else case (if run = RunEvent then cooldown_left w r en else None) of
        Some remaining_secs \<Rightarrow> refuse w r tctx (Cooldown remaining_secs) en
      | None \<Rightarrow>
          (case gate x (ru_required_expression r) checks snap tctx of
             Inl e \<Rightarrow> (en, Inl e)
           | Inr False \<Rightarrow>
               refuse w r tctx RequiredExpressionFailed
                 (if ru_cancel_on_false r then cut_delays x (ru_id r) en else en)
           | Inr True \<Rightarrow>
               (case gate x (ru_trigger_condition r) checks snap tctx of
                  Inl e \<Rightarrow> (en, Inl e)
                | Inr False \<Rightarrow> refuse w r tctx TriggerGateFailed en
                | Inr True \<Rightarrow> fire_checked x w eval_ms r tctx checks snap en)))"

subsection \<open>Handling an event\<close>

fun note_changes ::
  "timestamp \<Rightarrow> (string \<rightharpoonup> json) option \<Rightarrow> attrs \<Rightarrow> (string \<rightharpoonup> timestamp) \<Rightarrow> (string \<rightharpoonup> timestamp)"
where
  "note_changes now prev [] ts = ts"
| "note_changes now prev ((k, v) # kvs) ts =
     note_changes now prev kvs
       (if Option.bind prev (\<lambda>m. m k) \<noteq> Some v then ts(k \<mapsto> now) else ts)"

definition merge_attrs :: "attrs \<Rightarrow> (string \<rightharpoonup> json) \<Rightarrow> (string \<rightharpoonup> json)" where
  "merge_attrs current m = fold (\<lambda>(k, v) m. m(k \<mapsto> v)) current m"

definition update_cache :: "world \<Rightarrow> event \<Rightarrow> engine \<Rightarrow> engine" where
  "update_cache w e en =
     (case e of
        EvDeviceStateChanged d current _ _ \<Rightarrow>
          en\<lparr>en_attr_changed_at := (en_attr_changed_at en)(d \<mapsto>
               note_changes (w_now w) (en_device_cache en d) current
                 (case en_attr_changed_at en d of None \<Rightarrow> Map.empty | Some ts \<Rightarrow> ts)),
             en_device_cache := (en_device_cache en)(d \<mapsto>
               merge_attrs current (case en_device_cache en d of None \<Rightarrow> Map.empty | Some m \<Rightarrow> m))\<rparr>
      | _ \<Rightarrow> en)"

definition rule_id_of :: "externals \<Rightarrow> json \<Rightarrow> uuid option" where
  "rule_id_of x payload =
     Option.bind (Option.bind (json_get payload ''rule_id'') as_str) (parse_uuid x)"

definition find_enabled :: "uuid \<Rightarrow> rule list \<Rightarrow> rule option" where
  "find_enabled rid rs = List.find (\<lambda>r. ru_id r = rid \<and> ru_enabled r) rs"

text \<open>A result's flag is dropped, an error is kept.\<close>

definition ignore_flag :: "bool outcome \<Rightarrow> unit outcome" where
  "ignore_flag o' = (fst o', case snd o' of Inl e \<Rightarrow> Inl e | Inr _ \<Rightarrow> Inr ())"

definition handle_scheduler_tick :: "externals \<Rightarrow> world \<Rightarrow> nat \<Rightarrow> json \<Rightarrow> engine \<Rightarrow> unit outcome" where
  "handle_scheduler_tick x w eval_ms payload en =
     (case Option.bind (rule_id_of x payload) (\<lambda>rid. find_enabled rid (en_rules en)) of
        None \<Rightarrow> (en, Inr ())
      | Some r \<Rightarrow>
          let tctx = (case Option.bind (json_get payload ''alert'') (alert_of_json x) of
              Some a \<Rightarrow> alert_trigger_ctx x a ''alert_active_for'' (ru_trigger_label r)
            | None \<Rightarrow> trigger_context_default) in
          ignore_flag (fire x w eval_ms r tctx RunEvent en))"

definition MANUAL_RUN_EVENT :: string where
  "MANUAL_RUN_EVENT = ''manual_rule_fire''"

definition handle_manual_run :: "externals \<Rightarrow> world \<Rightarrow> nat \<Rightarrow> json \<Rightarrow> engine \<Rightarrow> unit outcome" where
  "handle_manual_run x w eval_ms payload en =
     (case Option.bind (rule_id_of x payload) (\<lambda>rid. List.find (\<lambda>r. ru_id r = rid) (en_rules en)) of
        None \<Rightarrow> (en, Inr ())
      | Some r \<Rightarrow>
          let checks = (case Option.bind (json_get payload ''checks'') as_bool of
                          None \<Rightarrow> True | Some b \<Rightarrow> b);
              tctx = trigger_context_default
                \<lparr>tc_event_type := Some MANUAL_RUN,
                 tc_change_actor_id := Option.bind (json_get payload ''actor_id'') as_str,
                 tc_change_actor_name := Option.bind (json_get payload ''actor_name'') as_str,
                 tc_trigger_label := ru_trigger_label r\<rparr> in
          ignore_flag (fire x w eval_ms r tctx (RunAsked checks) en))"

definition available_of :: "world \<Rightarrow> string \<rightharpoonup> bool" where
  "available_of w d = map_option sd_available (w_devices w d)"

definition handle_deferred_fire :: "externals \<Rightarrow> world \<Rightarrow> nat \<Rightarrow> json \<Rightarrow> engine \<Rightarrow> unit outcome" where
  "handle_deferred_fire x w eval_ms payload en =
     (case Option.bind (rule_id_of x payload) (\<lambda>rid. find_enabled rid (en_rules en)) of
        None \<Rightarrow> (en, Inr ())
      | Some r \<Rightarrow>
          let index = (case Option.bind (json_get payload ''trigger_index'') as_u64 of
                         None \<Rightarrow> 0 | Some i \<Rightarrow> i);
              t = nth_trigger r index;
              held = Option.bind (json_get payload ''available'') as_bool in
          if still_matches_for_duration t (en_device_cache en)
             \<and> availability_held (available_of w) t held
          then ignore_flag (fire x w eval_ms r
                 (trigger_context_default
                   \<lparr>tc_trigger_index := (if ru_triggers r \<noteq> [] then Some index else None)\<rparr>)
                 RunEvent en)
          else (en, Inr ()))"

text \<open>The rules an event starts, in the list's order, each with its context and its trigger.\<close>

fun matching_rules ::
  "externals \<Rightarrow> event \<Rightarrow> rule list \<Rightarrow> (rule \<times> nat \<times> trigger) list"
where
  "matching_rules x e [] = []"
| "matching_rules x e (r # rs) =
     (if \<not> ru_enabled r then matching_rules x e rs
      else case find_matching x e 0 (all_triggers r) of
        None \<Rightarrow> matching_rules x e rs
      | Some (i, t) \<Rightarrow> (r, i, t) # matching_rules x e rs)"

definition held_of :: "event \<Rightarrow> bool option" where
  "held_of e = (case e of EvDeviceAvailabilityChanged _ available \<Rightarrow> Some available | _ \<Rightarrow> None)"

definition defer_tasks :: "world \<Rightarrow> event \<Rightarrow> (rule \<times> nat \<times> trigger) list \<Rightarrow> deferred_task list" where
  "defer_tasks w e ms =
     List.map_filter (\<lambda>(r, i, t).
       map_option (\<lambda>dur_secs. \<lparr>df_due = w_instant w + dur_secs * 1000000000, df_rule_id = ru_id r,
                               df_trigger = t, df_index = i, df_held = held_of e\<rparr>)
         (trigger_for_duration t)) ms"

text \<open>
  The matching rules are fired in order, the deferred ones passed over; a rule that stops the
  chain ends the loop, and so does an error.
\<close>

fun fire_matching ::
  "externals \<Rightarrow> world \<Rightarrow> nat \<Rightarrow> event \<Rightarrow> (rule \<times> nat \<times> trigger) list \<Rightarrow> engine \<Rightarrow> unit outcome"
where
  "fire_matching x w eval_ms e [] en = (en, Inr ())"
| "fire_matching x w eval_ms e ((r, i, t) # ms) en =
     (if trigger_for_duration t \<noteq> None then fire_matching x w eval_ms e ms en
      else case fire x w eval_ms r (extract_trigger_ctx x e r t i) RunEvent en of
        (en', Inl err) \<Rightarrow> (en', Inl err)
      | (en', Inr stop) \<Rightarrow> if stop then (en', Inr ()) else fire_matching x w eval_ms e ms en')"

definition dispatch_event :: "externals \<Rightarrow> world \<Rightarrow> nat \<Rightarrow> event \<Rightarrow> engine \<Rightarrow> unit outcome" where
  "dispatch_event x w eval_ms e en =
     (let ms = matching_rules x e (en_rules en) in
      fire_matching x w eval_ms e ms (en\<lparr>en_deferred := en_deferred en @ defer_tasks w e ms\<rparr>))"

definition handle_event :: "externals \<Rightarrow> world \<Rightarrow> nat \<Rightarrow> event \<Rightarrow> engine \<Rightarrow> unit outcome" where
  "handle_event x w eval_ms e en0 =
     (let en = update_cache w e en0 in
      case e of
        EvCustom event_type payload \<Rightarrow>
          if event_type = ''scheduler_tick'' then handle_scheduler_tick x w eval_ms payload en
          else if event_type = MANUAL_RUN_EVENT then handle_manual_run x w eval_ms payload en
          else if event_type = ''deferred_rule_fire'' then handle_deferred_fire x w eval_ms payload en
          else dispatch_event x w eval_ms e en
      | _ \<Rightarrow> dispatch_event x w eval_ms e en)"

subsection \<open>Spawned tasks\<close>

text \<open>The end of a duration's wait: the re-check, and the event that fires the rule.\<close>

definition deferred_elapsed :: "externals \<Rightarrow> world \<Rightarrow> deferred_task \<Rightarrow> engine \<Rightarrow> engine" where
  "deferred_elapsed x w d en =
     (let en' = en\<lparr>en_deferred := remove1 d (en_deferred en)\<rparr> in
      if still_matches_for_duration (df_trigger d) (en_device_cache en)
         \<and> availability_held (available_of w) (df_trigger d) (df_held d)
      then en'\<lparr>en_published := en_published en' @
             [EvCustom ''deferred_rule_fire''
               (JObj [(''available'', (case df_held d of None \<Rightarrow> JNull | Some b \<Rightarrow> JBool b)),
                      (''rule_id'', JStr (show_uuid x (df_rule_id d))),
                      (''trigger_index'', JNum (PosInt (df_index d)))])]\<rparr>
      else en')"

text \<open>A queued run gets its turn and takes the device states of that moment.\<close>

definition run_turn :: "nat \<Rightarrow> engine \<Rightarrow> engine" where
  "run_turn rid en =
     en\<lparr>en_runs := map (\<lambda>t. if rt_id t = rid then t\<lparr>rt_turn := True, rt_snapshot := en_device_cache en\<rparr>
                             else t) (en_runs en)\<rparr>"

text \<open>
  The end of a run: its firing is recorded, \<open>RuleFired\<close> is published, and the counters go down
  (the invariant below keeps them from passing zero).
\<close>

definition finish_run :: "world \<Rightarrow> run_task \<Rightarrow> action_trace list \<Rightarrow> engine \<Rightarrow> engine" where
  "finish_run w t action_traces en =
     (let r = rt_rule t;
          firing = \<lparr>rf_timestamp = w_now w, rf_trigger_type = fired_by r (rt_tctx t),
                    rf_trigger_context = rt_tctx t, rf_outcome = Fired,
                    rf_conditions = rt_conditions t, rf_actions = action_traces,
                    rf_eval_ms = rt_eval_ms t\<rparr>;
          en1 = push_history (ru_id r) firing en in
      en1\<lparr>en_published := en_published en1 @
            [EvRuleFired (ru_id r) (ru_name r) (fired_by r (rt_tctx t)) (length (ru_actions r))],
          en_heap := (en_heap en1)(rt_obj t :=
            (en_heap en1 (rt_obj t))\<lparr>rr_count := rr_count (en_heap en1 (rt_obj t)) - 1\<rparr>),
          en_in_flight := en_in_flight en1 - 1,
          en_runs := remove1 t (en_runs en1)\<rparr>)"

text \<open>
  A run whose task panics: its permit is released, nothing is recorded or published, and the counters,
  which only the end of a run takes down, go on counting it.
\<close>

definition lose_run :: "nat \<Rightarrow> engine \<Rightarrow> engine" where
  "lose_run rid en =
     en\<lparr>en_runs := map (\<lambda>t. if rt_id t = rid then t\<lparr>rt_turn := False, rt_lost := True\<rparr> else t) (en_runs en)\<rparr>"

subsection \<open>Reload and start\<close>

definition purge_callback :: "rule list \<Rightarrow> engine \<Rightarrow> engine" where
  "purge_callback live_rules en =
     (let live_ids = ru_id ` set live_rules in
      en\<lparr>en_cooldown_map := en_cooldown_map en |` live_ids,
         en_pause_state := en_pause_state en |` live_ids,
         en_rule_in_flight := en_rule_in_flight en |` live_ids,
         en_fire_history := en_fire_history en |` live_ids,
         en_rule_vars := en_rule_vars en |` (live_ids \<times> UNIV),
         en_priv_bools := en_priv_bools en |` (live_ids \<times> UNIV),
         en_capture_store := en_capture_store en |` (live_ids \<times> UNIV)\<rparr>)"

definition initial_vars :: "rule list \<Rightarrow> (uuid \<times> string \<rightharpoonup> json)" where
  "initial_vars rs =
     fold (\<lambda>r m. \<lambda>(i, n). if i = ru_id r \<and> ru_variables r n \<noteq> None then ru_variables r n else m (i, n))
       rs Map.empty"

definition new_engine :: "rule list \<Rightarrow> engine" where
  "new_engine rs =
     \<lparr>en_rules = rs, en_device_cache = Map.empty, en_attr_changed_at = Map.empty,
      en_fire_history = Map.empty, en_in_flight = 0, en_cooldown_map = Map.empty,
      en_delay_registry = {}, en_pause_state = Map.empty, en_rule_vars = initial_vars rs,
      en_priv_bools = Map.empty, en_capture_store = Map.empty, en_hub_vars = Map.empty,
      en_rule_in_flight = Map.empty, en_heap = (\<lambda>o'. rule_runs_default), en_next_obj = 0,
      en_runs = [], en_next_run = 0, en_stopped = {}, en_deferred = [], en_published = []\<rparr>"

text \<open>
  \<open>run\<close> fills the cache from the store before it listens: each device with its attributes, when
  each changed (the record's own time, else when the device was last seen), and announces
  \<open>system_started\<close>.
\<close>

record device_record =
  dr_id :: string
  dr_attributes :: attrs
  dr_attributes_changed_at :: "string \<rightharpoonup> timestamp"
  dr_last_seen :: timestamp

definition load_device :: "device_record \<Rightarrow> engine \<Rightarrow> engine" where
  "load_device d en =
     en\<lparr>en_attr_changed_at := (en_attr_changed_at en)(dr_id d \<mapsto>
          (\<lambda>k. if map_of (dr_attributes d) k = None then None
               else Some (case dr_attributes_changed_at d k of None \<Rightarrow> dr_last_seen d | Some t \<Rightarrow> t))),
        en_device_cache := (en_device_cache en)(dr_id d \<mapsto> map_of (dr_attributes d))\<rparr>"

definition start_engine :: "device_record list \<Rightarrow> engine \<Rightarrow> engine" where
  "start_engine ds en =
     (let en' = fold load_device ds en in
      en'\<lparr>en_published := en_published en' @ [EvCustom ''system_started'' (JObj [])]\<rparr>)"

end
