(* ===== verification/Engine_Invariants.thy ===== *)
theory Engine_Invariants
  imports Engine "HOL-Library.Sublist"
begin

text \<open>
  The rule engine as a transition system: its steps are handling an event, the end of a
  duration's wait, a queued run's turn, the end of a run, a run whose task panics, and whatever a
  run's actions do to the shared maps. The invariant ties the counters to the runs in flight; from it follow the bounds
  of the history and the guarantees of the run modes and of the cooldown.
\<close>

subsection \<open>Steps\<close>

definition is_queued :: "rule \<Rightarrow> bool" where
  "is_queued r = (case ru_run_mode r of Queued _ \<Rightarrow> True | _ \<Rightarrow> False)"

text \<open>
  The state is paired with the time of its last step. A queued run gets its turn only when no
  other queued run of the same rule has it (the semaphore has one permit). The actions of a run
  may change the maps the executor shares with the engine.
\<close>

inductive engine_step :: "externals \<Rightarrow> engine \<times> nanos \<Rightarrow> engine \<times> nanos \<Rightarrow> bool" for x where
  es_event: "now \<le> w_instant w \<Longrightarrow> handle_event x w ms e en = (en', res) \<Longrightarrow>
     engine_step x (en, now) (en', w_instant w)"
| es_deferred: "now \<le> w_instant w \<Longrightarrow> d \<in> set (en_deferred en) \<Longrightarrow> df_due d \<le> w_instant w \<Longrightarrow>
     engine_step x (en, now) (deferred_elapsed x w d en, w_instant w)"
| es_turn: "t \<in> set (en_runs en) \<Longrightarrow> \<not> rt_turn t \<Longrightarrow> \<not> rt_lost t \<Longrightarrow>
     (\<And>u. u \<in> set (en_runs en) \<Longrightarrow> rt_obj u = rt_obj t \<Longrightarrow> is_queued (rt_rule u) \<Longrightarrow> \<not> rt_turn u) \<Longrightarrow>
     engine_step x (en, now) (run_turn (rt_id t) en, now)"
| es_finish: "now \<le> w_instant w \<Longrightarrow> t \<in> set (en_runs en) \<Longrightarrow> rt_turn t \<Longrightarrow>
     engine_step x (en, now) (finish_run w t traces en, w_instant w)"
| es_panic: "t \<in> set (en_runs en) \<Longrightarrow> rt_turn t \<Longrightarrow> engine_step x (en, now) (lose_run (rt_id t) en, now)"
| es_actions: "engine_step x (en, now)
     (en\<lparr>en_pause_state := ps, en_hub_vars := hv, en_priv_bools := pb, en_rule_vars := rv,
         en_capture_store := cs, en_delay_registry := dr, en_published := pub\<rparr>, now)"

text \<open>The engine starts with its rules, the stored history and the stored devices.\<close>

definition engine_init :: "externals \<Rightarrow> rule list \<Rightarrow> engine \<times> nanos \<Rightarrow> bool" where
  "engine_init x rs s \<longleftrightarrow>
     (\<exists>ds recs. fst s = start_engine ds (populate_fire_history x recs (new_engine rs)))"

text \<open>A reload swaps the rules and purges the state of those that are gone.\<close>

inductive engine_step_reload :: "externals \<Rightarrow> engine \<times> nanos \<Rightarrow> engine \<times> nanos \<Rightarrow> bool" for x where
  er_step: "engine_step x s s' \<Longrightarrow> engine_step_reload x s s'"
| er_reload: "engine_step_reload x (en, now) (purge_callback live (en\<lparr>en_rules := live\<rparr>), now)"

subsection \<open>The invariant\<close>

definition runs_on :: "engine \<Rightarrow> nat \<Rightarrow> run_task list" where
  "runs_on en o' = filter (\<lambda>t. rt_obj t = o') (en_runs en)"

definition engine_inv :: "engine \<Rightarrow> bool" where
  "engine_inv en \<longleftrightarrow>
     (\<forall>rid. length (history_of en rid) \<le> HISTORY_RING_SIZE)
     \<and> en_in_flight en = length (en_runs en)
     \<and> (\<forall>o'. rr_count (en_heap en o') = length (runs_on en o'))
     \<and> distinct (map rt_id (en_runs en))
     \<and> (\<forall>t\<in>set (en_runs en). rt_id t < en_next_run en \<and> rt_obj t < en_next_obj en)
     \<and> (\<forall>rid o'. en_rule_in_flight en rid = Some o' \<longrightarrow> o' < en_next_obj en)
     \<and> inj_on (en_rule_in_flight en) (dom (en_rule_in_flight en))
     \<and> (\<forall>t\<in>set (en_runs en). \<forall>rid. en_rule_in_flight en rid = Some (rt_obj t) \<longrightarrow> ru_id (rt_rule t) = rid)"

lemma ring_push_bound: "length buf \<le> HISTORY_RING_SIZE \<Longrightarrow> length (ring_push a buf) \<le> HISTORY_RING_SIZE"
  by (auto simp: ring_push_def HISTORY_RING_SIZE_def)

lemma ring_push_recent:
  "ring_push a buf = drop (Suc (length buf) - HISTORY_RING_SIZE) (buf @ [a])"
  if "length buf \<le> HISTORY_RING_SIZE"
  using that by (auto simp: ring_push_def HISTORY_RING_SIZE_def drop_Suc)

text \<open>Updates of fields the invariant does not read.\<close>

lemma engine_inv_frame [simp]:
  "engine_inv (en\<lparr>en_deferred := a\<rparr>) = engine_inv en"
  "engine_inv (en\<lparr>en_published := b\<rparr>) = engine_inv en"
  "engine_inv (en\<lparr>en_delay_registry := c\<rparr>) = engine_inv en"
  "engine_inv (en\<lparr>en_stopped := d\<rparr>) = engine_inv en"
  "engine_inv (en\<lparr>en_attr_changed_at := f\<rparr>) = engine_inv en"
  "engine_inv (en\<lparr>en_device_cache := g\<rparr>) = engine_inv en"
  "engine_inv (en\<lparr>en_pause_state := h\<rparr>) = engine_inv en"
  "engine_inv (en\<lparr>en_hub_vars := i\<rparr>) = engine_inv en"
  "engine_inv (en\<lparr>en_priv_bools := j\<rparr>) = engine_inv en"
  "engine_inv (en\<lparr>en_rule_vars := k\<rparr>) = engine_inv en"
  "engine_inv (en\<lparr>en_capture_store := l\<rparr>) = engine_inv en"
  "engine_inv (en\<lparr>en_cooldown_map := m\<rparr>) = engine_inv en"
  "engine_inv (en\<lparr>en_rules := n\<rparr>) = engine_inv en"
  by (simp_all add: engine_inv_def runs_on_def history_of_def)

lemma push_history_inv [inv_intros]: "engine_inv en \<Longrightarrow> engine_inv (push_history rid f en)"
  by (auto simp: engine_inv_def push_history_def history_of_def runs_on_def ring_push_bound
      split: if_splits option.splits)

lemma cut_delays_inv [simp]: "engine_inv (cut_delays x rid en) = engine_inv en"
  by (simp add: cut_delays_def)

lemma inj_on_map_upd:
  "inj_on m (dom m) \<Longrightarrow> (\<And>k. m k \<noteq> Some v) \<Longrightarrow> inj_on (m(a \<mapsto> v)) (dom (m(a \<mapsto> v)))"
  by (auto simp: inj_on_def dom_def split: if_splits)

lemma runs_of_inv [inv_intros]:
  assumes "engine_inv en" "runs_of rid en = (o', en')"
  shows "engine_inv en' \<and> en_rule_in_flight en' rid = Some o' \<and> o' < en_next_obj en'"
proof (cases "en_rule_in_flight en rid")
  case None
  have fresh: "runs_on en (en_next_obj en) = []"
    using assms(1) by (auto simp: engine_inv_def runs_on_def filter_empty_conv)
  have "inj_on ((en_rule_in_flight en)(rid \<mapsto> en_next_obj en))
      (dom ((en_rule_in_flight en)(rid \<mapsto> en_next_obj en)))"
    using assms(1) by (intro inj_on_map_upd) (auto simp: engine_inv_def)
  moreover have "rt_obj t < Suc (en_next_obj en)" "rt_obj t \<noteq> en_next_obj en"
    if "t \<in> set (en_runs en)" for t
    using assms(1) that by (auto simp: engine_inv_def)
  moreover have "o'' < Suc (en_next_obj en)" if "en_rule_in_flight en r = Some o''" for r o''
    using assms(1) that by (auto simp: engine_inv_def less_Suc_eq)
  ultimately show ?thesis
    using assms None fresh
    by (auto simp: runs_of_def engine_inv_def runs_on_def history_of_def rule_runs_default_def
        split: if_splits)
qed (use assms in \<open>auto simp: runs_of_def engine_inv_def\<close>)

lemma spawn_run_inv [inv_intros]:
  assumes inv: "engine_inv en" and obj: "en_rule_in_flight en (ru_id r) = Some o'"
  shows "engine_inv (spawn_run w r tctx o' snap traces ms en)"
proof -
  have owner: "rid = ru_id r" if "en_rule_in_flight en rid = Some o'" for rid
    using inv obj that by (auto simp: engine_inv_def inj_on_def dom_def)
  have "o' < en_next_obj en"
    using inv obj by (auto simp: engine_inv_def)
  moreover have "en_next_run en \<notin> rt_id ` set (en_runs en)"
    using inv by (auto simp: engine_inv_def)
  ultimately show ?thesis
    using inv owner
    by (auto simp: spawn_run_def engine_inv_def runs_on_def history_of_def)
qed

lemma run_mode_gate_frame:
  assumes "run_mode_gate x r o' en = (skip, en')"
  shows "engine_inv en' = engine_inv en" "en_rule_in_flight en' = en_rule_in_flight en"
    "en_heap en' = en_heap en" "en_runs en' = en_runs en" "en_cooldown_map en' = en_cooldown_map en"
    "en_rules en' = en_rules en" "en_deferred en' = en_deferred en" "en_next_run en' = en_next_run en"
  using assms by (auto simp: run_mode_gate_def cut_delays_def split: run_mode.splits)

lemma runs_of_frame:
  "en_runs (snd (runs_of rid en)) = en_runs en"
  "en_cooldown_map (snd (runs_of rid en)) = en_cooldown_map en"
  "en_rules (snd (runs_of rid en)) = en_rules en"
  "en_deferred (snd (runs_of rid en)) = en_deferred en"
  "en_next_run (snd (runs_of rid en)) = en_next_run en"
  by (simp_all add: runs_of_def split: option.splits)

text \<open>
  The ways a firing ends: with an error, with a refusal that is recorded, or with a run. Before
  that the state was only prepared: delays cut, the rule's run object made, a stop flag raised.
\<close>

definition mode_gate :: "externals \<Rightarrow> rule \<Rightarrow> engine \<Rightarrow> string option \<times> engine" where
  "mode_gate x r en = run_mode_gate x r (fst (runs_of (ru_id r) en)) (snd (runs_of (ru_id r) en))"

definition prepared :: "externals \<Rightarrow> rule \<Rightarrow> engine \<Rightarrow> engine \<Rightarrow> bool" where
  "prepared x r en en' \<longleftrightarrow>
     en' = en \<or> en' = cut_delays x (ru_id r) en \<or> en' = snd (mode_gate x r en)"

definition spawned ::
  "externals \<Rightarrow> world \<Rightarrow> rule \<Rightarrow> trigger_context \<Rightarrow> run \<Rightarrow> nat \<Rightarrow> engine \<Rightarrow> engine \<Rightarrow> bool"
where
  "spawned x w r tctx run ms en en' \<longleftrightarrow>
     fst (mode_gate x r en) = None
     \<and> (run = RunEvent \<longrightarrow> \<not> is_paused en (ru_id r) \<and> cooldown_left w r en = None)
     \<and> (\<exists>snap traces. en' = spawn_run w r tctx (fst (runs_of (ru_id r) en)) snap traces ms
                            (snd (mode_gate x r en)))"

lemma fire_checked_outcomes:
  assumes "fire_checked x w ms r tctx checks snap en = (en', res)"
  shows "(\<exists>e. res = Inl e \<and> prepared x r en en')
    \<or> (\<exists>en1 f. prepared x r en en1 \<and> en' = push_history (ru_id r) f en1 \<and> res = Inr False)
    \<or> (fst (mode_gate x r en) = None \<and> res = Inr (stops_the_chain r)
        \<and> (\<exists>traces. en' = spawn_run w r tctx (fst (runs_of (ru_id r) en)) snap traces ms
                            (snd (mode_gate x r en))))"
  using assms
  by (auto simp: fire_checked_def mode_gate_def prepared_def refuse_def case_prod_beta Let_def
      split: option.splits sum.splits if_splits)

text \<open>Past the pause and the cooldown only the two expressions stand before the run mode.\<close>

definition unrefused :: "world \<Rightarrow> rule \<Rightarrow> run \<Rightarrow> engine \<Rightarrow> bool" where
  "unrefused w r run en \<longleftrightarrow>
     (run = RunEvent \<longrightarrow> \<not> is_paused en (ru_id r) \<and> cooldown_left w r en = None)"

lemma fire_unrefused:
  assumes "unrefused w r run en"
  shows "fire x w ms r tctx run en =
     (case gate x (ru_required_expression r) (run_checks run) (en_device_cache en) tctx of
        Inl e \<Rightarrow> (en, Inl e)
      | Inr False \<Rightarrow>
          refuse w r tctx RequiredExpressionFailed
            (if ru_cancel_on_false r then cut_delays x (ru_id r) en else en)
      | Inr True \<Rightarrow>
          (case gate x (ru_trigger_condition r) (run_checks run) (en_device_cache en) tctx of
             Inl e \<Rightarrow> (en, Inl e)
           | Inr False \<Rightarrow> refuse w r tctx TriggerGateFailed en
           | Inr True \<Rightarrow> fire_checked x w ms r tctx (run_checks run) (en_device_cache en) en))"
  using assms by (auto simp: fire_def unrefused_def Let_def)

lemma fire_refused:
  "\<not> unrefused w r run en \<Longrightarrow>
   \<exists>f. fire x w ms r tctx run en = (push_history (ru_id r) f en, Inr False)"
  by (auto simp: fire_def unrefused_def refuse_def Let_def split: option.splits)

lemma prepared_refl: "prepared x r en en" "prepared x r en (if b then cut_delays x (ru_id r) en else en)"
  by (auto simp: prepared_def)

lemma fire_outcomes:
  assumes "fire x w ms r tctx run en = (en', res)"
  shows "(\<exists>e. res = Inl e \<and> prepared x r en en')
    \<or> (\<exists>en1 f. prepared x r en en1 \<and> en' = push_history (ru_id r) f en1 \<and> res = Inr False)
    \<or> (res = Inr (stops_the_chain r) \<and> spawned x w r tctx run ms en en')"
proof (cases "unrefused w r run en")
  case False
  from fire_refused [OF this] obtain f
    where "fire x w ms r tctx run en = (push_history (ru_id r) f en, Inr False)" by blast
  with assms have "en' = push_history (ru_id r) f en \<and> res = Inr False" by simp
  with prepared_refl(1) show ?thesis by blast
next
  case True
  let ?g1 = "gate x (ru_required_expression r) (run_checks run) (en_device_cache en) tctx"
  let ?g2 = "gate x (ru_trigger_condition r) (run_checks run) (en_device_cache en) tctx"
  note fire = fire_unrefused [OF True, of x ms tctx]
  consider (err) e where "?g1 = Inl e \<or> ?g1 = Inr True \<and> ?g2 = Inl e"
    | (no) "?g1 = Inr False \<or> ?g1 = Inr True \<and> ?g2 = Inr False"
    | (yes) "?g1 = Inr True" "?g2 = Inr True"
    by (cases ?g1; cases ?g2) auto
  then show ?thesis
  proof cases
    case err
    then have "fire x w ms r tctx run en = (en, Inl e)" by (elim disjE conjE) (simp_all add: fire)
    with assms have "en' = en \<and> res = Inl e" by simp
    with prepared_refl(1) show ?thesis by blast
  next
    case no
    then have "\<exists>en1 f. prepared x r en en1
        \<and> fire x w ms r tctx run en = (push_history (ru_id r) f en1, Inr False)"
      by (elim disjE conjE) (simp_all only: fire refuse_def sum.case bool.case, (blast intro: prepared_refl)+)
    with assms show ?thesis by auto
  next
    case yes
    then have "fire_checked x w ms r tctx (run_checks run) (en_device_cache en) en = (en', res)"
      using assms fire by simp
    from fire_checked_outcomes [OF this] True show ?thesis
      by (auto simp: spawned_def unrefused_def)
  qed
qed

lemma mode_gate_inv:
  assumes "engine_inv en"
  shows "engine_inv (snd (mode_gate x r en))
    \<and> en_rule_in_flight (snd (mode_gate x r en)) (ru_id r) = Some (fst (runs_of (ru_id r) en))"
proof -
  obtain o' en1 where runs: "runs_of (ru_id r) en = (o', en1)" by fastforce
  obtain skip en2 where gate: "run_mode_gate x r o' en1 = (skip, en2)" by fastforce
  show ?thesis
    using runs_of_inv [OF assms runs] run_mode_gate_frame [OF gate]
    by (simp add: mode_gate_def runs gate)
qed

lemma prepared_inv: "engine_inv en \<Longrightarrow> prepared x r en en' \<Longrightarrow> engine_inv en'"
  by (auto simp: prepared_def mode_gate_inv)

lemma fire_inv [inv_intros]:
  assumes "engine_inv en" and "fire x w ms r tctx run en = (en', res)"
  shows "engine_inv en'"
  using fire_outcomes [OF assms(2)] assms(1) mode_gate_inv [OF assms(1), of x r]
  by (auto simp: spawned_def intro: prepared_inv push_history_inv spawn_run_inv)

text \<open>What a firing leaves alone.\<close>

lemma prepared_frame:
  assumes "prepared x r en en'"
  shows "en_runs en' = en_runs en" "en_cooldown_map en' = en_cooldown_map en"
    "en_rules en' = en_rules en" "en_deferred en' = en_deferred en" "en_next_run en' = en_next_run en"
proof -
  have "en_runs (snd (mode_gate x r en)) = en_runs en
    \<and> en_cooldown_map (snd (mode_gate x r en)) = en_cooldown_map en
    \<and> en_rules (snd (mode_gate x r en)) = en_rules en
    \<and> en_deferred (snd (mode_gate x r en)) = en_deferred en
    \<and> en_next_run (snd (mode_gate x r en)) = en_next_run en"
    by (simp add: mode_gate_def run_mode_gate_frame [OF surjective_pairing] runs_of_frame)
  then show "en_runs en' = en_runs en" "en_cooldown_map en' = en_cooldown_map en"
    "en_rules en' = en_rules en" "en_deferred en' = en_deferred en" "en_next_run en' = en_next_run en"
    using assms by (auto simp: prepared_def cut_delays_def)
qed

lemma prepared_mode_gate: "prepared x r en (snd (mode_gate x r en))"
  by (simp add: prepared_def)

lemmas mode_gate_frame = prepared_frame [OF prepared_mode_gate]

lemma push_history_frame [simp]:
  "en_runs (push_history i f en) = en_runs en" "en_cooldown_map (push_history i f en) = en_cooldown_map en"
  "en_rules (push_history i f en) = en_rules en" "en_deferred (push_history i f en) = en_deferred en"
  "en_next_run (push_history i f en) = en_next_run en"
  "en_rule_in_flight (push_history i f en) = en_rule_in_flight en"
  by (simp_all add: push_history_def)

lemma fire_rules: "fire x w ms r tctx run en = (en', res) \<Longrightarrow> en_rules en' = en_rules en"
  by (drule fire_outcomes) (auto simp: prepared_frame mode_gate_frame spawned_def spawn_run_def)

subsection \<open>From firing a rule to handling an event\<close>

lemma find_Some_mem: "List.find p rs = Some r \<Longrightarrow> r \<in> set rs"
  by (auto simp: find_Some_iff)

lemma find_enabled_mem: "find_enabled rid rs = Some r \<Longrightarrow> r \<in> set rs"
  by (auto simp: find_enabled_def dest: find_Some_mem)

lemma matching_rules_subseq: "subseq (map fst (matching_rules x e rs)) (filter ru_enabled rs)"
  by (induction rs) (auto split: option.splits)

lemma matching_rules_mem: "fst ` set (matching_rules x e rs) \<subseteq> set rs"
  by (induction rs) (auto split: option.splits)

text \<open>
  What every firing of one of the engine's rules keeps, handling an event keeps, if neither the
  cache nor the waiting tasks matter to it.
\<close>

locale fire_preserved =
  fixes x :: externals and w :: world and P :: "engine \<Rightarrow> bool"
  assumes P_fire: "P en \<Longrightarrow> r \<in> set (en_rules en) \<Longrightarrow> fire x w ms r tctx run en = (en', res) \<Longrightarrow> P en'"
    and P_deferred: "P en \<Longrightarrow> P (en\<lparr>en_deferred := ds\<rparr>)"
    and P_cache: "P en \<Longrightarrow> P (en\<lparr>en_attr_changed_at := ca, en_device_cache := dc\<rparr>)"
begin

lemma fire_matching_P:
  "P en \<Longrightarrow> fst ` set ms \<subseteq> set (en_rules en) \<Longrightarrow> fire_matching x w n e ms en = (en', res) \<Longrightarrow> P en'"
proof (induction ms arbitrary: en)
  case (Cons m ms)
  obtain r i t where m: "m = (r, i, t)" by (cases m)
  obtain en1 res1 where fire: "fire x w n r (extract_trigger_ctx x e r t i) RunEvent en = (en1, res1)"
    by fastforce
  have "P en1" "en_rules en1 = en_rules en"
    using Cons.prems m P_fire [OF _ _ fire] fire_rules [OF fire] by auto
  then show ?case
    using Cons fire by (auto simp: m split: if_splits sum.splits)
qed simp

lemma ignore_flag_P:
  "P en \<Longrightarrow> r \<in> set (en_rules en) \<Longrightarrow> ignore_flag (fire x w n r tctx run en) = (en', res) \<Longrightarrow> P en'"
  by (cases "fire x w n r tctx run en") (auto simp: ignore_flag_def intro: P_fire)

lemma handle_event_P:
  assumes "P en" "handle_event x w n e en = (en', res)"
  shows "P en'"
proof -
  let ?en = "update_cache w e en"
  have P: "P ?en"
    using assms(1) by (cases e) (auto simp: update_cache_def intro: P_cache)
  note found = find_Some_mem find_enabled_mem
  have "P (fst (handle_scheduler_tick x w n p ?en))" "P (fst (handle_manual_run x w n p ?en))"
    "P (fst (handle_deferred_fire x w n p ?en))" for p
    using P by (auto simp: handle_scheduler_tick_def handle_manual_run_def handle_deferred_fire_def
        Let_def bind_eq_Some_conv dest: found intro: ignore_flag_P [OF _ _ surjective_pairing]
        split: option.splits)
  moreover have "P (fst (dispatch_event x w n e ?en))"
    using P fire_matching_P [OF P_deferred [OF P] _ surjective_pairing]
    by (simp add: dispatch_event_def Let_def matching_rules_mem)
  ultimately have "P (fst (handle_event x w n e en))"
    by (auto simp: handle_event_def Let_def split: event.splits)
  then show ?thesis using assms(2) by simp
qed

end

interpretation inv_fire: fire_preserved x w engine_inv for x w
  by unfold_locales (auto intro: fire_inv)

interpretation rules_fire: fire_preserved x w "\<lambda>en. en_rules en = rs" for x w rs
  by unfold_locales (auto dest: fire_rules)

subsection \<open>The invariant in every reachable state\<close>

text \<open>A turn changes only a run's turn and snapshot.\<close>

definition turned :: "nat \<Rightarrow> engine \<Rightarrow> run_task \<Rightarrow> run_task" where
  "turned i en t = (if rt_id t = i then t\<lparr>rt_turn := True, rt_snapshot := en_device_cache en\<rparr> else t)"

lemma run_turn_turned: "run_turn i en = en\<lparr>en_runs := map (turned i en) (en_runs en)\<rparr>"
  by (simp add: run_turn_def turned_def [abs_def])

lemma turned_simps [simp]:
  "rt_id (turned i en t) = rt_id t" "rt_obj (turned i en t) = rt_obj t" "rt_rule (turned i en t) = rt_rule t"
  by (simp_all add: turned_def)

lemma run_turn_inv: "engine_inv en \<Longrightarrow> engine_inv (run_turn i en)"
  by (simp add: engine_inv_def run_turn_turned runs_on_def history_of_def filter_map comp_def)

definition lost :: "nat \<Rightarrow> run_task \<Rightarrow> run_task" where
  "lost i t = (if rt_id t = i then t\<lparr>rt_turn := False, rt_lost := True\<rparr> else t)"

lemma lose_run_lost: "lose_run i en = en\<lparr>en_runs := map (lost i) (en_runs en)\<rparr>"
  by (simp add: lose_run_def lost_def [abs_def])

lemma lost_simps [simp]: "rt_id (lost i t) = rt_id t" "rt_obj (lost i t) = rt_obj t" "rt_rule (lost i t) = rt_rule t"
  by (simp_all add: lost_def)

lemma lose_run_inv: "engine_inv en \<Longrightarrow> engine_inv (lose_run i en)"
  by (simp add: engine_inv_def lose_run_lost runs_on_def history_of_def filter_map comp_def)

lemma length_filter_remove1:
  "t \<in> set xs \<Longrightarrow> length (filter p (remove1 t xs)) = length (filter p xs) - (if p t then 1 else 0)"
  by (auto simp: filter_remove1 length_remove1)

text \<open>The end of a run records it and takes it off the counters.\<close>

definition drop_run :: "run_task \<Rightarrow> engine \<Rightarrow> engine" where
  "drop_run t en =
     en\<lparr>en_heap := (en_heap en)(rt_obj t :=
          (en_heap en (rt_obj t))\<lparr>rr_count := rr_count (en_heap en (rt_obj t)) - 1\<rparr>),
        en_in_flight := en_in_flight en - 1,
        en_runs := remove1 t (en_runs en)\<rparr>"

lemma finish_run_drop:
  "\<exists>f pub. finish_run w t traces en = (drop_run t (push_history (ru_id (rt_rule t)) f en))\<lparr>en_published := pub\<rparr>"
  by (rule exI [of _ "\<lparr>rf_timestamp = w_now w, rf_trigger_type = fired_by (rt_rule t) (rt_tctx t),
          rf_trigger_context = rt_tctx t, rf_outcome = Fired, rf_conditions = rt_conditions t,
          rf_actions = traces, rf_eval_ms = rt_eval_ms t\<rparr>"],
      rule exI [of _ "en_published en @ [EvRuleFired (ru_id (rt_rule t)) (ru_name (rt_rule t))
          (fired_by (rt_rule t) (rt_tctx t)) (length (ru_actions (rt_rule t)))]"])
    (simp add: finish_run_def drop_run_def push_history_def Let_def)

lemma drop_run_inv:
  assumes inv: "engine_inv en" and t: "t \<in> set (en_runs en)"
  shows "engine_inv (drop_run t en)"
proof -
  have "distinct (map rt_id (remove1 t (en_runs en)))"
    using inv by (simp add: engine_inv_def distinct_map distinct_remove1 inj_on_def)
  moreover have "set (remove1 t (en_runs en)) \<subseteq> set (en_runs en)"
    by (rule set_remove1_subset)
  ultimately show ?thesis
    using inv t unfolding engine_inv_def drop_run_def runs_on_def history_of_def
    by (auto simp: length_filter_remove1 length_remove1)
qed

lemma finish_run_inv:
  assumes "engine_inv en" "t \<in> set (en_runs en)"
  shows "engine_inv (finish_run w t traces en)"
  using finish_run_drop [of w t traces en] assms by (auto intro!: drop_run_inv push_history_inv)

lemma deferred_elapsed_inv [simp]: "engine_inv (deferred_elapsed x w d en) = engine_inv en"
  by (simp add: deferred_elapsed_def Let_def)

lemma load_devices_frame:
  "\<exists>ca dc. fold load_device ds en = en\<lparr>en_attr_changed_at := ca, en_device_cache := dc\<rparr>"
proof (induction ds arbitrary: en)
  case Nil
  show ?case by (intro exI [of _ "en_attr_changed_at en"] exI [of _ "en_device_cache en"]) simp
next
  case (Cons d ds)
  from Cons [of "load_device d en"] show ?case
    by (auto simp: load_device_def)
qed

lemma start_engine_frame:
  "\<exists>ca dc pub. start_engine ds en =
     en\<lparr>en_attr_changed_at := ca, en_device_cache := dc, en_published := pub\<rparr>"
  using load_devices_frame [of ds en] unfolding start_engine_def Let_def by (elim exE) (simp, blast)

lemma new_engine_inv: "engine_inv (new_engine rs)"
  by (simp add: engine_inv_def new_engine_def history_of_def runs_on_def rule_runs_default_def)

lemma fold_ring_push_bound:
  "length buf \<le> HISTORY_RING_SIZE \<Longrightarrow>
   length (fold (\<lambda>j buf. case j of None \<Rightarrow> buf | Some f \<Rightarrow> ring_push f buf) js buf) \<le> HISTORY_RING_SIZE"
  by (induction js arbitrary: buf) (auto simp: ring_push_bound split: option.splits)

lemma populate_inv: "engine_inv en \<Longrightarrow> engine_inv (populate_fire_history x recs en)"
proof (induction recs arbitrary: en)
  case (Cons rec recs)
  obtain rid js where rec: "rec = (rid, js)" by fastforce
  have "engine_inv (populate_fire_history x [rec] en)"
    using Cons.prems fold_ring_push_bound
    by (auto simp: populate_fire_history_def rec engine_inv_def history_of_def runs_on_def split: option.splits)
  from Cons.IH [OF this] show ?case
    by (simp add: populate_fire_history_def)
qed (simp add: populate_fire_history_def)

lemma populate_frame: "\<exists>h. populate_fire_history x recs en = en\<lparr>en_fire_history := h\<rparr>"
proof (induction recs arbitrary: en)
  case Nil
  show ?case by (intro exI [of _ "en_fire_history en"]) (simp add: populate_fire_history_def)
next
  case (Cons rec recs)
  obtain rid js where rec: "rec = (rid, js)" by fastforce
  from Cons [of "populate_fire_history x [rec] en"] show ?case
    by (auto simp: populate_fire_history_def rec split: option.splits)
qed

lemma engine_init_inv: "engine_init x rs s \<Longrightarrow> engine_inv (fst s)"
proof -
  assume "engine_init x rs s"
  then obtain ds recs where s: "fst s = start_engine ds (populate_fire_history x recs (new_engine rs))"
    by (auto simp: engine_init_def)
  then show "engine_inv (fst s)"
    using start_engine_frame [of ds "populate_fire_history x recs (new_engine rs)"]
      populate_inv [OF new_engine_inv] by auto
qed

lemma engine_step_inv: "engine_step x s s' \<Longrightarrow> engine_inv (fst s) \<Longrightarrow> engine_inv (fst s')"
  by (induction rule: engine_step.induct)
    (auto intro: run_turn_inv lose_run_inv finish_run_inv inv_fire.handle_event_P)

lemma purge_inv: "engine_inv en \<Longrightarrow> engine_inv (purge_callback live en)"
  by (auto simp: engine_inv_def purge_callback_def history_of_def runs_on_def Let_def restrict_map_def
      inj_on_def dom_def split: if_splits option.splits)

lemma engine_step_reload_inv: "engine_step_reload x s s' \<Longrightarrow> engine_inv (fst s) \<Longrightarrow> engine_inv (fst s')"
  by (induction rule: engine_step_reload.induct) (auto intro: engine_step_inv purge_inv)

interpretation inv_sys: invariant_system "engine_init x rs" "engine_step_reload x"
  "\<lambda>s. engine_inv (fst s)" for x rs
  by unfold_locales (auto dest: engine_init_inv engine_step_reload_inv)

interpretation clock: monotone_system "engine_step x" snd for x
  by unfold_locales (erule engine_step.cases; simp)

subsection \<open>The run modes\<close>

text \<open>
  As long as the rules are not reloaded, a rule's runs are the ones its run object counts, and the
  run mode bounds them.
\<close>

definition runs_of_rule :: "engine \<Rightarrow> uuid \<Rightarrow> run_task list" where
  "runs_of_rule en rid = filter (\<lambda>t. ru_id (rt_rule t) = rid) (en_runs en)"

definition mode_bound :: "rule \<Rightarrow> nat \<Rightarrow> bool" where
  "mode_bound r n = (case ru_run_mode r of Single \<Rightarrow> n \<le> 1 | Queued m \<Rightarrow> n \<le> m | _ \<Rightarrow> True)"

definition turn_bound :: "rule \<Rightarrow> run_task list \<Rightarrow> bool" where
  "turn_bound r ts \<longleftrightarrow> (is_queued r \<longrightarrow> length (filter rt_turn ts) \<le> 1)"

definition owned_runs :: "engine \<Rightarrow> bool" where
  "owned_runs en \<longleftrightarrow>
     (\<forall>t\<in>set (en_runs en). rt_rule t \<in> set (en_rules en)
        \<and> en_rule_in_flight en (ru_id (rt_rule t)) = Some (rt_obj t))"

definition mode_inv :: "engine \<Rightarrow> bool" where
  "mode_inv en \<longleftrightarrow> engine_inv en \<and> owned_runs en \<and> distinct (map ru_id (en_rules en))
     \<and> (\<forall>r\<in>set (en_rules en). mode_bound r (length (runs_of_rule en (ru_id r)))
           \<and> turn_bound r (runs_of_rule en (ru_id r)))"

lemma owned_count:
  assumes "engine_inv en" "owned_runs en" "en_rule_in_flight en rid = Some o'"
  shows "rr_count (en_heap en o') = length (runs_of_rule en rid)"
proof -
  have "rt_obj t = o' \<longleftrightarrow> ru_id (rt_rule t) = rid" if "t \<in> set (en_runs en)" for t
    using assms that by (force simp: engine_inv_def owned_runs_def)
  then have "runs_on en o' = runs_of_rule en rid"
    by (auto simp: runs_on_def runs_of_rule_def intro: filter_cong)
  then show ?thesis
    using assms(1) by (simp add: engine_inv_def)
qed

lemma runs_of_extends:
  "runs_of rid en = (o', en') \<Longrightarrow> en_rule_in_flight en rid' = Some q \<Longrightarrow> en_rule_in_flight en' rid' = Some q"
  by (auto simp: runs_of_def split: option.splits if_splits)

lemma mode_gate_extends:
  "en_rule_in_flight en rid' = Some q \<Longrightarrow> en_rule_in_flight (snd (mode_gate x r en)) rid' = Some q"
  using runs_of_extends [OF surjective_pairing]
  by (simp add: mode_gate_def run_mode_gate_frame [OF surjective_pairing])

lemma prepared_owned: "prepared x r en en' \<Longrightarrow> owned_runs en \<Longrightarrow> owned_runs en'"
  by (auto simp: owned_runs_def prepared_frame)
    (auto simp: prepared_def cut_delays_def intro: mode_gate_extends)

lemma prepared_mode_inv:
  assumes "mode_inv en" "prepared x r en en'"
  shows "mode_inv en'"
  using assms prepared_inv [OF _ assms(2)] prepared_owned [OF assms(2)]
  by (simp add: mode_inv_def prepared_frame [OF assms(2)] runs_of_rule_def)

lemma push_history_mode_inv: "mode_inv en \<Longrightarrow> mode_inv (push_history rid f en)"
  by (simp add: mode_inv_def push_history_inv owned_runs_def runs_of_rule_def)

text \<open>The run mode admits a run only within its bound.\<close>

lemma mode_gate_count:
  assumes inv: "mode_inv en"
  shows "rr_count (en_heap (snd (runs_of (ru_id r) en)) (fst (runs_of (ru_id r) en))) =
    length (runs_of_rule en (ru_id r))"
proof -
  let ?en1 = "snd (runs_of (ru_id r) en)" and ?o = "fst (runs_of (ru_id r) en)"
  have "engine_inv ?en1" "en_rule_in_flight ?en1 (ru_id r) = Some ?o"
    using runs_of_inv [OF _ surjective_pairing] inv by (auto simp: mode_inv_def)
  moreover have "owned_runs ?en1"
    using inv runs_of_extends [OF surjective_pairing]
    by (auto simp: mode_inv_def owned_runs_def runs_of_frame)
  ultimately show ?thesis
    using owned_count by (fastforce simp: runs_of_rule_def runs_of_frame)
qed

lemma mode_gate_admits:
  assumes inv: "mode_inv en" and admits: "fst (mode_gate x r en) = None"
  shows "mode_bound r (Suc (length (runs_of_rule en (ru_id r))))"
  using admits mode_gate_count [OF inv, of r]
  by (auto simp: mode_gate_def run_mode_gate_def mode_bound_def split: run_mode.splits if_splits)

lemma rule_by_id:
  "distinct (map ru_id rs) \<Longrightarrow> r \<in> set rs \<Longrightarrow> r' \<in> set rs \<Longrightarrow> ru_id r = ru_id r' \<Longrightarrow> r = r'"
  by (auto simp: distinct_map inj_on_def)

lemma spawn_run_runs:
  "runs_of_rule (spawn_run w r tctx o' snap traces ms en) rid =
     runs_of_rule en rid @ (if ru_id r = rid then
       [\<lparr>rt_id = en_next_run en, rt_rule = r, rt_obj = o', rt_tctx = tctx, rt_snapshot = snap,
         rt_turn = (case ru_run_mode r of Queued _ \<Rightarrow> False | _ \<Rightarrow> True), rt_lost = False,
         rt_conditions = traces, rt_eval_ms = ms\<rparr>] else [])"
  by (simp add: spawn_run_def runs_of_rule_def)

lemma spawn_run_mode_inv:
  assumes inv: "mode_inv en" and r: "r \<in> set (en_rules en)"
    and obj: "en_rule_in_flight en (ru_id r) = Some o'"
    and admits: "mode_bound r (Suc (length (runs_of_rule en (ru_id r))))"
  shows "mode_inv (spawn_run w r tctx o' snap traces ms en)" (is "mode_inv ?en")
proof -
  have "engine_inv ?en"
    using inv obj by (auto simp: mode_inv_def intro: spawn_run_inv)
  moreover have "owned_runs ?en"
    using inv obj r by (auto simp: mode_inv_def owned_runs_def spawn_run_def)
  moreover have "mode_bound q (length (runs_of_rule ?en (ru_id q))) \<and> turn_bound q (runs_of_rule ?en (ru_id q))"
    if q: "q \<in> set (en_rules en)" for q
  proof (cases "ru_id r = ru_id q")
    case True
    then have "q = r" using rule_by_id inv r q by (metis mode_inv_def)
    then show ?thesis
      using inv r admits
      by (auto simp: mode_inv_def spawn_run_runs turn_bound_def is_queued_def split: run_mode.splits)
  qed (use inv q in \<open>auto simp: mode_inv_def spawn_run_runs\<close>)
  ultimately show ?thesis
    using inv by (simp add: mode_inv_def spawn_run_def)
qed

lemma fire_mode_inv:
  assumes inv: "mode_inv en" and r: "r \<in> set (en_rules en)"
    and fire: "fire x w ms r tctx run en = (en', res)"
  shows "mode_inv en'"
proof -
  have "mode_inv en'" if "spawned x w r tctx run ms en en'"
  proof -
    let ?en = "snd (mode_gate x r en)"
    have "mode_inv ?en"
      using prepared_mode_inv [OF inv prepared_mode_gate] .
    moreover have "en_rule_in_flight ?en (ru_id r) = Some (fst (runs_of (ru_id r) en))"
      using mode_gate_inv inv by (auto simp: mode_inv_def)
    moreover have "mode_bound r (Suc (length (runs_of_rule ?en (ru_id r))))"
      using mode_gate_admits [OF inv, of x r] that by (simp add: spawned_def runs_of_rule_def mode_gate_frame)
    moreover have "r \<in> set (en_rules ?en)"
      using r by (simp add: mode_gate_frame)
    ultimately show ?thesis
      using that unfolding spawned_def by (blast intro: spawn_run_mode_inv)
  qed
  then show ?thesis
    using fire_outcomes [OF fire] inv by (auto intro: prepared_mode_inv push_history_mode_inv)
qed

interpretation mode_fire: fire_preserved x w mode_inv for x w
proof
  fix en ds ca dc
  assume "mode_inv en"
  then show "mode_inv (en\<lparr>en_deferred := ds\<rparr>)"
    "mode_inv (en\<lparr>en_attr_changed_at := ca, en_device_cache := dc\<rparr>)"
    by (simp_all add: mode_inv_def owned_runs_def runs_of_rule_def)
qed (rule fire_mode_inv)

lemma drop_run_mode_inv:
  assumes inv: "mode_inv en" and t: "t \<in> set (en_runs en)"
  shows "mode_inv (drop_run t en)"
proof -
  have dropped: "engine_inv (drop_run t en)"
    using inv t by (auto simp: mode_inv_def intro: drop_run_inv)
  have owned: "owned_runs (drop_run t en)"
    using inv by (auto simp: mode_inv_def owned_runs_def drop_run_def dest: notin_set_remove1)
  have "length (filter p (runs_of_rule (drop_run t en) rid)) \<le> length (filter p (runs_of_rule en rid))"
    for p rid
    using t by (simp add: runs_of_rule_def drop_run_def length_filter_remove1)
  note fewer = this [of "\<lambda>_. True", simplified] this [of rt_turn]
  have "mode_bound r (length (runs_of_rule (drop_run t en) (ru_id r)))
      \<and> turn_bound r (runs_of_rule (drop_run t en) (ru_id r))" if "r \<in> set (en_rules en)" for r
  proof -
    have "mode_bound r (length (runs_of_rule en (ru_id r))) \<and> turn_bound r (runs_of_rule en (ru_id r))"
      using inv that by (simp add: mode_inv_def)
    then show ?thesis
      using fewer [of "ru_id r"] by (auto simp: mode_bound_def turn_bound_def split: run_mode.splits)
  qed
  then show ?thesis
    using inv dropped owned by (simp add: mode_inv_def) (simp add: drop_run_def)
qed

lemma runs_of_rule_turned:
  "runs_of_rule (run_turn i en) rid = map (turned i en) (runs_of_rule en rid)"
  by (simp add: runs_of_rule_def run_turn_turned filter_map comp_def)

lemma turned_turns:
  assumes "distinct (map rt_id ts)" "\<forall>t\<in>set ts. rt_id t = i \<longrightarrow> (\<forall>u\<in>set ts. \<not> rt_turn u)"
    and "length (filter rt_turn ts) \<le> 1"
  shows "length (filter rt_turn (map (turned i en) ts)) \<le> 1"
proof (cases "i \<in> rt_id ` set ts")
  case True
  then have "filter rt_turn (map (turned i en) ts) = map (turned i en) (filter (\<lambda>t. rt_id t = i) ts)"
    using assms(2) by (auto simp: filter_map turned_def intro!: arg_cong [where f = "map f" for f] filter_cong
        split: if_splits)
  moreover have "length (filter (\<lambda>t. rt_id t = i) ts) \<le> 1"
    using assms(1) by (induction ts) (auto simp: filter_empty_conv image_iff)
  ultimately show ?thesis by simp
next
  case False
  then have "map (turned i en) ts = ts"
    by (intro map_idI) (auto simp: turned_def)
  with assms(3) show ?thesis by simp
qed

lemma run_turn_mode_inv:
  assumes inv: "mode_inv en" and t: "t \<in> set (en_runs en)"
    and permit: "\<And>u. u \<in> set (en_runs en) \<Longrightarrow> rt_obj u = rt_obj t \<Longrightarrow> is_queued (rt_rule u) \<Longrightarrow> \<not> rt_turn u"
  shows "mode_inv (run_turn (rt_id t) en)"
proof -
  have ids: "distinct (map rt_id (en_runs en))"
    using inv by (simp add: mode_inv_def engine_inv_def)
  have "turn_bound r (runs_of_rule (run_turn (rt_id t) en) (ru_id r))" if r: "r \<in> set (en_rules en)" for r
  proof -
    let ?ts = "runs_of_rule en (ru_id r)"
    have owner: "en_rule_in_flight en (ru_id r) = Some (rt_obj y)" if "y \<in> set ?ts" for y
      using inv that by (auto simp: mode_inv_def owned_runs_def runs_of_rule_def)
    have "\<not> rt_turn v" if "is_queued r" "u \<in> set ?ts" "rt_id u = rt_id t" "v \<in> set ?ts" for u v
    proof -
      have "u = t" using ids that t by (auto simp: runs_of_rule_def distinct_map inj_on_def)
      moreover have "rt_rule v = r"
        using inv r that by (intro rule_by_id [of "en_rules en"]) (auto simp: mode_inv_def owned_runs_def runs_of_rule_def)
      moreover have "rt_obj v = rt_obj u"
        using owner [OF that(2)] owner [OF that(4)] by simp
      ultimately show ?thesis
        using permit [of v] that by (auto simp: runs_of_rule_def)
    qed
    moreover have "distinct (map rt_id ?ts)"
      using ids by (simp add: runs_of_rule_def distinct_map inj_on_def)
    ultimately show ?thesis
      using inv r unfolding turn_bound_def runs_of_rule_turned
      by (intro impI turned_turns) (auto simp: mode_inv_def turn_bound_def)
  qed
  moreover have "owned_runs (run_turn (rt_id t) en)"
    using inv by (simp add: mode_inv_def owned_runs_def run_turn_turned)
  ultimately show ?thesis
    using inv run_turn_inv by (simp add: mode_inv_def runs_of_rule_turned) (simp add: run_turn_def)
qed

lemma runs_of_rule_lost: "runs_of_rule (lose_run i en) rid = map (lost i) (runs_of_rule en rid)"
  by (simp add: runs_of_rule_def lose_run_lost filter_map comp_def)

lemma lost_turns: "length (filter rt_turn (map (lost i) ts)) \<le> length (filter rt_turn ts)"
  by (induction ts) (auto simp: lost_def)

lemma lose_run_mode_inv:
  assumes inv: "mode_inv en"
  shows "mode_inv (lose_run i en)"
proof -
  have "turn_bound r (runs_of_rule (lose_run i en) (ru_id r))" if "r \<in> set (en_rules en)" for r
    using inv that lost_turns [of i "runs_of_rule en (ru_id r)"]
    by (auto simp: turn_bound_def runs_of_rule_lost mode_inv_def intro: le_trans)
  moreover have "owned_runs (lose_run i en)"
    using inv by (simp add: mode_inv_def owned_runs_def lose_run_lost)
  ultimately show ?thesis
    using inv lose_run_inv by (simp add: mode_inv_def runs_of_rule_lost) (simp add: lose_run_def)
qed

lemma mode_inv_frame:
  "mode_inv en \<Longrightarrow> en_runs en' = en_runs en \<Longrightarrow> en_rules en' = en_rules en \<Longrightarrow>
   en_rule_in_flight en' = en_rule_in_flight en \<Longrightarrow> engine_inv en' \<Longrightarrow> mode_inv en'"
  by (simp add: mode_inv_def owned_runs_def runs_of_rule_def)

lemma engine_step_mode_inv: "engine_step x s s' \<Longrightarrow> mode_inv (fst s) \<Longrightarrow> mode_inv (fst s')"
proof (induction rule: engine_step.induct)
  case (es_event now w ms e en en' res)
  then show ?case by (auto intro: mode_fire.handle_event_P)
next
  case (es_deferred now w d en)
  then have inv: "mode_inv en" by simp
  then have "mode_inv (deferred_elapsed x w d en)"
    by (rule mode_inv_frame) (use inv in \<open>simp_all add: deferred_elapsed_def Let_def mode_inv_def\<close>)
  then show ?case by simp
next
  case (es_turn t en now)
  then show ?case by (auto intro: run_turn_mode_inv)
next
  case (es_finish now w t en traces)
  then have inv: "mode_inv en" and t: "t \<in> set (en_runs en)" by simp_all
  have dropped: "mode_inv (drop_run t (push_history (ru_id (rt_rule t)) f en))" for f
    using inv t by (intro drop_run_mode_inv push_history_mode_inv) simp_all
  obtain f pub where finish: "finish_run w t traces en =
      (drop_run t (push_history (ru_id (rt_rule t)) f en))\<lparr>en_published := pub\<rparr>"
    using finish_run_drop by blast
  have "mode_inv (finish_run w t traces en)"
    unfolding finish
    by (rule mode_inv_frame [OF dropped [of f]]) (use dropped [of f] in \<open>simp_all add: mode_inv_def\<close>)
  then show ?case by simp
next
  case (es_panic t en now)
  then show ?case by (simp add: lose_run_mode_inv)
next
  case (es_actions en now ps hv pb rv cs dr pub)
  then have inv: "mode_inv en" by simp
  then show ?case
    by (intro mode_inv_frame [OF inv]) (use inv in \<open>simp_all add: mode_inv_def\<close>)
qed

lemma engine_init_mode_inv:
  "engine_init x rs s \<Longrightarrow> distinct (map ru_id rs) \<Longrightarrow> mode_inv (fst s)"
proof -
  assume init: "engine_init x rs s" and ids: "distinct (map ru_id rs)"
  from init obtain ds recs where s: "fst s = start_engine ds (populate_fire_history x recs (new_engine rs))"
    by (auto simp: engine_init_def)
  have new: "mode_inv (new_engine rs)"
    using new_engine_inv ids
    by (auto simp: mode_inv_def owned_runs_def runs_of_rule_def mode_bound_def turn_bound_def new_engine_def
        split: run_mode.splits)
  show "mode_inv (fst s)"
    using start_engine_frame [of ds "populate_fire_history x recs (new_engine rs)"]
      populate_frame [of x recs "new_engine rs"] engine_init_inv [OF init]
    by (elim exE) (auto simp: s intro!: mode_inv_frame [OF new])
qed

interpretation mode_sys: invariant_system "\<lambda>s. engine_init x rs s \<and> distinct (map ru_id rs)"
  "engine_step x" "\<lambda>s. mode_inv (fst s)" for x rs
  by unfold_locales (auto dest: engine_init_mode_inv engine_step_mode_inv)

end
