(* ===== verification/Engine_Theorems.thy ===== *)
theory Engine_Theorems
  imports Engine_Invariants
begin

text \<open>
  What the rule engine promises: when a firing runs, the bounds of the run modes and of the
  history in every reachable state, the spacing a cooldown gives, the order and the end of a
  dispatch, the cache behind \<open>TimeElapsed\<close>, and what a reload purges.
\<close>

subsection \<open>When a firing runs\<close>

definition mode_admits :: "rule \<Rightarrow> nat \<Rightarrow> bool" where
  "mode_admits r n = (case ru_run_mode r of Single \<Rightarrow> n = 0 | Queued m \<Rightarrow> n < m | _ \<Rightarrow> True)"

definition cooled_down :: "world \<Rightarrow> rule \<Rightarrow> engine \<Rightarrow> bool" where
  "cooled_down w r en \<longleftrightarrow>
     (\<forall>c last. ru_cooldown_secs r = Some c \<longrightarrow> en_cooldown_map en (ru_id r) = Some last \<longrightarrow>
        c \<le> (w_instant w - last) div 1000000000)"

lemma cooled_down_iff: "cooldown_left w r en = None \<longleftrightarrow> cooled_down w r en"
  by (auto simp: cooldown_left_def cooled_down_def Let_def not_less split: option.splits)

definition reads_same :: "engine \<Rightarrow> engine \<Rightarrow> bool" where
  "reads_same en en' \<longleftrightarrow> en_device_cache en' = en_device_cache en \<and> en_hub_vars en' = en_hub_vars en
     \<and> en_attr_changed_at en' = en_attr_changed_at en \<and> en_priv_bools en' = en_priv_bools en"

lemma holds_reads_same:
  "reads_same en en' \<Longrightarrow> holds x w en' rid snap trig c = holds x w en rid snap trig c"
  "reads_same en en' \<Longrightarrow> scripts_ok x en' snap c = scripts_ok x en snap c"
proof (induction c)
  case (CoAnd cs)
  { case 1 with CoAnd show ?case by (auto simp: list_all_iff) next case 2 with CoAnd show ?case by (auto simp: list_all_iff) }
next
  case (CoOr cs)
  { case 1 with CoOr show ?case by (auto simp: list_ex_iff) next case 2 with CoOr show ?case by (auto simp: list_all_iff) }
next
  case (CoXor cs)
  { case 1 then show ?case
      using CoXor by (auto cong: map_cong) next case 2 with CoXor show ?case by (auto simp: list_all_iff) }
qed (auto simp: reads_same_def script_ok_def eval_script_expression_def)

lemma mode_gate_reads_same: "reads_same en (snd (mode_gate x r en))"
  by (auto simp: reads_same_def mode_gate_def run_mode_gate_def runs_of_def cut_delays_def
      split: run_mode.splits option.splits)

lemma mode_gate_iff:
  assumes "mode_inv en"
  shows "fst (mode_gate x r en) = None \<longleftrightarrow> mode_admits r (length (runs_of_rule en (ru_id r)))"
  using mode_gate_count [OF assms, of r]
  by (auto simp: mode_gate_def run_mode_gate_def mode_admits_def split: run_mode.splits)

lemma fire_checked_runs:
  assumes inv: "mode_inv en" and ok: "list_all (scripts_ok x en snap) (ru_conditions r)"
    and admitted: "admitted \<longleftrightarrow> mode_admits r (length (runs_of_rule en (ru_id r)))
        \<and> (checks \<longrightarrow> list_all (holds x w en (ru_id r) snap (trigger_alert_id tctx)) (ru_conditions r))"
  shows "map rt_rule (en_runs (fst (fire_checked x w ms r tctx checks snap en))) =
    map rt_rule (en_runs en) @ (if admitted then [r] else [])"
    "snd (fire_checked x w ms r tctx checks snap en) = Inr (admitted \<and> stops_the_chain r)"
proof -
  let ?en2 = "snd (mode_gate x r en)"
  have ok2: "list_all (scripts_ok x ?en2 snap) (ru_conditions r)"
    and holds2: "holds x w ?en2 rid snap trig = holds x w en rid snap trig" for rid trig
    using ok holds_reads_same [OF mode_gate_reads_same] by (auto simp: list_all_iff fun_eq_iff)
  obtain traces where traces:
    "evaluate_conditions x w ?en2 (ru_id r) snap (trigger_alert_id tctx) (ru_conditions r) = Inr traces"
    "conditions_passed (ru_conditions r) traces
      \<longleftrightarrow> list_all (holds x w en (ru_id r) snap (trigger_alert_id tctx)) (ru_conditions r)"
    using evaluate_conditions_passed [OF ok2] holds2 by metis
  have checked: "fire_checked x w ms r tctx checks snap en =
     (case fst (mode_gate x r en) of
        Some reason \<Rightarrow> refuse w r tctx (Skipped reason) ?en2
      | None \<Rightarrow> if checks \<and> \<not> conditions_passed (ru_conditions r) traces then
           (push_history (ru_id r) (condition_firing w r tctx traces ms) ?en2, Inr False)
         else (spawn_run w r tctx (fst (runs_of (ru_id r) en)) snap (if checks then traces else []) ms ?en2,
               Inr (stops_the_chain r)))"
    using traces(1) by (auto simp: fire_checked_def mode_gate_def case_prod_beta Let_def split: option.splits)
  show "map rt_rule (en_runs (fst (fire_checked x w ms r tctx checks snap en))) =
    map rt_rule (en_runs en) @ (if admitted then [r] else [])"
    "snd (fire_checked x w ms r tctx checks snap en) = Inr (admitted \<and> stops_the_chain r)"
    using mode_gate_iff [OF inv, of x r] traces(2)
    by (auto simp: admitted checked refuse_def mode_gate_frame spawn_run_def split: option.splits)
qed

lemma fire_runs:
  assumes "mode_inv en" "list_all (scripts_ok x en (en_device_cache en)) (ru_conditions r)"
    and "gate x (ru_required_expression r) (run_checks run) (en_device_cache en) tctx = Inr required"
    and "gate x (ru_trigger_condition r) (run_checks run) (en_device_cache en) tctx = Inr trigger_ok"
    and "runs \<longleftrightarrow> (run = RunEvent \<longrightarrow> \<not> is_paused en (ru_id r) \<and> cooled_down w r en)
          \<and> required \<and> trigger_ok \<and> mode_admits r (length (runs_of_rule en (ru_id r)))
          \<and> (run_checks run \<longrightarrow> list_all
               (holds x w en (ru_id r) (en_device_cache en) (trigger_alert_id tctx)) (ru_conditions r))"
  shows "map rt_rule (en_runs (fst (fire x w ms r tctx run en))) = map rt_rule (en_runs en) @ (if runs then [r] else [])"
    "snd (fire x w ms r tctx run en) = Inr (runs \<and> stops_the_chain r)"
proof -
  have "map rt_rule (en_runs (fst (fire x w ms r tctx run en))) = map rt_rule (en_runs en) @ (if runs then [r] else [])
    \<and> snd (fire x w ms r tctx run en) = Inr (runs \<and> stops_the_chain r)"
  proof (cases "unrefused w r run en")
    case True
    then show ?thesis
      using assms(3-5) fire_checked_runs [OF assms(1,2) refl, of w ms tctx "run_checks run"]
      by (auto simp: fire_unrefused unrefused_def cooled_down_iff refuse_def cut_delays_def split: bool.splits)
  next
    case False
    with fire_refused [OF this, of x ms tctx] show ?thesis
      using assms(5) by (auto simp: unrefused_def cooled_down_iff)
  qed
  then show "map rt_rule (en_runs (fst (fire x w ms r tctx run en))) = map rt_rule (en_runs en) @ (if runs then [r] else [])"
    "snd (fire x w ms r tctx run en) = Inr (runs \<and> stops_the_chain r)" by simp_all
qed

text \<open>
  C1. A firing starts one run of the rule, or none. It starts one exactly when the rule is neither
  paused nor cooling down (only asked of a firing by an event), its two expressions and all its
  conditions hold (not asked of a run without checks), and its run mode admits one more run beside
  those in flight.
\<close>

theorem fire_runs_iff:
  assumes "mode_inv en" "list_all (scripts_ok x en (en_device_cache en)) (ru_conditions r)"
    and "gate x (ru_required_expression r) (run_checks run) (en_device_cache en) tctx = Inr required"
    and "gate x (ru_trigger_condition r) (run_checks run) (en_device_cache en) tctx = Inr trigger_ok"
  shows "map rt_rule (en_runs (fst (fire x w ms r tctx run en))) =
    map rt_rule (en_runs en) @
      (if (run = RunEvent \<longrightarrow> \<not> is_paused en (ru_id r) \<and> cooled_down w r en)
          \<and> required \<and> trigger_ok \<and> mode_admits r (length (runs_of_rule en (ru_id r)))
          \<and> (run_checks run \<longrightarrow> list_all
               (holds x w en (ru_id r) (en_device_cache en) (trigger_alert_id tctx)) (ru_conditions r))
       then [r] else [])"
  by (rule fire_runs(1) [OF assms refl])

theorem fire_runs_iff_witness:
  "map rt_rule (en_runs (fst (fire sample_externals sample_world 0 (sample_rule\<lparr>ru_run_mode := Single\<rparr>)
      trigger_context_default RunEvent (new_engine [])))) = [sample_rule\<lparr>ru_run_mode := Single\<rparr>]"
proof -
  have inv: "mode_inv (new_engine [])"
    using new_engine_inv [of "[]"] by (simp add: mode_inv_def owned_runs_def new_engine_def)
  show ?thesis
    by (subst fire_runs_iff [OF inv])
      (simp_all add: sample_rule_def gate_def cooled_down_def mode_admits_def runs_of_rule_def
        is_paused_def new_engine_def)
qed

subsection \<open>Every reachable state\<close>

lemma split_counts: "length xs = length (filter (\<lambda>v. \<not> p v) xs) + length (filter p xs)"
  by (induction xs) auto

text \<open>
  C4. In every state the engine reaches, reloads and panics included: each rule's history holds at most
  20 firings, the engine's counter and the counter of each run object equal the number of runs in
  flight and of those whose task panicked, which they count for ever; so no decrement passes zero. The
  numbers that identify runs are unique.
\<close>

theorem reachable_counts:
  assumes "reach (engine_init x rs) (engine_step_reload x) s"
  shows "length (history_of (fst s) rid) \<le> 20
    \<and> en_in_flight (fst s) = length (filter (\<lambda>t. \<not> rt_lost t) (en_runs (fst s))) + length (filter rt_lost (en_runs (fst s)))
    \<and> rr_count (en_heap (fst s) o') =
        length (filter (\<lambda>t. rt_obj t = o' \<and> \<not> rt_lost t) (en_runs (fst s))) + length (filter (\<lambda>t. rt_obj t = o' \<and> rt_lost t) (en_runs (fst s)))
    \<and> distinct (map rt_id (en_runs (fst s)))"
  using inv_sys.reach_invar [OF assms]
  by (simp add: engine_inv_def runs_on_def HISTORY_RING_SIZE_def split_counts [where p = rt_lost and xs = "en_runs (fst s)"]
      split_counts [where p = rt_lost and xs = "filter (\<lambda>t. rt_obj t = o') (en_runs (fst s))"] conj_commute)

text \<open>
  A rule that the start of the system fires, and the state after that event.
\<close>

definition boot_rule :: rule where
  "boot_rule = sample_rule\<lparr>ru_trigger := TrSystemStarted, ru_run_mode := Single, ru_cooldown_secs := Some 5\<rparr>"

definition boot_state :: engine where
  "boot_state = fst (handle_event sample_externals sample_world 0 (EvCustom ''system_started'' (JObj []))
     (start_engine [] (new_engine [boot_rule])))"

lemma boot_init: "engine_init sample_externals [boot_rule] (start_engine [] (new_engine [boot_rule]), 0)"
  unfolding engine_init_def
  by (rule exI [of _ "[]"], rule exI [of _ "[]"]) (simp add: populate_fire_history_def)

lemma boot_step:
  "engine_step sample_externals (start_engine [] (new_engine [boot_rule]), 0) (boot_state, 0)"
proof -
  have "engine_step sample_externals (start_engine [] (new_engine [boot_rule]), 0)
      (boot_state, w_instant sample_world)"
    by (rule es_event [OF _ surjective_pairing [of "handle_event sample_externals sample_world 0
          (EvCustom ''system_started'' (JObj [])) (start_engine [] (new_engine [boot_rule]))",
        folded boot_state_def]]) simp
  then show ?thesis by (simp add: sample_world_def)
qed

lemma boot_reach: "reach (engine_init sample_externals [boot_rule]) (engine_step_reload sample_externals) (boot_state, 0)"
  by (rule reach_step, rule reach_init, rule boot_init) (rule er_step, rule boot_step)

lemma boot_reach_single:
  "reach (\<lambda>s. engine_init sample_externals [boot_rule] s \<and> distinct (map ru_id [boot_rule]))
     (engine_step sample_externals) (boot_state, 0)"
  by (rule reach_step, rule reach_init, rule conjI, rule boot_init) (simp, rule boot_step)

lemma boot_runs: "map rt_rule (en_runs boot_state) = [boot_rule]"
  by (simp add: boot_state_def handle_event_def dispatch_event_def update_cache_def start_engine_def
      new_engine_def boot_rule_def sample_rule_def all_triggers_def trigger_check_def check_custom_def
      trigger_kind_can_match_event_def fire_def fire_checked_def gate_def is_paused_def cooldown_left_def
      runs_of_def run_mode_gate_def spawn_run_def conditions_passed_def rule_runs_default_def Let_def
      trigger_for_duration_def MANUAL_RUN_EVENT_def custom_kind_can_match_def run_checks_def
      is_api_or_scheduler_only_def)

lemma boot_turn: "map rt_turn (en_runs boot_state) = [True]" "map rt_id (en_runs boot_state) = [0]"
  by (simp_all add: boot_state_def handle_event_def dispatch_event_def update_cache_def start_engine_def
      new_engine_def boot_rule_def sample_rule_def all_triggers_def trigger_check_def check_custom_def
      trigger_kind_can_match_event_def fire_def fire_checked_def gate_def is_paused_def cooldown_left_def
      runs_of_def run_mode_gate_def spawn_run_def conditions_passed_def rule_runs_default_def Let_def
      trigger_for_duration_def MANUAL_RUN_EVENT_def custom_kind_can_match_def run_checks_def
      is_api_or_scheduler_only_def)

text \<open>The run of the start panics: nothing is in flight, and the counter still says one.\<close>

theorem reachable_counts_witness:
  "length (history_of (lose_run 0 boot_state) 1) \<le> 20 \<and> en_in_flight (lose_run 0 boot_state) = 1
   \<and> filter (\<lambda>t. \<not> rt_lost t) (en_runs (lose_run 0 boot_state)) = []"
proof -
  obtain t where t: "en_runs boot_state = [t]" "rt_turn t" "rt_id t = 0" using boot_turn by auto
  have "engine_step sample_externals (boot_state, 0) (lose_run 0 boot_state, 0)"
    using es_panic [of t boot_state sample_externals 0] t by simp
  then have "reach (engine_init sample_externals [boot_rule]) (engine_step_reload sample_externals) (lose_run 0 boot_state, 0)"
    by (intro reach_step [OF boot_reach] er_step)
  from reachable_counts [OF this, of 1 0] show ?thesis using t by (simp add: lose_run_def)
qed

text \<open>
  C2. As long as the rules are not reloaded, a rule in single mode never has two runs in flight,
  and a queued rule never has more than its queue's length, of which at most one has its turn.
\<close>

theorem run_mode_bounds:
  assumes "reach (\<lambda>s. engine_init x rs s \<and> distinct (map ru_id rs)) (engine_step x) s"
    and "r \<in> set (en_rules (fst s))"
  defines "ts \<equiv> filter (\<lambda>t. ru_id (rt_rule t) = ru_id r) (en_runs (fst s))"
  shows "(ru_run_mode r = Single \<longrightarrow> length ts \<le> 1)
    \<and> (\<forall>m. ru_run_mode r = Queued m \<longrightarrow> length ts \<le> m \<and> length (filter rt_turn ts) \<le> 1)"
proof -
  have "mode_bound r (length ts) \<and> turn_bound r ts"
    using mode_sys.reach_invar [OF assms(1)] assms(2) by (simp add: mode_inv_def ts_def runs_of_rule_def)
  then show ?thesis
    by (auto simp: mode_bound_def turn_bound_def is_queued_def)
qed

lemma engine_step_rules: "engine_step x s s' \<Longrightarrow> en_rules (fst s') = en_rules (fst s)"
proof (induction rule: engine_step.induct)
  case (es_event now w ms e en en' res)
  then show ?case using rules_fire.handle_event_P [OF refl es_event(2)] by simp
next
  case (es_finish now w t en traces)
  then show ?case using finish_run_drop [of w t traces en] by (auto simp: drop_run_def)
qed (simp_all add: deferred_elapsed_def Let_def run_turn_def lose_run_def)

lemma boot_rules: "en_rules boot_state = [boot_rule]"
  using engine_step_rules [OF boot_step] by (simp add: start_engine_def new_engine_def)

theorem run_mode_bounds_witness:
  "length (filter (\<lambda>t. ru_id (rt_rule t) = ru_id boot_rule) (en_runs boot_state)) \<le> 1"
  using run_mode_bounds [OF boot_reach_single, of boot_rule] boot_rules
  by (simp add: boot_rule_def)

subsection \<open>Cooldown\<close>

text \<open>A rule's last firing is never before an earlier one.\<close>

definition fired_since :: "uuid \<Rightarrow> nanos \<Rightarrow> engine \<Rightarrow> bool" where
  "fired_since rid t0 en \<longleftrightarrow> (\<exists>last. en_cooldown_map en rid = Some last \<and> t0 \<le> last)"

lemma fire_fired_since:
  "fire x w ms r tctx run en = (en', res) \<Longrightarrow> t0 \<le> w_instant w \<Longrightarrow> fired_since rid t0 en \<Longrightarrow>
   fired_since rid t0 en'"
  by (drule fire_outcomes) (auto simp: fired_since_def prepared_frame mode_gate_frame spawned_def spawn_run_def)

interpretation cooldown_fire: fire_preserved x w "\<lambda>en. t0 \<le> w_instant w \<and> fired_since rid t0 en" for x w t0 rid
proof
  fix en ds ca dc
  assume "t0 \<le> w_instant w \<and> fired_since rid t0 en"
  then show "t0 \<le> w_instant w \<and> fired_since rid t0 (en\<lparr>en_deferred := ds\<rparr>)"
    "t0 \<le> w_instant w \<and> fired_since rid t0 (en\<lparr>en_attr_changed_at := ca, en_device_cache := dc\<rparr>)"
    by (simp_all add: fired_since_def)
qed (auto intro: fire_fired_since)

lemma fire_cooldown_set:
  assumes "fire x w ms r tctx run en = (en', res)" "en_next_run en' \<noteq> en_next_run en"
  shows "(run = RunEvent \<longrightarrow> cooldown_left w r en = None)
    \<and> (ru_cooldown_secs r \<noteq> None \<longrightarrow> fired_since (ru_id r) (w_instant w) en')"
  using fire_outcomes [OF assms(1)] assms(2)
  by (auto simp: prepared_frame mode_gate_frame spawned_def spawn_run_def fired_since_def)

text \<open>Kept by every step from a time on, if every firing at such a time keeps it.\<close>

lemma engine_step_fired_since:
  "engine_step x s s' \<Longrightarrow> t0 \<le> snd s \<Longrightarrow> fired_since rid t0 (fst s) \<Longrightarrow> fired_since rid t0 (fst s')"
proof (induction rule: engine_step.induct)
  case (es_event now w ms e en en' res)
  then show ?case
    using cooldown_fire.handle_event_P [OF _ es_event(2), of t0 rid] by simp
next
  case (es_finish now w t en traces)
  then show ?case using finish_run_drop [of w t traces en] by (auto simp: drop_run_def fired_since_def)
qed (simp_all add: deferred_elapsed_def Let_def run_turn_def lose_run_def fired_since_def)

text \<open>The steps of the engine, and the reloads after which a rule is still there.\<close>

definition step_keeping :: "externals \<Rightarrow> uuid \<Rightarrow> engine \<times> nanos \<Rightarrow> engine \<times> nanos \<Rightarrow> bool" where
  "step_keeping x rid s s' \<longleftrightarrow> engine_step_reload x s s' \<and> (engine_step x s s' \<or> rid \<in> ru_id ` set (en_rules (fst s')))"

interpretation reload_clock: monotone_system "step_keeping x rid" snd for x rid
proof
  fix s s' assume "step_keeping x rid s s'"
  then show "snd s \<le> snd s'" unfolding step_keeping_def
    by (elim conjE engine_step_reload.cases) (auto dest: clock.level_step)
qed

lemma step_keeping_fired_since:
  assumes "step_keeping x rid s s'" "t0 \<le> snd s" "fired_since rid t0 (fst s)"
  shows "fired_since rid t0 (fst s')"
proof (cases "engine_step x s s'")
  case False
  with assms(1) obtain en now live where "s = (en, now)" "s' = (purge_callback live (en\<lparr>en_rules := live\<rparr>), now)"
      "rid \<in> ru_id ` set live"
    by (auto simp: step_keeping_def purge_callback_def Let_def elim: engine_step_reload.cases)
  with assms(3) show ?thesis by (simp add: fired_since_def purge_callback_def Let_def)
qed (use engine_step_fired_since assms in blast)

lemma steps_fired_since:
  assumes "steps (step_keeping x rid) s s'" "t0 \<le> snd s" "fired_since rid t0 (fst s)"
  shows "fired_since rid t0 (fst s')"
  using assms
proof (induction rule: steps.induct)
  case (steps_step s t u)
  then show ?case
    using reload_clock.level_steps [OF steps_step.hyps(1)] step_keeping_fired_since [OF steps_step.hyps(2)] by simp
qed simp

text \<open>
  C3. A rule with a cooldown of \<open>c\<close> seconds that has run (by whatever started it) runs again
  for an event only when at least \<open>c\<close> seconds have passed, whatever the engine did in between, as long as every reload
  in between left the rule there. A reload without the rule forgets its cooldown.
\<close>

theorem cooldown_spacing:
  assumes "ru_cooldown_secs r = Some c"
    and "fire x w1 ms1 r tctx1 run en = (en1, res1)" "en_next_run en1 \<noteq> en_next_run en"
    and "steps (step_keeping x (ru_id r)) (en1, w_instant w1) (en2, t)" "t \<le> w_instant w2"
    and "fire x w2 ms2 r tctx2 RunEvent en2 = (en3, res2)" "en_next_run en3 \<noteq> en_next_run en2"
  shows "w_instant w1 + c * 1000000000 \<le> w_instant w2"
proof -
  have "fired_since (ru_id r) (w_instant w1) en1"
    using fire_cooldown_set [OF assms(2,3)] assms(1) by simp
  then have "fired_since (ru_id r) (w_instant w1) en2"
    using steps_fired_since [OF assms(4)] by simp
  then obtain last where last: "en_cooldown_map en2 (ru_id r) = Some last" "w_instant w1 \<le> last"
    by (auto simp: fired_since_def)
  have "cooldown_left w2 r en2 = None"
    using fire_cooldown_set [OF assms(6,7)] by simp
  then have "c \<le> (w_instant w2 - last) div 1000000000"
    using last(1) assms(1) by (simp add: cooled_down_iff cooled_down_def)
  then have "c * 1000000000 \<le> w_instant w2 - last"
    by (simp add: less_eq_div_iff_mult_less_eq)
  moreover have "w_instant w1 \<le> w_instant w2"
    using reload_clock.level_steps [OF assms(4)] assms(5) by simp
  ultimately show ?thesis
    using last(2) by (cases "last \<le> w_instant w2") auto
qed

lemmas fire_eval =
  fire_def fire_checked_def gate_def is_paused_def cooldown_left_def runs_of_def run_mode_gate_def
  spawn_run_def conditions_passed_def rule_runs_default_def run_checks_def Let_def

text \<open>Two firings five seconds apart, and a run's end between them.\<close>

theorem cooldown_spacing_witness:
  "w_instant sample_world + 5 * 1000000000 \<le> w_instant (sample_world\<lparr>w_instant := 5000000000\<rparr>)"
proof -
  let ?r = "sample_rule\<lparr>ru_cooldown_secs := Some 5\<rparr>" and ?w = "sample_world\<lparr>w_instant := 5000000000\<rparr>"
  obtain en1 res1 where f1: "fire sample_externals sample_world 0 ?r trigger_context_default RunEvent
      (new_engine [?r]) = (en1, res1)" by fastforce
  then have en1: "en_next_run en1 = 1" "en_cooldown_map en1 1 = Some 0" "en_pause_state en1 = Map.empty"
    "en_rule_in_flight en1 1 = Some 0"
    by (auto simp: fire_eval sample_rule_def new_engine_def sample_world_def)
  obtain t where t: "t \<in> set (en_runs en1)" "rt_turn t"
    using f1 by (auto simp: fire_eval sample_rule_def new_engine_def sample_world_def)
  let ?en2 = "finish_run sample_world t [] en1"
  have "engine_step sample_externals (en1, w_instant sample_world) (?en2, w_instant sample_world)"
    by (rule es_finish) (use t in simp_all)
  then have step: "steps (step_keeping sample_externals (ru_id ?r)) (en1, w_instant sample_world) (?en2, w_instant sample_world)"
    by (intro steps_step [OF steps_refl]) (simp add: step_keeping_def er_step)
  obtain en3 res2 where f2: "fire sample_externals ?w 0 ?r trigger_context_default RunEvent ?en2 = (en3, res2)"
    by fastforce
  then have "en_next_run en3 \<noteq> en_next_run ?en2"
    using en1 by (auto simp: fire_eval sample_rule_def sample_world_def finish_run_def push_history_def)
  from cooldown_spacing [OF _ f1 _ step _ f2 this] show ?thesis
    using en1 by (simp add: new_engine_def sample_world_def)
qed

subsection \<open>Dispatch\<close>





















text \<open>
  A matching rule whose required expression cannot be run ends the dispatch: the rules after
  it in the list, whatever they are, do not run for this event.
\<close>

theorem script_error_ends_dispatch:
  assumes "en_rules en = r # rs" "ru_enabled r" "find_matching x e 0 (all_triggers r) = Some (i, t)"
    and "trigger_for_duration t = None" "\<not> is_paused en (ru_id r)" "ru_cooldown_secs r = None"
    and "ru_required_expression r = Some script"
    and "eval_condition_script x script (en_device_cache en) Map.empty (extract_trigger_ctx x e r t i) = Inl err"
  shows "snd (dispatch_event x w n e en) = Inl (ScriptError err)
    \<and> en_runs (fst (dispatch_event x w n e en)) = en_runs en"
proof -
  have "fire x w n r (extract_trigger_ctx x e r t i) RunEvent (en\<lparr>en_deferred := ds\<rparr>) =
      (en\<lparr>en_deferred := ds\<rparr>, Inl (ScriptError err))" for ds
    using assms(5-8) by (simp add: fire_def gate_def run_checks_def is_paused_def cooldown_left_def
        map_script_error_def Let_def)
  then show ?thesis
    using assms(1-4) by (simp add: dispatch_event_def Let_def)
qed

text \<open>A script runtime that rejects every script.\<close>

theorem script_error_ends_dispatch_witness:
  "let x = sample_externals\<lparr>eval_condition_script := (\<lambda>s d h t. Inl ''unknown function'')\<rparr>;
       bad = boot_rule\<lparr>ru_required_expression := Some ''nope()'', ru_cooldown_secs := None\<rparr> in
   en_runs (fst (dispatch_event x sample_world 0 (EvCustom ''system_started'' JNull)
     (new_engine [bad, boot_rule]))) = []"
proof -
  let ?x = "sample_externals\<lparr>eval_condition_script := (\<lambda>s d h t. Inl ''unknown function'')\<rparr>"
  let ?bad = "boot_rule\<lparr>ru_required_expression := Some ''nope()'', ru_cooldown_secs := None\<rparr>"
  have "find_matching ?x (EvCustom ''system_started'' JNull) 0 (all_triggers ?bad) = Some (0, TrSystemStarted)"
    by (simp add: boot_rule_def sample_rule_def all_triggers_def trigger_check_def check_custom_def
        trigger_kind_can_match_event_def custom_kind_can_match_def is_api_or_scheduler_only_def)
  from script_error_ends_dispatch [OF _ _ this, of "new_engine [?bad, boot_rule]"] show ?thesis
    by (simp add: new_engine_def boot_rule_def sample_rule_def is_paused_def trigger_for_duration_def)
qed

subsection \<open>The device cache\<close>

lemma note_changes_at:
  "distinct (map fst current) \<Longrightarrow> note_changes now prev current ts k =
     (case map_of current k of
        Some v \<Rightarrow> if Option.bind prev (\<lambda>m. m k) = Some v then ts k else Some now
      | None \<Rightarrow> ts k)"
  by (induction current arbitrary: ts) (auto simp: image_iff split: option.splits dest: map_of_SomeD)

lemma merge_attrs_at:
  "distinct (map fst current) \<Longrightarrow> merge_attrs current m k = (case map_of current k of Some v \<Rightarrow> Some v | None \<Rightarrow> m k)"
  by (induction current arbitrary: m) (auto simp: merge_attrs_def image_iff split: option.splits dest: map_of_SomeD)

definition cached :: "engine \<Rightarrow> string \<Rightarrow> string \<Rightarrow> json option" where
  "cached en d k = Option.bind (en_device_cache en d) (\<lambda>m. m k)"

definition changed_at :: "engine \<Rightarrow> string \<Rightarrow> string \<Rightarrow> timestamp option" where
  "changed_at en d k = Option.bind (en_attr_changed_at en d) (\<lambda>m. m k)"

text \<open>
  A state report is merged into the device's cached attributes, and the time of an
  attribute's last change moves to now exactly when the report gives it another value than the
  cache had; attributes the report leaves out, and other devices, keep their value and their time.
  So a repeated report does not restart the clock of a \<open>TimeElapsed\<close> condition.
\<close>

theorem update_cache_spec:
  assumes "distinct (map fst current)"
  shows "cached (update_cache w (EvDeviceStateChanged d current prev ch) en) d' k =
      (if d' = d \<and> map_of current k \<noteq> None then map_of current k else cached en d' k)
    \<and> changed_at (update_cache w (EvDeviceStateChanged d current prev ch) en) d' k =
      (if d' = d \<and> map_of current k \<noteq> None \<and> map_of current k \<noteq> cached en d k then Some (w_now w)
       else changed_at en d' k)"
  using note_changes_at [OF assms] merge_attrs_at [OF assms]
  by (auto simp: update_cache_def cached_def changed_at_def split: option.splits)

theorem update_cache_spec_witness:
  "let en = update_cache (sample_world\<lparr>w_now := 7\<rparr>)
      (EvDeviceStateChanged ''lamp'' [(''on'', JBool True), (''dim'', JBool True)] [] sample_change) sample_engine
   in changed_at en ''lamp'' ''on'' = None \<and> changed_at en ''lamp'' ''dim'' = Some 7"
  using update_cache_spec [of "[(''on'', JBool True), (''dim'', JBool True)]" "sample_world\<lparr>w_now := 7\<rparr>"
      "''lamp''" "[]" sample_change sample_engine "''lamp''"]
  by (simp add: Let_def sample_engine_def cached_def changed_at_def)

subsection \<open>History\<close>

lemma ring_push_window:
  "ring_push f (drop (length l - HISTORY_RING_SIZE) l) = drop (Suc (length l) - HISTORY_RING_SIZE) (l @ [f])"
proof (cases "HISTORY_RING_SIZE \<le> length l")
  case True
  then have "tl (drop (length l - HISTORY_RING_SIZE) l) = drop (Suc (length l) - HISTORY_RING_SIZE) l"
    by (simp add: Suc_diff_le drop_Suc tl_drop)
  with True show ?thesis by (simp add: ring_push_def HISTORY_RING_SIZE_def)
qed (simp add: ring_push_def)

lemma ring_push_newest:
  assumes "length buf \<le> HISTORY_RING_SIZE"
  shows "fold ring_push fs buf = drop (length (buf @ fs) - HISTORY_RING_SIZE) (buf @ fs)"
proof (induction fs rule: rev_induct)
  case (snoc f fs)
  then show ?case using ring_push_window [of f "buf @ fs"] by simp
qed (use assms in simp)

lemma history_push: "history_of (push_history rid f en) rid' =
    (if rid' = rid then ring_push f (history_of en rid) else history_of en rid')"
  by (simp add: push_history_def history_of_def)

text \<open>
  However many firings are recorded, a rule's history is the newest twenty of them, oldest
  first, and recording for one rule leaves the other histories alone.
\<close>

theorem history_keeps_newest:
  assumes "length (history_of en rid) \<le> 20"
  shows "history_of (fold (push_history rid) fs en) rid' =
    (if rid' = rid then drop (length (history_of en rid @ fs) - 20) (history_of en rid @ fs)
     else history_of en rid')"
proof -
  have "history_of (fold (push_history rid) fs en) rid' =
    (if rid' = rid then fold ring_push fs (history_of en rid) else history_of en rid')"
    by (induction fs arbitrary: en) (simp_all add: history_push)
  then show ?thesis
    using ring_push_newest [of "history_of en rid" fs] assms by (simp add: HISTORY_RING_SIZE_def)
qed

theorem history_keeps_newest_witness:
  "let f = early_firing sample_world sample_rule trigger_context_default Paused in
   history_of (fold (push_history 1) (replicate 25 f) sample_engine) 1 = replicate 20 f"
  using history_keeps_newest [of sample_engine 1 "replicate 25 f" 1 for f]
  by (simp add: history_of_def sample_engine_def Let_def)

subsection \<open>Reload\<close>

text \<open>
  A reload that drops a rule forgets its run object with its cooldown and its pause. When the
  rule is read again while an old run is still in flight, an event starts another run beside it,
  even in single mode: the bound of \<open>run_mode_bounds\<close> needs the rules to stay.
\<close>

theorem readded_rule_runs_beside:
  assumes "t \<in> set (en_runs en)" "rt_rule t = r" "ru_run_mode r = Single"
    and "ru_id r \<notin> ru_id ` set live" "ru_conditions r = []"
    and "ru_required_expression r = None" "ru_trigger_condition r = None"
  shows "\<exists>u. en_runs (fst (fire x w ms r tctx RunEvent (purge_callback live en))) = en_runs en @ [u]
    \<and> rt_rule u = r"
  using assms
  by (auto simp: fire_eval purge_callback_def restrict_map_def split: option.splits)

theorem readded_rule_runs_beside_witness:
  "map rt_rule (en_runs (fst (fire sample_externals sample_world 0 boot_rule trigger_context_default
      RunEvent (purge_callback [] boot_state)))) = [boot_rule, boot_rule]"
proof -
  from boot_runs obtain t where t: "en_runs boot_state = [t]" "rt_rule t = boot_rule"
    by auto
  have "ru_run_mode boot_rule = Single" "ru_conditions boot_rule = []"
    "ru_required_expression boot_rule = None" "ru_trigger_condition boot_rule = None"
    by (simp_all add: boot_rule_def sample_rule_def)
  with t show ?thesis
    using readded_rule_runs_beside [of t boot_state boot_rule "[]" sample_externals sample_world 0
        trigger_context_default] by auto
qed

end
