(* ===== verification/Timers.thy ===== *)
theory Timers
  imports Rule_Types "HOL-Library.Char_ord" "HOL-Library.List_Lexorder"
begin

text \<open>
  Timer helper devices (\<open>hc-core/src/timer_manager.rs\<close>): the commands of a timer, the task
  that sleeps for it and fires it, and how the manager's handles, the stored attributes and the
  tasks go together. The provenance of a command (\<open>hc-types/src/device.rs\<close>) and the renaming
  of an \<open>action\<close> to a command (\<open>glue/mod.rs\<close>) are part of it.

  There is one clock, in nanoseconds, for the wall and for sleeping. Integers are those of a
  release build: additions of \<open>u64\<close> wrap. Writes to the store succeed. Of a device only what
  the manager reads and writes is kept; an event carries the attributes before and after, from which
  its list of changed keys follows, and not the device's name. The deserializers that serde derives
  and the RFC 3339 functions of chrono are parameters.
\<close>

subsection \<open>Commands and their provenance\<close>

datatype timer_command =
    TcStart "nat option" "string option" "bool option"
  | TcPause
  | TcResume
  | TcCancel
  | TcRestart
  | TcExtend nat

record timer_ext =
  tx_parse_json :: "bytes \<Rightarrow> json option"
  tx_timer_command :: "json \<Rightarrow> timer_command option"
  tx_device_change :: "json \<Rightarrow> device_change option"
  tx_parse_rfc3339 :: "string \<Rightarrow> timestamp option"
  tx_to_rfc3339 :: "timestamp \<Rightarrow> string"

definition device_change_unknown :: "timestamp \<Rightarrow> device_change" where
  "device_change_unknown now =
     \<lparr>dc_changed_at = now, dc_kind = Unknown, dc_source = None, dc_actor_id = None, dc_actor_name = None,
      dc_correlation_id = None\<rparr>"

definition device_change_homecore :: "timestamp \<Rightarrow> string \<Rightarrow> device_change" where
  "device_change_homecore now source =
     \<lparr>dc_changed_at = now, dc_kind = Homecore, dc_source = Some source, dc_actor_id = None,
      dc_actor_name = None, dc_correlation_id = None\<rparr>"

definition parse_changed_at :: "timer_ext \<Rightarrow> timestamp \<Rightarrow> json option \<Rightarrow> timestamp" where
  "parse_changed_at x now v =
     (case Option.bind (Option.bind v as_str) (tx_parse_rfc3339 x) of Some t \<Rightarrow> t | None \<Rightarrow> now)"

definition classify_legacy_source :: "string \<Rightarrow> device_change_kind" where
  "classify_legacy_source source =
     (if source \<in> {''physical'', ''manual''} then Physical
      else if source \<in> {''api'', ''rule'', ''scene'', ''script'', ''builtin''} then Homecore
      else if starts_with ''homecore'' source then Homecore
      else External)"

definition extract_change_from_command_payload ::
  "timer_ext \<Rightarrow> timestamp \<Rightarrow> json \<Rightarrow> device_change option"
where
  "extract_change_from_command_payload x now payload =
     (case Option.bind (Option.bind (json_get payload ''_hc'') (\<lambda>v. json_get v ''command''))
             (tx_device_change x) of
        Some change \<Rightarrow> Some change
      | None \<Rightarrow>
          map_option (\<lambda>source.
            \<lparr>dc_changed_at = parse_changed_at x now (json_get payload ''timestamp''),
             dc_kind = classify_legacy_source source, dc_source = Some source,
             dc_actor_id = None, dc_actor_name = None,
             dc_correlation_id = Option.bind (json_get payload ''correlation_id'') as_str\<rparr>)
            (Option.bind (json_get payload ''source'') as_str))"

text \<open>An object's entries are in the order of their keys.\<close>

fun obj_insert :: "string \<Rightarrow> json \<Rightarrow> (string \<times> json) list \<Rightarrow> (string \<times> json) list" where
  "obj_insert k v [] = [(k, v)]"
| "obj_insert k v ((k', v') # kvs) =
     (if k = k' then (k, v) # kvs
      else if k < k' then (k, v) # (k', v') # kvs
      else (k', v') # obj_insert k v kvs)"

lemma map_of_obj_insert [simp]: "map_of (obj_insert k v kvs) = (map_of kvs)(k \<mapsto> v)"
  by (induction k v kvs rule: obj_insert.induct) auto

definition action_as_command :: "json \<Rightarrow> json" where
  "action_as_command payload =
     (case payload of
        JObj kvs \<Rightarrow>
          if map_of kvs ''command'' \<noteq> None then payload
          else (case map_of kvs ''action'' of
                  None \<Rightarrow> payload
                | Some action \<Rightarrow>
                    JObj (obj_insert ''command'' action (filter (\<lambda>(k, v). k \<noteq> ''action'') kvs)))
      | _ \<Rightarrow> payload)"

text \<open>
  \<open>splitn(4, '/')\<close>: the first three parts up to a slash, and the rest.
\<close>

definition parse_timer_cmd_topic :: "string \<Rightarrow> string option" where
  "parse_timer_cmd_topic topic =
     (case split_on CHR ''/'' topic of
        p0 # p1 # p2 # p3 # rest \<Rightarrow>
          if p0 = ''homecore'' \<and> p1 = ''devices'' \<and> starts_with ''timer_'' p2
             \<and> join_with ''/'' (p3 # rest) = ''cmd''
          then Some p2 else None
      | _ \<Rightarrow> None)"

subsection \<open>State\<close>

record timer_device =
  td_attrs :: "string \<rightharpoonup> json"
  td_last_seen :: timestamp
  td_last_change :: "device_change option"

record timer_handle =
  th_duration_secs :: nat
  th_task :: nat

text \<open>
  A task sleeps until it is due, or has fired its timer and goes on from there. Its control
  channel has something to read (\<open>tt_cancelled\<close>) once its handle is gone: a message, or the
  end of the channel, which the task treats alike.
\<close>

datatype task_phase = Sleeping timestamp | HasFired

record timer_task =
  tt_device :: string
  tt_duration_secs :: nat
  tt_repeat :: bool
  tt_phase :: task_phase
  tt_cancelled :: bool

datatype timer_event =
    TeDeviceStateChanged string "string \<rightharpoonup> json" "string \<rightharpoonup> json" device_change
  | TeTimerStateChanged string string "nat option"

record timers =
  tm_devices :: "string \<rightharpoonup> timer_device"
  tm_handles :: "string \<rightharpoonup> timer_handle"
  tm_tasks :: "nat \<rightharpoonup> timer_task"
  tm_next_task :: nat
  tm_events :: "timer_event list"

definition attr_u64 :: "timer_device \<Rightarrow> string \<Rightarrow> nat option" where
  "attr_u64 dev k = Option.bind (td_attrs dev k) as_u64"

definition attr_str :: "timer_device \<Rightarrow> string \<Rightarrow> string option" where
  "attr_str dev k = Option.bind (td_attrs dev k) as_str"

definition attr_bool :: "timer_device \<Rightarrow> string \<Rightarrow> bool option" where
  "attr_bool dev k = Option.bind (td_attrs dev k) as_bool"

definition unwrap_or :: "'a option \<Rightarrow> 'a \<Rightarrow> 'a" where
  "unwrap_or o' d = (case o' of None \<Rightarrow> d | Some a \<Rightarrow> a)"

definition add_u64 :: "nat \<Rightarrow> nat \<Rightarrow> nat" where
  "add_u64 a b = (a + b) mod 2 ^ 64"

definition seconds :: "nat \<Rightarrow> int" where
  "seconds n = int n * 1000000000"

definition set_state ::
  "timer_ext \<Rightarrow> timestamp \<Rightarrow> string \<Rightarrow> string \<Rightarrow> (string \<times> json) list \<Rightarrow> device_change \<Rightarrow> timers \<Rightarrow> timers"
where
  "set_state x now device_id new_state extra change tm =
     (case tm_devices tm device_id of
        None \<Rightarrow> tm
      | Some dev \<Rightarrow>
          let previous = td_attrs dev;
              attrs1 = previous(''state'' \<mapsto> JStr new_state);
              attrs2 = (if new_state = ''running'' then attrs1(''started_at'' \<mapsto> JStr (tx_to_rfc3339 x now))
                        else attrs1);
              current = fold (\<lambda>(k, v) m. m(k \<mapsto> v)) extra attrs2 in
          tm\<lparr>tm_devices := (tm_devices tm)(device_id \<mapsto>
                 \<lparr>td_attrs = current, td_last_seen = now, td_last_change = Some change\<rparr>),
              tm_events := tm_events tm @
                [TeDeviceStateChanged device_id previous current change,
                 TeTimerStateChanged device_id new_state
                   (Option.bind (current ''remaining_secs'') as_u64)]\<rparr>)"

subsection \<open>Tasks\<close>

definition cancel_task :: "string \<Rightarrow> timers \<Rightarrow> timers" where
  "cancel_task device_id tm =
     (case tm_handles tm device_id of
        None \<Rightarrow> tm
      | Some h \<Rightarrow>
          tm\<lparr>tm_handles := (tm_handles tm)(device_id := None),
             tm_tasks := (case tm_tasks tm (th_task h) of
                None \<Rightarrow> tm_tasks tm
              | Some t \<Rightarrow> (tm_tasks tm)(th_task h \<mapsto> t\<lparr>tt_cancelled := True\<rparr>))\<rparr>)"

text \<open>A handle that is replaced is dropped, which closes its task's channel.\<close>

definition spawn_timer_task :: "timestamp \<Rightarrow> string \<Rightarrow> nat \<Rightarrow> nat \<Rightarrow> bool \<Rightarrow> timers \<Rightarrow> timers" where
  "spawn_timer_task now device_id remaining_secs duration_secs repeat tm =
     (let tm1 = cancel_task device_id tm; i = tm_next_task tm in
      tm1\<lparr>tm_handles := (tm_handles tm1)(device_id \<mapsto>
              \<lparr>th_duration_secs = duration_secs, th_task = i\<rparr>),
          tm_tasks := (tm_tasks tm1)(i \<mapsto>
              \<lparr>tt_device = device_id, tt_duration_secs = duration_secs, tt_repeat = repeat,
               tt_phase = Sleeping (now + seconds remaining_secs), tt_cancelled = False\<rparr>),
          tm_next_task := Suc i\<rparr>)"

definition started_at :: "timer_ext \<Rightarrow> timer_device \<Rightarrow> timestamp option" where
  "started_at x dev = Option.bind (attr_str dev ''started_at'') (tx_parse_rfc3339 x)"

definition elapsed_since :: "timestamp \<Rightarrow> timestamp \<Rightarrow> nat" where
  "elapsed_since now started = nat ((now - started) div 1000000000)"

definition remaining_of :: "timer_ext \<Rightarrow> timestamp \<Rightarrow> timer_device \<Rightarrow> nat" where
  "remaining_of x now dev =
     (let duration_secs = unwrap_or (attr_u64 dev ''duration_secs'') 0 in
      case started_at x dev of
        Some started \<Rightarrow> duration_secs - elapsed_since now started
      | None \<Rightarrow> duration_secs)"

definition compute_remaining :: "timer_ext \<Rightarrow> timestamp \<Rightarrow> string \<Rightarrow> timers \<Rightarrow> nat" where
  "compute_remaining x now device_id tm =
     (case tm_devices tm device_id of None \<Rightarrow> 0 | Some dev \<Rightarrow> remaining_of x now dev)"

subsection \<open>Command handlers\<close>

definition num_json :: "nat \<Rightarrow> json" where
  "num_json n = JNum (PosInt n)"

definition cmd_start ::
  "timer_ext \<Rightarrow> timestamp \<Rightarrow> string \<Rightarrow> device_change \<Rightarrow> nat option \<Rightarrow> string option \<Rightarrow> bool option \<Rightarrow>
   timers \<Rightarrow> timers"
where
  "cmd_start x now device_id change duration_arg label repeat_arg tm =
     (let attr = (\<lambda>k. Option.bind (tm_devices tm device_id) (\<lambda>dev. td_attrs dev k));
          num = (\<lambda>k. Option.bind (attr k) as_u64);
          own_secs = option_or (num ''default_secs'') (num ''duration_secs'') in
      case option_or duration_arg own_secs of
        None \<Rightarrow> tm
      | Some duration_secs \<Rightarrow>
          if duration_secs = 0 then tm
          else
            let repeat = unwrap_or (option_or repeat_arg (Option.bind (attr ''repeat'') as_bool)) False;
                extra = [(''duration_secs'', num_json duration_secs),
                         (''remaining_secs'', num_json duration_secs),
                         (''repeat'', JBool repeat)]
                        @ (case own_secs of None \<Rightarrow> [] | Some own \<Rightarrow> [(''default_secs'', num_json own)])
                        @ (case label of None \<Rightarrow> [] | Some lbl \<Rightarrow> [(''label'', JStr lbl)]) in
            spawn_timer_task now device_id duration_secs duration_secs repeat
              (set_state x now device_id ''running'' extra change (cancel_task device_id tm)))"

definition cmd_pause :: "timer_ext \<Rightarrow> timestamp \<Rightarrow> string \<Rightarrow> device_change \<Rightarrow> timers \<Rightarrow> timers" where
  "cmd_pause x now device_id change tm =
     (if tm_handles tm device_id = None then tm
      else set_state x now device_id ''paused''
             [(''remaining_secs'', num_json (compute_remaining x now device_id tm))] change
             (cancel_task device_id tm))"

definition cmd_resume :: "timer_ext \<Rightarrow> timestamp \<Rightarrow> string \<Rightarrow> device_change \<Rightarrow> timers \<Rightarrow> timers" where
  "cmd_resume x now device_id change tm =
     (case tm_devices tm device_id of
        None \<Rightarrow> tm
      | Some dev \<Rightarrow>
          if unwrap_or (attr_str dev ''state'') [] \<noteq> ''paused'' then tm
          else
            let remaining_secs = unwrap_or (attr_u64 dev ''remaining_secs'') 0;
                duration_secs = unwrap_or (attr_u64 dev ''duration_secs'') remaining_secs;
                repeat = unwrap_or (attr_bool dev ''repeat'') False in
            if 0 < remaining_secs then
              let ran = duration_secs - remaining_secs; started = now - seconds ran in
              spawn_timer_task now device_id remaining_secs duration_secs repeat
                (set_state x now device_id ''running''
                  [(''started_at'', JStr (tx_to_rfc3339 x started)),
                   (''remaining_secs'', num_json remaining_secs)] change tm)
            else set_state x now device_id ''finished'' [] change tm)"

definition cmd_extend :: "timer_ext \<Rightarrow> timestamp \<Rightarrow> string \<Rightarrow> device_change \<Rightarrow> nat \<Rightarrow> timers \<Rightarrow> timers" where
  "cmd_extend x now device_id change added tm =
     (case tm_devices tm device_id of
        None \<Rightarrow> tm
      | Some dev \<Rightarrow>
          let state_str = unwrap_or (attr_str dev ''state'') [];
              duration_secs = unwrap_or (attr_u64 dev ''duration_secs'') 0;
              repeat = unwrap_or (attr_bool dev ''repeat'') False in
          if state_str = ''running'' then
            let left = add_u64 (compute_remaining x now device_id tm) added;
                usual = (case tm_handles tm device_id of Some h \<Rightarrow> th_duration_secs h | None \<Rightarrow> duration_secs);
                extra = [(''duration_secs'', num_json (add_u64 duration_secs added)),
                         (''remaining_secs'', num_json left)]
                        @ (case td_attrs dev ''started_at'' of None \<Rightarrow> [] | Some s \<Rightarrow> [(''started_at'', s)]) in
            spawn_timer_task now device_id left usual repeat
              (set_state x now device_id ''running'' extra change (cancel_task device_id tm))
          else if state_str = ''paused'' then
            let left = add_u64 (unwrap_or (attr_u64 dev ''remaining_secs'') 0) added in
            set_state x now device_id ''paused''
              [(''duration_secs'', num_json (add_u64 duration_secs added)), (''remaining_secs'', num_json left)]
              change tm
          else tm)"

definition cmd_cancel :: "timer_ext \<Rightarrow> timestamp \<Rightarrow> string \<Rightarrow> device_change \<Rightarrow> timers \<Rightarrow> timers" where
  "cmd_cancel x now device_id change tm =
     set_state x now device_id ''cancelled'' [] change (cancel_task device_id tm)"

definition restart_duration :: "string \<Rightarrow> timers \<Rightarrow> nat option" where
  "restart_duration device_id tm =
     (case tm_handles tm device_id of
        Some h \<Rightarrow> Some (th_duration_secs h)
      | None \<Rightarrow> map_option (\<lambda>dev. unwrap_or (attr_u64 dev ''duration_secs'') 0) (tm_devices tm device_id))"

definition cmd_restart :: "timer_ext \<Rightarrow> timestamp \<Rightarrow> string \<Rightarrow> device_change \<Rightarrow> timers \<Rightarrow> timers" where
  "cmd_restart x now device_id change tm =
     (case restart_duration device_id tm of
        None \<Rightarrow> tm
      | Some duration_secs \<Rightarrow>
          if duration_secs = 0 then tm
          else
            let repeat = unwrap_or (Option.bind (tm_devices tm device_id) (\<lambda>dev. attr_bool dev ''repeat'')) False in
            spawn_timer_task now device_id duration_secs duration_secs repeat
              (set_state x now device_id ''running'' [(''remaining_secs'', num_json duration_secs)] change
                (cancel_task device_id tm)))"

definition run_command ::
  "timer_ext \<Rightarrow> timestamp \<Rightarrow> string \<Rightarrow> timer_command \<Rightarrow> device_change \<Rightarrow> timers \<Rightarrow> timers"
where
  "run_command x now device_id cmd change tm =
     (case cmd of
        TcStart duration label repeat \<Rightarrow> cmd_start x now device_id change duration label repeat tm
      | TcPause \<Rightarrow> cmd_pause x now device_id change tm
      | TcResume \<Rightarrow> cmd_resume x now device_id change tm
      | TcExtend secs \<Rightarrow> cmd_extend x now device_id change secs tm
      | TcCancel \<Rightarrow> cmd_cancel x now device_id change tm
      | TcRestart \<Rightarrow> cmd_restart x now device_id change tm)"

definition handle_cmd :: "timer_ext \<Rightarrow> timestamp \<Rightarrow> string \<Rightarrow> json option \<Rightarrow> timers \<Rightarrow> timers" where
  "handle_cmd x now device_id payload tm =
     (case payload of
        None \<Rightarrow> tm
      | Some value \<Rightarrow>
          let change = unwrap_or (extract_change_from_command_payload x now value) (device_change_unknown now) in
          case tx_timer_command x value of
            None \<Rightarrow> tm
          | Some cmd \<Rightarrow> run_command x now device_id cmd change tm)"

text \<open>A message on the bus, as \<open>start\<close> takes it.\<close>

definition on_message :: "timer_ext \<Rightarrow> timestamp \<Rightarrow> string \<Rightarrow> bytes \<Rightarrow> timers \<Rightarrow> timers" where
  "on_message x now topic payload tm =
     (case parse_timer_cmd_topic topic of
        None \<Rightarrow> tm
      | Some device_id \<Rightarrow>
          handle_cmd x now device_id (map_option action_as_command (tx_parse_json x payload)) tm)"

subsection \<open>What a task does\<close>

definition fire_timer :: "timestamp \<Rightarrow> string \<Rightarrow> timers \<Rightarrow> timers" where
  "fire_timer now device_id tm =
     (case tm_devices tm device_id of
        None \<Rightarrow> tm
      | Some dev \<Rightarrow>
          let previous = td_attrs dev;
              current = previous(''state'' \<mapsto> JStr ''finished'', ''remaining_secs'' \<mapsto> num_json 0);
              change = device_change_homecore now ''timer_manager'' in
          tm\<lparr>tm_devices := (tm_devices tm)(device_id \<mapsto>
                 \<lparr>td_attrs = current, td_last_seen = now, td_last_change = Some change\<rparr>),
              tm_events := tm_events tm @
                [TeDeviceStateChanged device_id previous current change,
                 TeTimerStateChanged device_id ''finished'' (Some 0)]\<rparr>)"

definition reset_for_repeat :: "timer_ext \<Rightarrow> timestamp \<Rightarrow> string \<Rightarrow> nat \<Rightarrow> timers \<Rightarrow> timers" where
  "reset_for_repeat x now device_id duration_secs tm =
     (case tm_devices tm device_id of
        None \<Rightarrow> tm
      | Some dev \<Rightarrow>
          let previous = td_attrs dev;
              current = previous(''state'' \<mapsto> JStr ''running'',
                ''started_at'' \<mapsto> JStr (tx_to_rfc3339 x now),
                ''remaining_secs'' \<mapsto> num_json duration_secs, ''duration_secs'' \<mapsto> num_json duration_secs);
              change = device_change_homecore now ''timer_manager'' in
          tm\<lparr>tm_devices := (tm_devices tm)(device_id \<mapsto>
                 \<lparr>td_attrs = current, td_last_seen = now, td_last_change = Some change\<rparr>),
              tm_events := tm_events tm @ [TeDeviceStateChanged device_id previous current change]\<rparr>)"

text \<open>The two halves of a task's loop: the sleep is over, and what follows the firing.\<close>

definition task_wake :: "timestamp \<Rightarrow> nat \<Rightarrow> timer_task \<Rightarrow> timers \<Rightarrow> timers" where
  "task_wake now i t tm =
     (let tm1 = fire_timer now (tt_device t) tm in
      tm1\<lparr>tm_tasks := (tm_tasks tm1)(i \<mapsto> t\<lparr>tt_phase := HasFired\<rparr>)\<rparr>)"

definition task_next :: "timer_ext \<Rightarrow> timestamp \<Rightarrow> nat \<Rightarrow> timer_task \<Rightarrow> timers \<Rightarrow> timers" where
  "task_next x now i t tm =
     (if tt_repeat t then
        let tm1 = reset_for_repeat x now (tt_device t) (tt_duration_secs t) tm in
        tm1\<lparr>tm_tasks := (tm_tasks tm1)(i \<mapsto>
          t\<lparr>tt_phase := Sleeping (now + seconds (tt_duration_secs t))\<rparr>)\<rparr>
      else
        let tm1 = cancel_task (tt_device t) tm in
        tm1\<lparr>tm_tasks := (tm_tasks tm1)(i := None)\<rparr>)"

definition task_stop :: "nat \<Rightarrow> timers \<Rightarrow> timers" where
  "task_stop i tm = tm\<lparr>tm_tasks := (tm_tasks tm)(i := None)\<rparr>"

subsection \<open>Start\<close>

definition reconstruct_timer :: "timer_ext \<Rightarrow> timestamp \<Rightarrow> string \<Rightarrow> timers \<Rightarrow> timers" where
  "reconstruct_timer x now device_id tm =
     (case tm_devices tm device_id of
        None \<Rightarrow> tm
      | Some dev \<Rightarrow>
          if unwrap_or (attr_str dev ''state'') ''idle'' = ''running'' then
            let duration_secs = unwrap_or (attr_u64 dev ''duration_secs'') 0;
                remaining_secs = remaining_of x now dev;
                repeat = unwrap_or (attr_bool dev ''repeat'') False in
            if 0 < remaining_secs then
              spawn_timer_task now device_id remaining_secs duration_secs repeat tm
            else set_state x now device_id ''finished'' [] (device_change_homecore now ''timer_manager'') tm
          else tm)"

text \<open>The store lists devices by plugin and id; the timers among them are rebuilt.\<close>

definition timer_ids :: "(string \<times> string) list \<Rightarrow> string list" where
  "timer_ids devices =
     map snd (filter (\<lambda>(plugin_id, device_id). plugin_id = ''core.glue'' \<and> starts_with ''timer_'' device_id) devices)"

definition reconstruct_timers :: "timer_ext \<Rightarrow> timestamp \<Rightarrow> (string \<times> string) list \<Rightarrow> timers \<Rightarrow> timers" where
  "reconstruct_timers x now devices tm = fold (reconstruct_timer x now) (timer_ids devices) tm"

definition new_timers :: "(string \<rightharpoonup> timer_device) \<Rightarrow> timers" where
  "new_timers devs =
     \<lparr>tm_devices = devs, tm_handles = Map.empty, tm_tasks = Map.empty, tm_next_task = 0, tm_events = []\<rparr>"

end
