(* ===== verification/Timer_Theorems.thy ===== *)
theory Timer_Theorems
  imports Timers
begin

text \<open>
  The timers as a transition system of commands, sleeping tasks and the passing of time, and what
  holds of it: a timer that the store calls running has a live task that will fire it, and that
  task is due when the stored start and length say, as long as commands do not race a task that
  has just woken up. Two runs show what happens when they do, and after a restart.
\<close>

subsection \<open>Steps\<close>

datatype timer_label =
    LTick
  | LCmd string timer_command device_change
  | LWake nat
  | LNext nat
  | LStop nat

inductive timer_step ::
  "timer_ext \<Rightarrow> timers \<times> timestamp \<Rightarrow> timer_label \<Rightarrow> timers \<times> timestamp \<Rightarrow> bool" for x
where
  tick: "now \<le> now' \<Longrightarrow> timer_step x (tm, now) LTick (tm, now')"
| cmd: "timer_step x (tm, now) (LCmd d c ch) (run_command x now d c ch tm, now)"
| wake: "tm_tasks tm i = Some t \<Longrightarrow> tt_phase t = Sleeping due \<Longrightarrow> due \<le> now \<Longrightarrow>
     timer_step x (tm, now) (LWake i) (task_wake now i t tm, now)"
| next_cycle: "tm_tasks tm i = Some t \<Longrightarrow> tt_phase t = HasFired \<Longrightarrow>
     timer_step x (tm, now) (LNext i) (task_next x now i t tm, now)"
| stop: "tm_tasks tm i = Some t \<Longrightarrow> tt_phase t = Sleeping due \<Longrightarrow> tt_cancelled t \<Longrightarrow>
     timer_step x (tm, now) (LStop i) (task_stop i tm, now)"

text \<open>
  A calm step: a command comes while every task sleeps and none has yet to notice that it is
  cancelled, and no cancelled task wakes.
\<close>

definition settled :: "timers \<Rightarrow> bool" where
  "settled tm \<longleftrightarrow> (\<forall>i t. tm_tasks tm i = Some t \<longrightarrow> tt_phase t \<noteq> HasFired \<and> \<not> tt_cancelled t)"

definition calm :: "timers \<Rightarrow> timer_label \<Rightarrow> bool" where
  "calm tm l = (case l of
      LCmd _ _ _ \<Rightarrow> settled tm
    | LWake i \<Rightarrow> (case tm_tasks tm i of Some t \<Rightarrow> \<not> tt_cancelled t | None \<Rightarrow> True)
    | _ \<Rightarrow> True)"

definition calm_step :: "timer_ext \<Rightarrow> timers \<times> timestamp \<Rightarrow> timers \<times> timestamp \<Rightarrow> bool" where
  "calm_step x s s' \<longleftrightarrow> (\<exists>l. timer_step x s l s' \<and> calm (fst s) l)"

definition timers_init :: "timer_ext \<Rightarrow> timers \<times> timestamp \<Rightarrow> bool" where
  "timers_init x s \<longleftrightarrow>
     (\<exists>devs devices. distinct (timer_ids devices) \<and> set (timer_ids devices) = dom devs
        \<and> fst s = reconstruct_timers x (snd s) devices (new_timers devs))"

subsection \<open>The invariant\<close>

definition timer_state :: "timers \<Rightarrow> string \<Rightarrow> string option" where
  "timer_state tm d = Option.bind (tm_devices tm d) (\<lambda>dev. attr_str dev ''state'')"

definition asleep :: "timers \<Rightarrow> string \<Rightarrow> bool" where
  "asleep tm d \<longleftrightarrow> (\<exists>h t due. tm_handles tm d = Some h \<and> tm_tasks tm (th_task h) = Some t
      \<and> tt_phase t = Sleeping due)"

text \<open>Handles and the tasks that are not cancelled belong together one to one.\<close>

definition linked :: "timers \<Rightarrow> bool" where
  "linked tm \<longleftrightarrow>
     (\<forall>d h. tm_handles tm d = Some h \<longrightarrow>
        (\<exists>t. tm_tasks tm (th_task h) = Some t \<and> tt_device t = d \<and> \<not> tt_cancelled t
             \<and> tt_duration_secs t = th_duration_secs h))
     \<and> (\<forall>i t. tm_tasks tm i = Some t \<longrightarrow> i < tm_next_task tm
        \<and> (\<not> tt_cancelled t \<longrightarrow> (\<exists>h. tm_handles tm (tt_device t) = Some h \<and> th_task h = i))
        \<and> (tt_cancelled t \<longrightarrow> tt_phase t \<noteq> HasFired))"

definition timers_inv :: "timers \<Rightarrow> bool" where
  "timers_inv tm \<longleftrightarrow> linked tm
     \<and> (\<forall>d \<in> dom (tm_devices tm). timer_state tm d = Some ''running'' \<longleftrightarrow> asleep tm d)"

lemma linked_sleeping:
  "settled tm \<Longrightarrow> linked tm \<Longrightarrow> asleep tm d \<longleftrightarrow> tm_handles tm d \<noteq> None"
  unfolding asleep_def linked_def settled_def by (metis not_None_eq task_phase.exhaust)

lemma cancel_task_simps [simp]:
  "tm_devices (cancel_task d tm) = tm_devices tm" "tm_next_task (cancel_task d tm) = tm_next_task tm"
  "tm_handles (cancel_task d tm) = (tm_handles tm)(d := None)"
  by (auto simp: cancel_task_def split: option.splits)

text \<open>The task behind a handle has not just fired.\<close>

definition at_rest :: "timers \<Rightarrow> string \<Rightarrow> bool" where
  "at_rest tm d \<longleftrightarrow> (\<forall>h t. tm_handles tm d = Some h \<longrightarrow> tm_tasks tm (th_task h) = Some t \<longrightarrow> tt_phase t \<noteq> HasFired)"

lemma at_rest_intros [simp, intro]: "settled tm \<Longrightarrow> at_rest tm d" "at_rest (cancel_task d tm) d"
  by (auto simp: at_rest_def settled_def)

lemma linked_handle:
  assumes "linked tm" "tm_handles tm d = Some h"
  obtains t where "tm_tasks tm (th_task h) = Some t" "tt_device t = d" "\<not> tt_cancelled t"
    "tt_duration_secs t = th_duration_secs h"
  using assms unfolding linked_def by blast

lemma linked_task:
  assumes "linked tm" "tm_tasks tm i = Some t"
  shows "i < tm_next_task tm" "\<not> tt_cancelled t \<Longrightarrow> \<exists>h. tm_handles tm (tt_device t) = Some h \<and> th_task h = i"
    "tt_cancelled t \<Longrightarrow> tt_phase t \<noteq> HasFired"
  using assms unfolding linked_def by blast+

lemma cancel_task_linked:
  assumes "linked tm" "at_rest tm d"
  shows "linked (cancel_task d tm)"
proof (cases "tm_handles tm d")
  case None
  then show ?thesis using assms by (simp add: cancel_task_def)
next
  case (Some h)
  then obtain t where t: "tm_tasks tm (th_task h) = Some t" "tt_device t = d" "\<not> tt_cancelled t"
    using linked_handle [OF assms(1)] by blast
  have other: "th_task h' \<noteq> th_task h" if "tm_handles tm d' = Some h'" "d' \<noteq> d" for d' h'
    using linked_handle [OF assms(1) that(1)] t that(2) by fastforce
  have rest: "tt_phase t \<noteq> HasFired"
    using assms(2) Some t(1) by (simp add: at_rest_def)
  have cancelled: "cancel_task d tm = tm\<lparr>tm_handles := (tm_handles tm)(d := None),
      tm_tasks := (tm_tasks tm)(th_task h \<mapsto> t\<lparr>tt_cancelled := True\<rparr>)\<rparr>"
    using Some t(1) by (simp add: cancel_task_def)
  have handles: "\<exists>u. tm_tasks (cancel_task d tm) (th_task h') = Some u \<and> tt_device u = d' \<and> \<not> tt_cancelled u
      \<and> tt_duration_secs u = th_duration_secs h'"
    if "tm_handles (cancel_task d tm) d' = Some h'" for d' h'
    using that other [of d' h'] linked_handle [OF assms(1), of d' h'] by (auto simp: cancelled split: if_splits)
  have tasks: "i < tm_next_task tm
      \<and> (\<not> tt_cancelled u \<longrightarrow> (\<exists>h. tm_handles (cancel_task d tm) (tt_device u) = Some h \<and> th_task h = i))
      \<and> (tt_cancelled u \<longrightarrow> tt_phase u \<noteq> HasFired)"
    if "tm_tasks (cancel_task d tm) i = Some u" for i u
  proof (cases "i = th_task h")
    case True
    with that rest linked_task(1) [OF assms(1) t(1)] show ?thesis by (auto simp: cancelled)
  next
    case False
    with that have u: "tm_tasks tm i = Some u" by (simp add: cancelled)
    have "\<exists>g. tm_handles (cancel_task d tm) (tt_device u) = Some g \<and> th_task g = i" if "\<not> tt_cancelled u"
      using linked_task(2) [OF assms(1) u that] False Some by (auto simp: cancelled)
    with linked_task(1,3) [OF assms(1) u] show ?thesis by blast
  qed
  show ?thesis
    using handles tasks by (simp add: linked_def)
qed

lemma cancel_task_asleep: "asleep (cancel_task d tm) d' \<longleftrightarrow> d' \<noteq> d \<and> asleep tm d'"
  by (auto simp: asleep_def cancel_task_def split: option.splits if_splits)

lemma spawn_linked:
  assumes "linked tm" "at_rest tm d"
  shows "linked (spawn_timer_task now d rem dur rep tm)"
proof -
  let ?tm = "cancel_task d tm"
  have l: "linked ?tm" by (rule cancel_task_linked [OF assms])
  have fresh: "tm_tasks ?tm (tm_next_task tm) = None"
    using linked_task(1) [OF l, of "tm_next_task tm"] by (cases "tm_tasks ?tm (tm_next_task tm)") auto
  have handles: "th_task h < tm_next_task tm" if "tm_handles ?tm d' = Some h" for d' h
    using linked_handle [OF l that] linked_task(1) [OF l] by (metis cancel_task_simps(2))
  have "tm_handles ?tm d = None" by simp
  then show ?thesis
    using l fresh handles unfolding linked_def spawn_timer_task_def Let_def
    by (auto split: if_splits dest: less_SucI)
qed

lemma spawn_asleep: "asleep (spawn_timer_task now d rem dur rep tm) d' \<longleftrightarrow> d' = d \<or> asleep tm d'"
  if "linked tm"
proof -
  have "th_task h \<noteq> tm_next_task tm" if "tm_handles tm d' = Some h" for h
    using linked_handle [OF \<open>linked tm\<close> that] linked_task(1) [OF \<open>linked tm\<close>] by (metis less_irrefl)
  then show ?thesis
    using cancel_task_asleep [of d tm d']
    by (auto simp: asleep_def spawn_timer_task_def Let_def split: if_splits)
qed

lemma spawn_devices [simp]: "tm_devices (spawn_timer_task now d rem dur rep tm) = tm_devices tm"
  by (simp add: spawn_timer_task_def Let_def)

lemma set_state_frame [simp]:
  "tm_handles (set_state x now d st extra ch tm) = tm_handles tm"
  "tm_tasks (set_state x now d st extra ch tm) = tm_tasks tm"
  "tm_next_task (set_state x now d st extra ch tm) = tm_next_task tm"
  "dom (tm_devices (set_state x now d st extra ch tm)) = dom (tm_devices tm)"
  by (auto simp: set_state_def Let_def split: option.splits)

lemma linked_frame:
  "tm_handles tm' = tm_handles tm \<Longrightarrow> tm_tasks tm' = tm_tasks tm \<Longrightarrow> tm_next_task tm' = tm_next_task tm \<Longrightarrow>
   linked tm' = linked tm"
  "tm_handles tm' = tm_handles tm \<Longrightarrow> tm_tasks tm' = tm_tasks tm \<Longrightarrow> asleep tm' d = asleep tm d"
  "tm_handles tm' = tm_handles tm \<Longrightarrow> tm_tasks tm' = tm_tasks tm \<Longrightarrow> at_rest tm' d = at_rest tm d"
  by (simp_all add: linked_def asleep_def at_rest_def)

lemma set_state_sys [simp]:
  "linked (set_state x now d st extra ch tm) = linked tm"
  "asleep (set_state x now d st extra ch tm) d' = asleep tm d'"
  "at_rest (set_state x now d st extra ch tm) d' = at_rest tm d'"
  by (rule linked_frame; simp)+

lemma fold_upd_other:
  "k \<notin> fst ` set kvs \<Longrightarrow> fold (\<lambda>(k, v) m. m(k \<mapsto> v)) kvs m k = m k"
  by (induction kvs arbitrary: m) auto

lemma set_state_state:
  assumes "''state'' \<notin> fst ` set extra"
  shows "timer_state (set_state x now d st extra ch tm) d' =
    (if d' = d \<and> d \<in> dom (tm_devices tm) then Some st else timer_state tm d')"
  using fold_upd_other [OF assms]
  by (auto simp: timer_state_def set_state_def attr_str_def Let_def split: option.splits)

lemma timer_state_frame: "tm_devices tm' = tm_devices tm \<Longrightarrow> timer_state tm' = timer_state tm"
  by (simp add: timer_state_def fun_eq_iff)

subsection \<open>Commands keep the invariant\<close>

text \<open>
  Every command stops the task and writes a state, and starts another task exactly when that
  state is running.
\<close>

lemma rest_after:
  assumes inv: "timers_inv tm" and calm: "settled tm" and st: "''state'' \<notin> fst ` set extra" "st \<noteq> ''running''"
  shows "timers_inv (set_state x now d st extra ch (cancel_task d tm))"
  using inv cancel_task_linked [of tm d] calm
  by (auto simp: timers_inv_def set_state_state [OF st(1)] cancel_task_asleep st(2)
      timer_state_frame [OF cancel_task_simps(1)])

lemma running_after:
  assumes inv: "timers_inv tm" and calm: "settled tm" and st: "''state'' \<notin> fst ` set extra"
  shows "timers_inv (spawn_timer_task now d rem dur rep (set_state x now d ''running'' extra ch (cancel_task d tm)))"
proof -
  let ?tm = "set_state x now d ''running'' extra ch (cancel_task d tm)"
  have l: "linked ?tm"
    using inv calm cancel_task_linked [of tm d] by (simp add: timers_inv_def)
  then have "linked (spawn_timer_task now d rem dur rep ?tm)"
    by (rule spawn_linked) simp
  then show ?thesis
    using inv by (auto simp: timers_inv_def spawn_asleep [OF l] cancel_task_asleep timer_state_frame [OF spawn_devices]
        set_state_state [OF st] timer_state_frame [OF cancel_task_simps(1)])
qed

lemma no_task: "tm_handles tm d = None \<Longrightarrow> cancel_task d tm = tm"
  by (simp add: cancel_task_def)

lemma stopped_no_task:
  assumes "timers_inv tm" "settled tm" "tm_devices tm d = Some dev" "attr_str dev ''state'' \<noteq> Some ''running''"
  shows "cancel_task d tm = tm"
proof -
  have "timer_state tm d \<noteq> Some ''running''"
    using assms(3,4) by (simp add: timer_state_def)
  then have "\<not> asleep tm d"
    using assms(1,3) unfolding timers_inv_def by blast
  then show ?thesis
    using assms(1,2) linked_sleeping [of tm d] by (intro no_task) (auto simp: timers_inv_def)
qed

lemma unwrap_or_str [simp]: "a \<noteq> b \<Longrightarrow> unwrap_or o' b = a \<longleftrightarrow> o' = Some a"
  by (auto simp: unwrap_or_def split: option.splits)

lemma run_command_inv:
  assumes inv: "timers_inv tm" and calm: "settled tm"
  shows "timers_inv (run_command x now d c ch tm)"
proof (cases c)
  case (TcStart dur lbl rep)
  then show ?thesis
    using inv running_after [OF inv calm]
    by (auto simp: run_command_def cmd_start_def Let_def split: option.splits)
next
  case TcPause
  then show ?thesis
    using inv rest_after [OF inv calm] by (simp add: run_command_def cmd_pause_def)
next
  case TcResume
  show ?thesis
  proof (cases "tm_devices tm d")
    case (Some dev)
    show ?thesis
    proof (cases "attr_str dev ''state'' = Some ''paused''")
      case True
      then have "cancel_task d tm = tm" using stopped_no_task [OF inv calm Some] by simp
      with True Some running_after [OF inv calm, where d = d] rest_after [OF inv calm, where d = d] show ?thesis
        by (simp add: TcResume run_command_def cmd_resume_def Let_def)
    qed (simp add: Some inv TcResume run_command_def cmd_resume_def)
  qed (simp add: TcResume run_command_def cmd_resume_def inv)
next
  case TcCancel
  then show ?thesis using rest_after [OF inv calm] by (simp add: run_command_def cmd_cancel_def)
next
  case TcRestart
  then show ?thesis
    using inv running_after [OF inv calm]
    by (auto simp: run_command_def cmd_restart_def Let_def split: option.splits)
next
  case (TcExtend added)
  show ?thesis
  proof (cases "tm_devices tm d")
    case (Some dev)
    show ?thesis
    proof (cases "attr_str dev ''state'' = Some ''paused''")
      case True
      then have "cancel_task d tm = tm" using stopped_no_task [OF inv calm Some] by simp
      with True Some rest_after [OF inv calm, where d = d] show ?thesis
        by (simp add: TcExtend run_command_def cmd_extend_def Let_def)
    next
      case False
      with Some inv running_after [OF inv calm, where d = d] show ?thesis
        by (auto simp: TcExtend run_command_def cmd_extend_def Let_def split: option.split)
    qed
  qed (simp add: TcExtend run_command_def cmd_extend_def inv)
qed

subsection \<open>Tasks keep the invariant\<close>

lemma fire_timer_frame [simp]:
  "tm_handles (fire_timer now d tm) = tm_handles tm" "tm_tasks (fire_timer now d tm) = tm_tasks tm"
  "tm_next_task (fire_timer now d tm) = tm_next_task tm"
  "dom (tm_devices (fire_timer now d tm)) = dom (tm_devices tm)"
  "timer_state (fire_timer now d tm) d' =
     (if d' = d \<and> d \<in> dom (tm_devices tm) then Some ''finished'' else timer_state tm d')"
  by (auto simp: fire_timer_def Let_def timer_state_def attr_str_def split: option.splits)

lemma reset_for_repeat_frame [simp]:
  "tm_handles (reset_for_repeat x now d n tm) = tm_handles tm"
  "tm_tasks (reset_for_repeat x now d n tm) = tm_tasks tm"
  "tm_next_task (reset_for_repeat x now d n tm) = tm_next_task tm"
  "dom (tm_devices (reset_for_repeat x now d n tm)) = dom (tm_devices tm)"
  "timer_state (reset_for_repeat x now d n tm) d' =
     (if d' = d \<and> d \<in> dom (tm_devices tm) then Some ''running'' else timer_state tm d')"
  by (auto simp: reset_for_repeat_def Let_def timer_state_def attr_str_def split: option.splits)

text \<open>A task that stays linked may change its phase.\<close>

lemma phase_change:
  assumes l: "linked tm" and t: "tm_tasks tm i = Some t" "\<not> tt_cancelled t"
    and same: "tm_handles tm' = tm_handles tm" "tm_tasks tm' = (tm_tasks tm)(i \<mapsto> t\<lparr>tt_phase := ph\<rparr>)"
      "tm_next_task tm' = tm_next_task tm"
  shows "linked tm' \<and> (asleep tm' d \<longleftrightarrow> (if d = tt_device t then ph \<noteq> HasFired else asleep tm d))"
proof -
  obtain h where h: "tm_handles tm (tt_device t) = Some h" "th_task h = i"
    using linked_task(2) [OF l t] by auto
  have other: "th_task h' \<noteq> i" if "tm_handles tm d' = Some h'" "d' \<noteq> tt_device t" for d' h'
    using linked_handle [OF l that(1)] that(2) t by fastforce
  have "\<exists>u. tm_tasks tm' (th_task h') = Some u \<and> tt_device u = d' \<and> \<not> tt_cancelled u
      \<and> tt_duration_secs u = th_duration_secs h'" if "tm_handles tm' d' = Some h'" for d' h'
  proof -
    from that have "tm_handles tm d' = Some h'" by (simp add: same(1))
    with l obtain u where "tm_tasks tm (th_task h') = Some u" "tt_device u = d'" "\<not> tt_cancelled u"
      "tt_duration_secs u = th_duration_secs h'" by (rule linked_handle)
    with t show ?thesis by (auto simp: same(2))
  qed
  moreover have "j < tm_next_task tm' \<and> (\<not> tt_cancelled u \<longrightarrow> (\<exists>h. tm_handles tm' (tt_device u) = Some h \<and> th_task h = j))
      \<and> (tt_cancelled u \<longrightarrow> tt_phase u \<noteq> HasFired)" if u: "tm_tasks tm' j = Some u" for j u
  proof (cases "j = i")
    case True
    then show ?thesis
      using u h t(2) linked_task(1) [OF l t(1)] by (simp add: same) auto
  next
    case False
    then show ?thesis
      using u linked_task [OF l, of j u] by (simp add: same)
  qed
  ultimately have "linked tm'" unfolding linked_def by blast
  moreover have "asleep tm' d \<longleftrightarrow> (if d = tt_device t then ph \<noteq> HasFired else asleep tm d)"
    using h other by (cases ph) (auto simp: asleep_def same)
  ultimately show ?thesis ..
qed

lemma task_wake_inv:
  assumes inv: "timers_inv tm" and t: "tm_tasks tm i = Some t" "\<not> tt_cancelled t"
  shows "timers_inv (task_wake now i t tm)"
proof -
  have l: "linked tm" using inv by (simp add: timers_inv_def)
  have "linked (task_wake now i t tm) \<and>
      (asleep (task_wake now i t tm) d \<longleftrightarrow> (if d = tt_device t then False else asleep tm d))" for d
    using phase_change [OF l t, of "task_wake now i t tm" HasFired d] by (simp add: task_wake_def Let_def)
  moreover have "timer_state (task_wake now i t tm) = timer_state (fire_timer now (tt_device t) tm)"
    by (rule timer_state_frame) (simp add: task_wake_def Let_def)
  moreover have "dom (tm_devices (task_wake now i t tm)) = dom (tm_devices tm)"
    by (simp add: task_wake_def Let_def)
  ultimately show ?thesis
    using inv by (auto simp: timers_inv_def)
qed

lemma task_repeat_inv:
  assumes inv: "timers_inv tm" and t: "tm_tasks tm i = Some t" "\<not> tt_cancelled t" "tt_repeat t"
  shows "timers_inv (task_next x now i t tm)"
proof -
  have l: "linked tm" using inv by (simp add: timers_inv_def)
  have "linked (task_next x now i t tm) \<and>
      (asleep (task_next x now i t tm) d \<longleftrightarrow> (if d = tt_device t then True else asleep tm d))" for d
    using phase_change [OF l t(1,2), of "task_next x now i t tm" "Sleeping (now + seconds (tt_duration_secs t))" d] t(3)
    by (simp add: task_next_def Let_def)
  moreover have "timer_state (task_next x now i t tm) =
      timer_state (reset_for_repeat x now (tt_device t) (tt_duration_secs t) tm)"
    by (rule timer_state_frame) (simp add: task_next_def Let_def t(3))
  moreover have "dom (tm_devices (task_next x now i t tm)) = dom (tm_devices tm)"
    by (simp add: task_next_def Let_def t(3))
  ultimately show ?thesis
    using inv by (auto simp: timers_inv_def)
qed

lemma task_stop_inv:
  assumes inv: "timers_inv tm" and t: "tm_tasks tm i = Some t" "tt_cancelled t"
  shows "timers_inv (task_stop i tm)"
proof -
  have l: "linked tm" using inv by (simp add: timers_inv_def)
  have other: "th_task h \<noteq> i" if "tm_handles tm d = Some h" for d h
    using linked_handle [OF l that] t by fastforce
  have "linked (task_stop i tm)"
    using l other unfolding linked_def task_stop_def by auto
  moreover have "asleep (task_stop i tm) d = asleep tm d" for d
    using other by (auto simp: asleep_def task_stop_def)
  moreover have "timer_state (task_stop i tm) = timer_state tm"
    by (rule timer_state_frame) (simp add: task_stop_def)
  ultimately show ?thesis
    using inv by (simp add: timers_inv_def task_stop_def)
qed

text \<open>The end of a task that has fired: its handle is dropped and it is gone.\<close>

lemma task_end_inv:
  assumes inv: "timers_inv tm" and t: "tm_tasks tm i = Some t" "\<not> tt_cancelled t" "\<not> tt_repeat t"
    and fired: "tt_phase t = HasFired"
  shows "timers_inv (task_next x now i t tm)"
proof -
  have l: "linked tm" using inv by (simp add: timers_inv_def)
  obtain h where h: "tm_handles tm (tt_device t) = Some h" "th_task h = i"
    using linked_task(2) [OF l t(1,2)] by auto
  have other: "th_task h' \<noteq> i" if "tm_handles tm d' = Some h'" "d' \<noteq> tt_device t" for d' h'
    using linked_handle [OF l that(1)] that(2) t by fastforce
  have next_def: "task_next x now i t tm =
      tm\<lparr>tm_handles := (tm_handles tm)(tt_device t := None), tm_tasks := (tm_tasks tm)(i := None)\<rparr>"
    using h t by (simp add: task_next_def cancel_task_def Let_def)
  have "\<exists>g. tm_handles (task_next x now i t tm) (tt_device u) = Some g \<and> th_task g = j"
    if "tm_tasks tm j = Some u" "j \<noteq> i" "\<not> tt_cancelled u" for j u
    using linked_task(2) [OF l that(1,3)] that(2) h by (auto simp: next_def)
  then have "linked (task_next x now i t tm)"
    using l other unfolding linked_def next_def by (auto split: if_splits)
  moreover have "asleep (task_next x now i t tm) d \<longleftrightarrow> asleep tm d" for d
    using other h t(1) fired by (auto simp: asleep_def next_def)
  moreover have "timer_state (task_next x now i t tm) = timer_state tm"
    by (rule timer_state_frame) (simp add: next_def)
  ultimately show ?thesis
    using inv by (simp add: timers_inv_def next_def)
qed

lemma calm_step_inv: "calm_step x s s' \<Longrightarrow> timers_inv (fst s) \<Longrightarrow> timers_inv (fst s')"
proof -
  assume "calm_step x s s'" and inv: "timers_inv (fst s)"
  then obtain l where step: "timer_step x s l s'" and calm: "calm (fst s) l"
    by (auto simp: calm_step_def)
  from step show "timers_inv (fst s')"
  proof cases
    case (cmd tm now d c ch)
    then show ?thesis using calm inv by (auto simp: calm_def intro: run_command_inv)
  next
    case (wake tm i t due now)
    then show ?thesis using calm inv by (auto simp: calm_def intro: task_wake_inv)
  next
    case (next_cycle tm i t now)
    then have "\<not> tt_cancelled t"
      using inv linked_task(3) [of tm i t] by (auto simp: timers_inv_def)
    then show ?thesis
      using next_cycle inv task_repeat_inv [of tm i t] task_end_inv [of tm i t] by (cases "tt_repeat t") auto
  next
    case (stop tm i t due now)
    then show ?thesis using inv by (auto intro: task_stop_inv)
  qed (use inv in simp)
qed

subsection \<open>Start\<close>

text \<open>While the manager reads the stored timers, the ones it has not come to have no task.\<close>

definition reading :: "string set \<Rightarrow> timers \<Rightarrow> bool" where
  "reading todo tm \<longleftrightarrow> linked tm \<and> settled tm \<and> (\<forall>d\<in>todo. tm_handles tm d = None)
     \<and> (\<forall>d \<in> dom (tm_devices tm) - todo. timer_state tm d = Some ''running'' \<longleftrightarrow> asleep tm d)"

lemma spawn_settled:
  "settled tm \<Longrightarrow> tm_handles tm d = None \<Longrightarrow> settled (spawn_timer_task now d rem dur rep tm)"
  by (simp add: settled_def spawn_timer_task_def no_task Let_def)

lemma reconstruct_timer_cases:
  obtains (skip) "reconstruct_timer x now d tm = tm" "timer_state tm d \<noteq> Some ''running''"
    | (go) rem dur rep where "reconstruct_timer x now d tm = spawn_timer_task now d rem dur rep tm"
        "timer_state tm d = Some ''running''"
    | (late) "reconstruct_timer x now d tm =
        set_state x now d ''finished'' [] (device_change_homecore now ''timer_manager'') tm" "d \<in> dom (tm_devices tm)"
proof (cases "timer_state tm d = Some ''running''")
  case False
  then show ?thesis
    by (intro skip) (auto simp: reconstruct_timer_def timer_state_def split: option.splits)
next
  case True
  then obtain dev where dev: "tm_devices tm d = Some dev" "attr_str dev ''state'' = Some ''running''"
    by (auto simp: timer_state_def bind_eq_Some_conv)
  show ?thesis
  proof (cases "0 < remaining_of x now dev")
    case True
    with dev go show ?thesis
      by (auto simp: reconstruct_timer_def timer_state_def Let_def)
  next
    case False
    with dev late show ?thesis
      by (auto simp: reconstruct_timer_def Let_def)
  qed
qed

lemma reconstruct_timer_reading:
  assumes "reading todo tm" "d \<in> todo"
  shows "reading (todo - {d}) (reconstruct_timer x now d tm)"
proof -
  have tm: "linked tm" "settled tm" "\<forall>d\<in>todo. tm_handles tm d = None" "tm_handles tm d = None"
    "\<forall>d \<in> dom (tm_devices tm) - todo. timer_state tm d = Some ''running'' \<longleftrightarrow> asleep tm d"
    using assms by (auto simp: reading_def)
  then have awake: "\<not> asleep tm d" by (simp add: asleep_def)
  consider (skip) "reconstruct_timer x now d tm = tm" "timer_state tm d \<noteq> Some ''running''"
    | (go) rem dur rep where "reconstruct_timer x now d tm = spawn_timer_task now d rem dur rep tm"
        "timer_state tm d = Some ''running''"
    | (late) "reconstruct_timer x now d tm =
        set_state x now d ''finished'' [] (device_change_homecore now ''timer_manager'') tm" "d \<in> dom (tm_devices tm)"
    by (rule reconstruct_timer_cases)
  then show ?thesis
  proof cases
    case skip
    with tm awake show ?thesis by (auto simp: reading_def)
  next
    case go
    have "linked (spawn_timer_task now d rem dur rep tm)"
      using tm by (intro spawn_linked) auto
    moreover have "tm_handles (spawn_timer_task now d rem dur rep tm) d' = None" if "d' \<in> todo - {d}" for d'
      using tm(3) that by (simp add: spawn_timer_task_def no_task [OF tm(4)] Let_def)
    ultimately show ?thesis
      using go tm spawn_settled [OF tm(2,4)]
      by (auto simp: reading_def spawn_asleep [OF tm(1)] timer_state_frame [OF spawn_devices])
  next
    case late
    have "settled (set_state x now d st ex ch tm) = settled tm" for st ex ch
      by (simp add: settled_def)
    with late tm awake show ?thesis
      by (auto simp: reading_def set_state_state)
  qed
qed

lemma reconstruct_reading:
  "distinct ids \<Longrightarrow> reading (set ids) tm \<Longrightarrow> reading {} (fold (reconstruct_timer x now) ids tm)"
proof (induction ids arbitrary: tm)
  case (Cons d ids)
  then have "reading (set ids) (reconstruct_timer x now d tm)"
    using reconstruct_timer_reading [of "set (d # ids)" tm d x now] by (simp add: insert_Diff_if)
  with Cons show ?case by simp
qed simp

lemma timers_init_inv: "timers_init x s \<Longrightarrow> timers_inv (fst s)"
proof -
  assume "timers_init x s"
  then obtain devs ids where init: "distinct ids" "set ids = dom devs"
    "fst s = fold (reconstruct_timer x (snd s)) ids (new_timers devs)"
    by (auto simp: timers_init_def reconstruct_timers_def)
  have "reading (set ids) (new_timers devs)"
    using init(2) by (simp add: reading_def new_timers_def linked_def settled_def)
  from reconstruct_reading [OF init(1) this, of x "snd s"] show ?thesis
    by (simp add: init(3) reading_def timers_inv_def)
qed

interpretation timer_sys: invariant_system "timers_init x" "calm_step x" "\<lambda>s. timers_inv (fst s)" for x
  by unfold_locales (auto dest: timers_init_inv calm_step_inv)

subsection \<open>When a task is due\<close>

text \<open>
  The store says when a running timer ends: its start plus its length. A task is on time when it
  is due then, or less than a second later (the seconds left are counted in whole seconds).
\<close>

definition on_time :: "timer_ext \<Rightarrow> timestamp \<Rightarrow> timer_device \<Rightarrow> timestamp \<Rightarrow> bool" where
  "on_time x now dev due \<longleftrightarrow> (\<exists>s D. started_at x dev = Some s \<and> s \<le> now \<and> attr_u64 dev ''duration_secs'' = Some D
      \<and> s + seconds D \<le> due \<and> due < s + seconds D + 1000000000)"

definition paused_ok :: "timer_device \<Rightarrow> bool" where
  "paused_ok dev \<longleftrightarrow> (attr_str dev ''state'' = Some ''paused'' \<longrightarrow>
     (\<exists>R D. attr_u64 dev ''remaining_secs'' = Some R \<and> attr_u64 dev ''duration_secs'' = Some D \<and> R \<le> D))"

definition sleeps_until :: "timers \<Rightarrow> string \<Rightarrow> timestamp \<Rightarrow> bool" where
  "sleeps_until tm d due \<longleftrightarrow> (\<exists>h t. tm_handles tm d = Some h \<and> tm_tasks tm (th_task h) = Some t
      \<and> tt_phase t = Sleeping due)"

definition clocked :: "timer_ext \<Rightarrow> timestamp \<Rightarrow> timers \<Rightarrow> bool" where
  "clocked x now tm \<longleftrightarrow> (\<forall>d dev. tm_devices tm d = Some dev \<longrightarrow>
     paused_ok dev \<and> (\<forall>due. sleeps_until tm d due \<longrightarrow> on_time x now dev due))"

text \<open>
  A timely step: no restart, and an extension comes before the timer is due and does not overflow
  the length.
\<close>

definition timely :: "timers \<times> timestamp \<Rightarrow> timer_label \<Rightarrow> bool" where
  "timely s l = (case l of
      LCmd d TcRestart _ \<Rightarrow> False
    | LCmd d (TcExtend n) _ \<Rightarrow>
        (\<forall>due. sleeps_until (fst s) d due \<longrightarrow> snd s \<le> due)
        \<and> (\<forall>dev D. tm_devices (fst s) d = Some dev \<longrightarrow> attr_u64 dev ''duration_secs'' = Some D \<longrightarrow> D + n < 2 ^ 64)
    | _ \<Rightarrow> True)"

definition timely_step :: "timer_ext \<Rightarrow> timers \<times> timestamp \<Rightarrow> timers \<times> timestamp \<Rightarrow> bool" where
  "timely_step x s s' \<longleftrightarrow> (\<exists>l. timer_step x s l s' \<and> calm (fst s) l \<and> timely s l)"

text \<open>The stored timers are as the manager writes them.\<close>

definition stored_ok :: "timer_ext \<Rightarrow> timestamp \<Rightarrow> timer_device \<Rightarrow> bool" where
  "stored_ok x now dev \<longleftrightarrow> paused_ok dev
     \<and> (attr_str dev ''state'' = Some ''running'' \<longrightarrow>
          (\<exists>s D. started_at x dev = Some s \<and> s \<le> now \<and> attr_u64 dev ''duration_secs'' = Some D))"

definition timers_init_ok :: "timer_ext \<Rightarrow> timers \<times> timestamp \<Rightarrow> bool" where
  "timers_init_ok x s \<longleftrightarrow>
     (\<exists>devs devices. distinct (timer_ids devices) \<and> set (timer_ids devices) = dom devs
        \<and> (\<forall>dev \<in> ran devs. stored_ok x (snd s) dev)
        \<and> fst s = reconstruct_timers x (snd s) devices (new_timers devs))"

definition rfc3339_ok :: "timer_ext \<Rightarrow> bool" where
  "rfc3339_ok x \<longleftrightarrow> (\<forall>t. tx_parse_rfc3339 x (tx_to_rfc3339 x t) = Some t)"

text \<open>What a state change writes.\<close>

definition written :: "timer_ext \<Rightarrow> timestamp \<Rightarrow> string \<Rightarrow> (string \<times> json) list \<Rightarrow> (string \<rightharpoonup> json) \<Rightarrow> (string \<rightharpoonup> json)"
where
  "written x now st extra m = fold (\<lambda>(k, v) m. m(k \<mapsto> v)) extra
     (if st = ''running'' then m(''state'' \<mapsto> JStr st, ''started_at'' \<mapsto> JStr (tx_to_rfc3339 x now))
      else m(''state'' \<mapsto> JStr st))"

lemma set_state_devices:
  "tm_devices (set_state x now d st extra ch tm) =
     (case tm_devices tm d of
        None \<Rightarrow> tm_devices tm
      | Some dev \<Rightarrow> (tm_devices tm)(d \<mapsto> \<lparr>td_attrs = written x now st extra (td_attrs dev), td_last_seen = now,
                                            td_last_change = Some ch\<rparr>))"
  by (auto simp: set_state_def written_def Let_def split: option.splits)

lemma sleeps_until_frame:
  "tm_handles tm' = tm_handles tm \<Longrightarrow> tm_tasks tm' = tm_tasks tm \<Longrightarrow> sleeps_until tm' d due = sleeps_until tm d due"
  by (simp add: sleeps_until_def)

lemma sleeps_until_cancel: "sleeps_until (cancel_task d tm) d' due \<longleftrightarrow> d' \<noteq> d \<and> sleeps_until tm d' due"
  by (auto simp: sleeps_until_def cancel_task_def split: option.splits if_splits)

lemma sleeps_until_spawn:
  assumes "linked tm"
  shows "sleeps_until (spawn_timer_task now d rem dur rep tm) d' due \<longleftrightarrow>
     (if d' = d then due = now + seconds rem else sleeps_until tm d' due)"
proof -
  have "th_task h \<noteq> tm_next_task tm" if "tm_handles tm d' = Some h" for h
    using linked_handle [OF \<open>linked tm\<close> that] linked_task(1) [OF \<open>linked tm\<close>] by (metis less_irrefl)
  then show ?thesis
    using sleeps_until_cancel [of d tm d' due]
    by (auto simp: sleeps_until_def spawn_timer_task_def Let_def split: if_splits)
qed

lemma clocked_rest:
  assumes "clocked x now tm"
    and "\<And>dev. tm_devices tm d = Some dev \<Longrightarrow> paused_ok \<lparr>td_attrs = written x now st extra (td_attrs dev),
           td_last_seen = now, td_last_change = Some ch\<rparr>"
  shows "clocked x now (set_state x now d st extra ch (cancel_task d tm))"
  using assms unfolding clocked_def
  by (auto simp: set_state_devices sleeps_until_frame [OF set_state_frame(1,2)] sleeps_until_cancel
      split: option.splits if_splits)

lemma clocked_run:
  assumes "clocked x now tm" "linked tm" "settled tm" "''state'' \<notin> fst ` set extra"
    and "\<And>dev. tm_devices tm d = Some dev \<Longrightarrow> on_time x now \<lparr>td_attrs = written x now ''running'' extra (td_attrs dev),
           td_last_seen = now, td_last_change = Some ch\<rparr> (now + seconds rem)"
  shows "clocked x now (spawn_timer_task now d rem dur rep (set_state x now d ''running'' extra ch (cancel_task d tm)))"
proof -
  let ?tm = "set_state x now d ''running'' extra ch (cancel_task d tm)"
  have l: "linked ?tm" using assms(2,3) cancel_task_linked by auto
  have "paused_ok \<lparr>td_attrs = written x now ''running'' extra a, td_last_seen = n, td_last_change = c\<rparr>" for a n c
    using fold_upd_other [OF assms(4)] by (simp add: paused_ok_def attr_str_def written_def)
  then show ?thesis
    using assms(1,5) unfolding clocked_def
    by (auto simp: set_state_devices sleeps_until_spawn [OF l] sleeps_until_frame [OF set_state_frame(1,2)]
        sleeps_until_cancel split: option.splits if_splits)
qed

lemma left_on_time:
  assumes "s \<le> now" "now < s + seconds D + 1000000000"
  shows "elapsed_since now s \<le> D"
    and "s + seconds (D + n) \<le> now + seconds (D - elapsed_since now s + n)"
    and "now + seconds (D - elapsed_since now s + n) < s + seconds (D + n) + 1000000000"
proof -
  let ?q = "(now - s) div 1000000000"
  have q: "0 \<le> ?q" using assms(1) by (simp add: pos_imp_zdiv_nonneg_iff)
  have le: "?q * 1000000000 \<le> now - s" and lt: "now - s < ?q * 1000000000 + 1000000000"
    by linarith+
  have e: "int (elapsed_since now s) = ?q" using q by (simp add: elapsed_since_def)
  show D: "elapsed_since now s \<le> D"
    using le assms(2) e unfolding seconds_def by linarith
  have "seconds (D - elapsed_since now s + n) = seconds (D + n) - ?q * 1000000000"
    using D e by (simp add: seconds_def of_nat_diff algebra_simps)
  then show "s + seconds (D + n) \<le> now + seconds (D - elapsed_since now s + n)"
    and "now + seconds (D - elapsed_since now s + n) < s + seconds (D + n) + 1000000000"
    using le lt by linarith+
qed

lemma written_simps [simp]:
  "written x now st [] m = (if st = ''running'' then m(''state'' \<mapsto> JStr st, ''started_at'' \<mapsto> JStr (tx_to_rfc3339 x now))
      else m(''state'' \<mapsto> JStr st))"
  "written x now st (extra @ [(k, v)]) m = (written x now st extra m)(k \<mapsto> v)"
  by (simp_all add: written_def)

lemma attr_simps [simp]:
  "attr_u64 \<lparr>td_attrs = m, td_last_seen = n, td_last_change = c\<rparr> k = Option.bind (m k) as_u64"
  "attr_str \<lparr>td_attrs = m, td_last_seen = n, td_last_change = c\<rparr> k = Option.bind (m k) as_str"
  "as_u64 (num_json i) = Some i"
  by (simp_all add: attr_u64_def attr_str_def num_json_def)

lemmas clock_defs = on_time_def paused_ok_def started_at_def written_def seconds_def

lemma clocked_paused: "clocked x now tm \<Longrightarrow> tm_devices tm d = Some dev \<Longrightarrow> paused_ok dev"
  unfolding clocked_def by blast

lemma as_str_Some: "as_str v = Some s \<longleftrightarrow> v = JStr s"
  by (cases v) (auto simp: as_str_def)

lemma sleeping_on_time:
  assumes "clocked x now tm" "linked tm" "settled tm" "tm_handles tm d = Some h" "tm_devices tm d = Some dev"
  obtains due s D where "sleeps_until tm d due" "started_at x dev = Some s" "s \<le> now"
    "attr_u64 dev ''duration_secs'' = Some D" "s + seconds D \<le> due" "due < s + seconds D + 1000000000"
proof -
  obtain t where t: "tm_tasks tm (th_task h) = Some t" using linked_handle [OF assms(2,4)] by blast
  then obtain due where "tt_phase t = Sleeping due"
    using assms(3) by (cases "tt_phase t") (auto simp: settled_def)
  then have "sleeps_until tm d due" using t assms(4) by (auto simp: sleeps_until_def)
  with assms(1,5) that show ?thesis by (force simp: clocked_def on_time_def)
qed

lemma start_clocked:
  assumes "clocked x now tm" "linked tm" "settled tm" "rfc3339_ok x"
  shows "clocked x now (cmd_start x now d ch dur lbl rep tm)"
  using assms(1,4)
  by (auto simp: cmd_start_def Let_def clock_defs rfc3339_ok_def intro!: clocked_run [OF assms(1-3)]
      split: option.splits)

lemma pause_clocked:
  assumes "clocked x now tm" "linked tm" "settled tm"
  shows "clocked x now (cmd_pause x now d ch tm)"
proof (cases "tm_handles tm d")
  case (Some h)
  have "paused_ok \<lparr>td_attrs = written x now ''paused'' [(''remaining_secs'', num_json (compute_remaining x now d tm))]
      (td_attrs dev), td_last_seen = now, td_last_change = Some ch\<rparr>" if dev: "tm_devices tm d = Some dev" for dev
  proof -
    obtain s D where "started_at x dev = Some s" "attr_u64 dev ''duration_secs'' = Some D"
      using sleeping_on_time [OF assms Some dev] by blast
    then show ?thesis
      using dev by (simp add: paused_ok_def written_def compute_remaining_def remaining_of_def attr_u64_def unwrap_or_def)
  qed
  then show ?thesis
    using clocked_rest [OF assms(1)] Some by (simp add: cmd_pause_def)
qed (simp add: cmd_pause_def assms)

lemma cancel_clocked: "clocked x now tm \<Longrightarrow> clocked x now (cmd_cancel x now d ch tm)"
  unfolding cmd_cancel_def by (rule clocked_rest) (simp_all add: paused_ok_def)

lemma resume_clocked:
  assumes "clocked x now tm" "linked tm" "settled tm" "rfc3339_ok x" "timers_inv tm"
  shows "clocked x now (cmd_resume x now d ch tm)"
proof (cases "\<exists>dev. tm_devices tm d = Some dev \<and> attr_str dev ''state'' = Some ''paused''")
  case True
  then obtain dev where dev: "tm_devices tm d = Some dev" "attr_str dev ''state'' = Some ''paused''" by blast
  then have none: "cancel_task d tm = tm" using stopped_no_task [OF assms(5,3)] by simp
  obtain R D where RD: "attr_u64 dev ''remaining_secs'' = Some R" "attr_u64 dev ''duration_secs'' = Some D" "R \<le> D"
    using clocked_paused [OF assms(1) dev(1)] dev(2) by (auto simp: paused_ok_def)
  have "clocked x now (spawn_timer_task now d R D rep (set_state x now d ''running''
      [(''started_at'', JStr (tx_to_rfc3339 x (now - seconds (D - R)))), (''remaining_secs'', num_json R)] ch
      (cancel_task d tm)))" for rep
    using RD dev assms(4)
    by (intro clocked_run [OF assms(1-3)]) (auto simp: clock_defs rfc3339_ok_def attr_u64_def of_nat_diff)
  moreover have "clocked x now (set_state x now d ''finished'' [] ch (cancel_task d tm))"
    by (rule clocked_rest [OF assms(1)]) (simp add: paused_ok_def)
  ultimately show ?thesis
    using dev RD none by (simp add: cmd_resume_def Let_def unwrap_or_def)
next
  case False
  then show ?thesis using assms(1) by (auto simp: cmd_resume_def split: option.splits)
qed

lemma extend_running_clocked:
  assumes "clocked x now tm" "linked tm" "settled tm" "timers_inv tm"
    and "timely (tm, now) (LCmd d (TcExtend n) ch)"
    and dev: "tm_devices tm d = Some dev" "attr_str dev ''state'' = Some ''running''"
  shows "clocked x now (cmd_extend x now d ch n tm)"
proof -
  have "asleep tm d" using assms(4) dev by (auto simp: timers_inv_def timer_state_def)
  then obtain h where h: "tm_handles tm d = Some h" by (auto simp: asleep_def)
  obtain due s D where due: "sleeps_until tm d due" "started_at x dev = Some s" "s \<le> now"
    "attr_u64 dev ''duration_secs'' = Some D" "due < s + seconds D + 1000000000"
    using sleeping_on_time [OF assms(1-3) h dev(1)] by metis
  have fits: "now \<le> due" "D + n < 2 ^ 64"
    using assms(5) due dev by (auto simp: timely_def)
  have "now < s + seconds D + 1000000000" using fits(1) due(5) by linarith
  note left = left_on_time [OF due(3) this]
  have wrap: "add_u64 D n = D + n" "add_u64 (compute_remaining x now d tm) n = D - elapsed_since now s + n"
    using fits(2) due dev by (auto simp: add_u64_def compute_remaining_def remaining_of_def unwrap_or_def)
  have str: "td_attrs dev ''started_at'' = Some (JStr str) \<Longrightarrow> tx_parse_rfc3339 x str = Some s" for str
    using due(2) by (simp add: started_at_def attr_str_def)
  obtain str where started: "td_attrs dev ''started_at'' = Some (JStr str)"
    using due(2) by (auto simp: started_at_def attr_str_def bind_eq_Some_conv as_str_Some)
  have "clocked x now (spawn_timer_task now d (D - elapsed_since now s + n) usual rep (set_state x now d ''running''
      [(''duration_secs'', num_json (D + n)), (''remaining_secs'', num_json (D - elapsed_since now s + n)),
       (''started_at'', JStr str)] ch (cancel_task d tm)))" for usual rep
    using str [OF started] left(2,3) [of n] due(3)
    by (intro clocked_run [OF assms(1-3)]) (auto simp: on_time_def started_at_def written_def)
  then show ?thesis
    using dev due(4) started wrap by (simp add: cmd_extend_def Let_def unwrap_or_def)
qed

lemma extend_clocked:
  assumes "clocked x now tm" "linked tm" "settled tm" "timers_inv tm"
    and timely: "timely (tm, now) (LCmd d (TcExtend n) ch)"
  shows "clocked x now (cmd_extend x now d ch n tm)"
proof (cases "tm_devices tm d")
  case (Some dev)
  consider (running) "attr_str dev ''state'' = Some ''running''" | (paused) "attr_str dev ''state'' = Some ''paused''"
    | (other) "attr_str dev ''state'' \<noteq> Some ''running''" "attr_str dev ''state'' \<noteq> Some ''paused''"
    by blast
  then show ?thesis
  proof cases
    case running
    then show ?thesis using extend_running_clocked [OF assms Some] by simp
  next
    case paused
    then have none: "cancel_task d tm = tm" using stopped_no_task [OF assms(4,3) Some] by simp
    obtain R D where RD: "attr_u64 dev ''remaining_secs'' = Some R" "attr_u64 dev ''duration_secs'' = Some D" "R \<le> D"
      using clocked_paused [OF assms(1) Some] paused by (auto simp: paused_ok_def)
    moreover have "D + n < 2 ^ 64" using timely Some RD(2) by (auto simp: timely_def)
    ultimately have "add_u64 D n = D + n" "add_u64 R n = R + n" by (simp_all add: add_u64_def)
    moreover have "clocked x now (set_state x now d ''paused'' [(''duration_secs'', num_json (D + n)),
        (''remaining_secs'', num_json (R + n))] ch (cancel_task d tm))"
      using RD(3) by (intro clocked_rest [OF assms(1)]) (simp add: paused_ok_def written_def)
    ultimately show ?thesis
      using Some paused RD none by (simp add: cmd_extend_def Let_def unwrap_or_def)
  qed (simp add: cmd_extend_def Some assms(1) Let_def)
qed (simp add: cmd_extend_def assms(1))

lemma run_command_clocked:
  assumes "clocked x now tm" "timers_inv tm" "settled tm" "rfc3339_ok x" "timely (tm, now) (LCmd d c ch)"
  shows "clocked x now (run_command x now d c ch tm)"
proof -
  have "linked tm" using assms(2) by (simp add: timers_inv_def)
  with assms show ?thesis
    by (cases c) (auto simp: run_command_def timely_def intro: start_clocked pause_clocked cancel_clocked
        resume_clocked extend_clocked [unfolded timely_def])
qed

lemma clocked_later: "clocked x now tm \<Longrightarrow> now \<le> now' \<Longrightarrow> clocked x now' tm"
  unfolding clocked_def on_time_def by (meson order_trans)

lemma sleeps_until_phase:
  assumes l: "linked tm" and t: "tm_tasks tm i = Some t" "\<not> tt_cancelled t"
    and same: "tm_handles tm' = tm_handles tm" "tm_tasks tm' = (tm_tasks tm)(i \<mapsto> t\<lparr>tt_phase := ph\<rparr>)"
  shows "sleeps_until tm' d due \<longleftrightarrow> (if d = tt_device t then ph = Sleeping due else sleeps_until tm d due)"
proof -
  obtain h where h: "tm_handles tm (tt_device t) = Some h" "th_task h = i"
    using linked_task(2) [OF l t] by auto
  have other: "th_task h' \<noteq> i" if "tm_handles tm d' = Some h'" "d' \<noteq> tt_device t" for d' h'
    using linked_handle [OF l that(1)] that(2) t by fastforce
  show ?thesis
    using h other by (auto simp: sleeps_until_def same)
qed

lemma task_wake_clocked:
  assumes "clocked x now tm" "linked tm" "tm_tasks tm i = Some t" "\<not> tt_cancelled t"
  shows "clocked x now (task_wake now i t tm)"
proof -
  have sleeps: "sleeps_until (task_wake now i t tm) d due \<longleftrightarrow> d \<noteq> tt_device t \<and> sleeps_until tm d due" for d due
    using sleeps_until_phase [OF assms(2-4), of "task_wake now i t tm" HasFired]
    by (simp add: task_wake_def Let_def)
  show ?thesis
    using assms(1) unfolding clocked_def sleeps
    by (auto simp: task_wake_def fire_timer_def Let_def paused_ok_def split: option.splits if_splits)
qed

lemma task_repeat_clocked:
  assumes "clocked x now tm" "linked tm" "tm_tasks tm i = Some t" "\<not> tt_cancelled t" "tt_repeat t" "rfc3339_ok x"
  shows "clocked x now (task_next x now i t tm)"
proof -
  have sleeps: "sleeps_until (task_next x now i t tm) d due \<longleftrightarrow>
      (if d = tt_device t then due = now + seconds (tt_duration_secs t) else sleeps_until tm d due)" for d due
    using sleeps_until_phase [OF assms(2-4), of "task_next x now i t tm"
        "Sleeping (now + seconds (tt_duration_secs t))"] assms(5)
    by (auto simp: task_next_def Let_def)
  show ?thesis
    using assms(1,5,6) unfolding clocked_def sleeps
    by (auto simp: task_next_def reset_for_repeat_def Let_def clock_defs rfc3339_ok_def split: option.splits if_splits)
qed

lemma task_end_clocked:
  assumes "clocked x now tm" "\<not> tt_repeat t" "linked tm" "tm_tasks tm i = Some t" "\<not> tt_cancelled t"
  shows "clocked x now (task_next x now i t tm)"
proof -
  have "sleeps_until (task_next x now i t tm) d due \<Longrightarrow> sleeps_until tm d due" for d due
    using sleeps_until_cancel [of "tt_device t" tm d due] assms(2)
    by (auto simp: task_next_def Let_def sleeps_until_def split: if_splits)
  moreover have "tm_devices (task_next x now i t tm) = tm_devices tm"
    using assms(2) by (simp add: task_next_def Let_def)
  ultimately show ?thesis
    using assms(1) by (simp add: clocked_def)
qed

lemma task_stop_clocked: "clocked x now tm \<Longrightarrow> clocked x now (task_stop i tm)"
  by (auto simp: clocked_def task_stop_def sleeps_until_def split: if_splits)

lemma timely_step_clocked:
  assumes "timely_step x s s'" "timers_inv (fst s)" "clocked x (snd s) (fst s)" "rfc3339_ok x"
  shows "clocked x (snd s') (fst s')"
proof -
  obtain l where step: "timer_step x s l s'" and calm: "calm (fst s) l" and timely: "timely s l"
    using assms(1) by (auto simp: timely_step_def)
  have linked: "linked (fst s)" using assms(2) by (simp add: timers_inv_def)
  from step show ?thesis
  proof cases
    case (tick now now' tm)
    then show ?thesis using assms(3) clocked_later by auto
  next
    case (cmd tm now d c ch)
    then show ?thesis using assms calm timely run_command_clocked by (auto simp: calm_def)
  next
    case (wake tm i t due now)
    then show ?thesis using assms(3) linked calm task_wake_clocked by (auto simp: calm_def)
  next
    case (next_cycle tm i t now)
    then have "\<not> tt_cancelled t" using linked linked_task(3) by auto
    then show ?thesis
      using next_cycle assms(3,4) linked task_repeat_clocked task_end_clocked by (cases "tt_repeat t") auto
  next
    case (stop tm i t due now)
    then show ?thesis using assms(3) task_stop_clocked by auto
  qed
qed

subsection \<open>Start, on time\<close>

definition stored_left :: "timer_ext \<Rightarrow> timestamp \<Rightarrow> string set \<Rightarrow> timers \<Rightarrow> bool" where
  "stored_left x now todo tm \<longleftrightarrow> clocked x now tm
     \<and> (\<forall>d dev. d \<in> todo \<longrightarrow> tm_devices tm d = Some dev \<longrightarrow> stored_ok x now dev)"

lemma stored_on_time:
  assumes "stored_ok x now dev" "attr_str dev ''state'' = Some ''running''" "0 < remaining_of x now dev"
  shows "on_time x now dev (now + seconds (remaining_of x now dev))"
proof -
  obtain s D where sD: "started_at x dev = Some s" "s \<le> now" "attr_u64 dev ''duration_secs'' = Some D"
    using assms(1,2) by (auto simp: stored_ok_def)
  then have rem: "remaining_of x now dev = D - elapsed_since now s"
    by (simp add: remaining_of_def unwrap_or_def)
  with assms(3) have "nat ((now - s) div 1000000000) < D" by (simp add: elapsed_since_def)
  then have "(now - s) div 1000000000 < int D" by simp
  then have "now - s < int D * 1000000000" by linarith
  then have "now < s + seconds D + 1000000000" by (simp add: seconds_def)
  from left_on_time(2,3) [OF sD(2) this, of 0] sD show ?thesis
    by (simp add: on_time_def rem)
qed

lemma reconstruct_timer_stored:
  assumes "stored_left x now todo tm" "reading todo tm" "d \<in> todo"
  shows "stored_left x now (todo - {d}) (reconstruct_timer x now d tm)"
proof (cases "\<exists>dev. tm_devices tm d = Some dev \<and> attr_str dev ''state'' = Some ''running''")
  case False
  then have "reconstruct_timer x now d tm = tm"
    by (auto simp: reconstruct_timer_def split: option.splits)
  then show ?thesis using assms(1) by (auto simp: stored_left_def)
next
  case True
  then obtain dev where dev: "tm_devices tm d = Some dev" "attr_str dev ''state'' = Some ''running''" by blast
  have tm: "linked tm" "tm_handles tm d = None" "clocked x now tm" "stored_ok x now dev"
    using assms dev by (auto simp: reading_def stored_left_def)
  note none = no_task [OF tm(2)]
  show ?thesis
  proof (cases "0 < remaining_of x now dev")
    case True
    let ?tm = "spawn_timer_task now d (remaining_of x now dev) (unwrap_or (attr_u64 dev ''duration_secs'') 0)
        (unwrap_or (attr_bool dev ''repeat'') False) tm"
    have "clocked x now ?tm"
      using tm(3) stored_on_time [OF tm(4) dev(2) True] dev(1)
      by (auto simp: clocked_def sleeps_until_spawn [OF tm(1)])
    with dev True assms(1) show ?thesis
      by (auto simp: reconstruct_timer_def stored_left_def Let_def)
  next
    case False
    have "clocked x now (set_state x now d ''finished'' [] ch (cancel_task d tm))" for ch
      by (rule clocked_rest [OF tm(3)]) (simp add: paused_ok_def)
    with dev False assms(1) none show ?thesis
      by (auto simp: reconstruct_timer_def stored_left_def set_state_devices Let_def)
  qed
qed

lemma reconstruct_stored:
  "distinct ids \<Longrightarrow> reading (set ids) tm \<Longrightarrow> stored_left x now (set ids) tm \<Longrightarrow>
   clocked x now (fold (reconstruct_timer x now) ids tm)"
proof (induction ids arbitrary: tm)
  case (Cons d ids)
  then have "reading (set ids) (reconstruct_timer x now d tm)" "stored_left x now (set ids) (reconstruct_timer x now d tm)"
    using reconstruct_timer_reading [of "set (d # ids)" tm d x now]
      reconstruct_timer_stored [of x now "set (d # ids)" tm d] by (simp_all add: insert_Diff_if)
  with Cons show ?case by simp
qed (simp add: stored_left_def)

lemma timers_init_ok_clocked: "timers_init_ok x s \<Longrightarrow> timers_inv (fst s) \<and> clocked x (snd s) (fst s)"
proof -
  assume "timers_init_ok x s"
  then obtain devs ids where init: "distinct ids" "set ids = dom devs" "\<forall>dev \<in> ran devs. stored_ok x (snd s) dev"
    "fst s = fold (reconstruct_timer x (snd s)) ids (new_timers devs)"
    by (auto simp: timers_init_ok_def reconstruct_timers_def)
  have "timers_init x s" using \<open>timers_init_ok x s\<close> by (auto simp: timers_init_ok_def timers_init_def)
  moreover have "reading (set ids) (new_timers devs)"
    using init(2) by (simp add: reading_def new_timers_def linked_def settled_def)
  moreover have "stored_left x (snd s) (set ids) (new_timers devs)"
    using init(3) by (auto simp: stored_left_def clocked_def new_timers_def stored_ok_def sleeps_until_def ran_def)
  ultimately show ?thesis
    using timers_init_inv [of x s] reconstruct_stored [OF init(1)] init(4) by metis
qed

interpretation clock_sys: invariant_system "\<lambda>s. timers_init_ok x s \<and> rfc3339_ok x" "timely_step x"
  "\<lambda>s. timers_inv (fst s) \<and> clocked x (snd s) (fst s) \<and> rfc3339_ok x" for x
proof
  fix s t
  assume inv: "timers_inv (fst s) \<and> clocked x (snd s) (fst s) \<and> rfc3339_ok x" and step: "timely_step x s t"
  have "calm_step x s t" using step by (auto simp: timely_step_def calm_step_def)
  with inv step show "timers_inv (fst t) \<and> clocked x (snd t) (fst t) \<and> rfc3339_ok x"
    using calm_step_inv timely_step_clocked by blast
qed (use timers_init_ok_clocked in blast)

subsection \<open>A sample timer\<close>

text \<open>Times are written in unary, with the sign in front.\<close>

definition sample_timer_ext :: timer_ext where
  "sample_timer_ext =
     \<lparr>tx_parse_json = (\<lambda>s. None), tx_timer_command = (\<lambda>j. None), tx_device_change = (\<lambda>j. None),
      tx_parse_rfc3339 = (\<lambda>s. case s of [] \<Rightarrow> None
        | c # cs \<Rightarrow> Some (if c = CHR ''-'' then - int (length cs) else int (length cs))),
      tx_to_rfc3339 = (\<lambda>t. (if t < 0 then CHR ''-'' else CHR ''+'') # replicate (nat \<bar>t\<bar>) CHR ''1'')\<rparr>"

lemma sample_rfc3339: "rfc3339_ok sample_timer_ext"
  by (simp add: rfc3339_ok_def sample_timer_ext_def)

definition tea_timer :: timer_device where
  "tea_timer = \<lparr>td_attrs = [''state'' \<mapsto> JStr ''idle'', ''duration_secs'' \<mapsto> JNum (PosInt 240),
      ''default_secs'' \<mapsto> JNum (PosInt 240)], td_last_seen = 0, td_last_change = None\<rparr>"

definition tea_timers :: timers where
  "tea_timers = new_timers [''timer_tea'' \<mapsto> tea_timer]"

lemma tea_init_ok: "timers_init_ok sample_timer_ext (tea_timers, 0)"
proof -
  have ids: "timer_ids [(''core.glue'', ''timer_tea'')] = [''timer_tea'']"
    by (simp add: timer_ids_def starts_with_def)
  have "reconstruct_timers sample_timer_ext 0 [(''core.glue'', ''timer_tea'')] tea_timers = tea_timers"
    by (simp add: reconstruct_timers_def ids reconstruct_timer_def tea_timers_def new_timers_def tea_timer_def
        attr_str_def unwrap_or_def)
  moreover have "stored_ok sample_timer_ext 0 tea_timer"
    by (simp add: stored_ok_def paused_ok_def tea_timer_def attr_str_def)
  ultimately show ?thesis
    unfolding timers_init_ok_def
    by (intro exI [of _ "[''timer_tea'' \<mapsto> tea_timer]"] exI [of _ "[(''core.glue'', ''timer_tea'')]"])
       (simp add: tea_timers_def ids)
qed

lemma tea_init: "timers_init sample_timer_ext (tea_timers, 0)"
  using tea_init_ok by (auto simp: timers_init_ok_def timers_init_def)

text \<open>The timer started for 240 seconds at time 0.\<close>

abbreviation tea_start :: timer_label where
  "tea_start \<equiv> LCmd ''timer_tea'' (TcStart None None None) (device_change_unknown 0)"

definition tea_running :: timers where
  "tea_running = run_command sample_timer_ext 0 ''timer_tea'' (TcStart None None None) (device_change_unknown 0) tea_timers"

lemma tea_step: "timer_step sample_timer_ext (tea_timers, 0) tea_start (tea_running, 0)"
  unfolding tea_running_def by (rule cmd)

lemma tea_timely: "timely_step sample_timer_ext (tea_timers, 0) (tea_running, 0)"
  unfolding timely_step_def
proof (intro exI conjI)
  show "timer_step sample_timer_ext (tea_timers, 0) tea_start (tea_running, 0)" by (rule tea_step)
qed (simp_all add: calm_def timely_def settled_def tea_timers_def new_timers_def)

lemma tea_reach_timely: "reach (\<lambda>s. timers_init_ok sample_timer_ext s \<and> rfc3339_ok sample_timer_ext)
    (timely_step sample_timer_ext) (tea_running, 0)"
  by (rule reach_step, rule reach_init, rule conjI, rule tea_init_ok, rule sample_rfc3339) (rule tea_timely)

lemma tea_reach: "reach (timers_init sample_timer_ext) (calm_step sample_timer_ext) (tea_running, 0)"
proof -
  have "calm_step sample_timer_ext (tea_timers, 0) (tea_running, 0)"
    using tea_timely by (auto simp: timely_step_def calm_step_def)
  then show ?thesis by (rule reach_step [rotated]) (rule reach_init, rule tea_init)
qed

lemma tea_running_eq:
  "tm_devices tea_running ''timer_tea'' = Some \<lparr>td_attrs = written sample_timer_ext 0 ''running''
      [(''duration_secs'', num_json 240), (''remaining_secs'', num_json 240), (''repeat'', JBool False),
       (''default_secs'', num_json 240)] (td_attrs tea_timer), td_last_seen = 0,
      td_last_change = Some (device_change_unknown 0)\<rparr>"
  "tm_handles tea_running ''timer_tea'' = Some \<lparr>th_duration_secs = 240, th_task = 0\<rparr>"
  "tm_tasks tea_running = [0 \<mapsto> \<lparr>tt_device = ''timer_tea'', tt_duration_secs = 240, tt_repeat = False,
      tt_phase = Sleeping 240000000000, tt_cancelled = False\<rparr>]"
  "tm_next_task tea_running = 1"
  by (simp_all add: tea_running_def run_command_def cmd_start_def tea_timers_def new_timers_def tea_timer_def
      option_or_def spawn_timer_task_def cancel_task_def set_state_devices unwrap_or_def seconds_def Let_def)

subsection \<open>Properties\<close>

text \<open>
  C11. As long as commands do not race a task that has just woken up, a timer in the store is
  running exactly when one live task sleeps for it: a running timer has a task that will fire it,
  and a timer that is idle, paused, finished or cancelled has none that could.
\<close>

theorem running_iff_one_task:
  assumes "reach (timers_init x) (calm_step x) (tm, now)" "d \<in> dom (tm_devices tm)"
  shows "timer_state tm d = Some ''running'' \<longleftrightarrow>
    (\<exists>!i. \<exists>t due. tm_tasks tm i = Some t \<and> tt_device t = d \<and> \<not> tt_cancelled t \<and> tt_phase t = Sleeping due)"
proof -
  have inv: "linked tm" "timer_state tm d = Some ''running'' \<longleftrightarrow> asleep tm d"
    using timer_sys.reach_invar [OF assms(1)] assms(2) by (auto simp: timers_inv_def)
  have live: "\<exists>h. tm_handles tm d = Some h \<and> th_task h = i"
    if "tm_tasks tm i = Some t" "tt_device t = d" "\<not> tt_cancelled t" for i t
    using linked_task(2) [OF inv(1) that(1,3)] that(2) by auto
  have "asleep tm d \<longleftrightarrow> (\<exists>i t due. tm_tasks tm i = Some t \<and> tt_device t = d \<and> \<not> tt_cancelled t \<and> tt_phase t = Sleeping due)"
  proof
    assume "asleep tm d"
    then obtain h t due where "tm_handles tm d = Some h" "tm_tasks tm (th_task h) = Some t" "tt_phase t = Sleeping due"
      by (auto simp: asleep_def)
    then show "\<exists>i t due. tm_tasks tm i = Some t \<and> tt_device t = d \<and> \<not> tt_cancelled t \<and> tt_phase t = Sleeping due"
      using linked_handle [OF inv(1)] by (metis option.inject)
  next
    assume "\<exists>i t due. tm_tasks tm i = Some t \<and> tt_device t = d \<and> \<not> tt_cancelled t \<and> tt_phase t = Sleeping due"
    then show "asleep tm d" using live unfolding asleep_def by blast
  qed
  moreover have "i = j" if "tm_tasks tm i = Some t" "tt_device t = d" "\<not> tt_cancelled t"
    "tm_tasks tm j = Some u" "tt_device u = d" "\<not> tt_cancelled u" for i j t u
    using live [OF that(1-3)] live [OF that(4-6)] by auto
  ultimately show ?thesis
    unfolding inv(2) by blast
qed

theorem running_iff_one_task_witness:
  "\<exists>!i. \<exists>t due. tm_tasks tea_running i = Some t \<and> tt_device t = ''timer_tea'' \<and> \<not> tt_cancelled t
     \<and> tt_phase t = Sleeping due"
proof -
  have "timer_state tea_running ''timer_tea'' = Some ''running''"
    by (simp add: timer_state_def tea_running_eq written_def)
  with running_iff_one_task [OF tea_reach, of "''timer_tea''"] show ?thesis
    using tea_running_eq(1) by blast
qed

text \<open>
  C12. In the same runs, if no restart is asked for and extensions come before the timer is due,
  the task of a running timer is due when its stored start and length say, rounded up to less than
  a second: starting, pausing, resuming, extending, repeating and a restart of the hub all keep
  the clock of the store and the clock of the task together.
\<close>

theorem task_due_as_stored:
  assumes "reach (\<lambda>s. timers_init_ok x s \<and> rfc3339_ok x) (timely_step x) (tm, now)"
    and "tm_devices tm d = Some dev" "tm_handles tm d = Some h" "tm_tasks tm (th_task h) = Some t"
    and "tt_phase t = Sleeping due"
  shows "\<exists>s D. started_at x dev = Some s \<and> attr_u64 dev ''duration_secs'' = Some D
    \<and> s + seconds D \<le> due \<and> due < s + seconds D + 1000000000"
proof -
  have "clocked x now tm" using clock_sys.reach_invar [OF assms(1)] by simp
  moreover have "sleeps_until tm d due" using assms(3-5) by (auto simp: sleeps_until_def)
  ultimately show ?thesis using assms(2) by (force simp: clocked_def on_time_def)
qed

theorem task_due_as_stored_witness:
  "\<exists>dev s D. tm_devices tea_running ''timer_tea'' = Some dev \<and> started_at sample_timer_ext dev = Some s
    \<and> attr_u64 dev ''duration_secs'' = Some D \<and> s + seconds D \<le> 240000000000"
proof -
  obtain dev where "tm_devices tea_running ''timer_tea'' = Some dev" using tea_running_eq(1) by blast
  from task_due_as_stored [OF tea_reach_timely this tea_running_eq(2), of _ 240000000000] this show ?thesis
    by (auto simp: tea_running_eq(3))
qed

text \<open>
  A restart of a timer that was extended puts the two clocks apart: its task runs for the
  usual length, while the stored length stays the extended one, so what the timer says is left is
  too long from then on (and a pause at once stores it).
\<close>

theorem restart_forgets_extension:
  assumes "tm_handles tm d = Some h" "0 < th_duration_secs h" "tm_devices tm d = Some dev"
    and "attr_u64 dev ''duration_secs'' = Some D" "rfc3339_ok x"
  shows "compute_remaining x now d (cmd_restart x now d ch tm) = D
    \<and> sleeps_until (cmd_restart x now d ch tm) d (now + seconds (th_duration_secs h))"
proof -
  let ?tm = "set_state x now d ''running'' [(''remaining_secs'', num_json (th_duration_secs h))] ch (cancel_task d tm)"
  have "cmd_restart x now d ch tm = spawn_timer_task now d (th_duration_secs h) (th_duration_secs h)
      (unwrap_or (attr_bool dev ''repeat'') False) ?tm"
    using assms(1-3) by (simp add: cmd_restart_def restart_duration_def Let_def)
  moreover have "tm_handles ?tm d = None" by simp
  ultimately show ?thesis
    using assms(3-5)
    by (simp add: compute_remaining_def remaining_of_def sleeps_until_def spawn_timer_task_def no_task Let_def
        set_state_devices written_def started_at_def rfc3339_ok_def attr_u64_def unwrap_or_def elapsed_since_def)
qed

theorem restart_forgets_extension_witness:
  "\<exists>ch tm. tm = cmd_restart sample_timer_ext 0 ''timer_tea'' ch
        (cmd_extend sample_timer_ext 0 ''timer_tea'' ch 300 tea_running)
    \<and> compute_remaining sample_timer_ext 0 ''timer_tea'' tm = 540
    \<and> sleeps_until tm ''timer_tea'' 240000000000"
proof -
  let ?ch = "device_change_unknown 0"
  let ?tm = "cmd_extend sample_timer_ext 0 ''timer_tea'' ?ch 300 tea_running"
  obtain dev where dev: "tm_devices ?tm ''timer_tea'' = Some dev" "attr_u64 dev ''duration_secs'' = Some 540"
    by (simp add: cmd_extend_def tea_running_eq Let_def unwrap_or_def set_state_devices written_def
        add_u64_def attr_u64_def)
  have h: "tm_handles ?tm ''timer_tea'' = Some \<lparr>th_duration_secs = 240, th_task = 1\<rparr>"
    by (simp add: cmd_extend_def tea_running_eq Let_def unwrap_or_def spawn_timer_task_def written_def)
  from restart_forgets_extension [OF h _ dev sample_rfc3339, of 0 ?ch] show ?thesis
    by (auto simp: seconds_def)
qed

lemma cmd_start_shape:
  assumes "0 < n"
  shows "\<exists>extra r. cmd_start x now d ch (Some n) lbl rep tm =
      spawn_timer_task now d n n r (set_state x now d ''running'' extra ch (cancel_task d tm))
    \<and> ''state'' \<notin> fst ` set extra"
  using assms unfolding cmd_start_def Let_def option_or_def option.case
  by (simp only: if_not_P neq0_conv) (intro exI conjI, rule refl, auto split: option.splits)

text \<open>
  A start that arrives between the moment a timer's task fires and the moment that task drops
  its handle is lost: the task drops the handle of the new task with it, so the store says running
  while no handle is left and every task of the timer is cancelled; the timer never finishes.
\<close>

theorem start_during_firing_is_lost:
  fixes x :: timer_ext and now :: timestamp and lbl rep ch
  assumes "linked tm" "tm_tasks tm i = Some t" "tt_phase t = HasFired" "\<not> tt_repeat t"
    and "tm_devices tm (tt_device t) = Some dev" "0 < n"
  defines "d \<equiv> tt_device t"
  defines "tm1 \<equiv> run_command x now d (TcStart (Some n) lbl rep) ch tm"
  shows "\<exists>t1. tm_tasks tm1 i = Some t1 \<and> tt_phase t1 = HasFired
    \<and> timer_state (task_next x now i t1 tm1) d = Some ''running''
    \<and> tm_handles (task_next x now i t1 tm1) d = None
    \<and> (\<forall>j u. tm_tasks (task_next x now i t1 tm1) j = Some u \<longrightarrow> tt_device u = d \<longrightarrow> tt_cancelled u)"
proof -
  have live: "\<not> tt_cancelled t" "i < tm_next_task tm" using linked_task [OF assms(1,2)] assms(3) by auto
  obtain h where h: "tm_handles tm d = Some h" "th_task h = i"
    using linked_task(2) [OF assms(1,2) live(1)] by (auto simp: d_def)
  have others: "tt_cancelled u" if "tm_tasks tm j = Some u" "tt_device u = d" "j \<noteq> i" for j u
    using linked_task(2) [OF assms(1) that(1)] that h by auto
  obtain extra r where tm1: "tm1 = spawn_timer_task now d n n r
      (set_state x now d ''running'' extra ch (cancel_task d tm))" "''state'' \<notin> fst ` set extra"
    using cmd_start_shape [OF assms(6), of x now d ch lbl rep tm] by (auto simp: tm1_def run_command_def)
  let ?t = "t\<lparr>tt_cancelled := True\<rparr>"
  have tasks: "tm_tasks tm1 = (tm_tasks tm)(i \<mapsto> ?t, tm_next_task tm \<mapsto>
      \<lparr>tt_device = d, tt_duration_secs = n, tt_repeat = r, tt_phase = Sleeping (now + seconds n), tt_cancelled = False\<rparr>)"
    and handle: "tm_handles tm1 d = Some \<lparr>th_duration_secs = n, th_task = tm_next_task tm\<rparr>"
    using h assms(2) by (simp_all add: tm1(1) spawn_timer_task_def Let_def no_task) (simp_all add: cancel_task_def)
  have state: "timer_state tm1 d = Some ''running''"
    using assms(5) by (simp add: tm1(1) timer_state_frame [OF spawn_devices] set_state_state [OF tm1(2)] d_def dom_def)
  let ?tm2 = "task_next x now i ?t tm1"
  have tm2: "?tm2 = (cancel_task d tm1)\<lparr>tm_tasks := (tm_tasks (cancel_task d tm1))(i := None)\<rparr>"
    using assms(4) by (simp add: task_next_def d_def Let_def)
  have "timer_state ?tm2 = timer_state tm1"
    by (rule timer_state_frame) (simp add: tm2)
  moreover have "tt_cancelled u" if "tm_tasks ?tm2 j = Some u" "tt_device u = d" for j u
  proof (cases "j = tm_next_task tm")
    case True
    then show ?thesis
      using that(1) live(2) by (auto simp: tm2 cancel_task_def handle tasks split: if_splits)
  next
    case False
    then have "tm_tasks tm j = Some u" "j \<noteq> i"
      using that(1) by (auto simp: tm2 cancel_task_def handle tasks split: if_splits)
    then show ?thesis using others that(2) by blast
  qed
  ultimately show ?thesis
    using tasks live(2) assms(3) state by (intro exI [of _ ?t]) (auto simp: tm2)
qed

theorem start_during_firing_is_lost_witness:
  "\<exists>tm i t1. timer_state (task_next sample_timer_ext 240000000000 i t1 tm) ''timer_tea'' = Some ''running''
    \<and> tm_handles (task_next sample_timer_ext 240000000000 i t1 tm) ''timer_tea'' = None"
proof -
  let ?t = "\<lparr>tt_device = ''timer_tea'', tt_duration_secs = 240, tt_repeat = False,
      tt_phase = Sleeping 240000000000, tt_cancelled = False\<rparr>"
  let ?tm = "task_wake 240000000000 0 ?t tea_running"
  have "timers_inv tea_running" using timer_sys.reach_invar [OF tea_reach] by simp
  then have "timers_inv ?tm" by (rule task_wake_inv) (simp_all add: tea_running_eq(3))
  then have l: "linked ?tm" by (simp add: timers_inv_def)
  have t: "tm_tasks ?tm 0 = Some (?t\<lparr>tt_phase := HasFired\<rparr>)"
    by (simp add: task_wake_def Let_def)
  obtain dev where dev: "tm_devices ?tm ''timer_tea'' = Some dev"
    by (simp add: task_wake_def fire_timer_def tea_running_eq(1) Let_def)
  from start_during_firing_is_lost [OF l t, of dev 60 sample_timer_ext 240000000000 None None "device_change_unknown 0"] dev
  show ?thesis by auto
qed

end
