(* ===== verification/Scheduler.thy ===== *)
theory Scheduler
  imports Conditions
begin

text \<open>
  The scheduler (\<open>hc-core/src/scheduler.rs\<close>): once a minute it publishes a \<open>scheduler_tick\<close>
  for every rule whose time, sun, cron, periodic, alert or calendar trigger is due, and at start it
  catches up on what fell into the minutes before.

  Time does not pass inside one pass over the rules. Local time, the sun's times and the cron
  library are parameters: the zone database, the floating-point sunrise equation and the crate
  \<open>cron\<close>.
\<close>

subsection \<open>Time\<close>

record local_dt =
  ld_date :: int
  ld_weekday :: weekday
  ld_time :: nanos

record sched_ext =
  sx_local :: "timestamp \<Rightarrow> local_dt"
  sx_solar_event_time :: "timestamp \<Rightarrow> int \<Rightarrow> sun_event_type \<Rightarrow> int \<Rightarrow> nanos option"
  sx_cron_after :: "string \<Rightarrow> (timestamp \<Rightarrow> timestamp option) option"

definition hour :: "nanos \<Rightarrow> nat" where
  "hour t = t div 3600000000000"

definition minute :: "nanos \<Rightarrow> nat" where
  "minute t = t div 60000000000 mod 60"

definition second :: "nanos \<Rightarrow> nat" where
  "second t = t div 1000000000 mod 60"

definition from_hm :: "nat \<Rightarrow> nat \<Rightarrow> nanos" where
  "from_hm h m = h * 3600000000000 + m * 60000000000"

definition times_match :: "nanos \<Rightarrow> nanos \<Rightarrow> bool" where
  "times_match trigger_time current_time \<longleftrightarrow>
     hour trigger_time = hour current_time \<and> minute trigger_time = minute current_time"

definition in_catchup_window :: "nanos \<Rightarrow> nanos \<Rightarrow> nanos \<Rightarrow> bool" where
  "in_catchup_window trigger window_start now =
     (let t = from_hm (hour trigger) (minute trigger) in
      if window_start \<le> now then window_start \<le> t \<and> t \<le> now
      else window_start \<le> t \<or> t \<le> now)"

definition periodic_to_secs :: "nat \<Rightarrow> periodic_unit \<Rightarrow> nat" where
  "periodic_to_secs every_n unit =
     (let n = max every_n 1 in
      case unit of Minutes \<Rightarrow> n * 60 | Hours \<Rightarrow> n * 3600 | Days \<Rightarrow> n * 86400 | Weeks \<Rightarrow> n * 604800)"

definition cron_fired_in_window :: "sched_ext \<Rightarrow> string \<Rightarrow> timestamp \<Rightarrow> timestamp \<Rightarrow> bool" where
  "cron_fired_in_window sx expression window_start now =
     (case sx_cron_after sx expression of
        None \<Rightarrow> False
      | Some after \<Rightarrow> (case after window_start of None \<Rightarrow> False | Some next \<Rightarrow> next \<le> now))"

definition cron_fires_now :: "sched_ext \<Rightarrow> string \<Rightarrow> timestamp \<Rightarrow> bool" where
  "cron_fires_now sx expression now = cron_fired_in_window sx expression (now - 60000000000) now"

subsection \<open>State\<close>

record scheduler =
  sc_catchup_window_minutes :: nat
  sc_last_periodic_fire :: "uuid \<rightharpoonup> nanos"
  sc_alert_fired :: "(uuid \<times> string) set"
  sc_published :: "event list"

definition publish_tick :: "json \<Rightarrow> scheduler \<Rightarrow> scheduler" where
  "publish_tick payload sc =
     sc\<lparr>sc_published := sc_published sc @ [EvCustom ''scheduler_tick'' payload]\<rparr>"

definition rule_tick :: "externals \<Rightarrow> rule \<Rightarrow> json" where
  "rule_tick x r = JObj [(''rule_id'', JStr (show_uuid x (ru_id r)))]"

subsection \<open>The minute's pass\<close>

text \<open>\<open>now\<close> is the wall clock, \<open>inst\<close> the monotonic one.\<close>

definition time_trigger_fires ::
  "sched_ext \<Rightarrow> timestamp \<Rightarrow> nanos \<Rightarrow> scheduler \<Rightarrow> rule \<Rightarrow> trigger \<Rightarrow> bool"
where
  "time_trigger_fires sx now inst sc r t =
     (let local = sx_local sx now; current_time = ld_time local in
      case t of
        TrTimeOfDay time days \<Rightarrow>
          times_match time current_time \<and> (days = [] \<or> ld_weekday local \<in> set days)
      | TrSunEvent event offset_minutes \<Rightarrow>
          (case sx_solar_event_time sx now (ld_date local) event offset_minutes of
             Some sun_time \<Rightarrow> times_match sun_time current_time
           | None \<Rightarrow> False)
      | TrCron expression \<Rightarrow> cron_fires_now sx expression now
      | TrPeriodic every_n unit \<Rightarrow>
          (case sc_last_periodic_fire sc (ru_id r) of
             Some last_fire \<Rightarrow> periodic_to_secs every_n unit \<le> (inst - last_fire) div 1000000000
           | None \<Rightarrow> True)
      | _ \<Rightarrow> False)"

definition is_periodic :: "trigger \<Rightarrow> bool" where
  "is_periodic t = (case t of TrPeriodic _ _ \<Rightarrow> True | _ \<Rightarrow> False)"

definition tick_rule :: "externals \<Rightarrow> sched_ext \<Rightarrow> timestamp \<Rightarrow> nanos \<Rightarrow> rule \<Rightarrow> scheduler \<Rightarrow> scheduler" where
  "tick_rule x sx now inst r sc =
     (if ru_enabled r \<and> list_ex (time_trigger_fires sx now inst sc r) (all_triggers r) then
        let sc1 = (if list_ex is_periodic (all_triggers r) then
                     sc\<lparr>sc_last_periodic_fire := (sc_last_periodic_fire sc)(ru_id r \<mapsto> inst)\<rparr>
                   else sc) in
        publish_tick (rule_tick x r) sc1
      else sc)"

text \<open>\<open>AlertActiveFor\<close>: one tick for each alert that has lasted long enough, once per alert.\<close>

definition lasted_minutes :: "timestamp \<Rightarrow> alert \<Rightarrow> int" where
  "lasted_minutes now a =
     (let d = now - al_raised_at a in
      if 0 \<le> d then d div 60000000000 else - ((- d) div 60000000000))"

definition fire_alert_active_for ::
  "externals \<Rightarrow> timestamp \<Rightarrow> rule \<Rightarrow> nat \<Rightarrow> alert \<Rightarrow> scheduler \<Rightarrow> scheduler"
where
  "fire_alert_active_for x now r minutes a sc =
     (if lasted_minutes now a < int minutes \<or> (ru_id r, al_id a) \<in> sc_alert_fired sc then sc
      else publish_tick (JObj [(''alert'', alert_to_json x a), (''rule_id'', JStr (show_uuid x (ru_id r)))])
             (sc\<lparr>sc_alert_fired := insert (ru_id r, al_id a) (sc_alert_fired sc)\<rparr>))"

definition fire_trigger_alerts ::
  "externals \<Rightarrow> timestamp \<Rightarrow> alert list \<Rightarrow> rule \<Rightarrow> trigger \<Rightarrow> scheduler \<Rightarrow> scheduler"
where
  "fire_trigger_alerts x now active r t sc =
     (case t of
        TrAlertActiveFor f minutes \<Rightarrow>
          fold (fire_alert_active_for x now r minutes) (filter (filter_matches f) active) sc
      | _ \<Rightarrow> sc)"

definition fire_alerts_active_for ::
  "externals \<Rightarrow> timestamp \<Rightarrow> alert list option \<Rightarrow> rule list \<Rightarrow> scheduler \<Rightarrow> scheduler"
where
  "fire_alerts_active_for x now alerts rules sc =
     (case alerts of
        None \<Rightarrow> sc
      | Some active \<Rightarrow>
          fold (\<lambda>r. fold (fire_trigger_alerts x now active r) (all_triggers r)) (filter ru_enabled rules)
            (sc\<lparr>sc_alert_fired := {p \<in> sc_alert_fired sc. snd p \<in> al_id ` set active}\<rparr>))"

text \<open>\<open>CalendarEvent\<close>: the first event that starts in the minute the offset points at.\<close>

definition same_utc_minute :: "timestamp \<Rightarrow> timestamp \<Rightarrow> bool" where
  "same_utc_minute a b \<longleftrightarrow>
     a div 86400000000000 = b div 86400000000000
     \<and> a div 3600000000000 mod 24 = b div 3600000000000 mod 24
     \<and> a div 60000000000 mod 60 = b div 60000000000 mod 60"

definition calendar_match ::
  "externals \<Rightarrow> timestamp \<Rightarrow> calendar_entry list \<Rightarrow> trigger \<Rightarrow> (string \<times> cal_event) option"
where
  "calendar_match x now calendars t =
     (case t of
        TrCalendarEvent calendar_id title_contains offset_minutes \<Rightarrow>
          let target = now - offset_minutes * 60000000000 in
          List.find (\<lambda>(_, ev). same_utc_minute (ce_start ev) target
                \<and> is_none_or title_contains (\<lambda>f. str_contains (to_lowercase x f) (to_lowercase x (ce_summary ev))))
            (concat (map (\<lambda>cal. map (\<lambda>ev. (cal_id cal, ev)) (cal_events cal))
              (filter (\<lambda>cal. is_none_or calendar_id (\<lambda>i. i = cal_id cal)) calendars)))
      | _ \<Rightarrow> None)"

fun find_map :: "('a \<Rightarrow> 'b option) \<Rightarrow> 'a list \<Rightarrow> 'b option" where
  "find_map f [] = None"
| "find_map f (a # as) = (case f a of Some b \<Rightarrow> Some b | None \<Rightarrow> find_map f as)"

definition tick_calendar_rule ::
  "externals \<Rightarrow> timestamp \<Rightarrow> calendar_entry list \<Rightarrow> rule \<Rightarrow> scheduler \<Rightarrow> scheduler"
where
  "tick_calendar_rule x now calendars r sc =
     (if \<not> ru_enabled r then sc
      else case find_map (calendar_match x now calendars) (all_triggers r) of
        None \<Rightarrow> sc
      | Some (cid, ev) \<Rightarrow>
          publish_tick (JObj [(''calendar_id'', JStr cid), (''event_start'', JStr (show_utc x (ce_start ev))),
            (''event_summary'', JStr (ce_summary ev)), (''rule_id'', JStr (show_uuid x (ru_id r)))]) sc)"

definition tick ::
  "externals \<Rightarrow> sched_ext \<Rightarrow> timestamp \<Rightarrow> nanos \<Rightarrow> alert list option \<Rightarrow> calendar_entry list option \<Rightarrow>
   rule list \<Rightarrow> scheduler \<Rightarrow> scheduler"
where
  "tick x sx now inst alerts calendars rules sc =
     (let sc1 = fold (tick_rule x sx now inst) rules sc;
          sc2 = fire_alerts_active_for x now alerts rules sc1 in
      case calendars of
        None \<Rightarrow> sc2
      | Some cals \<Rightarrow> fold (tick_calendar_rule x now cals) rules sc2)"

text \<open>The sleep after a pass, in seconds.\<close>

definition secs_until_next_minute :: "sched_ext \<Rightarrow> timestamp \<Rightarrow> nat" where
  "secs_until_next_minute sx now = 60 - second (ld_time (sx_local sx now))"

subsection \<open>Catch-up\<close>

definition catchup_trigger ::
  "sched_ext \<Rightarrow> timestamp \<Rightarrow> scheduler \<Rightarrow> trigger \<Rightarrow> bool"
where
  "catchup_trigger sx now sc t =
     (let local = sx_local sx now;
          now_time = from_hm (hour (ld_time local)) (minute (ld_time local));
          window_start_dt = now - int (sc_catchup_window_minutes sc) * 60000000000;
          ws = ld_time (sx_local sx window_start_dt);
          window_start = from_hm (hour ws) (minute ws) in
      case t of
        TrSunEvent event offset_minutes \<Rightarrow>
          (case sx_solar_event_time sx now (ld_date local) event offset_minutes of
             Some sun_time \<Rightarrow> in_catchup_window sun_time window_start now_time
           | None \<Rightarrow> False)
      | TrTimeOfDay time days \<Rightarrow>
          (days = [] \<or> ld_weekday local \<in> set days) \<and> in_catchup_window time window_start now_time
      | TrCron expression \<Rightarrow> cron_fired_in_window sx expression window_start_dt now
      | TrPeriodic every_n unit \<Rightarrow> periodic_to_secs every_n unit \<le> sc_catchup_window_minutes sc * 60
      | _ \<Rightarrow> False)"

definition catchup_rule :: "externals \<Rightarrow> sched_ext \<Rightarrow> timestamp \<Rightarrow> nanos \<Rightarrow> rule \<Rightarrow> scheduler \<Rightarrow> scheduler" where
  "catchup_rule x sx now inst r sc =
     (if \<not> ru_enabled r then sc
      else
        let sc1 = (if list_ex is_periodic (all_triggers r) then
                     sc\<lparr>sc_last_periodic_fire := (sc_last_periodic_fire sc)(ru_id r \<mapsto> inst)\<rparr>
                   else sc) in
        if list_ex (catchup_trigger sx now sc) (all_triggers r) then publish_tick (rule_tick x r) sc1 else sc1)"

definition fire_catchup ::
  "externals \<Rightarrow> sched_ext \<Rightarrow> timestamp \<Rightarrow> nanos \<Rightarrow> rule list \<Rightarrow> scheduler \<Rightarrow> scheduler"
where
  "fire_catchup x sx now inst rules sc = fold (catchup_rule x sx now inst) rules sc"

text \<open>The start of \<open>run\<close>: the catch-up, if the window is not zero, and the first pass.\<close>

definition run_start ::
  "externals \<Rightarrow> sched_ext \<Rightarrow> timestamp \<Rightarrow> nanos \<Rightarrow> alert list option \<Rightarrow> calendar_entry list option \<Rightarrow>
   rule list \<Rightarrow> scheduler \<Rightarrow> scheduler"
where
  "run_start x sx now inst alerts calendars rules sc =
     tick x sx now inst alerts calendars rules
       (if 0 < sc_catchup_window_minutes sc then fire_catchup x sx now inst rules sc else sc)"

definition new_scheduler :: "nat \<Rightarrow> scheduler" where
  "new_scheduler catchup_window_minutes =
     \<lparr>sc_catchup_window_minutes = catchup_window_minutes, sc_last_periodic_fire = Map.empty,
      sc_alert_fired = {}, sc_published = []\<rparr>"

section \<open>Theorems\<close>

subsection \<open>Minutes\<close>

text \<open>A zone at a fixed offset from UTC, a whole number of minutes.\<close>

definition weekday_of :: "int \<Rightarrow> weekday" where
  "weekday_of day = [Thu, Fri, Sat, Sun, Mon, Tue, Wed] ! nat (day mod 7)"

definition fixed_zone :: "int \<Rightarrow> sched_ext \<Rightarrow> bool" where
  "fixed_zone off sx \<longleftrightarrow> (\<forall>t. sx_local sx t =
     \<lparr>ld_date = (t + off * 60000000000) div 86400000000000,
      ld_weekday = weekday_of ((t + off * 60000000000) div 86400000000000),
      ld_time = nat ((t + off * 60000000000) mod 86400000000000)\<rparr>)"

definition local_minute :: "int \<Rightarrow> timestamp \<Rightarrow> int" where
  "local_minute off t = t div 60000000000 + off"

lemma zone_minute: "(t + off * 60000000000) div 60000000000 = local_minute off (t :: int)"
  by (simp add: local_minute_def)

lemma day_parts:
  fixes u :: int
  shows "u div 86400000000000 = u div 60000000000 div 1440"
    and "int (nat (u mod 86400000000000) div 60000000000) = u div 60000000000 mod 1440"
    and "second (nat (u mod 86400000000000)) = nat (u div 1000000000 mod 60)"
proof -
  show day: "u div 86400000000000 = u div 60000000000 div 1440"
    using zdiv_zmult2_eq [of 1440 u 60000000000] by simp
  have m: "u mod 86400000000000 = 60000000000 * (u div 60000000000 mod 1440) + u mod 60000000000"
    using zmod_zmult2_eq [of 1440 u 60000000000] by simp
  have "u mod 86400000000000 div 60000000000 = u div 60000000000 mod 1440"
    unfolding m by simp
  then show "int (nat (u mod 86400000000000) div 60000000000) = u div 60000000000 mod 1440"
    by (simp add: zdiv_int)
  have s: "u mod 86400000000000 = 1000000000 * (u div 1000000000 mod 86400) + u mod 1000000000"
    using zmod_zmult2_eq [of 86400 u 1000000000] by simp
  have "u mod 86400000000000 div 1000000000 mod 60 = u div 1000000000 mod 86400 mod 60"
    unfolding s by simp
  also have "\<dots> = u div 1000000000 mod 60"
    by (rule mod_mod_cancel) simp
  finally have "int (second (nat (u mod 86400000000000))) = u div 1000000000 mod 60"
    by (simp add: second_def zdiv_int zmod_int)
  then show "second (nat (u mod 86400000000000)) = nat (u div 1000000000 mod 60)"
    by linarith
qed

lemma minute_of_day:
  "hour t * 60 + minute t = t div 60000000000"
  "from_hm (hour t) (minute t) = (t div 60000000000) * 60000000000"
proof -
  have "t div 60000000000 div 60 = t div 3600000000000"
    using div_mult2_eq [of t 60000000000 60] by simp
  then show m: "hour t * 60 + minute t = t div 60000000000"
    unfolding hour_def minute_def using div_mult_mod_eq [of "t div 60000000000" 60] by simp
  have "from_hm (hour t) (minute t) = (hour t * 60 + minute t) * 60000000000"
    by (simp add: from_hm_def)
  then show "from_hm (hour t) (minute t) = (t div 60000000000) * 60000000000"
    unfolding m .
qed

lemma times_match_iff: "times_match a b \<longleftrightarrow> a div 60000000000 = b div 60000000000"
proof -
  have "hour a = hour b \<and> minute a = minute b" if "a div 60000000000 = b div 60000000000"
    using that div_mult2_eq [of a 60000000000 60] div_mult2_eq [of b 60000000000 60]
    by (simp add: hour_def minute_def)
  then show ?thesis
    unfolding times_match_def by (metis minute_of_day(1))
qed

text \<open>When the passes run: each is as late as it likes after the sleep of the one before.\<close>

primrec tick_time :: "sched_ext \<Rightarrow> timestamp \<Rightarrow> (nat \<Rightarrow> int) \<Rightarrow> nat \<Rightarrow> timestamp" where
  "tick_time sx t0 late 0 = t0"
| "tick_time sx t0 late (Suc n) =
     tick_time sx t0 late n + late n + int (secs_until_next_minute sx (tick_time sx t0 late n)) * 1000000000"

lemma zone_second:
  fixes t off :: int
  shows "(t + off * 60000000000) div 1000000000 mod 60 = t div 1000000000 mod 60"
proof -
  have "t + off * 60000000000 = t + (off * 60) * 1000000000" by simp
  then have "(t + off * 60000000000) div 1000000000 = off * 60 + t div 1000000000"
    by (simp only: div_mult_self1 [OF zero_neq_numeral [symmetric]])
  then show ?thesis by (simp only: mod_mult_self3)
qed

lemma secs_until_next_minute_zone:
  assumes "fixed_zone off sx"
  shows "int (secs_until_next_minute sx t) = 60 - t div 1000000000 mod 60"
proof -
  have "ld_time (sx_local sx t) = nat ((t + off * 60000000000) mod 86400000000000)"
    using assms unfolding fixed_zone_def by (simp only: local_dt.select_convs)
  then have s: "second (ld_time (sx_local sx t)) = nat (t div 1000000000 mod 60)"
    by (simp only: day_parts(3) zone_second)
  have "0 \<le> t div 1000000000 mod 60" "t div 1000000000 mod 60 < 60"
    by (rule pos_mod_sign pos_mod_bound, simp)+
  then show ?thesis
    unfolding secs_until_next_minute_def s by linarith
qed

lemma next_minute:
  fixes t :: int
  assumes "0 \<le> late" "late + t mod 1000000000 < 60000000000"
  shows "(t + late + (60 - t div 1000000000 mod 60) * 1000000000) div 60000000000 = t div 60000000000 + 1"
proof -
  have m: "t mod 60000000000 = 1000000000 * (t div 1000000000 mod 60) + t mod 1000000000"
    using zmod_zmult2_eq [of 60 t 1000000000] by simp
  have q: "t = 60000000000 * (t div 60000000000) + t mod 60000000000"
    by (rule mult_div_mod_eq [symmetric])
  have sum: "t + late + (60 - s) * 1000000000 = 60000000000 * (q' + 1) + (late + f)"
    if "t = 60000000000 * q' + r" "r = 1000000000 * s + f" for q' r s f
    unfolding that by (simp add: algebra_simps)
  have "0 \<le> late + t mod 1000000000"
    by (rule add_nonneg_nonneg [OF assms(1)], rule pos_mod_sign) simp
  then show ?thesis
    using int_div_pos_eq [OF sum [OF q m]] assms(2) by (simp only:)
qed

definition punctual :: "sched_ext \<Rightarrow> timestamp \<Rightarrow> (nat \<Rightarrow> int) \<Rightarrow> bool" where
  "punctual sx t0 late \<longleftrightarrow>
     (\<forall>n. 0 \<le> late n \<and> late n + tick_time sx t0 late n mod 1000000000 < 60000000000)"

lemma tick_minute:
  assumes "fixed_zone off sx" "punctual sx t0 late"
  shows "local_minute off (tick_time sx t0 late n) = local_minute off t0 + int n"
proof (induction n)
  case (Suc n)
  have "tick_time sx t0 late (Suc n) div 60000000000 = tick_time sx t0 late n div 60000000000 + 1"
    using assms(2) next_minute [of "late n" "tick_time sx t0 late n"]
    by (simp only: punctual_def tick_time.simps secs_until_next_minute_zone [OF assms(1)])
  then show ?case using Suc by (simp only: local_minute_def of_nat_Suc)
qed simp

lemma local_parts:
  assumes "fixed_zone off sx"
  shows "ld_date (sx_local sx t) = local_minute off t div 1440"
    and "int (ld_time (sx_local sx t) div 60000000000) = local_minute off t mod 1440"
  using assms day_parts(1,2) [of "t + off * 60000000000"] zone_minute [of t off]
  by (simp_all only: fixed_zone_def local_dt.select_convs)

lemma day_and_minute:
  fixes m M D :: int
  assumes "0 \<le> m" "m < 1440"
  shows "M div 1440 = D \<and> m = M mod 1440 \<longleftrightarrow> M = D * 1440 + m"
  using assms div_mult_mod_eq [of M 1440] by auto

lemma local_weekday:
  assumes "fixed_zone off sx"
  shows "ld_weekday (sx_local sx t) = weekday_of (ld_date (sx_local sx t))"
  using assms by (simp only: fixed_zone_def local_dt.select_convs)

lemma publish_tick_simps [simp]:
  "sc_published (publish_tick p sc) = sc_published sc @ [EvCustom ''scheduler_tick'' p]"
  "sc_alert_fired (publish_tick p sc) = sc_alert_fired sc"
  "sc_last_periodic_fire (publish_tick p sc) = sc_last_periodic_fire sc"
  "sc_catchup_window_minutes (publish_tick p sc) = sc_catchup_window_minutes sc"
  by (simp_all add: publish_tick_def)

lemma tick_rule_published:
  "sc_published (tick_rule x sx now inst r sc) = sc_published sc @
     (if ru_enabled r \<and> list_ex (time_trigger_fires sx now inst sc r) (all_triggers r)
      then [EvCustom ''scheduler_tick'' (rule_tick x r)] else [])"
  by (simp add: tick_rule_def Let_def)

lemma tick_rule_time_of_day:
  assumes "ru_enabled r" "all_triggers r = [TrTimeOfDay time days]"
  shows "sc_published (tick_rule x sx now inst r sc) \<noteq> sc_published sc \<longleftrightarrow>
    time div 60000000000 = ld_time (sx_local sx now) div 60000000000
    \<and> (days = [] \<or> ld_weekday (sx_local sx now) \<in> set days)"
  unfolding tick_rule_published
  by (simp only: assms list_ex_iff list.set bex_simps time_trigger_fires_def times_match_iff Let_def trigger.case simp_thms)
     (cases "days = []"; simp)

text \<open>
  C24. In a zone with a fixed offset, a rule whose only trigger is a time of day is told to run in exactly one pass
  of every day it names after the day the scheduler starts on, whatever the time of day it starts at and however late each pass is,
  as long as none is a minute late: no minute is skipped and none is seen twice. (Not on the day
  of the start, where \<open>start_tells_twice\<close> has it told twice, and not across a change of the offset.)
\<close>

theorem time_of_day_once_a_day:
  assumes "fixed_zone off sx" "punctual sx t0 late" "time < 86400000000000"
    and "ld_date (sx_local sx t0) < D"
    and "ru_enabled r" "all_triggers r = [TrTimeOfDay time days]" "days = [] \<or> weekday_of D \<in> set days"
  shows "\<exists>!n. ld_date (sx_local sx (tick_time sx t0 late n)) = D
    \<and> sc_published (tick_rule x sx (tick_time sx t0 late n) (inst n) r (sc n)) \<noteq> sc_published (sc n)"
proof -
  let ?m = "int (time div 60000000000)" and ?t = "tick_time sx t0 late"
  have m: "0 \<le> ?m" "?m < 1440" using assms(3) by auto
  have date: "ld_date (sx_local sx (?t n)) = (local_minute off t0 + int n) div 1440" for n
    by (simp add: local_parts(1) [OF assms(1)] tick_minute [OF assms(1,2)])
  have minute: "time div 60000000000 = ld_time (sx_local sx (?t n)) div 60000000000 \<longleftrightarrow>
      ?m = (local_minute off t0 + int n) mod 1440" for n
    unfolding tick_minute [OF assms(1,2), of n, symmetric] local_parts(2) [OF assms(1), symmetric] of_nat_eq_iff ..
  have fires: "ld_date (sx_local sx (?t n)) = D \<and> sc_published (tick_rule x sx (?t n) (inst n) r (sc n)) \<noteq> sc_published (sc n)
      \<longleftrightarrow> local_minute off t0 + int n = D * 1440 + ?m" for n
    unfolding tick_rule_time_of_day [OF assms(5,6)] local_weekday [OF assms(1)] minute
    unfolding date day_and_minute [OF m, symmetric] using assms(7) by blast
  have "local_minute off t0 div 1440 < D"
    using assms(4) local_parts(1) [OF assms(1)] by simp
  then have "local_minute off t0 \<le> D * 1440 + ?m" using m by linarith
  then obtain n where n: "int n = D * 1440 + ?m - local_minute off t0"
    using zero_le_imp_eq_int [of "D * 1440 + ?m - local_minute off t0"] by auto
  show ?thesis
    unfolding fires by (rule ex1I [of _ n]) (use n in linarith)+
qed

definition sample_sched_ext :: sched_ext where
  "sample_sched_ext =
     \<lparr>sx_local = (\<lambda>t. \<lparr>ld_date = (t + 120 * 60000000000) div 86400000000000,
        ld_weekday = weekday_of ((t + 120 * 60000000000) div 86400000000000),
        ld_time = nat ((t + 120 * 60000000000) mod 86400000000000)\<rparr>),
      sx_solar_event_time = (\<lambda>_ _ _ _. None),
      sx_cron_after = (\<lambda>_. Some (\<lambda>t. Some ((t div 60000000000 + 1) * 60000000000)))\<rparr>"

lemma sample_zone: "fixed_zone 120 sample_sched_ext"
  by (simp only: fixed_zone_def sample_sched_ext_def sched_ext.select_convs simp_thms)

definition daily_rule :: rule where
  "daily_rule = sample_rule\<lparr>ru_enabled := True, ru_trigger := TrTimeOfDay (from_hm 7 30) [], ru_triggers := []\<rparr>"

lemma daily_rule_simps:
  "ru_enabled daily_rule" "all_triggers daily_rule = [TrTimeOfDay (from_hm 7 30) []]"
  by (simp_all add: daily_rule_def all_triggers_def)

lemma on_the_second_punctual: "punctual sx t0 (\<lambda>_. 0)"
proof -
  have "u mod 1000000000 < 60000000000" for u :: int
    using pos_mod_bound [of 1000000000 u] by linarith
  then show ?thesis by (simp only: punctual_def add_0 order_refl simp_thms)
qed

theorem time_of_day_once_a_day_witness:
  "\<exists>!n. ld_date (sx_local sample_sched_ext (tick_time sample_sched_ext 0 (\<lambda>_. 0) n)) = 3
    \<and> sc_published (tick_rule sample_externals sample_sched_ext (tick_time sample_sched_ext 0 (\<lambda>_. 0) n) 0
         daily_rule (new_scheduler 0)) \<noteq> sc_published (new_scheduler 0)"
  by (rule time_of_day_once_a_day
        [OF sample_zone on_the_second_punctual _ _ daily_rule_simps, where inst = "\<lambda>_. 0" and sc = "\<lambda>_. new_scheduler 0"])
     (simp_all add: from_hm_def sample_sched_ext_def)

subsection \<open>Catch-up\<close>

lemma in_window_cyclic:
  fixes m w n :: int
  assumes "0 \<le> m" "m < 1440" "0 \<le> w" "w < 1440" "0 \<le> n" "n < 1440"
  shows "(if w \<le> n then w \<le> m \<and> m \<le> n else w \<le> m \<or> m \<le> n) \<longleftrightarrow> (n - m) mod 1440 \<le> (n - w) mod 1440"
proof -
  have "(n - k) mod 1440 = (if k \<le> n then n - k else n - k + 1440)" if "0 \<le> k" "k < 1440" for k
  proof -
    have "(n - k + 1440) mod 1440 = n - k + 1440" if "\<not> k \<le> n"
      using that \<open>k < 1440\<close> assms(5) by (intro mod_pos_pos_trivial) linarith+
    moreover have "(n - k) mod 1440 = n - k" if "k \<le> n"
      using that \<open>0 \<le> k\<close> assms(6) by (intro mod_pos_pos_trivial) linarith+
    ultimately show ?thesis by simp
  qed
  then show ?thesis using assms by (cases "m \<le> n"; cases "w \<le> n") auto
qed

lemma in_catchup_window_minutes:
  "in_catchup_window time (from_hm (hour a) (minute a)) (from_hm (hour b) (minute b)) \<longleftrightarrow>
    (let m = int (time div 60000000000); w = int (a div 60000000000); n = int (b div 60000000000) in
     if w \<le> n then w \<le> m \<and> m \<le> n else w \<le> m \<or> m \<le> n)"
  by (simp only: in_catchup_window_def minute_of_day(2) Let_def of_nat_le_iff mult_le_cancel2 zero_less_numeral)
     simp

lemma local_minute_back:
  "local_minute off (now - int k * 60000000000) = local_minute off now - int k"
proof -
  have "now - int k * 60000000000 = now + (- int k) * 60000000000" by simp
  then have "(now - int k * 60000000000) div 60000000000 = - int k + now div 60000000000"
    by (simp only: div_mult_self1 [OF zero_neq_numeral [symmetric]])
  then show ?thesis unfolding local_minute_def by linarith
qed

lemma catchup_window_zone:
  assumes "fixed_zone off sx" "time < 86400000000000"
  shows "in_catchup_window time
      (from_hm (hour (ld_time (sx_local sx (now - int k * 60000000000))))
               (minute (ld_time (sx_local sx (now - int k * 60000000000)))))
      (from_hm (hour (ld_time (sx_local sx now))) (minute (ld_time (sx_local sx now)))) \<longleftrightarrow>
    (local_minute off now - int (time div 60000000000)) mod 1440 \<le> int k mod 1440"
proof -
  let ?m = "int (time div 60000000000)" and ?N = "local_minute off now"
  have m: "0 \<le> ?m" "?m < 1440" using assms(2) by auto
  have "(?N mod 1440 - ?m) mod 1440 = (?N - ?m) mod 1440"
    and "(?N mod 1440 - (?N - int k) mod 1440) mod 1440 = (?N - (?N - int k)) mod 1440"
    by (rule mod_diff_left_eq, rule mod_diff_eq)
  then show ?thesis
    unfolding in_catchup_window_minutes local_parts(2) [OF assms(1)] local_minute_back Let_def
    by (subst in_window_cyclic) (use m in simp_all)
qed

text \<open>
  At start a rule with a time-of-day trigger is told to run exactly if its time lies no more
  than the window's minutes back from the current minute on the clock face, both ends included,
  and today is a day it names. The clock face has a day on it: a window of a day or longer counts
  only for what is left of it after whole days.
\<close>

theorem catchup_time_of_day:
  assumes "fixed_zone off sx" "time < 86400000000000"
    and "ru_enabled r" "all_triggers r = [TrTimeOfDay time days]"
  shows "EvCustom ''scheduler_tick'' (rule_tick x r) \<in> set (sc_published (catchup_rule x sx now inst r (new_scheduler w)))
    \<longleftrightarrow> (local_minute off now - int (time div 60000000000)) mod 1440 \<le> int w mod 1440
       \<and> (days = [] \<or> weekday_of (local_minute off now div 1440) \<in> set days)"
proof -
  have "catchup_trigger sx now (new_scheduler w) (TrTimeOfDay time days) \<longleftrightarrow>
      (days = [] \<or> weekday_of (local_minute off now div 1440) \<in> set days)
      \<and> (local_minute off now - int (time div 60000000000)) mod 1440 \<le> int w mod 1440"
    unfolding catchup_trigger_def Let_def trigger.case new_scheduler_def scheduler.select_convs
      catchup_window_zone [OF assms(1,2)] local_weekday [OF assms(1)] local_parts(1) [OF assms(1)] ..
  then show ?thesis
    using assms(3,4) by (auto simp: catchup_rule_def new_scheduler_def is_periodic_def)
qed

theorem catchup_time_of_day_witness:
  "EvCustom ''scheduler_tick'' (rule_tick sample_externals daily_rule) \<in>
     set (sc_published (catchup_rule sample_externals sample_sched_ext 20100000000000 0 daily_rule (new_scheduler 15)))
   \<and> EvCustom ''scheduler_tick'' (rule_tick sample_externals daily_rule) \<notin>
     set (sc_published (catchup_rule sample_externals sample_sched_ext 20100000000000 0 daily_rule (new_scheduler 1440)))"
  by (simp add: catchup_time_of_day [OF sample_zone _ daily_rule_simps] from_hm_def local_minute_def)

subsection \<open>What every pass keeps\<close>

lemma fold_establish:
  assumes "a \<in> set as" "P s" "\<And>b s. P s \<Longrightarrow> P (f b s)" "\<And>s. P s \<Longrightarrow> Q (f a s)" "\<And>b s. Q s \<Longrightarrow> Q (f b s)"
  shows "Q (fold f as s)"
proof -
  have keep: "Q s \<Longrightarrow> Q (fold f bs s)" for bs s
    by (induction bs arbitrary: s) (simp_all add: assms(5))
  show ?thesis
    using assms(1,2) by (induction as arbitrary: s) (auto simp: assms(3,4) keep)
qed

text \<open>
  A property of the scheduler that a pass keeps because its four ways of changing the state do: a
  tick without an alert, the time of a periodic fire, a tick for an alert, and forgetting the
  alerts that have cleared.
\<close>

locale pass_preserved =
  fixes x :: externals and keep :: "alert list \<Rightarrow> bool" and P :: "scheduler \<Rightarrow> bool"
  assumes plain: "P sc \<Longrightarrow> json_get p ''alert'' = None \<Longrightarrow> P (publish_tick p sc)"
    and seed: "P sc \<Longrightarrow> P (sc\<lparr>sc_last_periodic_fire := m\<rparr>)"
    and lasting: "P sc \<Longrightarrow> P (fire_alert_active_for x now r minutes a sc)"
    and forget: "P sc \<Longrightarrow> keep active \<Longrightarrow>
      P (sc\<lparr>sc_alert_fired := {p \<in> sc_alert_fired sc. snd p \<in> al_id ` set active}\<rparr>)"
begin

lemma fold_keeps: "(\<And>b s. P s \<Longrightarrow> P (f b s)) \<Longrightarrow> P sc \<Longrightarrow> P (fold f bs sc)"
  by (induction bs arbitrary: sc) simp_all

lemma rule_keeps: "P sc \<Longrightarrow> P (tick_rule x sx now inst r sc)"
  by (simp add: tick_rule_def Let_def plain seed rule_tick_def)

lemma catchup_keeps: "P sc \<Longrightarrow> P (catchup_rule x sx now inst r sc)"
  by (simp add: catchup_rule_def Let_def plain seed rule_tick_def)

lemma trigger_keeps: "P sc \<Longrightarrow> P (fire_trigger_alerts x now active r t sc)"
  by (simp add: fire_trigger_alerts_def fold_keeps lasting split: trigger.split)

lemma alerts_keep:
  "P sc \<Longrightarrow> (\<And>active. alerts = Some active \<Longrightarrow> keep active) \<Longrightarrow> P (fire_alerts_active_for x now alerts rules sc)"
  unfolding fire_alerts_active_for_def
  by (auto intro!: fold_keeps trigger_keeps forget split: option.split)

lemma calendar_keeps: "P sc \<Longrightarrow> P (tick_calendar_rule x now cals r sc)"
  by (auto simp: tick_calendar_rule_def intro!: plain split: option.split)

lemma after_rules_keeps:
  "P (fold (tick_rule x sx now inst) rules sc) \<Longrightarrow> (\<And>active. alerts = Some active \<Longrightarrow> keep active) \<Longrightarrow>
   P (tick x sx now inst alerts cals rules sc)"
  unfolding tick_def Let_def
  by (auto intro!: fold_keeps calendar_keeps alerts_keep split: option.split)

lemma tick_keeps:
  "P sc \<Longrightarrow> (\<And>active. alerts = Some active \<Longrightarrow> keep active) \<Longrightarrow> P (tick x sx now inst alerts cals rules sc)"
  by (rule after_rules_keeps) (auto intro!: fold_keeps rule_keeps)

end

text \<open>How often a rule was told to run with no word of an alert.\<close>

definition told :: "externals \<Rightarrow> rule \<Rightarrow> scheduler \<Rightarrow> nat" where
  "told x r sc = count_list (sc_published sc) (EvCustom ''scheduler_tick'' (rule_tick x r))"

lemma told_simps [simp]:
  "told x r (publish_tick p sc) = told x r sc + (if p = rule_tick x r then 1 else 0)"
  "told x r (sc\<lparr>sc_last_periodic_fire := m\<rparr>) = told x r sc"
  "told x r (sc\<lparr>sc_alert_fired := s\<rparr>) = told x r sc"
  "told x r (new_scheduler w) = 0"
  by (simp_all add: told_def new_scheduler_def)

interpretation told_grows: pass_preserved x "\<lambda>_. True" "\<lambda>sc. k \<le> told x r sc" for x k r
  by unfold_locales (auto simp: fire_alert_active_for_def)

lemma tick_tells:
  assumes "r \<in> set rules" "ru_enabled r" "t \<in> set (all_triggers r)" "k \<le> told x r sc"
    and "\<And>sc. time_trigger_fires sx now inst sc r t"
  shows "Suc k \<le> told x r (tick x sx now inst alerts cals rules sc)"
proof -
  have adds: "Suc k \<le> told x r (tick_rule x sx now inst r s)" if "k \<le> told x r s" for s
    using assms(2,3,5) that by (auto simp: tick_rule_def Let_def list_ex_iff)
  have "Suc k \<le> told x r (fold (tick_rule x sx now inst) rules sc)"
    by (rule fold_establish [OF assms(1), where P = "\<lambda>sc. k \<le> told x r sc" and Q = "\<lambda>sc. Suc k \<le> told x r sc"])
       (rule assms(4), erule told_grows.rule_keeps, erule adds, erule told_grows.rule_keeps)
  then show ?thesis
    by (rule told_grows.after_rules_keeps) simp
qed

lemma catchup_tells:
  assumes "r \<in> set rules" "ru_enabled r" "t \<in> set (all_triggers r)" "\<And>sc. catchup_trigger sx now sc t"
  shows "1 \<le> told x r (fire_catchup x sx now inst rules sc)"
proof -
  have adds: "1 \<le> told x r (catchup_rule x sx now inst r s)" for s
    using assms(2-4) by (auto simp: catchup_rule_def Let_def list_ex_iff)
  show ?thesis
    unfolding fire_catchup_def
    by (rule fold_establish [OF assms(1), where P = "\<lambda>_. True" and Q = "\<lambda>sc. 1 \<le> told x r sc"])
       (rule TrueI adds | erule told_grows.catchup_keeps)+
qed

text \<open>
  A rule whose time of day is the minute the scheduler starts in is told to run twice over:
  the catch-up's window ends with the current minute, and the first pass looks at that minute again.
\<close>

theorem start_tells_twice:
  assumes "r \<in> set rules" "ru_enabled r" "TrTimeOfDay time days \<in> set (all_triggers r)" "0 < w"
    and "times_match time (ld_time (sx_local sx now))" "days = [] \<or> ld_weekday (sx_local sx now) \<in> set days"
  shows "2 \<le> told x r (run_start x sx now inst alerts cals rules (new_scheduler w))"
proof -
  have "in_catchup_window time ws (from_hm (hour (ld_time (sx_local sx now))) (minute (ld_time (sx_local sx now))))
      \<longleftrightarrow> ws \<le> from_hm (hour time) (minute time) \<or> \<not> ws \<le> from_hm (hour time) (minute time)" for ws
    using assms(5) by (auto simp: in_catchup_window_def times_match_def Let_def)
  then have "1 \<le> told x r (fire_catchup x sx now inst rules (new_scheduler w))"
    using assms by (intro catchup_tells [where t = "TrTimeOfDay time days"]) (auto simp: catchup_trigger_def Let_def)
  then have "Suc 1 \<le> told x r (run_start x sx now inst alerts cals rules (new_scheduler w))"
    unfolding run_start_def using assms
    by (intro tick_tells [where t = "TrTimeOfDay time days"])
       (auto simp: time_trigger_fires_def new_scheduler_def)
  then show ?thesis by simp
qed

theorem start_tells_twice_witness:
  "2 \<le> told sample_externals daily_rule
     (run_start sample_externals sample_sched_ext 19830000000000 0 None None [daily_rule] (new_scheduler 15))"
  by (rule start_tells_twice [where time = "from_hm 7 30" and days = "[]"])
     (simp_all add: daily_rule_simps times_match_def from_hm_def hour_def minute_def sample_sched_ext_def)

subsection \<open>Once per alert\<close>

record pass =
  pa_now :: timestamp
  pa_inst :: nanos
  pa_alerts :: "alert list option"
  pa_calendars :: "calendar_entry list option"
  pa_rules :: "rule list"

definition passes :: "externals \<Rightarrow> sched_ext \<Rightarrow> pass list \<Rightarrow> scheduler \<Rightarrow> scheduler" where
  "passes x sx ps sc =
     fold (\<lambda>p. tick x sx (pa_now p) (pa_inst p) (pa_alerts p) (pa_calendars p) (pa_rules p)) ps sc"

definition names_pair :: "externals \<Rightarrow> uuid \<Rightarrow> string \<Rightarrow> event \<Rightarrow> bool" where
  "names_pair x rid aid e =
     (case e of
        EvCustom event_type p \<Rightarrow>
          event_type = ''scheduler_tick''
          \<and> json_get p ''rule_id'' = Some (JStr (show_uuid x rid))
          \<and> Option.bind (json_get p ''alert'') (\<lambda>a. json_get a ''id'') = Some (JStr aid)
      | _ \<Rightarrow> False)"

definition told_of :: "externals \<Rightarrow> uuid \<Rightarrow> string \<Rightarrow> scheduler \<Rightarrow> nat" where
  "told_of x rid aid sc = length (filter (names_pair x rid aid) (sc_published sc))"

definition alert_due :: "uuid \<Rightarrow> string \<Rightarrow> pass \<Rightarrow> bool" where
  "alert_due rid aid p \<longleftrightarrow>
     (\<exists>r \<in> set (pa_rules p). ru_id r = rid \<and> ru_enabled r
        \<and> (\<exists>active a f minutes. pa_alerts p = Some active \<and> a \<in> set active \<and> al_id a = aid
             \<and> TrAlertActiveFor f minutes \<in> set (all_triggers r) \<and> filter_matches f a
             \<and> int minutes \<le> lasted_minutes (pa_now p) a))"

definition stays_active :: "string \<Rightarrow> pass \<Rightarrow> bool" where
  "stays_active aid p \<longleftrightarrow> (\<forall>active. pa_alerts p = Some active \<longrightarrow> aid \<in> al_id ` set active)"

lemma alert_json_id [simp]: "json_get (alert_to_json x a) ''id'' = Some (JStr (al_id a))"
  by (simp add: alert_to_json_def opt_field_def map_add_def split: option.split)

lemma told_of_simps [simp]:
  "told_of x rid aid (publish_tick p sc) =
     told_of x rid aid sc + (if names_pair x rid aid (EvCustom ''scheduler_tick'' p) then 1 else 0)"
  "told_of x rid aid (sc\<lparr>sc_last_periodic_fire := m\<rparr>) = told_of x rid aid sc"
  "told_of x rid aid (sc\<lparr>sc_alert_fired := s\<rparr>) = told_of x rid aid sc"
  "told_of x rid aid (new_scheduler w) = 0"
  by (simp_all add: told_of_def new_scheduler_def)

text \<open>The remembered pairs are those told, once each, and they stay while the alert does.\<close>

interpretation pair_told: pass_preserved x "\<lambda>active. aid \<in> al_id ` set active"
  "\<lambda>sc. inj (show_uuid x) \<longrightarrow> told_of x rid aid sc = of_bool ((rid, aid) \<in> sc_alert_fired sc)" for x rid aid
  by unfold_locales (auto simp: names_pair_def fire_alert_active_for_def inj_eq)

interpretation pair_kept: pass_preserved x "\<lambda>active. aid \<in> al_id ` set active"
  "\<lambda>sc. (rid, aid) \<in> sc_alert_fired sc" for x rid aid
  by unfold_locales (auto simp: fire_alert_active_for_def)

lemma due_alert_fires:
  assumes "alert_due rid aid p"
  shows "(rid, aid) \<in> sc_alert_fired
    (tick x sx (pa_now p) (pa_inst p) (pa_alerts p) (pa_calendars p) (pa_rules p) sc)"
proof -
  obtain r active a f minutes where
    r: "r \<in> set (filter ru_enabled (pa_rules p))" "ru_id r = rid" and a: "a \<in> set (filter (filter_matches f) active)" "al_id a = aid"
    and t: "TrAlertActiveFor f minutes \<in> set (all_triggers r)" "int minutes \<le> lasted_minutes (pa_now p) a"
    and active: "pa_alerts p = Some active"
    using assms by (auto simp: alert_due_def)
  let ?Q = "\<lambda>sc. (rid, aid) \<in> sc_alert_fired sc"
  have one: "?Q (fire_trigger_alerts x (pa_now p) active r (TrAlertActiveFor f minutes) s)" for s
    unfolding fire_trigger_alerts_def trigger.case
    by (rule fold_establish [OF a(1), where P = "\<lambda>_. True" and Q = ?Q])
       (use r(2) a(2) t(2) in \<open>auto simp: fire_alert_active_for_def\<close>)
  have rule: "?Q (fold (fire_trigger_alerts x (pa_now p) active r) (all_triggers r) s)" for s
    by (rule fold_establish [OF t(1), where P = "\<lambda>_. True" and Q = ?Q])
       (rule TrueI one | erule pair_kept.trigger_keeps)+
  have "?Q (fold (\<lambda>r. fold (fire_trigger_alerts x (pa_now p) active r) (all_triggers r))
      (filter ru_enabled (pa_rules p)) s)" for s
    by (rule fold_establish [OF r(1), where P = "\<lambda>_. True" and Q = ?Q])
       (rule TrueI rule | assumption | rule pair_kept.fold_keeps [OF pair_kept.trigger_keeps])+
  then have "?Q (fire_alerts_active_for x (pa_now p) (pa_alerts p) (pa_rules p) s)" for s
    by (simp add: fire_alerts_active_for_def active)
  then show ?thesis
    unfolding tick_def Let_def
    by (auto split: option.split intro: pair_kept.fold_keeps [OF pair_kept.calendar_keeps])
qed

lemma not_due_keeps:
  assumes "\<not> alert_due rid aid p" "(rid, aid) \<notin> sc_alert_fired sc"
  shows "(rid, aid) \<notin> sc_alert_fired
    (tick x sx (pa_now p) (pa_inst p) (pa_alerts p) (pa_calendars p) (pa_rules p) sc)"
proof -
  let ?P = "\<lambda>sc :: scheduler. (rid, aid) \<notin> sc_alert_fired sc"
  have one: "?P (fire_alert_active_for x (pa_now p) r minutes a s)"
    if "?P s" "ru_id r = rid \<and> al_id a = aid \<longrightarrow> lasted_minutes (pa_now p) a < int minutes" for r minutes a s
    using that by (auto simp: fire_alert_active_for_def)
  have rule: "?P (fold (fire_trigger_alerts x (pa_now p) active r) (all_triggers r) s)"
    if "?P s" "r \<in> set (filter ru_enabled (pa_rules p))" "pa_alerts p = Some active" for active r s
  proof (rule fold_invariant [where P = ?P and Q = "\<lambda>t. t \<in> set (all_triggers r)"])
    fix t s assume t: "t \<in> set (all_triggers r)" and s: "?P s"
    have "?P (fold (fire_alert_active_for x (pa_now p) r minutes) (filter (filter_matches f) active) s)"
      if "t = TrAlertActiveFor f minutes" for f minutes
      using that t \<open>r \<in> _\<close> \<open>pa_alerts p = _\<close> assms(1)
      by (intro fold_invariant [where P = ?P and Q = "\<lambda>a. a \<in> set (filter (filter_matches f) active)"] s one)
         (auto simp: alert_due_def not_le [symmetric])
    then show "?P (fire_trigger_alerts x (pa_now p) active r t s)"
      using s by (auto simp: fire_trigger_alerts_def split: trigger.split)
  qed (use that in auto)
  have rules: "?P (fold (tick_rule x sx (pa_now p) (pa_inst p)) rs s) = ?P s" for rs s
    by (induction rs arbitrary: s) (simp_all add: tick_rule_def Let_def)
  have calendar: "?P (fold (tick_calendar_rule x (pa_now p) cals) rs s) = ?P s" for cals rs s
    by (induction rs arbitrary: s) (auto simp: tick_calendar_rule_def split: option.split)
  have "?P (fire_alerts_active_for x (pa_now p) (pa_alerts p) (pa_rules p) s)" if "?P s" for s
  proof (cases "pa_alerts p")
    case (Some active)
    have "?P (fold (\<lambda>r. fold (fire_trigger_alerts x (pa_now p) active r) (all_triggers r))
        (filter ru_enabled (pa_rules p)) s')" if "?P s'" for s'
      by (rule fold_invariant [where P = ?P and Q = "\<lambda>r. r \<in> set (filter ru_enabled (pa_rules p))"])
         (assumption | rule that rule Some)+
    then show ?thesis using \<open>?P s\<close> by (simp add: fire_alerts_active_for_def Some)
  qed (simp add: fire_alerts_active_for_def that)
  then show ?thesis
    unfolding tick_def Let_def using assms(2) by (simp add: rules calendar split: option.split)
qed

lemma passes_fired:
  assumes "list_all (stays_active aid) ps"
  shows "(rid, aid) \<in> sc_alert_fired (passes x sx ps sc) \<longleftrightarrow>
    (rid, aid) \<in> sc_alert_fired sc \<or> list_ex (alert_due rid aid) ps"
  using assms
proof (induction ps arbitrary: sc)
  case (Cons p ps)
  let ?sc = "tick x sx (pa_now p) (pa_inst p) (pa_alerts p) (pa_calendars p) (pa_rules p) sc"
  have "(rid, aid) \<in> sc_alert_fired ?sc \<longleftrightarrow> (rid, aid) \<in> sc_alert_fired sc \<or> alert_due rid aid p"
    using due_alert_fires not_due_keeps pair_kept.tick_keeps [of rid aid sc "pa_alerts p"] Cons.prems
    by (fastforce simp: stays_active_def)
  then show ?case using Cons by (simp add: passes_def)
qed (simp add: passes_def)

lemma passes_told:
  assumes "list_all (stays_active aid) ps" "inj (show_uuid x)"
    and "told_of x rid aid sc = of_bool ((rid, aid) \<in> sc_alert_fired sc)"
  shows "told_of x rid aid (passes x sx ps sc) = of_bool ((rid, aid) \<in> sc_alert_fired (passes x sx ps sc))"
  using assms(1,3)
proof (induction ps arbitrary: sc)
  case (Cons p ps)
  then show ?case
    using pair_told.tick_keeps [of x rid aid sc "pa_alerts p"] assms(2)
    by (simp add: passes_def stays_active_def)
qed (simp add: passes_def)

text \<open>
  C25. While an alert stays active, an \<open>AlertActiveFor\<close> rule is told of it exactly once, however
  many passes go by, if in one of them the alert has lasted the rule's minutes, and not at all if
  in none.
\<close>

theorem alert_active_for_once:
  assumes "inj (show_uuid x)" "list_all (stays_active aid) ps"
  shows "told_of x rid aid (passes x sx ps (new_scheduler w)) = of_bool (list_ex (alert_due rid aid) ps)"
  using passes_told [OF assms(2,1), of rid "new_scheduler w"] passes_fired [OF assms(2)]
  by (simp add: new_scheduler_def told_of_def)

definition lasting_rule :: rule where
  "lasting_rule = sample_rule\<lparr>ru_trigger := TrAlertActiveFor alert_filter_default 10\<rparr>"

definition lasting_alert :: alert where
  "lasting_alert = \<lparr>al_id = ''leak'', al_kind = Wet, al_device_id = ''d'', al_rule_id = None,
     al_message = [], al_reason = [], al_severity = Warning, al_raised_at = 0, al_acknowledged = None,
     al_plugin_id = None, al_topic = None, al_key = None, al_action = None, al_device_plugin_id = None\<rparr>"

definition lasting_pass :: "int \<Rightarrow> pass" where
  "lasting_pass m = \<lparr>pa_now = m * 60000000000, pa_inst = 0, pa_alerts = Some [lasting_alert],
     pa_calendars = None, pa_rules = [lasting_rule]\<rparr>"

lemma lasting_pass_stays: "stays_active ''leak'' (lasting_pass m)"
  by (simp add: stays_active_def lasting_pass_def lasting_alert_def)

lemma lasting_pass_due: "0 \<le> m \<Longrightarrow> alert_due 1 ''leak'' (lasting_pass m) \<longleftrightarrow> 10 \<le> m"
  by (simp add: alert_due_def lasting_pass_def lasting_rule_def lasting_alert_def sample_rule_def
      all_triggers_def filter_matches_def alert_filter_default_def is_none_or_def lasted_minutes_def)

lemma sample_show_uuid: "inj (show_uuid sample_externals)"
  by (rule injI) (simp add: sample_externals_def replicate_eq_replicate)

theorem alert_active_for_once_witness:
  "told_of sample_externals 1 ''leak'' (passes sample_externals sample_sched_ext
     [lasting_pass 9, lasting_pass 10, lasting_pass 11] (new_scheduler 0)) = 1"
  using alert_active_for_once [OF sample_show_uuid, of "''leak''" "[lasting_pass 9, lasting_pass 10, lasting_pass 11]" 1]
  by (simp add: lasting_pass_stays lasting_pass_due del: One_nat_def)

end
