(* ===== verification/Process.thy ===== *)
theory Process
  imports Prelude "HOL-Library.Multiset"
begin

text \<open>
  Asynchronous code as values. A process is what is left to do of an async function: it has
  ended with a result, does something to the shared state in one go and goes on, waits for something
  that may never come, spawns a task and goes on with the task's handle, or awaits a handle. Everything between two steps of a process may
  be used by other tasks, so a process that is stepped in a pool of tasks sees every interleaving
  that awaits allow. A process is a finitely deep tree: one exists only for code that ends unless it
  waits for ever.
\<close>

datatype ('s, 'r) process =
    Done 'r
  | Atom "'s \<Rightarrow> 's \<times> ('s, 'r) process"
  | Wait "'s \<Rightarrow> bool" "('s, 'r) process"
  | Spawn "('s, 'r) process" "nat \<Rightarrow> ('s, 'r) process"
  | Join nat "'r \<Rightarrow> ('s, 'r) process"

text \<open>Go on with what a process returns.\<close>

primrec bind_process :: "('s, 'r) process \<Rightarrow> ('r \<Rightarrow> ('s, 'r) process) \<Rightarrow> ('s, 'r) process" where
  "bind_process (Done r) k = k r"
| "bind_process (Atom f) k = Atom (\<lambda>s. map_prod id (\<lambda>p. bind_process p k) (f s))"
| "bind_process (Wait b p) k = Wait b (bind_process p k)"
| "bind_process (Spawn q h) k = Spawn q (\<lambda>n. bind_process (h n) k)"
| "bind_process (Join i h) k = Join i (\<lambda>r. bind_process (h r) k)"

definition act :: "('s \<Rightarrow> 's) \<Rightarrow> 'r \<Rightarrow> ('s, 'r) process" where
  "act f r = Atom (\<lambda>s. (f s, Done r))"

definition look :: "('s \<Rightarrow> ('s, 'r) process) \<Rightarrow> ('s, 'r) process" where
  "look g = Atom (\<lambda>s. (s, g s))"

subsection \<open>Tasks\<close>

text \<open>
  A pool of tasks over a shared state; a task's handle is its place in the pool. A task that awaits
  another can go on once that has ended. A task in a \<open>Wait\<close> can go on while what it waits for is
  there, and need not. What else happens to the state is up to the environment.
\<close>

inductive task_step :: "'s \<times> ('s, 'r) process list \<Rightarrow> nat \<Rightarrow> 's \<times> ('s, 'r) process list \<Rightarrow> bool" where
  task_atom: "i < length ts \<Longrightarrow> ts ! i = Atom f \<Longrightarrow> f s = (s', p) \<Longrightarrow> task_step (s, ts) i (s', ts[i := p])"
| task_wait: "i < length ts \<Longrightarrow> ts ! i = Wait b p \<Longrightarrow> b s \<Longrightarrow> task_step (s, ts) i (s, ts[i := p])"
| task_spawn: "i < length ts \<Longrightarrow> ts ! i = Spawn q k \<Longrightarrow>
     task_step (s, ts) i (s, ts[i := k (length ts)] @ [q])"
| task_join: "i < length ts \<Longrightarrow> ts ! i = Join j k \<Longrightarrow> j < length ts \<Longrightarrow> ts ! j = Done r \<Longrightarrow>
     task_step (s, ts) i (s, ts[i := k r])"

inductive_cases task_stepE: "task_step (s, ts) i (s', ts')"

definition pool_step :: "'s \<times> ('s, 'r) process list \<Rightarrow> 's \<times> ('s, 'r) process list \<Rightarrow> bool" where
  "pool_step c c' \<longleftrightarrow> (\<exists>i. task_step c i c') \<or> (\<exists>s'. c' = (s', snd c))"

text \<open>One schedule: a spawned task runs to its end at once, and what is waited for comes at once.\<close>

primrec run_alone :: "('s, 'r) process \<Rightarrow> 's \<times> 'r list \<Rightarrow> ('s \<times> 'r list) \<times> 'r" where
  "run_alone (Done r) c = (c, r)"
| "run_alone (Atom f) c =
     (case map_prod id run_alone (f (fst c)) of (s, g) \<Rightarrow> g (s, snd c))"
| "run_alone (Wait b p) c = run_alone p c"
| "run_alone (Spawn q k) c =
     (let e = run_alone q c in
      run_alone (k (length (snd (fst e)))) (fst (fst e), snd (fst e) @ [snd e]))"
| "run_alone (Join i k) c = run_alone (k (snd c ! i)) c"

subsection \<open>Runs end\<close>

definition next_process :: "(('s, 'r) process \<times> ('s, 'r) process) set" where
  "next_process = {(q, p). case p of
      Done _ \<Rightarrow> False
    | Atom f \<Rightarrow> \<exists>s. q = snd (f s)
    | Wait _ p' \<Rightarrow> q = p'
    | Spawn t k \<Rightarrow> q = t \<or> (\<exists>n. q = k n)
    | Join _ k \<Rightarrow> \<exists>r. q = k r}"

lemma wf_next_process: "wf (next_process :: (('s, 'r) process \<times> ('s, 'r) process) set)"
proof (rule wfUNIVI)
  fix P :: "('s, 'r) process \<Rightarrow> bool" and p
  assume ih: "\<forall>p. (\<forall>q. (q, p) \<in> next_process \<longrightarrow> P q) \<longrightarrow> P p"
  have step: "P p" if "\<And>q. (q, p) \<in> next_process \<Longrightarrow> P q" for p
    using ih that by blast
  show "P p"
  proof (induction p)
    case (Atom f)
    have "P (snd (f s))" for s
      by (rule Atom [of "f s"]) (auto simp: snds.simps)
    then show ?case by - (rule step, auto simp: next_process_def)
  qed (rule step, auto simp: next_process_def)+
qed

definition pool_less :: "(('s, 'r) process list \<times> ('s, 'r) process list) set" where
  "pool_less = inv_image (mult next_process) mset"

lemma wf_pool_less: "wf pool_less"
  unfolding pool_less_def by (intro wf_inv_image wf_mult wf_next_process)

lemma replace_less:
  assumes "i < length ts" "\<And>q. q \<in># new \<Longrightarrow> (q, ts ! i) \<in> next_process" "mset ts' = (mset ts - {#ts ! i#}) + new"
  shows "(ts', ts) \<in> pool_less"
proof -
  have "mset ts = (mset ts - {#ts ! i#}) + {#ts ! i#}"
    using assms(1) by simp
  then show ?thesis
    unfolding pool_less_def using assms(2,3)
    by (metis (no_types, lifting) in_inv_image multi_self_add_other_not_self one_step_implies_mult
        set_mset_single singletonD singletonI empty_not_add_mset)
qed

lemma task_step_less:
  assumes "task_step (s, ts) i (s', ts')"
  shows "(ts', ts) \<in> pool_less"
  using assms
proof (cases rule: task_step.cases)
  case (task_atom f p)
  then show ?thesis
    by (intro replace_less [of i ts "{#p#}"]) (auto simp: next_process_def mset_update intro: exI [of _ s])
next
  case (task_wait b p)
  then show ?thesis
    by (intro replace_less [of i ts "{#p#}"]) (auto simp: next_process_def mset_update)
next
  case (task_spawn q k)
  then show ?thesis
    by (intro replace_less [of i ts "{#k (length ts), q#}"]) (auto simp: next_process_def mset_update)
next
  case (task_join j k r)
  then show ?thesis
    by (intro replace_less [of i ts "{#k r#}"]) (auto simp: next_process_def mset_update)
qed

subsection \<open>Runs come to their end\<close>

text \<open>A process awaits only tasks that it has spawned itself.\<close>

primrec joins_ok :: "('s, 'r) process \<Rightarrow> nat set \<Rightarrow> bool" where
  "joins_ok (Done r) S = True"
| "joins_ok (Atom f) S = (\<forall>s. case map_prod id joins_ok (f s) of (_, g) \<Rightarrow> g S)"
| "joins_ok (Wait b p) S = joins_ok p S"
| "joins_ok (Spawn q k) S = (joins_ok q {} \<and> (\<forall>n. joins_ok (k n) (insert n S)))"
| "joins_ok (Join i k) S = (i \<in> S \<and> (\<forall>r. joins_ok (k r) S))"

lemma joins_ok_Atom [simp]: "joins_ok (Atom f) S \<longleftrightarrow> (\<forall>s. joins_ok (snd (f s)) S)"
  by (simp add: case_prod_beta)

declare joins_ok.simps(2) [simp del]

lemma joins_ok_mono: "joins_ok p S \<Longrightarrow> S \<subseteq> T \<Longrightarrow> joins_ok p T"
proof (induction p arbitrary: S T)
  case (Atom f)
  have "joins_ok (snd (f s)) T" for s
    by (rule Atom.IH [of "f s" "snd (f s)" S]) (use Atom.prems in \<open>auto simp: snds.simps\<close>)
  then show ?case by simp
next
  case (Wait b p)
  then show ?case by auto
next
  case (Spawn q k)
  have "joins_ok (k n) (insert n T)" for n
    by (rule Spawn.IH(2) [of "k n" "insert n S"]) (use Spawn.prems in auto)
  then show ?case using Spawn.prems by simp
next
  case (Join i k)
  have "joins_ok (k r) T" for r
    by (rule Join.IH [of "k r" S]) (use Join.prems in auto)
  then show ?case using Join.prems by auto
qed simp

lemma joins_ok_bind:
  "joins_ok p S \<Longrightarrow> (\<And>r T. S \<subseteq> T \<Longrightarrow> joins_ok (k r) T) \<Longrightarrow> joins_ok (bind_process p k) S"
proof (induction p arbitrary: S)
  case (Atom f)
  have "joins_ok (bind_process (snd (f s)) k) S" for s
    using Atom.prems by (intro Atom.IH [of "f s"]) (auto simp: snds.simps)
  then show ?case by simp
next
  case (Wait b p)
  then show ?case by auto
next
  case (Spawn q h)
  then have "joins_ok (bind_process (h n) k) (insert n S)" for n
    by (intro Spawn.IH(2)) auto
  then show ?case using Spawn.prems by simp
next
  case (Join i h)
  then have "joins_ok (bind_process (h r) k) S" for r
    by (intro Join.IH) auto
  then show ?case using Join.prems by simp
qed simp

definition pool_ok :: "('s, 'r) process list \<Rightarrow> bool" where
  "pool_ok ts \<longleftrightarrow> (\<forall>i < length ts. joins_ok (ts ! i) {i <..< length ts})"

lemma task_step_ok:
  assumes "task_step (s, ts) i (s', ts')" "pool_ok ts"
  shows "pool_ok ts'"
  using assms(1)
proof (cases rule: task_step.cases)
  case (task_atom f p)
  then have "joins_ok p {i <..< length ts}"
    using assms(2) by (metis joins_ok_Atom pool_ok_def snd_conv)
  then show ?thesis
    using assms(2) task_atom by (auto simp: pool_ok_def nth_list_update)
next
  case (task_wait b p)
  then have "joins_ok p {i <..< length ts}"
    using assms(2) by (metis joins_ok.simps(3) pool_ok_def)
  then show ?thesis
    using assms(2) task_wait by (auto simp: pool_ok_def nth_list_update)
next
  case (task_spawn q k)
  let ?n = "length ts"
  have "joins_ok (Spawn q k) {i <..< ?n}"
    using assms(2) task_spawn by (metis pool_ok_def)
  then have "joins_ok (k ?n) (insert ?n {i <..< ?n})" "joins_ok q {}" by auto
  then have "joins_ok (k ?n) {i <..< Suc ?n}" "joins_ok q {?n <..< Suc ?n}"
    using task_spawn by (auto elim!: joins_ok_mono)
  moreover have "joins_ok (ts ! m) {m <..< Suc ?n}" if "m < ?n" for m
    using assms(2) that by (auto simp: pool_ok_def elim!: joins_ok_mono)
  ultimately show ?thesis
    using task_spawn by (auto simp: pool_ok_def nth_append nth_list_update less_Suc_eq)
next
  case (task_join j k r)
  then have "joins_ok (k r) {i <..< length ts}"
    using assms(2) by (metis joins_ok.simps(5) pool_ok_def)
  then show ?thesis
    using assms(2) task_join by (auto simp: pool_ok_def nth_list_update)
qed

text \<open>A task that waits for something that may never come.\<close>

definition in_wait :: "('s, 'r) process \<Rightarrow> bool" where
  "in_wait p \<longleftrightarrow> (case p of Wait _ _ \<Rightarrow> True | _ \<Rightarrow> False)"

definition can_go_on :: "'s \<times> ('s, 'r) process list \<Rightarrow> bool" where
  "can_go_on c \<longleftrightarrow> (\<exists>i d. task_step c i d \<and> \<not> in_wait (snd c ! i))"

lemma stuck_pool_done:
  assumes "pool_ok ts" "\<not> can_go_on (s, ts)" "\<not> (\<exists>p \<in> set ts. in_wait p)" "i < length ts"
  shows "\<exists>r. ts ! i = Done r"
  using assms(4)
proof (induction "length ts - i" arbitrary: i rule: less_induct)
  case less
  have "\<not> in_wait (ts ! i)" using assms(3) less.prems nth_mem by blast
  then have stuck: "\<not> task_step (s, ts) i c" for c
    using assms(2) unfolding can_go_on_def snd_conv by blast
  show ?case
  proof (cases "ts ! i")
    case (Atom f)
    then show ?thesis using stuck less.prems task_atom by (metis surj_pair)
  next
    case (Wait b p)
    then show ?thesis using assms(3) less.prems by (force simp: in_wait_def dest: nth_mem)
  next
    case (Spawn q k)
    then show ?thesis using stuck less.prems task_spawn by metis
  next
    case (Join j k)
    have "i < j" "j < length ts"
      using assms(1) less.prems Join unfolding pool_ok_def
      by (metis greaterThanLessThan_iff joins_ok.simps(5))+
    then obtain r where "ts ! j = Done r" using less.hyps [of j] by (auto simp: diff_less_mono2)
    with Join show ?thesis using stuck less.prems \<open>j < length ts\<close> task_join by metis
  qed simp
qed

lemma weakly_decreasing_stable:
  assumes "wf r" "\<And>n. (u (Suc n), u n) \<in> r\<^sup>*"
  shows "\<exists>N. \<forall>k. u (N + k) = u (N :: nat)"
proof -
  obtain z where "z \<in> range u" and z: "\<And>y. (y, z) \<in> r\<^sup>+ \<Longrightarrow> y \<notin> range u"
    by (rule wfE_min [OF wf_trancl [OF assms(1)], of "u 0" "range u"]) auto
  then obtain N where N: "\<And>y. (y, u N) \<in> r\<^sup>+ \<Longrightarrow> y \<notin> range u" by blast
  have "(u (N + k), u N) \<in> r\<^sup>*" for k
    by (induction k) (use assms(2) in \<open>auto intro: rtrancl_trans\<close>)
  then show ?thesis using N by (metis rangeI rtranclD)
qed

text \<open>
  A schedule of a pool, in which the environment acts at will and tasks that can go on are not
  left waiting for ever: some time nothing changes any more, and then all tasks have ended, or one of
  them waits for something that may never come.
\<close>

lemma pool_runs_out:
  assumes "\<And>n. pool_step (c n) (c (Suc n))" "pool_ok (snd (c 0))"
    and "\<And>n. can_go_on (c n) \<Longrightarrow> \<exists>m i. n \<le> m \<and> task_step (c m) i (c (Suc m))"
  shows "\<exists>n. (\<forall>m \<ge> n. snd (c m) = snd (c n)) \<and> ((\<forall>p \<in> set (snd (c n)). \<exists>r. p = Done r) \<or> (\<exists>p \<in> set (snd (c n)). in_wait p))"
proof -
  have less: "task_step (c n) i (c (Suc n)) \<Longrightarrow> (snd (c (Suc n)), snd (c n)) \<in> pool_less" for n i
    by (metis prod.collapse task_step_less)
  have "(snd (c (Suc n)), snd (c n)) \<in> pool_less\<^sup>*" for n
    using assms(1) [of n] less by (auto simp: pool_step_def)
  then obtain N where N: "\<And>k. snd (c (N + k)) = snd (c N)"
    using weakly_decreasing_stable [OF wf_pool_less, of "\<lambda>n. snd (c n)"] by blast
  have "pool_ok (snd (c n))" for n
  proof (induction n)
    case (Suc n)
    then show ?case
      using assms(1) [of n] by (metis pool_step_def prod.collapse snd_conv task_step_ok)
  qed (rule assms(2))
  moreover have "\<not> can_go_on (c N)"
  proof
    assume "can_go_on (c N)"
    then obtain m i where m: "N \<le> m" "task_step (c m) i (c (Suc m))" using assms(3) by blast
    then have "snd (c (Suc m)) = snd (c m)"
      using N [of "m - N"] N [of "Suc m - N"] by simp
    then show False using less [OF m(2)] wf_pool_less by (metis wf_not_refl)
  qed
  ultimately have "(\<forall>p \<in> set (snd (c N)). \<exists>r. p = Done r) \<or> (\<exists>p \<in> set (snd (c N)). in_wait p)"
    using stuck_pool_done [of "snd (c N)" "fst (c N)"] by (metis in_set_conv_nth prod.collapse)
  then show ?thesis using N by (metis le_Suc_ex)
qed

subsection \<open>Schedules that compute\<close>

definition step_task :: "'s \<times> ('s, 'r) process list \<Rightarrow> nat \<Rightarrow> ('s \<times> ('s, 'r) process list) option" where
  "step_task c i =
     (case c of (s, ts) \<Rightarrow>
        if i < length ts then
          (case ts ! i of
             Done _ \<Rightarrow> None
           | Atom f \<Rightarrow> (case f s of (s', p) \<Rightarrow> Some (s', ts[i := p]))
           | Wait b p \<Rightarrow> if b s then Some (s, ts[i := p]) else None
           | Spawn q k \<Rightarrow> Some (s, ts[i := k (length ts)] @ [q])
           | Join j k \<Rightarrow>
               if j < length ts then (case ts ! j of Done r \<Rightarrow> Some (s, ts[i := k r]) | _ \<Rightarrow> None) else None)
        else None)"

lemma step_task_iff: "step_task c i = Some c' \<longleftrightarrow> task_step c i c'"
proof
  assume "step_task c i = Some c'"
  then show "task_step c i c'"
    by (cases c) (auto simp: step_task_def split: if_splits process.splits prod.splits
        intro: task_atom task_wait task_spawn task_join)
next
  assume "task_step c i c'"
  then show "step_task c i = Some c'"
    by (cases rule: task_step.cases) (auto simp: step_task_def)
qed

definition can_step :: "'s \<times> ('s, 'r) process list \<Rightarrow> nat \<Rightarrow> bool" where
  "can_step c i \<longleftrightarrow> step_task c i \<noteq> None"

text \<open>The first task that can go on does.\<close>

definition greedy :: "'s \<times> ('s, 'r) process list \<Rightarrow> 's \<times> ('s, 'r) process list" where
  "greedy c = (case List.find (can_step c) [0..<length (snd c)] of
      None \<Rightarrow> c
    | Some i \<Rightarrow> (case step_task c i of None \<Rightarrow> c | Some c' \<Rightarrow> c'))"

lemma can_step_length: "can_step c i \<Longrightarrow> i < length (snd c)"
  by (cases c) (auto simp: can_step_def step_task_def split: if_splits)

lemma greedy_cases:
  obtains i where "task_step c i (greedy c)" | "greedy c = c" "\<nexists>i d. task_step c i d"
proof (cases "List.find (can_step c) [0..<length (snd c)]")
  case None
  then have "\<not> can_step c i" for i
    using can_step_length [of c i] by (auto simp: find_None_iff)
  then have "\<nexists>i d. task_step c i d" by (auto simp: can_step_def simp flip: step_task_iff)
  with None show ?thesis by (intro that(2)) (auto simp: greedy_def)
next
  case (Some i)
  then have "can_step c i" by (auto simp: find_Some_iff)
  then obtain d where "step_task c i = Some d" by (auto simp: can_step_def)
  with Some show ?thesis by (intro that(1) [of i]) (auto simp: greedy_def simp flip: step_task_iff)
qed

lemma greedy_schedule:
  "pool_step ((greedy ^^ n) c) ((greedy ^^ Suc n) c)"
  "can_go_on ((greedy ^^ n) c) \<Longrightarrow> \<exists>m i. n \<le> m \<and> task_step ((greedy ^^ m) c) i ((greedy ^^ Suc m) c)"
proof -
  let ?c = "(greedy ^^ n) c"
  have "pool_step ?c (greedy ?c)"
    by (cases rule: greedy_cases [of ?c]) (auto simp: pool_step_def intro: prod.collapse [symmetric])
  then show "pool_step ((greedy ^^ n) c) ((greedy ^^ Suc n) c)" by simp
  show "\<exists>m i. n \<le> m \<and> task_step ((greedy ^^ m) c) i ((greedy ^^ Suc m) c)" if "can_go_on ?c"
    using that unfolding can_go_on_def by (cases rule: greedy_cases [of ?c]) auto
qed

lemma run_alone_Atom [simp]:
  "run_alone (Atom f) c = run_alone (snd (f (fst c))) (fst (f (fst c)), snd c)"
  by (simp add: case_prod_beta)

declare run_alone.simps(2) [simp del]

lemma run_alone_bind:
  "run_alone (bind_process p k) c = (case run_alone p c of (c', r) \<Rightarrow> run_alone (k r) c')"
proof (induction p arbitrary: c)
  case (Atom f)
  have "run_alone (bind_process (snd (f s)) k) c = (case run_alone (snd (f s)) c of (c', r) \<Rightarrow> run_alone (k r) c')" for s c
    by (rule Atom [of "f s"]) (auto simp: snds.simps)
  then show ?case by simp
qed (auto simp: Let_def case_prod_beta)

subsection \<open>Invariants\<close>

text \<open>Each step of a process keeps a property of the state, whatever the others do to it meanwhile.\<close>

primrec keeps :: "('s \<Rightarrow> bool) \<Rightarrow> ('s, 'r) process \<Rightarrow> bool" where
  "keeps I (Done r) = True"
| "keeps I (Atom f) = (\<forall>s. I s \<longrightarrow> (case map_prod id (keeps I) (f s) of (s', b) \<Rightarrow> I s' \<and> b))"
| "keeps I (Wait b p) = keeps I p"
| "keeps I (Spawn q k) = (keeps I q \<and> (\<forall>n. keeps I (k n)))"
| "keeps I (Join i k) = (\<forall>r. keeps I (k r))"

lemma keeps_Atom [simp]: "keeps I (Atom f) \<longleftrightarrow> (\<forall>s. I s \<longrightarrow> I (fst (f s)) \<and> keeps I (snd (f s)))"
  by (simp add: case_prod_beta)

declare keeps.simps(2) [simp del]

lemma keeps_bind: "keeps I p \<Longrightarrow> (\<And>r. keeps I (k r)) \<Longrightarrow> keeps I (bind_process p k)"
proof (induction p)
  case (Atom f)
  have "keeps I (bind_process (snd (f s)) k)" if "I s" for s
    using Atom.prems that by (intro Atom.IH [of "f s"]) (auto simp: snds.simps)
  then show ?case using Atom.prems by simp
qed auto

lemma task_step_keeps:
  assumes "task_step c i c'" "I (fst c)" "\<forall>p \<in> set (snd c). keeps I p"
  shows "I (fst c') \<and> (\<forall>p \<in> set (snd c'). keeps I p)"
  using assms(1)
proof (cases rule: task_step.cases)
  case (task_atom ts f s s' p)
  then have "keeps I (Atom f)" using assms(3) by (metis nth_mem snd_conv)
  then have "I s' \<and> keeps I p" using task_atom assms(2) by (metis fst_conv keeps_Atom snd_conv)
  then show ?thesis using task_atom assms(3) by (auto dest!: set_update_subset_insert [THEN subsetD])
next
  case (task_wait ts b p s)
  then have "keeps I (Wait b p)" using assms(3) by (metis nth_mem snd_conv)
  then show ?thesis using task_wait assms(2,3) by (auto dest!: set_update_subset_insert [THEN subsetD])
next
  case (task_spawn ts q k s)
  then have "keeps I (Spawn q k)" using assms(3) by (metis nth_mem snd_conv)
  then show ?thesis using task_spawn assms(2,3) by (auto dest!: set_update_subset_insert [THEN subsetD])
next
  case (task_join ts j k r s)
  then have "keeps I (Join j k)" using assms(3) by (metis nth_mem snd_conv)
  then show ?thesis using task_join assms(2,3) by (auto dest!: set_update_subset_insert [THEN subsetD])
qed

lemma pool_keeps:
  assumes "I (fst (c 0))" "\<forall>p \<in> set (snd (c 0)). keeps I p"
    and "\<And>n. (\<exists>i. task_step (c n) i (c (Suc n))) \<or> snd (c (Suc n)) = snd (c n) \<and> (I (fst (c n)) \<longrightarrow> I (fst (c (Suc n))))"
  shows "I (fst (c n))"
proof -
  have "I (fst (c n)) \<and> (\<forall>p \<in> set (snd (c n)). keeps I p)"
    by (induction n) (use assms task_step_keeps in \<open>blast, metis\<close>)
  then show ?thesis ..
qed

text \<open>A schedule as the list of the tasks that go on.\<close>

primrec follow :: "nat list \<Rightarrow> 's \<times> ('s, 'r) process list \<Rightarrow> ('s \<times> ('s, 'r) process list) option" where
  "follow [] c = Some c"
| "follow (i # is) c = Option.bind (step_task c i) (follow is)"

lemma follow_steps:
  "follow is c = Some d \<Longrightarrow> (\<lambda>c d. \<exists>i. task_step c i d)\<^sup>*\<^sup>* c d"
  by (induction "is" arbitrary: c)
     (auto simp: bind_eq_Some_conv step_task_iff intro: converse_rtranclp_into_rtranclp)

end
