(* ===== verification/Float_Arith.thy ===== *)
theory Float_Arith
  imports Values
begin

text \<open>
  Arithmetic on 64-bit floats as the action executor uses it: the exact result of a finite
  operation, rounded to the nearest float, ties to even, and too large a result as infinity.
\<close>

definition pow2 :: "int \<Rightarrow> rat" where
  "pow2 e = (if 0 \<le> e then 2 ^ nat e else 1 / 2 ^ nat (- e))"

text \<open>The exponent of the leading bit of a positive number.\<close>

definition leading_exp :: "rat \<Rightarrow> int" where
  "leading_exp q =
     (let e = bitlen (fst (quotient_of q)) - bitlen (snd (quotient_of q)) in
      if pow2 e \<le> q then e else e - 1)"

definition round_scaled :: "rat \<Rightarrow> nat" where
  "round_scaled q = round_half_even (nat (fst (quotient_of q))) (nat (snd (quotient_of q)))"

definition round_pos :: "rat \<Rightarrow> rat" where
  "round_pos q =
     (let e = max (leading_exp q - 52) (- 1074) in rat_of_nat (round_scaled (q / pow2 e)) * pow2 e)"

definition round_f64 :: "rat \<Rightarrow> f64" where
  "round_f64 q =
     (if q = 0 then Fin 0
      else let r = round_pos \<bar>q\<bar> in
        if r < 2 ^ 1024 then Fin (if q < 0 then - r else r)
        else if q < 0 then NegInf else PosInf)"

definition f64_op :: "(rat \<Rightarrow> rat \<Rightarrow> rat) \<Rightarrow> f64 \<Rightarrow> f64 \<Rightarrow> f64" where
  "f64_op op a b = (case (a, b) of (Fin p, Fin q) \<Rightarrow> round_f64 (op p q) | _ \<Rightarrow> NaN)"

text \<open>
  A JSON number is finite, so the operands are; other operands do not occur.
\<close>

definition to_json_number :: "f64 \<Rightarrow> json" where
  "to_json_number f =
     (case f of
        Fin q \<Rightarrow>
          if q = rat_of_int \<lfloor>q\<rfloor> \<and> - (2 ^ 63) \<le> q \<and> q \<le> 2 ^ 63 then
            let i = min \<lfloor>q\<rfloor> (2 ^ 63 - 1) in
            JNum (if 0 \<le> i then PosInt (nat i) else NegInt i)
          else JNum (Float f)
      | _ \<Rightarrow> JNull)"

subsection \<open>Integers of at most 53 bits are exact\<close>

lemma bitlen_pos: "0 < i \<Longrightarrow> 0 < bitlen i"
  using bitlen_nonneg [of i] bitlen_eq_zero_iff [of i] by linarith

lemma leading_exp_int:
  assumes "0 < i"
  shows "leading_exp (rat_of_int i) = bitlen i - 1"
proof -
  have "2 ^ nat (bitlen i - 1) \<le> i" using bitlen_bounds [OF assms] by simp
  then have "(2 :: rat) ^ nat (bitlen i - 1) \<le> rat_of_int i"
    by (metis of_int_le_iff of_int_numeral of_int_power)
  moreover have "0 < bitlen i" "bitlen 1 = 1"
    using assms bitlen_twopow_add_eq [of 0 0] by (simp_all add: bitlen_pos)
  ultimately show ?thesis using assms by (simp add: leading_exp_def Let_def pow2_def)
qed

lemma round_scaled_nat: "round_scaled (rat_of_nat n) = n"
  by (simp add: round_scaled_def round_half_even_def)

lemma round_pos_exact:
  assumes "q / pow2 (max (leading_exp q - 52) (- 1074)) = rat_of_nat n"
  shows "round_pos q = q"
proof -
  let ?e = "max (leading_exp q - 52) (- 1074)"
  have "pow2 ?e \<noteq> 0" by (simp add: pow2_def)
  then have "rat_of_nat n * pow2 ?e = q" using assms by (simp add: field_simps)
  then show ?thesis by (simp add: round_pos_def Let_def assms round_scaled_nat)
qed

lemma round_pos_int:
  assumes "0 < i" "i \<le> 2 ^ 53"
  shows "round_pos (rat_of_int i) = rat_of_int i"
proof (cases "i = 2 ^ 53")
  case True
  have "bitlen i = 54" using bitlen_twopow_add_eq [of 0 53] True by simp
  then have "max (leading_exp (rat_of_int i) - 52) (- 1074) = 1"
    using leading_exp_int [OF assms(1)] by simp
  then have "rat_of_int i / pow2 (max (leading_exp (rat_of_int i) - 52) (- 1074)) = rat_of_nat (2 ^ 52)"
    unfolding True by (simp add: pow2_def)
  then show ?thesis by (rule round_pos_exact)
next
  case False
  then have "bitlen i \<le> 53" using assms bitlen_le_iff_power [of i 53] by simp
  moreover have "0 < bitlen i" using assms(1) by (simp add: bitlen_pos)
  ultimately have e: "max (leading_exp (rat_of_int i) - 52) (- 1074) = - int (nat (53 - bitlen i))"
    unfolding leading_exp_int [OF assms(1)] by simp
  have "rat_of_int i / pow2 (- int k) = rat_of_nat (nat i * 2 ^ k)" for k
    using assms(1) by (simp add: pow2_def)
  then show ?thesis by (intro round_pos_exact) (simp only: e)
qed

lemma round_f64_int:
  assumes "\<bar>i\<bar> \<le> 2 ^ 53"
  shows "round_f64 (rat_of_int i) = Fin (rat_of_int i)"
proof (cases "i = 0")
  case False
  have "round_pos \<bar>rat_of_int i\<bar> = \<bar>rat_of_int i\<bar>"
    using round_pos_int [of "\<bar>i\<bar>"] False assms by simp
  moreover have "\<bar>rat_of_int i\<bar> < 2 ^ 1024"
  proof -
    have "\<bar>rat_of_int i\<bar> \<le> 2 ^ 53" using assms by (metis of_int_abs of_int_le_iff of_int_numeral of_int_power)
    moreover have "(2 :: rat) ^ 53 < 2 ^ 1024" by (rule power_strict_increasing) simp_all
    ultimately show ?thesis by linarith
  qed
  ultimately show ?thesis using False by (simp add: round_f64_def Let_def)
qed (simp add: round_f64_def)

text \<open>The JSON number of an integer.\<close>

definition json_int :: "int \<Rightarrow> json" where
  "json_int i = JNum (if 0 \<le> i then PosInt (nat i) else NegInt i)"

lemma as_f64_json_int: "\<bar>i\<bar> \<le> 2 ^ 53 \<Longrightarrow> as_f64 (json_int i) = Some (Fin (rat_of_int i))"
  using f64_of_nat_exact [of "nat i"] f64_of_int_exact [of i] by (auto simp: json_int_def)

lemma to_json_number_int:
  assumes "\<bar>i\<bar> \<le> 2 ^ 53"
  shows "to_json_number (Fin (rat_of_int i)) = json_int i"
proof -
  have "\<bar>i\<bar> < 2 ^ 63" using assms power_strict_increasing [of 53 63 "2 :: int"] by simp
  then have "- (2 ^ 63) < rat_of_int i" "rat_of_int i < 2 ^ 63" "min i (2 ^ 63 - 1) = i"
    by (simp_all add: abs_less_iff min_def)
  then show ?thesis by (simp add: to_json_number_def json_int_def Let_def)
qed

lemma f64_op_int:
  assumes "\<bar>k\<bar> \<le> 2 ^ 53" "op (rat_of_int i) (rat_of_int j) = rat_of_int k"
  shows "to_json_number (f64_op op (Fin (rat_of_int i)) (Fin (rat_of_int j))) = json_int k"
  using round_f64_int [OF assms(1)] to_json_number_int [OF assms(1)] by (simp add: f64_op_def assms(2))

end
