(* ===== verification/Executor.thy ===== *)
theory Executor
  imports Conditions Timers Process Float_Arith
begin

text \<open>
  The action executor (\<open>hc-core/src/executor.rs\<close>): what the actions of a firing do. An async
  function of the source is a process, whose steps other tasks may come between; \<open>tokio::spawn\<close>
  makes a task of the pool. What a run does to the outside is a list of outputs in the shared
  state, sleeps among them; how long a wait really takes is not modelled.

  Calls out of the repository are fields of \<open>exec_ext\<close>: MQTT, HTTP and ping results, random
  UUIDs, the script interpreter and text forms. They may depend on everything that was put out
  before. A panic (a byte slice that cuts a character) ends the task it happens in.
\<close>

subsection \<open>State and context\<close>

datatype exec_error = Failed string | Panicked string

datatype script_effect =
    SeSetDeviceState string json
  | SeNotify string string string
  | SePublishMqtt string string
  | SeCallService string string string

record scene =
  scn_name :: string
  scn_states :: "(string \<times> json) list"

datatype exec_output =
    OMqtt string json bool
  | OMqttText string string bool
  | OEvent event
  | OCommandSent string json uuid "string option"
  | OActionFailed uuid nat string string
  | OSceneActivated uuid string
  | ONotify string string string
  | OHttp string string "json option"
  | OPing string nat nat
  | OLog log_level string
  | OSleep nat
  | OIgnore alert_ignore
  | ORulesChanged

datatype http_result = HttpError string | HttpResponse nat string json

record exec_ext =
  xe :: externals
  xe_publish_error :: "exec_output list \<Rightarrow> string option"
  xe_store_error :: "exec_output list \<Rightarrow> string option"
  xe_http :: "exec_output list \<Rightarrow> http_result"
  xe_ping :: "exec_output list \<Rightarrow> bool \<times> f64 option"
  xe_wait_cleared :: "exec_output list \<Rightarrow> bool"
  xe_new_uuid :: "nat \<Rightarrow> string"
  xe_run_script :: "string \<Rightarrow> snapshot \<Rightarrow> trigger_context \<Rightarrow> (string \<rightharpoonup> json) \<Rightarrow> (string \<rightharpoonup> json) \<Rightarrow>
    (string, script_effect list) result"
  xe_show_hm :: "timestamp \<Rightarrow> string"
  xe_to_uppercase :: "string \<Rightarrow> string"
  xe_trim :: "string \<Rightarrow> string"
  xe_condition_json :: "condition \<Rightarrow> string"
  xe_condition_key :: "condition \<Rightarrow> string option"
  xe_event_json :: "timestamp \<Rightarrow> event \<Rightarrow> json"
  xe_join_error :: "string \<Rightarrow> string"

text \<open>
  The shared state: the engine's maps, the world, what was put out, and the objects a context
  owns (its exit flag, the alert it is on and its trace), by the context's number.
\<close>

record exec_state =
  es_engine :: engine
  es_world :: world
  es_scenes :: "uuid \<rightharpoonup> scene"
  es_out :: "exec_output list"
  es_exit :: "nat \<Rightarrow> bool"
  es_current_alert :: "nat \<Rightarrow> alert option"
  es_trace :: "nat \<Rightarrow> action_trace list"
  es_next :: nat

record ectx =
  cx_id :: nat
  cx_publish :: bool
  cx_notify :: bool
  cx_event_bus :: bool
  cx_state :: bool
  cx_trigger_ctx :: trigger_context
  cx_rule_id :: uuid
  cx_rule_name :: string
  cx_trace :: bool
  cx_correlation_id :: "string option"
  cx_judge :: "(uuid \<times> string option) option"

type_synonym exec_result = "(exec_error, unit) result"
type_synonym proc = "(exec_state, exec_result) process"

definition MAX_CALL_DEPTH :: nat where
  "MAX_CALL_DEPTH = 10"

definition emit :: "exec_output \<Rightarrow> exec_state \<Rightarrow> exec_state" where
  "emit out s = s\<lparr>es_out := es_out s @ [out]\<rparr>"

definition on_engine :: "(engine \<Rightarrow> engine) \<Rightarrow> exec_state \<Rightarrow> exec_state" where
  "on_engine f s = s\<lparr>es_engine := f (es_engine s)\<rparr>"

definition ok :: proc where
  "ok = Done (Inr ())"

definition failed :: "string \<Rightarrow> proc" where
  "failed e = Done (Inl (Failed e))"

definition andthen :: "proc \<Rightarrow> proc \<Rightarrow> proc" where
  "andthen p q = bind_process p (\<lambda>r. case r of Inl e \<Rightarrow> Done (Inl e) | Inr _ \<Rightarrow> q)"

definition step :: "(exec_state \<Rightarrow> exec_state) \<Rightarrow> proc" where
  "step f = act f (Inr ())"

definition effect :: "(exec_state \<Rightarrow> exec_state \<times> exec_result) \<Rightarrow> proc" where
  "effect f = Atom (\<lambda>s. map_prod id Done (f s))"

text \<open>A wait that leaves the state alone: a point where others go on.\<close>

definition await :: proc where
  "await = step id"

text \<open>A wait without a timeout: it goes on only once a condition holds, which may be never.\<close>

definition await_until :: "(exec_state \<Rightarrow> bool) \<Rightarrow> proc" where
  "await_until b = Wait b ok"

definition sleep_ms :: "nat \<Rightarrow> proc" where
  "sleep_ms ms = step (emit (OSleep ms))"

definition exits :: "ectx \<Rightarrow> exec_state \<Rightarrow> bool" where
  "exits cx s = es_exit s (cx_id cx)"

text \<open>\<open>&s[..n]\<close> of a longer text: a panic inside a character.\<close>

definition byte_prefix :: "nat \<Rightarrow> string \<Rightarrow> string option" where
  "byte_prefix n s =
     (if n < length s then if is_char_boundary s n then Some (take n s) else None else Some s)"

subsection \<open>Helpers\<close>

definition log_name :: "ectx \<Rightarrow> exec_state \<Rightarrow> string \<Rightarrow> string" where
  "log_name cx s device_id = (if cx_state cx then device_log_name (es_world s) device_id else device_id)"

definition rule_change :: "exec_ext \<Rightarrow> ectx \<Rightarrow> timestamp \<Rightarrow> string \<Rightarrow> device_change" where
  "rule_change x cx now source =
     (device_change_homecore now source)
       \<lparr>dc_actor_id := Some (show_uuid (xe x) (cx_rule_id cx)), dc_actor_name := Some (cx_rule_name cx),
        dc_correlation_id := cx_correlation_id cx\<rparr>"

definition live_alert :: "exec_state \<Rightarrow> string \<Rightarrow> alert option" where
  "live_alert s i = Option.bind (w_alerts (es_world s)) (List.find (\<lambda>a. al_id a = i))"

definition the_alert :: "exec_ext \<Rightarrow> ectx \<Rightarrow> string option \<Rightarrow> exec_state \<Rightarrow> alert option" where
  "the_alert x cx alert_id s =
     (case alert_id of
        Some i \<Rightarrow> live_alert s i
      | None \<Rightarrow>
          case es_current_alert s (cx_id cx) of
            Some a \<Rightarrow> option_or (live_alert s (al_id a)) (Some a)
          | None \<Rightarrow>
              Option.bind (Option.bind (Option.bind (tc_extra (cx_trigger_ctx cx)) (\<lambda>e. json_get e ''alert''))
                  (alert_of_json (xe x)))
                (\<lambda>started. option_or (live_alert s (al_id started)) (Some started)))"

text \<open>\<open>str::replace\<close>: every occurrence from the left, none inside another.\<close>

function str_replace :: "string \<Rightarrow> string \<Rightarrow> string \<Rightarrow> string" where
  "str_replace pat rep s =
     (if s = [] \<or> pat = [] then s
      else if starts_with pat s then rep @ str_replace pat rep (drop (length pat) s)
      else hd s # str_replace pat rep (tl s))"
  by pat_completeness auto
termination
  by (relation "measure (\<lambda>(_, _, s). length s)") auto

declare str_replace.simps [simp del]

definition fill_alert :: "exec_ext \<Rightarrow> ectx \<Rightarrow> exec_state \<Rightarrow> string \<Rightarrow> string" where
  "fill_alert x cx s txt =
     (if \<not> str_contains ''{alert.'' txt then txt
      else case the_alert x cx None s of
        None \<Rightarrow> txt
      | Some a \<Rightarrow>
          let device = (if cx_state cx then
                case w_devices (es_world s) (al_device_id a) of Some d \<Rightarrow> unwrap_or (sd_name_override d) (sd_name d) | None \<Rightarrow> al_device_id a
              else al_device_id a) in
          fold (\<lambda>(k, v) t. str_replace k v t)
            [(''{alert.message}'', al_message a), (''{alert.reason}'', al_reason a), (''{alert.device}'', device),
             (''{alert.device_id}'', al_device_id a),
             (''{alert.kind}'', unwrap_or (al_topic a) (alert_kind_as_str (al_kind a))),
             (''{alert.key}'', unwrap_or (al_key a) []), (''{alert.severity}'', severity_as_str (al_severity a)),
             (''{alert.raised_at}'', xe_show_hm x (al_raised_at a)), (''{alert.id}'', al_id a)] txt)"

definition with_command_change_metadata :: "externals \<Rightarrow> json \<Rightarrow> device_change \<Rightarrow> json" where
  "with_command_change_metadata x payload change =
     (case payload of
        JObj kvs \<Rightarrow>
          let hc = (case map_of kvs ''_hc'' of Some (JObj h) \<Rightarrow> h | _ \<Rightarrow> []);
              hc' = obj_insert ''command'' (device_change_to_json x change) hc;
              kvs' = obj_insert ''_hc'' (JObj hc') (filter (\<lambda>(k, _). k \<noteq> ''_hc'') kvs) in
          JObj (if map_of kvs' ''correlation_id'' = None then
                  case dc_correlation_id change of
                    Some c \<Rightarrow> obj_insert ''correlation_id'' (JStr c) kvs'
                  | None \<Rightarrow> kvs'
                else kvs')
      | _ \<Rightarrow> payload)"

definition publish_to :: "exec_ext \<Rightarrow> exec_output \<Rightarrow> exec_state \<Rightarrow> exec_state \<times> exec_result" where
  "publish_to x out s =
     (case xe_publish_error x (es_out s) of
        Some e \<Rightarrow> (s, Inl (Failed e))
      | None \<Rightarrow> (emit out s, Inr ()))"

definition cmd_topic :: "string \<Rightarrow> string" where
  "cmd_topic device_id = ''homecore/devices/'' @ device_id @ ''/cmd''"

definition publish_device_command ::
  "exec_ext \<Rightarrow> ectx \<Rightarrow> string \<Rightarrow> json \<Rightarrow> device_change \<Rightarrow> exec_state \<Rightarrow> exec_state \<times> exec_result"
where
  "publish_device_command x cx device_id payload change s =
     (let payload' = with_command_change_metadata (xe x) payload change;
          r = (if cx_publish cx then publish_to x (OMqtt (cmd_topic device_id) payload' False) s
               else (s, Inr ())) in
      case snd r of
        Inl e \<Rightarrow> (fst r, Inl e)
      | Inr _ \<Rightarrow>
          ((if cx_event_bus cx then
              emit (OCommandSent device_id payload' (cx_rule_id cx) (cx_correlation_id cx)) (fst r)
            else fst r), Inr ()))"

definition send_command :: "exec_ext \<Rightarrow> ectx \<Rightarrow> string \<Rightarrow> json \<Rightarrow> proc" where
  "send_command x cx device_id payload =
     effect (\<lambda>s. publish_device_command x cx device_id payload (rule_change x cx (w_now (es_world s)) ''rule'') s)"

definition mirrored :: "json \<Rightarrow> trigger_context \<Rightarrow> json" where
  "mirrored state trigger =
     (case tc_value trigger of
        None \<Rightarrow> state
      | Some value \<Rightarrow>
          (case value of
             JObj _ \<Rightarrow> value
           | _ \<Rightarrow>
               (case state of
                  JObj [(key, _)] \<Rightarrow> JObj [(key, value)]
                | _ \<Rightarrow>
                    (case tc_attribute trigger of
                       Some a \<Rightarrow> JObj [(a, value)]
                     | None \<Rightarrow> state))))"

text \<open>
  The checks of an if/otherwise: the engine's judge, or without one the kinds that need only the
  devices and the clock.
\<close>

definition eval_script :: "exec_ext \<Rightarrow> snapshot \<Rightarrow> string \<Rightarrow> (exec_error, bool) result" where
  "eval_script x snap script =
     (case eval_condition_script (xe x) script snap Map.empty trigger_context_default of
        Inl e \<Rightarrow> Inl (Failed e) | Inr b \<Rightarrow> Inr b)"

fun check_passes :: "exec_ext \<Rightarrow> world \<Rightarrow> snapshot \<Rightarrow> condition \<Rightarrow> (exec_error, bool) result"
and check_all :: "exec_ext \<Rightarrow> world \<Rightarrow> snapshot \<Rightarrow> condition list \<Rightarrow> (exec_error, bool) result"
and check_any :: "exec_ext \<Rightarrow> world \<Rightarrow> snapshot \<Rightarrow> condition list \<Rightarrow> (exec_error, bool) result"
and check_count :: "exec_ext \<Rightarrow> world \<Rightarrow> snapshot \<Rightarrow> condition list \<Rightarrow> (exec_error, nat) result"
where
  "check_passes x w snap (CoDeviceState d a op v) =
     Inr (case Option.bind (snap d) (\<lambda>attrs. attrs a) of Some actual \<Rightarrow> compare actual op v | None \<Rightarrow> False)"
| "check_passes x w snap (CoModeIs m on) =
     Inr (unwrap_or (Option.bind (Option.bind (snap m) (\<lambda>attrs. attrs ''on'')) as_bool) False = on)"
| "check_passes x w snap (CoTimeWindow start end') = Inr (in_time_window start end' (w_time w))"
| "check_passes x w snap (CoScriptExpression script) = eval_script x snap script"
| "check_passes x w snap (CoAnd cs) = check_all x w snap cs"
| "check_passes x w snap (CoOr cs) = check_any x w snap cs"
| "check_passes x w snap (CoXor cs) = try_bind (check_count x w snap cs) (\<lambda>yes. Inr (yes = 1))"
| "check_passes x w snap (CoNot c) = try_bind (check_passes x w snap c) (\<lambda>b. Inr (\<not> b))"
| "check_passes x w snap c =
     Inl (Failed (''an if/otherwise can't ask '' @ unwrap_or (xe_condition_key x c) ''this'' @ '' ''
       @ [CHR 0xE2, CHR 0x80, CHR 0x94] @ '' use a rule condition for that''))"
| "check_all x w snap [] = Inr True"
| "check_all x w snap (c # cs) =
     try_bind (check_passes x w snap c) (\<lambda>b. if b then check_all x w snap cs else Inr False)"
| "check_any x w snap [] = Inr False"
| "check_any x w snap (c # cs) =
     try_bind (check_passes x w snap c) (\<lambda>b. if b then Inr True else check_any x w snap cs)"
| "check_count x w snap [] = Inr 0"
| "check_count x w snap (c # cs) =
     try_bind (check_passes x w snap c) (\<lambda>b.
       try_bind (check_count x w snap cs) (\<lambda>n. Inr (if b then Suc n else n)))"

definition if_passes :: "exec_ext \<Rightarrow> ectx \<Rightarrow> snapshot \<Rightarrow> if_check \<Rightarrow> exec_state \<Rightarrow> (exec_error, bool) result" where
  "if_passes x cx snap check s =
     (case check of
        IfScript script \<Rightarrow> eval_script x snap script
      | IfCheck cond \<Rightarrow>
          (case cx_judge cx of
             None \<Rightarrow> check_passes x (es_world s) snap cond
           | Some (rid, trig) \<Rightarrow>
               (case evaluate_one (xe x) (es_world s) (es_engine s) rid snap trig cond of
                  Inl (ScriptError e) \<Rightarrow> Inl (Failed e)
                | Inl (Panic e) \<Rightarrow> Inl (Panicked e)
                | Inr (passed, _) \<Rightarrow> Inr passed)))"

text \<open>Variables.\<close>

definition apply_variable_op :: "variable_op \<Rightarrow> json option \<Rightarrow> json \<Rightarrow> json" where
  "apply_variable_op op prev value =
     (let current = unwrap_or (Option.bind prev as_f64) (Fin 0);
          arg = (\<lambda>d. unwrap_or (as_f64 value) (Fin d)) in
      case op of
        VSet \<Rightarrow> value
      | VToggle \<Rightarrow> JBool (\<not> unwrap_or (Option.bind prev as_bool) False)
      | VAdd \<Rightarrow> to_json_number (f64_op (+) current (arg 0))
      | VSubtract \<Rightarrow> to_json_number (f64_op (-) current (arg 0))
      | VMultiply \<Rightarrow> to_json_number (f64_op (*) current (arg 1))
      | VDivide \<Rightarrow> if f64_eq (arg 1) (Fin 0) then JNull else to_json_number (f64_op (/) current (arg 1)))"

subsection \<open>Descriptions for the trace\<close>

definition variable_op_debug :: "variable_op \<Rightarrow> string" where
  "variable_op_debug op =
     (case op of VSet \<Rightarrow> ''Set'' | VAdd \<Rightarrow> ''Add'' | VSubtract \<Rightarrow> ''Subtract'' | VMultiply \<Rightarrow> ''Multiply''
      | VDivide \<Rightarrow> ''Divide'' | VToggle \<Rightarrow> ''Toggle'')"

definition log_level_debug :: "log_level \<Rightarrow> string" where
  "log_level_debug l =
     (case l of LTrace \<Rightarrow> ''Trace'' | LDebug \<Rightarrow> ''Debug'' | LInfo \<Rightarrow> ''Info'' | LWarn \<Rightarrow> ''Warn'' | LError \<Rightarrow> ''Error'')"

definition mode_command_debug :: "mode_command \<Rightarrow> string" where
  "mode_command_debug c = (case c of ModeOn \<Rightarrow> ''On'' | ModeOff \<Rightarrow> ''Off'' | ModeToggle \<Rightarrow> ''Toggle'')"

definition action_type_name :: "action \<Rightarrow> string" where
  "action_type_name a =
     (case a of
        AcSetDeviceState _ _ _ \<Rightarrow> ''SetDeviceState'' | AcPublishMqtt _ _ _ \<Rightarrow> ''PublishMqtt''
      | AcCallService _ _ _ _ _ _ \<Rightarrow> ''CallService'' | AcFireEvent _ _ \<Rightarrow> ''FireEvent''
      | AcRunScript _ \<Rightarrow> ''RunScript'' | AcNotify _ _ _ \<Rightarrow> ''Notify'' | AcDelay _ _ _ \<Rightarrow> ''Delay''
      | AcParallel _ \<Rightarrow> ''Parallel'' | AcRepeatUntil _ _ _ _ \<Rightarrow> ''RepeatUntil''
      | AcRepeatWhile _ _ _ _ \<Rightarrow> ''RepeatWhile'' | AcRepeatCount _ _ _ \<Rightarrow> ''RepeatCount''
      | AcConditional _ _ _ _ \<Rightarrow> ''Conditional'' | AcStopRuleChain \<Rightarrow> ''StopRuleChain''
      | AcExitRule \<Rightarrow> ''ExitRule'' | AcComment _ \<Rightarrow> ''Comment'' | AcLogMessage _ _ \<Rightarrow> ''LogMessage''
      | AcSetPrivateBoolean _ _ \<Rightarrow> ''SetPrivateBoolean'' | AcSetVariable _ _ _ \<Rightarrow> ''SetVariable''
      | AcPauseRule _ \<Rightarrow> ''PauseRule'' | AcResumeRule _ \<Rightarrow> ''ResumeRule'' | AcCancelDelays _ \<Rightarrow> ''CancelDelays''
      | AcCancelRuleTimers _ \<Rightarrow> ''CancelRuleTimers'' | AcRunRuleActions _ \<Rightarrow> ''RunRuleActions''
      | AcWaitForEvent _ _ _ _ \<Rightarrow> ''WaitForEvent'' | AcWaitForExpression _ _ _ _ \<Rightarrow> ''WaitForExpression''
      | AcSetDeviceStatePerMode _ _ _ \<Rightarrow> ''SetDeviceStatePerMode'' | AcPingHost _ _ _ _ _ _ \<Rightarrow> ''PingHost''
      | AcCaptureDeviceState _ _ \<Rightarrow> ''CaptureDeviceState'' | AcRestoreDeviceState _ \<Rightarrow> ''RestoreDeviceState''
      | AcFadeDevice _ _ _ _ \<Rightarrow> ''FadeDevice'' | AcDelayPerMode _ _ \<Rightarrow> ''DelayPerMode''
      | AcSetHubVariable _ _ _ \<Rightarrow> ''SetHubVariable'' | AcActivateScenePerMode _ _ \<Rightarrow> ''ActivateScenePerMode''
      | AcSetMode _ _ \<Rightarrow> ''SetMode'' | AcForEachAlert _ _ \<Rightarrow> ''ForEachAlert'' | AcPressAlert _ \<Rightarrow> ''PressAlert''
      | AcWaitAlertCleared _ _ _ \<Rightarrow> ''WaitAlertCleared'' | AcAcknowledgeAlert _ \<Rightarrow> ''AcknowledgeAlert''
      | AcSkipAlert _ \<Rightarrow> ''SkipAlert'' | AcIgnoreAlerts _ _ _ \<Rightarrow> ''IgnoreAlerts'')"

definition assignment_text :: "exec_ext \<Rightarrow> string \<Rightarrow> json \<Rightarrow> variable_op option \<Rightarrow> string" where
  "assignment_text x name value op =
     (case op of
        None \<Rightarrow> name @ '' = '' @ show_json (xe x) value
      | Some VSet \<Rightarrow> name @ '' = '' @ show_json (xe x) value
      | Some o' \<Rightarrow> name @ '' '' @ variable_op_debug o' @ ''= '' @ show_json (xe x) value)"

definition describe_check :: "exec_ext \<Rightarrow> if_check \<Rightarrow> string" where
  "describe_check x c = (case c of IfScript s \<Rightarrow> s | IfCheck cond \<Rightarrow> xe_condition_json x cond)"

text \<open>\<open>chars().take(n)\<close>: the bytes before the character that is number \<open>n\<close>.\<close>

fun chars_take :: "nat \<Rightarrow> string \<Rightarrow> string" where
  "chars_take n [] = []"
| "chars_take n (c # cs) =
     (if 0x80 \<le> byte c \<and> byte c < 0xC0 then c # chars_take n cs
      else case n of 0 \<Rightarrow> [] | Suc m \<Rightarrow> c # chars_take m cs)"

definition modes_text :: "string list \<Rightarrow> string" where
  "modes_text modes = ''['' @ join_with '', '' modes @ '']''"

definition left_arrow :: string where
  "left_arrow = [CHR 0xE2, CHR 0x86, CHR 0x90]"

text \<open>\<open>None\<close> is a panic.\<close>

definition action_description :: "exec_ext \<Rightarrow> ectx \<Rightarrow> exec_state \<Rightarrow> action \<Rightarrow> string option" where
  "action_description x cx s a =
     (let dev = log_name cx s; uu = show_uuid (xe x) in
      case a of
        AcSetDeviceState d state track \<Rightarrow>
          Some (dev d @ '' '' @ left_arrow @ '' '' @ (if track then ''(trigger value)'' else show_json (xe x) state))
      | AcPublishMqtt topic _ _ \<Rightarrow> Some (''topic: '' @ topic)
      | AcCallService url method _ _ _ _ \<Rightarrow> Some (method @ '' '' @ url)
      | AcFireEvent event_type _ \<Rightarrow> Some (''event: '' @ event_type)
      | AcRunScript script \<Rightarrow> byte_prefix 60 script
      | AcNotify channel message _ \<Rightarrow>
          map_option (\<lambda>m. ''['' @ channel @ ''] '' @ m) (byte_prefix 60 message)
      | AcDelay secs cancelable key \<Rightarrow>
          Some (show_nat secs @ (if cancelable then ''s (cancelable: '' @ unwrap_or key ''auto'' @ '')'' else ''s''))
      | AcParallel as \<Rightarrow> Some (show_nat (length as) @ '' actions'')
      | AcRepeatUntil _ _ mx _ \<Rightarrow>
          Some (case mx of Some n \<Rightarrow> ''max '' @ show_nat n @ '' iterations'' | None \<Rightarrow> ''no limit'')
      | AcRepeatWhile _ _ mx _ \<Rightarrow>
          Some (case mx of Some n \<Rightarrow> ''max '' @ show_nat n @ '' iterations'' | None \<Rightarrow> ''no limit'')
      | AcRepeatCount n _ _ \<Rightarrow> Some (show_nat n @ '' times'')
      | AcConditional c _ _ _ \<Rightarrow> Some (''if '' @ chars_take 60 (describe_check x c))
      | AcComment txt \<Rightarrow> Some txt
      | AcLogMessage message level \<Rightarrow>
          Some (case level of Some l \<Rightarrow> ''['' @ log_level_debug l @ ''] '' @ message | None \<Rightarrow> message)
      | AcSetPrivateBoolean name value \<Rightarrow> Some (name @ '' = '' @ show_bool value)
      | AcSetVariable name value op \<Rightarrow> Some (assignment_text x name value op)
      | AcPauseRule r \<Rightarrow> Some (uu r)
      | AcResumeRule r \<Rightarrow> Some (uu r)
      | AcCancelDelays key \<Rightarrow> Some (unwrap_or key ''all'')
      | AcCancelRuleTimers r \<Rightarrow> Some (case r of Some i \<Rightarrow> uu i | None \<Rightarrow> ''self'')
      | AcRunRuleActions r \<Rightarrow> Some (uu r)
      | AcWaitForEvent event_type device _ timeout \<Rightarrow>
          let what = (case event_type of Some e \<Rightarrow> e | None \<Rightarrow>
                (case device of Some d \<Rightarrow> dev d | None \<Rightarrow> ''any'')) in
          Some (case timeout of Some t \<Rightarrow> what @ '' (timeout: '' @ show_nat t @ ''ms)'' | None \<Rightarrow> what)
      | AcWaitForExpression expression _ timeout _ \<Rightarrow>
          map_option (\<lambda>e. case timeout of Some t \<Rightarrow> e @ '' (timeout: '' @ show_nat t @ ''ms)'' | None \<Rightarrow> e)
            (byte_prefix 60 expression)
      | AcStopRuleChain \<Rightarrow> Some []
      | AcExitRule \<Rightarrow> Some []
      | AcPingHost host cnt timeout _ _ _ \<Rightarrow>
          Some (host @ '' ('' @ show_nat (unwrap_or cnt 1) @ [CHR 0xC3, CHR 0x97] @ '' / ''
                @ show_nat (unwrap_or timeout 3000) @ ''ms)'')
      | AcSetDeviceStatePerMode d modes def \<Rightarrow>
          Some (dev d @ '' (modes: '' @ modes_text (map mse_mode modes)
                @ (case def of Some _ \<Rightarrow> '' + default)'' | None \<Rightarrow> '')''))
      | AcCaptureDeviceState key ds \<Rightarrow> Some (''key='' @ key @ '' devices=['' @ join_with '', '' (map dev ds) @ '']'')
      | AcRestoreDeviceState key \<Rightarrow> Some (''key='' @ key)
      | AcFadeDevice d _ secs n_steps \<Rightarrow>
          Some (dev d @ '' over '' @ show_nat secs @ ''s ('' @ show_nat (unwrap_or n_steps secs) @ '' steps)'')
      | AcDelayPerMode modes def \<Rightarrow>
          Some (''modes: '' @ modes_text (map mde_mode modes)
                @ (case def of Some d \<Rightarrow> '' default: '' @ show_nat d @ ''s'' | None \<Rightarrow> []))
      | AcSetHubVariable name value op \<Rightarrow> Some (''hub.'' @ assignment_text x name value op)
      | AcActivateScenePerMode modes def \<Rightarrow>
          Some (''modes: '' @ modes_text (map msce_mode modes)
                @ (case def of Some i \<Rightarrow> '' default: '' @ uu i | None \<Rightarrow> []))
      | AcSetMode mode command \<Rightarrow> Some (mode @ '' '' @ mode_command_debug command)
      | AcForEachAlert _ as \<Rightarrow> Some (''for each alert like that: '' @ show_nat (length as) @ '' steps'')
      | AcPressAlert i \<Rightarrow> Some (''press '' @ unwrap_or i ''the alert'')
      | AcWaitAlertCleared i secs _ \<Rightarrow>
          Some (''until '' @ unwrap_or i ''the alert'' @ '' clears, at most '' @ show_nat secs @ ''s'')
      | AcAcknowledgeAlert i \<Rightarrow> Some (''mark '' @ unwrap_or i ''the alert'' @ '' seen'')
      | AcSkipAlert i \<Rightarrow> Some (''skip '' @ unwrap_or i ''the alert'')
      | AcIgnoreAlerts _ minutes _ \<Rightarrow>
          Some (''ignore alerts like that'' @ (case minutes of Some m \<Rightarrow> '' for '' @ show_nat m @ '' min'' | None \<Rightarrow> [])))"

subsection \<open>Actions without actions inside\<close>

definition publish_result :: "ectx \<Rightarrow> exec_ext \<Rightarrow> exec_output \<Rightarrow> proc" where
  "publish_result cx x out = (if cx_publish cx then effect (publish_to x out) else ok)"

text \<open>A publish whose failure is ignored.\<close>

definition publish_quietly :: "ectx \<Rightarrow> exec_ext \<Rightarrow> exec_output \<Rightarrow> exec_state \<Rightarrow> exec_state" where
  "publish_quietly cx x out s = (if cx_publish cx then fst (publish_to x out s) else s)"

definition emit_event :: "ectx \<Rightarrow> event \<Rightarrow> exec_state \<Rightarrow> exec_state" where
  "emit_event cx e s = (if cx_event_bus cx then emit (OEvent e) s else s)"

definition events_topic :: "string \<Rightarrow> string" where
  "events_topic event_type = ''homecore/events/'' @ event_type"

definition do_fire_event :: "exec_ext \<Rightarrow> ectx \<Rightarrow> string \<Rightarrow> json \<Rightarrow> proc" where
  "do_fire_event x cx event_type payload =
     andthen (publish_result cx x (OMqtt (events_topic event_type) payload False))
       (step (emit_event cx (EvCustom event_type payload)))"

text \<open>An event to the bus and, as JSON, to MQTT.\<close>

definition announce :: "exec_ext \<Rightarrow> ectx \<Rightarrow> string \<Rightarrow> json \<Rightarrow> exec_state \<Rightarrow> exec_state" where
  "announce x cx event_type payload s =
     (let e = EvCustom event_type payload in
      publish_quietly cx x (OMqtt (events_topic event_type) (xe_event_json x (w_now (es_world s)) e) False)
        (emit_event cx e s))"

definition http_body :: "string \<Rightarrow> json \<Rightarrow> json option option" where
  "http_body method body =
     (if method \<in> {''GET'', ''DELETE''} then Some None
      else if method \<in> {''POST'', ''PUT'', ''PATCH''} then Some (Some body)
      else None)"

text \<open>\<open>i\<close> attempts are made and at most \<open>n\<close> are left; \<open>last_err\<close> is what the last one met.\<close>

primrec call_attempts ::
  "exec_ext \<Rightarrow> ectx \<Rightarrow> string \<Rightarrow> string \<Rightarrow> json \<Rightarrow> string option \<Rightarrow> nat \<Rightarrow> nat \<Rightarrow> string \<Rightarrow> proc"
where
  "call_attempts x cx url method body response_event 0 i last_err = failed last_err"
| "call_attempts x cx url method body response_event (Suc n) i last_err =
     andthen (if 0 < i then sleep_ms (500 * 2 ^ min (i - 1) 3) else ok)
       (Atom (\<lambda>s.
          case http_body method body of
            None \<Rightarrow> (s, failed (''Unsupported HTTP method: '' @ method))
          | Some b \<Rightarrow>
              let s1 = emit (OHttp method url b) s in
              (s1, case xe_http x (es_out s1) of
                 HttpError e \<Rightarrow> call_attempts x cx url method body response_event n (Suc i) e
               | HttpResponse status txt resp_body \<Rightarrow>
                   if 500 \<le> status \<and> status < 600 then
                     call_attempts x cx url method body response_event n (Suc i) (''HTTP '' @ txt)
                   else if \<not> (200 \<le> status \<and> status < 300) then failed (''HTTP '' @ txt)
                   else (case response_event of
                           None \<Rightarrow> ok
                         | Some event_type \<Rightarrow>
                             publish_result cx x (OMqtt (events_topic event_type) resp_body False)))))"

definition do_call_service ::
  "exec_ext \<Rightarrow> ectx \<Rightarrow> string \<Rightarrow> string \<Rightarrow> json \<Rightarrow> nat option \<Rightarrow> string option \<Rightarrow> proc"
where
  "do_call_service x cx url method body retries response_event =
     call_attempts x cx url (xe_to_uppercase x method) body response_event
       ((unwrap_or retries 0 + 1) mod 2 ^ 32) 0 ''no attempts made''"

definition execute_script_effect :: "exec_ext \<Rightarrow> ectx \<Rightarrow> script_effect \<Rightarrow> proc" where
  "execute_script_effect x cx e =
     (case e of
        SeSetDeviceState device_id state \<Rightarrow>
          if cx_publish cx then
            effect (\<lambda>s. publish_to x (OMqtt (cmd_topic device_id)
              (with_command_change_metadata (xe x) state
                ((device_change_homecore (w_now (es_world s)) ''script'')\<lparr>dc_correlation_id := cx_correlation_id cx\<rparr>))
              False) s)
          else ok
      | SeNotify channel title message \<Rightarrow>
          if cx_notify cx then step (emit (ONotify channel title message)) else ok
      | SePublishMqtt topic payload \<Rightarrow> publish_result cx x (OMqttText topic payload False)
      | SeCallService method url body \<Rightarrow>
          (let m = xe_to_uppercase x method in
           if m = ''GET'' then step (emit (OHttp m url None))
           else if m = ''POST'' then step (emit (OHttp m url (Some (unwrap_or (parse_json (xe x) body) JNull))))
           else failed (''RunScript: unsupported HTTP method '' @ [CHR 0x27] @ m @ [CHR 0x27])))"

primrec run_effects :: "exec_ext \<Rightarrow> ectx \<Rightarrow> script_effect list \<Rightarrow> proc" where
  "run_effects x cx [] = ok"
| "run_effects x cx (e # es) = andthen (execute_script_effect x cx e) (run_effects x cx es)"

definition own_vars :: "ectx \<Rightarrow> exec_state \<Rightarrow> string \<Rightarrow> json option" where
  "own_vars cx s name = en_rule_vars (es_engine s) (cx_rule_id cx, name)"

definition do_run_script :: "exec_ext \<Rightarrow> ectx \<Rightarrow> snapshot \<Rightarrow> string \<Rightarrow> proc" where
  "do_run_script x cx snap script =
     (if byte_prefix 80 script = None then Done (Inl (Panicked ''byte index 80 is not a char boundary''))
      else look (\<lambda>s.
        case xe_run_script x script snap (cx_trigger_ctx cx) (own_vars cx s) (en_hub_vars (es_engine s)) of
          Inl e \<Rightarrow> failed e
        | Inr effects \<Rightarrow> run_effects x cx effects))"

definition do_notify :: "exec_ext \<Rightarrow> ectx \<Rightarrow> string \<Rightarrow> string \<Rightarrow> string option \<Rightarrow> proc" where
  "do_notify x cx channel message title =
     step (\<lambda>s. if cx_notify cx then
         emit (ONotify channel
           (case title of Some t \<Rightarrow> fill_alert x cx s t | None \<Rightarrow> ''HomeCore Alert'')
           (fill_alert x cx s message)) s
       else s)"

definition delay_key :: "exec_ext \<Rightarrow> ectx \<Rightarrow> string \<Rightarrow> string" where
  "delay_key x cx k = show_uuid (xe x) (cx_rule_id cx) @ ''/'' @ k"

definition do_delay :: "exec_ext \<Rightarrow> ectx \<Rightarrow> nat \<Rightarrow> bool \<Rightarrow> string option \<Rightarrow> proc" where
  "do_delay x cx secs cancelable cancel_key =
     (if cancelable then
        Atom (\<lambda>s.
          let key = delay_key x cx (case cancel_key of Some k \<Rightarrow> k | None \<Rightarrow> ''auto_'' @ xe_new_uuid x (es_next s)) in
          ((on_engine (\<lambda>en. en\<lparr>en_delay_registry := insert key (en_delay_registry en)\<rparr>) s)\<lparr>es_next := Suc (es_next s)\<rparr>,
           andthen (sleep_ms (secs * 1000))
             (step (on_engine (\<lambda>en. en\<lparr>en_delay_registry := en_delay_registry en - {key}\<rparr>)))))
      else sleep_ms (secs * 1000))"

definition cancel_prefix :: "string \<Rightarrow> engine \<Rightarrow> engine" where
  "cancel_prefix prefix en = en\<lparr>en_delay_registry := {k \<in> en_delay_registry en. \<not> starts_with prefix k}\<rparr>"

definition do_cancel_delays :: "exec_ext \<Rightarrow> ectx \<Rightarrow> string option \<Rightarrow> proc" where
  "do_cancel_delays x cx key =
     step (on_engine (case key of
         Some k \<Rightarrow> (\<lambda>en. en\<lparr>en_delay_registry := en_delay_registry en - {delay_key x cx k}\<rparr>)
       | None \<Rightarrow> cancel_prefix (delay_key x cx [])))"

definition do_cancel_rule_timers :: "exec_ext \<Rightarrow> ectx \<Rightarrow> uuid option \<Rightarrow> proc" where
  "do_cancel_rule_timers x cx rid =
     step (on_engine (cancel_prefix (show_uuid (xe x) (unwrap_or rid (cx_rule_id cx)) @ ''/'')))"

definition do_set_variable :: "ectx \<Rightarrow> string \<Rightarrow> json \<Rightarrow> variable_op option \<Rightarrow> proc" where
  "do_set_variable cx name value op =
     step (on_engine (\<lambda>en. en\<lparr>en_rule_vars := (en_rule_vars en)((cx_rule_id cx, name) \<mapsto>
       apply_variable_op (unwrap_or op VSet) (en_rule_vars en (cx_rule_id cx, name)) value)\<rparr>))"

definition do_set_hub_variable :: "exec_ext \<Rightarrow> ectx \<Rightarrow> string \<Rightarrow> json \<Rightarrow> variable_op option \<Rightarrow> proc" where
  "do_set_hub_variable x cx name value op =
     step (\<lambda>s.
       let prev = en_hub_vars (es_engine s) name;
           new_val = apply_variable_op (unwrap_or op VSet) prev value in
       announce x cx ''hub_variable_changed''
         (JObj [(''name'', JStr name), (''prev_value'', unwrap_or prev JNull), (''value'', new_val)])
         (on_engine (\<lambda>en. en\<lparr>en_hub_vars := (en_hub_vars en)(name \<mapsto> new_val)\<rparr>) s))"

definition mode_on :: "exec_state \<Rightarrow> string \<Rightarrow> bool" where
  "mode_on s mode =
     unwrap_or (Option.bind (Option.bind (en_device_cache (es_engine s) mode) (\<lambda>attrs. attrs ''on'')) as_bool) False"

definition first_mode :: "exec_state \<Rightarrow> (string \<times> 'a) list \<Rightarrow> 'a option \<Rightarrow> 'a option" where
  "first_mode s entries def =
     option_or (map_option snd (List.find (\<lambda>(mode, _). mode_on s mode) entries)) def"

definition do_set_device_state_per_mode ::
  "exec_ext \<Rightarrow> ectx \<Rightarrow> string \<Rightarrow> mode_state_entry list \<Rightarrow> json option \<Rightarrow> proc"
where
  "do_set_device_state_per_mode x cx device_id modes def =
     look (\<lambda>s. case first_mode s (map (\<lambda>e. (mse_mode e, mse_state e)) modes) def of
         None \<Rightarrow> ok
       | Some state \<Rightarrow> send_command x cx device_id state)"

definition do_delay_per_mode :: "mode_delay_entry list \<Rightarrow> nat option \<Rightarrow> proc" where
  "do_delay_per_mode modes def =
     look (\<lambda>s. case first_mode s (map (\<lambda>e. (mde_mode e, mde_duration_secs e)) modes) def of
         None \<Rightarrow> ok
       | Some secs \<Rightarrow> if secs = 0 then ok else sleep_ms (secs * 1000))"

primrec send_states :: "exec_ext \<Rightarrow> ectx \<Rightarrow> (timestamp \<Rightarrow> device_change) \<Rightarrow> (string \<times> json) list \<Rightarrow> proc" where
  "send_states x cx change [] = ok"
| "send_states x cx change (p # ps) =
     andthen (effect (\<lambda>s. publish_device_command x cx (fst p) (snd p) (change (w_now (es_world s))) s))
       (send_states x cx change ps)"

definition do_activate_scene_per_mode :: "exec_ext \<Rightarrow> ectx \<Rightarrow> mode_scene_entry list \<Rightarrow> uuid option \<Rightarrow> proc" where
  "do_activate_scene_per_mode x cx modes def =
     look (\<lambda>s. case first_mode s (map (\<lambda>e. (msce_mode e, msce_scene_id e)) modes) def of
         None \<Rightarrow> ok
       | Some sid \<Rightarrow>
           if \<not> cx_state cx then ok
           else case es_scenes s sid of
             None \<Rightarrow> ok
           | Some scene \<Rightarrow>
               andthen
                 (send_states x cx
                   (\<lambda>now. (device_change_homecore now ''scene'')
                      \<lparr>dc_actor_id := Some (show_uuid (xe x) sid), dc_actor_name := Some (scn_name scene),
                       dc_correlation_id := cx_correlation_id cx\<rparr>)
                   (scn_states scene))
                 (step (\<lambda>s. if cx_event_bus cx then emit (OSceneActivated sid (scn_name scene)) s else s)))"

text \<open>The captured devices are kept by id; a device that is not in the cache is left out.\<close>

definition captured :: "(string \<rightharpoonup> string \<rightharpoonup> json) \<Rightarrow> string list \<Rightarrow> (string \<times> (string \<rightharpoonup> json)) list" where
  "captured cache device_ids =
     fold (\<lambda>d m. case cache d of Some attrs \<Rightarrow> AList.update d attrs m | None \<Rightarrow> m) device_ids []"

definition do_capture :: "ectx \<Rightarrow> string \<Rightarrow> string list \<Rightarrow> proc" where
  "do_capture cx key device_ids =
     step (on_engine (\<lambda>en. en\<lparr>en_capture_store := (en_capture_store en)((cx_rule_id cx, key) \<mapsto>
       captured (en_device_cache en) device_ids)\<rparr>))"

definition attrs_json :: "(string \<rightharpoonup> json) \<Rightarrow> json" where
  "attrs_json attrs = JObj (map (\<lambda>k. (k, the (attrs k))) (sorted_list_of_set (dom attrs)))"

definition do_restore :: "exec_ext \<Rightarrow> ectx \<Rightarrow> string \<Rightarrow> proc" where
  "do_restore x cx key =
     look (\<lambda>s. case en_capture_store (es_engine s) (cx_rule_id cx, key) of
         None \<Rightarrow> ok
       | Some snap \<Rightarrow>
           if cx_publish cx then
             send_states x cx (\<lambda>now. rule_change x cx now ''rule'') (map (\<lambda>(d, attrs). (d, attrs_json attrs)) snap)
           else ok)"

definition clamp :: "nat \<Rightarrow> nat \<Rightarrow> nat \<Rightarrow> nat" where
  "clamp lo hi n = max lo (min hi n)"

definition fade_steps :: "nat \<Rightarrow> nat option \<Rightarrow> nat" where
  "fade_steps secs n_steps = clamp 2 100 (unwrap_or n_steps secs)"

definition fade_value :: "(string \<rightharpoonup> f64) \<Rightarrow> f64 \<Rightarrow> string \<times> json \<Rightarrow> string \<times> json" where
  "fade_value current t kv =
     (case as_f64 (snd kv) of
        None \<Rightarrow> kv
      | Some target \<Rightarrow>
          let start = unwrap_or (current (fst kv)) target in
          (fst kv, to_json_number (f64_op (+) start (f64_op (*) (f64_op (-) target start) t))))"

definition fade_state :: "(string \<rightharpoonup> f64) \<Rightarrow> json \<Rightarrow> nat \<Rightarrow> nat \<Rightarrow> json" where
  "fade_state current target n i =
     JObj (map (fade_value current (f64_op (/) (f64_of_nat i) (f64_of_nat n)))
       (case target of JObj kvs \<Rightarrow> kvs | _ \<Rightarrow> []))"

primrec fade_loop :: "exec_ext \<Rightarrow> ectx \<Rightarrow> string \<Rightarrow> (nat \<Rightarrow> json) \<Rightarrow> nat \<Rightarrow> nat list \<Rightarrow> proc" where
  "fade_loop x cx device_id state interval [] = ok"
| "fade_loop x cx device_id state interval (i # is) =
     andthen (sleep_ms interval)
       (if cx_publish cx then
          andthen (send_command x cx device_id (state i)) (fade_loop x cx device_id state interval is)
        else ok)"

definition do_fade :: "exec_ext \<Rightarrow> ectx \<Rightarrow> string \<Rightarrow> json \<Rightarrow> nat \<Rightarrow> nat option \<Rightarrow> proc" where
  "do_fade x cx device_id target secs n_steps =
     (let n = fade_steps secs n_steps in
      look (\<lambda>s.
        let current = (\<lambda>k. Option.bind (Option.bind (en_device_cache (es_engine s) device_id) (\<lambda>attrs. attrs k)) as_f64) in
        fade_loop x cx device_id (fade_state current target n) (secs * 1000 mod 2 ^ 64 div n) [1..<Suc n]))"

definition press_body :: "alert_action \<Rightarrow> (string \<times> json) list" where
  "press_body action =
     obj_insert ''action'' (JStr (aa_id action)) (case aa_params action of JObj kvs \<Rightarrow> kvs | _ \<Rightarrow> [])"

definition do_press_alert :: "exec_ext \<Rightarrow> ectx \<Rightarrow> string option \<Rightarrow> proc" where
  "do_press_alert x cx alert_id =
     look (\<lambda>s.
       case the_alert x cx alert_id s of
         None \<Rightarrow> ok
       | Some alert \<Rightarrow>
           case al_action alert of
             None \<Rightarrow> ok
           | Some action \<Rightarrow>
               case aa_target action of
                 TargetDevice \<Rightarrow> send_command x cx (al_device_id alert) (JObj (press_body action))
               | TargetPlugin \<Rightarrow>
                   case al_plugin_id alert of
                     None \<Rightarrow> ok
                   | Some plugin_id \<Rightarrow>
                       if cx_publish cx then
                         effect (\<lambda>s. publish_to x
                           (OMqtt (''homecore/plugins/'' @ plugin_id @ ''/manage/cmd'')
                             (JObj (obj_insert ''request_id'' (JStr (xe_new_uuid x (es_next s))) (press_body action))) False)
                           (s\<lparr>es_next := Suc (es_next s)\<rparr>))
                       else ok)"

text \<open>\<open>AlertsHandle::acknowledge\<close>: the first acknowledgement is kept.\<close>

definition acknowledge :: "timestamp \<Rightarrow> string \<Rightarrow> string \<Rightarrow> alert list \<Rightarrow> alert list" where
  "acknowledge now i by' active =
     map (\<lambda>a. if al_id a = i \<and> al_acknowledged a = None
              then a\<lparr>al_acknowledged := Some \<lparr>ack_by = by', ack_at = now\<rparr>\<rparr> else a) active"

definition quoted_name :: "string \<Rightarrow> string" where
  "quoted_name name = [CHR 0xE2, CHR 0x80, CHR 0x9C] @ name @ [CHR 0xE2, CHR 0x80, CHR 0x9D]"

definition do_acknowledge_alert :: "exec_ext \<Rightarrow> ectx \<Rightarrow> string option \<Rightarrow> proc" where
  "do_acknowledge_alert x cx alert_id =
     look (\<lambda>s.
       case the_alert x cx alert_id s of
         None \<Rightarrow> ok
       | Some alert \<Rightarrow>
           step (\<lambda>s.
             let w = es_world s;
                 s1 = s\<lparr>es_world := w\<lparr>w_alerts := map_option
                        (acknowledge (w_now w) (al_id alert) (''automation '' @ quoted_name (cx_rule_name cx))) (w_alerts w)\<rparr>\<rparr> in
             case live_alert s1 (al_id alert) of
               None \<Rightarrow> s
             | Some seen \<Rightarrow> emit_event cx (EvAlertAcknowledged seen) (emit_event cx (EvAlertRaised seen True) s1)))"

definition save_ignore :: "exec_ext \<Rightarrow> ectx \<Rightarrow> (exec_state \<Rightarrow> alert_ignore) \<Rightarrow> proc" where
  "save_ignore x cx ignore =
     (if cx_state cx then
        effect (\<lambda>s.
          let i = ignore s; s1 = s\<lparr>es_next := Suc (es_next s)\<rparr> in
          case xe_store_error x (es_out s1) of
            Some e \<Rightarrow> (s1, Inl (Failed e))
          | None \<Rightarrow>
              let s2 = emit (OIgnore i) s1 in
              ((if w_alerts (es_world s) \<noteq> None then emit ORulesChanged s2 else s2), Inr ()))
      else ok)"

definition do_skip_alert :: "exec_ext \<Rightarrow> ectx \<Rightarrow> string option \<Rightarrow> proc" where
  "do_skip_alert x cx alert_id =
     look (\<lambda>s.
       case the_alert x cx alert_id s of
         None \<Rightarrow> ok
       | Some alert \<Rightarrow>
           if al_key alert = None \<or> al_plugin_id alert = None then ok
           else save_ignore x cx (\<lambda>s.
             \<lparr>ai_id = xe_new_uuid x (es_next s), ai_kind = Some (al_kind alert), ai_device_id = Some (al_device_id alert),
              ai_rule_id = None, ai_plugin_id = al_plugin_id alert, ai_topic = al_topic alert, ai_key = al_key alert,
              ai_until = None, ai_note = Some (''skipped by automation '' @ quoted_name (cx_rule_name cx)),
              ai_by = Some (cx_rule_name cx), ai_created_at = w_now (es_world s)\<rparr>))"

definition ignore_valid :: "exec_ext \<Rightarrow> alert_ignore \<Rightarrow> bool" where
  "ignore_valid x i \<longleftrightarrow>
     \<not> (ai_kind i = None \<and> ai_device_id i = None \<and> ai_rule_id i = None \<and> ai_plugin_id i = None)
     \<and> \<not> ((ai_topic i \<noteq> None \<or> ai_key i \<noteq> None) \<and> ai_plugin_id i = None)
     \<and> (case ai_device_id i of Some d \<Rightarrow> xe_trim x d \<noteq> [] | None \<Rightarrow> True)"

primrec ignore_devices ::
  "exec_ext \<Rightarrow> ectx \<Rightarrow> (string option \<Rightarrow> exec_state \<Rightarrow> alert_ignore) \<Rightarrow> string option list \<Rightarrow> proc"
where
  "ignore_devices x cx ignore [] = ok"
| "ignore_devices x cx ignore (d # ds) =
     look (\<lambda>s. if ignore_valid x (ignore d s) then
         andthen (save_ignore x cx (ignore d)) (ignore_devices x cx ignore ds)
       else ok)"

definition do_ignore_alerts :: "exec_ext \<Rightarrow> ectx \<Rightarrow> alert_filter \<Rightarrow> nat option \<Rightarrow> string option \<Rightarrow> proc" where
  "do_ignore_alerts x cx f minutes note' =
     look (\<lambda>s0.
       let until' = map_option (\<lambda>m. w_now (es_world s0) + int m * 60000000000) minutes in
       ignore_devices x cx
         (\<lambda>d s. \<lparr>ai_id = xe_new_uuid x (es_next s), ai_kind = af_kind f, ai_device_id = d, ai_rule_id = af_rule_id f,
            ai_plugin_id = af_plugin_id f, ai_topic = af_topic f, ai_key = af_key f, ai_until = until',
            ai_note = option_or note' (Some (''by automation '' @ quoted_name (cx_rule_name cx))),
            ai_by = Some (cx_rule_name cx), ai_created_at = w_now (es_world s)\<rparr>)
         (if af_device_ids f = [] then [None] else map Some (af_device_ids f)))"

text \<open>
  The waits for an event and for an expression: they leave the state alone. With a timeout they end. Without one
  the first goes on when the event comes (or the receiver has fallen behind), which is up to the rest of the hub,
  and the second after a poll that finds the expression true.
\<close>

definition do_wait_for_event :: "ectx \<Rightarrow> nat option \<Rightarrow> proc" where
  "do_wait_for_event cx timeout_ms =
     (if \<not> cx_event_bus cx then ok else case timeout_ms of Some _ \<Rightarrow> await | None \<Rightarrow> await_until (\<lambda>_. True))"

definition do_wait_for_expression :: "exec_ext \<Rightarrow> string \<Rightarrow> nat option \<Rightarrow> proc" where
  "do_wait_for_expression x expression timeout_ms =
     (case timeout_ms of
        Some _ \<Rightarrow> await
      | None \<Rightarrow> await_until (\<lambda>s. eval_script x (en_device_cache (es_engine s)) expression = Inr True))"

definition leaf_action :: "exec_ext \<Rightarrow> ectx \<Rightarrow> snapshot \<Rightarrow> action \<Rightarrow> proc" where
  "leaf_action x cx snap a =
     (case a of
        AcSetDeviceState d state track \<Rightarrow>
          send_command x cx d (if track then mirrored state (cx_trigger_ctx cx) else state)
      | AcPublishMqtt topic payload retain \<Rightarrow> publish_result cx x (OMqttText topic payload retain)
      | AcCallService url method body _ retries response_event \<Rightarrow>
          do_call_service x cx url method body retries response_event
      | AcFireEvent event_type payload \<Rightarrow> do_fire_event x cx event_type payload
      | AcRunScript script \<Rightarrow> do_run_script x cx snap script
      | AcNotify channel message title \<Rightarrow> do_notify x cx channel message title
      | AcDelay secs cancelable key \<Rightarrow> do_delay x cx secs cancelable key
      | AcExitRule \<Rightarrow> step (\<lambda>s. s\<lparr>es_exit := (es_exit s)(cx_id cx := True)\<rparr>)
      | AcLogMessage message level \<Rightarrow>
          step (\<lambda>s. emit (OLog (unwrap_or level LInfo) (fill_alert x cx s message)) s)
      | AcSetPrivateBoolean name value \<Rightarrow>
          step (on_engine (\<lambda>en. en\<lparr>en_priv_bools := (en_priv_bools en)((cx_rule_id cx, name) \<mapsto> value)\<rparr>))
      | AcSetVariable name value op \<Rightarrow> do_set_variable cx name value op
      | AcPauseRule r \<Rightarrow> step (on_engine (\<lambda>en. en\<lparr>en_pause_state := (en_pause_state en)(r \<mapsto> True)\<rparr>))
      | AcResumeRule r \<Rightarrow> step (on_engine (\<lambda>en. en\<lparr>en_pause_state := (en_pause_state en)(r := None)\<rparr>))
      | AcCancelDelays key \<Rightarrow> do_cancel_delays x cx key
      | AcCancelRuleTimers r \<Rightarrow> do_cancel_rule_timers x cx r
      | AcWaitForEvent _ _ _ timeout \<Rightarrow> do_wait_for_event cx timeout
      | AcWaitForExpression expression _ timeout _ \<Rightarrow> do_wait_for_expression x expression timeout
      | AcSetDeviceStatePerMode d modes def \<Rightarrow> do_set_device_state_per_mode x cx d modes def
      | AcCaptureDeviceState key ds \<Rightarrow> do_capture cx key ds
      | AcRestoreDeviceState key \<Rightarrow> do_restore x cx key
      | AcDelayPerMode modes def \<Rightarrow> do_delay_per_mode modes def
      | AcSetHubVariable name value op \<Rightarrow> do_set_hub_variable x cx name value op
      | AcActivateScenePerMode modes def \<Rightarrow> do_activate_scene_per_mode x cx modes def
      | AcFadeDevice d target secs n_steps \<Rightarrow> do_fade x cx d target secs n_steps
      | AcSetMode mode command \<Rightarrow>
          send_command x cx mode (JObj [(''action'', JStr
            (case command of ModeOn \<Rightarrow> ''on'' | ModeOff \<Rightarrow> ''off'' | ModeToggle \<Rightarrow> ''toggle''))])
      | AcPressAlert i \<Rightarrow> do_press_alert x cx i
      | AcAcknowledgeAlert i \<Rightarrow> do_acknowledge_alert x cx i
      | AcSkipAlert i \<Rightarrow> do_skip_alert x cx i
      | AcIgnoreAlerts f minutes note' \<Rightarrow> do_ignore_alerts x cx f minutes note'
      | _ \<Rightarrow> ok)"

subsection \<open>Loops, branches and tasks\<close>

text \<open>\<open>n\<close> rounds are left. The body sees the devices as they are in each round.\<close>

primrec until_loop :: "exec_ext \<Rightarrow> ectx \<Rightarrow> string \<Rightarrow> nat \<Rightarrow> (snapshot \<Rightarrow> proc) \<Rightarrow> nat \<Rightarrow> proc" where
  "until_loop x cx condition delay body 0 = ok"
| "until_loop x cx condition delay body (Suc n) =
     look (\<lambda>s. if exits cx s then ok
       else andthen (body (en_device_cache (es_engine s)))
         (look (\<lambda>s. case eval_script x (en_device_cache (es_engine s)) condition of
              Inl e \<Rightarrow> Done (Inl e)
            | Inr done' \<Rightarrow>
                if done' \<or> n = 0 then ok
                else andthen (if 0 < delay then sleep_ms delay else ok) (until_loop x cx condition delay body n))))"

primrec while_loop :: "exec_ext \<Rightarrow> ectx \<Rightarrow> string \<Rightarrow> nat \<Rightarrow> (snapshot \<Rightarrow> proc) \<Rightarrow> nat \<Rightarrow> proc" where
  "while_loop x cx condition delay body 0 = ok"
| "while_loop x cx condition delay body (Suc n) =
     look (\<lambda>s. if exits cx s then ok
       else let snap = en_device_cache (es_engine s) in
         case eval_script x snap condition of
           Inl e \<Rightarrow> Done (Inl e)
         | Inr passes \<Rightarrow>
             if passes then
               andthen (body snap) (andthen (if 0 < delay then sleep_ms delay else ok)
                 (while_loop x cx condition delay body n))
             else ok)"

primrec count_loop :: "ectx \<Rightarrow> nat \<Rightarrow> proc \<Rightarrow> nat \<Rightarrow> proc" where
  "count_loop cx delay body 0 = ok"
| "count_loop cx delay body (Suc n) =
     look (\<lambda>s. if exits cx s then ok
       else andthen body (andthen (if 0 < delay \<and> 0 < n then sleep_ms delay else ok) (count_loop cx delay body n)))"

definition set_current_alert :: "ectx \<Rightarrow> alert option \<Rightarrow> exec_state \<Rightarrow> exec_state" where
  "set_current_alert cx a s = s\<lparr>es_current_alert := (es_current_alert s)(cx_id cx := a)\<rparr>"

text \<open>An error puts the alert before the loop back, a panic does not.\<close>

primrec each_alert :: "ectx \<Rightarrow> alert option \<Rightarrow> proc \<Rightarrow> alert list \<Rightarrow> proc" where
  "each_alert cx before body [] = step (set_current_alert cx before)"
| "each_alert cx before body (a # as) =
     Atom (\<lambda>s. if exits cx s then (set_current_alert cx before s, ok)
       else (set_current_alert cx (Some a) s,
         bind_process body (\<lambda>r. case r of
             Inr _ \<Rightarrow> each_alert cx before body as
           | Inl (Failed e) \<Rightarrow> Atom (\<lambda>s. (set_current_alert cx before s, failed e))
           | Inl (Panicked e) \<Rightarrow> Done (Inl (Panicked e)))))"

primrec else_branches :: "exec_ext \<Rightarrow> ectx \<Rightarrow> snapshot \<Rightarrow> proc \<Rightarrow> (if_check \<times> proc) list \<Rightarrow> proc" where
  "else_branches x cx snap otherwise [] = otherwise"
| "else_branches x cx snap otherwise (b # bs) =
     look (\<lambda>s. if exits cx s then otherwise
       else case if_passes x cx snap (fst b) s of
         Inl e \<Rightarrow> Done (Inl e)
       | Inr passed \<Rightarrow> if passed then snd b else else_branches x cx snap otherwise bs)"

definition conditional :: "exec_ext \<Rightarrow> ectx \<Rightarrow> snapshot \<Rightarrow> if_check \<Rightarrow> proc \<Rightarrow> (if_check \<times> proc) list \<Rightarrow> proc \<Rightarrow> proc" where
  "conditional x cx snap check then' branches otherwise =
     look (\<lambda>s. case if_passes x cx snap check s of
         Inl e \<Rightarrow> Done (Inl e)
       | Inr passed \<Rightarrow> if passed then then' else else_branches x cx snap otherwise branches)"

text \<open>
  \<open>Parallel\<close>: all branches are spawned, then awaited in order; the first that failed ends the
  wait, and the tasks not awaited yet go on by themselves.
\<close>

primrec join_all :: "exec_ext \<Rightarrow> nat list \<Rightarrow> proc" where
  "join_all x [] = ok"
| "join_all x (i # is) =
     Join i (\<lambda>r. case r of
         Inr _ \<Rightarrow> join_all x is
       | Inl (Failed e) \<Rightarrow> failed e
       | Inl (Panicked e) \<Rightarrow> failed (xe_join_error x e))"

primrec spawn_all :: "exec_ext \<Rightarrow> proc list \<Rightarrow> nat list \<Rightarrow> proc" where
  "spawn_all x [] ids = join_all x ids"
| "spawn_all x (p # ps) ids = Spawn p (\<lambda>i. spawn_all x ps (ids @ [i]))"

definition ping_payload :: "string \<Rightarrow> bool \<Rightarrow> f64 option \<Rightarrow> json" where
  "ping_payload host reachable rtt =
     JObj ([(''host'', JStr host), (''reachable'', JBool reachable)]
       @ (case rtt of None \<Rightarrow> [] | Some f \<Rightarrow>
            [(''rtt_ms'', case from_f64 f of Some n \<Rightarrow> JNum n | None \<Rightarrow> JNull)]))"

definition do_ping ::
  "exec_ext \<Rightarrow> ectx \<Rightarrow> string \<Rightarrow> nat option \<Rightarrow> nat option \<Rightarrow> proc \<Rightarrow> proc \<Rightarrow> string option \<Rightarrow> proc"
where
  "do_ping x cx host cnt timeout then' otherwise response_event =
     Atom (\<lambda>s.
       let wait_ms = unwrap_or timeout 3000;
           s1 = emit (OPing host (unwrap_or cnt 1) (max 1 ((wait_ms + 999) div 1000))) s;
           (reachable, rtt) = xe_ping x (es_out s1) in
       ((case response_event of
           None \<Rightarrow> s1
         | Some event_type \<Rightarrow> announce x cx event_type (ping_payload host reachable rtt) s1),
        if reachable then then' else otherwise))"

definition do_wait_alert_cleared :: "exec_ext \<Rightarrow> ectx \<Rightarrow> string option \<Rightarrow> proc \<Rightarrow> proc" where
  "do_wait_alert_cleared x cx alert_id otherwise =
     look (\<lambda>s. case the_alert x cx alert_id s of
         None \<Rightarrow> ok
       | Some alert \<Rightarrow>
           if live_alert s (al_id alert) = None then ok
           else if cx_event_bus cx then
             andthen await (look (\<lambda>s. if xe_wait_cleared x (es_out s) then ok else otherwise))
           else otherwise)"

subsection \<open>The executor\<close>

definition push_trace :: "ectx \<Rightarrow> action_trace \<Rightarrow> exec_state \<Rightarrow> exec_state" where
  "push_trace cx t s = s\<lparr>es_trace := (es_trace s)(cx_id cx := es_trace s (cx_id cx) @ [t])\<rparr>"

definition record_trace ::
  "ectx \<Rightarrow> nat \<Rightarrow> action \<Rightarrow> string \<Rightarrow> nanos \<Rightarrow> exec_result \<Rightarrow> exec_state \<Rightarrow> exec_state"
where
  "record_trace cx idx a description start r s =
     (if cx_trace cx then
        let outcome = (case r of Inl (Failed e) \<Rightarrow> AoError e | _ \<Rightarrow> AoSuccess);
            s1 = (case r of
                    Inl (Failed e) \<Rightarrow>
                      if cx_event_bus cx then emit (OActionFailed (cx_rule_id cx) idx (action_type_name a) e) s else s
                  | _ \<Rightarrow> s) in
        push_trace cx
          \<lparr>at_index = idx, at_action_type = action_type_name a, at_description = description, at_outcome = outcome,
           at_duration_ms = (w_instant (es_world s) - start) div 1000000\<rparr> s1
      else s)"

text \<open>What \<open>execute_one\<close> puts around an action.\<close>

definition traced :: "exec_ext \<Rightarrow> ectx \<Rightarrow> nat \<Rightarrow> action \<Rightarrow> proc \<Rightarrow> proc" where
  "traced x cx idx a p =
     look (\<lambda>s. case action_description x cx s a of
         None \<Rightarrow> Done (Inl (Panicked ''byte index 60 is not a char boundary''))
       | Some description \<Rightarrow>
           bind_process p (\<lambda>r. case r of
               Inl (Panicked e) \<Rightarrow> Done (Inl (Panicked e))
             | _ \<Rightarrow> act (record_trace cx idx a description (w_instant (es_world s)) r) r))"

definition skip_trace :: "exec_ext \<Rightarrow> ectx \<Rightarrow> nat \<Rightarrow> action \<Rightarrow> proc" where
  "skip_trace x cx idx a =
     effect (\<lambda>s. if cx_trace cx then
         (case action_description x cx s a of
            None \<Rightarrow> (s, Inl (Panicked ''byte index 60 is not a char boundary''))
          | Some description \<Rightarrow>
              (push_trace cx \<lparr>at_index = idx, at_action_type = action_type_name a, at_description = description,
                 at_outcome = AoSkipped, at_duration_ms = 0\<rparr> s, Inr ()))
       else (s, Inr ()))"

definition sub_context :: "ectx \<Rightarrow> rule \<Rightarrow> nat \<Rightarrow> ectx" where
  "sub_context cx r i = cx\<lparr>cx_id := i, cx_rule_id := ru_id r, cx_rule_name := ru_name r, cx_trace := False\<rparr>"

definition new_context :: "nat \<Rightarrow> exec_state \<Rightarrow> exec_state" where
  "new_context i s =
     s\<lparr>es_exit := (es_exit s)(i := False), es_current_alert := (es_current_alert s)(i := None),
       es_trace := (es_trace s)(i := []), es_next := Suc i\<rparr>"

definition loop_panics :: "string \<Rightarrow> bool" where
  "loop_panics condition \<longleftrightarrow> byte_prefix 60 condition = None"

definition panicked_at :: "nat \<Rightarrow> proc" where
  "panicked_at n = Done (Inl (Panicked (''byte index '' @ show_nat n @ '' is not a char boundary'')))"

lemma member_size: "(a :: action) \<in> set as \<Longrightarrow> size a < Suc (size_list size as)"
  by (induction as) auto

lemma branch_size: "ConditionalBranch c bs \<in> set branches \<Longrightarrow> size_list size bs < size_list size branches"
  by (induction branches) auto

definition executor_measure ::
  "(exec_ext \<times> ectx \<times> nat \<times> action \<times> snapshot
    + exec_ext \<times> ectx \<times> nat \<times> nat \<times> action list \<times> snapshot
      + exec_ext \<times> ectx \<times> nat \<times> nat \<times> rule_action list \<times> snapshot) \<Rightarrow> nat \<times> nat"
where
  "executor_measure = case_sum
     (\<lambda>(_, _, d, a, _). (MAX_CALL_DEPTH - d, size a))
     (case_sum (\<lambda>(_, _, d, _, as, _). (MAX_CALL_DEPTH - d, size_list size as))
        (\<lambda>(_, _, d, _, ras, _). (MAX_CALL_DEPTH - d, size_list (\<lambda>ra. size (ra_action ra)) ras)))"

function (sequential) run_single_action :: "exec_ext \<Rightarrow> ectx \<Rightarrow> nat \<Rightarrow> action \<Rightarrow> snapshot \<Rightarrow> proc"
and execute_actions_inner :: "exec_ext \<Rightarrow> ectx \<Rightarrow> nat \<Rightarrow> nat \<Rightarrow> action list \<Rightarrow> snapshot \<Rightarrow> proc"
and execute_actions_at :: "exec_ext \<Rightarrow> ectx \<Rightarrow> nat \<Rightarrow> nat \<Rightarrow> rule_action list \<Rightarrow> snapshot \<Rightarrow> proc"
where
  "run_single_action x cx d (AcParallel as) snap =
     spawn_all x (map (\<lambda>a. run_single_action x cx d a snap) as) []"
| "run_single_action x cx d (AcRepeatUntil condition as mx interval) snap =
     (if loop_panics condition then panicked_at 60
      else until_loop x cx condition (unwrap_or interval 0) (\<lambda>sn. execute_actions_inner x cx d 0 as sn)
             (unwrap_or mx 100))"
| "run_single_action x cx d (AcRepeatWhile condition as mx interval) snap =
     (if loop_panics condition then panicked_at 60
      else while_loop x cx condition (unwrap_or interval 0) (\<lambda>sn. execute_actions_inner x cx d 0 as sn)
             (unwrap_or mx 100))"
| "run_single_action x cx d (AcRepeatCount n as interval) snap =
     count_loop cx (unwrap_or interval 0) (execute_actions_inner x cx d 0 as snap) n"
| "run_single_action x cx d (AcConditional check as branches otherwise) snap =
     conditional x cx snap check (execute_actions_inner x cx d 0 as snap)
       (map (\<lambda>b. case b of ConditionalBranch c bs \<Rightarrow> (c, execute_actions_inner x cx d 0 bs snap)) branches)
       (execute_actions_inner x cx d 0 otherwise snap)"
| "run_single_action x cx d (AcRunRuleActions rid) snap =
     (if MAX_CALL_DEPTH \<le> d then ok
      else Atom (\<lambda>s. case List.find (\<lambda>r. ru_id r = rid) (en_rules (es_engine s)) of
          None \<Rightarrow> (s, ok)
        | Some r \<Rightarrow>
            (new_context (es_next s) s,
             execute_actions_at x (sub_context cx r (es_next s)) (Suc d) 0 (ru_actions r)
               (en_device_cache (es_engine s)))))"
| "run_single_action x cx d (AcForEachAlert f as) snap =
     look (\<lambda>s. each_alert cx (es_current_alert s (cx_id cx)) (execute_actions_inner x cx d 0 as snap)
       (sort_key al_raised_at (filter (filter_matches f)
         (case w_alerts (es_world s) of Some active \<Rightarrow> active | None \<Rightarrow> []))))"
| "run_single_action x cx d (AcWaitAlertCleared i secs otherwise) snap =
     do_wait_alert_cleared x cx i (execute_actions_inner x cx d 0 otherwise snap)"
| "run_single_action x cx d (AcPingHost host cnt timeout as otherwise response_event) snap =
     do_ping x cx host cnt timeout (execute_actions_inner x cx d 0 as snap)
       (execute_actions_inner x cx d 0 otherwise snap) response_event"
| "run_single_action x cx d a snap = leaf_action x cx snap a"
| "execute_actions_inner x cx d idx [] snap = ok"
| "execute_actions_inner x cx d idx (a # as) snap =
     look (\<lambda>s. if exits cx s then ok
       else andthen (traced x cx idx a (run_single_action x cx d a snap))
              (execute_actions_inner x cx d (Suc idx) as snap))"
| "execute_actions_at x cx d idx [] snap = ok"
| "execute_actions_at x cx d idx (ra # ras) snap =
     look (\<lambda>s. if exits cx s then ok
       else andthen
              (if ra_enabled ra then traced x cx idx (ra_action ra) (run_single_action x cx d (ra_action ra) snap)
               else skip_trace x cx idx (ra_action ra))
              (execute_actions_at x cx d (Suc idx) ras snap))"
  by pat_completeness auto
termination
  by (relation "inv_image (less_than <*lex*> less_than) executor_measure")
     (auto simp: executor_measure_def member_size dest!: branch_size)

definition execute_actions :: "exec_ext \<Rightarrow> ectx \<Rightarrow> rule_action list \<Rightarrow> snapshot \<Rightarrow> proc" where
  "execute_actions x cx actions snap = execute_actions_at x cx 0 0 actions snap"

end
