(* ===== verification/Executor_Theorems.thy ===== *)
theory Executor_Theorems
  imports Executor Engine
begin

text \<open>
  What holds of the action executor: every run comes to its end, whatever rules call one another
  and whatever else happens meanwhile; what exits, errors and disabled actions do to the rest of a
  list; what capture and restore, retries and fades send; and what goes wrong when alert loops run
  side by side and when a text is cut inside a character.
\<close>

definition sample_exec_ext :: exec_ext where
  "sample_exec_ext =
     \<lparr>xe = sample_externals, xe_publish_error = (\<lambda>_. None), xe_store_error = (\<lambda>_. None),
      xe_http = (\<lambda>_. HttpResponse 200 ''200 OK'' JNull), xe_ping = (\<lambda>_. (True, None)),
      xe_wait_cleared = (\<lambda>_. True), xe_new_uuid = show_nat, xe_run_script = (\<lambda>_ _ _ _ _. Inr []),
      xe_show_hm = (\<lambda>_. ''12:00''), xe_to_uppercase = id, xe_trim = id, xe_condition_json = (\<lambda>_. ''{}''),
      xe_condition_key = (\<lambda>_. None), xe_event_json = (\<lambda>_ _. JNull), xe_join_error = id\<rparr>"

definition sample_ctx :: ectx where
  "sample_ctx =
     \<lparr>cx_id = 0, cx_publish = True, cx_notify = True, cx_event_bus = True, cx_state = True,
      cx_trigger_ctx = trigger_context_default, cx_rule_id = 1, cx_rule_name = ''evening'', cx_trace = False,
      cx_correlation_id = None, cx_judge = None\<rparr>"

definition sample_state :: exec_state where
  "sample_state =
     \<lparr>es_engine = new_engine [], es_world = sample_world, es_scenes = Map.empty, es_out = [],
      es_exit = (\<lambda>_. False), es_current_alert = (\<lambda>_. None), es_trace = (\<lambda>_. []), es_next = 1\<rparr>"

definition always :: "action \<Rightarrow> rule_action" where
  "always a = \<lparr>ra_enabled = True, ra_action = a\<rparr>"

subsection \<open>Every run ends\<close>

lemma joins_ok_simps [simp]:
  "joins_ok ok S" "joins_ok (failed e) S" "joins_ok (step f) S" "joins_ok (effect h) S" "joins_ok await S" "joins_ok (await_until b) S"
  "joins_ok (sleep_ms n) S" "joins_ok (act f r) S" "joins_ok (panicked_at n) S"
  "joins_ok (look g) S \<longleftrightarrow> (\<forall>s. joins_ok (g s) S)"
  by (simp_all add: ok_def failed_def step_def effect_def await_def await_until_def sleep_ms_def act_def look_def panicked_at_def)

lemma joins_ok_andthen [simp, intro]:
  "joins_ok p {} \<Longrightarrow> joins_ok q {} \<Longrightarrow> joins_ok (andthen p q) {}"
  unfolding andthen_def by (rule joins_ok_bind) (auto split: sum.split intro: joins_ok_mono)

lemma call_attempts_joins [simp]: "joins_ok (call_attempts x cx url m body re n i e) {}"
  by (induction n arbitrary: i e)
     (auto intro!: joins_ok_andthen simp: Let_def publish_result_def split: option.split http_result.split)

lemma effects_joins [simp]: "joins_ok (run_effects x cx es) {}"
  by (induction es)
     (auto intro!: joins_ok_andthen simp: execute_script_effect_def publish_result_def Let_def split: script_effect.split)

lemma send_states_joins [simp]: "joins_ok (send_states x cx ch ps) {}"
  by (induction ps) auto

lemma fade_loop_joins [simp]: "joins_ok (fade_loop x cx d st n is) {}"
  by (induction "is") (auto simp: send_command_def)

lemma save_ignore_joins [simp]: "joins_ok (save_ignore x cx i) {}"
  by (simp add: save_ignore_def)

lemma ignore_devices_joins [simp]: "joins_ok (ignore_devices x cx i ds) {}"
  by (induction ds) auto

lemmas leaf_defs =
  send_command_def publish_result_def do_call_service_def do_fire_event_def do_run_script_def do_notify_def
  do_delay_def do_set_variable_def do_cancel_delays_def do_cancel_rule_timers_def do_wait_for_event_def do_wait_for_expression_def
  do_set_device_state_per_mode_def do_capture_def do_restore_def do_delay_per_mode_def do_set_hub_variable_def
  do_activate_scene_per_mode_def do_fade_def do_press_alert_def do_acknowledge_alert_def do_skip_alert_def
  do_ignore_alerts_def

lemma leaf_joins [simp]: "joins_ok (leaf_action x cx snap a) {}"
  by (cases a)
     (auto simp: leaf_action_def leaf_defs Let_def split: option.split sum.split alert_action_target.split
       intro!: joins_ok_andthen)

lemma loop_joins:
  "(\<And>sn. joins_ok (body sn) {}) \<Longrightarrow> joins_ok (until_loop x cx c delay body n) {}"
  "(\<And>sn. joins_ok (body sn) {}) \<Longrightarrow> joins_ok (while_loop x cx c delay body n) {}"
  "joins_ok p {} \<Longrightarrow> joins_ok (count_loop cx delay p n) {}"
  "joins_ok p {} \<Longrightarrow> joins_ok (each_alert cx b p as) {}"
proof -
  show "joins_ok (until_loop x cx c delay body n) {}" if "\<And>sn. joins_ok (body sn) {}"
    by (induction n) (auto split: sum.split intro!: joins_ok_andthen that)
  show "joins_ok (while_loop x cx c delay body n) {}" if "\<And>sn. joins_ok (body sn) {}"
    by (induction n) (auto split: sum.split intro!: joins_ok_andthen that simp: Let_def)
  show "joins_ok (count_loop cx delay p n) {}" if "joins_ok p {}"
    by (induction n) (auto intro!: joins_ok_andthen that)
  show "joins_ok (each_alert cx b p as) {}" if "joins_ok p {}"
    by (induction as)
       (auto intro!: joins_ok_bind [OF that] split: sum.split exec_error.split intro: joins_ok_mono)
qed

lemma branches_join:
  assumes "joins_ok otherwise {}" "\<And>b. b \<in> set bs \<Longrightarrow> joins_ok (snd b) {}"
  shows "joins_ok (else_branches x cx snap otherwise bs) {}"
  using assms by (induction bs) (auto split: sum.split)

lemma spawn_all_joins:
  "(\<And>p. p \<in> set ps \<Longrightarrow> joins_ok p {}) \<Longrightarrow> set ids \<subseteq> S \<Longrightarrow> joins_ok (spawn_all x ps ids) S"
proof (induction ps arbitrary: ids S)
  case Nil
  then show ?case
    by (induction ids) (auto split: sum.split exec_error.split)
next
  case (Cons p ps)
  have "joins_ok (spawn_all x ps (ids @ [n])) (insert n S)" for n
    using Cons.prems by (intro Cons.IH) auto
  then show ?case using Cons.prems by simp
qed

lemma traced_joins: "joins_ok p {} \<Longrightarrow> joins_ok (traced x cx idx a p) {}"
  by (auto simp: traced_def intro!: joins_ok_bind split: option.split sum.split exec_error.split)

lemma executor_joins:
  "joins_ok (run_single_action x cx d a snap) {}"
  "joins_ok (execute_actions_inner x cx d idx as snap) {}"
  "joins_ok (execute_actions_at x cx d idx ras snap) {}"
proof (induction x cx d a snap and x cx d idx as snap and x cx d idx ras snap
    rule: run_single_action_execute_actions_inner_execute_actions_at.induct)
  case (1 x cx d as snap)
  then show ?case by (auto intro!: spawn_all_joins)
next
  case (5 x cx d check as branches otherwise snap)
  have "joins_ok (else_branches x cx snap (execute_actions_inner x cx d 0 otherwise snap)
      (map (\<lambda>b. case b of ConditionalBranch c bs \<Rightarrow> (c, execute_actions_inner x cx d 0 bs snap)) branches)) {}"
    by (rule branches_join) (auto simp: 5 split: conditional_branch.split)
  then show ?case using 5 by (auto simp: conditional_def split: sum.split)
next
  case (7 x cx d f as snap)
  then show ?case by (auto intro!: loop_joins)
next
  case (8 x cx d i secs otherwise snap)
  then show ?case by (auto simp: do_wait_alert_cleared_def intro!: joins_ok_andthen split: option.split)
next
  case (9 x cx d host cnt timeout as otherwise re snap)
  then show ?case by (auto simp: do_ping_def Let_def case_prod_beta)
qed (auto intro!: loop_joins joins_ok_andthen traced_joins simp: skip_trace_def split: option.split)

text \<open>
  C8. The actions of a firing come to their end, or to an untimed wait: whatever the actions are,
  whichever rules call one another (themselves included), whatever other tasks and the hub do to the
  shared state in between and in whatever order the spawned tasks are stepped, as long as a task that
  can go on is not left alone for ever, there comes a time from which nothing changes any more, and
  then every task of the run has returned, or one of them waits for an event or an expression without
  a timeout.
\<close>

theorem run_comes_to_its_end:
  fixes c :: "nat \<Rightarrow> exec_state \<times> proc list"
  assumes "snd (c 0) = [execute_actions x cx actions snap]"
    and "\<And>n. pool_step (c n) (c (Suc n))"
    and "\<And>n. can_go_on (c n) \<Longrightarrow> \<exists>m i. n \<le> m \<and> task_step (c m) i (c (Suc m))"
  shows "\<exists>n. (\<forall>m \<ge> n. snd (c m) = snd (c n)) \<and> ((\<forall>p \<in> set (snd (c n)). \<exists>r. p = Done r) \<or> (\<exists>p \<in> set (snd (c n)). in_wait p))"
  using assms(2) _ assms(3)
  by (rule pool_runs_out)
     (simp add: assms(1) pool_ok_def execute_actions_def joins_ok_mono [OF executor_joins(3)])

text \<open>Two rules that run each other's actions, twice at a time.\<close>

theorem run_comes_to_its_end_witness:
  "let call = (\<lambda>r. always (AcParallel [AcRunRuleActions r, AcRunRuleActions r]));
       rules = [sample_rule\<lparr>ru_id := 1, ru_actions := [call 2]\<rparr>, sample_rule\<lparr>ru_id := 2, ru_actions := [call 1]\<rparr>];
       start = (sample_state\<lparr>es_engine := new_engine rules\<rparr>,
         [execute_actions sample_exec_ext sample_ctx [call 1] Map.empty])
   in \<exists>n. (\<forall>m \<ge> n. snd ((greedy ^^ m) start) = snd ((greedy ^^ n) start))
     \<and> ((\<forall>p \<in> set (snd ((greedy ^^ n) start)). \<exists>r. p = Done r) \<or> (\<exists>p \<in> set (snd ((greedy ^^ n) start)). in_wait p))"
  unfolding Let_def by (rule run_comes_to_its_end) (simp, rule greedy_schedule(1), rule greedy_schedule(2))

subsection \<open>Lists of actions, undisturbed\<close>

text \<open>
  The rest is about runs that nothing else comes between: \<open>run_alone\<close> steps a process to its end.
\<close>

lemma run_simps [simp]:
  "run_alone (await_until b) c = (c, Inr ())" "run_alone ok c = (c, Inr ())" "run_alone (failed e) c = (c, Inl (Failed e))"
  "run_alone (step f) c = ((f (fst c), snd c), Inr ())" "run_alone await c = (c, Inr ())"
  "run_alone (act f r) c = ((f (fst c), snd c), r)"
  "run_alone (effect h) c = ((fst (h (fst c)), snd c), snd (h (fst c)))"
  "run_alone (look g) c = run_alone (g (fst c)) c"
  "run_alone (sleep_ms n) c = ((emit (OSleep n) (fst c), snd c), Inr ())"
  by (simp_all add: ok_def failed_def step_def await_def await_until_def act_def effect_def look_def sleep_ms_def)

lemma run_andthen [simp]:
  "run_alone (andthen p q) c =
     (case run_alone p c of (c', Inl e) \<Rightarrow> (c', Inl e) | (c', Inr _) \<Rightarrow> run_alone q c')"
  by (auto simp: andthen_def run_alone_bind split: prod.split sum.split)

lemma exited_inert:
  "exits cx (fst c) \<Longrightarrow> run_alone (execute_actions_inner x cx d idx as snap) c = (c, Inr ())"
  "exits cx (fst c) \<Longrightarrow> run_alone (execute_actions_at x cx d idx ras snap) c = (c, Inr ())"
  by (cases as; simp) (cases ras; simp)

lemma record_trace_exit [simp]: "es_exit (record_trace cx idx a desc t r s) = es_exit s"
  by (auto simp: record_trace_def push_trace_def emit_def Let_def split: sum.split exec_error.split)

lemma exit_rule_exits:
  "\<exists>s. run_alone (traced x cx idx AcExitRule (leaf_action x cx snap AcExitRule)) c = ((s, snd c), Inr ()) \<and> exits cx s"
  by (auto simp: traced_def run_alone_bind leaf_action_def action_description_def Let_def exits_def split: sum.splits)

lemma list_append_exit:
  assumes "ra_enabled e" "ra_action e = AcExitRule"
  shows "run_alone (execute_actions_at x cx d idx (as @ e # bs) snap) c =
    run_alone (execute_actions_at x cx d idx (as @ [e]) snap) c"
proof (induction as arbitrary: idx c)
  case Nil
  obtain s where "run_alone (traced x cx idx AcExitRule (leaf_action x cx snap AcExitRule)) c = ((s, snd c), Inr ())"
    "exits cx s" using exit_rule_exits by blast
  then show ?case using assms exited_inert(2) by simp
qed (auto split: prod.split sum.split)

text \<open>
  Whatever stands after an enabled \<open>ExitRule\<close> in a rule's actions makes no difference to a run:
  neither to what it does, nor to its trace, nor to its result.
\<close>

theorem exit_rule_ends_run:
  assumes "ra_enabled e" "ra_action e = AcExitRule"
  shows "run_alone (execute_actions x cx (as @ e # bs) snap) c = run_alone (execute_actions x cx (as @ [e]) snap) c"
  unfolding execute_actions_def by (rule list_append_exit [OF assms])

theorem exit_rule_ends_run_witness:
  "run_alone (execute_actions sample_exec_ext sample_ctx
       [always AcExitRule, always (AcPublishMqtt ''t'' ''late'' False)] Map.empty) (sample_state, []) =
     run_alone (execute_actions sample_exec_ext sample_ctx [always AcExitRule] Map.empty) (sample_state, [])"
  using exit_rule_ends_run [of "always AcExitRule" sample_exec_ext sample_ctx "[]"
      "[always (AcPublishMqtt ''t'' ''late'' False)]" Map.empty "(sample_state, [])"]
  by (simp add: always_def)

subsection \<open>Disabled actions\<close>

lemma record_trace_off [simp]: "\<not> cx_trace cx \<Longrightarrow> record_trace cx idx a desc t r s = s"
  by (simp add: record_trace_def)

lemma traced_off:
  assumes "\<not> cx_trace cx"
  shows "traced x cx idx a p = traced x cx 0 a p"
proof -
  have same: "record_trace cx idx = record_trace cx 0"
    using assms by (intro ext) simp
  show ?thesis unfolding traced_def same ..
qed

lemma actions_at_idx:
  "\<not> cx_trace cx \<Longrightarrow> execute_actions_at x cx d idx ras snap = execute_actions_at x cx d 0 ras snap"
proof (induction ras arbitrary: idx)
  case (Cons ra ras)
  have skip: "skip_trace x cx idx a = skip_trace x cx 0 a" for a
    using Cons.prems by (simp add: skip_trace_def)
  have "execute_actions_at x cx d (Suc i) ras snap = execute_actions_at x cx d 0 ras snap" for i
    using Cons by blast
  then show ?case
    by (simp only: execute_actions_at.simps traced_off [OF Cons.prems, of x idx] skip)
qed simp

lemma disabled_skipped:
  assumes "\<not> cx_trace cx"
  shows "run_alone (execute_actions_at x cx d 0 ras snap) c =
    run_alone (execute_actions_at x cx d 0 (filter ra_enabled ras) snap) c"
proof (induction ras arbitrary: c)
  case (Cons ra ras)
  have rest: "execute_actions_at x cx d (Suc 0) rs snap = execute_actions_at x cx d 0 rs snap" for rs
    using assms actions_at_idx by blast
  show ?case
  proof (cases "ra_enabled ra")
    case False
    have "exits cx (fst c) \<Longrightarrow> run_alone (execute_actions_at x cx d 0 rs snap) c = (c, Inr ())" for rs
      by (rule exited_inert)
    with False Cons assms show ?thesis by (auto simp: rest skip_trace_def)
  qed (auto simp: rest Cons.IH split: prod.split sum.split)
qed simp

text \<open>
  In a run that keeps no trace (the actions of a rule run by another), a disabled action is as
  good as absent: taking the disabled ones out of the list changes nothing.
\<close>

theorem disabled_actions_absent:
  assumes "\<not> cx_trace cx"
  shows "run_alone (execute_actions x cx ras snap) c = run_alone (execute_actions x cx (filter ra_enabled ras) snap) c"
  unfolding execute_actions_def by (rule disabled_skipped [OF assms])

theorem disabled_actions_absent_witness:
  "run_alone (execute_actions sample_exec_ext sample_ctx
       [(always AcExitRule)\<lparr>ra_enabled := False\<rparr>, always (AcPublishMqtt ''t'' ''late'' False)] Map.empty) (sample_state, []) =
     run_alone (execute_actions sample_exec_ext sample_ctx [always (AcPublishMqtt ''t'' ''late'' False)] Map.empty)
       (sample_state, [])"
  using disabled_actions_absent [of sample_ctx sample_exec_ext
      "[(always AcExitRule)\<lparr>ra_enabled := False\<rparr>, always (AcPublishMqtt ''t'' ''late'' False)]"]
  by (simp add: always_def sample_ctx_def)

subsection \<open>Capture and restore\<close>

lemma map_of_filter_key: "k \<noteq> a \<Longrightarrow> map_of (filter (\<lambda>(k, _). k \<noteq> a) kvs) k = map_of kvs k"
  by (induction kvs) auto

lemma metadata_keeps:
  "k \<noteq> ''_hc'' \<Longrightarrow> k \<noteq> ''correlation_id'' \<Longrightarrow>
   json_get (with_command_change_metadata x (JObj kvs) ch) k = map_of kvs k"
  by (auto simp: with_command_change_metadata_def Let_def map_of_filter_key split: option.split)

lemma attrs_json_get:
  assumes "finite (dom m)"
  shows "json_get (attrs_json m) k = m k"
proof -
  have "map_of (map (\<lambda>k. (k, the (m k))) (sorted_list_of_set (dom m))) k = ((Some \<circ> (\<lambda>k. the (m k))) |` dom m) k"
    using assms by (simp add: map_of_map_restrict)
  then show ?thesis by (auto simp: attrs_json_def restrict_map_def dom_def)
qed

lemma captured_step:
  "map_of (fold (\<lambda>d m. case cache d of Some attrs \<Rightarrow> AList.update d attrs m | None \<Rightarrow> m) ds m0) d =
     (if d \<in> set ds \<and> cache d \<noteq> None then cache d else map_of m0 d)"
  "distinct (map fst m0) \<Longrightarrow>
   distinct (map fst (fold (\<lambda>d m. case cache d of Some attrs \<Rightarrow> AList.update d attrs m | None \<Rightarrow> m) ds m0))"
proof (induction ds arbitrary: m0)
  case (Cons e ds)
  {
    case 1
    show ?case using Cons.IH(1) by (auto simp: update_conv' split: option.split)
  next
    case 2
    then show ?case using Cons.IH(2) by (auto simp: distinct_update split: option.split)
  }
qed auto

lemma captured_lookup: "map_of (captured cache ds) d = (if d \<in> set ds then cache d else None)"
  by (auto simp: captured_def captured_step)

lemma captured_distinct: "distinct (map fst (captured cache ds))"
  unfolding captured_def by (rule captured_step(2)) simp

definition commands_to :: "string \<Rightarrow> exec_output list \<Rightarrow> json list" where
  "commands_to d outs =
     concat (map (\<lambda>out. case out of OMqtt t p _ \<Rightarrow> if t = cmd_topic d then [p] else [] | _ \<Rightarrow> []) outs)"

definition never_fails :: "exec_ext \<Rightarrow> bool" where
  "never_fails x \<longleftrightarrow> (\<forall>outs. xe_publish_error x outs = None)"

lemma commands_to_append [simp]: "commands_to d (as @ bs) = commands_to d as @ commands_to d bs"
  by (simp add: commands_to_def)

lemma emit_simps [simp]: "es_out (emit out s) = es_out s @ [out]" "es_world (emit out s) = es_world s"
  "es_engine (emit out s) = es_engine s"
  by (simp_all add: emit_def)

lemma send_states_run:
  assumes "cx_publish cx" "never_fails x"
  shows "\<exists>s' outs. run_alone (send_states x cx ch ps) (s, rs) = ((s', rs), Inr ()) \<and> es_out s' = es_out s @ outs
    \<and> (\<forall>d. commands_to d outs =
        map (\<lambda>(_, j). with_command_change_metadata (xe x) j (ch (w_now (es_world s)))) (filter (\<lambda>(d', _). d' = d) ps))"
proof (induction ps arbitrary: s)
  case (Cons p ps)
  let ?r = "publish_device_command x cx (fst p) (snd p) (ch (w_now (es_world s))) s"
  have r: "snd ?r = Inr ()" "es_world (fst ?r) = es_world s" "\<exists>outs. es_out (fst ?r) = es_out s @ outs
      \<and> (\<forall>d. commands_to d outs = (if fst p = d then [with_command_change_metadata (xe x) (snd p) (ch (w_now (es_world s)))] else []))"
    using assms by (auto simp: publish_device_command_def publish_to_def never_fails_def Let_def commands_to_def cmd_topic_def)
  from Cons [of "fst ?r"] r show ?case by (cases p) fastforce
qed (simp add: commands_to_def)

lemma filter_key:
  "distinct (map fst ps) \<Longrightarrow>
   filter (\<lambda>(d', _). d' = d) ps = (case map_of ps d of None \<Rightarrow> [] | Some j \<Rightarrow> [(d, j)])"
proof (induction ps)
  case (Cons p ps)
  then show ?case
    by (cases p) (auto simp: filter_empty_conv split: option.split dest: map_of_SomeD, force dest: map_of_SomeD)
qed simp

text \<open>
  C9. What \<open>CaptureDeviceState\<close> took, \<open>RestoreDeviceState\<close> sends back, whatever happened to the
  devices in between: each captured device gets one command with the attributes it had then (next
  to the two reserved keys), and no other device gets any.
\<close>

theorem restore_sends_captured:
  assumes "cx_publish cx" "never_fails x"
    and "\<forall>attrs \<in> ran (en_device_cache (es_engine s)). finite (dom attrs)"
    and "run_alone (run_single_action x cx n (AcCaptureDeviceState key ds) snap) (s, rs) = ((s1, rs1), r1)"
    and "en_capture_store (es_engine s2) (cx_rule_id cx, key) = en_capture_store (es_engine s1) (cx_rule_id cx, key)"
    and "run_alone (run_single_action x cx n (AcRestoreDeviceState key) snap) (s2, rs) = ((s3, rs3), r)"
  shows "\<exists>outs. r = Inr () \<and> es_out s3 = es_out s2 @ outs
    \<and> (\<forall>d. case (if d \<in> set ds then en_device_cache (es_engine s) d else None) of
          None \<Rightarrow> commands_to d outs = []
        | Some attrs \<Rightarrow> \<exists>p. commands_to d outs = [p]
            \<and> (\<forall>k. k \<noteq> ''_hc'' \<and> k \<noteq> ''correlation_id'' \<longrightarrow> json_get p k = attrs k))"
proof -
  let ?cap = "captured (en_device_cache (es_engine s)) ds" and ?ch = "\<lambda>now. rule_change x cx now ''rule''"
  have "en_capture_store (es_engine s2) (cx_rule_id cx, key) = Some ?cap"
    using assms(4,5) by (auto simp: leaf_action_def do_capture_def on_engine_def)
  then have run: "run_alone (send_states x cx ?ch (map (\<lambda>(d, attrs). (d, attrs_json attrs)) ?cap)) (s2, rs) = ((s3, rs3), r)"
    using assms(1,6) by (simp add: leaf_action_def do_restore_def)
  have dist: "distinct (map fst (map (\<lambda>(d, attrs). (d, attrs_json attrs)) ?cap))"
    using captured_distinct by (simp add: comp_def case_prod_beta)
  have look: "map_of (map (\<lambda>(d, attrs). (d, attrs_json attrs)) ?cap) d =
      map_option attrs_json (if d \<in> set ds then en_device_cache (es_engine s) d else None)" for d
    by (simp add: map_of_map captured_lookup)
  have same: "json_get (with_command_change_metadata (xe x) (attrs_json attrs) c) k = attrs k"
    if "en_device_cache (es_engine s) d = Some attrs" "k \<noteq> ''_hc''" "k \<noteq> ''correlation_id''" for d attrs c k
  proof -
    have "finite (dom attrs)" using assms(3) that(1) by (auto simp: ran_def)
    then show ?thesis
      using metadata_keeps [OF that(2,3)] attrs_json_get [of attrs k] by (simp add: attrs_json_def)
  qed
  obtain outs where outs: "r = Inr ()" "es_out s3 = es_out s2 @ outs"
    "\<And>d. commands_to d outs = map (\<lambda>(_, j). with_command_change_metadata (xe x) j (?ch (w_now (es_world s2))))
        (filter (\<lambda>(d', _). d' = d) (map (\<lambda>(d, attrs). (d, attrs_json attrs)) ?cap))"
    using send_states_run [OF assms(1,2), of ?ch "map (\<lambda>(d, attrs). (d, attrs_json attrs)) ?cap" s2 rs] run by auto
  then show ?thesis
    unfolding filter_key [OF dist] look by (intro exI [of _ outs]) (auto simp: same split: option.split)
qed

theorem restore_sends_captured_witness:
  "let cache = [''lamp'' \<mapsto> [''on'' \<mapsto> JBool True]];
       s = sample_state\<lparr>es_engine := (new_engine [])\<lparr>en_device_cache := cache\<rparr>\<rparr>;
       s1 = fst (fst (run_alone (run_single_action sample_exec_ext sample_ctx 0
              (AcCaptureDeviceState ''k'' [''lamp'', ''fan'', ''lamp'']) Map.empty) (s, [])));
       s3 = fst (fst (run_alone (run_single_action sample_exec_ext sample_ctx 0 (AcRestoreDeviceState ''k'') Map.empty)
              (on_engine (en_device_cache_update (\<lambda>_. Map.empty)) s1, [])))
   in (\<exists>p. commands_to ''lamp'' (es_out s3) = [p] \<and> json_get p ''on'' = Some (JBool True))
      \<and> commands_to ''fan'' (es_out s3) = []"
proof -
  let ?cache = "[''lamp'' \<mapsto> [''on'' \<mapsto> JBool True]]"
  let ?s = "sample_state\<lparr>es_engine := (new_engine [])\<lparr>en_device_cache := ?cache\<rparr>\<rparr>"
  let ?r1 = "run_alone (run_single_action sample_exec_ext sample_ctx 0
      (AcCaptureDeviceState ''k'' [''lamp'', ''fan'', ''lamp'']) Map.empty) (?s, [])"
  let ?s2 = "on_engine (en_device_cache_update (\<lambda>_. Map.empty)) (fst (fst ?r1))"
  let ?r3 = "run_alone (run_single_action sample_exec_ext sample_ctx 0 (AcRestoreDeviceState ''k'') Map.empty) (?s2, [])"
  have hyps: "cx_publish sample_ctx" "never_fails sample_exec_ext"
    "\<forall>attrs \<in> ran (en_device_cache (es_engine ?s)). finite (dom attrs)"
    "en_capture_store (es_engine ?s2) (cx_rule_id sample_ctx, ''k'') =
      en_capture_store (es_engine (fst (fst ?r1))) (cx_rule_id sample_ctx, ''k'')"
    by (auto simp: sample_ctx_def never_fails_def sample_exec_ext_def on_engine_def split: if_splits)
  obtain outs where outs: "es_out (fst (fst ?r3)) = es_out ?s2 @ outs"
    "\<forall>d. case (if d \<in> set [''lamp'', ''fan'', ''lamp''] then en_device_cache (es_engine ?s) d else None) of
        None \<Rightarrow> commands_to d outs = []
      | Some attrs \<Rightarrow> \<exists>p. commands_to d outs = [p]
          \<and> (\<forall>k. k \<noteq> ''_hc'' \<and> k \<noteq> ''correlation_id'' \<longrightarrow> json_get p k = attrs k)"
    using restore_sends_captured [of sample_ctx sample_exec_ext ?s 0 "''k''" "[''lamp'', ''fan'', ''lamp'']" Map.empty "[]"
        "fst (fst ?r1)" "snd (fst ?r1)" "snd ?r1" ?s2 "fst (fst ?r3)" "snd (fst ?r3)" "snd ?r3", OF hyps(1-3) _ hyps(4)]
    unfolding prod.collapse by blast
  moreover have "es_out ?s2 = []"
    by (simp add: leaf_action_def do_capture_def on_engine_def sample_state_def)
  ultimately show ?thesis
    using spec [OF outs(2), of "''lamp''"] spec [OF outs(2), of "''fan''"] by (auto simp: Let_def)
qed

subsection \<open>Calls with retries\<close>

text \<open>The answers after which a call is tried again, and what the attempts \<open>i\<close> to \<open>k - 1\<close> put out.\<close>

definition transient :: "http_result \<Rightarrow> bool" where
  "transient r = (case r of HttpError _ \<Rightarrow> True | HttpResponse status _ _ \<Rightarrow> 500 \<le> status \<and> status < 600)"

definition successful :: "http_result \<Rightarrow> bool" where
  "successful r = (case r of HttpError _ \<Rightarrow> False | HttpResponse status _ _ \<Rightarrow> 200 \<le> status \<and> status < 300)"

definition attempts :: "string \<Rightarrow> string \<Rightarrow> json option \<Rightarrow> nat \<Rightarrow> nat \<Rightarrow> exec_output list" where
  "attempts m url b i k =
     concat (map (\<lambda>j. (if j = 0 then [] else [OSleep (500 * 2 ^ min (j - 1) 3)]) @ [OHttp m url b]) [i..<k])"

lemma attempts_first: "i < k \<Longrightarrow> attempts m url b i k = attempts m url b i (Suc i) @ attempts m url b (Suc i) k"
  by (simp add: attempts_def upt_conv_Cons)

lemma attempts_none [simp]: "attempts m url b i i = []"
  by (simp add: attempts_def)

definition call_log :: "exec_ext \<Rightarrow> string \<Rightarrow> string \<Rightarrow> json option \<Rightarrow> exec_output list \<Rightarrow> nat \<Rightarrow> nat \<Rightarrow> nat \<Rightarrow>
    exec_output list \<Rightarrow> exec_result \<Rightarrow> bool"
where
  "call_log x m url b outs i n k out r \<longleftrightarrow>
     i < k \<and> k \<le> n
     \<and> (\<forall>j. i < j \<and> j < k \<longrightarrow> transient (xe_http x (outs @ attempts m url b i j)))
     \<and> (k < n \<longrightarrow> \<not> transient (xe_http x (outs @ attempts m url b i k)))
     \<and> (r = Inr () \<longrightarrow> successful (xe_http x (outs @ attempts m url b i k)))
     \<and> (\<exists>rest. out = outs @ attempts m url b i k @ rest \<and> length rest \<le> 1 \<and> (\<forall>out \<in> set rest. \<exists>t p ret. out = OMqtt t p ret))"

lemma call_log_Suc:
  assumes "call_log x m url b (outs @ attempts m url b i (Suc i)) (Suc i) n k out r"
    "transient (xe_http x (outs @ attempts m url b i (Suc i)))"
  shows "call_log x m url b outs i n k out r"
proof -
  have eq: "attempts m url b i j = attempts m url b i (Suc i) @ attempts m url b (Suc i) j" if "i < j" for j
    using that by (rule attempts_first)
  have tr: "transient (xe_http x (outs @ attempts m url b i j))" if "i < j" "j < k" for j
    using assms that eq [of j] by (cases "j = Suc i") (auto simp: call_log_def)
  from assms(1) eq [of k] show ?thesis
    unfolding call_log_def using tr by auto
qed

lemma call_attempts_log:
  assumes "http_body m body = Some b" "0 < n"
    "run_alone (call_attempts x cx url m body re n i e) (s, rs) = ((s', rs'), r)"
  shows "\<exists>k. call_log x m url b (es_out s) i (i + n) k (es_out s') r"
  using assms(2,3)
proof (induction n arbitrary: i e s)
  case (Suc n)
  define s1 where "s1 = emit (OHttp m url b) (if 0 < i then emit (OSleep (500 * 2 ^ min (i - 1) 3)) s else s)"
  let ?ans = "xe_http x (es_out s1)"
  have out: "es_out s1 = es_out s @ attempts m url b i (Suc i)"
    by (simp add: s1_def attempts_def)
  show ?case
  proof (cases "transient ?ans \<and> 0 < n")
    case True
    then obtain e' where "run_alone (call_attempts x cx url m body re n (Suc i) e') (s1, rs) = ((s', rs'), r)"
      using Suc.prems assms(1) by (auto simp: s1_def Let_def transient_def split: http_result.splits if_splits)
    then obtain k where "call_log x m url b (es_out s1) (Suc i) (Suc i + n) k (es_out s') r"
      using Suc.IH True by blast
    then show ?thesis using call_log_Suc True unfolding out by fastforce
  next
    case False
    have "(r = Inr () \<longrightarrow> successful ?ans)
      \<and> (\<exists>rest. es_out s' = es_out s1 @ rest \<and> length rest \<le> 1 \<and> (\<forall>out \<in> set rest. \<exists>t p ret. out = OMqtt t p ret))"
      using Suc.prems assms(1) False
      by (auto simp: s1_def Let_def transient_def successful_def publish_result_def publish_to_def
          split: http_result.splits if_splits option.splits)
    with False show ?thesis
      unfolding out by (intro exI [of _ "Suc i"]) (auto simp: call_log_def)
  qed
qed simp

text \<open>
  A \<open>CallService\<close> with a known method makes at least one attempt and at most one more than its
  retries say. It goes on after a connection error or a 5xx answer only, waits half a second
  before the second attempt and twice as long each time up to four seconds, succeeds only with a
  2xx answer as its last, and sends at most one MQTT message after that.
\<close>

theorem call_service_retries:
  assumes "http_body (xe_to_uppercase x m) body = Some b" "unwrap_or retries 0 + 1 < 2 ^ 32"
    and "run_alone (run_single_action x cx d (AcCallService url m body timeout retries re) snap) (s, rs) = ((s', rs'), r)"
  shows "\<exists>k. call_log x (xe_to_uppercase x m) url b (es_out s) 0 (unwrap_or retries 0 + 1) k (es_out s') r"
proof -
  let ?n = "unwrap_or retries 0 + 1"
  have "?n mod 2 ^ 32 = ?n" using assms(2) by (rule mod_less)
  then have "run_alone (call_attempts x cx url (xe_to_uppercase x m) body re ?n 0 ''no attempts made'') (s, rs) = ((s', rs'), r)"
    using assms(3) unfolding run_single_action.simps leaf_action_def action.case do_call_service_def by (simp only:)
  then show ?thesis using call_attempts_log [OF assms(1), of ?n] by fastforce
qed

text \<open>A service that is down for the first two attempts.\<close>

theorem call_service_retries_witness:
  "let x = sample_exec_ext\<lparr>xe_http := (\<lambda>outs. if length outs < 4 then HttpError ''refused'' else HttpResponse 200 ''200 OK'' JNull)\<rparr>
   in \<exists>k. call_log x ''GET'' ''http://h'' None [] 0 3 k
        (es_out (fst (fst (run_alone (run_single_action x sample_ctx 0
          (AcCallService ''http://h'' ''GET'' JNull None (Some 2) None) Map.empty) (sample_state, [])))))
        (Inr ())"
proof -
  let ?x = "sample_exec_ext\<lparr>xe_http := (\<lambda>outs. if length outs < 4 then HttpError ''refused'' else HttpResponse 200 ''200 OK'' JNull)\<rparr>"
  let ?r = "run_alone (run_single_action ?x sample_ctx 0
      (AcCallService ''http://h'' ''GET'' JNull None (Some 2) None) Map.empty) (sample_state, [])"
  have "http_body (xe_to_uppercase ?x ''GET'') JNull = Some None"
    by (simp add: http_body_def sample_exec_ext_def)
  moreover have "snd ?r = Inr ()"
  proof -
    have "(unwrap_or (Some 2) 0 + 1) mod 2 ^ 32 = Suc (Suc (Suc 0))" by (simp add: unwrap_or_def)
    then show ?thesis
      unfolding run_single_action.simps leaf_action_def action.case do_call_service_def
      by (simp only:) (simp add: http_body_def sample_exec_ext_def sample_state_def Let_def)
  qed
  moreover have "?r = ((fst (fst ?r), snd (fst ?r)), snd ?r)" by (simp only: prod.collapse)
  ultimately show ?thesis
    using call_service_retries [of ?x "''GET''" JNull None "Some 2" sample_ctx 0 "''http://h''" None None Map.empty
        sample_state "[]" "fst (fst ?r)" "snd (fst ?r)" "snd ?r"]
    by (simp add: sample_exec_ext_def sample_state_def unwrap_or_def Let_def)
qed

subsection \<open>Fades\<close>

definition slept :: "exec_output list \<Rightarrow> nat" where
  "slept outs = sum_list (map (\<lambda>out. case out of OSleep ms \<Rightarrow> ms | _ \<Rightarrow> 0) outs)"

lemma slept_append [simp]: "slept (as @ bs) = slept as + slept bs"
  by (simp add: slept_def)

lemma send_command_run:
  assumes "cx_publish cx" "never_fails x"
  shows "\<exists>s' outs. run_alone (send_command x cx d j) (s, rs) = ((s', rs), Inr ()) \<and> es_out s' = es_out s @ outs
    \<and> es_world s' = es_world s \<and> slept outs = 0
    \<and> commands_to d outs = [with_command_change_metadata (xe x) j (rule_change x cx (w_now (es_world s)) ''rule'')]"
  using assms
  by (auto simp: send_command_def publish_device_command_def publish_to_def never_fails_def Let_def commands_to_def slept_def)

lemma fade_loop_run:
  assumes "cx_publish cx" "never_fails x"
  shows "\<exists>s' outs. run_alone (fade_loop x cx d st iv is) (s, rs) = ((s', rs), Inr ()) \<and> es_out s' = es_out s @ outs
    \<and> slept outs = length is * iv
    \<and> commands_to d outs =
        map (\<lambda>i. with_command_change_metadata (xe x) (st i) (rule_change x cx (w_now (es_world s)) ''rule'')) is"
proof (induction "is" arbitrary: s)
  case (Cons i "is")
  obtain s1 outs1 where s1: "run_alone (send_command x cx d (st i)) (emit (OSleep iv) s, rs) = ((s1, rs), Inr ())"
    "es_out s1 = es_out s @ [OSleep iv] @ outs1" "es_world s1 = es_world s" "slept outs1 = 0"
    "commands_to d outs1 = [with_command_change_metadata (xe x) (st i) (rule_change x cx (w_now (es_world s)) ''rule'')]"
    using send_command_run [OF assms, of d "st i" "emit (OSleep iv) s" rs] by auto
  obtain s2 outs2 where s2: "run_alone (fade_loop x cx d st iv is) (s1, rs) = ((s2, rs), Inr ())"
    "es_out s2 = es_out s1 @ outs2" "slept outs2 = length is * iv"
    "commands_to d outs2 =
        map (\<lambda>i. with_command_change_metadata (xe x) (st i) (rule_change x cx (w_now (es_world s)) ''rule'')) is"
    using Cons.IH [of s1] s1(3) by auto
  have "slept (OSleep iv # os) = iv + slept os" "commands_to d (OSleep iv # os) = commands_to d os" for os
    by (simp_all add: slept_def commands_to_def)
  with s1 s2 assms(1) show ?case
    by (intro exI [of _ s2] exI [of _ "[OSleep iv] @ outs1 @ outs2"]) simp
qed (simp add: slept_def commands_to_def)

lemma fade_steps_bounds: "2 \<le> fade_steps secs n" "fade_steps secs n \<le> 100"
  by (auto simp: fade_steps_def clamp_def)

lemma fade_value_last:
  assumes "\<bar>t\<bar> \<le> 2 ^ 52" "\<And>c. current k = Some c \<Longrightarrow> \<exists>i. c = Fin (rat_of_int i) \<and> \<bar>i\<bar> \<le> 2 ^ 52"
  shows "fade_value current (Fin 1) (k, json_int t) = (k, json_int t)"
proof -
  obtain i where i: "unwrap_or (current k) (Fin (rat_of_int t)) = Fin (rat_of_int i)" "\<bar>i\<bar> \<le> 2 ^ 52"
    using assms by (cases "current k") (auto simp: unwrap_or_def)
  have bounds: "\<bar>t\<bar> \<le> 2 ^ 53" "\<bar>t - i\<bar> \<le> 2 ^ 53" using assms(1) i(2) by (simp_all add: abs_le_iff)
  have "f64_op (-) (Fin (rat_of_int t)) (Fin (rat_of_int i)) = Fin (rat_of_int (t - i))"
    "f64_op (*) (Fin (rat_of_int (t - i))) (Fin 1) = Fin (rat_of_int (t - i))"
    using round_f64_int [OF bounds(2)] by (simp_all add: f64_op_def)
  moreover have "to_json_number (f64_op (+) (Fin (rat_of_int i)) (Fin (rat_of_int (t - i)))) = json_int t"
    by (rule f64_op_int [OF bounds(1)]) simp
  ultimately show ?thesis
    using as_f64_json_int [OF bounds(1)] i by (simp add: fade_value_def)
qed

lemma fade_state_last:
  assumes "map_of kvs k = Some (json_int t)" "\<bar>t\<bar> \<le> 2 ^ 52" "1 \<le> n" "n \<le> 100"
    "\<And>c. current k = Some c \<Longrightarrow> \<exists>i. c = Fin (rat_of_int i) \<and> \<bar>i\<bar> \<le> 2 ^ 52"
  shows "\<exists>kvs'. fade_state current (JObj kvs) n n = JObj kvs' \<and> map_of kvs' k = Some (json_int t)"
proof -
  have "f64_of_nat n = Fin (rat_of_nat n)" using assms(4) by (intro f64_of_nat_exact) simp
  then have "f64_op (/) (f64_of_nat n) (f64_of_nat n) = Fin 1"
    using round_f64_int [of 1] assms(3) by (simp add: f64_op_def)
  moreover have "map_of (map (fade_value current (Fin 1)) kvs) k = Some (json_int t)"
    using assms(1)
  proof (induction kvs)
    case (Cons kv kvs)
    have "fst (fade_value current (Fin 1) kv) = fst kv"
      by (auto simp: fade_value_def Let_def split: option.split)
    with Cons show ?case
      using fade_value_last [OF assms(2,5)] by (cases kv) (auto split: if_splits)
  qed simp
  ultimately show ?thesis by (simp add: fade_state_def)
qed

text \<open>
  C10. A fade sends its device between 2 and 100 commands, spread over no more than the time given
  and less than one millisecond per command short of it. Where the target and the value before are
  integers of at most 52 bits, the last command sets exactly the target.
\<close>

theorem fade_bounds:
  assumes "cx_publish cx" "never_fails x" "secs * 1000 < 2 ^ 64"
    and "run_alone (run_single_action x cx n (AcFadeDevice d (JObj target) secs wanted) snap) (s, rs) = ((s', rs'), r)"
  shows "\<exists>outs. r = Inr () \<and> es_out s' = es_out s @ outs
    \<and> 2 \<le> length (commands_to d outs) \<and> length (commands_to d outs) \<le> 100
    \<and> slept outs \<le> secs * 1000 \<and> secs * 1000 < slept outs + length (commands_to d outs)
    \<and> (\<forall>k t. map_of target k = Some (json_int t) \<and> \<bar>t\<bar> \<le> 2 ^ 52 \<and> k \<noteq> ''_hc'' \<and> k \<noteq> ''correlation_id''
          \<and> (\<forall>v. Option.bind (en_device_cache (es_engine s) d) (\<lambda>attrs. attrs k) = Some v \<longrightarrow>
               (\<exists>i. v = json_int i \<and> \<bar>i\<bar> \<le> 2 ^ 52))
        \<longrightarrow> json_get (last (commands_to d outs)) k = Some (json_int t))"
proof -
  let ?n = "fade_steps secs wanted" and ?iv = "secs * 1000 div fade_steps secs wanted"
  let ?cur = "\<lambda>k. Option.bind (Option.bind (en_device_cache (es_engine s) d) (\<lambda>attrs. attrs k)) as_f64"
  let ?meta = "\<lambda>j. with_command_change_metadata (xe x) j (rule_change x cx (w_now (es_world s)) ''rule'')"
  have mod: "secs * 1000 mod 2 ^ 64 = secs * 1000" using assms(3) by (rule mod_less)
  have "run_alone (fade_loop x cx d (fade_state ?cur (JObj target) ?n) ?iv [1..<Suc ?n]) (s, rs) = ((s', rs'), r)"
    using assms(4) unfolding run_single_action.simps leaf_action_def action.case do_fade_def mod by (simp add: Let_def)
  then obtain outs where outs: "r = Inr ()" "es_out s' = es_out s @ outs" "slept outs = ?n * ?iv"
    "commands_to d outs = map (\<lambda>i. ?meta (fade_state ?cur (JObj target) ?n i)) [1..<Suc ?n]"
    using fade_loop_run [OF assms(1,2), of d "fade_state ?cur (JObj target) ?n" ?iv "[1..<Suc ?n]" s rs] by auto
  have n: "2 \<le> ?n" "?n \<le> 100" by (rule fade_steps_bounds)+
  have len: "length (commands_to d outs) = ?n" by (simp add: outs(4))
  have "secs * 1000 mod ?n < ?n" using n by simp
  then have time: "slept outs \<le> secs * 1000" "secs * 1000 < slept outs + ?n"
    unfolding outs(3) using mult_div_mod_eq [of ?n "secs * 1000"] by linarith+
  have "json_get (last (commands_to d outs)) k = Some (json_int t)"
    if k: "map_of target k = Some (json_int t)" "\<bar>t\<bar> \<le> 2 ^ 52" "k \<noteq> ''_hc''" "k \<noteq> ''correlation_id''"
      and cur: "\<forall>v. Option.bind (en_device_cache (es_engine s) d) (\<lambda>attrs. attrs k) = Some v \<longrightarrow>
        (\<exists>i. v = json_int i \<and> \<bar>i\<bar> \<le> 2 ^ 52)" for k t
  proof -
    have "\<exists>i. c = Fin (rat_of_int i) \<and> \<bar>i\<bar> \<le> 2 ^ 52" if read: "?cur k = Some c" for c
    proof -
      obtain v where "Option.bind (en_device_cache (es_engine s) d) (\<lambda>attrs. attrs k) = Some v" "as_f64 v = Some c"
        using read bind_eq_Some_conv [of "Option.bind (en_device_cache (es_engine s) d) (\<lambda>attrs. attrs k)" as_f64 c]
        by blast
      moreover from this obtain i where "v = json_int i" "\<bar>i\<bar> \<le> 2 ^ 52" using cur by blast
      ultimately show ?thesis using as_f64_json_int [of i] by auto
    qed
    then obtain kvs' where "fade_state ?cur (JObj target) ?n ?n = JObj kvs'" "map_of kvs' k = Some (json_int t)"
      using fade_state_last [OF k(1,2), of ?n ?cur] n by auto
    then show ?thesis
      using metadata_keeps [OF k(3,4)] n(1) by (simp add: outs(4) last_map)
  qed
  then show ?thesis
    using outs(1,2) n time unfolding len [symmetric] by (intro exI [of _ outs]) blast
qed

text \<open>A lamp at 10 fades to 90 in two seconds, in four steps.\<close>

theorem fade_bounds_witness:
  "let s = sample_state\<lparr>es_engine := (new_engine [])\<lparr>en_device_cache := [''lamp'' \<mapsto> [''level'' \<mapsto> json_int 10]]\<rparr>\<rparr>;
       s' = fst (fst (run_alone (run_single_action sample_exec_ext sample_ctx 0
              (AcFadeDevice ''lamp'' (JObj [(''level'', json_int 90)]) 2 (Some 4)) Map.empty) (s, [])))
   in slept (es_out s') \<le> 2000 \<and> json_get (last (commands_to ''lamp'' (es_out s'))) ''level'' = Some (json_int 90)"
proof -
  let ?s = "sample_state\<lparr>es_engine := (new_engine [])\<lparr>en_device_cache := [''lamp'' \<mapsto> [''level'' \<mapsto> json_int 10]]\<rparr>\<rparr>"
  let ?r = "run_alone (run_single_action sample_exec_ext sample_ctx 0
      (AcFadeDevice ''lamp'' (JObj [(''level'', json_int 90)]) 2 (Some 4)) Map.empty) (?s, [])"
  have run: "?r = ((fst (fst ?r), snd (fst ?r)), snd ?r)" by (simp only: prod.collapse)
  have hyps: "cx_publish sample_ctx" "never_fails sample_exec_ext" "2 * 1000 < (2 ^ 64 :: nat)"
    by (simp_all add: sample_ctx_def never_fails_def sample_exec_ext_def)
  obtain outs where outs: "es_out (fst (fst ?r)) = es_out ?s @ outs" "slept outs \<le> 2 * 1000"
    "\<forall>k t. map_of [(''level'', json_int 90)] k = Some (json_int t) \<and> \<bar>t\<bar> \<le> 2 ^ 52 \<and> k \<noteq> ''_hc'' \<and> k \<noteq> ''correlation_id''
          \<and> (\<forall>v. Option.bind (en_device_cache (es_engine ?s) ''lamp'') (\<lambda>attrs. attrs k) = Some v \<longrightarrow>
               (\<exists>i. v = json_int i \<and> \<bar>i\<bar> \<le> 2 ^ 52))
        \<longrightarrow> json_get (last (commands_to ''lamp'' outs)) k = Some (json_int t)"
    using fade_bounds [OF hyps run] by blast
  have "json_get (last (commands_to ''lamp'' outs)) ''level'' = Some (json_int 90)"
    by (rule outs(3) [rule_format]) (simp, rule exI [of _ 10], simp)
  moreover have "es_out ?s = []" by (simp add: sample_state_def)
  ultimately show ?thesis using outs(1,2) by (simp only: Let_def append_Nil) simp
qed

end
