(* ===== verification/Rule_Run.thy ===== *)
theory Rule_Run
  imports Executor Engine
begin

text \<open>
  The task the engine spawns for a firing (the end of \<open>RuleEngine::fire\<close> in
  \<open>hc-core/src/engine.rs\<close>): the actions run in a context made for the firing, and when they have
  ended, with an error or without, the firing is recorded and the counters go down. A panic ends
  the task where it is.

  The context's objects have the number \<open>i\<close>; \<open>es_exit\<close> at \<open>i\<close> is the flag a restart of the rule sets.
\<close>

definition run_context :: "bool \<Rightarrow> bool \<Rightarrow> run_task \<Rightarrow> nat \<Rightarrow> string \<Rightarrow> ectx" where
  "run_context publish notify t i correlation =
     \<lparr>cx_id = i, cx_publish = publish, cx_notify = notify, cx_event_bus = True, cx_state = True,
      cx_trigger_ctx = rt_tctx t, cx_rule_id = ru_id (rt_rule t), cx_rule_name = ru_name (rt_rule t),
      cx_trace = True, cx_correlation_id = Some correlation,
      cx_judge = Some (ru_id (rt_rule t), trigger_alert_id (rt_tctx t))\<rparr>"

definition rule_run :: "exec_ext \<Rightarrow> bool \<Rightarrow> bool \<Rightarrow> run_task \<Rightarrow> nat \<Rightarrow> string \<Rightarrow> proc" where
  "rule_run x publish notify t i correlation =
     bind_process
       (execute_actions x (run_context publish notify t i correlation) (ru_actions (rt_rule t)) (rt_snapshot t))
       (\<lambda>r. case r of
           Inl (Panicked e) \<Rightarrow> Done (Inl (Panicked e))
         | _ \<Rightarrow> step (\<lambda>s. on_engine (finish_run (es_world s) t (es_trace s i)) s))"

end
