(* ===== verification/Executor_Safety.thy ===== *)
theory Executor_Safety
  imports Executor_Theorems Rule_Run
begin

text \<open>
  What runs leave of the variables, whatever runs beside them; and two ways in which runs go
  wrong: alert loops side by side share the alert they are on, and a text that is cut inside a
  character takes the run down with its bookkeeping.
\<close>

subsection \<open>JSON values\<close>

text \<open>What a JSON number can be: an unsigned or a negative 64-bit integer, or a finite float.\<close>

definition number_ok :: "json_number \<Rightarrow> bool" where
  "number_ok n =
     (case n of PosInt k \<Rightarrow> k < 2 ^ 64 | NegInt i \<Rightarrow> - (2 ^ 63) \<le> i \<and> i < 0 | Float f \<Rightarrow> is_finite f)"

primrec json_ok :: "json \<Rightarrow> bool" where
  "json_ok JNull = True"
| "json_ok (JBool b) = True"
| "json_ok (JNum n) = number_ok n"
| "json_ok (JStr s) = True"
| "json_ok (JArr xs) = list_all id (map json_ok xs)"
| "json_ok (JObj kvs) = list_all snd (map (map_prod id json_ok) kvs)"

lemma to_json_number_ok [simp]: "json_ok (to_json_number f)"
proof (cases f)
  case (Fin q)
  show ?thesis
  proof (cases "q = rat_of_int \<lfloor>q\<rfloor> \<and> - (2 ^ 63) \<le> q \<and> q \<le> 2 ^ 63")
    case True
    have "- (2 ^ 63) \<le> \<lfloor>q\<rfloor>" using True by (simp add: le_floor_iff)
    then show ?thesis
      using True Fin by (auto simp: to_json_number_def number_ok_def Let_def min_def)
  qed (auto simp: Fin to_json_number_def number_ok_def is_finite_def)
qed (simp_all add: to_json_number_def)

lemma apply_variable_op_ok: "json_ok v \<Longrightarrow> json_ok (apply_variable_op op prev v)"
  by (cases op) (simp_all add: apply_variable_op_def Let_def)

function action_ok :: "action \<Rightarrow> bool" where
  "action_ok a =
     (case a of
        AcSetVariable _ v _ \<Rightarrow> json_ok v
      | AcSetHubVariable _ v _ \<Rightarrow> json_ok v
      | AcParallel as \<Rightarrow> \<forall>b \<in> set as. action_ok b
      | AcRepeatUntil _ as _ _ \<Rightarrow> \<forall>b \<in> set as. action_ok b
      | AcRepeatWhile _ as _ _ \<Rightarrow> \<forall>b \<in> set as. action_ok b
      | AcRepeatCount _ as _ \<Rightarrow> \<forall>b \<in> set as. action_ok b
      | AcConditional _ as branches otherwise \<Rightarrow>
          (\<forall>b \<in> set as. action_ok b)
          \<and> (\<forall>br \<in> set branches. case br of ConditionalBranch _ bs \<Rightarrow> \<forall>b \<in> set bs. action_ok b)
          \<and> (\<forall>b \<in> set otherwise. action_ok b)
      | AcForEachAlert _ as \<Rightarrow> \<forall>b \<in> set as. action_ok b
      | AcWaitAlertCleared _ _ as \<Rightarrow> \<forall>b \<in> set as. action_ok b
      | AcPingHost _ _ _ as otherwise _ \<Rightarrow> (\<forall>b \<in> set as. action_ok b) \<and> (\<forall>b \<in> set otherwise. action_ok b)
      | _ \<Rightarrow> True)"
  by pat_completeness auto
termination
  by (relation "measure size") (auto dest!: member_size branch_size)

declare action_ok.simps [simp del]

lemmas action_ok_cases [simp] = action_ok.simps [of "AcSetVariable n v op" for n v op, simplified]
  action_ok.simps [of "AcSetHubVariable n v op" for n v op, simplified]
  action_ok.simps [of "AcParallel as" for as, simplified]
  action_ok.simps [of "AcRepeatUntil c as m i" for c as m i, simplified]
  action_ok.simps [of "AcRepeatWhile c as m i" for c as m i, simplified]
  action_ok.simps [of "AcRepeatCount n as i" for n as i, simplified]
  action_ok.simps [of "AcConditional c as bs os" for c as bs os, simplified]
  action_ok.simps [of "AcForEachAlert f as" for f as, simplified]
  action_ok.simps [of "AcWaitAlertCleared i n as" for i n as, simplified]
  action_ok.simps [of "AcPingHost h n t as os r" for h n t as os r, simplified]

subsection \<open>The variables under any interleaving\<close>

definition vars_ok :: "engine \<Rightarrow> bool" where
  "vars_ok en \<longleftrightarrow>
     (\<forall>v \<in> ran (en_rule_vars en). json_ok v) \<and> (\<forall>v \<in> ran (en_hub_vars en). json_ok v)
     \<and> (\<forall>r \<in> set (en_rules en). \<forall>ra \<in> set (ru_actions r). action_ok (ra_action ra))"

abbreviation typed :: "exec_state \<Rightarrow> bool" where
  "typed s \<equiv> vars_ok (es_engine s)"

lemma keeps_simps [simp]:
  "keeps I ok" "keeps I (failed e)" "keeps I await" "keeps I (await_until b)" "keeps I (panicked_at n)"
  "keeps I (step f) \<longleftrightarrow> (\<forall>s. I s \<longrightarrow> I (f s))" "keeps I (act f r) \<longleftrightarrow> (\<forall>s. I s \<longrightarrow> I (f s))"
  "keeps I (effect h) \<longleftrightarrow> (\<forall>s. I s \<longrightarrow> I (fst (h s)))" "keeps I (look g) \<longleftrightarrow> (\<forall>s. I s \<longrightarrow> keeps I (g s))"
  "keeps I (sleep_ms n) \<longleftrightarrow> (\<forall>s. I s \<longrightarrow> I (emit (OSleep n) s))"
  by (simp_all add: ok_def failed_def step_def effect_def await_def await_until_def sleep_ms_def act_def look_def panicked_at_def)

lemma keeps_andthen [intro]: "keeps I p \<Longrightarrow> keeps I q \<Longrightarrow> keeps I (andthen p q)"
  unfolding andthen_def by (rule keeps_bind) (auto split: sum.split)

lemma engine_untouched [simp]:
  "es_engine (fst (publish_to x out s)) = es_engine s"
  "es_engine (fst (publish_device_command x cx d j ch s)) = es_engine s"
  "es_engine (publish_quietly cx x out s) = es_engine s" "es_engine (emit_event cx e s) = es_engine s"
  "es_engine (announce x cx name j s) = es_engine s" "es_engine (record_trace cx idx a desc t r s) = es_engine s"
  "es_engine (push_trace cx tr s) = es_engine s" "es_engine (set_current_alert cx al s) = es_engine s"
  "es_engine (new_context i s) = es_engine s" "es_engine (on_engine f s) = f (es_engine s)"
proof -
  show p: "es_engine (fst (publish_to x out s)) = es_engine s" for x out s
    by (simp add: publish_to_def split: option.split)
  show "es_engine (fst (publish_device_command x cx d j ch s)) = es_engine s"
    using p by (auto simp: publish_device_command_def Let_def split: sum.split)
  show q: "es_engine (publish_quietly cx x out s) = es_engine s" for cx x out s
    using p by (simp add: publish_quietly_def)
  show e: "es_engine (emit_event cx e s) = es_engine s" for cx e s
    by (simp add: emit_event_def)
  show "es_engine (announce x cx name j s) = es_engine s"
    using q e by (simp add: announce_def Let_def)
  show "es_engine (record_trace cx idx a desc t r s) = es_engine s"
    by (auto simp: record_trace_def push_trace_def Let_def split: sum.split exec_error.split)
qed (simp_all add: push_trace_def set_current_alert_def new_context_def on_engine_def)

lemma vars_ok_updates [simp]:
  "vars_ok (en\<lparr>en_delay_registry := D\<rparr>) = vars_ok en" "vars_ok (en\<lparr>en_pause_state := P\<rparr>) = vars_ok en"
  "vars_ok (en\<lparr>en_priv_bools := B\<rparr>) = vars_ok en" "vars_ok (en\<lparr>en_capture_store := C\<rparr>) = vars_ok en"
  "vars_ok (cancel_prefix p en) = vars_ok en"
  by (simp_all add: vars_ok_def cancel_prefix_def)

lemma vars_ok_set:
  "vars_ok en \<Longrightarrow> json_ok v \<Longrightarrow> vars_ok (en\<lparr>en_rule_vars := (en_rule_vars en)(k \<mapsto> v)\<rparr>)"
  "vars_ok en \<Longrightarrow> json_ok v \<Longrightarrow> vars_ok (en\<lparr>en_hub_vars := (en_hub_vars en)(n \<mapsto> v)\<rparr>)"
  by (auto simp: vars_ok_def ran_def)

lemma call_attempts_keeps [simp]: "keeps typed (call_attempts x cx url m body re n i e)"
  by (induction n arbitrary: i e)
     (auto intro!: keeps_andthen simp: Let_def publish_result_def split: option.split http_result.split)

lemma effects_keeps [simp]: "keeps typed (run_effects x cx es)"
  by (induction es)
     (auto intro!: keeps_andthen simp: execute_script_effect_def publish_result_def Let_def split: script_effect.split)

lemma send_states_keeps [simp]: "keeps typed (send_states x cx ch ps)"
  by (induction ps) auto

lemma fade_loop_keeps [simp]: "keeps typed (fade_loop x cx d st n is)"
  by (induction "is") (auto simp: send_command_def intro!: keeps_andthen)

lemma save_ignore_keeps [simp]: "keeps typed (save_ignore x cx i)"
  by (auto simp: save_ignore_def Let_def split: option.split)

lemma ignore_devices_keeps [simp]: "keeps typed (ignore_devices x cx i ds)"
  by (induction ds) auto

lemma leaf_keeps: "action_ok a \<Longrightarrow> keeps typed (leaf_action x cx snap a)"
  by (cases a)
     (auto simp: leaf_action_def leaf_defs Let_def split: option.split sum.split alert_action_target.split
       intro!: keeps_andthen vars_ok_set apply_variable_op_ok)

lemma loop_keeps:
  "(\<And>sn. keeps typed (body sn)) \<Longrightarrow> keeps typed (until_loop x cx c delay body n)"
  "(\<And>sn. keeps typed (body sn)) \<Longrightarrow> keeps typed (while_loop x cx c delay body n)"
  "keeps typed p \<Longrightarrow> keeps typed (count_loop cx delay p n)"
  "keeps typed p \<Longrightarrow> keeps typed (each_alert cx b p as)"
proof -
  show "keeps typed (until_loop x cx c delay body n)" if "\<And>sn. keeps typed (body sn)"
    by (induction n) (auto split: sum.split intro!: keeps_andthen that)
  show "keeps typed (while_loop x cx c delay body n)" if "\<And>sn. keeps typed (body sn)"
    by (induction n) (auto split: sum.split intro!: keeps_andthen that simp: Let_def)
  show "keeps typed (count_loop cx delay p n)" if "keeps typed p"
    by (induction n) (auto intro!: keeps_andthen that)
  show "keeps typed (each_alert cx b p as)" if "keeps typed p"
    by (induction as) (auto intro!: keeps_bind [OF that] split: sum.split exec_error.split)
qed

lemma branches_keep:
  assumes "keeps typed otherwise" "\<And>b. b \<in> set bs \<Longrightarrow> keeps typed (snd b)"
  shows "keeps typed (else_branches x cx snap otherwise bs)"
  using assms by (induction bs) (auto split: sum.split)

lemma spawn_all_keeps:
  assumes "\<And>p. p \<in> set ps \<Longrightarrow> keeps typed p"
  shows "keeps typed (spawn_all x ps ids)"
proof -
  have "keeps typed (join_all x is)" for "is"
    by (induction "is") (auto split: sum.split exec_error.split)
  with assms show ?thesis by (induction ps arbitrary: ids) auto
qed

lemma traced_keeps: "keeps typed p \<Longrightarrow> keeps typed (traced x cx idx a p)"
  by (auto simp: traced_def intro!: keeps_bind split: option.split sum.split exec_error.split)

lemma executor_keeps:
  "action_ok a \<Longrightarrow> keeps typed (run_single_action x cx d a snap)"
  "\<forall>a \<in> set as. action_ok a \<Longrightarrow> keeps typed (execute_actions_inner x cx d idx as snap)"
  "\<forall>ra \<in> set ras. action_ok (ra_action ra) \<Longrightarrow> keeps typed (execute_actions_at x cx d idx ras snap)"
proof (induction x cx d a snap and x cx d idx as snap and x cx d idx ras snap
    rule: run_single_action_execute_actions_inner_execute_actions_at.induct)
  case (1 x cx d as snap)
  then show ?case by (auto intro!: spawn_all_keeps)
next
  case (5 x cx d check as branches otherwise snap)
  have "keeps typed (else_branches x cx snap (execute_actions_inner x cx d 0 otherwise snap)
      (map (\<lambda>b. case b of ConditionalBranch c bs \<Rightarrow> (c, execute_actions_inner x cx d 0 bs snap)) branches))"
    using 5 by (intro branches_keep) (fastforce split: conditional_branch.splits)+
  then show ?case using 5 by (auto simp: conditional_def split: sum.split)
next
  case (6 x cx d rid snap)
  have "keeps typed (execute_actions_at x (sub_context cx r (es_next s)) (Suc d) 0 (ru_actions r)
      (en_device_cache (es_engine s)))"
    if "typed s" "List.find (\<lambda>r. ru_id r = rid) (en_rules (es_engine s)) = Some r" "\<not> MAX_CALL_DEPTH \<le> d" for s r
  proof (rule 6(1) [OF that(3,2)])
    have "r \<in> set (en_rules (es_engine s))" using that(2) by (auto simp: find_Some_iff)
    then show "\<forall>ra \<in> set (ru_actions r). action_ok (ra_action ra)" using that(1) by (simp add: vars_ok_def)
  qed
  then show ?case by (auto split: option.split)
next
  case (7 x cx d f as snap)
  then show ?case by (auto intro!: loop_keeps)
next
  case (8 x cx d i secs otherwise snap)
  then show ?case by (auto simp: do_wait_alert_cleared_def intro!: keeps_andthen split: option.split)
next
  case (9 x cx d host cnt timeout as otherwise re snap)
  then show ?case by (auto simp: do_ping_def Let_def case_prod_beta split: option.split)
qed (auto intro!: loop_keeps keeps_andthen traced_keeps leaf_keeps simp: skip_trace_def split: option.split)

text \<open>
  Whatever actions run and however their tasks are interleaved with one another and with the
  rest of the hub, every rule variable and every hub variable stays a JSON value: its numbers are
  64-bit integers or finite floats. Arithmetic on variables saturates, rounds or gives null, and
  never leaves an infinity, a NaN or an integer out of range behind.
\<close>

theorem variables_stay_json:
  fixes c :: "nat \<Rightarrow> exec_state \<times> proc list"
  assumes "snd (c 0) = [execute_actions x cx actions snap]" "vars_ok (es_engine (fst (c 0)))"
    and "\<forall>ra \<in> set actions. action_ok (ra_action ra)"
    and "\<And>n. (\<exists>i. task_step (c n) i (c (Suc n)))
      \<or> snd (c (Suc n)) = snd (c n) \<and> (vars_ok (es_engine (fst (c n))) \<longrightarrow> vars_ok (es_engine (fst (c (Suc n)))))"
  shows "vars_ok (es_engine (fst (c n)))"
  by (rule pool_keeps [where I = typed])
     (use assms executor_keeps(3) in \<open>auto simp: execute_actions_def\<close>)

lemma greedy_keeps:
  "(\<exists>i. task_step ((greedy ^^ n) c) i ((greedy ^^ Suc n) c))
   \<or> snd ((greedy ^^ Suc n) c) = snd ((greedy ^^ n) c) \<and> (P (fst ((greedy ^^ n) c)) \<longrightarrow> P (fst ((greedy ^^ Suc n) c)))"
  by (cases rule: greedy_cases [of "(greedy ^^ n) c"]) auto

text \<open>Two tasks that multiply a large variable.\<close>

theorem variables_stay_json_witness:
  "let grow = AcSetVariable ''n'' (JNum (Float (Fin (10 ^ 300)))) (Some VMultiply);
       start = (sample_state, [execute_actions sample_exec_ext sample_ctx [always (AcParallel [grow, grow])] Map.empty])
   in vars_ok (es_engine (fst ((greedy ^^ 20) start)))"
proof -
  let ?grow = "AcSetVariable ''n'' (JNum (Float (Fin (10 ^ 300)))) (Some VMultiply)"
  let ?start = "(sample_state, [execute_actions sample_exec_ext sample_ctx [always (AcParallel [?grow, ?grow])] Map.empty])"
  have start: "snd ((greedy ^^ 0) ?start) =
      [execute_actions sample_exec_ext sample_ctx [always (AcParallel [?grow, ?grow])] Map.empty]" by simp
  have vars: "vars_ok (es_engine (fst ((greedy ^^ 0) ?start)))"
    by (simp add: vars_ok_def sample_state_def new_engine_def initial_vars_def)
  have acts: "\<forall>ra \<in> set [always (AcParallel [?grow, ?grow])]. action_ok (ra_action ra)"
    by (simp add: always_def number_ok_def is_finite_def)
  have next': "(\<exists>i. task_step ((greedy ^^ n) ?start) i ((greedy ^^ Suc n) ?start))
      \<or> snd ((greedy ^^ Suc n) ?start) = snd ((greedy ^^ n) ?start) \<and>
        (vars_ok (es_engine (fst ((greedy ^^ n) ?start))) \<longrightarrow> vars_ok (es_engine (fst ((greedy ^^ Suc n) ?start))))" for n
    by (rule greedy_keeps)
  show ?thesis
    unfolding Let_def by (rule variables_stay_json [where c = "\<lambda>n. (greedy ^^ n) ?start", OF start vars acts next'])
qed

subsection \<open>Alert loops side by side\<close>

lemma state_parts [simp]:
  "es_world (record_trace cx idx a desc t r s) = es_world s"
  "es_current_alert (record_trace cx idx a desc t r s) = es_current_alert s"
  "es_world (emit_event cx e s) = es_world s" "es_exit (emit_event cx e s) = es_exit s"
  "es_current_alert (emit_event cx e s) = es_current_alert s"
  "es_world (set_current_alert cx al s) = es_world s" "es_exit (set_current_alert cx al s) = es_exit s"
  "es_current_alert (set_current_alert cx al s) = (es_current_alert s)(cx_id cx := al)"
  by (auto simp: record_trace_def push_trace_def emit_event_def emit_def set_current_alert_def Let_def
      split: sum.split exec_error.split)

text \<open>
  Two \<open>ForEachAlert\<close> loops in the branches of a \<open>Parallel\<close> share the alert they are on. With one
  alert each to mark as seen, there is an interleaving in which both loops end without error and
  mark the second's alert: the first's stays as it was.
\<close>

theorem alert_loops_race:
  assumes "w_alerts (es_world s) = Some [a, b]" "al_id a \<noteq> al_id b" "\<not> es_exit s (cx_id cx)"
    and "al_acknowledged a = None" "al_acknowledged b = None"
    and "filter_matches fa a" "\<not> filter_matches fa b" "filter_matches fb b" "\<not> filter_matches fb a"
  shows "\<exists>s'. (\<lambda>c d. \<exists>i. task_step c i d)\<^sup>*\<^sup>*
      (s, [execute_actions x cx [always (AcParallel [AcForEachAlert fa [AcAcknowledgeAlert None],
        AcForEachAlert fb [AcAcknowledgeAlert None]])] snap])
      (s', replicate 3 (Done (Inr ())))
    \<and> w_alerts (es_world s') = Some [a, b\<lparr>al_acknowledged :=
        Some \<lparr>ack_by = ''automation '' @ quoted_name (cx_rule_name cx), ack_at = w_now (es_world s)\<rparr>\<rparr>]"
proof -
  let ?seen = "b\<lparr>al_acknowledged :=
      Some \<lparr>ack_by = ''automation '' @ quoted_name (cx_rule_name cx), ack_at = w_now (es_world s)\<rparr>\<rparr>"
  have "\<exists>s'. follow ([0, 0, 0, 0, 1, 2, 1, 2] @ replicate 5 1 @ replicate 5 2 @ [1, 2, 0, 0, 0])
      (s, [execute_actions x cx [always (AcParallel [AcForEachAlert fa [AcAcknowledgeAlert None],
        AcForEachAlert fb [AcAcknowledgeAlert None]])] snap]) = Some (s', replicate 3 (Done (Inr ())))
    \<and> w_alerts (es_world s') = Some [a, ?seen]"
    by (simp add: assms execute_actions_def always_def step_task_def look_def andthen_def traced_def
        action_description_def Let_def exits_def eval_nat_numeral leaf_action_def do_acknowledge_alert_def
        the_alert_def live_alert_def step_def act_def acknowledge_def ok_def)
  then show ?thesis using follow_steps by blast
qed

definition sample_alert :: "string \<Rightarrow> alert_kind \<Rightarrow> alert" where
  "sample_alert i k =
     \<lparr>al_id = i, al_kind = k, al_device_id = ''door'', al_rule_id = None, al_message = ''m'', al_reason = ''r'',
      al_severity = Warning, al_raised_at = 0, al_acknowledged = None, al_plugin_id = None, al_topic = None,
      al_key = None, al_action = None, al_device_plugin_id = None\<rparr>"

theorem alert_loops_race_witness:
  "let a = sample_alert ''1'' Wet; b = sample_alert ''2'' Smoke;
       only = (\<lambda>k. alert_filter_default\<lparr>af_kind := Some k\<rparr>);
       s = sample_state\<lparr>es_world := sample_world\<lparr>w_alerts := Some [a, b]\<rparr>\<rparr>
   in \<exists>s'. (\<lambda>c d. \<exists>i. task_step c i d)\<^sup>*\<^sup>*
      (s, [execute_actions sample_exec_ext sample_ctx [always (AcParallel [AcForEachAlert (only Wet) [AcAcknowledgeAlert None],
        AcForEachAlert (only Smoke) [AcAcknowledgeAlert None]])] Map.empty])
      (s', replicate 3 (Done (Inr ())))
    \<and> w_alerts (es_world s') = Some [a, b\<lparr>al_acknowledged :=
        Some \<lparr>ack_by = ''automation '' @ quoted_name ''evening'', ack_at = 0\<rparr>\<rparr>]"
  using alert_loops_race [of "sample_state\<lparr>es_world := sample_world\<lparr>w_alerts := Some [sample_alert ''1'' Wet, sample_alert ''2'' Smoke]\<rparr>\<rparr>"
      "sample_alert ''1'' Wet" "sample_alert ''2'' Smoke" sample_ctx "alert_filter_default\<lparr>af_kind := Some Wet\<rparr>"
      "alert_filter_default\<lparr>af_kind := Some Smoke\<rparr>" sample_exec_ext Map.empty]
  by (simp add: sample_alert_def sample_state_def sample_ctx_def sample_world_def filter_matches_def alert_filter_default_def)

subsection \<open>A text cut inside a character\<close>

text \<open>
  A notification whose text has a character across its 60th byte takes its rule down. Without
  a panic handler around the actions, the run ends before the notification goes out, nothing is
  recorded, and the counters stay up: a rule in single mode never runs again for any event.
\<close>

theorem cut_text_stops_rule:
  assumes "ru_actions (rt_rule t) = ra # ras" "ra_action ra = AcNotify channel message title"
    and "byte_prefix 60 message = None" "\<not> es_exit s i" "ru_run_mode (rt_rule t) = Single"
    and "en_rule_in_flight (es_engine s) (ru_id (rt_rule t)) = Some (rt_obj t)"
    and "0 < rr_count (en_heap (es_engine s) (rt_obj t))"
  shows "(\<exists>e. run_alone (rule_run x publish notify t i correlation) (s, rs) = ((s, rs), Inl (Panicked e)))
    \<and> en_runs (fst (fire y w ms (rt_rule t) tctx why (es_engine s))) = en_runs (es_engine s)"
proof
  let ?cx = "run_context publish notify t i correlation"
  have none: "action_description x ?cx s (ra_action ra) = None"
    using assms(2,3) by (simp add: action_description_def Let_def)
  have "\<not> exits ?cx s" "cx_trace ?cx" using assms(4) by (simp_all add: exits_def run_context_def)
  with none have "\<exists>e. run_alone (execute_actions x ?cx (ra # ras) (rt_snapshot t)) (s, rs) = ((s, rs), Inl (Panicked e))"
    by (simp add: execute_actions_def traced_def skip_trace_def)
  then show "\<exists>e. run_alone (rule_run x publish notify t i correlation) (s, rs) = ((s, rs), Inl (Panicked e))"
    unfolding rule_run_def assms(1) run_alone_bind by auto
  show "en_runs (fst (fire y w ms (rt_rule t) tctx why (es_engine s))) = en_runs (es_engine s)"
    using assms(5-7)
    by (auto simp: fire_def fire_checked_def Let_def run_mode_gate_def runs_of_def refuse_def push_history_def cut_delays_def
        split: option.split sum.split bool.split)
qed

text \<open>A message whose 60th byte is the second one of a pound sign, in a rule with one run in flight.\<close>

theorem cut_text_stops_rule_witness:
  "let r = sample_rule\<lparr>ru_actions := [always (AcNotify ''all'' (replicate 59 CHR ''a'' @ [CHR 0xC2, CHR 0xA3]) None)],
         ru_run_mode := Single\<rparr>;
       en = fst (fire sample_externals sample_world 0 r trigger_context_default RunEvent (new_engine [r]));
       t = hd (en_runs en)
   in (\<exists>e. run_alone (rule_run sample_exec_ext True True t 1 ''c'') (sample_state\<lparr>es_engine := en\<rparr>, []) =
         ((sample_state\<lparr>es_engine := en\<rparr>, []), Inl (Panicked e)))
     \<and> en_runs (fst (fire sample_externals sample_world 0 r trigger_context_default RunEvent en)) = en_runs en"
proof -
  let ?msg = "replicate 59 CHR ''a'' @ [CHR 0xC2, CHR 0xA3]"
  let ?r = "sample_rule\<lparr>ru_actions := [always (AcNotify ''all'' ?msg None)], ru_run_mode := Single\<rparr>"
  let ?en = "fst (fire sample_externals sample_world 0 ?r trigger_context_default RunEvent (new_engine [?r]))"
  let ?t = "hd (en_runs ?en)"
  have t: "rt_rule ?t = ?r" "rt_obj ?t = 0" "en_rule_in_flight ?en 1 = Some 0" "rr_count (en_heap ?en 0) = 1"
    by (simp_all add: fire_def fire_checked_def Let_def is_paused_def cooldown_left_def gate_def run_mode_gate_def runs_of_def
        spawn_run_def run_checks_def sample_rule_def new_engine_def conditions_passed_def rule_runs_default_def)
  have "128 \<le> byte (CHR 0xA3) \<and> byte (CHR 0xA3) < 192" by (simp add: byte_def)
  then have "byte_prefix 60 ?msg = None"
    by (simp add: byte_prefix_def is_char_boundary_def nth_append)
  with t show ?thesis
    using cut_text_stops_rule [of ?t "always (AcNotify ''all'' ?msg None)" "[]" "''all''" ?msg None
        "sample_state\<lparr>es_engine := ?en\<rparr>" 1 sample_exec_ext True True "''c''" "[]" sample_externals sample_world 0
        trigger_context_default RunEvent]
    unfolding Let_def by (simp add: always_def sample_state_def sample_rule_def)
qed

end
