(* ===== verification/Device_Schema.thy ===== *)
theory Device_Schema
  imports Timers
begin

text \<open>
  Device schemas (\<open>hc-types/src/schema.rs\<close>) and those the hub declares for the devices it owns
  itself (\<open>hc-core/src/glue/schema.rs\<close>): what an attribute means, which commands a device
  takes, and which attributes a client shows first. A map from attribute names is an association
  list. The derived serializers are not modelled; the hand-written ones are.
\<close>

subsection \<open>Declarations\<close>

datatype attribute_kind =
  AkBool | AkInteger | AkFloat | AkString | AkEnum | AkColorXy | AkColorRgb | AkColorTemp | AkJson

datatype attribute_category = Diagnostic | Config

record attribute_option =
  ao_value :: string
  ao_label :: "string option"
  ao_icon :: "string option"

record state_label =
  sl_label :: string
  sl_verb :: "string option"

record bool_states =
  bs_when_true :: state_label
  bs_when_false :: state_label

record attribute_schema =
  as_kind :: attribute_kind
  as_writable :: bool
  as_display_name :: "string option"
  as_unit :: "string option"
  as_min :: "f64 option"
  as_max :: "f64 option"
  as_step :: "f64 option"
  as_options :: "attribute_option list option"
  as_category :: "attribute_category option"
  as_states :: "bool_states option"

datatype param_kind =
    PkBool | PkInt | PkFloat | PkString | PkEnum | PkDuration | PkDeviceRef | PkColorTemp | PkColorXy | PkColorRgb | PkJson

record param_option =
  po_value :: string
  po_label :: "string option"

datatype option_source =
    FromAttribute string "string option" "string option"
  | FromDevices "string option" "string option" "string option" bool
  | FromModes
  | FromScenes

record param_spec =
  ps_name :: string
  ps_kind :: param_kind
  ps_label :: "string option"
  ps_required :: bool
  ps_default :: "json option"
  ps_unit :: "string option"
  ps_min :: "f64 option"
  ps_max :: "f64 option"
  ps_step :: "f64 option"
  ps_options :: "param_option list option"
  ps_options_from :: "option_source option"

datatype requires_role = RrAdmin | RrUser | RrReadOnly

record device_action =
  da_id :: string
  da_label :: string
  da_description :: "string option"
  da_category :: "string option"
  da_icon :: "string option"
  da_params :: "param_spec list"
  da_writes :: "string option"
  da_sentence :: "string option"
  da_confirm :: "string option"
  da_requires_role :: requires_role

record device_schema =
  ds_attributes :: "(string \<times> attribute_schema) list"
  ds_actions :: "device_action list"
  ds_primary :: "string list"

subsection \<open>What a client shows first\<close>

definition readings_for_type :: "string \<Rightarrow> string list" where
  "readings_for_type t =
     (if t = ''light'' then [''on'', ''brightness_pct'', ''color_temp'', ''color_xy'']
      else if t \<in> {''switch'', ''virtual_switch''} then [''on'']
      else if t = ''fan'' then [''on'', ''speed'', ''speed_pct'']
      else if t = ''cover'' then [''position'']
      else if t = ''lock'' then [''locked'']
      else if t = ''contact_sensor'' then [''open'', ''contact'']
      else if t \<in> {''motion_sensor'', ''occupancy_sensor''} then [''motion'', ''occupied'', ''occupancy'']
      else if t = ''water_sensor'' then [''water_detected'']
      else if t = ''temperature_sensor'' then [''temperature'', ''humidity'']
      else if t = ''sensor'' then [''value'']
      else if t = ''binary_sensor'' then [''on'', ''state'']
      else if t = ''thermostat'' then [''current_temperature'', ''setpoint'', ''mode'']
      else if t = ''media_player'' then [''state'']
      else if t = ''scene'' then [''active'', ''on'']
      else if t = ''timer'' then [''state'', ''remaining_secs'']
      else if t = ''counter'' then [''count'']
      else if t = ''mode'' then [''on'']
      else if t \<in> {''group'', ''schedule''} then [''active'']
      else if t = ''threshold'' then [''above'']
      else [])"

definition READING_RANK :: "string list" where
  "READING_RANK =
     [''motion'', ''occupancy'', ''occupied'', ''open'', ''contact'', ''water_detected'', ''smoke'', ''tampered'',
      ''locked'', ''on'', ''active'', ''state'', ''position'', ''speed'', ''brightness_pct'', ''current_temperature'',
      ''temperature'', ''humidity'', ''illuminance'', ''lux'', ''power_w'', ''value'']"

definition take_name :: "string \<Rightarrow> string list \<times> string list \<Rightarrow> string list \<times> string list" where
  "take_name name = (\<lambda>(ordered, left). if name \<in> set left then (ordered @ [name], remove1 name left) else (ordered, left))"

definition fill_primary :: "string option \<Rightarrow> device_schema \<Rightarrow> device_schema" where
  "fill_primary device_type s =
     (if ds_primary s \<noteq> [] then s
      else
        let candidates = sort (map fst (filter (\<lambda>(_, a). as_category a = None) (ds_attributes s)));
            typed = fold take_name (readings_for_type (unwrap_or device_type [])) ([], candidates);
            (ordered, left) = fold take_name READING_RANK typed in
        s\<lparr>ds_primary := ordered @ left\<rparr>)"

subsection \<open>Building and reading declarations\<close>

definition ends_with :: "string \<Rightarrow> string \<Rightarrow> bool" where
  "ends_with p s \<longleftrightarrow> starts_with (rev p) (rev s)"

definition for_name :: "string \<Rightarrow> attribute_category option" where
  "for_name name =
     (if ends_with ''_unit'' name then Some Diagnostic
      else if starts_with ''supports_'' name then Some Diagnostic
      else if name \<in> {''battery'', ''battery_pct'', ''battery_low'', ''battery_kind'', ''battery_state'', ''rssi'',
          ''lqi'', ''signal_strength'', ''link_quality'', ''firmware'', ''sw_version'', ''hw_version'', ''uptime'',
          ''last_seen''} then Some Diagnostic
      else if name \<in> {''ip'', ''mac'', ''model'', ''manufacturer'', ''serial'', ''serial_number'', ''name'', ''area'',
          ''location'', ''kind'', ''bridge_id'', ''resource_id'', ''node_id''} then Some Diagnostic
      else None)"

definition param_kind_of :: "string \<Rightarrow> param_kind" where
  "param_kind_of s =
     (if s = ''bool'' then PkBool else if s = ''int'' then PkInt else if s = ''float'' then PkFloat
      else if s = ''string'' then PkString else if s = ''enum'' then PkEnum else if s = ''duration'' then PkDuration
      else if s = ''device_ref'' then PkDeviceRef else if s = ''color_temp'' then PkColorTemp
      else if s = ''color_xy'' then PkColorXy else if s = ''color_rgb'' then PkColorRgb else PkJson)"

definition option_new :: "string \<Rightarrow> attribute_option" where
  "option_new v = \<lparr>ao_value = v, ao_label = None, ao_icon = None\<rparr>"

definition is_bare :: "attribute_option \<Rightarrow> bool" where
  "is_bare o' \<longleftrightarrow> ao_label o' = None \<and> ao_icon o' = None"

definition option_to_json :: "attribute_option \<Rightarrow> json" where
  "option_to_json o' =
     (if is_bare o' then JStr (ao_value o')
      else JObj (obj_insert ''value'' (JStr (ao_value o'))
        ((case ao_icon o' of Some i \<Rightarrow> [(''icon'', JStr i)] | None \<Rightarrow> [])
         @ (case ao_label o' of Some l \<Rightarrow> [(''label'', JStr l)] | None \<Rightarrow> []))))"

text \<open>An optional text of an object: absent and null are none, and anything but a text is refused.\<close>

definition opt_str_field :: "(string \<times> json) list \<Rightarrow> string \<Rightarrow> string option option" where
  "opt_str_field kvs k =
     (case map_of kvs k of
        None \<Rightarrow> Some None
      | Some JNull \<Rightarrow> Some None
      | Some v \<Rightarrow> map_option Some (as_str v))"

definition option_of_json :: "json \<Rightarrow> attribute_option option" where
  "option_of_json v =
     (case v of
        JStr s \<Rightarrow> Some (option_new s)
      | JObj kvs \<Rightarrow>
          Option.bind (Option.bind (map_of kvs ''value'') as_str) (\<lambda>vl.
            Option.bind (opt_str_field kvs ''label'') (\<lambda>l.
              map_option (\<lambda>i. \<lparr>ao_value = vl, ao_label = l, ao_icon = i\<rparr>) (opt_str_field kvs ''icon'')))
      | _ \<Rightarrow> None)"

definition verbed :: "string \<times> string \<Rightarrow> state_label" where
  "verbed = (\<lambda>(label, verb). \<lparr>sl_label = label, sl_verb = Some verb\<rparr>)"

definition transition :: "state_label \<Rightarrow> string" where
  "transition l = unwrap_or (sl_verb l) (''becomes '' @ sl_label l)"

definition attribute_schema_default :: attribute_schema where
  "attribute_schema_default =
     \<lparr>as_kind = AkJson, as_writable = True, as_display_name = None, as_unit = None, as_min = None, as_max = None,
      as_step = None, as_options = None, as_category = None, as_states = None\<rparr>"

definition attribute_new :: "attribute_kind \<Rightarrow> attribute_schema" where
  "attribute_new k = attribute_schema_default\<lparr>as_kind := k\<rparr>"

definition read_only :: "attribute_kind \<Rightarrow> attribute_schema" where
  "read_only k = attribute_schema_default\<lparr>as_kind := k, as_writable := False\<rparr>"

definition with_states :: "bool_states \<Rightarrow> attribute_schema \<Rightarrow> attribute_schema" where
  "with_states st a = a\<lparr>as_states := Some st\<rparr>"

definition labelled :: "string \<Rightarrow> attribute_schema \<Rightarrow> attribute_schema" where
  "labelled l a = a\<lparr>as_display_name := Some l\<rparr>"

subsection \<open>The hub's own devices\<close>

definition ro :: "attribute_kind \<Rightarrow> string \<Rightarrow> attribute_schema" where
  "ro k label = labelled label (read_only k)"

definition ro_unit :: "attribute_kind \<Rightarrow> string \<Rightarrow> string \<Rightarrow> attribute_schema" where
  "ro_unit k label unit = (ro k label)\<lparr>as_unit := Some unit\<rparr>"

definition enum_of :: "attribute_schema \<Rightarrow> string list \<Rightarrow> attribute_schema" where
  "enum_of a options = a\<lparr>as_options := Some (map option_new options)\<rparr>"

definition boolean_attr :: "attribute_schema \<Rightarrow> string \<times> string \<Rightarrow> string \<times> string \<Rightarrow> attribute_schema" where
  "boolean_attr a on off = with_states \<lparr>bs_when_true = verbed on, bs_when_false = verbed off\<rparr> a"

definition diagnostic :: "attribute_schema \<Rightarrow> attribute_schema" where
  "diagnostic a = a\<lparr>as_category := Some Diagnostic\<rparr>"

definition on_off :: "attribute_schema \<Rightarrow> attribute_schema" where
  "on_off a = boolean_attr a (''on'', ''turns on'') (''off'', ''turns off'')"

definition param_of :: "string \<Rightarrow> string \<Rightarrow> string \<Rightarrow> bool \<Rightarrow> f64 option \<Rightarrow> param_spec" where
  "param_of name kind label required mn =
     \<lparr>ps_name = name, ps_kind = param_kind_of kind, ps_label = Some label, ps_required = required, ps_default = None,
      ps_unit = None, ps_min = mn, ps_max = None, ps_step = None, ps_options = None, ps_options_from = None\<rparr>"

definition action_of :: "string \<times> string \<times> string \<times> param_spec list \<Rightarrow> device_action" where
  "action_of = (\<lambda>(i, label, sentence, params).
     \<lparr>da_id = i, da_label = label, da_description = None, da_category = None, da_icon = None, da_params = params,
      da_writes = None, da_sentence = Some sentence, da_confirm = None, da_requires_role = RrUser\<rparr>)"

definition actions_for :: "string \<Rightarrow> device_action list" where
  "actions_for device_type =
     (let secs = (\<lambda>name label required. param_of name ''duration'' label required (Some (Fin 1)));
          val = (\<lambda>kind. param_of ''value'' kind ''Value'' True None) in
      map action_of
       (if device_type = ''timer'' then
          [(''start'', ''Start'', ''start {device}'',
              [secs ''duration_secs'' ''For'' False, param_of ''label'' ''string'' ''Label'' False None,
               param_of ''repeat'' ''bool'' ''Repeat'' False None]),
           (''pause'', ''Pause'', ''pause {device}'', []), (''resume'', ''Resume'', ''resume {device}'', []),
           (''cancel'', ''Cancel'', ''cancel {device}'', []), (''restart'', ''Restart'', ''restart {device}'', []),
           (''extend'', ''Add time'', ''add {duration_secs} to {device}'', [secs ''duration_secs'' ''Add'' True])]
        else if device_type = ''counter'' then
          [(''increment'', ''Count up'', ''count {device} up'', []),
           (''decrement'', ''Count down'', ''count {device} down'', []), (''reset'', ''Reset'', ''reset {device}'', []),
           (''set'', ''Set'', ''set {device} to {value}'', [val ''int''])]
        else if device_type = ''number'' then
          [(''set'', ''Set'', ''set {device} to {value}'', [val ''float'']),
           (''increment'', ''Step up'', ''step {device} up'', []), (''decrement'', ''Step down'', ''step {device} down'', [])]
        else if device_type = ''select'' then
          [(''select'', ''Choose'', ''set {device} to {option}'', [param_of ''option'' ''string'' ''Option'' True None]),
           (''next'', ''Next'', ''move {device} to the next option'', []),
           (''previous'', ''Previous'', ''move {device} to the previous option'', [])]
        else if device_type \<in> {''text'', ''datetime''} then
          [(''set'', ''Set'', ''set {device} to {value}'', [val ''string'']), (''clear'', ''Clear'', ''clear {device}'', [])]
        else if device_type = ''button'' then [(''press'', ''Press'', ''press {device}'', [])]
        else if device_type = ''group'' then [(''recalculate'', ''Recalculate'', ''recalculate {device}'', [])]
        else if device_type = ''mode'' then
          [(''on'', ''Turn on'', ''turn {device} on'', []), (''off'', ''Turn off'', ''turn {device} off'', []),
           (''toggle'', ''Toggle'', ''toggle {device}'', [])]
        else []))"

definition attributes_for :: "string \<Rightarrow> (string \<times> attribute_schema) list option" where
  "attributes_for device_type =
     (if device_type = ''timer'' then
        Some [(''state'', enum_of (ro AkEnum ''State'') [''idle'', ''running'', ''paused'', ''finished'', ''cancelled'']),
              (''remaining_secs'', ro_unit AkInteger ''Remaining'' ''s''),
              (''duration_secs'', ro_unit AkInteger ''Duration'' ''s''),
              (''repeat'', boolean_attr (ro AkBool ''Repeat'') (''repeating'', ''starts repeating'')
                 (''one-shot'', ''stops repeating'')),
              (''started_at'', diagnostic (ro AkString ''Started at'')), (''label'', diagnostic (ro AkString ''Label''))]
      else if device_type = ''switch'' then Some [(''on'', on_off (labelled ''State'' (attribute_new AkBool)))]
      else if device_type = ''counter'' then Some [(''count'', ro AkInteger ''Count'')]
      else if device_type = ''number'' then Some [(''value'', ro AkFloat ''Value'')]
      else if device_type = ''select'' then Some [(''selected'', ro AkString ''Selected'')]
      else if device_type = ''text'' then Some [(''value'', ro AkString ''Value'')]
      else if device_type = ''datetime'' then Some [(''value'', ro AkString ''Value'')]
      else if device_type = ''button'' then Some [(''last_pressed'', ro AkString ''Last pressed'')]
      else if device_type = ''group'' then
        Some [(''on'', boolean_attr (ro AkBool ''Any member on'') (''on'', ''turns on'') (''off'', ''turns off'')),
              (''active_count'', ro AkInteger ''Members on''), (''member_count'', ro AkInteger ''Members'')]
      else if device_type = ''threshold'' then
        Some [(''above'', boolean_attr (ro AkBool ''Above threshold'') (''above'', ''rises above'') (''below'', ''drops below'')),
              (''source_value'', ro AkFloat ''Source value'')]
      else if device_type = ''schedule'' then
        Some [(''active'', boolean_attr (ro AkBool ''Active'') (''active'', ''becomes active'') (''inactive'', ''becomes inactive''))]
      else None)"

definition schema_for :: "string \<Rightarrow> device_schema option" where
  "schema_for device_type =
     map_option (\<lambda>a. \<lparr>ds_attributes = a, ds_actions = actions_for device_type, ds_primary = []\<rparr>) (attributes_for device_type)"

definition mode_schema :: device_schema where
  "mode_schema =
     \<lparr>ds_attributes =
        [(''on'', boolean_attr (labelled ''Active'' (attribute_new AkBool)) (''active'', ''becomes active'')
            (''inactive'', ''becomes inactive'')),
         (''kind'', enum_of (ro AkEnum ''Kind'') [''solar'', ''boolean'']),
         (''effective_on'', ro AkString ''Turns on at''), (''effective_off'', ro AkString ''Turns off at''),
         (''sunrise_today'', ro AkString ''Sunrise''), (''sunset_today'', ro AkString ''Sunset''),
         (''on_offset_minutes'', ro_unit AkInteger ''On offset'' ''min''),
         (''off_offset_minutes'', ro_unit AkInteger ''Off offset'' ''min'')],
      ds_actions = actions_for ''mode'', ds_primary = []\<rparr>"

definition GLUE_PLUGIN_ID :: string where
  "GLUE_PLUGIN_ID = ''core.glue''"

definition for_device :: "string \<Rightarrow> string option \<Rightarrow> device_schema option" where
  "for_device plugin_id device_type =
     (if plugin_id = GLUE_PLUGIN_ID then Option.bind device_type schema_for
      else if plugin_id = ''core.mode'' then Some mode_schema
      else None)"

section \<open>Theorems\<close>

lemma take_names:
  assumes "distinct ns" "distinct left"
  shows "fold take_name ns (ordered, left) =
    (ordered @ filter (\<lambda>n. n \<in> set left) ns, filter (\<lambda>n. n \<notin> set ns) left)"
  using assms
proof (induction ns arbitrary: ordered left)
  case (Cons n ns)
  have "filter (\<lambda>m. m \<in> set (remove1 n left)) ns = filter (\<lambda>m. m \<in> set left) ns"
    using Cons.prems by (intro filter_cong) (auto simp: set_remove1_eq)
  then show ?case
    using Cons by (auto simp: take_name_def distinct_remove1_removeAll removeAll_filter_not_eq intro!: filter_cong)
qed simp

definition readings :: "device_schema \<Rightarrow> string list" where
  "readings s = sorted_list_of_set (fst ` {(k, a) \<in> set (ds_attributes s). as_category a = None})"

lemma readings_sort:
  assumes "distinct (map fst (ds_attributes s))"
  shows "sort (map fst (filter (\<lambda>(_, a). as_category a = None) (ds_attributes s))) = readings s"
proof -
  have "distinct (map fst (filter (\<lambda>(_, a). as_category a = None) (ds_attributes s)))"
    using assms by (rule distinct_map_filter)
  moreover have "fst ` {(k, a) \<in> set (ds_attributes s). as_category a = None} =
      set (map fst (filter (\<lambda>(_, a). as_category a = None) (ds_attributes s)))"
    by auto
  ultimately show ?thesis
    unfolding readings_def by (simp only: sorted_list_of_set_sort_remdups distinct_remdups_id)
qed

lemma tables_distinct: "distinct (readings_for_type t)" "distinct READING_RANK"
  by (simp_all add: readings_for_type_def READING_RANK_def)

text \<open>
  The readings a client shows first are the attributes with no category, each once: those the
  table of the device's type names, in the table's order, then those of the general ranking, then
  the rest by name. The order in which the attributes are stored does not matter, and an order that
  was declared is kept.
\<close>

theorem primary_readings:
  assumes "distinct (map fst (ds_attributes s))"
  shows "ds_primary (fill_primary device_type s) =
    (if ds_primary s \<noteq> [] then ds_primary s
     else
       let own = readings_for_type (unwrap_or device_type []); here = (\<lambda>n. n \<in> set (readings s)) in
       filter here own @ filter (\<lambda>n. here n \<and> n \<notin> set own) READING_RANK
       @ filter (\<lambda>n. n \<notin> set own \<and> n \<notin> set READING_RANK) (readings s))"
proof -
  have "distinct (readings s)" by (simp add: readings_def)
  then show ?thesis
    by (auto simp: fill_primary_def readings_sort [OF assms] take_names tables_distinct Let_def
        intro!: arg_cong2 [where f = "(@)"] filter_cong)
qed

theorem primary_readings_witness:
  "ds_primary (fill_primary (Some ''timer'') (the (schema_for ''timer''))) =
     [''state'', ''remaining_secs'', ''duration_secs'', ''repeat'']"
proof -
  have "distinct (map fst (ds_attributes (the (schema_for ''timer''))))" by code_simp
  from primary_readings [OF this] show ?thesis by (rule trans) code_simp
qed

text \<open>
  An option of an attribute is read back from what is written for it, and one that is only a
  value goes out as the bare text that older clients expect.
\<close>

theorem option_json_roundtrip:
  "option_of_json (option_to_json opt) = Some opt \<and> (is_bare opt \<longleftrightarrow> option_to_json opt = JStr (ao_value opt))"
  by (cases opt) (auto simp: option_to_json_def option_of_json_def is_bare_def option_new_def opt_str_field_def
      split: option.splits)

text \<open>Every boolean the hub declares names its two states, and names them differently.\<close>

definition named_apart :: "attribute_schema \<Rightarrow> bool" where
  "named_apart a \<longleftrightarrow> (as_kind a = AkBool \<longrightarrow>
     (case as_states a of None \<Rightarrow> False | Some st \<Rightarrow> sl_label (bs_when_true st) \<noteq> sl_label (bs_when_false st)))"

lemmas schema_builders = ro_def ro_unit_def read_only_def attribute_new_def attribute_schema_default_def labelled_def
  boolean_attr_def with_states_def on_off_def enum_of_def diagnostic_def verbed_def

lemma booleans_named:
  "for_device plugin_id device_type = Some s \<Longrightarrow> list_all (named_apart \<circ> snd) (ds_attributes s)"
  by (auto simp: for_device_def schema_for_def attributes_for_def mode_schema_def named_apart_def schema_builders
      Option.bind_eq_Some_conv split: if_splits option.splits)

end
