(* ===== verification/Device_Store.thy ===== *)
theory Device_Store
  imports Triggers Device_Schema Float_Arith
begin

text \<open>
  The device registry (\<open>hc-state/src/device_store.rs\<close> and the device part of \<open>StateStore\<close> in
  \<open>hc-state/src/lib.rs\<close>), on \<open>DeviceState\<close> of \<open>hc-types/src/device.rs\<close>. The tables are association
  lists in the order of their keys, which is the order redb iterates in. Reads and writes of the
  database succeed. What the store announces goes to the public bus.
\<close>

subsection \<open>Tables\<close>

fun put :: "'k::linorder \<Rightarrow> 'v \<Rightarrow> ('k \<times> 'v) list \<Rightarrow> ('k \<times> 'v) list" where
  "put k v [] = [(k, v)]"
| "put k v ((k', v') # t) =
     (if k = k' then (k, v) # t else if k < k' then (k, v) # (k', v') # t else (k', v') # put k v t)"

definition remove_key :: "'k \<Rightarrow> ('k \<times> 'v) list \<Rightarrow> ('k \<times> 'v) list" where
  "remove_key k t = filter (\<lambda>e. fst e \<noteq> k) t"

abbreviation table_ok :: "('k::linorder \<times> 'v) list \<Rightarrow> bool" where
  "table_ok t \<equiv> sorted_wrt (<) (map fst t)"

lemma map_of_put [simp]: "map_of (put k v t) = (map_of t)(k \<mapsto> v)"
  by (induction k v t rule: put.induct) auto

lemma map_of_remove_key [simp]: "map_of (remove_key k t) = (map_of t)(k := None)"
  by (induction t) (auto simp: remove_key_def)

lemma set_put: "set (map fst (put k v t)) = insert k (set (map fst t))"
  by (induction k v t rule: put.induct) auto

lemma put_ok: "table_ok t \<Longrightarrow> table_ok (put k v t)"
proof (induction k v t rule: put.induct)
  case (2 k v k' v' t)
  moreover have "\<forall>y \<in> set (map fst (put k v t)). k' < y" if "k' < k" "\<forall>y \<in> set (map fst t). k' < y"
    using that unfolding set_put by auto
  ultimately show ?case by (auto simp del: set_map intro: order.strict_trans)
qed simp

lemma remove_key_ok: "table_ok t \<Longrightarrow> table_ok (remove_key k t)"
  by (induction t) (auto simp: remove_key_def)

lemma table_distinct: "table_ok t \<Longrightarrow> distinct (map fst t)"
  by (metis strict_sorted_iff)

lemma map_of_table: "table_ok t \<Longrightarrow> map_of t k = Some v \<longleftrightarrow> (k, v) \<in> set t"
  by (simp add: map_of_eq_Some_iff table_distinct)

subsection \<open>Devices\<close>

record device =
  dv_id :: string
  dv_canonical_name :: "string option"
  dv_status_icon :: "string option"
  dv_name :: string
  dv_name_override :: "string option"
  dv_plugin_id :: string
  dv_area :: "string option"
  dv_area_override :: "string option"
  dv_device_type :: "string option"
  dv_ui_hint :: "string option"
  dv_attributes_changed_at :: "(string \<times> timestamp) list"
  dv_button_names :: "(string \<times> string) list option"
  dv_manufacturer :: "string option"
  dv_model :: "string option"
  dv_sw_version :: "string option"
  dv_parent_device_id :: "string option"
  dv_available :: bool
  dv_attributes :: attrs
  dv_last_seen :: timestamp
  dv_last_change :: "device_change option"

definition device_new :: "timestamp \<Rightarrow> string \<Rightarrow> string \<Rightarrow> string \<Rightarrow> device" where
  "device_new now device_id name plugin_id =
     \<lparr>dv_id = device_id, dv_canonical_name = None, dv_status_icon = None, dv_name = name, dv_name_override = None,
      dv_plugin_id = plugin_id, dv_area = None, dv_area_override = None, dv_device_type = None, dv_ui_hint = None,
      dv_attributes_changed_at = [], dv_button_names = None, dv_manufacturer = None, dv_model = None,
      dv_sw_version = None, dv_parent_device_id = None, dv_available = False, dv_attributes = [],
      dv_last_seen = now, dv_last_change = None\<rparr>"

definition effective_name :: "device \<Rightarrow> string" where
  "effective_name d = unwrap_or (dv_name_override d) (dv_name d)"

definition effective_area :: "device \<Rightarrow> string option" where
  "effective_area d = option_or (dv_area_override d) (dv_area d)"

text \<open>Equal but for the fields that a state report moves.\<close>

definition same_metadata :: "device \<Rightarrow> device \<Rightarrow> bool" where
  "same_metadata d e \<longleftrightarrow>
     d\<lparr>dv_available := dv_available e, dv_attributes := dv_attributes e,
       dv_attributes_changed_at := dv_attributes_changed_at e, dv_last_seen := dv_last_seen e,
       dv_last_change := dv_last_change e\<rparr> = e"

subsection \<open>The store\<close>

datatype device_write = Added | MetadataChanged | StateOnly

record forgotten_device =
  fd_device_id :: string
  fd_plugin_id :: string
  fd_name :: string
  fd_removed_at :: timestamp

record battery_record =
  br_in_low :: bool
  br_last_pct :: f64
  br_last_changed :: timestamp

text \<open>
  A room. Which devices are in it is worked out when it is read. Identifiers are 128-bit numbers,
  whose order is that of their texts.
\<close>

datatype room_named_by = NamedByPerson | NamedByBridge | NamedByGuess

record area =
  ar_id :: uuid
  ar_name :: string
  ar_slug :: string
  ar_aliases :: "string list"
  ar_named_by :: room_named_by
  ar_device_ids :: "string list"

record plugin_alert =
  pa_topic :: string
  pa_key :: "string option"
  pa_reason :: string
  pa_message :: "string option"
  pa_severity :: "alert_severity option"
  pa_action :: "alert_action option"
  pa_since :: "timestamp option"

record plugin_alert_kind =
  pak_topic :: string
  pak_label :: string
  pak_description :: "string option"
  pak_severity :: alert_severity
  pak_default_on :: bool

datatype notice_level = NoticeInfo | NoticeWarning | NoticeError

record plugin_notice =
  pn_level :: notice_level
  pn_code :: string
  pn_message :: string
  pn_remedy :: "string option"

text \<open>
  What the parts of the hub publish, less the time of publishing; a manifest's capabilities and
  interface are kept as the JSON they were read from.
\<close>

datatype hub_event =
    HeDeviceAdded device
  | HeDeviceMetadataChanged device
  | HeDeviceRemoved string
  | HeDeviceStateChanged string "string option" attrs attrs "string list" device_change
  | HeBatteryLow string "string option" f64 f64
  | HeBatteryRecovered string "string option" f64
  | HeDeviceAvailabilityChanged string "string option" bool
  | HeDeviceNameChanged string string string
  | HeDeviceSchemaChanged string "string list" "string list"
  | HeRoomChanged area
  | HeRoomRemoved uuid "uuid option"
  | HePluginRegistered string
  | HePluginAlerts string string "plugin_alert list"
  | HePluginHeartbeat string "string option" "string option" "nat option" "nat option" "plugin_notice list"
  | HePluginCapabilities string json "json option" "json option" "plugin_alert_kind list" "json option"
  | HeCustom string json
  | HeModeChanged string string bool

record hub =
  hb_devices :: "(string \<times> device) list"
  hb_forgotten :: "(string \<times> forgotten_device) list"
  hb_schemas :: "(string \<times> device_schema) list"
  hb_batteries :: "(string \<times> battery_record) list"
  hb_areas :: "(uuid \<times> area) list"
  hb_published :: "hub_event list"

definition publish :: "hub_event \<Rightarrow> hub \<Rightarrow> hub" where
  "publish e h = h\<lparr>hb_published := hb_published h @ [e]\<rparr>"

definition get_device :: "hub \<Rightarrow> string \<Rightarrow> device option" where
  "get_device h = map_of (hb_devices h)"

definition list_devices :: "hub \<Rightarrow> device list" where
  "list_devices h = map snd (hb_devices h)"

definition write_kind :: "device \<Rightarrow> hub \<Rightarrow> device_write" where
  "write_kind d h =
     (case get_device h (dv_id d) of
        None \<Rightarrow> Added
      | Some previous \<Rightarrow> if same_metadata previous d then StateOnly else MetadataChanged)"

definition upsert_device :: "device \<Rightarrow> hub \<Rightarrow> hub" where
  "upsert_device d h =
     (let h' = h\<lparr>hb_devices := put (dv_id d) d (hb_devices h)\<rparr> in
      case write_kind d h of
        Added \<Rightarrow> publish (HeDeviceAdded d) h'
      | MetadataChanged \<Rightarrow> publish (HeDeviceMetadataChanged d) h'
      | StateOnly \<Rightarrow> h')"

definition delete_device :: "string \<Rightarrow> hub \<Rightarrow> bool \<times> hub" where
  "delete_device device_id h =
     (if get_device h device_id = None then (False, h)
      else (True, publish (HeDeviceRemoved device_id)
              (h\<lparr>hb_devices := remove_key device_id (hb_devices h),
                 hb_batteries := remove_key device_id (hb_batteries h)\<rparr>)))"

definition forget_device :: "forgotten_device \<Rightarrow> hub \<Rightarrow> hub" where
  "forget_device f h = h\<lparr>hb_forgotten := put (fd_device_id f) f (hb_forgotten h)\<rparr>"

definition is_forgotten :: "hub \<Rightarrow> string \<Rightarrow> bool" where
  "is_forgotten h device_id \<longleftrightarrow> map_of (hb_forgotten h) device_id \<noteq> None"

text \<open>The latest first.\<close>

definition list_forgotten :: "hub \<Rightarrow> forgotten_device list" where
  "list_forgotten h = sort_key (\<lambda>f. - fd_removed_at f) (map snd (hb_forgotten h))"

definition unforget_device :: "string \<Rightarrow> hub \<Rightarrow> bool \<times> hub" where
  "unforget_device device_id h =
     (is_forgotten h device_id, h\<lparr>hb_forgotten := remove_key device_id (hb_forgotten h)\<rparr>)"

definition get_device_schema :: "hub \<Rightarrow> string \<Rightarrow> device_schema option" where
  "get_device_schema h = map_of (hb_schemas h)"

definition upsert_device_schema :: "string \<Rightarrow> device_schema \<Rightarrow> hub \<Rightarrow> hub" where
  "upsert_device_schema device_id schema h = h\<lparr>hb_schemas := put device_id schema (hb_schemas h)\<rparr>"

definition list_device_schemas :: "hub \<Rightarrow> (string \<times> device_schema) list" where
  "list_device_schemas h = hb_schemas h"

definition delete_device_schema :: "string \<Rightarrow> hub \<Rightarrow> bool \<times> hub" where
  "delete_device_schema device_id h =
     (get_device_schema h device_id \<noteq> None, h\<lparr>hb_schemas := remove_key device_id (hb_schemas h)\<rparr>)"

definition get_area :: "hub \<Rightarrow> uuid \<Rightarrow> area option" where
  "get_area h = map_of (hb_areas h)"

definition upsert_area :: "area \<Rightarrow> hub \<Rightarrow> hub" where
  "upsert_area a h = h\<lparr>hb_areas := put (ar_id a) a (hb_areas h)\<rparr>"

definition delete_area :: "uuid \<Rightarrow> hub \<Rightarrow> hub" where
  "delete_area i h = h\<lparr>hb_areas := remove_key i (hb_areas h)\<rparr>"

definition list_areas :: "hub \<Rightarrow> area list" where
  "list_areas h = map snd (hb_areas h)"

subsection \<open>The store as a map\<close>

text \<open>What clients of the registry rely on.\<close>

locale registry =
  fixes lookup :: "'h \<Rightarrow> 'k \<Rightarrow> 'd option"
    and insert_entry :: "'d \<Rightarrow> 'h \<Rightarrow> 'h"
    and drop_entry :: "'k \<Rightarrow> 'h \<Rightarrow> 'h"
    and listing :: "'h \<Rightarrow> 'd list"
    and key :: "'d \<Rightarrow> 'k"
    and good :: "'h \<Rightarrow> bool"
  assumes lookup_write: "good h \<Longrightarrow> lookup (insert_entry d h) = (lookup h)(key d \<mapsto> d)"
    and lookup_remove: "good h \<Longrightarrow> lookup (drop_entry i h) = (lookup h)(i := None)"
    and listing_lookup: "good h \<Longrightarrow> d \<in> set (listing h) \<longleftrightarrow> lookup h (key d) = Some d"
    and lookup_key: "good h \<Longrightarrow> lookup h i = Some d \<Longrightarrow> key d = i"
    and wf_write: "good h \<Longrightarrow> good (insert_entry d h)"
    and wf_remove: "good h \<Longrightarrow> good (drop_entry i h)"
begin

lemma wf_writes: "good h \<Longrightarrow> good (fold insert_entry ds h)"
  by (induction ds arbitrary: h) (auto simp: wf_write)

lemma lookup_writes:
  "good h \<Longrightarrow> lookup (fold insert_entry ds h) = lookup h ++ map_of (rev (map (\<lambda>d. (key d, d)) ds))"
  by (induction ds arbitrary: h) (auto simp: wf_write lookup_write map_add_def fun_eq_iff split: option.split)

lemma lookup_writes_other: "good h \<Longrightarrow> i \<notin> key ` set ds \<Longrightarrow> lookup (fold insert_entry ds h) i = lookup h i"
  by (auto simp: lookup_writes map_add_def split: option.split dest!: map_of_SomeD)

lemma listing_unique: "good h \<Longrightarrow> d \<in> set (listing h) \<Longrightarrow> e \<in> set (listing h) \<Longrightarrow> key d = key e \<Longrightarrow> d = e"
  by (auto simp: listing_lookup)

end

definition hub_ok :: "hub \<Rightarrow> bool" where
  "hub_ok h \<longleftrightarrow> table_ok (hb_devices h) \<and> (\<forall>(k, d) \<in> set (hb_devices h). dv_id d = k)"

lemma devices_simps [simp]:
  "hb_devices (publish e h) = hb_devices h"
  "hb_devices (upsert_device d h) = put (dv_id d) d (hb_devices h)"
  "hb_devices (snd (delete_device i h)) = remove_key i (hb_devices h)"
  by (auto simp: publish_def upsert_device_def delete_device_def Let_def remove_key_def get_device_def
      map_of_eq_None_iff image_iff intro!: filter_True [symmetric] split: device_write.split)

lemma get_device_simps [simp]:
  "get_device (publish e h) = get_device h"
  "get_device (upsert_device d h) = (get_device h)(dv_id d \<mapsto> d)"
  "get_device (snd (delete_device i h)) = (get_device h)(i := None)"
  by (simp_all add: get_device_def)

lemma put_mem: "table_ok t \<Longrightarrow> (k', v') \<in> set (put k v t) \<longleftrightarrow> (if k' = k then v' = v else (k', v') \<in> set t)"
  using map_of_table [of "put k v t" k' v'] map_of_table [of t k' v'] by (auto simp: put_ok)

interpretation reg: registry get_device upsert_device "\<lambda>i h. snd (delete_device i h)" list_devices dv_id hub_ok
proof
  fix h :: hub and d :: device and i :: string
  assume ok: "hub_ok h"
  show "hub_ok (upsert_device d h)"
    using ok by (auto simp: hub_ok_def put_ok put_mem split: if_splits)
  show "hub_ok (snd (delete_device i h))"
    using ok by (auto simp: hub_ok_def remove_key_ok) (auto simp: remove_key_def)
  show "d \<in> set (list_devices h) \<longleftrightarrow> get_device h (dv_id d) = Some d"
    using ok by (force simp: hub_ok_def list_devices_def get_device_def map_of_table)
  show "dv_id d = i" if "get_device h i = Some d"
    using ok that by (auto simp: hub_ok_def get_device_def map_of_table)
qed simp_all

definition areas_ok :: "hub \<Rightarrow> bool" where
  "areas_ok h \<longleftrightarrow> table_ok (hb_areas h) \<and> (\<forall>(k, a) \<in> set (hb_areas h). ar_id a = k)"

lemma get_area_simps [simp]:
  "get_area (upsert_area a h) = (get_area h)(ar_id a \<mapsto> a)" "get_area (delete_area i h) = (get_area h)(i := None)"
  "get_device (upsert_area a h) = get_device h" "get_device (delete_area i h) = get_device h"
  "hub_ok (upsert_area a h) = hub_ok h" "hub_ok (delete_area i h) = hub_ok h" "hub_ok (publish e h) = hub_ok h"
  "list_devices (upsert_area a h) = list_devices h" "list_devices (delete_area i h) = list_devices h"
  "list_devices (publish e h) = list_devices h"
  by (simp_all add: get_area_def upsert_area_def delete_area_def get_device_def hub_ok_def list_devices_def)

lemma areas_untouched [simp]:
  "hb_areas (publish e h) = hb_areas h" "hb_areas (upsert_device d h) = hb_areas h"
  by (simp_all add: publish_def upsert_device_def Let_def split: device_write.split)

lemma areas_untouched_derived [simp]:
  "get_area (publish e h) = get_area h" "get_area (upsert_device d h) = get_area h"
  "list_areas (publish e h) = list_areas h" "list_areas (upsert_device d h) = list_areas h"
  "areas_ok (publish e h) = areas_ok h" "areas_ok (upsert_device d h) = areas_ok h"
  by (simp_all add: get_area_def list_areas_def areas_ok_def)

interpretation areg: registry get_area upsert_area delete_area list_areas ar_id areas_ok
proof
  fix h :: hub and a :: area and i :: uuid
  assume ok: "areas_ok h"
  show "areas_ok (upsert_area a h)"
    using ok by (auto simp: areas_ok_def upsert_area_def put_ok put_mem split: if_splits)
  show "areas_ok (delete_area i h)"
    using ok by (auto simp: areas_ok_def delete_area_def remove_key_ok) (auto simp: remove_key_def)
  show "a \<in> set (list_areas h) \<longleftrightarrow> get_area h (ar_id a) = Some a"
    using ok by (force simp: areas_ok_def list_areas_def get_area_def map_of_table)
  show "ar_id a = i" if "get_area h i = Some a"
    using ok that by (auto simp: areas_ok_def get_area_def map_of_table)
qed simp_all

end
