(* ===== verification/Battery.thy ===== *)
theory Battery
  imports Device_Store
begin

text \<open>
  Low batteries (\<open>hc-state/src/battery_store.rs\<close>, \<open>hc-core/src/battery_watcher.rs\<close>): a latch per
  device with a band for the way back, and the watcher that turns its edges into events and
  notifications. Sums of floats are rounded; the texts of notifications, made with a number
  format, are parameters.
\<close>

subsection \<open>Latches\<close>

text \<open>
  A latch engages on some readings and clears on others, and keeps its state on the rest. Two edges
  of the same kind never follow one another, and nothing that does not clear it, clears it.
\<close>

locale latch =
  fixes engages :: "'v \<Rightarrow> bool" and clears :: "'v \<Rightarrow> bool" and advance :: "bool \<Rightarrow> 'v \<Rightarrow> bool"
  assumes advance_off: "advance False v \<longleftrightarrow> engages v" and advance_on: "advance True v \<longleftrightarrow> \<not> clears v"
begin

text \<open>The edges of a sequence of readings: \<open>True\<close> for an engagement.\<close>

primrec edges :: "bool \<Rightarrow> 'v list \<Rightarrow> (bool \<times> 'v) list" where
  "edges b [] = []"
| "edges b (v # vs) = (if advance b v = b then [] else [(\<not> b, v)]) @ edges (advance b v) vs"

lemma edges_append: "edges b (vs @ ws) = edges b vs @ edges (fold (\<lambda>v b. advance b v) vs b) ws"
  by (induction vs arbitrary: b) auto

lemma edges_alternate:
  "edges b vs = [] \<or> (fst (hd (edges b vs)) = (\<not> b) \<and> successively (\<lambda>e f. fst e \<noteq> fst f) (edges b vs))"
proof (induction vs arbitrary: b)
  case (Cons v vs)
  show ?case
  proof (cases "advance b v = b")
    case False
    then have step: "advance b v = (\<not> b)" by simp
    have "edges (\<not> b) vs = [] \<or> fst (hd (edges (\<not> b) vs)) = b \<and> successively (\<lambda>e f. fst e \<noteq> fst f) (edges (\<not> b) vs)"
      using Cons.IH [of "\<not> b"] by simp
    then show ?thesis using step by (cases "edges (\<not> b) vs") auto
  qed (use Cons.IH in simp)
qed simp

lemma edges_due: "(True, v) \<in> set (edges b vs) \<Longrightarrow> engages v" "(False, v) \<in> set (edges b vs) \<Longrightarrow> clears v"
proof (induction vs arbitrary: b)
  case (Cons w vs)
  {
    case 1
    then show ?case using Cons.IH(1) by (cases b) (auto simp: advance_off advance_on split: if_splits)
  next
    case 2
    then show ?case using Cons.IH(2) by (cases b) (auto simp: advance_off advance_on split: if_splits)
  }
qed simp_all

lemma quiet_in_band: "(\<And>v. v \<in> set vs \<Longrightarrow> \<not> engages v \<and> \<not> clears v) \<Longrightarrow> edges b vs = []"
  by (induction vs) (auto simp: advance_off advance_on, metis advance_off advance_on)

end

subsection \<open>The battery latch\<close>

datatype battery_edge = WentLow | Recovered

definition in_low :: "hub \<Rightarrow> string \<Rightarrow> bool" where
  "in_low h device_id = (case map_of (hb_batteries h) device_id of Some r \<Rightarrow> br_in_low r | None \<Rightarrow> False)"

definition evaluate_battery :: "timestamp \<Rightarrow> string \<Rightarrow> f64 \<Rightarrow> f64 \<Rightarrow> f64 \<Rightarrow> hub \<Rightarrow> battery_edge option \<times> hub" where
  "evaluate_battery now device_id pct threshold recover_band h =
     (let recover_at = f64_op (+) threshold recover_band;
          (now_low, edge) =
            (if in_low h device_id then
               (if f64_le recover_at pct then (False, Some Recovered) else (True, None))
             else if f64_le pct threshold then (True, Some WentLow) else (False, None)) in
      (edge, h\<lparr>hb_batteries := put device_id
                \<lparr>br_in_low = now_low, br_last_pct = pct, br_last_changed = now\<rparr> (hb_batteries h)\<rparr>))"

subsection \<open>The watcher\<close>

record battery_config =
  bc_threshold_pct :: f64
  bc_recover_band_pct :: f64
  bc_notify_channel :: "string option"
  bc_notify_on_recovered :: bool

definition battery_config_default :: battery_config where
  "battery_config_default =
     \<lparr>bc_threshold_pct = Fin 20, bc_recover_band_pct = Fin 5, bc_notify_channel = None, bc_notify_on_recovered = False\<rparr>"

text \<open>A JSON number reads as a float, whichever way it is kept.\<close>

definition extract_pct :: "json \<Rightarrow> f64 option" where
  "extract_pct v = as_f64 v"

definition battery_pct :: "attrs \<Rightarrow> string list \<Rightarrow> f64 option" where
  "battery_pct current changed =
     (if list_ex (\<lambda>k. k \<in> {''battery'', ''battery_pct'', ''battery_level''}) changed then
        Option.bind
          (option_or (map_of current ''battery_pct'')
            (option_or (map_of current ''battery'') (map_of current ''battery_level'')))
          extract_pct
      else None)"

definition edge_event :: "battery_config \<Rightarrow> string \<Rightarrow> string option \<Rightarrow> f64 \<Rightarrow> battery_edge \<Rightarrow> hub_event" where
  "edge_event cfg device_id name pct edge =
     (case edge of
        WentLow \<Rightarrow> HeBatteryLow device_id name pct (bc_threshold_pct cfg)
      | Recovered \<Rightarrow> HeBatteryRecovered device_id name pct)"

definition battery_notice ::
  "(battery_edge \<Rightarrow> string \<Rightarrow> f64 \<Rightarrow> string \<times> string) \<Rightarrow> battery_config \<Rightarrow> bool \<Rightarrow> alert_ignore list \<Rightarrow> timestamp \<Rightarrow>
   string \<Rightarrow> string option \<Rightarrow> f64 \<Rightarrow> battery_edge \<Rightarrow> (string \<times> string \<times> string) list"
where
  "battery_notice show_notice cfg service ignores now device_id name pct edge =
     (case bc_notify_channel cfg of
        None \<Rightarrow> []
      | Some channel \<Rightarrow>
          let send = (case edge of WentLow \<Rightarrow> True | Recovered \<Rightarrow> bc_notify_on_recovered cfg);
              ignored = list_ex (\<lambda>i. covers_parts i LowBattery device_id None now) ignores in
          if service \<and> send \<and> \<not> ignored then [(channel, show_notice edge (unwrap_or name device_id) pct)] else [])"

text \<open>What the watcher does with an event of the bus: the hub after it, and what it sends.\<close>

definition watch_battery ::
  "(battery_edge \<Rightarrow> string \<Rightarrow> f64 \<Rightarrow> string \<times> string) \<Rightarrow> battery_config \<Rightarrow> bool \<Rightarrow> alert_ignore list \<Rightarrow> timestamp \<Rightarrow>
   hub_event \<Rightarrow> hub \<Rightarrow> hub \<times> (string \<times> string \<times> string) list"
where
  "watch_battery show_notice cfg service ignores now e h =
     (case e of
        HeDeviceStateChanged device_id name previous current changed change \<Rightarrow>
          (case battery_pct current changed of
             None \<Rightarrow> (h, [])
           | Some pct \<Rightarrow>
               (case evaluate_battery now device_id pct (bc_threshold_pct cfg) (bc_recover_band_pct cfg) h of
                  (None, h1) \<Rightarrow> (h1, [])
                | (Some edge, h1) \<Rightarrow>
                    (publish (edge_event cfg device_id name pct edge) h1,
                     battery_notice show_notice cfg service ignores now device_id name pct edge)))
      | _ \<Rightarrow> (h, []))"

subsection \<open>Edges of a battery\<close>

definition battery_advance :: "f64 \<Rightarrow> f64 \<Rightarrow> bool \<Rightarrow> f64 \<Rightarrow> bool" where
  "battery_advance threshold band low pct = (if low then \<not> f64_le (f64_op (+) threshold band) pct else f64_le pct threshold)"

interpretation bat: latch "\<lambda>pct. f64_le pct threshold" "\<lambda>pct. f64_le (f64_op (+) threshold band) pct"
  "battery_advance threshold band" for threshold band
  by unfold_locales (simp_all add: battery_advance_def)

text \<open>What the hub said of a device's battery: \<open>True\<close> for low.\<close>

definition battery_told :: "string \<Rightarrow> hub_event list \<Rightarrow> (bool \<times> f64) list" where
  "battery_told d es = concat (map (\<lambda>e. case e of
      HeBatteryLow d' _ pct _ \<Rightarrow> if d' = d then [(True, pct)] else []
    | HeBatteryRecovered d' _ pct \<Rightarrow> if d' = d then [(False, pct)] else []
    | _ \<Rightarrow> []) es)"

definition battery_readings :: "string \<Rightarrow> hub_event list \<Rightarrow> f64 list" where
  "battery_readings d es = concat (map (\<lambda>e. case e of
      HeDeviceStateChanged d' _ _ current changed _ \<Rightarrow>
        if d' = d then (case battery_pct current changed of Some pct \<Rightarrow> [pct] | None \<Rightarrow> []) else []
    | _ \<Rightarrow> []) es)"

lemma told_append [simp]: "battery_told d (es @ fs) = battery_told d es @ battery_told d fs"
  by (simp add: battery_told_def)

definition watch_all ::
  "(battery_edge \<Rightarrow> string \<Rightarrow> f64 \<Rightarrow> string \<times> string) \<Rightarrow> battery_config \<Rightarrow> bool \<Rightarrow> alert_ignore list \<Rightarrow>
   (timestamp \<times> hub_event) list \<Rightarrow> hub \<Rightarrow> hub"
where
  "watch_all show_notice cfg service ignores es h =
     fold (\<lambda>(now, e) h. fst (watch_battery show_notice cfg service ignores now e h)) es h"

lemma watch_one:
  assumes "fst (watch_battery sn cfg service ignores now e h) = h'"
  shows "\<exists>new. hb_published h' = hb_published h @ new
    \<and> battery_told d new = bat.edges (bc_threshold_pct cfg) (bc_recover_band_pct cfg) (in_low h d) (battery_readings d [e])
    \<and> in_low h' d = fold (\<lambda>pct b. battery_advance (bc_threshold_pct cfg) (bc_recover_band_pct cfg) b pct)
        (battery_readings d [e]) (in_low h d)"
  using assms
  by (auto simp: watch_battery_def evaluate_battery_def Let_def battery_readings_def battery_told_def edge_event_def
      battery_advance_def in_low_def publish_def split: hub_event.splits option.splits if_splits)

lemma readings_Cons: "battery_readings d (e # es) = battery_readings d [e] @ battery_readings d es"
  by (simp add: battery_readings_def)

lemma watch_all_told:
  "\<exists>new. hb_published (watch_all sn cfg service ignores es h) = hb_published h @ new
    \<and> battery_told d new = bat.edges (bc_threshold_pct cfg) (bc_recover_band_pct cfg) (in_low h d)
        (battery_readings d (map snd es))"
proof (induction es arbitrary: h)
  case (Cons te es)
  obtain now e where te: "te = (now, e)" by fastforce
  let ?h = "fst (watch_battery sn cfg service ignores now e h)"
  obtain new1 where 1: "hb_published ?h = hb_published h @ new1"
    "battery_told d new1 = bat.edges (bc_threshold_pct cfg) (bc_recover_band_pct cfg) (in_low h d) (battery_readings d [e])"
    "in_low ?h d = fold (\<lambda>pct b. battery_advance (bc_threshold_pct cfg) (bc_recover_band_pct cfg) b pct)
        (battery_readings d [e]) (in_low h d)"
    using watch_one [OF refl, of sn cfg service ignores now e h d] by blast
  obtain new2 where 2: "hb_published (watch_all sn cfg service ignores es ?h) = hb_published ?h @ new2"
    "battery_told d new2 = bat.edges (bc_threshold_pct cfg) (bc_recover_band_pct cfg) (in_low ?h d)
        (battery_readings d (map snd es))"
    using Cons.IH by blast
  have "battery_told d (new1 @ new2) = bat.edges (bc_threshold_pct cfg) (bc_recover_band_pct cfg) (in_low h d)
      (battery_readings d (e # map snd es))"
    unfolding told_append 1(2) 2(2) 1(3) readings_Cons [of d e "map snd es"] bat.edges_append ..
  moreover have "hb_published (watch_all sn cfg service ignores (te # es) h) = hb_published h @ new1 @ new2"
    using 1(1) 2(1) by (simp add: watch_all_def te)
  ultimately show ?case by (auto simp: te)
qed (simp add: watch_all_def battery_told_def battery_readings_def)

text \<open>
  C22. As long as a device is not removed and the settings stay the same: whatever the devices report, in whatever
  order, the hub says of each battery in turn that it
  is low and that it has recovered, never the same twice in a row, and what it says first is what
  the stored latch is not; it calls a battery low only at or below the threshold, and recovered
  only at or above the threshold and the band. (Removing a device forgets its latch. A restart of the
  hub does not: the latch is stored.)
\<close>

theorem battery_told_in_turn:
  assumes "hb_published (watch_all show_notice cfg service ignores es h) = hb_published h @ new"
  shows "successively (\<lambda>e f. fst e \<noteq> fst f) (battery_told d new)
    \<and> (battery_told d new \<noteq> [] \<longrightarrow> fst (hd (battery_told d new)) \<noteq> in_low h d)
    \<and> (\<forall>pct. (True, pct) \<in> set (battery_told d new) \<longrightarrow> f64_le pct (bc_threshold_pct cfg))
    \<and> (\<forall>pct. (False, pct) \<in> set (battery_told d new) \<longrightarrow>
        f64_le (f64_op (+) (bc_threshold_pct cfg) (bc_recover_band_pct cfg)) pct)"
proof -
  have "battery_told d new = bat.edges (bc_threshold_pct cfg) (bc_recover_band_pct cfg) (in_low h d)
      (battery_readings d (map snd es))"
    using watch_all_told [of show_notice cfg service ignores es h d] assms by auto
  then show ?thesis
    using bat.edges_alternate bat.edges_due by (metis (no_types, lifting) successively.simps(1))
qed

text \<open>A lamp's battery goes down, up into the band, down again, and is changed.\<close>

definition battery_report :: "int \<Rightarrow> timestamp \<times> hub_event" where
  "battery_report pct = (0, HeDeviceStateChanged ''lamp'' (Some ''Lamp'') [] [(''battery'', json_int pct)] [''battery''] sample_change)"

definition empty_hub :: hub where
  "empty_hub = \<lparr>hb_devices = [], hb_forgotten = [], hb_schemas = [], hb_batteries = [], hb_areas = [], hb_published = []\<rparr>"

theorem battery_told_in_turn_witness:
  "successively (\<lambda>e f. fst e \<noteq> fst f) (battery_told ''lamp'' (hb_published
     (watch_all (\<lambda>_ _ _. ([], [])) battery_config_default False [] (map battery_report [15, 22, 12, 80]) empty_hub)))"
  using battery_told_in_turn [of "\<lambda>_ _ _. ([], [])" battery_config_default False "[]" "map battery_report [15, 22, 12, 80]"
      empty_hub "hb_published (watch_all (\<lambda>_ _ _. ([], [])) battery_config_default False [] (map battery_report [15, 22, 12, 80]) empty_hub)"
      "''lamp''"]
  by (simp add: empty_hub_def)

text \<open>
  A low battery is told of to nobody once any alerts of some plugin are ignored: an ignore that
  names only a plugin, which \<open>validate\<close> accepts, covers every device's battery for the watcher,
  while it does not cover the alert of a device of another plugin.
\<close>

theorem plugin_ignore_silences_batteries:
  assumes "i \<in> set ignores" "ai_plugin_id i = Some p" "ai_until i = None"
    and "ai_kind i = None" "ai_device_id i = None" "ai_rule_id i = None"
  shows "snd (watch_battery show_notice cfg service ignores now e h) = []
    \<and> (al_plugin_id a \<noteq> Some p \<longrightarrow> \<not> covers i a now)"
proof -
  have all: "covers_parts i k d r now" for k d r
    using assms by (simp add: covers_parts_def ignore_active_def)
  then have "list_ex (\<lambda>i. covers_parts i LowBattery d None now) ignores" for d
    using assms(1) by (auto simp: list_ex_iff)
  then show ?thesis
    using assms(2)
    by (auto simp: watch_battery_def battery_notice_def covers_def split: hub_event.splits option.splits prod.splits)
qed

theorem plugin_ignore_silences_batteries_witness:
  "let i = \<lparr>ai_id = ''1'', ai_kind = None, ai_device_id = None, ai_rule_id = None, ai_plugin_id = Some ''plugin.hue'',
        ai_topic = None, ai_key = None, ai_until = None, ai_note = None, ai_by = None, ai_created_at = 0\<rparr>;
       cfg = battery_config_default\<lparr>bc_notify_channel := Some ''all''\<rparr>
   in snd (watch_battery (\<lambda>_ _ _. (''Battery low'', ''Lamp'')) cfg True [i] 0 (snd (battery_report 15)) empty_hub) = []"
  unfolding Let_def
  by (rule plugin_ignore_silences_batteries [THEN conjunct1, of
      "\<lparr>ai_id = ''1'', ai_kind = None, ai_device_id = None, ai_rule_id = None, ai_plugin_id = Some ''plugin.hue'',
        ai_topic = None, ai_key = None, ai_until = None, ai_note = None, ai_by = None, ai_created_at = 0\<rparr>" _ "''plugin.hue''"])
     simp_all

end
