(* ===== verification/Device_Naming.thy ===== *)
theory Device_Naming
  imports Battery Conditions
begin

text \<open>
  The names rules call devices by (\<open>hc-core/src/device_naming.rs\<close>): how a label becomes a name,
  how a name is made unique, and the two sweeps over the store at start. Characters outside ASCII
  become underscores; as runs of underscores collapse, it makes no difference that the model goes
  by bytes. The search for a free number is a partial function, so that it ends is a lemma.
\<close>

subsection \<open>Normal forms\<close>

definition ascii_name_char :: "char \<Rightarrow> char" where
  "ascii_name_char c =
     (let b = byte c in
      if 48 \<le> b \<and> b \<le> 57 \<or> 97 \<le> b \<and> b \<le> 122 then c
      else if 65 \<le> b \<and> b \<le> 90 then char_of (b + 32)
      else CHR ''_'')"

definition normalize_name_segment :: "string \<Rightarrow> string" where
  "normalize_name_segment value =
     join_with ''_'' (filter (\<lambda>part. part \<noteq> []) (split_on CHR ''_'' (map ascii_name_char value)))"

definition normalize_canonical_name :: "string \<Rightarrow> string option" where
  "normalize_canonical_name value =
     (let segments = filter (\<lambda>part. part \<noteq> []) (map normalize_name_segment (split_on CHR ''.'' value)) in
      if segments = [] then None else Some (join_with ''.'' segments))"

definition canonical_name_base :: "device \<Rightarrow> string" where
  "canonical_name_base d =
     (let name = normalize_name_segment (dv_name d);
          area = Option.bind (dv_area d) (\<lambda>a. let n = normalize_name_segment a in if n = [] then None else Some n) in
      case area of
        Some a \<Rightarrow> if name = [] then a else a @ ''.'' @ name
      | None \<Rightarrow> if name = [] then normalize_name_segment (dv_id d) else name)"

subsection \<open>Unique names\<close>

definition name_available :: "device \<Rightarrow> device list \<Rightarrow> string \<Rightarrow> bool" where
  "name_available d devices candidate =
     list_all (\<lambda>other. dv_id other = dv_id d \<or> dv_canonical_name other \<noteq> Some candidate) devices"

definition numbered :: "string \<Rightarrow> nat \<Rightarrow> string" where
  "numbered suffixed n = suffixed @ ''_'' @ show_nat n"

partial_function (option) first_free :: "(string \<Rightarrow> bool) \<Rightarrow> string \<Rightarrow> nat \<Rightarrow> string option" where
  "first_free available suffixed n =
     (if available (numbered suffixed n) then Some (numbered suffixed n)
      else first_free available suffixed (Suc n))"

definition ensure_unique_canonical_name :: "device \<Rightarrow> device list \<Rightarrow> string option" where
  "ensure_unique_canonical_name d devices =
     (let base = canonical_name_base d; suffixed = base @ ''_'' @ normalize_name_segment (dv_id d) in
      if name_available d devices base then Some base
      else if name_available d devices suffixed then Some suffixed
      else first_free (name_available d devices) suffixed 2)"

definition validate_or_generate_canonical_name ::
  "device \<Rightarrow> device list \<Rightarrow> string option \<Rightarrow> (string, string) result option"
where
  "validate_or_generate_canonical_name d devices requested =
     map_option (\<lambda>r. try_bind r (\<lambda>candidate.
         if list_ex (\<lambda>other. dv_id other \<noteq> dv_id d \<and> dv_canonical_name other = Some candidate) devices
         then Inl (''canonical_name '' @ [CHR 0x27] @ candidate @ [CHR 0x27] @ '' is already in use'')
         else Inr candidate))
       (case requested of
          Some raw \<Rightarrow>
            Some (case normalize_canonical_name raw of
                    None \<Rightarrow> Inl ''canonical_name must contain at least one alphanumeric character''
                  | Some n \<Rightarrow> Inr n)
        | None \<Rightarrow> map_option Inr (ensure_unique_canonical_name d devices))"

subsection \<open>Sweeps\<close>

text \<open>\<open>idx\<close> of the copy of the list is next; the names given so far are in the copy and in the store.\<close>

fun backfill_from :: "device list \<Rightarrow> device list \<Rightarrow> nat \<Rightarrow> hub \<Rightarrow> (nat \<times> hub) option" where
  "backfill_from seen [] updated h = Some (updated, h)"
| "backfill_from seen (d # ds) updated h =
     (if dv_canonical_name d \<noteq> None then backfill_from (seen @ [d]) ds updated h
      else Option.bind (ensure_unique_canonical_name d (seen @ d # ds)) (\<lambda>n.
        let d' = d\<lparr>dv_canonical_name := Some n\<rparr> in
        backfill_from (seen @ [d']) ds (Suc updated) (upsert_device d' h)))"

definition backfill_missing_canonical_names :: "hub \<Rightarrow> (nat \<times> hub) option" where
  "backfill_missing_canonical_names h = backfill_from [] (list_devices h) 0 h"

definition migrate_area :: "device \<Rightarrow> nat \<times> hub \<Rightarrow> nat \<times> hub" where
  "migrate_area d = (\<lambda>(updated, h).
     case dv_area d of
       None \<Rightarrow> (updated, h)
     | Some area \<Rightarrow>
         let normalized = normalize_name_segment area in
         if normalized = area then (updated, h)
         else (Suc updated,
               upsert_device (d\<lparr>dv_area := (if normalized = [] then None else Some normalized)\<rparr>) h))"

definition migrate_area_names :: "hub \<Rightarrow> nat \<times> hub" where
  "migrate_area_names h = fold migrate_area (list_devices h) (0, h)"

section \<open>Theorems\<close>

subsection \<open>Normal forms stay put\<close>

definition name_char :: "char \<Rightarrow> bool" where
  "name_char c \<longleftrightarrow> (let b = byte c in 48 \<le> b \<and> b \<le> 57 \<or> 97 \<le> b \<and> b \<le> 122)"

lemma ascii_name_char_cases: "name_char (ascii_name_char c) \<or> ascii_name_char c = CHR ''_''"
  by (auto simp: ascii_name_char_def name_char_def Let_def byte_def)

lemma ascii_name_char_id: "name_char c \<Longrightarrow> ascii_name_char c = c"
  by (auto simp: ascii_name_char_def name_char_def Let_def)

lemma separators_no_names [simp]: "\<not> name_char CHR ''_''" "\<not> name_char CHR ''.''"
  by (simp_all add: name_char_def byte_def Let_def)

lemma ascii_name_char_sep [simp]: "ascii_name_char CHR ''_'' = CHR ''_''" "ascii_name_char CHR ''.'' = CHR ''_''"
  by (simp_all add: ascii_name_char_def byte_def)

lemma map_join_with: "map f (join_with sep ps) = join_with (map f sep) (map (map f) ps)"
  by (induction sep ps rule: join_with.induct) auto

lemma set_join_pieces: "p \<in> set ps \<Longrightarrow> set p \<subseteq> set (join_with sep ps)"
  by (induction sep ps rule: join_with.induct) auto

lemma set_join: "set (join_with sep ps) \<subseteq> set sep \<union> (\<Union>p \<in> set ps. set p)"
  by (induction sep ps rule: join_with.induct) auto

definition words :: "string \<Rightarrow> string list" where
  "words s = filter (\<lambda>part. part \<noteq> []) (split_on CHR ''_'' (map ascii_name_char s))"

lemma words_ok: "p \<in> set (words s) \<Longrightarrow> p \<noteq> [] \<and> list_all name_char p"
proof -
  assume "p \<in> set (words s)"
  then have p: "p \<in> set (split_on CHR ''_'' (map ascii_name_char s))" "p \<noteq> []" by (auto simp: words_def)
  have "set p \<subseteq> set (map ascii_name_char s)"
    using p(1) join_split_on [of "CHR ''_''" "map ascii_name_char s"] set_join_pieces by metis
  with p split_on_pieces [OF p(1)] ascii_name_char_cases show ?thesis
    by (fastforce simp: list_all_iff)
qed

lemma words_join:
  assumes "\<And>p. p \<in> set ps \<Longrightarrow> p \<noteq> [] \<and> list_all name_char p"
  shows "words (join_with ''_'' ps) = ps"
proof (cases "ps = []")
  case False
  have "map ascii_name_char p = p" if "p \<in> set ps" for p
    using assms [OF that] by (auto simp: list_all_iff ascii_name_char_id intro: map_idI)
  then have "map ascii_name_char (join_with ''_'' ps) = join_with ''_'' ps"
    by (simp add: map_join_with map_idI)
  moreover have "CHR ''_'' \<notin> set p" if "p \<in> set ps" for p
    using assms [OF that] by (auto simp: list_all_iff)
  then have "split_on CHR ''_'' (join_with ''_'' ps) = ps" by (rule split_join [OF False])
  ultimately show ?thesis using assms by (simp add: words_def filter_id_conv)
qed (simp add: words_def)

lemma normalize_words: "normalize_name_segment s = join_with ''_'' (words s)"
  by (simp add: normalize_name_segment_def words_def)

lemma normalize_idem [simp]: "normalize_name_segment (normalize_name_segment s) = normalize_name_segment s"
  using words_join [of "words s", OF words_ok] by (simp add: normalize_words)

lemma normalize_no_dot: "CHR ''.'' \<notin> set (normalize_name_segment s)"
proof -
  have "set (normalize_name_segment s) \<subseteq> set ''_'' \<union> (\<Union>p \<in> set (words s). set p)"
    unfolding normalize_words by (rule set_join)
  moreover have "CHR ''.'' \<notin> set p" if "p \<in> set (words s)" for p
    using words_ok [OF that] by (auto simp: list_all_iff)
  ultimately show ?thesis by auto
qed

text \<open>
  A canonical name is in normal form: taken as a request again it is accepted unchanged.
\<close>

theorem canonical_name_stays:
  assumes "normalize_canonical_name raw = Some n"
  shows "normalize_canonical_name n = Some n"
proof -
  let ?segs = "filter (\<lambda>part. part \<noteq> []) (map normalize_name_segment (split_on CHR ''.'' raw))"
  have segs: "?segs \<noteq> []" "n = join_with ''.'' ?segs"
    using assms by (auto simp: normalize_canonical_name_def Let_def split: if_splits)
  have "CHR ''.'' \<notin> set p" if "p \<in> set ?segs" for p
    using that normalize_no_dot by auto
  then have "split_on CHR ''.'' n = ?segs" unfolding segs(2) by (rule split_join [OF segs(1)])
  moreover have "map normalize_name_segment ?segs = ?segs"
    by (rule map_idI) auto
  ultimately show ?thesis
    using segs by (simp only: normalize_canonical_name_def Let_def filter_filter conj_absorb if_False)
qed

theorem canonical_name_stays_witness:
  "normalize_canonical_name ''living_room.tv'' = Some ''living_room.tv''"
proof (rule canonical_name_stays)
  show "normalize_canonical_name ''Living room . TV!'' = Some ''living_room.tv''" by code_simp
qed

subsection \<open>A free name is found\<close>

fun digits_value :: "nat \<Rightarrow> string \<Rightarrow> nat" where
  "digits_value a [] = a"
| "digits_value a (c # cs) = digits_value (10 * a + (of_char c - 48)) cs"

lemma digits_value_append: "digits_value a (s @ t) = digits_value (digits_value a s) t"
  by (induction a s rule: digits_value.induct) auto

lemma digits_value_show: "digits_value 0 (show_nat n) = n"
proof (induction n rule: show_nat.induct)
  case (1 n)
  show ?case
  proof (cases "n < 10")
    case False
    have "48 + n mod 10 < 256" by (simp add: less_imp_le_nat)
    with 1 False show ?thesis by (simp add: show_nat.simps [of n] digits_value_append of_char_of)
  qed (simp add: show_nat.simps [of n] of_char_of)
qed

lemma numbered_inj: "numbered s m = numbered s n \<longleftrightarrow> m = n"
  unfolding numbered_def by (metis append_same_eq digits_value_show same_append_eq)

lemma first_free_finds:
  "available (numbered s (n + k)) \<Longrightarrow> \<exists>m. first_free available s n = Some (numbered s m) \<and> available (numbered s m)"
proof (induction k arbitrary: n)
  case (Suc k)
  then show ?case by (subst first_free.simps) (use Suc.IH [of "Suc n"] in auto)
qed (auto simp: first_free.simps)

lemma unused_number: "\<exists>k. name_available d devices (numbered s (n + k))"
proof (rule ccontr)
  assume "\<nexists>k. name_available d devices (numbered s (n + k))"
  then have "Some (numbered s (n + k)) \<in> dv_canonical_name ` set devices" for k
    by (auto simp: name_available_def list_all_iff image_iff) metis
  then have "finite (range (\<lambda>k. Some (numbered s (n + k))))"
    by (rule_tac finite_subset [of _ "dv_canonical_name ` set devices"]) auto
  moreover have "inj (\<lambda>k. Some (numbered s (n + k)))" by (rule injI) (simp add: numbered_inj)
  ultimately show False using finite_imageD by blast
qed

text \<open>
  The search for a device's name comes to an end, and no other device has the name it finds.
\<close>

lemma first_name_found:
  "\<exists>n. ensure_unique_canonical_name d devices = Some n \<and> name_available d devices n"
proof -
  let ?s = "canonical_name_base d @ ''_'' @ normalize_name_segment (dv_id d)"
  obtain k where "name_available d devices (numbered ?s (2 + k))" using unused_number by blast
  then show ?thesis
    using first_free_finds [of "name_available d devices" ?s 2 k] by (auto simp: ensure_unique_canonical_name_def Let_def)
qed

subsection \<open>The sweeps\<close>

definition names_unique :: "device list \<Rightarrow> bool" where
  "names_unique ds \<longleftrightarrow>
     (\<forall>d \<in> set ds. \<forall>e \<in> set ds. dv_canonical_name d \<noteq> None \<and> dv_canonical_name d = dv_canonical_name e \<longrightarrow> dv_id d = dv_id e)"

lemma put_in_place: "table_ok (t @ (k, v) # u) \<Longrightarrow> put k v' (t @ (k, v) # u) = t @ (k, v') # u"
  by (induction t) (auto simp: sorted_wrt_append)

lemma devices_listed:
  assumes "hub_ok h"
  shows "hb_devices h = map (\<lambda>d. (dv_id d, d)) (list_devices h)"
  using assms by (auto simp: hub_ok_def list_devices_def intro!: map_idI [symmetric])

lemma upsert_in_place:
  assumes "hub_ok h" "list_devices h = seen @ d # ds" "dv_id d' = dv_id d"
  shows "list_devices (upsert_device d' h) = seen @ d' # ds"
proof -
  have eq: "hb_devices h = map (\<lambda>d. (dv_id d, d)) seen @ (dv_id d, d) # map (\<lambda>d. (dv_id d, d)) ds"
    using devices_listed [OF assms(1)] assms(2) by simp
  then have "table_ok (map (\<lambda>d. (dv_id d, d)) seen @ (dv_id d, d) # map (\<lambda>d. (dv_id d, d)) ds)"
    using assms(1) by (simp add: hub_ok_def)
  from put_in_place [OF this] have "put (dv_id d) d' (hb_devices h) =
      map (\<lambda>d. (dv_id d, d)) seen @ (dv_id d, d') # map (\<lambda>d. (dv_id d, d)) ds"
    unfolding eq .
  then show ?thesis using assms(3) by (simp add: list_devices_def comp_def)
qed

lemma ids_distinct:
  assumes "hub_ok h"
  shows "distinct (map dv_id (list_devices h))"
proof -
  have "map fst (hb_devices h) = map dv_id (list_devices h)"
    by (subst devices_listed [OF assms]) simp
  then show ?thesis using assms table_distinct [of "hb_devices h"] by (simp add: hub_ok_def)
qed

lemma named_uniquely:
  assumes "names_unique (seen @ d # ds)" "name_available d (seen @ d # ds) n" "distinct (map dv_id (seen @ d # ds))"
  shows "names_unique (seen @ d\<lparr>dv_canonical_name := Some n\<rparr> # ds)"
proof -
  have other: "dv_id e \<noteq> dv_id d" "dv_canonical_name e \<noteq> Some n" if "e \<in> set (seen @ ds)" for e
  proof -
    show "dv_id e \<noteq> dv_id d" using that assms(3) by (auto simp: image_iff)
    then show "dv_canonical_name e \<noteq> Some n"
      using that assms(2) by (auto simp: name_available_def list_all_iff)
  qed
  have rest: "dv_id e = dv_id f"
    if "e \<in> set (seen @ ds)" "f \<in> set (seen @ ds)" "dv_canonical_name e \<noteq> None" "dv_canonical_name e = dv_canonical_name f" for e f
  proof -
    have "e \<in> set (seen @ d # ds)" "f \<in> set (seen @ d # ds)" using that by auto
    then show ?thesis using assms(1) that(3,4) unfolding names_unique_def by blast
  qed
  show ?thesis
    unfolding names_unique_def
  proof (intro ballI impI)
    fix e f
    assume "e \<in> set (seen @ d\<lparr>dv_canonical_name := Some n\<rparr> # ds)" "f \<in> set (seen @ d\<lparr>dv_canonical_name := Some n\<rparr> # ds)"
      and "dv_canonical_name e \<noteq> None \<and> dv_canonical_name e = dv_canonical_name f"
    then show "dv_id e = dv_id f" using rest [of e f] other [of e] other [of f]
      by (elim conjE) (simp only: set_append list.set Un_iff insert_iff, elim disjE; force)
  qed
qed

lemma backfill_from_ok:
  assumes "hub_ok h" "list_devices h = seen @ ds" "names_unique (seen @ ds)" "\<forall>d \<in> set seen. dv_canonical_name d \<noteq> None"
  shows "\<exists>n h'. backfill_from seen ds updated h = Some (n, h') \<and> hub_ok h' \<and> names_unique (list_devices h')
    \<and> (\<forall>d \<in> set (list_devices h'). dv_canonical_name d \<noteq> None)
    \<and> map (\<lambda>d. d\<lparr>dv_canonical_name := None\<rparr>) (list_devices h') = map (\<lambda>d. d\<lparr>dv_canonical_name := None\<rparr>) (seen @ ds)
    \<and> (\<forall>d \<in> set (seen @ ds). dv_canonical_name d \<noteq> None \<longrightarrow> d \<in> set (list_devices h'))"
  using assms
proof (induction ds arbitrary: seen updated h)
  case (Cons d ds)
  show ?case
  proof (cases "dv_canonical_name d")
    case None
    obtain n where n: "ensure_unique_canonical_name d (seen @ d # ds) = Some n" "name_available d (seen @ d # ds) n"
      using first_name_found by blast
    let ?d = "d\<lparr>dv_canonical_name := Some n\<rparr>"
    have "list_devices (upsert_device ?d h) = (seen @ [?d]) @ ds"
      using upsert_in_place [OF Cons.prems(1,2), of ?d] by simp
    moreover have "names_unique ((seen @ [?d]) @ ds)"
      using named_uniquely [OF Cons.prems(3) n(2)] ids_distinct [OF Cons.prems(1)] Cons.prems(2) by simp
    ultimately have "\<exists>m h'. backfill_from (seen @ [?d]) ds (Suc updated) (upsert_device ?d h) = Some (m, h') \<and> hub_ok h'
      \<and> names_unique (list_devices h') \<and> (\<forall>d \<in> set (list_devices h'). dv_canonical_name d \<noteq> None)
      \<and> map (\<lambda>d. d\<lparr>dv_canonical_name := None\<rparr>) (list_devices h') = map (\<lambda>d. d\<lparr>dv_canonical_name := None\<rparr>) ((seen @ [?d]) @ ds)
      \<and> (\<forall>d \<in> set ((seen @ [?d]) @ ds). dv_canonical_name d \<noteq> None \<longrightarrow> d \<in> set (list_devices h'))"
      using Cons.prems(1,4) by (intro Cons.IH) (auto simp: reg.wf_write)
    with None n(1) show ?thesis by (auto simp: Let_def)
  next
    case (Some m)
    then show ?thesis using Cons.IH [of h "seen @ [d]" updated] Cons.prems by auto
  qed
qed auto

text \<open>
  C23. The sweep at start gives every device a name and comes to its end: if no two devices shared a
  name before, none do afterwards, the devices that had one keep it, and nothing else of any
  device changes.
\<close>

theorem backfill_names_all:
  assumes "hub_ok h" "names_unique (list_devices h)"
  shows "\<exists>n h'. backfill_missing_canonical_names h = Some (n, h') \<and> names_unique (list_devices h')
    \<and> (\<forall>d \<in> set (list_devices h'). dv_canonical_name d \<noteq> None)
    \<and> map (\<lambda>d. d\<lparr>dv_canonical_name := None\<rparr>) (list_devices h') = map (\<lambda>d. d\<lparr>dv_canonical_name := None\<rparr>) (list_devices h)
    \<and> (\<forall>d \<in> set (list_devices h). dv_canonical_name d \<noteq> None \<longrightarrow> d \<in> set (list_devices h'))"
  using backfill_from_ok [of h "[]" "list_devices h" 0] assms unfolding backfill_missing_canonical_names_def by auto

definition twin_lamps :: hub where
  "twin_lamps = empty_hub\<lparr>hb_devices := [(''l1'', device_new 0 ''l1'' ''Lamp'' ''plugin.hue''),
     (''l2'', device_new 0 ''l2'' ''Lamp'' ''plugin.hue'')]\<rparr>"

theorem backfill_names_all_witness:
  "\<exists>n h'. backfill_missing_canonical_names twin_lamps = Some (n, h') \<and> names_unique (list_devices h')"
  using backfill_names_all [of twin_lamps]
  by (auto simp: twin_lamps_def hub_ok_def names_unique_def list_devices_def device_new_def)

definition area_migrated :: "device \<Rightarrow> device" where
  "area_migrated d = d\<lparr>dv_area := (case dv_area d of
      None \<Rightarrow> None
    | Some a \<Rightarrow> if normalize_name_segment a = a then Some a
        else if normalize_name_segment a = [] then None else Some (normalize_name_segment a))\<rparr>"

lemma migrate_area_unchanged: "area_migrated d = d \<Longrightarrow> migrate_area d (n, h) = (n, h)"
  by (cases d) (auto simp: migrate_area_def area_migrated_def Let_def split: option.splits if_splits)

lemma migrate_area_run:
  assumes "hub_ok h" "list_devices h = seen @ d # ds"
  shows "list_devices (snd (migrate_area d (n, h))) = seen @ area_migrated d # ds \<and> hub_ok (snd (migrate_area d (n, h)))"
proof (cases "area_migrated d = d")
  case False
  then have "snd (migrate_area d (n, h)) = upsert_device (area_migrated d) h"
    by (cases d) (auto simp: migrate_area_def area_migrated_def Let_def split: option.splits if_splits)
  moreover have "dv_id (area_migrated d) = dv_id d" by (simp add: area_migrated_def)
  ultimately show ?thesis using upsert_in_place [OF assms] assms(1) by (simp add: reg.wf_write)
qed (use assms migrate_area_unchanged in simp)

lemma migrate_area_all:
  assumes "hub_ok h" "list_devices h = seen @ ds"
  shows "list_devices (snd (fold migrate_area ds (n, h))) = seen @ map area_migrated ds"
  using assms
proof (induction ds arbitrary: seen n h)
  case (Cons d ds)
  obtain n' h' where step: "migrate_area d (n, h) = (n', h')" by fastforce
  have "list_devices h' = (seen @ [area_migrated d]) @ ds" "hub_ok h'"
    using migrate_area_run [OF Cons.prems, of n] step by simp_all
  then show ?case using Cons.IH [of h' "seen @ [area_migrated d]" n'] step by simp
qed simp

lemma area_migrated_idem: "area_migrated (area_migrated d) = area_migrated d"
  by (cases d) (auto simp: area_migrated_def split: option.split)

lemma migrated_stays: "(\<And>d. d \<in> set ds \<Longrightarrow> area_migrated d = d) \<Longrightarrow> fold migrate_area ds (n, h) = (n, h)"
  by (induction ds) (auto simp: migrate_area_unchanged)

text \<open>The second sweep over the rooms changes nothing.\<close>

lemma migrate_area_names_once:
  assumes "hub_ok h"
  shows "migrate_area_names (snd (migrate_area_names h)) = (0, snd (migrate_area_names h))"
proof -
  have "list_devices (snd (migrate_area_names h)) = map area_migrated (list_devices h)"
    using migrate_area_all [OF assms, of "[]"] by (simp add: migrate_area_names_def)
  then show ?thesis
    unfolding migrate_area_names_def [of "snd (migrate_area_names h)"]
    by (intro migrated_stays) (auto simp: area_migrated_idem)
qed

end
