(* ===== verification/Rooms.thy ===== *)
theory Rooms
  imports Device_Naming
begin

text \<open>
  Rooms (\<open>hc-core/src/rooms.rs\<close>): a room has an identity, a name as typed and the slugs that
  devices name it by. Every operation holds one lock, so operations on rooms come one after another.
  The identifier made from a slug (a hash) and the lower case of a name are parameters; a new random
  identifier is an argument, and that it is not in use yet a hypothesis. Operations announce what
  they change on the public bus.
\<close>

subsection \<open>Texts\<close>

text \<open>\<open>str::trim\<close>: the characters with the property \<open>White_Space\<close>, in UTF-8.\<close>

definition white_space :: "string list" where
  "white_space =
     map (\<lambda>c. [c]) [CHR 0x09, CHR 0x0A, CHR 0x0B, CHR 0x0C, CHR 0x0D, CHR 0x20]
     @ [[CHR 0xC2, CHR 0x85], [CHR 0xC2, CHR 0xA0], [CHR 0xE1, CHR 0x9A, CHR 0x80]]
     @ map (\<lambda>c. [CHR 0xE2, CHR 0x80, c])
         [CHR 0x80, CHR 0x81, CHR 0x82, CHR 0x83, CHR 0x84, CHR 0x85, CHR 0x86, CHR 0x87,
          CHR 0x88, CHR 0x89, CHR 0x8A, CHR 0xA8, CHR 0xA9, CHR 0xAF]
     @ [[CHR 0xE2, CHR 0x81, CHR 0x9F], [CHR 0xE3, CHR 0x80, CHR 0x80]]"

function strip_leading :: "string list \<Rightarrow> string \<Rightarrow> string" where
  "strip_leading ws s =
     (case find (\<lambda>w. w \<noteq> [] \<and> starts_with w s) ws of
        None \<Rightarrow> s
      | Some w \<Rightarrow> strip_leading ws (drop (length w) s))"
  by auto
termination
proof (relation "measure (length \<circ> snd)")
  fix ws s w
  assume "find (\<lambda>w. w \<noteq> [] \<and> starts_with w s) ws = Some w"
  then have "w \<noteq> []" "starts_with w s" by (auto simp: find_Some_iff)
  then have "0 < length w" "w \<noteq> []" "s \<noteq> []" by (auto simp: starts_with_def)
  then show "((ws, drop (length w) s), ws, s) \<in> measure (length \<circ> snd)" by simp
qed simp

declare strip_leading.simps [simp del]

definition trim :: "string \<Rightarrow> string" where
  "trim s = rev (strip_leading (map rev white_space) (rev (strip_leading white_space s)))"

definition slug :: "string \<Rightarrow> string" where
  "slug name = normalize_name_segment name"

text \<open>The first letter of a word of a slug, which is a small letter or a digit.\<close>

definition capital :: "char \<Rightarrow> char" where
  "capital c = (if 97 \<le> byte c \<and> byte c \<le> 122 then char_of (byte c - 32) else c)"

definition title_case :: "string \<Rightarrow> string" where
  "title_case s =
     join_with '' '' (map (\<lambda>w. capital (hd w) # tl w) (filter (\<lambda>w. w \<noteq> []) (split_on CHR ''_'' s)))"

subsection \<open>Reading rooms\<close>

record room_ext =
  rm_legacy_id :: "string \<Rightarrow> uuid"
  rm_lower :: "string \<Rightarrow> string"

datatype room_error = RoomNotFound | RoomEmptyName | RoomTaken area | RoomSame | RoomStore string

definition answers_to :: "area \<Rightarrow> string \<Rightarrow> bool" where
  "answers_to r s \<longleftrightarrow> s \<noteq> [] \<and> (ar_slug r = s \<or> s \<in> set (ar_aliases r))"

definition new_id :: "room_ext \<Rightarrow> uuid \<Rightarrow> string \<Rightarrow> area list \<Rightarrow> uuid" where
  "new_id rx fresh s rooms =
     (let legacy = rm_legacy_id rx s in if list_ex (\<lambda>r. ar_id r = legacy) rooms then fresh else legacy)"

definition room_for :: "area list \<Rightarrow> string \<Rightarrow> area option" where
  "room_for rooms s = find (\<lambda>r. answers_to r s) rooms"

definition value_at :: "area \<Rightarrow> string option \<Rightarrow> bool" where
  "value_at room v = (case v of None \<Rightarrow> False | Some a \<Rightarrow> answers_to room (slug a))"

definition points_at :: "device \<Rightarrow> area \<Rightarrow> bool \<times> bool" where
  "points_at d room = (value_at room (dv_area d), value_at room (dv_area_override d))"

definition with_devices :: "device list \<Rightarrow> area \<Rightarrow> area" where
  "with_devices devices room =
     room\<lparr>ar_device_ids := sort (map dv_id (filter (\<lambda>d. value_at room (effective_area d)) devices))\<rparr>"

text \<open>By name in lower case, and by identifier where names agree; sorting is stable.\<close>

definition collect_rooms :: "room_ext \<Rightarrow> area list \<Rightarrow> device list \<Rightarrow> area list" where
  "collect_rooms rx rooms devices =
     sort_key (\<lambda>r. rm_lower rx (ar_name r))
       (sort_key ar_id (map (with_devices devices) (filter (\<lambda>r. ar_slug r \<noteq> []) rooms)))"

definition list_rooms :: "room_ext \<Rightarrow> hub \<Rightarrow> area list" where
  "list_rooms rx h = collect_rooms rx (list_areas h) (list_devices h)"

definition get_room :: "room_ext \<Rightarrow> hub \<Rightarrow> uuid \<Rightarrow> area option" where
  "get_room rx h i = find (\<lambda>r. ar_id r = i) (list_rooms rx h)"

definition announce_room :: "room_ext \<Rightarrow> uuid \<Rightarrow> hub \<Rightarrow> (room_error, area \<times> hub) result" where
  "announce_room rx i h =
     (case get_room rx h i of
        None \<Rightarrow> Inl (RoomStore ''room vanished while being saved'')
      | Some room \<Rightarrow> Inr (room, publish (HeRoomChanged room) h))"

subsection \<open>The migration at start\<close>

definition migrate_stored :: "room_ext \<Rightarrow> area \<Rightarrow> area list \<times> nat \<times> hub \<Rightarrow> area list \<times> nat \<times> hub" where
  "migrate_stored rx room = (\<lambda>(rooms, named, h).
     if ar_slug room \<noteq> [] then (rooms @ [room], named, h)
     else
       let s = slug (ar_name room) in
       if s = [] \<or> room_for rooms s \<noteq> None then (rooms, named, delete_area (ar_id room) h)
       else
         let room' = room\<lparr>ar_id := rm_legacy_id rx s, ar_name := title_case s, ar_slug := s,
                          ar_named_by := NamedByGuess, ar_device_ids := []\<rparr>;
             h' = upsert_area room' h in
         (rooms @ [room'], Suc named, if ar_id room' \<noteq> ar_id room then delete_area (ar_id room) h' else h'))"

definition guessed_room :: "uuid \<Rightarrow> string \<Rightarrow> area" where
  "guessed_room i s =
     \<lparr>ar_id = i, ar_name = title_case s, ar_slug = s, ar_aliases = [], ar_named_by = NamedByGuess, ar_device_ids = []\<rparr>"

definition migrate_value ::
  "room_ext \<Rightarrow> (nat \<Rightarrow> uuid) \<Rightarrow> string option \<Rightarrow> area list \<times> nat \<times> hub \<Rightarrow> area list \<times> nat \<times> hub"
where
  "migrate_value rx fresh v = (\<lambda>(rooms, recorded, h).
     let s = (case v of None \<Rightarrow> [] | Some a \<Rightarrow> slug a) in
     if s = [] \<or> room_for rooms s \<noteq> None then (rooms, recorded, h)
     else
       let room = guessed_room (new_id rx (fresh recorded) s rooms) s in
       (rooms @ [room], Suc recorded, upsert_area room h))"

definition migrate_rooms :: "room_ext \<Rightarrow> (nat \<Rightarrow> uuid) \<Rightarrow> hub \<Rightarrow> nat \<times> nat \<times> hub" where
  "migrate_rooms rx fresh h =
     (let (rooms, named, h1) = fold (migrate_stored rx) (list_areas h) ([], 0, h);
          (_, recorded, h2) =
            fold (\<lambda>d. migrate_value rx fresh (dv_area_override d) \<circ> migrate_value rx fresh (dv_area d))
              (list_devices h1) (rooms, 0, h1) in
      (named, recorded, h2))"

subsection \<open>Changing rooms\<close>

definition place_reported :: "room_ext \<Rightarrow> uuid \<Rightarrow> string \<Rightarrow> hub \<Rightarrow> (room_error, string option \<times> hub) result" where
  "place_reported rx fresh reported h =
     (let s = slug reported in
      if s = [] then Inr (None, h)
      else
        let spelled = trim reported;
            spelling = (if spelled \<noteq> s then Some spelled else None);
            rooms = list_areas h in
        case room_for rooms s of
          Some room \<Rightarrow>
            let respell = (ar_named_by room = NamedByGuess \<and> ar_slug room = s) in
            (case spelling of
               Some name \<Rightarrow>
                 if respell then
                   try_bind (announce_room rx (ar_id room)
                       (upsert_area (room\<lparr>ar_name := name, ar_named_by := NamedByBridge\<rparr>) h))
                     (\<lambda>(_, h'). Inr (Some (ar_slug room), h'))
                 else Inr (Some (ar_slug room), h)
             | None \<Rightarrow> Inr (Some (ar_slug room), h))
        | None \<Rightarrow>
            let room = \<lparr>ar_id = new_id rx fresh s rooms, ar_name = unwrap_or spelling (title_case s), ar_slug = s,
                        ar_aliases = [], ar_named_by = (if spelling \<noteq> None then NamedByBridge else NamedByGuess),
                        ar_device_ids = []\<rparr> in
            try_bind (announce_room rx (ar_id room) (upsert_area room h)) (\<lambda>(_, h'). Inr (Some s, h')))"

definition create_room :: "room_ext \<Rightarrow> uuid \<Rightarrow> string \<Rightarrow> hub \<Rightarrow> (room_error, (area \<times> bool) \<times> hub) result" where
  "create_room rx fresh typed h =
     (let s = slug typed in
      if s = [] then Inl RoomEmptyName
      else
        let rooms = list_areas h in
        case room_for rooms s of
          Some room \<Rightarrow> Inr ((with_devices (list_devices h) room, False), h)
        | None \<Rightarrow>
            let room = \<lparr>ar_id = new_id rx fresh s rooms, ar_name = trim typed, ar_slug = s, ar_aliases = [],
                        ar_named_by = NamedByPerson, ar_device_ids = []\<rparr> in
            try_bind (announce_room rx (ar_id room) (upsert_area room h)) (\<lambda>(r, h'). Inr ((r, True), h')))"

definition place_typed :: "room_ext \<Rightarrow> uuid \<Rightarrow> string \<Rightarrow> hub \<Rightarrow> (room_error, string option \<times> hub) result" where
  "place_typed rx fresh typed h =
     (case create_room rx fresh typed h of
        Inr ((room, _), h') \<Rightarrow> Inr (Some (ar_slug room), h')
      | Inl RoomEmptyName \<Rightarrow> Inr (None, h)
      | Inl e \<Rightarrow> Inl e)"

definition repoint :: "area \<Rightarrow> string \<Rightarrow> device \<Rightarrow> hub \<Rightarrow> hub" where
  "repoint from s d h =
     (let (in_area, in_override) = points_at d from in
      if \<not> in_area \<and> \<not> in_override then h
      else upsert_device (d\<lparr>dv_area := (if in_area then Some s else dv_area d),
                            dv_area_override := (if in_override then Some s else dv_area_override d)\<rparr>) h)"

definition repoint_all :: "area \<Rightarrow> string \<Rightarrow> hub \<Rightarrow> hub" where
  "repoint_all from s h = fold (repoint from s) (list_devices h) h"

definition renamed :: "string \<Rightarrow> string \<Rightarrow> area \<Rightarrow> area" where
  "renamed typed s old =
     (let room = old\<lparr>ar_name := typed, ar_named_by := NamedByPerson\<rparr> in
      if s = ar_slug old then room
      else
        let aliases = filter (\<lambda>a. a \<noteq> s) (ar_aliases old) in
        room\<lparr>ar_slug := s,
             ar_aliases := (if ar_slug old \<in> set aliases then aliases else aliases @ [ar_slug old])\<rparr>)"

definition rename_room :: "room_ext \<Rightarrow> uuid \<Rightarrow> string \<Rightarrow> hub \<Rightarrow> (room_error, area \<times> hub) result" where
  "rename_room rx i typed h =
     (let s = slug typed in
      if s = [] then Inl RoomEmptyName
      else
        let rooms = list_areas h in
        case find (\<lambda>r. ar_id r = i) rooms of
          None \<Rightarrow> Inl RoomNotFound
        | Some old \<Rightarrow>
            (case find (\<lambda>r. ar_id r \<noteq> i \<and> answers_to r s) rooms of
               Some other \<Rightarrow> Inl (RoomTaken (with_devices (list_devices h) other))
             | None \<Rightarrow>
                 announce_room rx i
                   (upsert_area (renamed (trim typed) s old)
                     (if s \<noteq> ar_slug old then repoint_all old s h else h))))"

definition unplace :: "area \<Rightarrow> device \<Rightarrow> hub \<Rightarrow> hub" where
  "unplace room d h =
     (let (in_area, in_override) = points_at d room in
      if \<not> in_area \<and> \<not> in_override then h
      else upsert_device (d\<lparr>dv_area := (if in_area then None else dv_area d),
                            dv_area_override := (if in_override then None else dv_area_override d)\<rparr>) h)"

definition delete_room :: "uuid \<Rightarrow> hub \<Rightarrow> (room_error, hub) result" where
  "delete_room i h =
     (case get_area h i of
        None \<Rightarrow> Inl RoomNotFound
      | Some room \<Rightarrow>
          Inr (publish (HeRoomRemoved i None) (delete_area i (fold (unplace room) (list_devices h) h))))"

definition take_slugs :: "area \<Rightarrow> area \<Rightarrow> area" where
  "take_slugs from target =
     fold (\<lambda>s t. if s \<noteq> ar_slug t \<and> s \<notin> set (ar_aliases t) then t\<lparr>ar_aliases := ar_aliases t @ [s]\<rparr> else t)
       (ar_slug from # ar_aliases from) target"

definition merge_rooms :: "room_ext \<Rightarrow> uuid \<Rightarrow> uuid \<Rightarrow> hub \<Rightarrow> (room_error, area \<times> hub) result" where
  "merge_rooms rx i into h =
     (if i = into then Inl RoomSame
      else case get_area h i of
             None \<Rightarrow> Inl RoomNotFound
           | Some from \<Rightarrow>
               (case get_area h into of
                  None \<Rightarrow> Inl RoomNotFound
                | Some target \<Rightarrow>
                    announce_room rx into
                      (publish (HeRoomRemoved i (Some into))
                        (delete_area i (upsert_area (take_slugs from target) (repoint_all from (ar_slug target) h))))))"

definition set_device :: "area \<Rightarrow> string list \<Rightarrow> device \<Rightarrow> hub \<Rightarrow> hub" where
  "set_device room wanted d h =
     (let in_room = value_at room (effective_area d); want = dv_id d \<in> set wanted in
      if want \<and> \<not> in_room then upsert_device (d\<lparr>dv_area_override := Some (ar_slug room)\<rparr>) h
      else if \<not> want \<and> in_room then
        upsert_device (d\<lparr>dv_area_override := None, dv_area := (if fst (points_at d room) then None else dv_area d)\<rparr>) h
      else h)"

definition set_devices :: "room_ext \<Rightarrow> uuid \<Rightarrow> string list \<Rightarrow> hub \<Rightarrow> (room_error, area \<times> hub) result" where
  "set_devices rx i device_ids h =
     (case get_area h i of
        None \<Rightarrow> Inl RoomNotFound
      | Some room \<Rightarrow> announce_room rx i (fold (set_device room device_ids) (list_devices h) h))"

end
