(* ===== verification/Glue.thy ===== *)
theory Glue
  imports Device_Naming
begin

text \<open>
  Helper devices (\<open>hc-core/src/glue\<close>): switches, counters, numbers, selects, texts, buttons,
  date-times, groups, thresholds and schedules, the manager that hands them commands and events,
  and the configuration that seeds them. A handler returns the hub after it, or a panic (\<open>Inl\<close>),
  which ends the manager's only task. Integers are those of a release build. The parser of JSON,
  the deserializer of switch commands and the local clock (day, hour, minute) are parameters.
\<close>

subsection \<open>Numbers and texts\<close>

definition as_i64 :: "json \<Rightarrow> int option" where
  "as_i64 v =
     (case v of
        JNum (PosInt k) \<Rightarrow> if k < 2 ^ 63 then Some (int k) else None
      | JNum (NegInt i) \<Rightarrow> Some i
      | _ \<Rightarrow> None)"

definition as_array :: "json \<Rightarrow> json list option" where
  "as_array v = (case v of JArr xs \<Rightarrow> Some xs | _ \<Rightarrow> None)"

definition wrap_i64 :: "int \<Rightarrow> int" where
  "wrap_i64 i = (i + 2 ^ 63) mod 2 ^ 64 - 2 ^ 63"

definition f64_max :: "f64 \<Rightarrow> f64 \<Rightarrow> f64" where
  "f64_max a b = (if is_nan a then b else if is_nan b then a else if f64_lt a b then b else a)"

definition f64_min :: "f64 \<Rightarrow> f64 \<Rightarrow> f64" where
  "f64_min a b = (if is_nan a then b else if is_nan b then a else if f64_lt b a then b else a)"

definition f64_abs :: "f64 \<Rightarrow> f64" where
  "f64_abs a = (case a of Fin q \<Rightarrow> Fin \<bar>q\<bar> | NaN \<Rightarrow> NaN | _ \<Rightarrow> PosInf)"

definition json_f64 :: "f64 \<Rightarrow> json" where
  "json_f64 f = (case from_f64 f of Some n \<Rightarrow> JNum n | None \<Rightarrow> JNull)"

definition is_digit :: "char \<Rightarrow> bool" where
  "is_digit c \<longleftrightarrow> 48 \<le> byte c \<and> byte c \<le> 57"

text \<open>\<open>str::parse::<u32>\<close>.\<close>

definition parse_u32 :: "string \<Rightarrow> nat option" where
  "parse_u32 s =
     (let t = (if starts_with ''+'' s then tl s else s); v = digits_value 0 t in
      if t \<noteq> [] \<and> list_all is_digit t \<and> v < 2 ^ 32 then Some v else None)"

subsection \<open>Shared helpers\<close>

datatype switch_command = SwOn | SwOff | SwToggle

record glue_ext =
  gx :: timer_ext
  gx_switch_command :: "json \<Rightarrow> switch_command option"
  gx_local :: "timestamp \<Rightarrow> weekday \<times> nat \<times> nat"

type_synonym glue_result = "(string, hub) result"

definition changed_keys :: "attrs \<Rightarrow> attrs \<Rightarrow> string list" where
  "changed_keys previous current =
     filter (\<lambda>k. map_of previous k \<noteq> map_of current k) (map fst current)
     @ filter (\<lambda>k. map_of current k = None) (map fst previous)"

definition publish_state_change :: "string \<Rightarrow> string \<Rightarrow> attrs \<Rightarrow> attrs \<Rightarrow> device_change \<Rightarrow> hub \<Rightarrow> hub" where
  "publish_state_change device_id name previous current change h =
     (let changed = changed_keys previous current in
      if changed = [] then h
      else publish (HeDeviceStateChanged device_id (Some name) previous current changed change) h)"

definition apply_state_update :: "timestamp \<Rightarrow> string \<Rightarrow> device_change \<Rightarrow> (attrs \<Rightarrow> attrs) \<Rightarrow> hub \<Rightarrow> hub" where
  "apply_state_update now device_id change mutate h =
     (case get_device h device_id of
        None \<Rightarrow> h
      | Some dev \<Rightarrow>
          let previous = dv_attributes dev;
              dev' = dev\<lparr>dv_attributes := mutate previous, dv_last_seen := now, dv_last_change := Some change\<rparr> in
          publish_state_change device_id (dv_name dev) previous (dv_attributes dev') change (upsert_device dev' h))"

definition attr :: "device \<Rightarrow> string \<Rightarrow> json option" where
  "attr d k = map_of (dv_attributes d) k"

definition strings_of :: "json option \<Rightarrow> string list" where
  "strings_of v = (case Option.bind v as_array of Some xs \<Rightarrow> List.map_filter as_str xs | None \<Rightarrow> [])"

definition change_of :: "glue_ext \<Rightarrow> timestamp \<Rightarrow> json \<Rightarrow> device_change" where
  "change_of x now value =
     (case extract_change_from_command_payload (gx x) now value of Some c \<Rightarrow> c | None \<Rightarrow> device_change_unknown now)"

definition command_of :: "json \<Rightarrow> string option" where
  "command_of value = Option.bind (json_get value ''command'') as_str"

definition parse_glue_cmd_topic :: "string \<Rightarrow> string \<Rightarrow> string option" where
  "parse_glue_cmd_topic topic prefix =
     (case split_on CHR ''/'' topic of
        p0 # p1 # p2 # p3 # rest \<Rightarrow>
          if p0 = ''homecore'' \<and> p1 = ''devices'' \<and> starts_with prefix p2 \<and> join_with ''/'' (p3 # rest) = ''cmd''
          then Some p2 else None
      | _ \<Rightarrow> None)"

subsection \<open>Handlers\<close>

definition switch_cmd :: "glue_ext \<Rightarrow> timestamp \<Rightarrow> string \<Rightarrow> json \<Rightarrow> hub \<Rightarrow> glue_result" where
  "switch_cmd x now device_id value h =
     Inr (case (case Option.bind (json_get value ''on'') as_bool of
                  Some on \<Rightarrow> Some (if on then SwOn else SwOff)
                | None \<Rightarrow> gx_switch_command x value) of
            None \<Rightarrow> h
          | Some cmd \<Rightarrow>
              let current_on = unwrap_or (Option.bind (Option.bind (get_device h device_id) (\<lambda>d. attr d ''on'')) as_bool) False;
                  new_on = (case cmd of SwOn \<Rightarrow> True | SwOff \<Rightarrow> False | SwToggle \<Rightarrow> \<not> current_on) in
              if new_on = current_on then h
              else apply_state_update now device_id (change_of x now value) (obj_insert ''on'' (JBool new_on)) h)"

definition counter_new :: "string \<Rightarrow> json \<Rightarrow> int \<Rightarrow> int \<Rightarrow> int option \<Rightarrow> int option \<Rightarrow> int option" where
  "counter_new cmd value current step mn mx =
     (let up = (\<lambda>v. case mn of Some m \<Rightarrow> max v m | None \<Rightarrow> v); down = (\<lambda>v. case mx of Some m \<Rightarrow> min v m | None \<Rightarrow> v) in
      if cmd = ''increment'' then Some (down (wrap_i64 (current + step)))
      else if cmd = ''decrement'' then Some (up (wrap_i64 (current - step)))
      else if cmd = ''reset'' then Some (unwrap_or mn 0)
      else if cmd = ''set'' then Some (down (up (unwrap_or (Option.bind (json_get value ''value'') as_i64) 0)))
      else None)"

definition counter_cmd :: "glue_ext \<Rightarrow> timestamp \<Rightarrow> string \<Rightarrow> json \<Rightarrow> hub \<Rightarrow> glue_result" where
  "counter_cmd x now device_id value h =
     Inr (case command_of value of
            None \<Rightarrow> h
          | Some cmd \<Rightarrow>
              (case get_device h device_id of
                 None \<Rightarrow> h
               | Some dev \<Rightarrow>
                   let num = (\<lambda>k. Option.bind (attr dev k) as_i64); current = unwrap_or (num ''count'') 0 in
                   case counter_new cmd value current (unwrap_or (num ''step'') 1) (num ''min'') (num ''max'') of
                     None \<Rightarrow> h
                   | Some new_count \<Rightarrow>
                       if new_count = current then h
                       else apply_state_update now device_id (change_of x now value)
                              (obj_insert ''count'' (json_int new_count)) h))"

definition clamp_f64 :: "f64 option \<Rightarrow> f64 option \<Rightarrow> f64 \<Rightarrow> f64" where
  "clamp_f64 mn mx v =
     (let v' = (case mn of Some m \<Rightarrow> f64_max v m | None \<Rightarrow> v) in case mx of Some m \<Rightarrow> f64_min v' m | None \<Rightarrow> v')"

definition number_new :: "string \<Rightarrow> json \<Rightarrow> f64 \<Rightarrow> f64 \<Rightarrow> f64 option \<Rightarrow> f64 option \<Rightarrow> f64 option" where
  "number_new cmd value current step mn mx =
     (if cmd = ''set'' then Some (clamp_f64 mn mx (unwrap_or (Option.bind (json_get value ''value'') as_f64) current))
      else if cmd = ''increment'' then Some (clamp_f64 mn mx (f64_op (+) current step))
      else if cmd = ''decrement'' then Some (clamp_f64 mn mx (f64_op (-) current step))
      else None)"

definition set_or_command :: "json \<Rightarrow> string option" where
  "set_or_command value =
     (case command_of value of
        Some c \<Rightarrow> Some c
      | None \<Rightarrow> if json_get value ''value'' \<noteq> None then Some ''set'' else None)"

definition number_cmd :: "glue_ext \<Rightarrow> timestamp \<Rightarrow> string \<Rightarrow> json \<Rightarrow> hub \<Rightarrow> glue_result" where
  "number_cmd x now device_id value h =
     Inr (case set_or_command value of
            None \<Rightarrow> h
          | Some cmd \<Rightarrow>
              (case get_device h device_id of
                 None \<Rightarrow> h
               | Some dev \<Rightarrow>
                   let num = (\<lambda>k. Option.bind (attr dev k) as_f64); current = unwrap_or (num ''value'') (Fin 0) in
                   case number_new cmd value current (unwrap_or (num ''step'') (Fin 1)) (num ''min'') (num ''max'') of
                     None \<Rightarrow> h
                   | Some new_val \<Rightarrow>
                       if f64_lt (f64_abs (f64_op (-) new_val current)) (Fin (1 / 2 ^ 52)) then h
                       else apply_state_update now device_id (change_of x now value)
                              (obj_insert ''value'' (json_f64 new_val)) h))"

fun position :: "'a \<Rightarrow> 'a list \<Rightarrow> nat option" where
  "position a [] = None"
| "position a (b # bs) = (if a = b then Some 0 else map_option Suc (position a bs))"

definition select_new :: "string \<Rightarrow> json \<Rightarrow> string \<Rightarrow> string list \<Rightarrow> string option" where
  "select_new cmd value current options =
     (let current_idx = position current options in
      if cmd = ''select'' then
        let opt = unwrap_or (Option.bind (option_or (json_get value ''option'') (json_get value ''selected'')) as_str) [] in
        if opt \<in> set options then Some opt else None
      else if cmd = ''next'' then
        Some (options ! (case current_idx of Some i \<Rightarrow> (i + 1) mod length options | None \<Rightarrow> 0))
      else if cmd = ''previous'' then
        Some (options ! (case current_idx of Some i \<Rightarrow> if i = 0 then length options - 1 else i - 1 | None \<Rightarrow> 0))
      else None)"

definition select_cmd :: "glue_ext \<Rightarrow> timestamp \<Rightarrow> string \<Rightarrow> json \<Rightarrow> hub \<Rightarrow> glue_result" where
  "select_cmd x now device_id value h =
     Inr (case (case command_of value of
                  Some c \<Rightarrow> Some c
                | None \<Rightarrow> if json_get value ''option'' \<noteq> None \<or> json_get value ''selected'' \<noteq> None
                    then Some ''select'' else None) of
            None \<Rightarrow> h
          | Some cmd \<Rightarrow>
              (case get_device h device_id of
                 None \<Rightarrow> h
               | Some dev \<Rightarrow>
                   let current = unwrap_or (Option.bind (attr dev ''selected'') as_str) [];
                       options = strings_of (attr dev ''options'') in
                   if options = [] then h
                   else case select_new cmd value current options of
                     None \<Rightarrow> h
                   | Some new_val \<Rightarrow>
                       if new_val = current then h
                       else apply_state_update now device_id (change_of x now value)
                              (obj_insert ''selected'' (JStr new_val)) h))"

text \<open>\<open>String::truncate\<close>.\<close>

definition str_truncate :: "nat \<Rightarrow> string \<Rightarrow> string option" where
  "str_truncate n s = (if n \<le> length s then if is_char_boundary s n then Some (take n s) else None else Some s)"

definition text_new :: "string \<Rightarrow> json \<Rightarrow> nat option \<Rightarrow> (string, string option) result" where
  "text_new cmd value max_length =
     (if cmd = ''set'' then
        let s = unwrap_or (Option.bind (json_get value ''value'') as_str) [] in
        case max_length of
          None \<Rightarrow> Inr (Some s)
        | Some n \<Rightarrow> (case str_truncate n s of Some t \<Rightarrow> Inr (Some t) | None \<Rightarrow> Inl ''truncate: not a char boundary'')
      else if cmd = ''clear'' then Inr (Some [])
      else Inr None)"

definition set_text :: "glue_ext \<Rightarrow> timestamp \<Rightarrow> string \<Rightarrow> json \<Rightarrow> string option \<Rightarrow> device \<Rightarrow> hub \<Rightarrow> hub" where
  "set_text x now device_id value new_val dev h =
     (case new_val of
        None \<Rightarrow> h
      | Some s \<Rightarrow>
          if s = unwrap_or (Option.bind (attr dev ''value'') as_str) [] then h
          else apply_state_update now device_id (change_of x now value) (obj_insert ''value'' (JStr s)) h)"

definition text_cmd :: "glue_ext \<Rightarrow> timestamp \<Rightarrow> string \<Rightarrow> json \<Rightarrow> hub \<Rightarrow> glue_result" where
  "text_cmd x now device_id value h =
     (case set_or_command value of
        None \<Rightarrow> Inr h
      | Some cmd \<Rightarrow>
          (case get_device h device_id of
             None \<Rightarrow> Inr h
           | Some dev \<Rightarrow>
               try_bind (text_new cmd value (Option.bind (attr dev ''max_length'') as_u64))
                 (\<lambda>new_val. Inr (set_text x now device_id value new_val dev h))))"

definition button_cmd :: "glue_ext \<Rightarrow> timestamp \<Rightarrow> string \<Rightarrow> json \<Rightarrow> hub \<Rightarrow> glue_result" where
  "button_cmd x now device_id value h =
     Inr (if unwrap_or (command_of value) ''press'' \<noteq> ''press'' then h
          else apply_state_update now device_id (change_of x now value)
                 (obj_insert ''last_pressed'' (JStr (tx_to_rfc3339 (gx x) now))) h)"

definition datetime_cmd :: "glue_ext \<Rightarrow> timestamp \<Rightarrow> string \<Rightarrow> json \<Rightarrow> hub \<Rightarrow> glue_result" where
  "datetime_cmd x now device_id value h =
     Inr (case set_or_command value of
            None \<Rightarrow> h
          | Some cmd \<Rightarrow>
              (case get_device h device_id of
                 None \<Rightarrow> h
               | Some dev \<Rightarrow>
                   set_text x now device_id value
                     (if cmd = ''set'' then Some (unwrap_or (Option.bind (json_get value ''value'') as_str) [])
                      else if cmd = ''clear'' then Some [] else None) dev h))"

subsection \<open>Groups, thresholds and schedules\<close>

definition is_truthy :: "json \<Rightarrow> bool" where
  "is_truthy v =
     (case v of
        JBool b \<Rightarrow> b
      | JNum n \<Rightarrow> number_as_f64 n \<noteq> Fin 0
      | JStr s \<Rightarrow> s \<in> {''true'', ''on'', ''open'', ''online'', ''active'', ''running'', ''locked''}
      | _ \<Rightarrow> False)"

definition member_matches :: "device list \<Rightarrow> string \<Rightarrow> bool \<Rightarrow> string \<Rightarrow> bool" where
  "member_matches devices attribute expect mid =
     (case find (\<lambda>d. dv_id d = mid \<or> dv_canonical_name d = Some mid) devices of
        None \<Rightarrow> False
      | Some member \<Rightarrow>
          (case attr member attribute of None \<Rightarrow> False | Some v \<Rightarrow> is_truthy v = expect))"

definition group_recalculate :: "timestamp \<Rightarrow> string \<Rightarrow> hub \<Rightarrow> hub" where
  "group_recalculate now device_id h =
     (case get_device h device_id of
        None \<Rightarrow> h
      | Some dev \<Rightarrow>
          let member_ids = strings_of (attr dev ''member_ids'');
              attribute = unwrap_or (Option.bind (attr dev ''attribute'') as_str) ''on'';
              mode = unwrap_or (Option.bind (attr dev ''mode'') as_str) ''any'';
              expect = unwrap_or (Option.bind (attr dev ''expect'') as_bool) True;
              active_count = length (filter (member_matches (list_devices h) attribute expect) member_ids);
              member_count = length member_ids;
              new_on = (if mode = ''all'' then active_count = member_count \<and> 0 < member_count else 0 < active_count) in
          apply_state_update now device_id (device_change_homecore now ''group_recalculate'')
            (\<lambda>attrs. obj_insert ''member_count'' (JNum (PosInt member_count))
               (obj_insert ''active_count'' (JNum (PosInt active_count))
                 (obj_insert ''on'' (JBool new_on) attrs))) h)"

definition is_member :: "hub \<Rightarrow> string \<Rightarrow> string \<Rightarrow> bool" where
  "is_member h group_device_id member_device_id =
     (case get_device h group_device_id of
        None \<Rightarrow> False
      | Some dev \<Rightarrow>
          (case Option.bind (attr dev ''member_ids'') as_array of
             None \<Rightarrow> False
           | Some members \<Rightarrow>
               if list_ex (\<lambda>v. as_str v = Some member_device_id) members then True
               else (case Option.bind (get_device h member_device_id) dv_canonical_name of
                       None \<Rightarrow> False
                     | Some canonical \<Rightarrow> list_ex (\<lambda>v. as_str v = Some canonical) members)))"

definition group_cmd :: "glue_ext \<Rightarrow> timestamp \<Rightarrow> string \<Rightarrow> json \<Rightarrow> hub \<Rightarrow> glue_result" where
  "group_cmd x now device_id value h = Inr (group_recalculate now device_id h)"

definition threshold_above :: "f64 \<Rightarrow> f64 \<Rightarrow> bool \<Rightarrow> f64 \<Rightarrow> bool" where
  "threshold_above threshold hysteresis currently_above val =
     (let half_hyst = f64_op (/) hysteresis (Fin 2) in
      if currently_above then f64_le (f64_op (-) threshold half_hyst) val
      else f64_lt (f64_op (+) threshold half_hyst) val)"

definition threshold_recalculate :: "timestamp \<Rightarrow> string \<Rightarrow> hub \<Rightarrow> hub" where
  "threshold_recalculate now device_id h =
     (case get_device h device_id of
        None \<Rightarrow> h
      | Some dev \<Rightarrow>
          (case Option.bind (attr dev ''source_device_id'') as_str of
             None \<Rightarrow> h
           | Some source_id \<Rightarrow>
               let source_attr = unwrap_or (Option.bind (attr dev ''source_attribute'') as_str) ''value'';
                   threshold = unwrap_or (Option.bind (attr dev ''threshold'') as_f64) (Fin 0);
                   hysteresis = unwrap_or (Option.bind (attr dev ''hysteresis'') as_f64) (Fin 0);
                   currently_above = unwrap_or (Option.bind (attr dev ''above'') as_bool) False in
               case Option.bind (Option.bind (get_device h source_id) (\<lambda>d. attr d source_attr)) as_f64 of
                 None \<Rightarrow> h
               | Some val \<Rightarrow>
                   let new_above = threshold_above threshold hysteresis currently_above val in
                   if new_above = currently_above then h
                   else apply_state_update now device_id (device_change_homecore now ''threshold_recalculate'')
                          (\<lambda>attrs. obj_insert ''source_value'' (json_f64 val)
                             (obj_insert ''above'' (JBool new_above) attrs)) h))"

definition is_source :: "hub \<Rightarrow> string \<Rightarrow> string \<Rightarrow> bool" where
  "is_source h threshold_device_id source_device_id =
     (case get_device h threshold_device_id of
        None \<Rightarrow> False
      | Some dev \<Rightarrow> Option.bind (attr dev ''source_device_id'') as_str = Some source_device_id)"

definition weekday_name :: "weekday \<Rightarrow> string" where
  "weekday_name wd =
     (case wd of Mon \<Rightarrow> ''Mon'' | Tue \<Rightarrow> ''Tue'' | Wed \<Rightarrow> ''Wed'' | Thu \<Rightarrow> ''Thu'' | Fri \<Rightarrow> ''Fri''
      | Sat \<Rightarrow> ''Sat'' | Sun \<Rightarrow> ''Sun'')"

definition parse_hm :: "string \<Rightarrow> (nat \<times> nat) option" where
  "parse_hm s =
     (case split_on CHR '':'' s of
        hh # mm # _ \<Rightarrow> Option.bind (parse_u32 hh) (\<lambda>h. map_option (\<lambda>m. (h, m)) (parse_u32 mm))
      | _ \<Rightarrow> None)"

text \<open>Minutes of a day, of \<open>u32\<close>: the product and the sum wrap.\<close>

definition minutes_of :: "nat \<times> nat \<Rightarrow> nat" where
  "minutes_of = (\<lambda>(hh, mm). (hh * 60 + mm) mod 2 ^ 32)"

definition block_active :: "weekday \<Rightarrow> nat \<Rightarrow> json \<Rightarrow> bool" where
  "block_active today now_minutes block =
     (if weekday_name today \<notin> set (strings_of (json_get block ''days'')) then False
      else case (Option.bind (Option.bind (json_get block ''start'') as_str) parse_hm,
                 Option.bind (Option.bind (json_get block ''end'') as_str) parse_hm) of
             (Some s, Some e) \<Rightarrow>
               let start_min = minutes_of s; end_min = minutes_of e in
               if start_min \<le> end_min then start_min \<le> now_minutes \<and> now_minutes < end_min
               else start_min \<le> now_minutes \<or> now_minutes < end_min
           | _ \<Rightarrow> False)"

definition schedule_recalculate :: "glue_ext \<Rightarrow> timestamp \<Rightarrow> string \<Rightarrow> hub \<Rightarrow> hub" where
  "schedule_recalculate x now device_id h =
     (case get_device h device_id of
        None \<Rightarrow> h
      | Some dev \<Rightarrow>
          let blocks = unwrap_or (Option.bind (attr dev ''blocks'') as_array) [];
              (today, hour, minute) = gx_local x now;
              is_active = list_ex (block_active today (minutes_of (hour, minute))) blocks;
              currently_active = unwrap_or (Option.bind (attr dev ''active'') as_bool) False in
          if is_active = currently_active then h
          else apply_state_update now device_id (device_change_homecore now ''schedule_tick'')
                 (obj_insert ''active'' (JBool is_active)) h)"

subsection \<open>Schemas of helper devices\<close>

definition ensure_device_schema :: "device \<Rightarrow> hub \<Rightarrow> hub" where
  "ensure_device_schema d h =
     (if get_device_schema h (dv_id d) \<noteq> None then h
      else case for_device (dv_plugin_id d) (dv_device_type d) of
             None \<Rightarrow> h
           | Some schema \<Rightarrow> upsert_device_schema (dv_id d) schema h)"

text \<open>Nothing when the search for a name does not end.\<close>

definition upsert_device_with_schema :: "device \<Rightarrow> hub \<Rightarrow> hub option" where
  "upsert_device_with_schema d h =
     (if dv_canonical_name d = None then
        map_option (\<lambda>n. let named = d\<lparr>dv_canonical_name := Some n\<rparr> in
            ensure_device_schema named (upsert_device named h))
          (ensure_unique_canonical_name d (list_devices h))
      else Some (ensure_device_schema d (upsert_device d h)))"

definition publish_core_device_schemas :: "hub \<Rightarrow> hub" where
  "publish_core_device_schemas h =
     fold (\<lambda>d h. case for_device (dv_plugin_id d) (dv_device_type d) of
                   None \<Rightarrow> h
                 | Some schema \<Rightarrow> upsert_device_schema (dv_id d) schema h) (list_devices h) h"

definition recalculate_all_groups :: "timestamp \<Rightarrow> hub \<Rightarrow> hub" where
  "recalculate_all_groups now h =
     fold (\<lambda>d h. if dv_plugin_id d \<noteq> GLUE_PLUGIN_ID \<or> dv_device_type d \<noteq> Some ''group'' then h
                 else group_recalculate now (dv_id d) h) (list_devices h) h"

subsection \<open>The configuration file\<close>

text \<open>
  An entry of \<open>glue.toml\<close>; the blocks of a schedule are the JSON values they serialize to.
\<close>

record glue_entry =
  ge_type :: string
  ge_id :: string
  ge_name :: string
  ge_override_from_config :: bool
  ge_step :: "int option"
  ge_min :: "int option"
  ge_max :: "int option"
  ge_value :: "f64 option"
  ge_number_min :: "f64 option"
  ge_number_max :: "f64 option"
  ge_number_step :: "f64 option"
  ge_unit :: "string option"
  ge_options :: "string list option"
  ge_max_length :: "nat option"
  ge_has_date :: "bool option"
  ge_has_time :: "bool option"
  ge_members :: "string list option"
  ge_attribute :: "string option"
  ge_mode :: "string option"
  ge_source_device_id :: "string option"
  ge_source_attribute :: "string option"
  ge_threshold :: "f64 option"
  ge_hysteresis :: "f64 option"
  ge_blocks :: "json list option"

definition glue_types :: "string list" where
  "glue_types = [''switch'', ''timer'', ''counter'', ''number'', ''select'', ''text'', ''button'', ''datetime'',
     ''group'', ''threshold'', ''schedule'']"

definition entry_prefix :: "glue_entry \<Rightarrow> string option" where
  "entry_prefix e = (if ge_type e \<in> set glue_types then Some (ge_type e @ ''_'') else None)"

definition runtime_keys_for :: "string \<Rightarrow> string list" where
  "runtime_keys_for t =
     (if t = ''switch'' then [''on'']
      else if t = ''timer'' then [''state'', ''duration_secs'', ''remaining_secs'', ''started_at'', ''repeat'']
      else if t = ''counter'' then [''count'']
      else if t = ''number'' then [''value'']
      else if t = ''select'' then [''selected'']
      else if t = ''text'' then [''value'']
      else if t = ''button'' then [''last_pressed'']
      else if t = ''datetime'' then [''value'']
      else if t = ''group'' then [''on'', ''active_count'', ''member_count'']
      else if t = ''threshold'' then [''above'', ''source_value'']
      else if t = ''schedule'' then [''active'']
      else [])"

definition opt_entry :: "string \<Rightarrow> json option \<Rightarrow> attrs \<Rightarrow> attrs" where
  "opt_entry k v a = (case v of None \<Rightarrow> a | Some j \<Rightarrow> obj_insert k j a)"

definition entries :: "(string \<times> json) list \<Rightarrow> attrs" where
  "entries kvs = fold (\<lambda>(k, v). obj_insert k v) kvs []"

abbreviation json_nat :: "nat \<Rightarrow> json" where
  "json_nat n \<equiv> JNum (PosInt n)"

definition seed_attributes :: "glue_entry \<Rightarrow> attrs" where
  "seed_attributes e =
     (let t = ge_type e; strs = (\<lambda>xs. JArr (map JStr xs)) in
      if t = ''switch'' then entries [(''on'', JBool False)]
      else if t = ''timer'' then
        entries [(''state'', JStr ''idle''), (''duration_secs'', json_nat 0), (''remaining_secs'', json_nat 0),
          (''repeat'', JBool False)]
      else if t = ''counter'' then
        opt_entry ''max'' (map_option json_int (ge_max e)) (opt_entry ''min'' (map_option json_int (ge_min e))
          (entries [(''count'', json_nat 0), (''step'', json_int (unwrap_or (ge_step e) 1))]))
      else if t = ''number'' then
        opt_entry ''unit'' (map_option JStr (ge_unit e))
          (entries [(''value'', json_f64 (unwrap_or (ge_value e) (Fin 0))),
             (''min'', json_f64 (unwrap_or (ge_number_min e) (Fin 0))),
             (''max'', json_f64 (unwrap_or (ge_number_max e) (Fin 100))),
             (''step'', json_f64 (unwrap_or (ge_number_step e) (Fin 1)))])
      else if t = ''select'' then
        let opts = unwrap_or (ge_options e) [] in
        entries [(''selected'', JStr (case opts of [] \<Rightarrow> [] | first # _ \<Rightarrow> first)), (''options'', strs opts)]
      else if t = ''text'' then
        opt_entry ''max_length'' (map_option json_nat (ge_max_length e)) (entries [(''value'', JStr [])])
      else if t = ''button'' then entries [(''last_pressed'', JNull)]
      else if t = ''datetime'' then
        entries [(''value'', JStr []), (''has_date'', JBool (unwrap_or (ge_has_date e) True)),
          (''has_time'', JBool (unwrap_or (ge_has_time e) True))]
      else if t = ''group'' then
        entries [(''on'', JBool False), (''member_ids'', strs (unwrap_or (ge_members e) [])),
          (''attribute'', JStr (unwrap_or (ge_attribute e) ''on'')), (''mode'', JStr (unwrap_or (ge_mode e) ''any'')),
          (''active_count'', json_nat 0), (''member_count'', json_nat 0)]
      else if t = ''threshold'' then
        entries [(''above'', JBool False), (''source_device_id'', JStr (unwrap_or (ge_source_device_id e) [])),
          (''source_attribute'', JStr (unwrap_or (ge_source_attribute e) ''value'')),
          (''threshold'', json_f64 (unwrap_or (ge_threshold e) (Fin 0))),
          (''hysteresis'', json_f64 (unwrap_or (ge_hysteresis e) (Fin 0)))]
      else if t = ''schedule'' then
        entries [(''active'', JBool False), (''blocks'', JArr (unwrap_or (ge_blocks e) []))]
      else [])"

definition keep_runtime :: "string \<Rightarrow> attrs \<Rightarrow> attrs \<Rightarrow> attrs" where
  "keep_runtime t old = fold (\<lambda>k. opt_entry k (map_of old k)) (runtime_keys_for t)"

definition entry_device_id :: "string \<Rightarrow> glue_entry \<Rightarrow> string" where
  "entry_device_id prefix e = (if starts_with prefix (ge_id e) then ge_id e else prefix @ ge_id e)"

definition seed_device :: "timestamp \<Rightarrow> glue_entry \<Rightarrow> string \<Rightarrow> device option \<Rightarrow> device" where
  "seed_device now e device_id existing =
     (device_new now device_id (ge_name e) GLUE_PLUGIN_ID)
       \<lparr>dv_device_type := Some (ge_type e), dv_available := True,
        dv_attributes := (case existing of
            None \<Rightarrow> seed_attributes e
          | Some old \<Rightarrow> keep_runtime (ge_type e) (dv_attributes old) (seed_attributes e))\<rparr>"

definition load_entry :: "timestamp \<Rightarrow> glue_entry \<Rightarrow> hub \<Rightarrow> hub option" where
  "load_entry now e h =
     (case entry_prefix e of
        None \<Rightarrow> Some h
      | Some prefix \<Rightarrow>
          let device_id = entry_device_id prefix e; existing = get_device h device_id in
          if existing \<noteq> None \<and> \<not> ge_override_from_config e then Some h
          else upsert_device_with_schema (seed_device now e device_id existing) h)"

fun load_entries :: "timestamp \<Rightarrow> glue_entry list \<Rightarrow> hub \<Rightarrow> hub option" where
  "load_entries now [] h = Some h"
| "load_entries now (e # es) h = Option.bind (load_entry now e h) (load_entries now es)"

text \<open>No file, one that does not parse, or the entries of one.\<close>

datatype glue_file = NoFile | BadFile string | GlueFile "glue_entry list"

definition load_glue_config :: "timestamp \<Rightarrow> glue_file \<Rightarrow> hub \<Rightarrow> (string, hub) result option" where
  "load_glue_config now f h =
     (case f of
        NoFile \<Rightarrow> Some (Inr h)
      | BadFile e \<Rightarrow> Some (Inl e)
      | GlueFile es \<Rightarrow> map_option Inr (load_entries now es h))"

subsection \<open>The manager\<close>

definition glue_handlers ::
  "(string \<times> (glue_ext \<Rightarrow> timestamp \<Rightarrow> string \<Rightarrow> json \<Rightarrow> hub \<Rightarrow> glue_result)) list"
where
  "glue_handlers =
     [(''switch_'', switch_cmd), (''counter_'', counter_cmd), (''number_'', number_cmd), (''select_'', select_cmd),
      (''text_'', text_cmd), (''button_'', button_cmd), (''datetime_'', datetime_cmd), (''group_'', group_cmd)]"

text \<open>The first prefix that the device of the topic has decides who handles a message.\<close>

fun dispatch_to ::
  "(string \<times> (glue_ext \<Rightarrow> timestamp \<Rightarrow> string \<Rightarrow> json \<Rightarrow> hub \<Rightarrow> glue_result)) list \<Rightarrow> glue_ext \<Rightarrow> timestamp \<Rightarrow>
   string \<Rightarrow> json option \<Rightarrow> hub \<Rightarrow> glue_result"
where
  "dispatch_to [] x now topic payload h = Inr h"
| "dispatch_to ((prefix, handler) # rest) x now topic payload h =
     (case parse_glue_cmd_topic topic prefix of
        Some device_id \<Rightarrow> (case payload of None \<Rightarrow> Inr h | Some value \<Rightarrow> handler x now device_id value h)
      | None \<Rightarrow> dispatch_to rest x now topic payload h)"

definition glue_message :: "glue_ext \<Rightarrow> timestamp \<Rightarrow> string \<Rightarrow> bytes \<Rightarrow> hub \<Rightarrow> glue_result" where
  "glue_message x now topic payload h =
     dispatch_to glue_handlers x now topic (map_option action_as_command (tx_parse_json (gx x) payload)) h"

definition recalculate_dependent :: "timestamp \<Rightarrow> string \<Rightarrow> device \<Rightarrow> hub \<Rightarrow> hub" where
  "recalculate_dependent now changed_device_id d h =
     (if starts_with ''group_'' (dv_id d) then
        if list_ex (\<lambda>v. as_str v = Some changed_device_id) (unwrap_or (Option.bind (attr d ''member_ids'') as_array) [])
        then group_recalculate now (dv_id d) h else h
      else if starts_with ''threshold_'' (dv_id d) then
        if Option.bind (attr d ''source_device_id'') as_str = Some changed_device_id
        then threshold_recalculate now (dv_id d) h else h
      else h)"

definition recalculate_dependents :: "timestamp \<Rightarrow> string \<Rightarrow> hub \<Rightarrow> hub" where
  "recalculate_dependents now changed_device_id h =
     fold (recalculate_dependent now changed_device_id) (list_devices h) h"

definition tick_schedules :: "glue_ext \<Rightarrow> timestamp \<Rightarrow> hub \<Rightarrow> hub" where
  "tick_schedules x now h =
     fold (\<lambda>d h. if starts_with ''schedule_'' (dv_id d) then schedule_recalculate x now (dv_id d) h else h)
       (list_devices h) h"

datatype glue_input = GiEvent event | GiTick | GiReload glue_file

definition glue_event :: "glue_ext \<Rightarrow> timestamp \<Rightarrow> event \<Rightarrow> hub \<Rightarrow> glue_result" where
  "glue_event x now e h =
     (case e of
        EvMqttMessage topic payload _ \<Rightarrow> glue_message x now topic payload h
      | EvDeviceStateChanged device_id _ _ _ \<Rightarrow>
          Inr (if starts_with ''group_'' device_id \<or> starts_with ''threshold_'' device_id then h
               else recalculate_dependents now device_id h)
      | _ \<Rightarrow> Inr h)"

text \<open>A turn of the loop of \<open>start\<close>; a configuration that fails to load changes nothing.\<close>

definition glue_step :: "glue_ext \<Rightarrow> timestamp \<Rightarrow> glue_input \<Rightarrow> hub \<Rightarrow> glue_result option" where
  "glue_step x now i h =
     (case i of
        GiEvent e \<Rightarrow> Some (glue_event x now e h)
      | GiTick \<Rightarrow> Some (Inr (tick_schedules x now h))
      | GiReload f \<Rightarrow> map_option (\<lambda>r. Inr (case r of Inl _ \<Rightarrow> h | Inr h' \<Rightarrow> h')) (load_glue_config now f h))"

text \<open>The loop, until it has no more input or a handler panics: the hub then, and the panic.\<close>

fun glue_loop :: "glue_ext \<Rightarrow> (timestamp \<times> glue_input) list \<Rightarrow> hub \<Rightarrow> (hub \<times> string option) option" where
  "glue_loop x [] h = Some (h, None)"
| "glue_loop x ((now, i) # is) h =
     Option.bind (glue_step x now i h) (\<lambda>r.
       case r of Inl p \<Rightarrow> Some (h, Some p) | Inr h' \<Rightarrow> glue_loop x is h')"

end
