(* ===== verification/State_Bridge.thy ===== *)
theory State_Bridge
  imports Rooms Glue
begin

text \<open>
  The state bridge (\<open>hc-core/src/state_bridge.rs\<close>): MQTT messages become stored devices and
  announcements. It takes one message after the other; a message is handled at one time, in one
  piece. The deserializers that serde derives, the type registry and the ecosystem router are
  parameters of the bridge; warnings are not modelled, the verdicts of the protocol check excepted.
  The state has what the bridge hands on: lines for the log stream, commands relayed to native topics
  and batches of history entries.
\<close>

subsection \<open>Texts and versions\<close>

definition ends_with :: "string \<Rightarrow> string \<Rightarrow> bool" where
  "ends_with p s \<longleftrightarrow> starts_with (rev p) (rev s)"

definition ascii_lower :: "char \<Rightarrow> char" where
  "ascii_lower c = (if 65 \<le> byte c \<and> byte c \<le> 90 then char_of (byte c + 32) else c)"

definition canonical_device_type_name :: "string \<Rightarrow> string" where
  "canonical_device_type_name type_name =
     (let t = map ascii_lower (trim type_name) in
      if t \<in> {''vswitch'', ''virtual_switch''} then ''virtual_switch''
      else if t = ''temp_sensor'' then ''temperature_sensor''
      else if t = ''motion'' then ''motion_sensor''
      else if t = ''occupancy_group'' then ''occupancy_sensor''
      else if t = ''shade'' then ''cover''
      else t)"

text \<open>\<open>str::parse::<u64>\<close>.\<close>

definition parse_u64 :: "string \<Rightarrow> nat option" where
  "parse_u64 s =
     (let t = (if starts_with ''+'' s then tl s else s); v = digits_value 0 t in
      if t \<noteq> [] \<and> list_all is_digit t \<and> v < 2 ^ 64 then Some v else None)"

definition parse_version :: "string \<Rightarrow> (nat \<times> nat) option" where
  "parse_version s =
     (case split_on CHR ''.'' s of
        major # minor # _ \<Rightarrow>
          Option.bind (parse_u64 major) (\<lambda>a. map_option (\<lambda>b. (a, b)) (parse_u64 minor))
      | _ \<Rightarrow> None)"

definition sdk_versions_compatible :: "string \<Rightarrow> string \<Rightarrow> bool" where
  "sdk_versions_compatible a b =
     (case (parse_version a, parse_version b) of
        (Some (a_major, a_minor), Some (b_major, b_minor)) \<Rightarrow>
          if a_major = 0 \<or> b_major = 0 then a_major = b_major \<and> a_minor = b_minor else a_major = b_major
      | _ \<Rightarrow> True)"

datatype protocol_check = ProtocolMatch | ProtocolMismatch | ProtocolUnknown

definition check_protocol :: "string option \<Rightarrow> string \<Rightarrow> protocol_check" where
  "check_protocol plugin core =
     (case plugin of
        None \<Rightarrow> ProtocolUnknown
      | Some v \<Rightarrow> if sdk_versions_compatible v core then ProtocolMatch else ProtocolMismatch)"

definition parse_cmd_topic :: "string \<Rightarrow> string option" where
  "parse_cmd_topic topic =
     (case split_on CHR ''/'' topic of
        p0 # p1 # p2 # p3 # rest \<Rightarrow>
          if p0 = ''homecore'' \<and> p1 = ''devices'' \<and> join_with ''/'' (p3 # rest) = ''cmd'' then Some p2 else None
      | _ \<Rightarrow> None)"

subsection \<open>State\<close>

record log_line =
  ll_timestamp :: timestamp
  ll_level :: string
  ll_target :: string
  ll_message :: string
  ll_fields :: json

definition with_plugin_id :: "string \<Rightarrow> log_line \<Rightarrow> log_line" where
  "with_plugin_id i line =
     (let kvs = (case ll_fields line of JObj kvs \<Rightarrow> kvs | _ \<Rightarrow> []) in
      line\<lparr>ll_fields := JObj (obj_insert ''plugin_id'' (JStr i) kvs)\<rparr>)"

datatype inbound_result = InState string json bool | InAvailability string bool

record ecosystem_router =
  er_outbound :: "string \<Rightarrow> bytes \<Rightarrow> (string, (string \<times> bytes) list option) result"
  er_inbound :: "string \<Rightarrow> bytes \<Rightarrow> (string, inbound_result option) result"

record bridge_ext =
  bx :: timer_ext
  bx_rooms :: room_ext
  bx_router :: "ecosystem_router option"
  bx_can_publish :: bool
  bx_device_types :: "(string \<Rightarrow> device_schema option) option"
  bx_log_capacity :: "nat option option"
  bx_protocol_version :: string
  bx_schema :: "json \<Rightarrow> device_schema option"
  bx_alert :: "json \<Rightarrow> plugin_alert option"
  bx_alert_kind :: "json \<Rightarrow> plugin_alert_kind option"
  bx_notice :: "json \<Rightarrow> plugin_notice option"
  bx_capabilities :: "json \<Rightarrow> json option"
  bx_plugin_ui :: "json \<Rightarrow> json option"
  bx_log_line :: "bytes \<Rightarrow> log_line option"

record state_bridge =
  sb_pending_command_changes :: "string \<rightharpoonup> device_change"
  sb_registered_plugins :: "string list"
  sb_seen_sdk_versions :: "string list"
  sb_protocol :: "(string \<times> protocol_check) list"
  sb_log_ring :: "log_line list"
  sb_log_sent :: "log_line list"
  sb_relayed :: "(string \<times> bytes) list"
  sb_history :: "(string \<times> (string \<times> json) list) list"
  sb_hub :: hub

abbreviation on_hub :: "(hub \<Rightarrow> hub) \<Rightarrow> state_bridge \<Rightarrow> state_bridge" where
  "on_hub f s \<equiv> s\<lparr>sb_hub := f (sb_hub s)\<rparr>"

definition state_bridge_new :: "hub \<Rightarrow> state_bridge" where
  "state_bridge_new h =
     \<lparr>sb_pending_command_changes = Map.empty, sb_registered_plugins = [], sb_seen_sdk_versions = [], sb_protocol = [],
      sb_log_ring = [], sb_log_sent = [], sb_relayed = [], sb_history = [], sb_hub = h\<rparr>"

text \<open>The name a device without one gets; the search for it always ends.\<close>

definition named_uniquely_in :: "hub \<Rightarrow> device \<Rightarrow> device" where
  "named_uniquely_in h d =
     (if dv_canonical_name d \<noteq> None then d
      else d\<lparr>dv_canonical_name := ensure_unique_canonical_name d (list_devices h)\<rparr>)"

subsection \<open>Provenance\<close>

definition extract_change_from_state_payload :: "timer_ext \<Rightarrow> timestamp \<Rightarrow> json \<Rightarrow> device_change option" where
  "extract_change_from_state_payload x now payload =
     (case Option.bind (Option.bind (json_get payload ''_hc'') (\<lambda>v. json_get v ''change'')) (tx_device_change x) of
        Some change \<Rightarrow> Some change
      | None \<Rightarrow>
          map_option (\<lambda>source.
            \<lparr>dc_changed_at = parse_changed_at x now (json_get payload ''timestamp''),
             dc_kind = classify_legacy_source source, dc_source = Some source,
             dc_actor_id = None, dc_actor_name = None,
             dc_correlation_id = Option.bind (json_get payload ''correlation_id'') as_str\<rparr>)
            (Option.bind (json_get payload ''origin'') as_str))"

definition is_generic_plugin_external_change :: "device_change \<Rightarrow> bool" where
  "is_generic_plugin_external_change c \<longleftrightarrow>
     dc_kind c = External \<and> dc_correlation_id c = None \<and> dc_actor_id c = None \<and> dc_actor_name c = None"

definition record_pending_command_change ::
  "bridge_ext \<Rightarrow> timestamp \<Rightarrow> string \<Rightarrow> bytes \<Rightarrow> state_bridge \<Rightarrow> state_bridge"
where
  "record_pending_command_change x now device_id payload s =
     (case Option.bind (tx_parse_json (bx x) payload) (extract_change_from_command_payload (bx x) now) of
        None \<Rightarrow> s
      | Some change \<Rightarrow> s\<lparr>sb_pending_command_changes := (sb_pending_command_changes s)(device_id \<mapsto> change)\<rparr>)"

text \<open>\<open>num_seconds\<close> of a duration: whole seconds, towards zero.\<close>

definition num_seconds :: "int \<Rightarrow> int" where
  "num_seconds d = (if d < 0 then - ((- d) div 1000000000) else d div 1000000000)"

definition resolve_state_change ::
  "bridge_ext \<Rightarrow> timestamp \<Rightarrow> string \<Rightarrow> json \<Rightarrow> state_bridge \<Rightarrow> device_change \<times> state_bridge"
where
  "resolve_state_change x now device_id incoming s =
     (let s' = s\<lparr>sb_pending_command_changes := (sb_pending_command_changes s)(device_id := None)\<rparr>;
          explicit = extract_change_from_state_payload (bx x) now incoming;
          plain = unwrap_or explicit (device_change_unknown now) in
      case sb_pending_command_changes s device_id of
        Some pending \<Rightarrow>
          if num_seconds (now - dc_changed_at pending) \<le> 5 then
            (case explicit of
               Some e \<Rightarrow> (if is_generic_plugin_external_change e then pending else e, s')
             | None \<Rightarrow> (pending, s'))
          else (plain, s')
      | None \<Rightarrow> (plain, s'))"

subsection \<open>State reports\<close>

definition apply_partial_merge_patch :: "(string \<times> json) list \<Rightarrow> attrs \<Rightarrow> attrs" where
  "apply_partial_merge_patch patch target =
     fold (\<lambda>(k, v) t. if v = JNull then remove_key k t else obj_insert k v t) patch target"

definition without_provenance :: "(string \<times> json) list \<Rightarrow> (string \<times> json) list" where
  "without_provenance kvs =
     (let attrs = remove_key ''_hc'' kvs;
          had_origin = (map_of attrs ''origin'' \<noteq> None);
          attrs = remove_key ''correlation_id'' (remove_key ''origin'' attrs) in
      if had_origin then remove_key ''timestamp'' attrs else attrs)"

definition reported_attributes :: "bool \<Rightarrow> (string \<times> json) list \<Rightarrow> attrs \<Rightarrow> attrs" where
  "reported_attributes partial kvs stored =
     (let attrs = without_provenance kvs;
          merged = (if partial then apply_partial_merge_patch attrs stored else attrs) in
      fold remove_key [''_hc'', ''origin'', ''correlation_id''] merged)"

definition note_changed :: "timestamp \<Rightarrow> string list \<Rightarrow> device \<Rightarrow> device" where
  "note_changed now changed d =
     (if changed = [] then d
      else d\<lparr>dv_attributes_changed_at :=
               filter (\<lambda>e. map_of (dv_attributes d) (fst e) \<noteq> None)
                 (fold (\<lambda>k. put k now) changed (dv_attributes_changed_at d))\<rparr>)"

text \<open>A device that reports before it is registered: its plugin is the part of its id before \<open>_\<close>.\<close>

definition unregistered :: "timestamp \<Rightarrow> string \<Rightarrow> device" where
  "unregistered now device_id = device_new now device_id device_id (hd (split_on CHR ''_'' device_id))"

definition known_or_new :: "timestamp \<Rightarrow> string \<Rightarrow> hub \<Rightarrow> device option" where
  "known_or_new now device_id h =
     (case get_device h device_id of
        Some d \<Rightarrow> Some d
      | None \<Rightarrow> if is_forgotten h device_id then None else Some (unregistered now device_id))"

definition reported_device ::
  "timestamp \<Rightarrow> bool \<Rightarrow> (string \<times> json) list \<Rightarrow> device_change \<Rightarrow> hub \<Rightarrow> device \<Rightarrow> device"
where
  "reported_device now partial kvs change h d =
     (let current = reported_attributes partial kvs (dv_attributes d);
          name = unwrap_or (Option.bind (map_of (without_provenance kvs) ''name'') as_str) (dv_name d) in
      note_changed now (changed_keys (dv_attributes d) current)
        (named_uniquely_in h
          (d\<lparr>dv_attributes := current, dv_last_seen := now, dv_available := True, dv_last_change := Some change,
             dv_name := name\<rparr>)))"

definition announce_if :: "bool \<Rightarrow> hub_event \<Rightarrow> hub \<Rightarrow> hub" where
  "announce_if b e h = (if b then publish e h else h)"

definition handle_state ::
  "bridge_ext \<Rightarrow> timestamp \<Rightarrow> string \<Rightarrow> json \<Rightarrow> bool \<Rightarrow> state_bridge \<Rightarrow> state_bridge"
where
  "handle_state x now device_id incoming partial s =
     (case incoming of
        JObj kvs \<Rightarrow>
          (case known_or_new now device_id (sb_hub s) of
             None \<Rightarrow> s
           | Some old \<Rightarrow>
               let (change, s1) = resolve_state_change x now device_id incoming s;
                   dev = reported_device now partial kvs change (sb_hub s) old;
                   previous = dv_attributes old; current = dv_attributes dev;
                   changed = changed_keys previous current;
                   entries = filter (\<lambda>(k, v). map_of previous k \<noteq> Some v) current;
                   h1 = upsert_device dev (sb_hub s1);
                   h2 = announce_if (\<not> dv_available old)
                          (HeDeviceAvailabilityChanged device_id (Some (effective_name dev)) True) h1;
                   h3 = announce_if (dv_name dev \<noteq> dv_name old)
                          (HeDeviceNameChanged device_id (dv_name old) (dv_name dev)) h2;
                   h4 = announce_if (changed \<noteq> [])
                          (HeDeviceStateChanged device_id (Some (effective_name dev)) previous current changed change) h3 in
               s1\<lparr>sb_hub := h4,
                  sb_history := (if entries = [] then sb_history s1 else sb_history s1 @ [(device_id, entries)])\<rparr>)
      | _ \<Rightarrow> s)"

definition handle_availability :: "timestamp \<Rightarrow> string \<Rightarrow> bool \<Rightarrow> hub \<Rightarrow> hub" where
  "handle_availability now device_id available h =
     (case known_or_new now device_id h of
        None \<Rightarrow> h
      | Some old \<Rightarrow>
          let dev = named_uniquely_in h (old\<lparr>dv_available := available, dv_last_seen := now\<rparr>) in
          announce_if (dv_available old \<noteq> available)
            (HeDeviceAvailabilityChanged device_id (Some (effective_name dev)) available) (upsert_device dev h))"

subsection \<open>Registration\<close>

definition hardware_field :: "json \<Rightarrow> string \<Rightarrow> string option" where
  "hardware_field v key =
     (case Option.bind (json_get v key) as_str of
        None \<Rightarrow> None
      | Some s \<Rightarrow> if trim s = [] then None else Some (trim s))"

definition schema_change_payload :: "device_schema \<Rightarrow> string list \<times> string list" where
  "schema_change_payload schema = (sort (map fst (ds_attributes schema)), sort (map da_id (ds_actions schema)))"

definition announce_schema :: "string \<Rightarrow> device_schema \<Rightarrow> hub \<Rightarrow> hub" where
  "announce_schema device_id schema h =
     (let (attributes, actions) = schema_change_payload schema in
      publish (HeDeviceSchemaChanged device_id attributes actions) h)"

definition store_schema :: "string \<Rightarrow> device_schema \<Rightarrow> hub \<Rightarrow> hub" where
  "store_schema device_id schema h = announce_schema device_id schema (upsert_device_schema device_id schema h)"

text \<open>The room of a registration; placing a room fails only if a room vanishes while it is saved.\<close>

definition registered_area :: "bridge_ext \<Rightarrow> uuid \<Rightarrow> json \<Rightarrow> hub \<Rightarrow> string option \<times> hub" where
  "registered_area x fresh v h =
     (case Option.bind (json_get v ''area'') as_str of
        None \<Rightarrow> (None, h)
      | Some raw \<Rightarrow>
          let normalized = normalize_name_segment raw in
          if normalized = [] then (None, h)
          else case place_reported (bx_rooms x) fresh raw h of
                 Inr (placed, h') \<Rightarrow> (placed, h')
               | Inl _ \<Rightarrow> (Some normalized, h))"

record registration =
  rg_device_id :: string
  rg_name :: string
  rg_area :: "string option"
  rg_device_type :: "string option"
  rg_manufacturer :: "string option"
  rg_model :: "string option"
  rg_sw_version :: "string option"
  rg_parent :: "string option"

text \<open>A device that names itself as its parent has none.\<close>

definition registration_of :: "json \<Rightarrow> string \<Rightarrow> string \<Rightarrow> string option \<Rightarrow> registration" where
  "registration_of v device_id name area =
     (let parent = hardware_field v ''parent_device_id'' in
      \<lparr>rg_device_id = device_id, rg_name = name, rg_area = area,
       rg_device_type = map_option canonical_device_type_name (Option.bind (json_get v ''device_type'') as_str),
       rg_manufacturer = hardware_field v ''manufacturer'', rg_model = hardware_field v ''model'',
       rg_sw_version = hardware_field v ''sw_version'',
       rg_parent = (if parent = Some device_id then None else parent)\<rparr>)"

definition reregistered :: "string \<Rightarrow> registration \<Rightarrow> hub \<Rightarrow> device \<Rightarrow> device" where
  "reregistered plugin_id r h d =
     named_uniquely_in h
       (d\<lparr>dv_plugin_id := plugin_id,
          dv_area := option_or (rg_area r) (dv_area d),
          dv_device_type := option_or (rg_device_type r) (dv_device_type d),
          dv_manufacturer := option_or (rg_manufacturer r) (dv_manufacturer d),
          dv_model := option_or (rg_model r) (dv_model d),
          dv_sw_version := option_or (rg_sw_version r) (dv_sw_version d),
          dv_parent_device_id := option_or (rg_parent r) (dv_parent_device_id d),
          dv_name := rg_name r\<rparr>)"

definition first_registered :: "timestamp \<Rightarrow> string \<Rightarrow> registration \<Rightarrow> hub \<Rightarrow> device" where
  "first_registered now plugin_id r h =
     named_uniquely_in h
       ((device_new now (rg_device_id r) (rg_name r) plugin_id)
          \<lparr>dv_area := rg_area r, dv_device_type := rg_device_type r, dv_manufacturer := rg_manufacturer r,
           dv_model := rg_model r, dv_sw_version := rg_sw_version r, dv_parent_device_id := rg_parent r\<rparr>)"

definition register_device :: "timestamp \<Rightarrow> string \<Rightarrow> registration \<Rightarrow> hub \<Rightarrow> hub" where
  "register_device now plugin_id r h =
     (case get_device h (rg_device_id r) of
        Some old \<Rightarrow>
          announce_if (dv_name old \<noteq> rg_name r) (HeDeviceNameChanged (rg_device_id r) (dv_name old) (rg_name r))
            (upsert_device (reregistered plugin_id r h old) h)
      | None \<Rightarrow>
          if is_forgotten h (rg_device_id r) then h
          else upsert_device (first_registered now plugin_id r h) h)"

definition type_schema :: "bridge_ext \<Rightarrow> registration \<Rightarrow> device_schema option" where
  "type_schema x r = Option.bind (rg_device_type r) (\<lambda>t. Option.bind (bx_device_types x) (\<lambda>types. types t))"

definition handle_device_registration ::
  "bridge_ext \<Rightarrow> timestamp \<Rightarrow> uuid \<Rightarrow> string \<Rightarrow> bytes \<Rightarrow> hub \<Rightarrow> (string, hub) result"
where
  "handle_device_registration x now fresh plugin_id payload h =
     (case tx_parse_json (bx x) payload of
        None \<Rightarrow> Inl ''payload is not JSON''
      | Some v \<Rightarrow>
          (case Option.bind (json_get v ''device_id'') as_str of
             None \<Rightarrow> Inl ''registration missing device_id''
           | Some device_id \<Rightarrow>
               (case Option.bind (json_get v ''name'') as_str of
                  None \<Rightarrow> Inl ''registration missing name''
                | Some name \<Rightarrow>
                    let (area, h1) = registered_area x fresh v h;
                        r = registration_of v device_id name area;
                        h2 = register_device now plugin_id r h1 in
                    Inr (case type_schema x r of None \<Rightarrow> h2 | Some schema \<Rightarrow> store_schema device_id schema h2))))"

definition handle_device_schema :: "bridge_ext \<Rightarrow> string \<Rightarrow> bytes \<Rightarrow> hub \<Rightarrow> (string, hub) result" where
  "handle_device_schema x device_id payload h =
     (case Option.bind (tx_parse_json (bx x) payload) (bx_schema x) of
        None \<Rightarrow> Inl ''not a device schema''
      | Some schema \<Rightarrow> Inr (store_schema device_id schema h))"

definition handle_device_unregistration :: "bridge_ext \<Rightarrow> string \<Rightarrow> bytes \<Rightarrow> hub \<Rightarrow> (string, hub) result" where
  "handle_device_unregistration x plugin_id payload h =
     (case tx_parse_json (bx x) payload of
        None \<Rightarrow> Inl ''payload is not JSON''
      | Some v \<Rightarrow>
          (case Option.bind (json_get v ''device_id'') as_str of
             None \<Rightarrow> Inl ''unregister missing device_id''
           | Some device_id \<Rightarrow>
               if (case get_device h device_id of None \<Rightarrow> False | Some d \<Rightarrow> dv_plugin_id d \<noteq> plugin_id) then Inr h
               else
                 let (device_removed, h1) = delete_device device_id h;
                     (schema_removed, h2) = delete_device_schema device_id h1 in
                 Inr (announce_if (device_removed \<or> schema_removed)
                       (HeCustom ''device_deleted''
                         (JObj [(''device_id'', JStr device_id), (''plugin_id'', JStr plugin_id),
                                (''source'', JStr ''plugin_unregister'')])) h2)))"

subsection \<open>What plugins say of themselves\<close>

definition ascii_whitespace :: "char \<Rightarrow> bool" where
  "ascii_whitespace c \<longleftrightarrow> byte c \<in> {9, 10, 12, 13, 32}"

definition parse_plugin_alerts :: "bridge_ext \<Rightarrow> bytes \<Rightarrow> plugin_alert list" where
  "parse_plugin_alerts x payload =
     (if list_all ascii_whitespace payload then []
      else case tx_parse_json (bx x) payload of
             Some (JArr items) \<Rightarrow> List.map_filter (bx_alert x) items
           | _ \<Rightarrow> [])"

definition parse_alert_kinds :: "bridge_ext \<Rightarrow> json option \<Rightarrow> plugin_alert_kind list" where
  "parse_alert_kinds x raw =
     (case Option.bind raw as_array of Some items \<Rightarrow> List.map_filter (bx_alert_kind x) items | None \<Rightarrow> [])"

definition parse_plugin_notices :: "bridge_ext \<Rightarrow> json option \<Rightarrow> plugin_notice list" where
  "parse_plugin_notices x raw =
     (case raw of Some (JArr items) \<Rightarrow> List.map_filter (bx_notice x) items | _ \<Rightarrow> [])"

definition non_null :: "json option \<Rightarrow> json option" where
  "non_null v = (if v = Some JNull then None else v)"

definition parse_plugin_ui :: "bridge_ext \<Rightarrow> json option \<Rightarrow> json option" where
  "parse_plugin_ui x raw = Option.bind (non_null raw) (bx_plugin_ui x)"

definition handle_device_alerts :: "bridge_ext \<Rightarrow> string \<Rightarrow> bytes \<Rightarrow> hub \<Rightarrow> hub" where
  "handle_device_alerts x device_id payload h =
     (case get_device h device_id of
        None \<Rightarrow> h
      | Some d \<Rightarrow> publish (HePluginAlerts (dv_plugin_id d) device_id (parse_plugin_alerts x payload)) h)"

definition handle_logs :: "bridge_ext \<Rightarrow> string \<Rightarrow> bytes \<Rightarrow> state_bridge \<Rightarrow> state_bridge" where
  "handle_logs x plugin_id payload s =
     (case bx_log_line x payload of
        None \<Rightarrow> s
      | Some line \<Rightarrow>
          let line = with_plugin_id plugin_id line in
          (case bx_log_capacity x of
             None \<Rightarrow> s
           | Some ring \<Rightarrow>
               let s1 = (case ring of
                           None \<Rightarrow> s
                         | Some capacity \<Rightarrow>
                             let r = sb_log_ring s in
                             s\<lparr>sb_log_ring := (if capacity \<le> length r then drop 1 r else r) @ [line]\<rparr>) in
               s1\<lparr>sb_log_sent := sb_log_sent s1 @ [line]\<rparr>))"

definition handle_capabilities :: "bridge_ext \<Rightarrow> string \<Rightarrow> bytes \<Rightarrow> hub \<Rightarrow> hub" where
  "handle_capabilities x plugin_id payload h =
     (if payload = [] then h
      else case tx_parse_json (bx x) payload of
             None \<Rightarrow> h
           | Some raw \<Rightarrow>
               (case bx_capabilities x raw of
                  None \<Rightarrow> h
                | Some caps \<Rightarrow>
                    publish (HePluginCapabilities plugin_id caps (non_null (json_get raw ''config_schema''))
                      (non_null (json_get raw ''config_descriptor'')) (parse_alert_kinds x (json_get raw ''alert_kinds''))
                      (parse_plugin_ui x (json_get raw ''ui''))) h))"

definition handle_heartbeat :: "bridge_ext \<Rightarrow> string \<Rightarrow> bytes \<Rightarrow> state_bridge \<Rightarrow> state_bridge" where
  "handle_heartbeat x plugin_id payload s =
     (case tx_parse_json (bx x) payload of
        None \<Rightarrow> s
      | Some hb \<Rightarrow>
          let text = (\<lambda>k. Option.bind (json_get hb k) as_str); number = (\<lambda>k. Option.bind (json_get hb k) as_u64);
              s1 = (if plugin_id \<in> set (sb_seen_sdk_versions s) then s
                    else s\<lparr>sb_seen_sdk_versions := plugin_id # sb_seen_sdk_versions s,
                           sb_protocol := sb_protocol s @
                             [(plugin_id, check_protocol (text ''protocol_version'') (bx_protocol_version x))]\<rparr>) in
          on_hub (publish (HePluginHeartbeat plugin_id (text ''version'') (text ''sdk_version'') (number ''uptime_secs'')
            (map_option (\<lambda>n. n mod 2 ^ 32) (number ''device_count'')) (parse_plugin_notices x (json_get hb ''notices'')))) s1)"

definition handle_register :: "bridge_ext \<Rightarrow> timestamp \<Rightarrow> uuid \<Rightarrow> string \<Rightarrow> bytes \<Rightarrow> state_bridge \<Rightarrow> state_bridge" where
  "handle_register x now fresh plugin_id payload s =
     (let s1 = (if plugin_id \<in> set (sb_registered_plugins s) then s
                else on_hub (publish (HePluginRegistered plugin_id))
                       (s\<lparr>sb_registered_plugins := plugin_id # sb_registered_plugins s\<rparr>)) in
      case handle_device_registration x now fresh plugin_id payload (sb_hub s1) of
        Inl _ \<Rightarrow> s1
      | Inr h \<Rightarrow> s1\<lparr>sb_hub := h\<rparr>)"

subsection \<open>Messages\<close>

definition relay :: "bridge_ext \<Rightarrow> (string \<times> bytes) list \<Rightarrow> state_bridge \<Rightarrow> state_bridge" where
  "relay x results s = (if bx_can_publish x then s\<lparr>sb_relayed := sb_relayed s @ results\<rparr> else s)"

text \<open>A payload that is not UTF-8 reads as the empty text.\<close>

definition says_online :: "bytes \<Rightarrow> bool" where
  "says_online payload \<longleftrightarrow>
     trim (if from_utf8_lossy payload = payload then payload else []) \<in> {''online'', ''Online'', ''1'', ''true''}"

definition parsed_state ::
  "bridge_ext \<Rightarrow> timestamp \<Rightarrow> string \<Rightarrow> bytes \<Rightarrow> bool \<Rightarrow> state_bridge \<Rightarrow> state_bridge \<times> string option"
where
  "parsed_state x now device_id payload partial s =
     (case tx_parse_json (bx x) payload of
        None \<Rightarrow> (s, Some ''payload is not JSON'')
      | Some v \<Rightarrow> (handle_state x now device_id v partial s, None))"

definition on_hub_result :: "(hub \<Rightarrow> (string, hub) result) \<Rightarrow> state_bridge \<Rightarrow> state_bridge \<times> string option" where
  "on_hub_result f s = (case f (sb_hub s) of Inl e \<Rightarrow> (s, Some e) | Inr h \<Rightarrow> (s\<lparr>sb_hub := h\<rparr>, None))"

definition plugin_topic ::
  "bridge_ext \<Rightarrow> timestamp \<Rightarrow> uuid \<Rightarrow> string \<Rightarrow> string list \<Rightarrow> bytes \<Rightarrow> state_bridge \<Rightarrow> state_bridge"
where
  "plugin_topic x now fresh plugin_id tail payload s =
     (let kind = hd tail in
      if kind = ''manage'' \<and> length tail \<ge> 2 \<and> tail ! 1 = ''response'' then
        (case tx_parse_json (bx x) payload of
           None \<Rightarrow> s
         | Some resp \<Rightarrow> on_hub (publish (HeCustom ''plugin_management_response'' resp)) s)
      else if kind = ''logs'' then handle_logs x plugin_id payload s
      else if kind = ''capabilities'' then on_hub (handle_capabilities x plugin_id payload) s
      else if kind = ''heartbeat'' then handle_heartbeat x plugin_id payload s
      else if kind = ''register'' then handle_register x now fresh plugin_id payload s
      else if kind = ''unregister'' then
        (case handle_device_unregistration x plugin_id payload (sb_hub s) of
           Inl _ \<Rightarrow> s
         | Inr h \<Rightarrow> s\<lparr>sb_hub := h\<rparr>)
      else s)"

definition device_topic ::
  "bridge_ext \<Rightarrow> timestamp \<Rightarrow> string \<Rightarrow> string list \<Rightarrow> bytes \<Rightarrow> state_bridge \<Rightarrow> state_bridge \<times> string option"
where
  "device_topic x now device_id tail payload s =
     (if payload = [] then (s, None)
      else if tail = [''state''] then parsed_state x now device_id payload False s
      else if length tail \<ge> 2 \<and> tail ! 0 = ''state'' \<and> tail ! 1 = ''partial'' then
        parsed_state x now device_id payload True s
      else if tail = [''availability''] then
        (on_hub (handle_availability now device_id (says_online payload)) s, None)
      else if tail = [''schema''] then on_hub_result (handle_device_schema x device_id payload) s
      else (s, None))"

definition canonical_topic ::
  "bridge_ext \<Rightarrow> timestamp \<Rightarrow> uuid \<Rightarrow> string \<Rightarrow> bytes \<Rightarrow> state_bridge \<Rightarrow> state_bridge \<times> string option"
where
  "canonical_topic x now fresh topic payload s =
     (case split_on CHR ''/'' topic of
        p0 # p1 # p2 # p3 # rest \<Rightarrow>
          if p0 = ''homecore'' \<and> p1 = ''devices'' then
            (if p3 = ''alerts'' \<and> rest = [] then (on_hub (handle_device_alerts x p2 payload) s, None)
             else device_topic x now p2 (p3 # rest) payload s)
          else if p0 = ''homecore'' \<and> p1 = ''plugins'' then
            (if p3 = ''alerts'' \<and> rest = [] then
               (on_hub (publish (HePluginAlerts p2 p2 (parse_plugin_alerts x payload))) s, None)
             else (plugin_topic x now fresh p2 (p3 # rest) payload s, None))
          else (s, None)
      | _ \<Rightarrow> (s, None))"

text \<open>The inbound side of the router, and where it has nothing to say the hub's own topics.\<close>

definition inbound ::
  "bridge_ext \<Rightarrow> timestamp \<Rightarrow> uuid \<Rightarrow> string \<Rightarrow> bytes \<Rightarrow> state_bridge \<Rightarrow> state_bridge \<times> string option"
where
  "inbound x now fresh topic payload s =
     (case Option.bind (bx_router x) (\<lambda>r. case er_inbound r topic payload of Inr res \<Rightarrow> res | Inl _ \<Rightarrow> None) of
        Some (InState device_id v partial) \<Rightarrow> (handle_state x now device_id v partial s, None)
      | Some (InAvailability device_id available) \<Rightarrow> (on_hub (handle_availability now device_id available) s, None)
      | None \<Rightarrow> canonical_topic x now fresh topic payload s)"

definition handle_mqtt ::
  "bridge_ext \<Rightarrow> timestamp \<Rightarrow> uuid \<Rightarrow> string \<Rightarrow> bytes \<Rightarrow> state_bridge \<Rightarrow> state_bridge \<times> string option"
where
  "handle_mqtt x now fresh topic payload s =
     (let s1 = (case parse_cmd_topic topic of
                  Some device_id \<Rightarrow> record_pending_command_change x now device_id payload s
                | None \<Rightarrow> s);
          outbound = (if starts_with ''homecore/devices/'' topic \<and> ends_with ''/cmd'' topic
                      then Option.bind (bx_router x) (\<lambda>r. case er_outbound r topic payload of Inr res \<Rightarrow> res | Inl _ \<Rightarrow> None)
                      else None) in
      case outbound of
        Some results \<Rightarrow> (relay x results s1, None)
      | None \<Rightarrow> inbound x now fresh topic payload s1)"

record bridge_input =
  bi_now :: timestamp
  bi_fresh :: uuid
  bi_topic :: string
  bi_payload :: bytes

text \<open>The bridge goes on after an error.\<close>

definition run_bridge :: "bridge_ext \<Rightarrow> bridge_input list \<Rightarrow> state_bridge \<Rightarrow> state_bridge" where
  "run_bridge x inputs s =
     fold (\<lambda>i. fst \<circ> handle_mqtt x (bi_now i) (bi_fresh i) (bi_topic i) (bi_payload i)) inputs s"

end
