(* ===== verification/Room_Theorems.thy ===== *)
theory Room_Theorems
  imports Rooms
begin

text \<open>
  What rooms promise: a slug never means two rooms; a renamed room keeps its identity, its devices
  and the bridges that report it by an older name; a merged room takes both with it; and a person's
  list of a room's devices is what the room then has.
\<close>

subsection \<open>A sweep over the devices\<close>

locale sweep =
  fixes f :: "device \<Rightarrow> hub \<Rightarrow> hub" and g :: "device \<Rightarrow> device"
  assumes sweep_id: "dv_id (g d) = dv_id d"
    and sweep_one: "f d h = h \<and> g d = d \<or> f d h = upsert_device (g d) h"
begin

lemma sweep_from:
  "hub_ok h \<Longrightarrow> list_devices h = seen @ ds \<Longrightarrow>
     list_devices (fold f ds h) = seen @ map g ds \<and> hub_ok (fold f ds h) \<and> hb_areas (fold f ds h) = hb_areas h"
proof (induction ds arbitrary: seen h)
  case (Cons d ds)
  have "list_devices (f d h) = (seen @ [g d]) @ ds \<and> hub_ok (f d h) \<and> hb_areas (f d h) = hb_areas h"
    using sweep_one [of d h] upsert_in_place [OF Cons.prems, of "g d"] Cons.prems
    by (auto simp: sweep_id reg.wf_write)
  then show ?case using Cons.IH [of "f d h" "seen @ [g d]"] by simp
qed simp

lemma sweep_all:
  assumes "hub_ok h"
  shows "list_devices (fold f (list_devices h) h) = map g (list_devices h)"
    and "hub_ok (fold f (list_devices h) h)"
    and "hb_areas (fold f (list_devices h) h) = hb_areas h"
  using sweep_from [OF assms, of "[]" "list_devices h"] by simp_all

lemma sweep_get:
  assumes "hub_ok h"
  shows "get_device (fold f (list_devices h) h) d = map_option g (get_device h d)"
proof (cases "get_device h d")
  case None
  have "get_device (fold f (list_devices h) h) d \<noteq> Some e" for e
  proof
    assume e: "get_device (fold f (list_devices h) h) d = Some e"
    then have "e \<in> set (map g (list_devices h))" "dv_id e = d"
      using reg.listing_lookup [OF sweep_all(2) [OF assms], of e] reg.lookup_key [OF sweep_all(2) [OF assms]]
      by (auto simp flip: sweep_all(1) [OF assms])
    then obtain x where "x \<in> set (list_devices h)" "dv_id x = d" using sweep_id by auto
    then show False using None reg.listing_lookup [OF assms] by auto
  qed
  then have "get_device (fold f (list_devices h) h) d = None" by (cases "get_device (fold f (list_devices h) h) d") auto
  with None show ?thesis by simp
next
  case (Some dev)
  then have "dev \<in> set (list_devices h)" "dv_id dev = d"
    using reg.listing_lookup [OF assms] reg.lookup_key [OF assms] by auto
  then have "g dev \<in> set (list_devices (fold f (list_devices h) h))" "dv_id (g dev) = d"
    by (simp_all add: sweep_all(1) [OF assms] sweep_id)
  with Some show ?thesis using reg.listing_lookup [OF sweep_all(2) [OF assms]] by auto
qed

end

definition moved :: "area \<Rightarrow> string option \<Rightarrow> device \<Rightarrow> device" where
  "moved room v d =
     d\<lparr>dv_area := (if value_at room (dv_area d) then v else dv_area d),
       dv_area_override := (if value_at room (dv_area_override d) then v else dv_area_override d)\<rparr>"

interpretation rp: sweep "repoint from s" "moved from (Some s)" for "from" s
  by unfold_locales (auto simp: moved_def repoint_def points_at_def Let_def)

interpretation up: sweep "unplace room" "moved room None" for room
  by unfold_locales (auto simp: moved_def unplace_def points_at_def Let_def)

definition assigned :: "area \<Rightarrow> string list \<Rightarrow> device \<Rightarrow> device" where
  "assigned room wanted d =
     (let in_room = value_at room (effective_area d); want = dv_id d \<in> set wanted in
      if want \<and> \<not> in_room then d\<lparr>dv_area_override := Some (ar_slug room)\<rparr>
      else if \<not> want \<and> in_room then
        d\<lparr>dv_area_override := None, dv_area := (if value_at room (dv_area d) then None else dv_area d)\<rparr>
      else d)"

interpretation sd: sweep "set_device room wanted" "assigned room wanted" for room wanted
  by unfold_locales (auto simp: assigned_def set_device_def points_at_def Let_def)

subsection \<open>A slug means one room\<close>

definition rooms_ok :: "hub \<Rightarrow> bool" where
  "rooms_ok h \<longleftrightarrow> hub_ok h \<and> areas_ok h
     \<and> (\<forall>i r. get_area h i = Some r \<longrightarrow> ar_slug r \<noteq> [] \<and> (\<forall>s \<in> set (ar_slug r # ar_aliases r). slug s = s))
     \<and> (\<forall>i j r r' s. get_area h i = Some r \<longrightarrow> get_area h j = Some r' \<longrightarrow> answers_to r s \<longrightarrow> answers_to r' s \<longrightarrow> i = j)"

lemma rooms_okD:
  assumes "rooms_ok h"
  shows "hub_ok h" "areas_ok h"
    and "get_area h i = Some r \<Longrightarrow> ar_slug r \<noteq> []"
    and "get_area h i = Some r \<Longrightarrow> s \<in> set (ar_slug r # ar_aliases r) \<Longrightarrow> slug s = s"
    and "get_area h i = Some r \<Longrightarrow> get_area h j = Some r' \<Longrightarrow> answers_to r s \<Longrightarrow> answers_to r' s \<Longrightarrow> i = j"
  using assms unfolding rooms_ok_def by blast+

lemma rooms_okI:
  assumes "hub_ok h" "areas_ok h" "\<And>i r. get_area h i = Some r \<Longrightarrow> ar_slug r \<noteq> []"
    and "\<And>i r s. get_area h i = Some r \<Longrightarrow> s \<in> set (ar_slug r # ar_aliases r) \<Longrightarrow> slug s = s"
    and "\<And>i j r r' s. get_area h i = Some r \<Longrightarrow> get_area h j = Some r' \<Longrightarrow> answers_to r s \<Longrightarrow> answers_to r' s \<Longrightarrow> i = j"
  shows "rooms_ok h"
  unfolding rooms_ok_def using assms by blast

lemma room_for_iff:
  assumes "rooms_ok h"
  shows "room_for (list_areas h) s = Some r \<longleftrightarrow> get_area h (ar_id r) = Some r \<and> answers_to r s"
proof
  assume "room_for (list_areas h) s = Some r"
  then show "get_area h (ar_id r) = Some r \<and> answers_to r s"
    using areg.listing_lookup [OF rooms_okD(2) [OF assms]] by (auto simp: room_for_def find_Some_iff in_set_conv_nth)
next
  assume r: "get_area h (ar_id r) = Some r \<and> answers_to r s"
  then have "r \<in> set (list_areas h)" using areg.listing_lookup [OF rooms_okD(2) [OF assms]] by simp
  with r obtain r' where r': "room_for (list_areas h) s = Some r'"
    by (cases "room_for (list_areas h) s") (auto simp: room_for_def find_None_iff)
  then have "get_area h (ar_id r') = Some r'" "answers_to r' s"
    using areg.listing_lookup [OF rooms_okD(2) [OF assms]] by (auto simp: room_for_def find_Some_iff in_set_conv_nth)
  with r r' show "room_for (list_areas h) s = Some r" using rooms_okD(5) [OF assms, of "ar_id r'" r' "ar_id r" r s] by simp
qed

lemma room_for_none:
  assumes "rooms_ok h" "room_for (list_areas h) s = None" "get_area h i = Some r"
  shows "\<not> answers_to r s"
  using assms room_for_iff [OF assms(1), of s r] areg.lookup_key [OF rooms_okD(2) [OF assms(1)]] by auto

lemma rooms_ok_same:
  assumes "rooms_ok h" "hub_ok h'" "areas_ok h'" "get_area h' = get_area h"
  shows "rooms_ok h'"
  using assms by (simp add: rooms_ok_def)

lemma rooms_ok_devices:
  assumes "rooms_ok h" "hub_ok h'" "hb_areas h' = hb_areas h"
  shows "rooms_ok h'"
  using rooms_ok_same [OF assms(1,2)] assms(3) rooms_okD(2) [OF assms(1)] by (simp add: get_area_def areas_ok_def)

lemma rooms_ok_publish [simp]: "rooms_ok (publish e h) = rooms_ok h"
  by (simp add: rooms_ok_def)

lemma rooms_ok_delete:
  assumes "rooms_ok h"
  shows "rooms_ok (delete_area i h)"
  using rooms_okD [OF assms] by (intro rooms_okI) (auto simp: areg.wf_remove split: if_splits)

lemma rooms_ok_upsert:
  assumes "rooms_ok h" "ar_slug a \<noteq> []" "\<And>s. s \<in> set (ar_slug a # ar_aliases a) \<Longrightarrow> slug s = s"
    and "\<And>i r s. get_area h i = Some r \<Longrightarrow> i \<noteq> ar_id a \<Longrightarrow> answers_to r s \<Longrightarrow> \<not> answers_to a s"
  shows "rooms_ok (upsert_area a h)"
proof (rule rooms_okI)
  note ok = rooms_okD [OF assms(1)]
  show "hub_ok (upsert_area a h)" "areas_ok (upsert_area a h)" using ok(1,2) areg.wf_write by auto
  fix i r s
  assume r: "get_area (upsert_area a h) i = Some r"
  show "ar_slug r \<noteq> []" using r assms(2) ok(3) by (auto split: if_splits)
  show "slug s = s" if "s \<in> set (ar_slug r # ar_aliases r)"
    using r that assms(3) ok(4) by (cases "i = ar_id a") auto
  fix j r'
  assume r': "get_area (upsert_area a h) j = Some r'" and both: "answers_to r s" "answers_to r' s"
  show "i = j"
    using r r' both assms(4) ok(5) by (auto split: if_splits)
qed

subsection \<open>Announcing a room\<close>

lemma announce_ok:
  assumes "areas_ok h" "get_area h i = Some r" "ar_slug r \<noteq> []"
  shows "announce_room rx i h = Inr (with_devices (list_devices h) r, publish (HeRoomChanged (with_devices (list_devices h) r)) h)"
proof -
  let ?wd = "with_devices (list_devices h)"
  have listed: "x \<in> set (list_rooms rx h) \<longleftrightarrow> (\<exists>a. get_area h (ar_id a) = Some a \<and> ar_slug a \<noteq> [] \<and> x = ?wd a)" for x
    using areg.listing_lookup [OF assms(1)] by (auto simp: list_rooms_def collect_rooms_def)
  have same_id: "ar_id (?wd a) = ar_id a" for a by (simp add: with_devices_def)
  have r: "ar_id r = i" using areg.lookup_key assms(1,2) by blast
  then have "?wd r \<in> set (list_rooms rx h)" "ar_id (?wd r) = i" using listed assms same_id by auto
  then obtain x where x: "get_room rx h i = Some x"
    by (cases "get_room rx h i") (auto simp: get_room_def find_None_iff)
  then have "x \<in> set (list_rooms rx h)" "ar_id x = i" by (auto simp: get_room_def find_Some_iff)
  then have "x = ?wd r" using listed assms(2) same_id by auto
  with x show ?thesis by (simp add: announce_room_def)
qed

lemma announce_result:
  "announce_room rx i h = Inr (r, h') \<Longrightarrow> h' = publish (HeRoomChanged r) h"
  by (auto simp: announce_room_def split: option.splits)

lemma announced_room:
  assumes "areas_ok h" "announce_room rx i h = Inr (r, h')"
  shows "\<exists>a. get_area h i = Some a \<and> r = with_devices (list_devices h) a \<and> h' = publish (HeRoomChanged r) h"
proof -
  have "r \<in> set (list_rooms rx h)" "ar_id r = i" "h' = publish (HeRoomChanged r) h"
    using assms(2) by (auto simp: announce_room_def get_room_def find_Some_iff split: option.splits)
  then obtain a where "get_area h (ar_id a) = Some a" "r = with_devices (list_devices h) a"
    using areg.listing_lookup [OF assms(1)] by (auto simp: list_rooms_def collect_rooms_def)
  with \<open>ar_id r = i\<close> \<open>h' = publish (HeRoomChanged r) h\<close> show ?thesis by (auto simp: with_devices_def)
qed

lemma with_devices_simps [simp]:
  "ar_id (with_devices ds r) = ar_id r" "ar_name (with_devices ds r) = ar_name r" "ar_slug (with_devices ds r) = ar_slug r"
  "ar_aliases (with_devices ds r) = ar_aliases r" "ar_named_by (with_devices ds r) = ar_named_by r"
  "answers_to (with_devices ds r) s = answers_to r s"
  by (simp_all add: with_devices_def answers_to_def)

subsection \<open>New rooms\<close>

lemma slug_idem [simp]: "slug (slug s) = slug s"
  by (simp add: slug_def)

lemma new_id_unused:
  assumes "rooms_ok h" "get_area h fresh = None"
  shows "get_area h (new_id rx fresh s (list_areas h)) = None"
proof (cases "list_ex (\<lambda>r. ar_id r = rm_legacy_id rx s) (list_areas h)")
  case False
  have "get_area h (rm_legacy_id rx s) \<noteq> Some r" for r
  proof
    assume r: "get_area h (rm_legacy_id rx s) = Some r"
    then have id: "ar_id r = rm_legacy_id rx s" by (rule areg.lookup_key [OF rooms_okD(2) [OF assms(1)]])
    with r have "r \<in> set (list_areas h)" using areg.listing_lookup [OF rooms_okD(2) [OF assms(1)], of r] by simp
    with id False show False by (simp add: list_ex_iff)
  qed
  then show ?thesis using False by (cases "get_area h (rm_legacy_id rx s)") (auto simp: new_id_def Let_def)
qed (use assms in \<open>simp add: new_id_def Let_def\<close>)

lemma new_room_ok:
  assumes "rooms_ok h" "room_for (list_areas h) (slug name) = None" "slug name \<noteq> []"
    and "ar_slug a = slug name" "ar_aliases a = []"
  shows "rooms_ok (upsert_area a h)"
proof (rule rooms_ok_upsert [OF assms(1)])
  fix i r s
  assume "get_area h i = Some r" "answers_to r s"
  then show "\<not> answers_to a s"
    using room_for_none [OF assms(1,2)] assms(4,5) unfolding answers_to_def by auto
qed (use assms in auto)

lemma respelled_ok:
  assumes "rooms_ok h" "get_area h (ar_id r) = Some r"
  shows "rooms_ok (upsert_area (r\<lparr>ar_name := n, ar_named_by := b\<rparr>) h)"
proof (rule rooms_ok_upsert [OF assms(1)])
  fix i r' s
  assume "get_area h i = Some r'" "i \<noteq> ar_id (r\<lparr>ar_name := n, ar_named_by := b\<rparr>)" "answers_to r' s"
  moreover have "answers_to (r\<lparr>ar_name := n, ar_named_by := b\<rparr>) s = answers_to r s" by (simp add: answers_to_def)
  ultimately show "\<not> answers_to (r\<lparr>ar_name := n, ar_named_by := b\<rparr>) s"
    using rooms_okD(5) [OF assms(1), of i r' "ar_id r" r s] assms(2) by auto
qed (use rooms_okD(3,4) [OF assms(1) assms(2)] in auto)

lemma announce_upsert:
  assumes "areas_ok h" "ar_slug a \<noteq> []" "i = ar_id a"
  shows "announce_room rx i (upsert_area a h) =
    Inr (with_devices (list_devices h) a, publish (HeRoomChanged (with_devices (list_devices h) a)) (upsert_area a h))"
  using announce_ok [of "upsert_area a h" i a] assms areg.wf_write by simp

text \<open>Where a reported name leads.\<close>

lemma place_known:
  assumes "rooms_ok h" "room_for (list_areas h) (slug reported) = Some r"
  shows "\<exists>h'. place_reported rx fresh reported h = Inr (Some (ar_slug r), h') \<and> rooms_ok h'
    \<and> (\<exists>r'. get_area h' (ar_id r) = Some r' \<and> ar_slug r' = ar_slug r \<and> ar_aliases r' = ar_aliases r)
    \<and> (ar_named_by r \<noteq> NamedByGuess \<longrightarrow> h' = h)"
proof -
  have r: "get_area h (ar_id r) = Some r" "answers_to r (slug reported)" using room_for_iff [OF assms(1)] assms(2) by auto
  then have "slug reported \<noteq> []" by (simp add: answers_to_def)
  moreover have "ar_slug r \<noteq> []" using rooms_okD(3) [OF assms(1)] r(1) by blast
  ultimately show ?thesis
    using assms r(1) respelled_ok [OF assms(1) r(1), where n = "trim reported" and b = NamedByBridge]
    by (auto simp: place_reported_def Let_def announce_upsert rooms_okD(2) split: option.split)
qed

lemma place_new:
  assumes "rooms_ok h" "room_for (list_areas h) (slug reported) = None" "slug reported \<noteq> []" "get_area h fresh = None"
  shows "\<exists>h' r. place_reported rx fresh reported h = Inr (Some (slug reported), h') \<and> rooms_ok h'
    \<and> get_area h (ar_id r) = None \<and> get_area h' = (get_area h)(ar_id r \<mapsto> r)
    \<and> ar_slug r = slug reported \<and> ar_aliases r = []"
proof -
  define r where "r = \<lparr>ar_id = new_id rx fresh (slug reported) (list_areas h),
      ar_name = unwrap_or (if trim reported \<noteq> slug reported then Some (trim reported) else None) (title_case (slug reported)),
      ar_slug = slug reported, ar_aliases = [],
      ar_named_by = (if trim reported \<noteq> slug reported then NamedByBridge else NamedByGuess), ar_device_ids = []\<rparr>"
  have "get_area h (ar_id r) = None" using new_id_unused [OF assms(1,4)] by (simp add: r_def)
  moreover have "rooms_ok (upsert_area r h)"
    using assms by (intro new_room_ok) (auto simp: r_def)
  moreover have "place_reported rx fresh reported h = Inr (Some (slug reported),
      publish (HeRoomChanged (with_devices (list_devices h) r)) (upsert_area r h))"
    using assms announce_upsert [of h r "ar_id r" rx] rooms_okD(2) [OF assms(1)]
    by (auto simp: place_reported_def Let_def r_def)
  moreover have "ar_slug r = slug reported" "ar_aliases r = []" by (simp_all add: r_def)
  ultimately show ?thesis by auto
qed

subsection \<open>Every operation keeps the rooms apart\<close>

text \<open>Random identifiers: new ones each, and none that a room has or that is made from a slug.\<close>

definition fresh_ids :: "room_ext \<Rightarrow> (nat \<Rightarrow> uuid) \<Rightarrow> hub \<Rightarrow> bool" where
  "fresh_ids rx fresh h \<longleftrightarrow> inj fresh \<and> (\<forall>n s. fresh n \<noteq> rm_legacy_id rx s) \<and> (\<forall>n. get_area h (fresh n) = None)"

text \<open>
  An operation on rooms; the identifier for a new room is one that no room has. Between them any
  part of the hub may write a device.
\<close>

inductive room_op :: "room_ext \<Rightarrow> hub \<Rightarrow> hub \<Rightarrow> bool" for rx where
  ro_report: "get_area h fresh = None \<Longrightarrow> place_reported rx fresh name h = Inr (p, h') \<Longrightarrow> room_op rx h h'"
| ro_create: "get_area h fresh = None \<Longrightarrow> create_room rx fresh name h = Inr (p, h') \<Longrightarrow> room_op rx h h'"
| ro_rename: "rename_room rx i name h = Inr (r, h') \<Longrightarrow> room_op rx h h'"
| ro_merge: "merge_rooms rx i into h = Inr (r, h') \<Longrightarrow> room_op rx h h'"
| ro_delete: "delete_room i h = Inr h' \<Longrightarrow> room_op rx h h'"
| ro_assign: "set_devices rx i ids h = Inr (r, h') \<Longrightarrow> room_op rx h h'"
| ro_migrate: "fresh_ids rx new h \<Longrightarrow> migrate_rooms rx new h = (m, k, h') \<Longrightarrow> room_op rx h h'"

inductive room_step :: "room_ext \<Rightarrow> hub \<Rightarrow> hub \<Rightarrow> bool" for rx where
  rs_op: "room_op rx h h' \<Longrightarrow> room_step rx h h'"
| rs_device: "room_step rx h (upsert_device d h)"

lemma place_reported_ok:
  assumes "rooms_ok h" "get_area h fresh = None" "place_reported rx fresh name h = Inr (p, h')"
  shows "rooms_ok h'"
proof (cases "slug name = []")
  case False
  then show ?thesis
    using place_known [OF assms(1), of name _ rx fresh] place_new [OF assms(1) _ False assms(2), of rx] assms(3)
    by (cases "room_for (list_areas h) (slug name)") auto
qed (use assms in \<open>simp add: place_reported_def\<close>)

lemma create_room_ok:
  assumes "rooms_ok h" "get_area h fresh = None" "create_room rx fresh name h = Inr (p, h')"
  shows "rooms_ok h'"
proof (cases "slug name \<noteq> [] \<and> room_for (list_areas h) (slug name) = None")
  case True
  define r where "r = \<lparr>ar_id = new_id rx fresh (slug name) (list_areas h), ar_name = trim name, ar_slug = slug name,
      ar_aliases = [], ar_named_by = NamedByPerson, ar_device_ids = []\<rparr>"
  have "rooms_ok (upsert_area r h)" using assms True by (intro new_room_ok) (auto simp: r_def)
  then show ?thesis
    using assms(3) True by (auto simp: create_room_def Let_def r_def try_bind_eq_Inr dest!: announce_result)
qed (use assms in \<open>auto simp: create_room_def Let_def split: if_splits option.splits\<close>)

lemma repointed_ok:
  assumes "rooms_ok h"
  shows "rooms_ok (repoint_all from s h)" "get_area (repoint_all from s h) = get_area h"
  using rooms_ok_devices [OF assms] rp.sweep_all(2,3) [OF rooms_okD(1) [OF assms]]
  by (simp_all add: repoint_all_def get_area_def)

lemma renamed_simps [simp]: "ar_name (renamed n s b) = n" "ar_id (renamed n s b) = ar_id b" "ar_slug (renamed n s b) = s" "ar_named_by (renamed n s b) = NamedByPerson"
  by (auto simp: renamed_def Let_def)

lemma renamed_answers: "s \<noteq> [] \<Longrightarrow> answers_to (renamed n s b) v \<longleftrightarrow> v = s \<or> answers_to b v"
  by (auto simp: renamed_def answers_to_def Let_def)

lemma renamed_slugs: "set (ar_aliases (renamed n s b)) \<subseteq> set (ar_slug b # ar_aliases b)"
  by (auto simp: renamed_def Let_def)

text \<open>A successful rename, taken apart.\<close>

lemma rename_cases:
  assumes "rooms_ok h" "rename_room rx i typed h = Inr (r, h')"
  obtains b where "get_area h i = Some b" "slug typed \<noteq> []"
    "\<And>j x. get_area h j = Some x \<Longrightarrow> j \<noteq> i \<Longrightarrow> \<not> answers_to x (slug typed)"
    "h' = publish (HeRoomChanged r) (upsert_area (renamed (trim typed) (slug typed) b)
       (if slug typed \<noteq> ar_slug b then repoint_all b (slug typed) h else h))"
proof -
  note areas = rooms_okD(2) [OF assms(1)]
  from assms(2) obtain b where b: "find (\<lambda>r. ar_id r = i) (list_areas h) = Some b" "slug typed \<noteq> []"
    "find (\<lambda>r. ar_id r \<noteq> i \<and> answers_to r (slug typed)) (list_areas h) = None"
    and ann: "announce_room rx i (upsert_area (renamed (trim typed) (slug typed) b)
       (if slug typed \<noteq> ar_slug b then repoint_all b (slug typed) h else h)) = Inr (r, h')"
    by (auto simp: rename_room_def Let_def split: if_splits option.splits)
  have "b \<in> set (list_areas h)" "ar_id b = i" using b(1) by (auto simp: find_Some_iff)
  then have "get_area h i = Some b" using areg.listing_lookup [OF areas] by auto
  moreover have "\<not> answers_to x (slug typed)" if "get_area h j = Some x" "j \<noteq> i" for j x
  proof -
    have "x \<in> set (list_areas h)" "ar_id x = j" using that areg.listing_lookup [OF areas] areg.lookup_key [OF areas] by auto
    then show ?thesis using b(3) that(2) by (auto simp: find_None_iff)
  qed
  ultimately show thesis using b(2) announce_result [OF ann] by (intro that)
qed

lemma renamed_room:
  assumes "rooms_ok h" "rename_room rx i typed h = Inr (r, h')" "get_area h i = Some b"
  shows "\<exists>ds. r = with_devices ds (renamed (trim typed) (slug typed) b)"
proof -
  let ?h = "upsert_area (renamed (trim typed) (slug typed) b)
    (if slug typed \<noteq> ar_slug b then repoint_all b (slug typed) h else h)"
  note areas = rooms_okD(2) [OF assms(1)]
  have b: "ar_id b = i" "b \<in> set (list_areas h)"
    using areg.lookup_key [OF areas assms(3)] areg.listing_lookup [OF areas, of b] assms(3) by auto
  have "find (\<lambda>r. ar_id r = i) (list_areas h) = Some b"
  proof (cases "find (\<lambda>r. ar_id r = i) (list_areas h)")
    case (Some c)
    then have "c \<in> set (list_areas h)" "ar_id c = i" by (auto simp: find_Some_iff)
    with Some show ?thesis using areg.listing_lookup [OF areas, of c] assms(3) by simp
  qed (use b in \<open>auto simp: find_None_iff\<close>)
  then have "announce_room rx i ?h = Inr (r, h')"
    using assms(2) by (auto simp: rename_room_def Let_def split: if_splits option.splits)
  then have "\<exists>a. get_area ?h i = Some a \<and> r = with_devices (list_devices ?h) a"
    using announced_room [of ?h rx i r h'] areg.wf_write areas rooms_okD(2) [OF repointed_ok(1) [OF assms(1)]] by auto
  then show ?thesis using b(1) by auto
qed

lemma rename_room_ok:
  assumes "rooms_ok h" "rename_room rx i typed h = Inr (r, h')"
  shows "rooms_ok h'"
proof -
  obtain b where b: "get_area h i = Some b" "slug typed \<noteq> []"
    "\<And>j x. get_area h j = Some x \<Longrightarrow> j \<noteq> i \<Longrightarrow> \<not> answers_to x (slug typed)"
    "h' = publish (HeRoomChanged r) (upsert_area (renamed (trim typed) (slug typed) b)
       (if slug typed \<noteq> ar_slug b then repoint_all b (slug typed) h else h))"
    using rename_cases [OF assms] by blast
  let ?h = "if slug typed \<noteq> ar_slug b then repoint_all b (slug typed) h else h"
  have h: "rooms_ok ?h" "get_area ?h = get_area h" using repointed_ok [OF assms(1)] assms(1) by simp_all
  have id: "ar_id b = i" using areg.lookup_key [OF rooms_okD(2) [OF assms(1)] b(1)] .
  have "rooms_ok (upsert_area (renamed (trim typed) (slug typed) b) ?h)"
  proof (rule rooms_ok_upsert [OF h(1)])
    fix s
    assume "s \<in> set (ar_slug (renamed (trim typed) (slug typed) b) # ar_aliases (renamed (trim typed) (slug typed) b))"
    then show "slug s = s" using renamed_slugs [of "trim typed" "slug typed" b] rooms_okD(4) [OF assms(1) b(1), of s] by auto
  next
    fix j x s
    assume "get_area ?h j = Some x" "j \<noteq> ar_id (renamed (trim typed) (slug typed) b)" "answers_to x s"
    then show "\<not> answers_to (renamed (trim typed) (slug typed) b) s"
      using b rooms_okD(5) [OF assms(1)] id by (auto simp: h(2) renamed_answers)
  qed (use b(2) in simp)
  then show ?thesis by (simp add: b(4))
qed

lemma set_devices_ok:
  assumes "rooms_ok h" "set_devices rx i ids h = Inr (r, h')"
  shows "rooms_ok h'"
proof -
  have "rooms_ok (fold (set_device a ids) (list_devices h) h)" for a
    using rooms_ok_devices [OF assms(1)] sd.sweep_all(2,3) [OF rooms_okD(1) [OF assms(1)]] by simp
  with assms(2) show ?thesis by (auto simp: set_devices_def split: option.splits dest!: announce_result)
qed

lemma delete_room_ok:
  assumes "rooms_ok h" "delete_room i h = Inr h'"
  shows "rooms_ok h'"
proof -
  have "rooms_ok (fold (unplace a) (list_devices h) h)" for a
    using rooms_ok_devices [OF assms(1)] up.sweep_all(2,3) [OF rooms_okD(1) [OF assms(1)]] by simp
  then show ?thesis using assms(2) rooms_ok_delete by (auto simp: delete_room_def split: option.splits)
qed

definition slugs_of :: "area \<Rightarrow> string set" where
  "slugs_of r = insert (ar_slug r) (set (ar_aliases r))"

lemma answers_to_slugs: "answers_to r s \<longleftrightarrow> s \<noteq> [] \<and> s \<in> slugs_of r"
  by (auto simp: answers_to_def slugs_of_def)

definition take_slug :: "string \<Rightarrow> area \<Rightarrow> area" where
  "take_slug s t = (if s \<noteq> ar_slug t \<and> s \<notin> set (ar_aliases t) then t\<lparr>ar_aliases := ar_aliases t @ [s]\<rparr> else t)"

lemma take_slug_simps [simp]:
  "ar_id (take_slug s t) = ar_id t" "ar_slug (take_slug s t) = ar_slug t" "ar_named_by (take_slug s t) = ar_named_by t"
  "slugs_of (take_slug s t) = insert s (slugs_of t)"
  by (auto simp: take_slug_def slugs_of_def)

lemma take_slug_fold [simp]:
  "ar_id (fold take_slug ss t) = ar_id t" "ar_slug (fold take_slug ss t) = ar_slug t"
  "ar_named_by (fold take_slug ss t) = ar_named_by t" "slugs_of (fold take_slug ss t) = set ss \<union> slugs_of t"
  by (induction ss arbitrary: t) simp_all

lemma take_slugs_simps [simp]:
  "ar_id (take_slugs a b) = ar_id b" "ar_slug (take_slugs a b) = ar_slug b" "ar_named_by (take_slugs a b) = ar_named_by b"
  "slugs_of (take_slugs a b) = slugs_of a \<union> slugs_of b"
  unfolding take_slugs_def take_slug_def [symmetric, abs_def] take_slug_fold by (simp_all add: slugs_of_def)

lemma take_slugs_answers: "answers_to (take_slugs a b) s \<longleftrightarrow> answers_to a s \<or> answers_to b s"
  by (auto simp: answers_to_slugs)

text \<open>A successful merge, taken apart.\<close>

lemma merge_cases:
  assumes "merge_rooms rx i into h = Inr (r, h')"
  obtains a b where "i \<noteq> into" "get_area h i = Some a" "get_area h into = Some b"
    "h' = publish (HeRoomChanged r) (publish (HeRoomRemoved i (Some into))
       (delete_area i (upsert_area (take_slugs a b) (repoint_all a (ar_slug b) h))))"
  using assms by (auto simp: merge_rooms_def split: if_splits option.splits dest!: announce_result)

lemma merge_rooms_ok:
  assumes "rooms_ok h" "merge_rooms rx i into h = Inr (r, h')"
  shows "rooms_ok h'"
proof -
  obtain a b where ab: "i \<noteq> into" "get_area h i = Some a" "get_area h into = Some b"
    "h' = publish (HeRoomChanged r) (publish (HeRoomRemoved i (Some into))
       (delete_area i (upsert_area (take_slugs a b) (repoint_all a (ar_slug b) h))))"
    using merge_cases [OF assms(2)] by blast
  let ?h = "delete_area i (repoint_all a (ar_slug b) h)"
  note h = repointed_ok [OF assms(1), of a "ar_slug b"]
  have id: "ar_id b = into" using areg.lookup_key [OF rooms_okD(2) [OF assms(1)] ab(3)] .
  have "rooms_ok (upsert_area (take_slugs a b) ?h)"
  proof (rule rooms_ok_upsert [OF rooms_ok_delete [OF h(1)]])
    show "ar_slug (take_slugs a b) \<noteq> []" using rooms_okD(3) [OF assms(1) ab(3)] by simp
    fix s assume "s \<in> set (ar_slug (take_slugs a b) # ar_aliases (take_slugs a b))"
    then have "s \<in> slugs_of (take_slugs a b)" by (auto simp: slugs_of_def)
    then have "s \<in> set (ar_slug a # ar_aliases a) \<union> set (ar_slug b # ar_aliases b)"
      unfolding take_slugs_simps(4) by (auto simp: slugs_of_def)
    then show "slug s = s" using rooms_okD(4) [OF assms(1) ab(2), of s] rooms_okD(4) [OF assms(1) ab(3), of s] by blast
  next
    fix j x s assume x: "get_area ?h j = Some x" "j \<noteq> ar_id (take_slugs a b)" "answers_to x s"
    then have "j \<noteq> i" "j \<noteq> into" "get_area h j = Some x" using id by (auto simp: h(2) split: if_splits)
    with x(3) show "\<not> answers_to (take_slugs a b) s"
      using rooms_okD(5) [OF assms(1), of j x i a s] rooms_okD(5) [OF assms(1), of j x into b s] ab(2,3)
      unfolding take_slugs_answers by blast
  qed
  then show ?thesis unfolding ab(4) rooms_ok_publish
    by (rule rooms_ok_same)
      (use ab(1) id rooms_okD(1,2) [OF h(1)] in \<open>simp_all add: areg.wf_write areg.wf_remove fun_upd_twist\<close>)
qed

subsection \<open>The migration at start\<close>

definition migrating :: "room_ext \<Rightarrow> (nat \<Rightarrow> uuid) \<Rightarrow> area list \<times> nat \<times> hub \<Rightarrow> bool" where
  "migrating rx fresh = (\<lambda>(rooms, k, h). rooms_ok h \<and> set rooms = set (list_areas h) \<and> fresh_ids rx (\<lambda>n. fresh (k + n)) h)"

lemma room_for_same:
  assumes "rooms_ok h" "set rooms = set (list_areas h)"
  shows "room_for rooms s = None \<longleftrightarrow> room_for (list_areas h) s = None"
  using assms(2) by (simp add: room_for_def find_None_iff)

lemma migrate_value_ok:
  assumes "migrating rx fresh (rooms, k, h)"
  shows "migrating rx fresh (migrate_value rx fresh v (rooms, k, h))"
proof -
  let ?s = "case v of None \<Rightarrow> [] | Some a \<Rightarrow> slug a"
  have ok: "rooms_ok h" "set rooms = set (list_areas h)" "fresh_ids rx (\<lambda>n. fresh (k + n)) h"
    using assms by (auto simp: migrating_def)
  show ?thesis
  proof (cases "?s = [] \<or> room_for rooms ?s \<noteq> None")
    case False
    define r where "r = guessed_room (new_id rx (fresh k) ?s rooms) ?s"
    have same: "new_id rx (fresh k) ?s rooms = new_id rx (fresh k) ?s (list_areas h)"
      using ok(2) by (simp add: new_id_def Let_def list_ex_iff)
    have unused: "get_area h (ar_id r) = None"
      using new_id_unused [OF ok(1), of "fresh k" rx ?s] ok(3) same
      by (simp add: r_def guessed_room_def fresh_ids_def) (metis add_0_right)
    have none: "room_for (list_areas h) ?s = None" "?s \<noteq> []" using False room_for_same [OF ok(1,2)] by auto
    have keeps: "rooms_ok (upsert_area r h)"
    proof (cases v)
      case (Some a)
      with none show ?thesis by (intro new_room_ok [OF ok(1), of a]) (auto simp: r_def guessed_room_def)
    qed (use none in simp)
    have listed: "set (rooms @ [r]) = set (list_areas (upsert_area r h))"
    proof -
      have "a \<in> set (list_areas (upsert_area r h)) \<longleftrightarrow> a = r \<or> a \<in> set (list_areas h)" for a
        using areg.listing_lookup [OF rooms_okD(2) [OF keeps], of a] areg.listing_lookup [OF rooms_okD(2) [OF ok(1)], of a] unused
        by auto
      with ok(2) show ?thesis by auto
    qed
    have "fresh (k + Suc n) \<noteq> ar_id r" for n
    proof -
      have "fresh (k + Suc n) \<noteq> fresh (k + 0)" "fresh (k + Suc n) \<noteq> rm_legacy_id rx ?s"
        using ok(3) unfolding fresh_ids_def inj_def by blast+
      then show ?thesis by (auto simp: r_def guessed_room_def new_id_def Let_def)
    qed
    moreover have "inj (\<lambda>n. fresh (k + Suc n))" "\<forall>n s. fresh (k + Suc n) \<noteq> rm_legacy_id rx s"
      "\<forall>n. get_area h (fresh (k + Suc n)) = None"
      using ok(3) unfolding fresh_ids_def inj_def by blast+
    ultimately have "fresh_ids rx (\<lambda>n. fresh (Suc k + n)) (upsert_area r h)" by (auto simp: fresh_ids_def)
    with keeps listed show ?thesis using False by (simp add: migrate_value_def migrating_def Let_def r_def)
  qed (use assms in \<open>simp add: migrate_value_def Let_def\<close>)
qed

lemma migrate_stored_skip:
  "list_all (\<lambda>r. ar_slug r \<noteq> []) rs \<Longrightarrow> fold (migrate_stored rx) rs (rooms, n, h) = (rooms @ rs, n, h)"
  by (induction rs arbitrary: rooms) (auto simp: migrate_stored_def)

lemma migrate_values_ok:
  assumes "migrating rx fresh st"
  shows "migrating rx fresh (fold (\<lambda>d. migrate_value rx fresh (dv_area_override d) \<circ> migrate_value rx fresh (dv_area d)) ds st)"
  using assms
proof (induction ds arbitrary: st)
  case (Cons d ds)
  have "migrating rx fresh (migrate_value rx fresh v st')" if "migrating rx fresh st'" for v st'
    using that migrate_value_ok by (cases st') blast
  then show ?case using Cons by simp
qed simp

lemma migrate_rooms_ok:
  assumes "rooms_ok h" "fresh_ids rx fresh h" "migrate_rooms rx fresh h = (m, k, h')"
  shows "rooms_ok h'"
proof -
  have "list_all (\<lambda>r. ar_slug r \<noteq> []) (list_areas h)"
    using rooms_okD(3) [OF assms(1)] areg.listing_lookup [OF rooms_okD(2) [OF assms(1)]] by (auto simp: list_all_iff)
  then have "fold (migrate_stored rx) (list_areas h) ([], 0, h) = (list_areas h, 0, h)"
    by (simp add: migrate_stored_skip)
  with assms(3) have "(\<exists>rs. fold (\<lambda>d. migrate_value rx fresh (dv_area_override d) \<circ> migrate_value rx fresh (dv_area d))
      (list_devices h) (list_areas h, 0, h) = (rs, k, h'))"
    by (auto simp: migrate_rooms_def split: prod.splits)
  moreover have "migrating rx fresh (list_areas h, 0, h)" using assms by (simp add: migrating_def)
  ultimately show ?thesis using migrate_values_ok [of rx fresh "(list_areas h, 0, h)" "list_devices h"]
    by (auto simp: migrating_def)
qed

text \<open>
  The house before: rooms that hold only a name, no two names with one slug, no two of these slugs with one identifier, and
  no room under the identifier of a slug that is not its own.
\<close>

definition old_room :: "room_ext \<Rightarrow> area \<Rightarrow> bool" where
  "old_room rx r \<longleftrightarrow> ar_slug r = [] \<and> ar_aliases r = [] \<and> (\<forall>s. rm_legacy_id rx s = ar_id r \<longrightarrow> s = slug (ar_name r))"

abbreviation slug_id :: "room_ext \<Rightarrow> area \<Rightarrow> uuid" where
  "slug_id rx r \<equiv> rm_legacy_id rx (slug (ar_name r))"

definition old_house :: "room_ext \<Rightarrow> hub \<Rightarrow> bool" where
  "old_house rx h \<longleftrightarrow> hub_ok h \<and> areas_ok h \<and> (\<forall>r \<in> set (list_areas h). old_room rx r) \<and> inj_on (slug_id rx) (set (list_areas h))"

definition new_room :: "room_ext \<Rightarrow> area \<Rightarrow> bool" where
  "new_room rx a \<longleftrightarrow> ar_slug a \<noteq> [] \<and> slug (ar_slug a) = ar_slug a \<and> ar_aliases a = [] \<and> ar_id a = rm_legacy_id rx (ar_slug a)"

text \<open>In the middle of the sweep: the rooms done, and those still to do.\<close>

definition sweeping :: "room_ext \<Rightarrow> area list \<Rightarrow> area list \<times> nat \<times> hub \<Rightarrow> bool" where
  "sweeping rx rs = (\<lambda>(rooms, n, h).
     hub_ok h \<and> areas_ok h \<and> distinct (map ar_id rs) \<and> (\<forall>r \<in> set rs. old_room rx r) \<and> inj_on (slug_id rx) (set rs)
     \<and> (\<forall>a. get_area h (ar_id a) = Some a \<longleftrightarrow> a \<in> set rooms \<or> a \<in> set rs)
     \<and> (\<forall>a \<in> set rooms. new_room rx a \<and> (\<forall>r \<in> set rs. slug_id rx r \<noteq> ar_id a)))"

lemma migrate_stored_sweeps:
  assumes "sweeping rx (r # rs) (rooms, n, h)"
  shows "sweeping rx rs (migrate_stored rx r (rooms, n, h))"
proof -
  let ?s = "slug (ar_name r)"
  have ok: "hub_ok h" "areas_ok h" and old: "old_room rx r" and
    others: "r \<notin> set rs" "distinct (map ar_id (r # rs))" "inj_on (slug_id rx) (set (r # rs))" "\<And>a. a \<in> set rs \<Longrightarrow> old_room rx a"
    and stored: "\<And>a. get_area h (ar_id a) = Some a \<longleftrightarrow> a \<in> set rooms \<or> a = r \<or> a \<in> set rs"
    and new: "\<And>a. a \<in> set rooms \<Longrightarrow> new_room rx a \<and> slug_id rx r \<noteq> ar_id a \<and> (\<forall>q \<in> set rs. slug_id rx q \<noteq> ar_id a)"
    using assms by (auto simp: sweeping_def)
  have rest: "distinct (map ar_id rs)" "inj_on (slug_id rx) (set rs)" using others(2,3) by simp_all
  have olds: "old_room rx a \<and> ar_id a \<noteq> ar_id r \<and> slug_id rx a \<noteq> slug_id rx r" if "a \<in> set rs" for a
    using others(1,4) others(2) inj_onD [OF others(3), of a r] that by (auto simp: image_iff)
  have apart: "ar_id a \<noteq> ar_id r" if "a \<in> set rooms" for a
  proof
    assume same: "ar_id a = ar_id r"
    then have "rm_legacy_id rx (ar_slug a) = ar_id r" using new [OF that] by (simp add: new_room_def)
    then have "ar_slug a = ?s" using old by (simp add: old_room_def)
    with new [OF that] show False by (auto simp: new_room_def)
  qed
  have bare: "ar_slug r = []" "ar_aliases r = []" using old by (auto simp: old_room_def)
  have free: "room_for rooms ?s = None"
    using new by (fastforce simp: room_for_def find_None_iff answers_to_def new_room_def)
  show ?thesis
  proof (cases "?s = []")
    case True
    have "get_area (delete_area (ar_id r) h) (ar_id a) = Some a \<longleftrightarrow> a \<in> set rooms \<or> a \<in> set rs" for a
      using stored [of a] apart [of a] olds [of a] by auto
    with True ok rest olds new bare show ?thesis
      by (simp add: migrate_stored_def sweeping_def areg.wf_remove)
  next
    case False
    define q where "q = r\<lparr>ar_id := rm_legacy_id rx ?s, ar_name := title_case ?s, ar_slug := ?s, ar_named_by := NamedByGuess, ar_device_ids := []\<rparr>"
    define h' where "h' = (if ar_id q \<noteq> ar_id r then delete_area (ar_id r) (upsert_area q h) else upsert_area q h)"
    have q: "new_room rx q" "ar_id q = slug_id rx r" using False bare by (simp_all add: q_def new_room_def)
    have qs: "ar_id a \<noteq> ar_id q" if "a \<in> set rs" for a
    proof
      assume "ar_id a = ar_id q"
      then have "?s = slug (ar_name a)" using olds [OF that] unfolding q(2) old_room_def by metis
      with olds [OF that] show False by metis
    qed
    have g: "get_area h' j = (if j = ar_id q then Some q else if j = ar_id r then None else get_area h j)" for j
      using ok(2) by (simp add: h'_def areg.wf_write)
    have "get_area h' (ar_id a) = Some a \<longleftrightarrow> a \<in> set (rooms @ [q]) \<or> a \<in> set rs" for a
    proof (cases "ar_id a = ar_id q")
      case True
      then have "a \<notin> set rooms" "a \<notin> set rs" using new [of a] qs [of a] q(2) by metis+
      with True show ?thesis by (auto simp: g)
    next
      case False
      then have "get_area h' (ar_id a) = Some a \<longleftrightarrow> ar_id a \<noteq> ar_id r \<and> get_area h (ar_id a) = Some a" by (simp add: g)
      moreover have "a \<noteq> q" using False by blast
      ultimately show ?thesis using stored [of a] apart [of a] olds [of a] by auto
    qed
    moreover have "hub_ok h'" "areas_ok h'" using ok by (simp_all add: h'_def areg.wf_remove areg.wf_write)
    moreover have "migrate_stored rx r (rooms, n, h) = (rooms @ [q], Suc n, h')"
      using False bare(1) free by (simp add: migrate_stored_def q_def h'_def Let_def)
    moreover have "\<forall>a \<in> set (rooms @ [q]). new_room rx a \<and> (\<forall>p \<in> set rs. slug_id rx p \<noteq> ar_id a)"
      using new olds q by auto
    ultimately show ?thesis using rest olds by (simp add: sweeping_def)
  qed
qed

lemma migrate_stored_all: "sweeping rx rs st \<Longrightarrow> sweeping rx [] (fold (migrate_stored rx) rs st)"
proof (induction rs arbitrary: st)
  case (Cons r rs)
  then show ?case using migrate_stored_sweeps by (cases st) (fastforce simp: fold_simps)
qed simp

lemma swept_rooms_ok:
  assumes "sweeping rx [] (rooms, n, h)"
  shows "rooms_ok h" "set rooms = set (list_areas h)" "get_area h i = Some a \<Longrightarrow> \<exists>s. i = rm_legacy_id rx s"
proof -
  have ok: "areas_ok h" "hub_ok h" and stored: "\<And>a. get_area h (ar_id a) = Some a \<longleftrightarrow> a \<in> set rooms" and new: "\<And>a. a \<in> set rooms \<Longrightarrow> new_room rx a"
    using assms by (auto simp: sweeping_def)
  have room: "new_room rx a \<and> ar_id a = i" if "get_area h i = Some a" for a i
    using areg.lookup_key [OF ok(1) that] that stored new by auto
  show "set rooms = set (list_areas h)" using stored areg.listing_lookup [OF ok(1)] by blast
  show "get_area h i = Some a \<Longrightarrow> \<exists>s. i = rm_legacy_id rx s" using room by (auto simp: new_room_def)
  have slug: "s = ar_slug a \<and> i = rm_legacy_id rx s" if "get_area h i = Some a" "answers_to a s" for i a s
    using room [OF that(1)] that(2) by (auto simp: new_room_def answers_to_def)
  show "rooms_ok h"
  proof (rule rooms_okI [OF ok(2,1)])
    show "i = j" if "get_area h i = Some r" "get_area h j = Some r'" "answers_to r s" "answers_to r' s" for i j r r' s
      using slug [OF that(1,3)] slug [OF that(2,4)] by simp
  qed (use room in \<open>force simp: new_room_def\<close>)+
qed

lemma areas_distinct: "areas_ok h \<Longrightarrow> distinct (map ar_id (list_areas h))"
proof -
  assume ok: "areas_ok h"
  then have "map ar_id (list_areas h) = map fst (hb_areas h)" by (auto simp: areas_ok_def list_areas_def)
  with ok show ?thesis by (simp add: areas_ok_def strict_sorted_iff)
qed

lemma migrate_old_house:
  assumes "old_house rx h" "fresh_ids rx fresh h" "migrate_rooms rx fresh h = (m, k, h')"
  shows "rooms_ok h'"
proof -
  obtain rooms n h1 where f: "fold (migrate_stored rx) (list_areas h) ([], 0, h) = (rooms, n, h1)" by (metis prod_cases3)
  have "sweeping rx (list_areas h) ([], 0, h)"
    using assms(1) areg.listing_lookup [of h] areas_distinct [of h] by (auto simp: old_house_def sweeping_def)
  from migrate_stored_all [OF this] have sw: "sweeping rx [] (rooms, n, h1)" by (simp add: f)
  have "fresh_ids rx fresh h1"
    using assms(2) swept_rooms_ok(3) [OF sw] unfolding fresh_ids_def by (metis not_Some_eq)
  then have "migrating rx fresh (rooms, 0, h1)" using swept_rooms_ok(1,2) [OF sw] by (simp add: migrating_def)
  from migrate_values_ok [OF this, of "list_devices h1"] assms(3) f show ?thesis
    by (auto simp: migrate_rooms_def migrating_def split: prod.splits)
qed

subsection \<open>Reachable hubs\<close>

text \<open>A house without rooms, or an old one whose rooms have been migrated.\<close>

definition rooms_init :: "room_ext \<Rightarrow> hub \<Rightarrow> bool" where
  "rooms_init rx h \<longleftrightarrow> hub_ok h \<and> hb_areas h = []
     \<or> (\<exists>fresh h0 m k. old_house rx h0 \<and> fresh_ids rx fresh h0 \<and> migrate_rooms rx fresh h0 = (m, k, h))"

lemma rooms_init_ok: "rooms_init rx h \<Longrightarrow> rooms_ok h"
  using migrate_old_house by (auto simp: rooms_init_def) (simp add: rooms_ok_def areas_ok_def get_area_def)

lemma room_op_ok:
  assumes "room_op rx h h'" "rooms_ok h"
  shows "rooms_ok h'"
  using assms
  by cases (auto intro: place_reported_ok create_room_ok rename_room_ok merge_rooms_ok delete_room_ok
      set_devices_ok migrate_rooms_ok)

interpretation room_sys: invariant_system "rooms_init rx" "room_step rx" rooms_ok for rx
proof
  fix s t
  assume ok: "rooms_ok s" and "room_step rx s t"
  from this(2) show "rooms_ok t"
  proof cases
    case rs_op
    then show ?thesis using ok by (rule room_op_ok)
  next
    case (rs_device d)
    then show ?thesis using rooms_okD(1) [OF ok] by (auto intro!: rooms_ok_devices [OF ok] simp: reg.wf_write)
  qed
qed (rule rooms_init_ok)

subsection \<open>Devices in rooms\<close>

definition in_room :: "hub \<Rightarrow> uuid \<Rightarrow> string \<Rightarrow> bool" where
  "in_room h i d =
     (case (get_area h i, get_device h d) of
        (Some room, Some dev) \<Rightarrow> value_at room (effective_area dev)
      | _ \<Rightarrow> False)"

lemma in_room_publish [simp]: "in_room (publish e h) i d = in_room h i d"
  by (simp add: in_room_def publish_def get_area_def get_device_def)

lemma listed_devices:
  assumes "rooms_ok h" "announce_room rx i h = Inr (r, h')"
  shows "d \<in> set (ar_device_ids r) \<longleftrightarrow> in_room h i d"
proof -
  note store = rooms_okD(1) [OF assms(1)]
  obtain a where a: "get_area h i = Some a" "r = with_devices (list_devices h) a"
    using announced_room [OF rooms_okD(2) [OF assms(1)] assms(2)] by blast
  have "(\<exists>x \<in> set (list_devices h). dv_id x = d \<and> P x) \<longleftrightarrow> (\<exists>x. get_device h d = Some x \<and> P x)" for P
    using reg.listing_lookup [OF store] reg.lookup_key [OF store] by metis
  from this [of "\<lambda>x. value_at a (effective_area x)"] show ?thesis
    by (auto simp: in_room_def a with_devices_def image_iff split: option.splits)
qed

lemma moved_area: "effective_area (moved b v d) =
  (if value_at b (dv_area_override d) \<and> v = None then (if value_at b (dv_area d) then None else dv_area d)
   else if value_at b (effective_area d) then v else effective_area d)"
  by (auto simp: moved_def effective_area_def value_at_def option_or_def split: option.splits)

lemma repointed_device:
  assumes "rooms_ok h" "get_device h d = Some dev"
  shows "\<exists>dev'. get_device (repoint_all b s h) d = Some dev'
    \<and> effective_area dev' = (if value_at b (effective_area dev) then Some s else effective_area dev)"
  using rp.sweep_get [OF rooms_okD(1) [OF assms(1)], of b s d] assms(2) by (auto simp: repoint_all_def moved_area)

text \<open>The rooms of a hub, and where its devices are, after a rename.\<close>

lemma renamed_in_room:
  fixes n :: string
  assumes ok: "rooms_ok h" and b: "get_area h i = Some b" "slug typed \<noteq> []"
    and free: "\<forall>j x. get_area h j = Some x \<longrightarrow> j \<noteq> i \<longrightarrow> \<not> answers_to x (slug typed)"
  defines "h' \<equiv> upsert_area (renamed n (slug typed) b) (if slug typed \<noteq> ar_slug b then repoint_all b (slug typed) h else h)"
  assumes dev: "get_device h d = Some dev"
  shows "in_room h' j d \<longleftrightarrow> in_room h j d \<or> j = i \<and> map_option slug (effective_area dev) = Some (slug typed)"
proof -
  have id: "ar_id b = i" using areg.lookup_key [OF rooms_okD(2) [OF ok] b(1)] .
  have areas: "get_area h' = (get_area h)(i \<mapsto> renamed n (slug typed) b)"
    using repointed_ok(2) [OF ok] id by (simp add: h'_def)
  obtain dev' where dev': "get_device h' d = Some dev'"
    "effective_area dev' = (if slug typed \<noteq> ar_slug b \<and> value_at b (effective_area dev) then Some (slug typed) else effective_area dev)"
    using repointed_device [OF ok dev, of b "slug typed"] dev by (cases "slug typed = ar_slug b") (auto simp: h'_def)
  show ?thesis
  proof (cases "j = i")
    case True
    have "answers_to b (ar_slug b)" using rooms_okD(3) [OF ok b(1)] by (simp add: answers_to_def)
    with True show ?thesis using areas dev dev' b(1,2)
      by (auto simp: in_room_def value_at_def renamed_answers split: option.splits)
  next
    case False
    have "\<not> value_at b (effective_area dev)" if "get_area h j = Some x" "value_at x (effective_area dev)" for x
      using that rooms_okD(5) [OF ok that(1) b(1)] False by (auto simp: value_at_def split: option.splits)
    with False show ?thesis using areas dev dev' free [rule_format, of j]
      by (auto simp: in_room_def value_at_def split: option.splits)
  qed
qed

text \<open>The same after a merge.\<close>

lemma merged_in_room:
  assumes ok: "rooms_ok h" and ab: "i \<noteq> into" "get_area h i = Some a" "get_area h into = Some b"
  defines "h' \<equiv> delete_area i (upsert_area (take_slugs a b) (repoint_all a (ar_slug b) h))"
  assumes dev: "get_device h d = Some dev"
  shows "in_room h' j d \<longleftrightarrow> j \<noteq> i \<and> (in_room h j d \<or> j = into \<and> in_room h i d)"
proof -
  have id: "ar_id b = into" using areg.lookup_key [OF rooms_okD(2) [OF ok] ab(3)] .
  have areas: "get_area h' = (get_area h)(into \<mapsto> take_slugs a b, i := None)"
    using repointed_ok(2) [OF ok] id by (simp add: h'_def)
  obtain dev' where dev': "get_device h' d = Some dev'"
    "effective_area dev' = (if value_at a (effective_area dev) then Some (ar_slug b) else effective_area dev)"
    using repointed_device [OF ok dev, of a "ar_slug b"] by (auto simp: h'_def)
  have slug: "slug (ar_slug b) = ar_slug b" "answers_to b (ar_slug b)"
    using rooms_okD(3,4) [OF ok ab(3)] by (auto simp: answers_to_def)
  have apart: "\<not> value_at x (effective_area dev)" "\<not> answers_to x (ar_slug b)"
    if "get_area h j = Some x" "j \<noteq> i" "j \<noteq> into" "value_at a (effective_area dev)" for x
    using that rooms_okD(5) [OF ok that(1) ab(2)] rooms_okD(5) [OF ok that(1) ab(3), of "ar_slug b"] slug(2)
    by (auto simp: value_at_def split: option.splits)
  show ?thesis
  proof (cases "j = into")
    case True
    then show ?thesis using areas dev dev' slug ab
      by (auto simp: in_room_def value_at_def take_slugs_answers split: option.splits)
  next
    case False
    then show ?thesis using areas dev dev' slug apart
      by (cases "get_area h j") (auto simp: in_room_def value_at_def)
  qed
qed

lemma sets_in_room:
  assumes ok: "rooms_ok h" and room: "get_area h i = Some room"
  shows "in_room (fold (set_device room ids) (list_devices h) h) i d
    \<longleftrightarrow> d \<in> set ids \<and> get_device h d \<noteq> None"
proof -
  note store = rooms_okD(1) [OF ok]
  let ?h = "fold (set_device room ids) (list_devices h) h"
  have area: "get_area ?h i = Some room" using sd.sweep_all(3) [OF store] room by (simp add: get_area_def)
  have dev: "get_device ?h d = map_option (assigned room ids) (get_device h d)" by (rule sd.sweep_get [OF store])
  have slug: "answers_to room (slug (ar_slug room))" using rooms_okD(3,4) [OF ok room] by (auto simp: answers_to_def)
  show ?thesis
  proof (cases "get_device h d")
    case (Some x)
    then have "dv_id x = d" using reg.lookup_key [OF store] by blast
    moreover have "value_at room (effective_area (assigned room ids x)) \<longleftrightarrow> dv_id x \<in> set ids"
      using slug by (auto simp: assigned_def Let_def effective_area_def option_or_def value_at_def split: option.splits)
    ultimately show ?thesis using Some area dev by (simp add: in_room_def)
  qed (use dev in \<open>simp add: in_room_def split: option.split\<close>)
qed

lemma place_settled:
  assumes "rooms_ok h" "get_area h i = Some r" "answers_to r (slug name)" "ar_named_by r \<noteq> NamedByGuess"
  shows "place_reported rx fresh name h = Inr (Some (ar_slug r), h)"
proof -
  have "ar_id r = i" using areg.lookup_key [OF rooms_okD(2) [OF assms(1)] assms(2)] .
  then have "room_for (list_areas h) (slug name) = Some r" using room_for_iff [OF assms(1)] assms(2,3) by simp
  then show ?thesis using place_known [OF assms(1)] assms(4) by fastforce
qed

subsection \<open>What rooms promise\<close>

text \<open>
  C15. However rooms are reported, made, renamed, merged, deleted, migrated and filled, and whatever
  else is written about devices in between, no name ever means two rooms: of two rooms on record
  that answer to the same slug, both are the same. The run starts from a house without rooms, or from one
  whose rooms of before (each with a name of its own) have been migrated.
\<close>

theorem one_room_per_name:
  assumes "reach (rooms_init rx) (room_step rx) h"
    and "get_area h i = Some r" "get_area h j = Some r'" "answers_to r s" "answers_to r' s"
  shows "i = j"
  using rooms_okD(5) [OF room_sys.reach_invar [OF assms(1)]] assms(2-5) by blast

text \<open>
  C16. A renamed room keeps its identity, its devices and its bridges: its identifier stays; every
  device is in the same rooms as before, except that one that already named the new name joins the
  room; and a bridge that reports any name the room answered to before puts its device into it,
  changing nothing else.
\<close>

theorem rename_keeps_room:
  assumes "reach (rooms_init rx) (room_step rx) h" "rename_room rx i typed h = Inr (r, h')"
  shows "ar_id r = i \<and> ar_slug r = slug typed \<and> ar_name r = trim typed
    \<and> (\<forall>d \<in> set (list_devices h). \<forall>j. in_room h' j (dv_id d)
        \<longleftrightarrow> in_room h j (dv_id d) \<or> j = i \<and> map_option slug (effective_area d) = Some (slug typed))
    \<and> (\<forall>before name. get_area h i = Some before \<longrightarrow> answers_to before (slug name) \<longrightarrow>
        place_reported rx fresh name h' = Inr (Some (slug typed), h'))"
proof -
  note ok = room_sys.reach_invar [OF assms(1)]
  obtain b where b: "get_area h i = Some b" "slug typed \<noteq> []"
    "\<And>j x. get_area h j = Some x \<Longrightarrow> j \<noteq> i \<Longrightarrow> \<not> answers_to x (slug typed)"
    "h' = publish (HeRoomChanged r) (upsert_area (renamed (trim typed) (slug typed) b)
       (if slug typed \<noteq> ar_slug b then repoint_all b (slug typed) h else h))"
    using rename_cases [OF ok assms(2)] by blast
  have id: "ar_id b = i" using areg.lookup_key [OF rooms_okD(2) [OF ok] b(1)] .
  have room: "get_area h' i = Some (renamed (trim typed) (slug typed) b)" by (simp add: b(4) id)
  obtain ds where r: "r = with_devices ds (renamed (trim typed) (slug typed) b)"
    using renamed_room [OF ok assms(2) b(1)] by blast
  have "\<forall>d \<in> set (list_devices h). \<forall>j. in_room h' j (dv_id d)
        \<longleftrightarrow> in_room h j (dv_id d) \<or> j = i \<and> map_option slug (effective_area d) = Some (slug typed)"
  proof (intro ballI allI)
    fix d j assume "d \<in> set (list_devices h)"
    then have "get_device h (dv_id d) = Some d" using reg.listing_lookup [OF rooms_okD(1) [OF ok]] by simp
    from renamed_in_room [OF ok b(1,2) _ this, of "trim typed" j] b(3)
    show "in_room h' j (dv_id d)
        \<longleftrightarrow> in_room h j (dv_id d) \<or> j = i \<and> map_option slug (effective_area d) = Some (slug typed)"
      unfolding b(4) in_room_publish by blast
  qed
  moreover have "place_reported rx fresh name h' = Inr (Some (slug typed), h')" if "answers_to b (slug name)" for name
    using place_settled [OF rename_room_ok [OF ok assms(2)] room, of name rx fresh] that b(2) by (simp add: renamed_answers)
  ultimately show ?thesis using b(1) r id by simp
qed

text \<open>
  C17. A merged room takes its devices and its bridges with it: afterwards only the target is on
  record, it has the devices of both, other rooms have the devices they had, and whatever name
  either room answered to, the target answers to.
\<close>

theorem merge_unites_rooms:
  assumes "reach (rooms_init rx) (room_step rx) h" "merge_rooms rx i into h = Inr (r, h')"
    and "get_area h i = Some a" "get_area h into = Some b"
  shows "get_area h' i = None
    \<and> (\<exists>c. get_area h' into = Some c \<and> ar_slug c = ar_slug b
        \<and> (\<forall>s. answers_to c s \<longleftrightarrow> answers_to a s \<or> answers_to b s))
    \<and> (\<forall>j. j \<noteq> i \<longrightarrow> j \<noteq> into \<longrightarrow> get_area h' j = get_area h j)
    \<and> (\<forall>d \<in> set (list_devices h). \<forall>j. in_room h' j (dv_id d)
        \<longleftrightarrow> j \<noteq> i \<and> (in_room h j (dv_id d) \<or> j = into \<and> in_room h i (dv_id d)))"
proof -
  note ok = room_sys.reach_invar [OF assms(1)]
  have ne: "i \<noteq> into" and h': "h' = publish (HeRoomChanged r) (publish (HeRoomRemoved i (Some into))
       (delete_area i (upsert_area (take_slugs a b) (repoint_all a (ar_slug b) h))))"
    using merge_cases [OF assms(2)] assms(3,4) by (metis option.inject)+
  have id: "ar_id b = into" using areg.lookup_key [OF rooms_okD(2) [OF ok] assms(4)] .
  have "\<forall>d \<in> set (list_devices h). \<forall>j. in_room h' j (dv_id d)
        \<longleftrightarrow> j \<noteq> i \<and> (in_room h j (dv_id d) \<or> j = into \<and> in_room h i (dv_id d))"
    using merged_in_room [OF ok ne assms(3,4)] reg.listing_lookup [OF rooms_okD(1) [OF ok]] by (simp add: h')
  then show ?thesis using ne id repointed_ok(2) [OF ok] by (simp add: h' take_slugs_answers)
qed

text \<open>
  A person's list of a room's devices is what the room then has: afterwards a device is in the
  room exactly when it exists and is on the list, and the answer names just those.
\<close>

theorem set_devices_exact:
  assumes "reach (rooms_init rx) (room_step rx) h" "set_devices rx i ids h = Inr (r, h')"
  shows "(\<forall>d. in_room h' i d \<longleftrightarrow> d \<in> set ids \<and> get_device h d \<noteq> None)
    \<and> set (ar_device_ids r) = {d \<in> set ids. get_device h d \<noteq> None}"
proof -
  note ok = room_sys.reach_invar [OF assms(1)]
  obtain room where room: "get_area h i = Some room"
    and ann: "announce_room rx i (fold (set_device room ids) (list_devices h) h) = Inr (r, h')"
    using assms(2) by (auto simp: set_devices_def split: option.splits)
  have "rooms_ok (fold (set_device room ids) (list_devices h) h)"
    using rooms_ok_devices [OF ok] sd.sweep_all(2,3) [OF rooms_okD(1) [OF ok]] by simp
  from listed_devices [OF this ann] sets_in_room [OF ok room] show ?thesis
    using announce_result [OF ann] by auto
qed

subsection \<open>A house\<close>

definition sample_rooms :: room_ext where
  "sample_rooms = \<lparr>rm_legacy_id = length, rm_lower = (\<lambda>s. s)\<rparr>"

definition house0 :: hub where
  "house0 = empty_hub\<lparr>hb_devices :=
     [(''fan'', device_new 0 ''fan'' ''Fan'' ''hue''),
      (''tv'', (device_new 0 ''tv'' ''TV'' ''hue'')\<lparr>dv_area := Some ''Tv room''\<rparr>)]\<rparr>"

definition room_or :: "(room_error, 'a \<times> hub) result \<Rightarrow> hub" where
  "room_or res = (case res of Inr (_, h) \<Rightarrow> h | Inl _ \<Rightarrow> house0)"

definition house1 :: hub where
  "house1 = room_or (place_reported sample_rooms 100 ''Tv room'' house0)"

definition house2 :: hub where
  "house2 = room_or (create_room sample_rooms 101 ''Den'' house1)"

lemma room_or_result: "\<not> isl res \<Longrightarrow> \<exists>p. res = Inr (p, room_or res)"
  by (cases res) (auto simp: room_or_def)

lemma reached_report:
  assumes "reach (rooms_init rx) (room_step rx) h" "get_area h fresh = None" "\<not> isl (place_reported rx fresh name h)"
  shows "reach (rooms_init rx) (room_step rx) (room_or (place_reported rx fresh name h))"
  using room_or_result [OF assms(3)] assms(1) rs_op [OF ro_report [OF assms(2)]] reach.intros(2) by metis

lemma reached_create:
  assumes "reach (rooms_init rx) (room_step rx) h" "get_area h fresh = None" "\<not> isl (create_room rx fresh name h)"
  shows "reach (rooms_init rx) (room_step rx) (room_or (create_room rx fresh name h))"
  using room_or_result [OF assms(3)] assms(1) rs_op [OF ro_create [OF assms(2)]] reach.intros(2) by metis

lemma house_reached:
  "reach (rooms_init sample_rooms) (room_step sample_rooms) house1" "reach (rooms_init sample_rooms) (room_step sample_rooms) house2"
proof -
  have "rooms_init sample_rooms house0" by (simp add: rooms_init_def hub_ok_def house0_def empty_hub_def device_new_def)
  then have "reach (rooms_init sample_rooms) (room_step sample_rooms) house0" by (rule reach.intros)
  then show one: "reach (rooms_init sample_rooms) (room_step sample_rooms) house1"
    unfolding house1_def by (rule reached_report) code_simp+
  show "reach (rooms_init sample_rooms) (room_step sample_rooms) house2"
    unfolding house2_def by (rule reached_create [OF one]) code_simp+
qed

theorem one_room_per_name_witness:
  "map ar_slug (list_areas house2) = [''den'', ''tv_room''] \<and> {i. \<exists>r. get_area house2 i = Some r \<and> answers_to r ''den''} = {3}"
proof -
  have den: "map_option (\<lambda>r. answers_to r ''den'') (get_area house2 3) = Some True" by code_simp
  then obtain r0 where "get_area house2 3 = Some r0" "answers_to r0 ''den''" by auto
  then have "{i. \<exists>r. get_area house2 i = Some r \<and> answers_to r ''den''} = {3}"
    using one_room_per_name [OF house_reached(2)] by blast
  moreover have "map ar_slug (list_areas house2) = [''den'', ''tv_room'']" by code_simp
  ultimately show ?thesis by simp
qed

theorem rename_keeps_room_witness:
  "\<exists>r h'. rename_room sample_rooms 7 ''Den'' house1 = Inr (r, h') \<and> ar_id r = 7 \<and> ar_slug r = slug ''Den'' \<and> in_room h' 7 ''tv''
    \<and> place_reported sample_rooms 8 ''TV  Room'' h' = Inr (Some ''den'', h')"
proof -
  have "\<not> isl (rename_room sample_rooms 7 ''Den'' house1)" by code_simp
  then obtain r h' where ren: "rename_room sample_rooms 7 ''Den'' house1 = Inr (r, h')"
    by (cases "rename_room sample_rooms 7 ''Den'' house1") auto
  have "map_option (\<lambda>b. answers_to b (slug ''TV  Room'')) (get_area house1 7) = Some True" by code_simp
  then obtain b where b: "get_area house1 7 = Some b" "answers_to b (slug ''TV  Room'')" by auto
  have "in_room house1 7 ''tv''" "''tv'' \<in> set (map dv_id (list_devices house1))" "slug ''Den'' = ''den''" by code_simp+
  with ren b show ?thesis using rename_keeps_room [OF house_reached(1) ren, of 8] by auto
qed

theorem merge_unites_rooms_witness:
  "\<exists>r h'. merge_rooms sample_rooms 7 3 house2 = Inr (r, h') \<and> get_area h' 7 = None \<and> in_room h' 3 ''tv''"
proof -
  have "\<not> isl (merge_rooms sample_rooms 7 3 house2)" by code_simp
  then obtain r h' where m: "merge_rooms sample_rooms 7 3 house2 = Inr (r, h')"
    by (cases "merge_rooms sample_rooms 7 3 house2") auto
  have "get_area house2 7 \<noteq> None \<and> get_area house2 3 \<noteq> None" by code_simp
  then obtain a b where "get_area house2 7 = Some a" "get_area house2 3 = Some b" by auto
  moreover have "in_room house2 7 ''tv''" "''tv'' \<in> set (map dv_id (list_devices house2))" by code_simp+
  ultimately show ?thesis using m merge_unites_rooms [OF house_reached(2) m] by auto
qed

theorem set_devices_exact_witness:
  "\<exists>r h'. set_devices sample_rooms 3 [''fan'', ''ghost''] house2 = Inr (r, h') \<and> set (ar_device_ids r) = {''fan''}"
proof -
  have "\<not> isl (set_devices sample_rooms 3 [''fan'', ''ghost''] house2)" by code_simp
  then obtain r h' where s: "set_devices sample_rooms 3 [''fan'', ''ghost''] house2 = Inr (r, h')"
    by (cases "set_devices sample_rooms 3 [''fan'', ''ghost''] house2") auto
  have "get_device house2 ''fan'' \<noteq> None" "get_device house2 ''ghost'' = None" by code_simp+
  then have "{d \<in> set [''fan'', ''ghost'']. get_device house2 d \<noteq> None} = {''fan''}" by auto
  with s set_devices_exact [OF house_reached(2) s] show ?thesis by auto
qed

subsection \<open>An old house\<close>

text \<open>
  Two old records of one slug lose the room, if the later one has the identifier made from the slug: the
  first becomes the room, under that identifier; the second is then taken for a second
  record of it and deleted, by the same identifier. The sweep over the devices does not record the
  room again, because it still has it in its list.
\<close>

theorem same_slug_room_lost:
  assumes "areas_ok h" "list_areas h = [a, b]" "ar_slug a = []" "ar_slug b = []" "slug (ar_name a) \<noteq> []" "slug (ar_name b) = slug (ar_name a)"
    and "ar_id b = rm_legacy_id rx (slug (ar_name a))"
    and "\<forall>d \<in> set (list_devices h). \<forall>v \<in> {dv_area d, dv_area_override d}. case v of None \<Rightarrow> True | Some n \<Rightarrow> slug n \<in> {[], slug (ar_name a)}"
  shows "\<exists>h'. migrate_rooms rx fresh h = (1, 0, h') \<and> list_areas h' = []"
proof -
  let ?s = "slug (ar_name a)"
  define q where "q = a\<lparr>ar_id := rm_legacy_id rx ?s, ar_name := title_case ?s, ar_slug := ?s, ar_named_by := NamedByGuess, ar_device_ids := []\<rparr>"
  define h1 where "h1 = delete_area (ar_id b) (delete_area (ar_id a) (upsert_area q h))"
  have "distinct [ar_id a, ar_id b]" using areas_distinct [OF assms(1)] assms(2) by simp
  then have "fold (migrate_stored rx) (list_areas h) ([], 0, h) = ([q], 1, h1)"
    using assms(2-7) by (simp add: migrate_stored_def room_for_def answers_to_def q_def h1_def Let_def)
  moreover have "list_devices h1 = list_devices h" by (simp add: h1_def list_devices_def delete_area_def upsert_area_def)
  moreover have "fold (\<lambda>d. migrate_value rx fresh (dv_area_override d) \<circ> migrate_value rx fresh (dv_area d)) ds ([q], 0, h1) = ([q], 0, h1)"
    if "set ds \<subseteq> set (list_devices h)" for ds
  proof -
    have "migrate_value rx fresh v ([q], 0, h1) = ([q], 0, h1)" if "case v of None \<Rightarrow> True | Some n \<Rightarrow> slug n \<in> {[], ?s}" for v
      using that by (auto simp: migrate_value_def room_for_def answers_to_def q_def Let_def split: option.splits)
    then show ?thesis using that assms(8) by (induction ds) auto
  qed
  moreover have "list_areas h1 = []"
  proof -
    have ok: "areas_ok h1" using assms(1) by (simp add: h1_def areg.wf_remove areg.wf_write)
    have "d \<notin> set (list_areas h1)" for d
      using areg.listing_lookup [OF ok, of d] areg.listing_lookup [OF assms(1), of d] assms(1,2,7)
      by (auto simp: h1_def areg.wf_remove areg.wf_write q_def)
    then show ?thesis by (cases "list_areas h1") auto
  qed
  ultimately show ?thesis by (simp add: migrate_rooms_def)
qed

definition old_ext :: room_ext where
  "old_ext = \<lparr>rm_legacy_id = (\<lambda>s. 2 * length s + 1), rm_lower = (\<lambda>s. s)\<rparr>"

definition old_area :: "uuid \<Rightarrow> string \<Rightarrow> area" where
  "old_area i n = \<lparr>ar_id = i, ar_name = n, ar_slug = [], ar_aliases = [], ar_named_by = NamedByGuess, ar_device_ids = []\<rparr>"

definition old_den :: hub where
  "old_den = house0\<lparr>hb_areas := [(2, old_area 2 ''Den''), (4, old_area 4 ''tv room'')]\<rparr>"

theorem migrated_house:
  "rooms_init old_ext (snd (snd (migrate_rooms old_ext (\<lambda>n. 2 * n + 6) old_den)))
    \<and> map ar_slug (list_areas (snd (snd (migrate_rooms old_ext (\<lambda>n. 2 * n + 6) old_den)))) = [''den'', ''tv_room'']"
proof
  have odd: "rm_legacy_id old_ext s \<noteq> 2 * n" for s n unfolding old_ext_def by (simp, presburger)
  have "slug ''Den'' = ''den''" "slug ''tv room'' = ''tv_room''" "rm_legacy_id old_ext ''den'' \<noteq> rm_legacy_id old_ext ''tv_room''" by code_simp+
  then have "inj_on (slug_id old_ext) (set (list_areas old_den))"
    by (auto simp: inj_on_def list_areas_def old_den_def old_area_def)
  moreover have "old_room old_ext (old_area (2 * n) s)" for n s using odd by (simp add: old_room_def old_area_def)
  from this [of 1] this [of 2] have "\<forall>r \<in> set (list_areas old_den). old_room old_ext r" by (simp add: list_areas_def old_den_def)
  moreover have "hub_ok old_den" "areas_ok old_den"
    by (simp_all add: old_den_def old_area_def hub_ok_def house0_def empty_hub_def device_new_def areas_ok_def)
  ultimately have "old_house old_ext old_den" by (simp add: old_house_def)
  moreover have "fresh_ids old_ext (\<lambda>n. 2 * n + 6) old_den"
    using odd [of _ "_ + 3", symmetric] by (auto simp: fresh_ids_def inj_def old_den_def get_area_def)
  ultimately show "rooms_init old_ext (snd (snd (migrate_rooms old_ext (\<lambda>n. 2 * n + 6) old_den)))"
    unfolding rooms_init_def by (metis prod.collapse)
  show "map ar_slug (list_areas (snd (snd (migrate_rooms old_ext (\<lambda>n. 2 * n + 6) old_den)))) = [''den'', ''tv_room'']" by code_simp
qed

theorem same_slug_room_lost_witness:
  "\<exists>h'. migrate_rooms old_ext (\<lambda>n. 2 * n + 6)
      (empty_hub\<lparr>hb_areas := [(2, old_area 2 ''Den''), (rm_legacy_id old_ext ''den'', old_area (rm_legacy_id old_ext ''den'') ''den'')]\<rparr>) = (1, 0, h')
    \<and> list_areas h' = []"
proof (rule same_slug_room_lost)
  have s: "slug ''Den'' = ''den''" "slug ''den'' = ''den''" "2 < rm_legacy_id old_ext ''den''" by code_simp+
  then show "slug (ar_name (old_area 2 ''Den'')) \<noteq> []" "slug (ar_name (old_area (rm_legacy_id old_ext ''den'') ''den'')) = slug (ar_name (old_area 2 ''Den''))"
    "ar_id (old_area (rm_legacy_id old_ext ''den'') ''den'') = rm_legacy_id old_ext (slug (ar_name (old_area 2 ''Den'')))"
    by (simp_all add: old_area_def)
  show "areas_ok (empty_hub\<lparr>hb_areas := [(2, old_area 2 ''Den''), (rm_legacy_id old_ext ''den'', old_area (rm_legacy_id old_ext ''den'') ''den'')]\<rparr>)"
    using s(3) by (simp add: areas_ok_def old_area_def)
qed (simp_all add: list_areas_def old_area_def list_devices_def empty_hub_def)

end
