(* ===== verification/Glue_Theorems.thy ===== *)
theory Glue_Theorems
  imports Glue
begin

text \<open>
  What the helper devices promise: every handler changes its own device and announces what it
  changed, so that the announcements replay to what is stored; counters, numbers and selects stay
  within their declarations; groups count their members; the configuration only seeds.
\<close>

subsection \<open>What a handler may do\<close>

definition helper_write :: "string \<Rightarrow> hub \<Rightarrow> hub \<Rightarrow> bool" where
  "helper_write d h h' \<longleftrightarrow> h' = h \<or> (\<exists>now change mutate. h' = apply_state_update now d change mutate h)"

text \<open>The announcements of one device, each from where the one before it left off.\<close>

fun replay :: "string \<Rightarrow> (string \<rightharpoonup> json) \<Rightarrow> hub_event list \<Rightarrow> (string \<rightharpoonup> json) option" where
  "replay d m [] = Some m"
| "replay d m (HeDeviceStateChanged d' _ previous current _ _ # es) =
     (if d' \<noteq> d then replay d m es
      else if map_of previous = m then replay d (map_of current) es else None)"
| "replay d m (_ # es) = replay d m es"

lemma replay_append: "replay d m (es @ fs) = Option.bind (replay d m es) (\<lambda>m'. replay d m' fs)"
  by (induction d m es rule: replay.induct) auto

lemma changed_keys_none: "changed_keys previous current = [] \<longleftrightarrow> map_of previous = map_of current"
proof
  assume none: "changed_keys previous current = []"
  show "map_of previous = map_of current"
  proof
    fix k
    have "map_of previous k = map_of current k" if "k \<in> set (map fst current)"
      using none that by (auto simp: changed_keys_def filter_empty_conv)
    moreover have "k \<in> set (map fst current)" if "k \<in> set (map fst previous)"
      using none that by (auto simp: changed_keys_def filter_empty_conv map_of_eq_None_iff)
    ultimately show "map_of previous k = map_of current k"
      by (metis list.set_map map_of_eq_None_iff)
  qed
next
  assume eq: "map_of previous = map_of current"
  have "k \<in> fst ` set current" if "k \<in> fst ` set previous" for k
    using that eq map_of_eq_None_iff [of previous k] map_of_eq_None_iff [of current k] by simp
  then show "changed_keys previous current = []"
    by (auto simp: changed_keys_def filter_empty_conv map_of_eq_None_iff eq)
qed

text \<open>A device goes on as itself, and what was announced of it leads from its old to its new state.\<close>

definition followed :: "hub_event list \<Rightarrow> hub \<Rightarrow> hub \<Rightarrow> string \<Rightarrow> bool" where
  "followed new h h' d \<longleftrightarrow>
     (case get_device h d of
        None \<Rightarrow> get_device h' d = None
      | Some dev \<Rightarrow>
          \<exists>dev'. get_device h' d = Some dev' \<and> same_metadata dev dev'
            \<and> replay d (map_of (dv_attributes dev)) new = Some (map_of (dv_attributes dev')))"

lemma same_metadata_refl [simp]: "same_metadata d d"
  by (simp add: same_metadata_def)

lemma same_metadata_trans: "same_metadata a b \<Longrightarrow> same_metadata b c \<Longrightarrow> same_metadata a c"
  unfolding same_metadata_def by (cases a; cases b; cases c) auto

lemma followed_refl: "followed [] h h d"
  by (simp add: followed_def split: option.split)

lemma followed_trans:
  assumes "followed es h h1 d" "followed fs h1 h2 d"
  shows "followed (es @ fs) h h2 d"
proof (cases "get_device h d")
  case (Some dev)
  with assms(1) obtain dev1 where 1: "get_device h1 d = Some dev1" "same_metadata dev dev1"
    "replay d (map_of (dv_attributes dev)) es = Some (map_of (dv_attributes dev1))"
    by (auto simp: followed_def)
  with assms(2) obtain dev2 where "get_device h2 d = Some dev2" "same_metadata dev1 dev2"
    "replay d (map_of (dv_attributes dev1)) fs = Some (map_of (dv_attributes dev2))"
    by (auto simp: followed_def)
  with Some 1 show ?thesis by (auto simp: followed_def replay_append intro: same_metadata_trans)
qed (use assms in \<open>auto simp: followed_def\<close>)

text \<open>From one hub to another by announced changes.\<close>

definition announced :: "hub \<Rightarrow> hub \<Rightarrow> bool" where
  "announced h h' \<longleftrightarrow> (hub_ok h \<longrightarrow>
     hub_ok h' \<and> (\<exists>new. hb_published h' = hb_published h @ new \<and> (\<forall>d. followed new h h' d)))"

lemma announced_refl [simp]: "announced h h"
  by (auto simp: announced_def followed_refl)

lemma announced_trans: "announced h h1 \<Longrightarrow> announced h1 h2 \<Longrightarrow> announced h h2"
  unfolding announced_def by (clarsimp, blast intro: followed_trans)

lemma apply_state_update_known:
  assumes "hub_ok h" "get_device h d = Some dev"
  shows "\<exists>dev'. same_metadata dev dev' \<and> dv_attributes dev' = mutate (dv_attributes dev)
    \<and> get_device (apply_state_update now d change mutate h) = (get_device h)(d \<mapsto> dev')
    \<and> hub_ok (apply_state_update now d change mutate h)
    \<and> hb_published (apply_state_update now d change mutate h) = hb_published h
        @ (if map_of (dv_attributes dev) = map_of (dv_attributes dev') then []
           else [HeDeviceStateChanged d (Some (dv_name dev)) (dv_attributes dev) (dv_attributes dev')
                   (changed_keys (dv_attributes dev) (dv_attributes dev')) change])"
proof -
  let ?dev = "dev\<lparr>dv_attributes := mutate (dv_attributes dev), dv_last_seen := now, dv_last_change := Some change\<rparr>"
  have own: "dv_id dev = d" using reg.lookup_key assms by blast
  have "write_kind ?dev h = StateOnly" using own assms(2) by (simp add: write_kind_def same_metadata_def)
  then have "hb_published (upsert_device ?dev h) = hb_published h" by (simp add: upsert_device_def)
  moreover have "hub_ok (upsert_device ?dev h)" using assms(1) by (rule reg.wf_write)
  moreover have "hub_ok (publish e g) \<longleftrightarrow> hub_ok g" for e g by (simp add: hub_ok_def)
  ultimately show ?thesis
    using own assms(2)
    by (intro exI [of _ ?dev])
       (auto simp: same_metadata_def apply_state_update_def publish_state_change_def Let_def changed_keys_none,
        simp_all add: publish_def)
qed

lemma helper_write_announced:
  assumes "helper_write d h h'"
  shows "announced h h'"
proof (cases "h' = h")
  case False
  then obtain now change mutate where h': "h' = apply_state_update now d change mutate h"
    using assms by (auto simp: helper_write_def)
  show ?thesis
  proof (cases "get_device h d")
    case None
    then show ?thesis using False h' by (simp add: apply_state_update_def)
  next
    case (Some dev)
    show ?thesis
      unfolding announced_def
    proof
      assume ok: "hub_ok h"
      obtain dev' where dev': "same_metadata dev dev'" "get_device h' = (get_device h)(d \<mapsto> dev')" "hub_ok h'"
        "hb_published h' = hb_published h @ (if map_of (dv_attributes dev) = map_of (dv_attributes dev') then []
           else [HeDeviceStateChanged d (Some (dv_name dev)) (dv_attributes dev) (dv_attributes dev')
                   (changed_keys (dv_attributes dev) (dv_attributes dev')) change])"
        using apply_state_update_known [OF ok Some, where mutate = mutate and now = now and change = change] unfolding h' by blast
      then show "hub_ok h' \<and> (\<exists>new. hb_published h' = hb_published h @ new \<and> (\<forall>d. followed new h h' d))"
        using Some by (auto simp: followed_def split: option.splits)
    qed
  qed
qed simp

lemma write_other:
  assumes "helper_write e h h'" "hub_ok h" "d \<noteq> e"
  shows "get_device h' d = get_device h d"
  using assms
  by (cases "get_device h e")
     (auto simp: helper_write_def apply_state_update_def publish_state_change_def Let_def dest: reg.lookup_key)

text \<open>The contract of a handler, and what follows from it.\<close>

locale helper =
  fixes act :: "glue_ext \<Rightarrow> timestamp \<Rightarrow> string \<Rightarrow> json \<Rightarrow> hub \<Rightarrow> glue_result"
  assumes writes: "act x now d v h = Inr h' \<Longrightarrow> helper_write d h h'"
begin

lemma unknown_ignored: "act x now d v h = Inr h' \<Longrightarrow> get_device h d = None \<Longrightarrow> h' = h"
  by (auto dest!: writes simp: helper_write_def apply_state_update_def)

lemma others_kept: "act x now d v h = Inr h' \<Longrightarrow> hub_ok h \<Longrightarrow> e \<noteq> d \<Longrightarrow> get_device h' e = get_device h e"
  by (blast dest: writes intro: write_other)

end

lemma write_refl [simp]: "helper_write d h h"
  and write_apply [simp]: "helper_write d h (apply_state_update now d change mutate h)"
  by (auto simp: helper_write_def)

interpretation sw: helper switch_cmd
  by unfold_locales (auto simp: switch_cmd_def Let_def split: option.splits if_splits switch_command.splits)

interpretation ctr: helper counter_cmd
  by unfold_locales (auto simp: counter_cmd_def Let_def split: option.splits if_splits)

interpretation num: helper number_cmd
  by unfold_locales (auto simp: number_cmd_def Let_def split: option.splits if_splits)

interpretation sel: helper select_cmd
  by unfold_locales (auto simp: select_cmd_def Let_def split: option.splits if_splits)

lemma write_set_text [simp]: "helper_write d h (set_text x now d v s dev h)"
  by (simp add: set_text_def split: option.split)

interpretation textual: helper text_cmd
  by unfold_locales (auto simp: text_cmd_def try_bind_def split: option.splits sum.splits)

interpretation btn: helper button_cmd
  by unfold_locales (auto simp: button_cmd_def)

interpretation dtm: helper datetime_cmd
  by unfold_locales (auto simp: datetime_cmd_def split: option.splits)

lemma write_group [simp, intro]: "helper_write d h (group_recalculate now d h)"
  by (auto simp: group_recalculate_def Let_def split: option.split)

lemma write_threshold [simp, intro]: "helper_write d h (threshold_recalculate now d h)"
  by (auto simp: threshold_recalculate_def Let_def split: option.split)

lemma write_schedule [simp, intro]: "helper_write d h (schedule_recalculate x now d h)"
  by (auto simp: schedule_recalculate_def Let_def split: option.split prod.split)

interpretation grp: helper group_cmd
  by unfold_locales (auto simp: group_cmd_def)

subsection \<open>The manager keeps the contract\<close>

lemma handlers_helper: "(p, act) \<in> set glue_handlers \<Longrightarrow> helper act"
  by (auto simp: glue_handlers_def intro: sw.helper_axioms ctr.helper_axioms num.helper_axioms sel.helper_axioms
      textual.helper_axioms btn.helper_axioms dtm.helper_axioms grp.helper_axioms)

definition is_reload :: "glue_input \<Rightarrow> bool" where
  "is_reload i = (case i of GiReload _ \<Rightarrow> True | _ \<Rightarrow> False)"

text \<open>What every write of a helper keeps, the manager keeps.\<close>

locale kept_by_writes =
  fixes R :: "hub \<Rightarrow> hub \<Rightarrow> bool"
  assumes R_refl: "R h h"
    and R_trans: "R h h1 \<Longrightarrow> R h1 h2 \<Longrightarrow> R h h2"
    and R_write: "helper_write d h h' \<Longrightarrow> R h h'"
begin

lemma R_fold: "(\<And>d h. R h (f d h)) \<Longrightarrow> R h (fold f ds h)"
  by (induction ds arbitrary: h) (auto intro: R_refl R_trans)

lemma R_dispatch:
  "\<forall>(p, act) \<in> set hs. helper act \<Longrightarrow> dispatch_to hs x now topic payload h = Inr h' \<Longrightarrow> R h h'"
  by (induction hs x now topic payload h rule: dispatch_to.induct)
     (auto split: option.splits dest: helper.writes intro: R_refl R_write)

lemma R_event:
  assumes "glue_event x now e h = Inr h'"
  shows "R h h'"
proof -
  have "R h (recalculate_dependents now d h)" for d
    unfolding recalculate_dependents_def
    by (rule R_fold) (auto simp: recalculate_dependent_def intro: R_write)
  moreover have "\<forall>(p, act) \<in> set glue_handlers. helper act" using handlers_helper by auto
  note R_dispatch [OF this]
  ultimately show ?thesis
    using assms R_refl by (auto simp: glue_event_def glue_message_def split: event.splits if_splits)
qed

lemma R_tick: "R h (tick_schedules x now h)"
  unfolding tick_schedules_def by (rule R_fold) (auto intro: R_write)

lemma R_step: "\<not> is_reload i \<Longrightarrow> \<exists>r. glue_step x now i h = Some r \<and> (\<forall>h'. r = Inr h' \<longrightarrow> R h h')"
  by (cases i) (auto simp: glue_step_def is_reload_def R_tick intro: R_event)

lemma R_loop:
  "list_all (\<lambda>(now, i). \<not> is_reload i) is \<Longrightarrow> \<exists>h' p. glue_loop x is h = Some (h', p) \<and> R h h'"
proof (induction x "is" h rule: glue_loop.induct)
  case (2 x now i "is" h)
  then obtain r where r: "glue_step x now i h = Some r" "\<And>h'. r = Inr h' \<Longrightarrow> R h h'"
    using R_step [of i x now h] by auto
  with 2 show ?case by (cases r) (auto intro: R_refl, meson R_trans)
qed (simp add: R_refl)

end

interpretation ann: kept_by_writes announced
  by unfold_locales (auto intro: announced_trans helper_write_announced)

text \<open>
  C13. While its configuration is not reloaded, the helper manager changes no device silently: it
  creates and removes none, leaves names, rooms and types alone, and for every device the changes it
  announces, taken in order and each starting where the one before it ended, lead exactly from the
  attributes stored before to those stored after.
\<close>

theorem announced_changes_replay:
  assumes "hub_ok h" and "list_all (\<lambda>(now, i). \<not> is_reload i) is"
  shows "\<exists>h' p new. glue_loop x is h = Some (h', p) \<and> hb_published h' = hb_published h @ new
    \<and> dom (get_device h') = dom (get_device h)
    \<and> (\<forall>d dev. get_device h d = Some dev \<longrightarrow>
        (\<exists>dev'. get_device h' d = Some dev' \<and> same_metadata dev dev'
          \<and> replay d (map_of (dv_attributes dev)) new = Some (map_of (dv_attributes dev'))))"
proof -
  obtain h' p new where run: "glue_loop x is h = Some (h', p)" "hb_published h' = hb_published h @ new"
    "\<And>d. followed new h h' d"
    using ann.R_loop [OF assms(2), of x h] assms(1) by (auto simp: announced_def)
  have "get_device h' d = None \<longleftrightarrow> get_device h d = None" for d
    using run(3) [of d] by (auto simp: followed_def split: option.splits)
  then have "dom (get_device h') = dom (get_device h)" by (auto simp: dom_def)
  moreover have "\<exists>dev'. get_device h' d = Some dev' \<and> same_metadata dev dev'
      \<and> replay d (map_of (dv_attributes dev)) new = Some (map_of (dv_attributes dev'))" if "get_device h d = Some dev" for d dev
    using run(3) [of d] that by (simp add: followed_def)
  ultimately show ?thesis using run(1,2) by blast
qed

subsection \<open>Devices stay as they were declared\<close>

text \<open>A handler's message reaches the devices with its prefix and no others.\<close>

lemma dispatch_cases:
  "dispatch_to hs x now topic payload h = Inr h' \<Longrightarrow>
     h' = h \<or> (\<exists>q act d v. (q, act) \<in> set hs \<and> parse_glue_cmd_topic topic q = Some d \<and> act x now d v h = Inr h')"
  by (induction hs x now topic payload h rule: dispatch_to.induct) (auto split: option.splits)

lemma parse_topic_prefix: "parse_glue_cmd_topic topic q = Some d \<Longrightarrow> starts_with q d"
  by (auto simp: parse_glue_cmd_topic_def split: list.splits if_splits)

definition glue_prefixes :: "string list" where
  "glue_prefixes = map fst glue_handlers @ [''threshold_'', ''schedule_'']"

lemma prefix_read: "q \<in> set glue_prefixes \<Longrightarrow> starts_with q d \<Longrightarrow> q = takeWhile (\<lambda>c. c \<noteq> CHR ''_'') d @ ''_''"
  by (auto simp: glue_prefixes_def glue_handlers_def starts_with_iff)

lemma prefix_decides:
  "q \<in> set glue_prefixes \<Longrightarrow> r \<in> set glue_prefixes \<Longrightarrow> starts_with q d \<Longrightarrow> starts_with r d \<Longrightarrow> q = r"
  by (metis prefix_read)

lemma handler_prefix: "(q, act) \<in> set glue_handlers \<Longrightarrow> q \<in> set glue_prefixes"
  by (force simp: glue_prefixes_def)

lemma prefixes_known:
  "''group_'' \<in> set glue_prefixes" "''threshold_'' \<in> set glue_prefixes" "''schedule_'' \<in> set glue_prefixes"
  by (simp_all add: glue_prefixes_def glue_handlers_def)

lemma handler_unique: "(q, act) \<in> set glue_handlers \<Longrightarrow> (q, act') \<in> set glue_handlers \<Longrightarrow> act = act'"
  by (auto simp: glue_handlers_def)

text \<open>
  The devices of one prefix, and a property of theirs that their handler keeps: the manager as a
  whole keeps it.
\<close>

locale owned = helper +
  fixes prefix :: string and good :: "device \<Rightarrow> bool"
  assumes registered: "(prefix, act) \<in> set glue_handlers"
    and active_only: "prefix \<noteq> ''group_''"
    and keeps: "hub_ok h \<Longrightarrow> get_device h d = Some dev \<Longrightarrow> good dev \<Longrightarrow> act x now d v h = Inr h' \<Longrightarrow>
      get_device h' d = Some dev' \<Longrightarrow> good dev'"
begin

definition all_good :: "hub \<Rightarrow> bool" where
  "all_good h \<longleftrightarrow> (\<forall>d dev. starts_with prefix d \<longrightarrow> get_device h d = Some dev \<longrightarrow> good dev)"

lemma other_write:
  assumes "hub_ok h" "helper_write e h h'" "\<not> starts_with prefix e" "all_good h"
  shows "all_good h'"
proof -
  have "get_device h' d = get_device h d" if "starts_with prefix d" for d
    using write_other [OF assms(2,1), of d] that assms(3) by blast
  then show ?thesis using assms(4) by (auto simp: all_good_def)
qed

lemma own_prefix: "q \<in> set glue_prefixes \<Longrightarrow> starts_with q d \<Longrightarrow> starts_with prefix d \<Longrightarrow> q = prefix"
  using prefix_decides handler_prefix [OF registered] by blast

lemma message_keeps:
  assumes "hub_ok h" "all_good h" "glue_message x now topic payload h = Inr h'"
  shows "all_good h'"
proof (cases "h' = h")
  case False
  then obtain q act' d v where by_handler: "(q, act') \<in> set glue_handlers" "starts_with q d" "act' x now d v h = Inr h'"
    using dispatch_cases parse_topic_prefix assms(3) unfolding glue_message_def by metis
  show ?thesis
  proof (cases "starts_with prefix d")
    case True
    then have "q = prefix" using own_prefix handler_prefix [OF by_handler(1)] by_handler(2) by blast
    then have "act' = act" using handler_unique registered by_handler(1) by blast
    with by_handler(3) show ?thesis
      using assms(1,2) keeps others_kept unknown_ignored unfolding all_good_def by (metis option.exhaust)
  qed (use other_write [OF assms(1) helper.writes [OF handlers_helper [OF by_handler(1)] by_handler(3)]] assms(2) in blast)
qed (use assms in simp)

lemma fold_keeps:
  assumes "\<And>d h. helper_write (dv_id d) h (f d h)" "\<And>d h. starts_with prefix (dv_id d) \<Longrightarrow> f d h = h"
  shows "hub_ok h \<Longrightarrow> all_good h \<Longrightarrow> all_good (fold f ds h)"
proof (induction ds arbitrary: h)
  case (Cons d ds)
  have "hub_ok (f d h)" using helper_write_announced [OF assms(1)] Cons.prems(1) by (auto simp: announced_def)
  moreover have "all_good (f d h)"
    using Cons.prems other_write [OF _ assms(1)] assms(2) by (cases "starts_with prefix (dv_id d)") auto
  ultimately show ?case using Cons.IH by simp
qed simp

lemma foreign [simp]:
  "starts_with prefix d \<Longrightarrow> \<not> starts_with ''group_'' d" "starts_with prefix d \<Longrightarrow> \<not> starts_with ''threshold_'' d"
  "starts_with prefix d \<Longrightarrow> \<not> starts_with ''schedule_'' d"
  using own_prefix [OF prefixes_known(1)] own_prefix [OF prefixes_known(2)] own_prefix [OF prefixes_known(3)] active_only registered
  by (auto simp: glue_handlers_def)

lemma step_keeps:
  assumes "hub_ok h" "all_good h" "glue_step x now i h = Some (Inr h')" "\<not> is_reload i"
  shows "all_good h'"
proof -
  have "all_good (recalculate_dependents now d h)" for d
    unfolding recalculate_dependents_def by (rule fold_keeps) (auto simp: recalculate_dependent_def assms)
  moreover have "all_good (tick_schedules x now h)"
    unfolding tick_schedules_def by (rule fold_keeps) (auto simp: assms)
  ultimately show ?thesis
    using assms message_keeps [OF assms(1,2)]
    by (auto simp: glue_step_def glue_event_def is_reload_def split: glue_input.splits event.splits if_splits)
qed

lemma manager_keeps:
  "hub_ok h \<Longrightarrow> all_good h \<Longrightarrow> list_all (\<lambda>(now, i). \<not> is_reload i) is \<Longrightarrow> glue_loop x is h = Some (h', p) \<Longrightarrow> all_good h'"
proof (induction x "is" h rule: glue_loop.induct)
  case (2 x now i "is" h)
  obtain r where r: "glue_step x now i h = Some r"
    using "2.prems"(4) by (cases "glue_step x now i h") auto
  show ?case
  proof (cases r)
    case (Inr h1)
    have "announced h h1"
      using r Inr "2.prems"(3)
      by (cases i) (auto simp: glue_step_def is_reload_def ann.R_tick intro: ann.R_event)
    then have "hub_ok h1" using "2.prems"(1) by (simp add: announced_def)
    moreover have "all_good h1" using step_keeps "2.prems" r Inr by auto
    ultimately show ?thesis using "2.IH" [OF r Inr] "2.prems"(3,4) r Inr by auto
  qed (use r "2.prems" in simp)
qed simp

end

text \<open>What a counter, a number, a select and a text promise of their attributes.\<close>

definition int_attr :: "device \<Rightarrow> string \<Rightarrow> int option" where
  "int_attr d k = Option.bind (attr d k) as_i64"

definition f64_attr :: "device \<Rightarrow> string \<Rightarrow> f64 option" where
  "f64_attr d k = Option.bind (attr d k) as_f64"

definition str_attr :: "device \<Rightarrow> string \<Rightarrow> string" where
  "str_attr d k = unwrap_or (Option.bind (attr d k) as_str) []"

definition counter_ok :: "device \<Rightarrow> bool" where
  "counter_ok d =
     (let c = unwrap_or (int_attr d ''count'') 0; st = unwrap_or (int_attr d ''step'') 1 in
      case (int_attr d ''min'', int_attr d ''max'') of
        (Some mn, Some mx) \<Rightarrow> mn \<le> c \<and> c \<le> mx \<and> 0 \<le> st \<and> - (2 ^ 63) \<le> mn - st \<and> mx + st < 2 ^ 63
      | _ \<Rightarrow> True)"

definition number_ok :: "device \<Rightarrow> bool" where
  "number_ok d =
     (case (f64_attr d ''min'', f64_attr d ''max'') of
        (Some (Fin mn), Some (Fin mx)) \<Rightarrow>
          (case unwrap_or (f64_attr d ''value'') (Fin 0) of Fin v \<Rightarrow> mn \<le> v \<and> v \<le> mx | _ \<Rightarrow> False)
      | _ \<Rightarrow> True)"

definition select_ok :: "device \<Rightarrow> bool" where
  "select_ok d =
     (let options = strings_of (attr d ''options'') in options = [] \<or> str_attr d ''selected'' \<in> set options)"

definition text_ok :: "device \<Rightarrow> bool" where
  "text_ok d =
     (case Option.bind (attr d ''max_length'') as_u64 of None \<Rightarrow> True | Some n \<Rightarrow> length (str_attr d ''value'') \<le> n)"

lemma attr_insert: "attr (d\<lparr>dv_attributes := obj_insert k v (dv_attributes d)\<rparr>) k' = (if k' = k then Some v else attr d k')"
  by (simp add: attr_def)

lemma updated_reads:
  assumes "hub_ok h" "get_device h d = Some dev" "map_of (mutate (dv_attributes dev)) k = Some v"
  shows "\<exists>dev'. get_device (apply_state_update now d change mutate h) d = Some dev' \<and> attr dev' k = Some v"
  using apply_state_update_known [OF assms(1,2), where mutate = mutate and now = now and change = change] assms(3)
  by (auto simp: attr_def)

lemma updated_device:
  assumes "hub_ok h" "get_device h d = Some dev"
    and "get_device (apply_state_update now d change mutate h) d = Some dev'"
  shows "attr dev' k = map_of (mutate (dv_attributes dev)) k"
  using apply_state_update_known [OF assms(1,2), where mutate = mutate and now = now and change = change] assms(3)
  by (auto simp: attr_def)

lemma unwrap_or_simps [simp]: "unwrap_or (Some a) b = a" "unwrap_or None b = b"
  by (simp_all add: unwrap_or_def)

lemma wrap_i64_small: "- (2 ^ 63) \<le> i \<Longrightarrow> i < 2 ^ 63 \<Longrightarrow> wrap_i64 i = i"
  by (simp add: wrap_i64_def)

lemma as_i64_json_int: "i < 2 ^ 63 \<Longrightarrow> as_i64 (json_int i) = Some i"
  by (simp add: as_i64_def json_int_def nat_less_iff)

lemma counter_new_within:
  assumes "counter_new cmd v c st (Some mn) (Some mx) = Some c'" "mn \<le> c" "c \<le> mx" "0 \<le> st"
    and "- (2 ^ 63) \<le> mn - st" "mx + st < 2 ^ 63"
  shows "mn \<le> c' \<and> c' \<le> mx"
proof -
  have "wrap_i64 (c + st) = c + st" "wrap_i64 (c - st) = c - st"
    using assms(2-) by (auto intro!: wrap_i64_small)
  then show ?thesis using assms by (auto simp: counter_new_def Let_def split: if_splits)
qed

interpretation counters: owned counter_cmd "''counter_''" counter_ok
proof
  fix h d dev x now v h' dev'
  assume a: "hub_ok h" "get_device h d = Some dev" "counter_ok dev" "counter_cmd x now d v h = Inr h'"
    "get_device h' d = Some dev'"
  show "counter_ok dev'"
  proof (cases "h' = h")
    case False
    with a obtain cmd c where c: "counter_new cmd v (unwrap_or (int_attr dev ''count'') 0) (unwrap_or (int_attr dev ''step'') 1)
        (int_attr dev ''min'') (int_attr dev ''max'') = Some c"
      and h': "h' = apply_state_update now d (change_of x now v) (obj_insert ''count'' (json_int c)) h"
      by (auto simp: counter_cmd_def Let_def int_attr_def split: option.splits if_splits)
    have k: "attr dev' k = (if k = ''count'' then Some (json_int c) else attr dev k)" for k
      using updated_device [OF a(1,2)] a(5) unfolding h' by (simp add: attr_def)
    show ?thesis
    proof (cases "int_attr dev ''min'' = None \<or> int_attr dev ''max'' = None")
      case True
      then show ?thesis by (auto simp: counter_ok_def int_attr_def k split: option.splits)
    next
      case False
      then obtain mn mx where m: "int_attr dev ''min'' = Some mn" "int_attr dev ''max'' = Some mx" by auto
      have ok: "mn \<le> c \<and> c \<le> mx"
        using counter_new_within [OF c [unfolded m]] a(3) m by (simp add: counter_ok_def Let_def)
      moreover have "c < 2 ^ 63" using a(3) m ok by (simp add: counter_ok_def Let_def)
      ultimately show ?thesis
        using a(3) m by (simp add: counter_ok_def Let_def int_attr_def k as_i64_json_int)
    qed
  qed (use a in simp)
qed (simp_all add: glue_handlers_def)

lemma clamp_between:
  assumes "mn \<le> mx"
  shows "\<exists>q. clamp_f64 (Some (Fin mn)) (Some (Fin mx)) v = Fin q \<and> mn \<le> q \<and> q \<le> mx"
  using assms by (cases v) (auto simp: clamp_f64_def f64_max_def f64_min_def is_nan_def Let_def f64_lt_def split: if_splits)

lemma number_new_within:
  assumes "number_new cmd v c st (Some (Fin mn)) (Some (Fin mx)) = Some c'" "mn \<le> mx"
  shows "\<exists>q. c' = Fin q \<and> mn \<le> q \<and> q \<le> mx"
  using assms clamp_between by (auto simp: number_new_def split: if_splits)

interpretation numbers: owned number_cmd "''number_''" number_ok
proof
  fix h d dev x now v h' dev'
  assume a: "hub_ok h" "get_device h d = Some dev" "number_ok dev" "number_cmd x now d v h = Inr h'"
    "get_device h' d = Some dev'"
  show "number_ok dev'"
  proof (cases "h' = h")
    case False
    with a obtain cmd c where c: "number_new cmd v (unwrap_or (f64_attr dev ''value'') (Fin 0))
        (unwrap_or (f64_attr dev ''step'') (Fin 1)) (f64_attr dev ''min'') (f64_attr dev ''max'') = Some c"
      and h': "h' = apply_state_update now d (change_of x now v) (obj_insert ''value'' (json_f64 c)) h"
      by (auto simp: number_cmd_def Let_def f64_attr_def split: option.splits if_splits)
    have k: "attr dev' k = (if k = ''value'' then Some (json_f64 c) else attr dev k)" for k
      using updated_device [OF a(1,2)] a(5) unfolding h' by (simp add: attr_def)
    show ?thesis
    proof (cases "\<exists>mn mx. f64_attr dev ''min'' = Some (Fin mn) \<and> f64_attr dev ''max'' = Some (Fin mx)")
      case True
      then obtain mn mx where m: "f64_attr dev ''min'' = Some (Fin mn)" "f64_attr dev ''max'' = Some (Fin mx)" by auto
      then have "mn \<le> mx" using a(3) by (auto simp: number_ok_def split: f64.splits)
      then obtain q where "c = Fin q" "mn \<le> q" "q \<le> mx" using number_new_within [OF c [unfolded m]] by blast
      with m show ?thesis by (simp add: number_ok_def f64_attr_def k json_f64_def from_f64_def is_finite_def)
    qed (auto simp: number_ok_def f64_attr_def k split: option.splits f64.splits)
  qed (use a in simp)
qed (simp_all add: glue_handlers_def)

lemma position_bound: "position a xs = Some i \<Longrightarrow> i < length xs \<and> xs ! i = a"
  by (induction xs arbitrary: i) (auto split: if_splits)

lemma select_new_within: "options \<noteq> [] \<Longrightarrow> select_new cmd v c options = Some s \<Longrightarrow> s \<in> set options"
  by (auto simp: select_new_def Let_def split: if_splits option.splits dest!: position_bound intro!: nth_mem)

interpretation selects: owned select_cmd "''select_''" select_ok
proof
  fix h d dev x now v h' dev'
  assume a: "hub_ok h" "get_device h d = Some dev" "select_ok dev" "select_cmd x now d v h = Inr h'"
    "get_device h' d = Some dev'"
  show "select_ok dev'"
  proof (cases "h' = h")
    case False
    let ?options = "strings_of (attr dev ''options'')"
    from False a obtain cmd s where s: "select_new cmd v (str_attr dev ''selected'') ?options = Some s" "?options \<noteq> []"
      and h': "h' = apply_state_update now d (change_of x now v) (obj_insert ''selected'' (JStr s)) h"
      by (auto simp: select_cmd_def Let_def str_attr_def split: option.splits if_splits)
    have "attr dev' k = (if k = ''selected'' then Some (JStr s) else attr dev k)" for k
      using updated_device [OF a(1,2)] a(5) unfolding h' by (simp add: attr_def)
    then show ?thesis using select_new_within [OF s(2,1)] by (simp add: select_ok_def str_attr_def Let_def)
  qed (use a in simp)
qed (simp_all add: glue_handlers_def)

lemma text_new_within: "text_new cmd v (Some n) = Inr (Some s) \<Longrightarrow> length s \<le> n"
  by (auto simp: text_new_def str_truncate_def Let_def split: if_splits option.splits)

interpretation texts: owned text_cmd "''text_''" text_ok
proof
  fix h d dev x now v h' dev'
  assume a: "hub_ok h" "get_device h d = Some dev" "text_ok dev" "text_cmd x now d v h = Inr h'"
    "get_device h' d = Some dev'"
  show "text_ok dev'"
  proof (cases "h' = h")
    case False
    with a obtain cmd s where s: "text_new cmd v (Option.bind (attr dev ''max_length'') as_u64) = Inr (Some s)"
      and h': "h' = apply_state_update now d (change_of x now v) (obj_insert ''value'' (JStr s)) h"
      by (auto simp: text_cmd_def try_bind_eq_Inr set_text_def split: option.splits if_splits)
    have "attr dev' k = (if k = ''value'' then Some (JStr s) else attr dev k)" for k
      using updated_device [OF a(1,2)] a(5) unfolding h' by (simp add: attr_def)
    then show ?thesis using s by (auto simp: text_ok_def str_attr_def split: option.splits dest: text_new_within)
  qed (use a in simp)
qed (simp_all add: glue_handlers_def)

definition helper_ok :: "device \<Rightarrow> bool" where
  "helper_ok d \<longleftrightarrow>
     (starts_with ''counter_'' (dv_id d) \<longrightarrow> counter_ok d) \<and> (starts_with ''number_'' (dv_id d) \<longrightarrow> number_ok d)
     \<and> (starts_with ''select_'' (dv_id d) \<longrightarrow> select_ok d) \<and> (starts_with ''text_'' (dv_id d) \<longrightarrow> text_ok d)"

lemma all_helpers_ok:
  assumes "hub_ok h"
  shows "list_all helper_ok (list_devices h) \<longleftrightarrow>
    counters.all_good h \<and> numbers.all_good h \<and> selects.all_good h \<and> texts.all_good h"
proof -
  have "list_all helper_ok (list_devices h) \<longleftrightarrow> (\<forall>d dev. get_device h d = Some dev \<longrightarrow> helper_ok dev)"
    using assms reg.listing_lookup reg.lookup_key by (metis list_all_iff)
  also have "\<dots> \<longleftrightarrow> counters.all_good h \<and> numbers.all_good h \<and> selects.all_good h \<and> texts.all_good h"
    using reg.lookup_key [OF assms]
    unfolding helper_ok_def counters.all_good_def numbers.all_good_def selects.all_good_def texts.all_good_def by blast
  finally show ?thesis .
qed

text \<open>
  C14. If the helpers are sound at the start and the configuration is not reloaded, they stay sound
  whatever commands, events and ticks reach the helper manager, in whatever order: a counter that has both
  bounds stays between them (where a step from either does not leave the 64-bit integers; without the other bound
  the count can overflow past the one it has), a number that has both bounds between them, a select at
  one of its options, a text no longer than its limit.
\<close>

theorem helpers_stay_declared:
  assumes "hub_ok h" and "list_all helper_ok (list_devices h)"
    and "list_all (\<lambda>(now, i). \<not> is_reload i) is"
  shows "\<exists>h' p. glue_loop x is h = Some (h', p) \<and> list_all helper_ok (list_devices h')"
proof -
  obtain h' p where run: "glue_loop x is h = Some (h', p)" "announced h h'"
    using ann.R_loop [OF assms(3)] by blast
  then have "hub_ok h'" using assms(1) by (simp add: announced_def)
  moreover have "counters.all_good h" "numbers.all_good h" "selects.all_good h" "texts.all_good h"
    using all_helpers_ok [OF assms(1)] assms(2) by simp_all
  note counters.manager_keeps [OF assms(1) this(1) assms(3) run(1)] numbers.manager_keeps [OF assms(1) this(2) assms(3) run(1)]
    selects.manager_keeps [OF assms(1) this(3) assms(3) run(1)] texts.manager_keeps [OF assms(1) this(4) assms(3) run(1)]
  ultimately show ?thesis using run(1) all_helpers_ok by blast
qed

text \<open>A counter at its upper bound, a select and a text of at most five bytes.\<close>

definition helper_device :: "string \<Rightarrow> string \<Rightarrow> attrs \<Rightarrow> device" where
  "helper_device device_id t a =
     (device_new 0 device_id device_id GLUE_PLUGIN_ID)\<lparr>dv_device_type := Some t, dv_attributes := a\<rparr>"

definition helper_hub :: hub where
  "helper_hub = empty_hub\<lparr>hb_devices :=
     map (\<lambda>d. (dv_id d, d))
      [helper_device ''counter_a'' ''counter''
         [(''count'', json_int 10), (''max'', json_int 10), (''min'', json_int 0), (''step'', json_int 3)],
       helper_device ''select_a'' ''select''
         [(''options'', JArr [JStr ''Home'', JStr ''Away'']), (''selected'', JStr ''Home'')],
       helper_device ''text_a'' ''text'' [(''max_length'', json_int 5), (''value'', JStr [])]]\<rparr>"

definition sample_glue :: glue_ext where
  "sample_glue =
     \<lparr>gx = \<lparr>tx_parse_json = (\<lambda>b. if b = ''up'' then Some (JObj [(''command'', JStr ''increment'')])
           else if b = ''next'' then Some (JObj [(''command'', JStr ''next'')])
           else if b = ''long'' then Some (JObj [(''value'', JStr ([CHR ''a'', CHR ''b'', CHR ''c'', CHR ''d'', CHR 0xC3, CHR 0xA9, CHR ''e'']))])
           else None),
         tx_timer_command = (\<lambda>_. None), tx_device_change = (\<lambda>_. None), tx_parse_rfc3339 = (\<lambda>_. None),
         tx_to_rfc3339 = (\<lambda>_. [])\<rparr>,
      gx_switch_command = (\<lambda>_. None), gx_local = (\<lambda>_. (Mon, 8, 0))\<rparr>"

definition cmd_topic :: "string \<Rightarrow> string" where
  "cmd_topic d = ''homecore/devices/'' @ d @ ''/cmd''"

definition message_to :: "string \<Rightarrow> bytes \<Rightarrow> timestamp \<times> glue_input" where
  "message_to d b = (0, GiEvent (EvMqttMessage (cmd_topic d) b False))"

lemma helper_hub_ok: "hub_ok helper_hub"
  by (simp add: hub_ok_def helper_hub_def helper_device_def device_new_def less_char_def)

theorem helpers_stay_declared_witness:
  "\<exists>h' p. glue_loop sample_glue [message_to ''counter_a'' ''up'', message_to ''select_a'' ''next''] helper_hub = Some (h', p)
     \<and> list_all helper_ok (list_devices h')"
proof (rule helpers_stay_declared)
  show "list_all helper_ok (list_devices helper_hub)"
    by (simp add: helper_hub_def list_devices_def helper_device_def device_new_def helper_ok_def starts_with_def
        counter_ok_def select_ok_def text_ok_def int_attr_def str_attr_def attr_def strings_of_def as_array_def
        json_int_def as_i64_def List.map_filter_def)
qed (simp_all add: helper_hub_ok message_to_def is_reload_def)

theorem announced_changes_replay_witness:
  "\<exists>h' p new. glue_loop sample_glue [message_to ''counter_a'' ''up'', message_to ''select_a'' ''next''] helper_hub = Some (h', p)
     \<and> hb_published h' = hb_published helper_hub @ new \<and> dom (get_device h') = dom (get_device helper_hub)"
  using announced_changes_replay [of helper_hub "[message_to ''counter_a'' ''up'', message_to ''select_a'' ''next'']" sample_glue]
  by (auto simp: helper_hub_ok message_to_def is_reload_def)

subsection \<open>A panic ends the manager\<close>

lemma parse_glue_topic:
  assumes "CHR ''/'' \<notin> set d"
  shows "parse_glue_cmd_topic (cmd_topic d) prefix = (if starts_with prefix d then Some d else None)"
proof -
  have topic: "cmd_topic d = join_with ''/'' [''homecore'', ''devices'', d, ''cmd'']" by (simp add: cmd_topic_def)
  have "split_on CHR ''/'' (cmd_topic d) = [''homecore'', ''devices'', d, ''cmd'']"
    unfolding topic by (rule split_join) (use assms in auto)
  then show ?thesis by (simp add: parse_glue_cmd_topic_def)
qed

lemma dispatch_first:
  assumes "CHR ''/'' \<notin> set d" "starts_with q d"
  shows "(q, act) \<in> set hs \<Longrightarrow> (\<And>r a. (r, a) \<in> set hs \<Longrightarrow> starts_with r d \<Longrightarrow> r = q \<and> a = act) \<Longrightarrow>
    dispatch_to hs x now (cmd_topic d) payload h = (case payload of None \<Rightarrow> Inr h | Some v \<Rightarrow> act x now d v h)"
proof (induction hs)
  case (Cons ra hs)
  obtain r a where [simp]: "ra = (r, a)" by fastforce
  show ?case
  proof (cases "starts_with r d")
    case True
    then show ?thesis using Cons.prems(2) [of r a] by (simp add: parse_glue_topic [OF assms(1)])
  next
    case False
    then have "(q, act) \<in> set hs" using Cons.prems(1) assms(2) by auto
    then have "dispatch_to hs x now (cmd_topic d) payload h = (case payload of None \<Rightarrow> Inr h | Some v \<Rightarrow> act x now d v h)"
      by (rule Cons.IH) (use Cons.prems(2) in auto)
    with False show ?thesis by (simp add: parse_glue_topic [OF assms(1)])
  qed
qed simp

lemma dispatch_one:
  assumes "CHR ''/'' \<notin> set d" "starts_with q d" "(q, act) \<in> set glue_handlers"
  shows "glue_message x now (cmd_topic d) payload h =
    (case map_option action_as_command (tx_parse_json (gx x) payload) of None \<Rightarrow> Inr h | Some v \<Rightarrow> act x now d v h)"
  unfolding glue_message_def
  by (rule dispatch_first [OF assms]) (use assms prefix_decides handler_prefix handler_unique in blast)+

text \<open>
  A text helper with a limit on its bytes stops the whole helper manager when the limit falls
  inside a character: the handler panics before it writes anything, and no message, tick or reload
  after it has any effect, on any helper.
\<close>

theorem long_text_stops_manager:
  assumes "get_device h d = Some dev" and "starts_with ''text_'' d" and "CHR ''/'' \<notin> set d"
    and "Option.bind (attr dev ''max_length'') as_u64 = Some n"
    and "tx_parse_json (gx x) payload = Some (JObj kvs)"
    and "map_of kvs ''command'' = None" and "map_of kvs ''action'' = None" and "map_of kvs ''value'' = Some (JStr s)"
    and "n \<le> length s" and "\<not> is_char_boundary s n"
  shows "glue_loop x ((now, GiEvent (EvMqttMessage (cmd_topic d) payload retain)) # later) h =
    Some (h, Some ''truncate: not a char boundary'')"
proof -
  have "(''text_'', text_cmd) \<in> set glue_handlers" by (simp add: glue_handlers_def)
  from dispatch_one [OF assms(3,2) this]
  have "glue_message x now (cmd_topic d) payload h = text_cmd x now d (JObj kvs) h"
    by (simp add: assms action_as_command_def)
  also have "\<dots> = Inl ''truncate: not a char boundary''"
    using assms by (simp add: text_cmd_def set_or_command_def command_of_def text_new_def str_truncate_def Let_def)
  finally show ?thesis by (simp add: glue_step_def glue_event_def)
qed

theorem long_text_stops_manager_witness:
  "glue_loop sample_glue (message_to ''text_a'' ''long'' # [message_to ''counter_a'' ''up'']) helper_hub =
     Some (helper_hub, Some ''truncate: not a char boundary'')"
  unfolding message_to_def
  by (rule long_text_stops_manager [where n = 5 and s = "[CHR ''a'', CHR ''b'', CHR ''c'', CHR ''d'', CHR 0xC3, CHR 0xA9, CHR ''e'']"
        and kvs = "[(''value'', JStr [CHR ''a'', CHR ''b'', CHR ''c'', CHR ''d'', CHR 0xC3, CHR 0xA9, CHR ''e''])]"
        and dev = "helper_device ''text_a'' ''text'' [(''max_length'', json_int 5), (''value'', JStr [])]"])
     (simp_all add: helper_hub_def get_device_def helper_device_def device_new_def starts_with_def attr_def json_int_def
        as_u64_def sample_glue_def is_char_boundary_def byte_def)

subsection \<open>Groups and thresholds\<close>

text \<open>
  A recalculated group is on exactly when some member matches, or, for a group of mode
  \<open>all\<close>, when it has members and all of them match; a member is found by its id or by its
  canonical name, and matches when the attribute reads as expected.
\<close>

theorem group_reads_its_members:
  assumes "hub_ok h" and "get_device h g = Some dev"
  shows "\<exists>dev'. get_device (group_recalculate now g h) g = Some dev'
    \<and> (let members = strings_of (attr dev ''member_ids'');
           ok = member_matches (list_devices h) (unwrap_or (Option.bind (attr dev ''attribute'') as_str) ''on'')
                  (unwrap_or (Option.bind (attr dev ''expect'') as_bool) True) in
       attr dev' ''on'' = Some (JBool
         (if Option.bind (attr dev ''mode'') as_str = Some ''all''
          then members \<noteq> [] \<and> list_all ok members else list_ex ok members)))"
proof -
  have all: "length (filter P xs) = length xs \<and> 0 < length xs \<longleftrightarrow> xs \<noteq> [] \<and> list_all P xs" for P and xs :: "string list"
    using sum_length_filter_compl [of P xs] by (auto simp: list_all_iff filter_empty_conv)
  have some: "0 < length (filter P xs) \<longleftrightarrow> list_ex P xs" for P and xs :: "string list"
    by (induction xs) auto
  have mode: "unwrap_or m ''any'' = ''all'' \<longleftrightarrow> m = Some ''all''" for m
    by (simp add: unwrap_or_def split: option.split)
  show ?thesis
    unfolding group_recalculate_def assms(2) option.case Let_def all some mode
    by (rule updated_reads [OF assms]) simp
qed

definition group_hub :: hub where
  "group_hub = empty_hub\<lparr>hb_devices :=
     map (\<lambda>d. (dv_id d, d))
      [helper_device ''door'' ''contact_sensor'' [(''open'', JBool True)],
       helper_device ''group_doors'' ''group''
         [(''attribute'', JStr ''open''), (''member_ids'', JArr [JStr ''door'']), (''on'', JBool False)]]\<rparr>"

lemma group_hub_ok: "hub_ok group_hub"
  by (simp add: hub_ok_def group_hub_def helper_device_def device_new_def less_char_def)

theorem group_reads_its_members_witness:
  "\<exists>dev'. get_device (group_recalculate 0 ''group_doors'' group_hub) ''group_doors'' = Some dev' \<and> attr dev' ''on'' = Some (JBool True)"
  using group_reads_its_members [OF group_hub_ok, of "''group_doors''" "helper_device ''group_doors'' ''group''
         [(''attribute'', JStr ''open''), (''member_ids'', JArr [JStr ''door'']), (''on'', JBool False)]" 0]
  by (simp add: group_hub_def get_device_def list_devices_def helper_device_def device_new_def attr_def strings_of_def
      as_array_def List.map_filter_def member_matches_def is_truthy_def Let_def)

lemma fold_other:
  assumes "\<And>d h. helper_write (dv_id d) h (f d h)" "\<And>d h. dv_id d = g \<Longrightarrow> f d h = h"
  shows "hub_ok h \<Longrightarrow> get_device (fold f ds h) g = get_device h g"
proof (induction ds arbitrary: h)
  case (Cons d ds)
  have "hub_ok (f d h)" using helper_write_announced [OF assms(1)] Cons.prems by (auto simp: announced_def)
  moreover have "get_device (f d h) g = get_device h g"
    using write_other [OF assms(1) Cons.prems, of g] assms(2) by (cases "dv_id d = g") auto
  ultimately show ?case using Cons.IH by simp
qed simp

text \<open>
  The bus the manager listens on carries MQTT messages only, and no such message, nor a tick,
  makes a group or a threshold follow its members: unless a command names the group itself, the
  manager leaves it exactly as it was, whatever its members report in the meantime.
\<close>

theorem groups_do_not_follow:
  assumes "hub_ok h" and "starts_with ''group_'' g \<or> starts_with ''threshold_'' g"
    and "i = GiTick \<or> (\<exists>topic payload retain. i = GiEvent (EvMqttMessage topic payload retain)
           \<and> parse_glue_cmd_topic topic ''group_'' \<noteq> Some g)"
    and "glue_step x now i h = Some (Inr h')"
  shows "get_device h' g = get_device h g"
proof (cases "i = GiTick")
  case True
  have "\<not> starts_with ''schedule_'' g"
    using assms(2) prefix_decides [OF prefixes_known(3,1)] prefix_decides [OF prefixes_known(3,2)] by blast
  then have "get_device (tick_schedules x now h) g = get_device h g"
    unfolding tick_schedules_def by (intro fold_other) (auto simp: assms(1))
  then show ?thesis using True assms(4) by (simp add: glue_step_def)
next
  case False
  then obtain topic payload retain where i: "i = GiEvent (EvMqttMessage topic payload retain)"
    and other: "parse_glue_cmd_topic topic ''group_'' \<noteq> Some g"
    using assms(3) by blast
  then have "dispatch_to glue_handlers x now topic (map_option action_as_command (tx_parse_json (gx x) payload)) h = Inr h'"
    using assms(4) by (simp add: glue_step_def glue_event_def glue_message_def)
  from dispatch_cases [OF this] consider "h' = h"
    | q act d v where "(q, act) \<in> set glue_handlers" "parse_glue_cmd_topic topic q = Some d" "act x now d v h = Inr h'"
    by blast
  then show ?thesis
  proof cases
    case (2 q act d v)
    have "d \<noteq> g"
    proof
      assume "d = g"
      then have "starts_with q g" using parse_topic_prefix 2(2) by blast
      then have "q = ''group_'' \<or> q = ''threshold_''"
        using assms(2) prefix_decides [OF handler_prefix [OF 2(1)] prefixes_known(1)]
          prefix_decides [OF handler_prefix [OF 2(1)] prefixes_known(2)] by blast
      moreover have "q \<noteq> ''threshold_''" using 2(1) by (auto simp: glue_handlers_def)
      ultimately show False using other 2(2) \<open>d = g\<close> by simp
    qed
    then show ?thesis using helper.others_kept [OF handlers_helper [OF 2(1)] 2(3) assms(1)] by simp
  qed simp
qed

text \<open>The door of the group opens, and the message says so; the group stays off.\<close>

theorem groups_do_not_follow_witness:
  "\<exists>h'. glue_step sample_glue 0 (GiEvent (EvMqttMessage ''homecore/devices/door/state'' ''up'' False)) group_hub = Some (Inr h')
     \<and> get_device h' ''group_doors'' = get_device group_hub ''group_doors''"
proof -
  have parse: "parse_glue_cmd_topic ''homecore/devices/door/state'' p = None" for p
    by (simp add: parse_glue_cmd_topic_def)
  have "glue_step sample_glue 0 (GiEvent (EvMqttMessage ''homecore/devices/door/state'' ''up'' False)) group_hub = Some (Inr group_hub)"
    by (simp add: glue_step_def glue_event_def glue_message_def glue_handlers_def parse del: Cons_eq_append_conv)
  then show ?thesis
    using groups_do_not_follow [OF group_hub_ok, of "''group_doors''" "GiEvent (EvMqttMessage ''homecore/devices/door/state'' ''up'' False)"
        sample_glue 0]
    by (simp add: parse starts_with_def)
qed

text \<open>A threshold is a latch: it rises over the band, falls under it, and holds inside it.\<close>

interpretation thr: latch "\<lambda>v. f64_lt (f64_op (+) threshold (f64_op (/) hysteresis (Fin 2))) v"
  "\<lambda>v. \<not> f64_le (f64_op (-) threshold (f64_op (/) hysteresis (Fin 2))) v" "threshold_above threshold hysteresis"
  for threshold hysteresis
  by unfold_locales (simp_all add: threshold_above_def Let_def)

lemma threshold_holds_in_band:
  assumes "\<And>v. v \<in> set vs \<Longrightarrow> f64_le (f64_op (-) threshold (f64_op (/) hysteresis (Fin 2))) v
      \<and> \<not> f64_lt (f64_op (+) threshold (f64_op (/) hysteresis (Fin 2))) v"
  shows "fold (\<lambda>v b. threshold_above threshold hysteresis b v) vs b = b"
  using assms by (induction vs arbitrary: b) (auto simp: threshold_above_def Let_def)

subsection \<open>The configuration only seeds\<close>

definition schemas_declared :: "hub \<Rightarrow> bool" where
  "schemas_declared h \<longleftrightarrow>
     (\<forall>d dev. get_device h d = Some dev \<longrightarrow> for_device (dv_plugin_id dev) (dv_device_type dev) \<noteq> None \<longrightarrow>
        get_device_schema h d \<noteq> None)"

lemma schema_simps [simp]:
  "get_device_schema (publish e h) = get_device_schema h"
  "get_device_schema (upsert_device d h) = get_device_schema h"
  "get_device_schema (upsert_device_schema i s h) = (get_device_schema h)(i \<mapsto> s)"
  "get_device (upsert_device_schema i s h) = get_device h"
  "hub_ok (upsert_device_schema i s h) = hub_ok h"
  by (auto simp: get_device_schema_def publish_def upsert_device_def upsert_device_schema_def get_device_def hub_ok_def
      Let_def split: device_write.split)

lemma ensure_schema_simps [simp]:
  "get_device (ensure_device_schema d h) = get_device h" "hub_ok (ensure_device_schema d h) = hub_ok h"
  by (simp_all add: ensure_device_schema_def split: option.split)

lemma ensure_schema_declares:
  "schemas_declared h \<Longrightarrow> schemas_declared (ensure_device_schema d (upsert_device d h))"
  by (auto simp: schemas_declared_def ensure_device_schema_def split: option.split if_splits)

lemma upsert_with_schema_ok:
  "\<exists>dev. dv_id dev = dv_id d \<and> dv_plugin_id dev = dv_plugin_id d \<and> dv_device_type dev = dv_device_type d
     \<and> dv_attributes dev = dv_attributes d \<and> dv_area dev = dv_area d
     \<and> upsert_device_with_schema d h = Some (ensure_device_schema dev (upsert_device dev h))"
proof (cases "dv_canonical_name d")
  case None
  obtain n where "ensure_unique_canonical_name d (list_devices h) = Some n"
    using first_name_found by blast
  with None show ?thesis
    by (intro exI [of _ "d\<lparr>dv_canonical_name := Some n\<rparr>"]) (simp add: upsert_device_with_schema_def Let_def)
qed (auto simp: upsert_device_with_schema_def)

definition seeded_id :: "glue_entry \<Rightarrow> string" where
  "seeded_id e = entry_device_id (ge_type e @ ''_'') e"

lemma load_entry_eq:
  "load_entry now e h =
     (if ge_type e \<notin> set glue_types \<or> get_device h (seeded_id e) \<noteq> None \<and> \<not> ge_override_from_config e then Some h
      else upsert_device_with_schema (seed_device now e (seeded_id e) (get_device h (seeded_id e))) h)"
  by (auto simp: load_entry_def entry_prefix_def seeded_id_def Let_def)

lemma load_entry_ok:
  assumes "hub_ok h" "schemas_declared h"
  shows "\<exists>h'. load_entry now e h = Some h' \<and> hub_ok h' \<and> schemas_declared h'
    \<and> (\<not> ge_override_from_config e \<longrightarrow> get_device h \<subseteq>\<^sub>m get_device h')
    \<and> (ge_type e \<in> set glue_types \<longrightarrow> get_device h' (seeded_id e) \<noteq> None)"
proof (cases "ge_type e \<notin> set glue_types \<or> get_device h (seeded_id e) \<noteq> None \<and> \<not> ge_override_from_config e")
  case False
  let ?dev = "seed_device now e (seeded_id e) (get_device h (seeded_id e))"
  have "dv_id ?dev = seeded_id e" by (simp add: seed_device_def device_new_def)
  then obtain dev where dev: "dv_id dev = seeded_id e"
    "upsert_device_with_schema ?dev h = Some (ensure_device_schema dev (upsert_device dev h))"
    using upsert_with_schema_ok [of ?dev h] by auto
  moreover have "get_device h \<subseteq>\<^sub>m (get_device h)(seeded_id e \<mapsto> dev)" if "\<not> ge_override_from_config e"
    using that False by (auto simp: map_le_def dom_def)
  ultimately show ?thesis
    using assms False by (simp add: load_entry_eq reg.wf_write ensure_schema_declares)
qed (use assms in \<open>auto simp: load_entry_eq\<close>)

lemma load_entries_ok:
  assumes "hub_ok h" "schemas_declared h" "list_all (\<lambda>e. \<not> ge_override_from_config e) es"
  shows "\<exists>h'. load_entries now es h = Some h' \<and> hub_ok h' \<and> schemas_declared h' \<and> get_device h \<subseteq>\<^sub>m get_device h'
    \<and> (\<forall>e \<in> set es. ge_type e \<in> set glue_types \<longrightarrow> get_device h' (seeded_id e) \<noteq> None)"
  using assms
proof (induction es arbitrary: h)
  case (Cons e es)
  obtain h1 where h1: "load_entry now e h = Some h1" "hub_ok h1" "schemas_declared h1" "get_device h \<subseteq>\<^sub>m get_device h1"
    "ge_type e \<in> set glue_types \<longrightarrow> get_device h1 (seeded_id e) \<noteq> None"
    using load_entry_ok [OF Cons.prems(1,2), of now e] Cons.prems(3) by auto
  obtain h2 where h2: "load_entries now es h1 = Some h2" "hub_ok h2" "schemas_declared h2" "get_device h1 \<subseteq>\<^sub>m get_device h2"
    "\<forall>e \<in> set es. ge_type e \<in> set glue_types \<longrightarrow> get_device h2 (seeded_id e) \<noteq> None"
    using Cons.IH [OF h1(2,3)] Cons.prems(3) by auto
  have "get_device h2 (seeded_id e) \<noteq> None" if "ge_type e \<in> set glue_types"
    using that h1(5) h2(4) by (auto simp: map_le_def dom_def)
  moreover have "get_device h \<subseteq>\<^sub>m get_device h2" using h1(4) h2(4) by (rule map_le_trans)
  ultimately show ?case using h1(1) h2(1,2,3,5) by simp
qed simp

lemma load_entries_idle:
  "\<forall>e \<in> set es. ge_type e \<in> set glue_types \<longrightarrow> get_device h (seeded_id e) \<noteq> None \<Longrightarrow>
     list_all (\<lambda>e. \<not> ge_override_from_config e) es \<Longrightarrow> load_entries now es h = Some h"
  by (induction es) (auto simp: load_entry_eq)

text \<open>
  A configuration without overrides only seeds: loading it comes to its end, leaves every device
  there is exactly as it was, creates the missing ones, and gives each device of the hub's own a
  schema if each had one before; loading it again changes nothing.
\<close>

theorem config_only_seeds:
  assumes "hub_ok h" and "schemas_declared h" and "list_all (\<lambda>e. \<not> ge_override_from_config e) es"
  shows "\<exists>h'. load_glue_config now (GlueFile es) h = Some (Inr h') \<and> schemas_declared h'
    \<and> get_device h \<subseteq>\<^sub>m get_device h'
    \<and> (\<forall>e. e \<in> set es \<and> ge_type e \<in> set glue_types \<longrightarrow> get_device h' (seeded_id e) \<noteq> None)
    \<and> load_glue_config later (GlueFile es) h' = Some (Inr h')"
proof -
  obtain h' where "load_entries now es h = Some h'" "schemas_declared h'" "get_device h \<subseteq>\<^sub>m get_device h'"
    and all: "\<forall>e \<in> set es. ge_type e \<in> set glue_types \<longrightarrow> get_device h' (seeded_id e) \<noteq> None"
    using load_entries_ok [OF assms] by blast
  moreover have "load_entries later es h' = Some h'" using all assms(3) by (rule load_entries_idle)
  ultimately show ?thesis by (auto simp: load_glue_config_def)
qed

definition switch_entry :: glue_entry where
  "switch_entry =
     \<lparr>ge_type = ''switch'', ge_id = ''vacation'', ge_name = ''Vacation'', ge_override_from_config = False, ge_step = None,
      ge_min = None, ge_max = None, ge_value = None, ge_number_min = None, ge_number_max = None, ge_number_step = None,
      ge_unit = None, ge_options = None, ge_max_length = None, ge_has_date = None, ge_has_time = None, ge_members = None,
      ge_attribute = None, ge_mode = None, ge_source_device_id = None, ge_source_attribute = None, ge_threshold = None,
      ge_hysteresis = None, ge_blocks = None\<rparr>"

theorem config_only_seeds_witness:
  "\<exists>h'. load_glue_config 0 (GlueFile [switch_entry]) empty_hub = Some (Inr h') \<and> get_device h' ''switch_vacation'' \<noteq> None"
proof -
  have "hub_ok empty_hub" "schemas_declared empty_hub"
    by (simp_all add: hub_ok_def schemas_declared_def get_device_def empty_hub_def)
  moreover have "seeded_id switch_entry = ''switch_vacation''" "ge_type switch_entry \<in> set glue_types"
    by (simp_all add: seeded_id_def entry_device_id_def switch_entry_def starts_with_def glue_types_def)
  ultimately show ?thesis
    using config_only_seeds [of empty_hub "[switch_entry]" 0] by (force simp: switch_entry_def)
qed

text \<open>
  An entry that overrides keeps the state of the running helper, but not the room it was put in,
  nor the name it was given.
\<close>

lemma keep_runtime_keeps: "k \<in> set (runtime_keys_for t) \<Longrightarrow> map_of old k = Some v \<Longrightarrow> map_of (keep_runtime t old a) k = Some v"
proof -
  have "map_of (fold (\<lambda>k. opt_entry k (map_of old k)) ks a) k = (if k \<in> set ks \<and> map_of old k \<noteq> None then map_of old k else map_of a k)"
    for ks k
    by (induction ks arbitrary: a) (auto simp: opt_entry_def split: option.splits)
  then show "k \<in> set (runtime_keys_for t) \<Longrightarrow> map_of old k = Some v \<Longrightarrow> map_of (keep_runtime t old a) k = Some v"
    by (simp add: keep_runtime_def)
qed

lemma override_forgets_room:
  assumes "ge_type e \<in> set glue_types" "ge_override_from_config e" "get_device h (seeded_id e) = Some old"
  shows "\<exists>h' dev. load_entry now e h = Some h' \<and> get_device h' (seeded_id e) = Some dev \<and> dv_area dev = None
    \<and> (\<forall>k \<in> set (runtime_keys_for (ge_type e)). attr old k \<noteq> None \<longrightarrow> attr dev k = attr old k)"
proof -
  let ?dev = "seed_device now e (seeded_id e) (get_device h (seeded_id e))"
  obtain dev where "dv_id dev = seeded_id e" "dv_attributes dev = dv_attributes ?dev" "dv_area dev = None"
    "upsert_device_with_schema ?dev h = Some (ensure_device_schema dev (upsert_device dev h))"
    using upsert_with_schema_ok [of ?dev h] by (auto simp: seed_device_def device_new_def)
  then show ?thesis
    using assms by (auto simp: load_entry_eq attr_def seed_device_def keep_runtime_keeps)
qed

text \<open>At start every device of the hub's own gets the schema of its type.\<close>

lemma core_schemas_published:
  assumes "hub_ok h"
  shows "schemas_declared (publish_core_device_schemas h)"
proof -
  define f where "f = (\<lambda>(d :: device) h. case for_device (dv_plugin_id d) (dv_device_type d) of
      None \<Rightarrow> h | Some schema \<Rightarrow> upsert_device_schema (dv_id d) schema h)"
  have "get_device (fold f ds g) = get_device g
      \<and> (\<forall>i. get_device_schema g i \<noteq> None \<longrightarrow> get_device_schema (fold f ds g) i \<noteq> None)
      \<and> (\<forall>d \<in> set ds. for_device (dv_plugin_id d) (dv_device_type d) \<noteq> None \<longrightarrow> get_device_schema (fold f ds g) (dv_id d) \<noteq> None)"
    for ds g
    by (induction ds arbitrary: g) (auto simp: f_def split: option.splits)
  from this [of "list_devices h" h] show ?thesis
    using reg.listing_lookup [OF assms] reg.lookup_key [OF assms]
    unfolding schemas_declared_def publish_core_device_schemas_def f_def [symmetric] by metis
qed

end
