(* ===== verification/Bridge_Theorems.thy ===== *)
theory Bridge_Theorems
  imports State_Bridge Room_Theorems Glue_Theorems
begin

text \<open>
  What the state bridge promises, with the parts of the hub that write devices beside it: a client
  that follows the public bus has every device as it is stored; a device that a person removed does
  not come back; provenance is not stored as a reading; and only the plugin a device belongs to
  retires it.
\<close>

subsection \<open>A client of the public bus\<close>

text \<open>
  A client keeps a copy of every device and does to it what each event says. Of a device it shows
  everything but when it was last seen and by what it was last changed; attributes have no order.
\<close>

type_synonym client = "string \<rightharpoonup> device"

fun client_event :: "hub_event \<Rightarrow> client \<Rightarrow> client" where
  "client_event (HeDeviceAdded d) c = c(dv_id d \<mapsto> d)"
| "client_event (HeDeviceMetadataChanged d) c = c(dv_id d \<mapsto> d)"
| "client_event (HeDeviceRemoved i) c = c(i := None)"
| "client_event (HeDeviceStateChanged i _ _ current _ _) c = c(i := map_option (dv_attributes_update (\<lambda>_. current)) (c i))"
| "client_event (HeDeviceAvailabilityChanged i _ available) c = c(i := map_option (dv_available_update (\<lambda>_. available)) (c i))"
| "client_event _ c = c"

definition shown :: "device \<Rightarrow> device \<times> (string \<rightharpoonup> json)" where
  "shown d =
     (d\<lparr>dv_attributes := [], dv_last_seen := 0, dv_last_change := None, dv_attributes_changed_at := []\<rparr>,
      map_of (dv_attributes d))"

definition in_step :: "client \<Rightarrow> hub \<Rightarrow> bool" where
  "in_step c h \<longleftrightarrow> (\<forall>i. map_option shown (c i) = map_option shown (get_device h i))"

definition mirrored :: "hub \<Rightarrow> hub \<Rightarrow> bool" where
  "mirrored h h' \<longleftrightarrow> (hub_ok h \<longrightarrow>
     hub_ok h' \<and> (\<exists>new. hb_published h' = hb_published h @ new
       \<and> (\<forall>c. in_step c h \<longrightarrow> in_step (fold client_event new c) h')))"

lemma mirrored_refl [simp]: "mirrored h h"
  by (auto simp: mirrored_def intro: exI [of _ "[]"])

lemma mirrored_trans:
  assumes "mirrored h h1" "mirrored h1 h2"
  shows "mirrored h h2"
  unfolding mirrored_def
proof
  assume ok: "hub_ok h"
  with assms obtain es fs where "hub_ok h2" "hb_published h2 = hb_published h @ es @ fs"
    "\<forall>c. in_step c h \<longrightarrow> in_step (fold client_event es c) h1" "\<forall>c. in_step c h1 \<longrightarrow> in_step (fold client_event fs c) h2"
    unfolding mirrored_def by (metis append.assoc)
  then show "hub_ok h2 \<and> (\<exists>new. hb_published h2 = hb_published h @ new
      \<and> (\<forall>c. in_step c h \<longrightarrow> in_step (fold client_event new c) h2))"
    by (intro conjI exI [of _ "es @ fs"]) auto
qed

lemma mirrored_fold: "(\<And>d h. mirrored h (f d h)) \<Longrightarrow> mirrored h (fold f ds h)"
  by (induction ds arbitrary: h) (auto intro: mirrored_trans)

text \<open>Writes that no client shows.\<close>

lemma mirrored_silent:
  assumes "hb_devices h' = hb_devices h" "hb_published h' = hb_published h"
  shows "mirrored h h'"
  using assms by (auto simp: mirrored_def hub_ok_def in_step_def get_device_def intro!: exI [of _ "[]"])

lemma mirrored_publish:
  assumes "\<And>c. client_event e c = c"
  shows "mirrored h (publish e h)"
  using assms by (auto simp: mirrored_def hub_ok_def in_step_def publish_def get_device_def intro!: exI [of _ "[e]"])

text \<open>A device is written, and what moved is announced.\<close>

lemma in_step_write:
  assumes "in_step c h" "get_device h' = (get_device h)(i \<mapsto> dev)"
    and "\<And>j. j \<noteq> i \<Longrightarrow> c' j = c j" "map_option shown (c' i) = Some (shown dev)"
  shows "in_step c' h'"
  using assms by (auto simp: in_step_def)

lemma announce_if_simps [simp]:
  "get_device (announce_if b e h) = get_device h" "hub_ok (announce_if b e h) = hub_ok h"
  "hb_published (announce_if b e h) = hb_published h @ (if b then [e] else [])"
  by (simp_all add: announce_if_def) (simp add: publish_def)

text \<open>What a client makes of the announcements of a write that changes no metadata.\<close>

definition told :: "bool \<Rightarrow> bool \<Rightarrow> device \<Rightarrow> device \<Rightarrow> device" where
  "told a b dev d =
     (let d' = (if a then d\<lparr>dv_available := dv_available dev\<rparr> else d) in
      if b then d'\<lparr>dv_attributes := dv_attributes dev\<rparr> else d')"

lemma told_shown:
  assumes "same_metadata old dev" "shown d = shown old"
    and "a \<or> dv_available old = dv_available dev" "b \<or> map_of (dv_attributes old) = map_of (dv_attributes dev)"
  shows "shown (told a b dev d) = shown dev"
  using assms unfolding same_metadata_def shown_def told_def Let_def
  by (cases d; cases old; cases dev; cases a; cases b) simp_all

lemma told_self [simp]: "told a b dev dev = dev"
  by (simp add: told_def)

lemma write_mirrored:
  assumes "\<And>old. get_device h i = Some old \<Longrightarrow> dv_available old \<noteq> dv_available dev \<Longrightarrow> a"
    and "\<And>old. get_device h i = Some old \<Longrightarrow> map_of (dv_attributes old) \<noteq> map_of (dv_attributes dev) \<Longrightarrow> b"
    and "dv_id dev = i"
  shows "mirrored h (announce_if b (HeDeviceStateChanged i n previous (dv_attributes dev) ks change)
    (announce_if m (HeDeviceNameChanged i n1 n2)
      (announce_if a (HeDeviceAvailabilityChanged i n3 (dv_available dev)) (upsert_device dev h))))"
  (is "mirrored h ?h'")
  unfolding mirrored_def
proof
  assume ok: "hub_ok h"
  define news where "news = (if a then [HeDeviceAvailabilityChanged i n3 (dv_available dev)] else [])
    @ (if m then [HeDeviceNameChanged i n1 n2] else [])
    @ (if b then [HeDeviceStateChanged i n previous (dv_attributes dev) ks change] else [])"
  have told: "fold client_event news c = c(i := map_option (told a b dev) (c i))" for c
    by (cases "c i") (auto simp: news_def told_def Let_def fun_eq_iff)
  obtain us where us: "hb_published (upsert_device dev h) = hb_published h @ us"
    "us = (case write_kind dev h of Added \<Rightarrow> [HeDeviceAdded dev] | MetadataChanged \<Rightarrow> [HeDeviceMetadataChanged dev] | StateOnly \<Rightarrow> [])"
    by (auto simp: upsert_device_def publish_def Let_def split: device_write.splits)
  have "in_step (fold client_event (us @ news) c) ?h'" if c: "in_step c h" for c
  proof (rule in_step_write [OF c])
    show "get_device ?h' = (get_device h)(i \<mapsto> dev)" using assms(3) by simp
    show "fold client_event (us @ news) c j = c j" if "j \<noteq> i" for j
      using that assms(3) by (simp add: told us(2) split: device_write.split)
    show "map_option shown (fold client_event (us @ news) c i) = Some (shown dev)"
    proof (cases "write_kind dev h")
      case StateOnly
      then obtain old where old: "get_device h i = Some old" "same_metadata old dev"
        using assms(3) by (auto simp: write_kind_def split: option.splits if_splits)
      have "map_option shown (c i) = Some (shown old)" using c old(1) by (simp add: in_step_def)
      then obtain d where "c i = Some d" "shown d = shown old" by auto
      then show ?thesis
        using told_shown [OF old(2), of d a b] assms(1,2) [OF old(1)] StateOnly by (auto simp: told us(2))
    qed (use assms(3) in \<open>simp_all add: told us(2)\<close>)
  qed
  moreover have "hub_ok ?h'" using reg.wf_write [OF ok] by simp
  moreover have "hb_published ?h' = hb_published h @ us @ news" using us(1) by (simp add: news_def)
  ultimately show "hub_ok ?h' \<and> (\<exists>new. hb_published ?h' = hb_published h @ new
      \<and> (\<forall>c. in_step c h \<longrightarrow> in_step (fold client_event new c) ?h'))" by blast
qed

lemmas upsert_mirrored = write_mirrored [where a = False and b = False and m = False, simplified announce_if_def if_False]

subsection \<open>Every part of the hub keeps clients in step\<close>

lemma helper_write_mirrored:
  assumes "helper_write d h h'"
  shows "mirrored h h'"
proof (cases "h' = h \<or> get_device h d = None")
  case True
  then show ?thesis using assms by (auto simp: helper_write_def apply_state_update_def)
next
  case False
  then obtain now change mutate dev where h': "h' = apply_state_update now d change mutate h" and dev: "get_device h d = Some dev"
    using assms by (auto simp: helper_write_def)
  define dev' where "dev' = dev\<lparr>dv_attributes := mutate (dv_attributes dev), dv_last_seen := now, dv_last_change := Some change\<rparr>"
  have eq: "h' = announce_if (changed_keys (dv_attributes dev) (dv_attributes dev') \<noteq> [])
      (HeDeviceStateChanged d (Some (dv_name dev)) (dv_attributes dev) (dv_attributes dev')
         (changed_keys (dv_attributes dev) (dv_attributes dev')) change)
      (announce_if False (HeDeviceNameChanged d [] [])
        (announce_if False (HeDeviceAvailabilityChanged d None (dv_available dev')) (upsert_device dev' h)))"
    by (simp add: h' dev dev'_def apply_state_update_def publish_state_change_def announce_if_def Let_def)
  show ?thesis
  proof (cases "hub_ok h")
    case True
    then have "dv_id dev = d" using reg.lookup_key dev by blast
    then show ?thesis unfolding eq
      by (intro write_mirrored) (use dev in \<open>auto simp: dev'_def changed_keys_none\<close>)
  qed (simp add: mirrored_def)
qed

interpretation mir: kept_by_writes mirrored
  by unfold_locales (auto intro: mirrored_trans helper_write_mirrored)

text \<open>Rooms: a device moves by a write of its record, which is announced whole.\<close>

lemma moved_mirrored:
  assumes "dv_attributes (g d) = dv_attributes d" "dv_available (g d) = dv_available d" "dv_id (g d) = dv_id d"
    and "get_device h (dv_id d) = Some d"
  shows "mirrored h (upsert_device (g d) h)"
  by (rule upsert_mirrored) (use assms in auto)

lemma mirrored_areas [simp]: "mirrored h (upsert_area a h)" "mirrored h (delete_area i h)"
  by (rule mirrored_silent; simp add: upsert_area_def delete_area_def)+

lemma mirrored_room_events [simp]:
  "mirrored h (publish (HeRoomChanged r) h)" "mirrored h (publish (HeRoomRemoved i j) h)"
  by (rule mirrored_publish; simp)+

lemmas mirrored_then [intro] = mirrored_areas [THEN mirrored_trans [rotated]] mirrored_room_events [THEN mirrored_trans [rotated]]

locale moving = sweep +
  assumes keeps_state: "dv_attributes (g d) = dv_attributes d" "dv_available (g d) = dv_available d"
begin

lemma moving_from:
  "hub_ok h \<Longrightarrow> list_devices h = seen @ ds \<Longrightarrow> mirrored h (fold f ds h)"
proof (induction ds arbitrary: seen h)
  case (Cons d ds)
  have "get_device h (dv_id d) = Some d" using Cons.prems reg.listing_lookup [of h d] by simp
  then have "mirrored h (f d h)"
    using sweep_one [of d h] moved_mirrored [of g d h] by (auto simp: keeps_state sweep_id)
  moreover have "hub_ok (f d h)" "list_devices (f d h) = (seen @ [g d]) @ ds"
    using sweep_one [of d h] upsert_in_place [OF Cons.prems, of "g d"] Cons.prems
    by (auto simp: sweep_id reg.wf_write)
  ultimately show ?case using Cons.IH [of "f d h" "seen @ [g d]"] by (auto intro: mirrored_trans)
qed simp

lemma sweep_mirrored: "mirrored h (fold f (list_devices h) h)"
  using moving_from [of h "[]"] by (cases "hub_ok h") (auto simp: mirrored_def)

end

interpretation rpm: moving "repoint from s" "moved from (Some s)" for "from" s
  by unfold_locales (simp_all add: moved_def)

interpretation upm: moving "unplace room" "moved room None" for room
  by unfold_locales (simp_all add: moved_def)

interpretation sdm: moving "set_device room wanted" "assigned room wanted" for room wanted
  by unfold_locales (simp_all add: assigned_def Let_def)

lemma announce_room_mirrored:
  assumes "announce_room rx i h1 = Inr (r, h')" "mirrored h h1"
  shows "mirrored h h'"
  using announce_result [OF assms(1)] assms(2) mirrored_trans [of h h1 h'] by simp

lemma place_reported_mirrored:
  assumes "place_reported rx fresh name h = Inr (p, h')"
  shows "mirrored h h'"
  using assms
  by (auto simp: place_reported_def Let_def try_bind_eq_Inr split: if_splits option.splits
      elim!: announce_room_mirrored)

lemma migrate_rooms_mirrored:
  assumes "migrate_rooms rx fresh h = (m, k, h')"
  shows "mirrored h h'"
proof -
  have stored: "mirrored g (snd (snd (migrate_stored rx r (rooms, n, g))))" for r rooms n g
    by (auto simp: migrate_stored_def Let_def)
  have valued: "mirrored g (snd (snd (migrate_value rx fresh v (rooms, n, g))))" for v rooms n g
    by (auto simp: migrate_value_def Let_def)
  have folds: "mirrored (snd (snd st)) (snd (snd (fold f xs st)))"
    if "\<And>x st. mirrored (snd (snd st)) (snd (snd (f x st)))"
    for f :: "'x \<Rightarrow> area list \<times> nat \<times> hub \<Rightarrow> area list \<times> nat \<times> hub" and xs st
  proof (induction xs arbitrary: st)
    case (Cons x xs)
    show ?case using mirrored_trans [OF that Cons.IH, of st x] by simp
  qed simp
  let ?st = "fold (migrate_stored rx) (list_areas h) ([], 0, h)"
  let ?both = "\<lambda>d. migrate_value rx fresh (dv_area_override d) \<circ> migrate_value rx fresh (dv_area d)"
  have first: "mirrored h (snd (snd ?st))" using folds [of "migrate_stored rx" "([], 0, h)"] stored by auto
  have second: "mirrored (snd (snd st)) (snd (snd (fold ?both ds st)))" for ds :: "device list" and st
  proof (rule folds)
    fix d :: device and st' :: "area list \<times> nat \<times> hub"
    obtain a n g where st': "st' = (a, n, g)" by (cases st')
    obtain a' n' g' where one: "migrate_value rx fresh (dv_area d) (a, n, g) = (a', n', g')"
      by (cases "migrate_value rx fresh (dv_area d) (a, n, g)")
    show "mirrored (snd (snd st')) (snd (snd (?both d st')))"
      using mirrored_trans [OF _ valued [of g' "dv_area_override d" a' n'], of g] valued [of g "dv_area d" a n]
      by (simp add: st' one)
  qed
  obtain rooms n h1 where st: "?st = (rooms, n, h1)" by (cases ?st)
  have "mirrored h h1" using first by (simp add: st)
  moreover have "mirrored h1 (snd (snd (fold ?both (list_devices h1) (rooms, 0, h1))))"
    using second [of "(rooms, 0, h1)" "list_devices h1"] by simp
  ultimately have "mirrored h (snd (snd (fold ?both (list_devices h1) (rooms, 0, h1))))" by (rule mirrored_trans)
  then show ?thesis using assms st by (auto simp: migrate_rooms_def split: prod.splits)
qed

lemma room_op_mirrored:
  assumes "room_op rx h h'"
  shows "mirrored h h'"
  using assms
proof cases
  case (ro_rename i name r)
  then show ?thesis
    by (auto simp: rename_room_def Let_def repoint_all_def split: if_splits option.splits
        intro: rpm.sweep_mirrored elim!: announce_room_mirrored)
next
  case (ro_merge i into r)
  then show ?thesis
    by (auto simp: merge_rooms_def repoint_all_def split: if_splits option.splits
        intro: rpm.sweep_mirrored elim!: announce_room_mirrored)
next
  case (ro_create fresh name p)
  then show ?thesis
    by (auto simp: create_room_def Let_def try_bind_eq_Inr split: if_splits option.splits
        elim!: announce_room_mirrored)
next
  case (ro_delete i)
  then show ?thesis
    by (auto simp: delete_room_def split: option.splits intro: upm.sweep_mirrored)
next
  case (ro_assign i ids r)
  then show ?thesis
    by (auto simp: set_devices_def split: option.splits intro: sdm.sweep_mirrored elim!: announce_room_mirrored)
qed (auto intro: place_reported_mirrored migrate_rooms_mirrored)

subsection \<open>The bridge keeps clients in step\<close>

lemma named_simps [simp]:
  "dv_id (named_uniquely_in h d) = dv_id d" "dv_attributes (named_uniquely_in h d) = dv_attributes d"
  "dv_available (named_uniquely_in h d) = dv_available d" "dv_name (named_uniquely_in h d) = dv_name d"
  "dv_plugin_id (named_uniquely_in h d) = dv_plugin_id d"
  by (simp_all add: named_uniquely_in_def)

lemma noted_simps [simp]:
  "dv_id (note_changed now ks d) = dv_id d" "dv_attributes (note_changed now ks d) = dv_attributes d"
  "dv_available (note_changed now ks d) = dv_available d" "dv_name (note_changed now ks d) = dv_name d"
  "dv_plugin_id (note_changed now ks d) = dv_plugin_id d"
  by (simp_all add: note_changed_def)

lemma reported_simps [simp]:
  "dv_id (reported_device now p kvs ch h d) = dv_id d"
  "dv_attributes (reported_device now p kvs ch h d) = reported_attributes p kvs (dv_attributes d)"
  "dv_available (reported_device now p kvs ch h d)" "dv_plugin_id (reported_device now p kvs ch h d) = dv_plugin_id d"
  by (simp_all add: reported_device_def Let_def)

lemma known_or_new_cases:
  assumes "known_or_new now i h = Some d" "hub_ok h"
  shows "dv_id d = i" "get_device h i = Some old \<Longrightarrow> d = old"
    "get_device h i = None \<Longrightarrow> \<not> is_forgotten h i \<and> d = unregistered now i"
  using assms reg.lookup_key [OF assms(2)]
  by (auto simp: known_or_new_def unregistered_def device_new_def split: option.splits if_splits)

lemma resolve_hub [simp]: "sb_hub (snd (resolve_state_change x now i v s)) = sb_hub s"
  by (simp add: resolve_state_change_def Let_def split: option.split)

lemma handle_state_mirrored: "mirrored (sb_hub s) (sb_hub (handle_state x now i v p s))"
proof (cases v)
  case (JObj kvs)
  show ?thesis
  proof (cases "known_or_new now i (sb_hub s)")
    case (Some old)
    obtain ch s1 where s1: "resolve_state_change x now i v s = (ch, s1)" by fastforce
    then have hub: "sb_hub s1 = sb_hub s" using resolve_hub [of x now i v s] by simp
    show ?thesis
    proof (cases "hub_ok (sb_hub s)")
      case True
      note k = known_or_new_cases [OF Some True]
      define dev where "dev = reported_device now p kvs ch (sb_hub s) old"
      let ?ks = "changed_keys (dv_attributes old) (dv_attributes dev)"
      have "dv_available dev" by (simp add: dev_def)
      then have eq: "sb_hub (handle_state x now i v p s) =
        announce_if (?ks \<noteq> []) (HeDeviceStateChanged i (Some (effective_name dev)) (dv_attributes old) (dv_attributes dev) ?ks ch)
          (announce_if (dv_name dev \<noteq> dv_name old) (HeDeviceNameChanged i (dv_name old) (dv_name dev))
            (announce_if (\<not> dv_available old) (HeDeviceAvailabilityChanged i (Some (effective_name dev)) (dv_available dev))
              (upsert_device dev (sb_hub s))))"
        using JObj Some s1 hub by (simp add: handle_state_def Let_def dev_def)
      show ?thesis unfolding eq
        by (rule write_mirrored) (use k(1,2) \<open>dv_available dev\<close> in \<open>auto simp: changed_keys_none dev_def\<close>)
    qed (simp add: mirrored_def)
  qed (simp add: handle_state_def JObj)
qed (simp_all add: handle_state_def)

lemma handle_availability_mirrored: "mirrored h (handle_availability now i available h)"
proof (cases "known_or_new now i h")
  case (Some old)
  show ?thesis
  proof (cases "hub_ok h")
    case True
    note k = known_or_new_cases [OF Some True]
    define dev where "dev = named_uniquely_in h (old\<lparr>dv_available := available, dv_last_seen := now\<rparr>)"
    have eq: "handle_availability now i available h =
      announce_if False (HeDeviceStateChanged i None [] (dv_attributes dev) [] (device_change_unknown 0))
        (announce_if False (HeDeviceNameChanged i [] [])
          (announce_if (dv_available old \<noteq> available) (HeDeviceAvailabilityChanged i (Some (effective_name dev)) (dv_available dev))
            (upsert_device dev h)))"
      using Some by (simp add: handle_availability_def dev_def Let_def announce_if_def)
    show ?thesis unfolding eq
      by (rule write_mirrored) (use k(1,2) in \<open>auto simp: dev_def\<close>)
  qed (simp add: mirrored_def)
qed (simp add: handle_availability_def)

lemma mirrored_other_events [simp]:
  "mirrored h (publish (HeCustom t v) h)" "mirrored h (publish (HePluginRegistered p) h)"
  "mirrored h (publish (HePluginAlerts p d as) h)" "mirrored h (publish (HePluginHeartbeat p w sv u n ns) h)"
  "mirrored h (publish (HePluginCapabilities p c cs cd aks ui) h)" "mirrored h (publish (HeDeviceNameChanged i m1 m2) h)"
  "mirrored h (publish (HeDeviceSchemaChanged i ks ns2) h)"
  by (rule mirrored_publish; simp)+

lemma mirrored_schemas [simp]:
  "mirrored h (upsert_device_schema i sc h)" "mirrored h (snd (delete_device_schema i h))"
  by (rule mirrored_silent; simp add: upsert_device_schema_def delete_device_schema_def)+

lemma mirrored_announce_if: "mirrored h (publish e h1) \<Longrightarrow> mirrored h h1 \<Longrightarrow> mirrored h (announce_if b e h1)"
  by (simp add: announce_if_def)

lemmas mirrored_then' [intro] =
  mirrored_other_events [THEN mirrored_trans [rotated]] mirrored_schemas [THEN mirrored_trans [rotated]]

lemma register_device_mirrored: "mirrored h (register_device now p r h)"
proof (cases "hub_ok h")
  case True
  have "mirrored h (upsert_device (reregistered p r h old) h)" if "get_device h (rg_device_id r) = Some old" for old
    by (rule upsert_mirrored) (use that reg.lookup_key [OF True that] in \<open>auto simp: reregistered_def\<close>)
  moreover have "mirrored h (upsert_device (first_registered now p r h) h)" if "get_device h (rg_device_id r) = None"
    by (rule upsert_mirrored) (use that in \<open>auto simp: first_registered_def device_new_def\<close>)
  ultimately show ?thesis
    by (auto simp: register_device_def intro!: mirrored_announce_if split: option.split)
qed (simp add: mirrored_def)

lemma delete_device_mirrored: "mirrored h (snd (delete_device i h))"
proof (cases "hub_ok h")
  case True
  have "in_step (c(i := None)) (snd (delete_device i h))" if "in_step c h" for c
    using that by (simp add: in_step_def)
  then show ?thesis using True reg.wf_remove [OF True, of i]
    by (auto simp: mirrored_def delete_device_def publish_def intro: exI [of _ "[]"] exI [of _ "[HeDeviceRemoved i]"])
qed (simp add: mirrored_def)

text \<open>Registration and retirement, taken apart.\<close>

lemma registration_cases:
  assumes "handle_device_registration x now fresh p payload h = Inr h'"
  obtains v r where "h' = (case type_schema x r of None \<Rightarrow> register_device now p r (snd (registered_area x fresh v h))
      | Some schema \<Rightarrow> store_schema (rg_device_id r) schema (register_device now p r (snd (registered_area x fresh v h))))"
proof -
  from assms obtain v i n where vin: "tx_parse_json (bx x) payload = Some v"
    "Option.bind (json_get v ''device_id'') as_str = Some i" "Option.bind (json_get v ''name'') as_str = Some n"
    by (auto simp: handle_device_registration_def split: option.splits)
  obtain area h1 where area: "registered_area x fresh v h = (area, h1)" by fastforce
  have "rg_device_id (registration_of v i n area) = i" by (simp add: registration_of_def Let_def)
  then show thesis
    by (intro that [of "registration_of v i n area" v]) (use assms vin area in
      \<open>simp add: handle_device_registration_def Let_def split: option.splits\<close>)
qed

lemma unregistration_cases:
  assumes "handle_device_unregistration x p payload h = Inr h'"
  obtains "h' = h"
  | i b v where "\<And>d. get_device h i = Some d \<Longrightarrow> dv_plugin_id d = p"
      "h' = announce_if b (HeCustom ''device_deleted'' v) (snd (delete_device_schema i (snd (delete_device i h))))"
proof -
  from assms obtain w i where wi: "tx_parse_json (bx x) payload = Some w" "Option.bind (json_get w ''device_id'') as_str = Some i"
    by (auto simp: handle_device_unregistration_def split: option.splits)
  show thesis
  proof (cases "case get_device h i of None \<Rightarrow> False | Some d \<Rightarrow> dv_plugin_id d \<noteq> p")
    case True
    with assms wi show thesis by (intro that(1)) (simp add: handle_device_unregistration_def)
  next
    case False
    obtain r1 h1 r2 h2 where del: "delete_device i h = (r1, h1)" "delete_device_schema i h1 = (r2, h2)"
      by (metis surj_pair)
    from False have "dv_plugin_id d = p" if "get_device h i = Some d" for d using that by simp
    moreover from False assms wi del have "h' = announce_if (r1 \<or> r2) (HeCustom ''device_deleted''
        (JObj [(''device_id'', JStr i), (''plugin_id'', JStr p), (''source'', JStr ''plugin_unregister'')])) h2"
      by (simp add: handle_device_unregistration_def)
    ultimately show thesis using that(2) del by (metis snd_conv)
  qed
qed

text \<open>
  What every handler of the bridge keeps, a message keeps. The plugins whose retirements do may
  depend on the hub.
\<close>

locale kept_by_bridge =
  fixes x :: bridge_ext and R :: "hub \<Rightarrow> hub \<Rightarrow> bool" and retires :: "string \<Rightarrow> hub \<Rightarrow> bool"
  assumes B_refl: "R h h"
    and B_trans: "R h h1 \<Longrightarrow> R h1 h2 \<Longrightarrow> R h h2"
    and B_event: "(\<And>c. client_event e c = c) \<Longrightarrow> R h (publish e h)"
    and B_report: "R (sb_hub s) (sb_hub (handle_state x now i v partial s))"
    and B_availability: "R h (handle_availability now i a h)"
    and B_room: "place_reported (bx_rooms x) fresh name h = Inr (q, h') \<Longrightarrow> R h h'"
    and B_device: "R h (register_device now p r h)"
    and B_schema: "R h (upsert_device_schema i sc h)"
    and B_retire: "retires p h \<Longrightarrow> handle_device_unregistration x p payload h = Inr h' \<Longrightarrow> R h h'"
begin

lemma B_store_schema: "R h (store_schema i sc h)"
  by (auto simp: store_schema_def announce_schema_def split: prod.split intro: B_trans [OF B_schema B_event])

lemma B_register:
  assumes "handle_device_registration x now fresh p payload h = Inr h'"
  shows "R h h'"
proof (rule registration_cases [OF assms])
  fix v r
  assume h': "h' = (case type_schema x r of None \<Rightarrow> register_device now p r (snd (registered_area x fresh v h))
      | Some schema \<Rightarrow> store_schema (rg_device_id r) schema (register_device now p r (snd (registered_area x fresh v h))))"
  have "R h (snd (registered_area x fresh v h))"
    by (auto simp: registered_area_def Let_def split: option.split sum.split intro: B_room B_refl)
  then have "R h (register_device now p r (snd (registered_area x fresh v h)))" by (rule B_trans [OF _ B_device])
  then show "R h h'" by (auto simp: h' split: option.split intro: B_trans B_store_schema)
qed

lemma B_if:
  "R h (sb_hub s1) \<Longrightarrow> R h (sb_hub s2) \<Longrightarrow> R h (sb_hub (if b then s1 else s2))"
  by simp

lemma B_if_fst:
  "R h (sb_hub (fst t1)) \<Longrightarrow> R h (sb_hub (fst t2)) \<Longrightarrow> R h (sb_hub (fst (if b then t1 else t2)))"
  for t1 t2 :: "state_bridge \<times> string option"
  by simp

lemma B_handle_register: "R (sb_hub s) (sb_hub (handle_register x now fresh p payload s))"
proof -
  have "R h (case handle_device_registration x now fresh p payload h of Inl _ \<Rightarrow> h | Inr h' \<Rightarrow> h')" for h
    by (auto split: sum.split intro: B_register B_refl)
  note one = this [of "sb_hub s"] and two = this [of "publish (HePluginRegistered p) (sb_hub s)"]
  have "R (sb_hub s) (publish (HePluginRegistered p) (sb_hub s))" by (rule B_event) simp
  from B_trans [OF this two] one show ?thesis
    by (auto simp: handle_register_def Let_def split: sum.splits)
qed

lemma B_plugin_topic:
  assumes "hd tail = ''unregister'' \<Longrightarrow> retires p (sb_hub s)"
  shows "R (sb_hub s) (sb_hub (plugin_topic x now fresh p tail payload s))"
proof -
  have caps: "R h (handle_capabilities x p payload h)" for h
    by (auto simp: handle_capabilities_def split: option.split intro: B_event B_refl)
  have logs: "sb_hub (handle_logs x p payload s) = sb_hub s"
    by (auto simp: handle_logs_def Let_def split: option.split)
  have beat: "R (sb_hub s) (sb_hub (handle_heartbeat x p payload s))"
    by (auto simp: handle_heartbeat_def Let_def split: option.split intro: B_event B_refl)
  have manage: "R (sb_hub s) (sb_hub (case tx_parse_json (bx x) payload of None \<Rightarrow> s
      | Some resp \<Rightarrow> on_hub (publish (HeCustom ''plugin_management_response'' resp)) s))"
    by (auto split: option.split intro: B_event B_refl)
  have unreg: "R (sb_hub s) (sb_hub (if hd tail = ''unregister''
      then (case handle_device_unregistration x p payload (sb_hub s) of Inl _ \<Rightarrow> s | Inr h \<Rightarrow> s\<lparr>sb_hub := h\<rparr>) else s))"
    using assms by (auto split: sum.split intro: B_retire B_refl)
  show ?thesis
    unfolding plugin_topic_def Let_def
    by (intro B_if manage unreg B_handle_register beat) (simp_all add: logs caps B_refl)
qed

lemma B_device_topic: "R (sb_hub s) (sb_hub (fst (device_topic x now i tail payload s)))"
proof -
  have state: "R (sb_hub s) (sb_hub (fst (parsed_state x now i payload partial s)))" for partial
    by (simp add: parsed_state_def B_report B_refl split: option.split)
  have schema: "R (sb_hub s) (sb_hub (fst (on_hub_result (handle_device_schema x i payload) s)))"
    by (simp add: on_hub_result_def handle_device_schema_def B_store_schema B_refl split: option.split)
  show ?thesis
    unfolding device_topic_def by (intro B_if_fst state schema) (simp_all add: B_availability B_refl)
qed

lemma B_canonical_topic:
  assumes "\<And>p rest. split_on CHR ''/'' topic = ''homecore'' # ''plugins'' # p # ''unregister'' # rest \<Longrightarrow> retires p (sb_hub s)"
  shows "R (sb_hub s) (sb_hub (fst (canonical_topic x now fresh topic payload s)))"
proof -
  have alerts: "R h (handle_device_alerts x d payload h)" for d h
    by (auto simp: handle_device_alerts_def split: option.split intro: B_event B_refl)
  have plugin: "R (sb_hub s) (sb_hub (plugin_topic x now fresh p2 (p3 # rest) payload s))"
    if "split_on CHR ''/'' topic = p0 # p1 # p2 # p3 # rest" "p0 = ''homecore'' \<and> p1 = ''plugins''" for p0 p1 p2 p3 rest
    by (rule B_plugin_topic) (use assms that in simp)
  show ?thesis
    using B_device_topic
    by (auto simp: canonical_topic_def plugin split: list.split intro: B_event B_refl alerts)
qed

lemma B_mqtt:
  assumes "\<And>p rest. split_on CHR ''/'' topic = ''homecore'' # ''plugins'' # p # ''unregister'' # rest \<Longrightarrow> retires p (sb_hub s)"
  shows "R (sb_hub s) (sb_hub (fst (handle_mqtt x now fresh topic payload s)))"
proof -
  have inb: "R (sb_hub s') (sb_hub (fst (inbound x now fresh topic payload s')))" if "sb_hub s' = sb_hub s" for s'
  proof -
    have "R (sb_hub s') (sb_hub (fst (canonical_topic x now fresh topic payload s')))"
      by (rule B_canonical_topic) (use assms that in simp)
    then show ?thesis by (simp add: inbound_def B_report B_availability split: option.split inbound_result.split)
  qed
  have "sb_hub (record_pending_command_change x now d payload s) = sb_hub s" for d
    by (simp add: record_pending_command_change_def split: option.split)
  then show ?thesis
    using inb [of s] inb [of "record_pending_command_change x now d payload s" for d]
    by (auto simp: handle_mqtt_def Let_def relay_def B_refl split: option.split)
qed

end

lemma unregistration_mirrored:
  assumes "handle_device_unregistration x p payload h = Inr h'"
  shows "mirrored h h'"
proof (rule unregistration_cases [OF assms])
  fix i b v
  have "mirrored h (snd (delete_device_schema i (snd (delete_device i h))))"
    by (rule mirrored_trans [OF delete_device_mirrored [of h i]]) simp
  then show "h' = announce_if b (HeCustom ''device_deleted'' v) (snd (delete_device_schema i (snd (delete_device i h))))
    \<Longrightarrow> mirrored h h'"
    by (auto intro: mirrored_announce_if)
qed simp

interpretation mib: kept_by_bridge x mirrored "\<lambda>_ _. True" for x
  by unfold_locales
    (auto intro: mirrored_trans mirrored_publish handle_state_mirrored handle_availability_mirrored
      place_reported_mirrored register_device_mirrored unregistration_mirrored)

subsection \<open>What the bridge promises\<close>

text \<open>
  The hub at work: messages reach the bridge, people and bridges change rooms, helper devices get
  commands, events and reloads of their configuration, and all of them write and announce devices,
  one after the other. \<open>P\<close> says which inputs the helper devices get.
\<close>

inductive hub_step :: "bridge_ext \<Rightarrow> glue_ext \<Rightarrow> (glue_input \<Rightarrow> bool) \<Rightarrow> state_bridge \<Rightarrow> state_bridge \<Rightarrow> bool" for x g P where
  hs_message: "hub_step x g P s (fst (handle_mqtt x now fresh topic payload s))"
| hs_room: "room_op (bx_rooms x) (sb_hub s) h' \<Longrightarrow> hub_step x g P s (s\<lparr>sb_hub := h'\<rparr>)"
| hs_helper: "P i \<Longrightarrow> glue_step g now i (sb_hub s) = Some (Inr h') \<Longrightarrow> hub_step x g P s (s\<lparr>sb_hub := h'\<rparr>)"

lemma hub_step_mirrored:
  assumes "hub_step x g (\<lambda>i. \<not> is_reload i) s t"
  shows "mirrored (sb_hub s) (sb_hub t)"
  using assms
proof cases
  case (hs_helper i now h')
  then show ?thesis using mir.R_step [of i g now "sb_hub s"] by auto
qed (auto intro: mib.B_mqtt room_op_mirrored)

lemma hub_steps_mirrored: "steps (hub_step x g (\<lambda>i. \<not> is_reload i)) s t \<Longrightarrow> mirrored (sb_hub s) (sb_hub t)"
  by (induction rule: steps.induct) (auto intro: mirrored_trans hub_step_mirrored)

text \<open>
  C18. A client that follows the public bus has every device as it is stored: whatever messages the
  bridge takes, whatever is done to rooms and whatever helper devices do short of a reload of their
  configuration, one after the other in any order, applying the announcements to a copy that agreed
  with the store gives a copy that agrees with it again, in names, rooms, owners, availability and
  attributes. (A reload can overwrite attributes without a word.)
\<close>

theorem clients_stay_in_step:
  assumes "hub_ok (sb_hub s)" "in_step c (sb_hub s)" "steps (hub_step x g (\<lambda>i. \<not> is_reload i)) s t"
  shows "\<exists>new. hb_published (sb_hub t) = hb_published (sb_hub s) @ new \<and> in_step (fold client_event new c) (sb_hub t)"
  using hub_steps_mirrored [OF assms(3)] assms(1,2) by (auto simp: mirrored_def)

subsection \<open>Removed devices and provenance\<close>

definition provenance_free :: "device \<Rightarrow> bool" where
  "provenance_free d \<longleftrightarrow> (\<forall>k \<in> {''_hc'', ''origin'', ''correlation_id''}. map_of (dv_attributes d) k = None)"

text \<open>
  A device that was removed and is not stored stays so; and every device stored has the attributes it
  had or ones without provenance.
\<close>

definition tidy :: "hub \<Rightarrow> hub \<Rightarrow> bool" where
  "tidy h h' \<longleftrightarrow> (hub_ok h \<longrightarrow> hub_ok h' \<and> hb_forgotten h' = hb_forgotten h
     \<and> (\<forall>i. is_forgotten h i \<longrightarrow> get_device h i = None \<longrightarrow> get_device h' i = None)
     \<and> (\<forall>i d'. get_device h' i = Some d' \<longrightarrow>
          provenance_free d' \<or> (\<exists>d. get_device h i = Some d \<and> dv_attributes d' = dv_attributes d)))"

lemma tidy_same:
  assumes "get_device h' = get_device h" "hb_forgotten h' = hb_forgotten h" "hub_ok h \<Longrightarrow> hub_ok h'"
  shows "tidy h h'"
  using assms by (auto simp: tidy_def)

lemma tidy_trans:
  assumes "tidy h h1" "tidy h1 h2"
  shows "tidy h h2"
  unfolding tidy_def
proof
  assume ok: "hub_ok h"
  then have 1: "hub_ok h1" "hb_forgotten h1 = hb_forgotten h"
    "\<And>i. is_forgotten h i \<Longrightarrow> get_device h i = None \<Longrightarrow> get_device h1 i = None"
    "\<And>i d'. get_device h1 i = Some d' \<Longrightarrow> provenance_free d' \<or> (\<exists>d. get_device h i = Some d \<and> dv_attributes d' = dv_attributes d)"
    using assms(1) by (auto simp: tidy_def)
  then have 2: "hub_ok h2" "hb_forgotten h2 = hb_forgotten h1"
    "\<And>i. is_forgotten h1 i \<Longrightarrow> get_device h1 i = None \<Longrightarrow> get_device h2 i = None"
    "\<And>i d'. get_device h2 i = Some d' \<Longrightarrow> provenance_free d' \<or> (\<exists>d. get_device h1 i = Some d \<and> dv_attributes d' = dv_attributes d)"
    using assms(2) by (auto simp: tidy_def)
  have "provenance_free d' \<or> (\<exists>d. get_device h i = Some d \<and> dv_attributes d' = dv_attributes d)"
    if "get_device h2 i = Some d'" for i d'
    using 2(4) [OF that] 1(4) [of i] by (auto simp: provenance_free_def)
  with 1 2 show "hub_ok h2 \<and> hb_forgotten h2 = hb_forgotten h
     \<and> (\<forall>i. is_forgotten h i \<longrightarrow> get_device h i = None \<longrightarrow> get_device h2 i = None)
     \<and> (\<forall>i d'. get_device h2 i = Some d' \<longrightarrow>
          provenance_free d' \<or> (\<exists>d. get_device h i = Some d \<and> dv_attributes d' = dv_attributes d))"
    by (auto simp: is_forgotten_def)
qed

text \<open>One device is written: a known one, or one that was not removed.\<close>

lemma tidy_write:
  assumes "dv_id dev = i" "get_device h' = get_device (upsert_device dev h)" "hb_forgotten h' = hb_forgotten h" "hub_ok h \<Longrightarrow> hub_ok h'"
    and "get_device h i = None \<Longrightarrow> \<not> is_forgotten h i"
    and "provenance_free dev \<or> (\<exists>d. get_device h i = Some d \<and> dv_attributes dev = dv_attributes d)"
  shows "tidy h h'"
  using assms by (auto simp: tidy_def)

lemma forgotten_simps [simp]:
  "hb_forgotten (upsert_device d h) = hb_forgotten h" "hb_forgotten (publish e h) = hb_forgotten h"
  "hb_forgotten (announce_if b e h) = hb_forgotten h"
  "hb_forgotten (upsert_area a h) = hb_forgotten h"
  by (simp_all add: upsert_device_def publish_def announce_if_def upsert_area_def Let_def split: device_write.split)

lemma fold_remove_key: "map_of (fold remove_key ks m) k = (if k \<in> set ks then None else map_of m k)"
  by (induction ks arbitrary: m) auto

lemma reported_free: "provenance_free (reported_device now p kvs ch h d)"
  by (simp add: provenance_free_def reported_attributes_def Let_def fold_remove_key del: fold.simps)

lemma new_free: "provenance_free (d\<lparr>dv_attributes := []\<rparr>)"
  by (simp add: provenance_free_def)

lemma handle_state_tidy: "tidy (sb_hub s) (sb_hub (handle_state x now i v p s))"
proof (cases v)
  case (JObj kvs)
  show ?thesis
  proof (cases "known_or_new now i (sb_hub s)")
    case (Some old)
    obtain ch s1 where s1: "resolve_state_change x now i v s = (ch, s1)" by fastforce
    then have hub: "sb_hub s1 = sb_hub s" using resolve_hub [of x now i v s] by simp
    show ?thesis
    proof (cases "hub_ok (sb_hub s)")
      case True
      note k = known_or_new_cases [OF Some True]
      show ?thesis
        by (rule tidy_write [of "reported_device now p kvs ch (sb_hub s) old" i])
          (use JObj Some s1 hub k True reg.wf_write [OF True] in \<open>auto simp: handle_state_def Let_def reported_free\<close>)
    qed (simp add: tidy_def)
  qed (simp add: handle_state_def JObj tidy_same)
qed (simp_all add: handle_state_def tidy_same)

lemma handle_availability_tidy: "tidy h (handle_availability now i a h)"
proof (cases "hub_ok h")
  case True
  show ?thesis
  proof (cases "known_or_new now i h")
    case (Some old)
    note k = known_or_new_cases [OF Some True]
    have "provenance_free (unregistered now i)" by (simp add: provenance_free_def unregistered_def device_new_def)
    then have "provenance_free old \<or> (\<exists>d. get_device h i = Some d \<and> dv_attributes old = dv_attributes d)"
      using k(2,3) by (cases "get_device h i") auto
    then show ?thesis
      by (intro tidy_write [of "named_uniquely_in h (old\<lparr>dv_available := a, dv_last_seen := now\<rparr>)" i])
        (use Some k reg.wf_write [OF True] in \<open>auto simp: handle_availability_def Let_def provenance_free_def\<close>)
  qed (simp add: handle_availability_def tidy_same)
qed (simp add: tidy_def)

lemma register_device_tidy: "tidy h (register_device now p r h)"
proof (cases "hub_ok h")
  case True
  show ?thesis
  proof (cases "get_device h (rg_device_id r)")
    case None
    show ?thesis
    proof (cases "is_forgotten h (rg_device_id r)")
      case False
      show ?thesis
        by (rule tidy_write [of "first_registered now p r h" "rg_device_id r"])
          (use None False reg.wf_write [OF True] in
            \<open>auto simp: register_device_def first_registered_def device_new_def provenance_free_def\<close>)
    qed (use None in \<open>simp add: register_device_def tidy_same\<close>)
  next
    case (Some old)
    show ?thesis
      by (rule tidy_write [of "reregistered p r h old" "rg_device_id r"])
        (use Some reg.lookup_key [OF True Some] reg.wf_write [OF True] in
          \<open>auto simp: register_device_def reregistered_def provenance_free_def\<close>)
  qed
qed (simp add: tidy_def)

lemma place_reported_frame:
  assumes "place_reported rx fresh name h = Inr (p, h')"
  shows "get_device h' = get_device h \<and> hb_forgotten h' = hb_forgotten h \<and> hub_ok h' = hub_ok h"
  using assms
  by (auto simp: place_reported_def Let_def try_bind_eq_Inr split: if_splits option.splits dest!: announce_result)

lemma delete_frame [simp]:
  "get_device (snd (delete_device_schema i h)) = get_device h" "hb_forgotten (snd (delete_device_schema i h)) = hb_forgotten h"
  "hub_ok (snd (delete_device_schema i h)) = hub_ok h" "hb_forgotten (snd (delete_device i h)) = hb_forgotten h"
  by (simp_all add: delete_device_schema_def delete_device_def get_device_def hub_ok_def)

lemma schema_frame [simp]:
  "get_device (upsert_device_schema i sc h) = get_device h" "hb_forgotten (upsert_device_schema i sc h) = hb_forgotten h"
  "hub_ok (upsert_device_schema i sc h) = hub_ok h"
  by (simp_all add: upsert_device_schema_def get_device_def hub_ok_def)

lemma unregistration_tidy:
  assumes "handle_device_unregistration x p payload h = Inr h'"
  shows "tidy h h'"
proof (rule unregistration_cases [OF assms])
  fix i b v
  assume "h' = announce_if b (HeCustom ''device_deleted'' v) (snd (delete_device_schema i (snd (delete_device i h))))"
  then show "tidy h h'" using reg.wf_remove [of h i] by (auto simp: tidy_def split: if_splits)
qed (simp add: tidy_same)

interpretation tib: kept_by_bridge x tidy "\<lambda>_ _. True" for x
  by unfold_locales
    ((rule tidy_trans; assumption) | rule handle_state_tidy handle_availability_tidy register_device_tidy
      | (rule unregistration_tidy, assumption) | (rule tidy_same; simp add: place_reported_frame))+

lemma run_bridge_tidy: "tidy (sb_hub s) (sb_hub (run_bridge x inputs s))"
  unfolding run_bridge_def
proof (induction inputs arbitrary: s)
  case (Cons i inputs)
  have "tidy (sb_hub s) (sb_hub (fst (handle_mqtt x (bi_now i) (bi_fresh i) (bi_topic i) (bi_payload i) s)))"
    by (rule tib.B_mqtt) simp
  from tidy_trans [OF this Cons.IH] show ?case by simp
qed (simp add: tidy_same)

text \<open>
  C19. A device that a person removed does not come back: whatever its plugin reports, registers or
  says of its availability, the device is not stored again.
\<close>

theorem removed_devices_stay_gone:
  assumes "hub_ok (sb_hub s)" "is_forgotten (sb_hub s) i" "get_device (sb_hub s) i = None"
  shows "get_device (sb_hub (run_bridge x inputs s)) i = None \<and> is_forgotten (sb_hub (run_bridge x inputs s)) i"
  using run_bridge_tidy [of s x inputs] assms by (auto simp: tidy_def is_forgotten_def)

text \<open>
  C20. Provenance is not a reading: if no stored device has \<open>_hc\<close>, \<open>origin\<close> or \<open>correlation_id\<close> among
  its attributes, none ever has, whatever state reports carry, whole or partial.
\<close>

theorem provenance_never_stored:
  assumes "hub_ok (sb_hub s)" "\<And>i d. get_device (sb_hub s) i = Some d \<Longrightarrow> provenance_free d"
    and "get_device (sb_hub (run_bridge x inputs s)) i = Some d" "k \<in> {''_hc'', ''origin'', ''correlation_id''}"
  shows "map_of (dv_attributes d) k = None"
proof -
  have "provenance_free d \<or> (\<exists>d0. get_device (sb_hub s) i = Some d0 \<and> dv_attributes d = dv_attributes d0)"
    using run_bridge_tidy [of s x inputs] assms(1,3) by (auto simp: tidy_def)
  then show ?thesis using assms(2,4) by (auto simp: provenance_free_def)
qed

subsection \<open>Who retires a device\<close>

definition stays :: "string \<Rightarrow> hub \<Rightarrow> hub \<Rightarrow> bool" where
  "stays i h h' \<longleftrightarrow> (hub_ok h \<longrightarrow> hub_ok h' \<and> (get_device h i \<noteq> None \<longrightarrow> get_device h' i \<noteq> None))"

lemma stays_from_tidy: "tidy h h' \<Longrightarrow> (get_device h' i = None \<Longrightarrow> get_device h i = None) \<Longrightarrow> stays i h h'"
  unfolding stays_def tidy_def by (cases "get_device h' i") auto

lemma handle_state_stays: "get_device (sb_hub (handle_state x now j v p s)) i = None \<Longrightarrow> get_device (sb_hub s) i = None"
  by (auto simp: handle_state_def Let_def split_beta split: json.splits option.splits if_splits)

interpretation sib: kept_by_bridge x "stays i" "\<lambda>p h. \<forall>d. get_device h i = Some d \<longrightarrow> dv_plugin_id d \<noteq> p" for x i
proof
  fix h h' p payload
  assume other: "\<forall>d. get_device h i = Some d \<longrightarrow> dv_plugin_id d \<noteq> p"
    and un: "handle_device_unregistration x p payload h = Inr h'"
  show "stays i h h'"
  proof (rule stays_from_tidy [OF unregistration_tidy [OF un]], rule unregistration_cases [OF un])
    fix j b v
    assume own: "\<And>d. get_device h j = Some d \<Longrightarrow> dv_plugin_id d = p"
      and h': "h' = announce_if b (HeCustom ''device_deleted'' v) (snd (delete_device_schema j (snd (delete_device j h))))"
      and "get_device h' i = None"
    then show "get_device h i = None"
      using other by (cases "get_device h i") (auto split: if_splits)
  qed simp
next
  fix h h1 h2 assume "stays i h h1" "stays i h1 h2" then show "stays i h h2" by (auto simp: stays_def)
next
  fix fresh name h q h' assume "place_reported (bx_rooms x) fresh name h = Inr (q, h')"
  then show "stays i h h'" using place_reported_frame by (auto simp: stays_def)
next
  fix s now j v partial
  show "stays i (sb_hub s) (sb_hub (handle_state x now j v partial s))"
    using handle_state_tidy handle_state_stays by (rule stays_from_tidy)
next
  fix now j a h show "stays i h (handle_availability now j a h)"
    by (rule stays_from_tidy [OF handle_availability_tidy])
      (auto simp: handle_availability_def Let_def split: option.splits if_splits)
next
  fix h now p r show "stays i h (register_device now p r h)"
    by (rule stays_from_tidy [OF register_device_tidy])
      (auto simp: register_device_def split: option.splits if_splits)
qed (auto simp: stays_def)

text \<open>
  C21. Only its own plugin retires a device: if a message makes a stored device disappear, its topic
  is the retirement topic of the plugin the device belongs to.
\<close>

theorem only_owner_retires:
  assumes "hub_ok (sb_hub s)" "get_device (sb_hub s) i = Some d"
    and "get_device (sb_hub (fst (handle_mqtt x now fresh topic payload s))) i = None"
  shows "\<exists>rest. split_on CHR ''/'' topic = ''homecore'' # ''plugins'' # dv_plugin_id d # ''unregister'' # rest"
proof (rule ccontr)
  assume no: "\<not> ?thesis"
  have "stays i (sb_hub s) (sb_hub (fst (handle_mqtt x now fresh topic payload s)))"
    by (rule sib.B_mqtt) (use assms(2) no in auto)
  with assms show False by (simp add: stays_def)
qed

subsection \<open>What a registration does for a removed device\<close>

text \<open>
  A registration for a removed device is ignored only in part: the device is not stored, but the
  room it names is made and announced if there is none, and the schema of its type is stored and
  announced for it.
\<close>

theorem removed_registration_leaves_traces:
  assumes "tx_parse_json (bx x) payload = Some v"
    and "json_get v ''device_id'' = Some (JStr i)" "json_get v ''name'' = Some (JStr n)"
    and "json_get v ''area'' = Some (JStr room)" "json_get v ''device_type'' = Some (JStr t)"
    and "bx_device_types x = Some types" "types (canonical_device_type_name t) = Some sc"
    and "rooms_ok h" "get_area h fresh = None" "room_for (list_areas h) (slug room) = None" "slug room \<noteq> []"
    and "is_forgotten h i" "get_device h i = None"
  shows "\<exists>h' r. handle_device_registration x now fresh p payload h = Inr h'
    \<and> get_device h' i = None \<and> get_device_schema h' i = Some sc
    \<and> get_area h (ar_id r) = None \<and> get_area h' (ar_id r) = Some r \<and> ar_slug r = slug room"
proof -
  obtain h1 r where place: "place_reported (bx_rooms x) fresh room h = Inr (Some (slug room), h1)"
    and r: "get_area h (ar_id r) = None" "get_area h1 = (get_area h)(ar_id r \<mapsto> r)" "ar_slug r = slug room"
    using place_new [OF assms(8,10,11,9)] by blast
  note frame = place_reported_frame [OF place]
  have area: "registered_area x fresh v h = (Some (slug room), h1)"
    using assms(4,11) place by (simp add: registered_area_def slug_def)
  define rg where "rg = registration_of v i n (Some (slug room))"
  have rg: "rg_device_id rg = i" "type_schema x rg = Some sc"
    using assms(5-7) by (simp_all add: rg_def registration_of_def Let_def type_schema_def)
  have same: "register_device now p rg h1 = h1"
    using assms(12,13) frame rg by (simp add: register_device_def is_forgotten_def)
  have "handle_device_registration x now fresh p payload h = Inr (store_schema i sc h1)"
    using assms(1-3) area rg same by (simp add: handle_device_registration_def rg_def)
  moreover have "get_device (store_schema i sc h1) = get_device h1" "get_area (store_schema i sc h1) = get_area h1"
    "get_device_schema (store_schema i sc h1) i = Some sc"
    by (simp_all add: store_schema_def announce_schema_def split_beta publish_def upsert_device_schema_def get_device_def
        get_area_def get_device_schema_def)
  ultimately show ?thesis using assms(13) frame r by (intro exI [of _ "store_schema i sc h1"] exI [of _ r]) simp
qed

subsection \<open>What a report stores\<close>

text \<open>The value of an attribute after a report, without the order in which keys are handled.\<close>

definition reported_value :: "bool \<Rightarrow> (string \<times> json) list \<Rightarrow> (string \<rightharpoonup> json) \<Rightarrow> string \<Rightarrow> json option" where
  "reported_value partial kvs stored k =
     (let kept = (if partial then stored k else None) in
      if k \<in> {''_hc'', ''origin'', ''correlation_id''} then None
      else if k = ''timestamp'' \<and> map_of kvs ''origin'' \<noteq> None then kept
      else case map_of kvs k of
             None \<Rightarrow> kept
           | Some v \<Rightarrow> if partial \<and> v = JNull then None else Some v)"

lemma merge_patch_lookup:
  "distinct (map fst patch) \<Longrightarrow> map_of (apply_partial_merge_patch patch target) k =
     (case map_of patch k of None \<Rightarrow> map_of target k | Some v \<Rightarrow> if v = JNull then None else Some v)"
  unfolding apply_partial_merge_patch_def
proof (induction patch arbitrary: target)
  case (Cons p patch)
  obtain k' v' where p: "p = (k', v')" by (cases p)
  with Cons.prems have "map_of patch k' = None" by (auto simp: map_of_eq_None_iff)
  then show ?case using Cons p by (auto split: option.split)
qed simp

lemma without_provenance_lookup:
  "map_of (without_provenance kvs) k =
     (if k \<in> {''_hc'', ''origin'', ''correlation_id''} \<or> k = ''timestamp'' \<and> map_of kvs ''origin'' \<noteq> None then None else map_of kvs k)"
  by (auto simp: without_provenance_def Let_def)

lemma without_provenance_distinct: "distinct (map fst kvs) \<Longrightarrow> distinct (map fst (without_provenance kvs))"
  by (auto simp: without_provenance_def remove_key_def Let_def distinct_map_filter)

text \<open>
  A report to a known device stores exactly what it says: a whole report replaces the attributes, a
  partial one changes those it names and removes those it names with \<open>null\<close>; keys of provenance are
  left out, and a time stamp with them.
\<close>

theorem report_stores_values:
  assumes "hub_ok (sb_hub s)" "get_device (sb_hub s) i = Some old" "distinct (map fst kvs)"
  shows "\<exists>d. get_device (sb_hub (handle_state x now i (JObj kvs) partial s)) i = Some d \<and> dv_available d
    \<and> map_of (dv_attributes d) = reported_value partial kvs (map_of (dv_attributes old))"
proof -
  obtain ch s1 where s1: "resolve_state_change x now i (JObj kvs) s = (ch, s1)" by fastforce
  then have hub: "sb_hub s1 = sb_hub s" using resolve_hub [of x now i "JObj kvs" s] by simp
  have id: "dv_id old = i" using reg.lookup_key [OF assms(1,2)] .
  have known: "known_or_new now i (sb_hub s) = Some old" using assms(2) by (simp add: known_or_new_def)
  let ?d = "reported_device now partial kvs ch (sb_hub s) old"
  have stored: "get_device (sb_hub (handle_state x now i (JObj kvs) partial s)) i = Some ?d"
    using known s1 hub id by (simp add: handle_state_def Let_def)
  moreover have "map_of (dv_attributes ?d) k = reported_value partial kvs (map_of (dv_attributes old)) k" for k
    using merge_patch_lookup [OF without_provenance_distinct [OF assms(3)], of "dv_attributes old" k]
    by (auto simp: reported_attributes_def reported_value_def Let_def fold_remove_key without_provenance_lookup
        simp del: fold.simps split: option.split)
  ultimately show ?thesis by auto
qed

subsection \<open>A bridge at work\<close>

definition lamp_schema :: device_schema where
  "lamp_schema = \<lparr>ds_attributes = [], ds_actions = [], ds_primary = []\<rparr>"

definition tv_report :: "(string \<times> json) list" where
  "tv_report = [(''on'', JBool True), (''origin'', JStr ''remote'')]"

definition tv_registration :: json where
  "tv_registration = JObj [(''area'', JStr ''Cellar''), (''device_id'', JStr ''tv''), (''device_type'', JStr ''Shade''),
     (''name'', JStr ''TV'')]"

definition sample_bridge :: bridge_ext where
  "sample_bridge =
     \<lparr>bx = \<lparr>tx_parse_json = (\<lambda>b. if b = ''report'' then Some (JObj tv_report) else if b = ''registration'' then Some tv_registration else None),
            tx_timer_command = (\<lambda>_. None), tx_device_change = (\<lambda>_. None), tx_parse_rfc3339 = (\<lambda>_. None), tx_to_rfc3339 = (\<lambda>_. [])\<rparr>,
      bx_rooms = sample_rooms, bx_router = None, bx_can_publish = False,
      bx_device_types = Some (\<lambda>t. if t = ''cover'' then Some lamp_schema else None),
      bx_log_capacity = None, bx_protocol_version = ''0.3.9'', bx_schema = (\<lambda>_. None), bx_alert = (\<lambda>_. None), bx_alert_kind = (\<lambda>_. None),
      bx_notice = (\<lambda>_. None), bx_capabilities = (\<lambda>_. None), bx_plugin_ui = (\<lambda>_. None), bx_log_line = (\<lambda>_. None)\<rparr>"

definition bridge0 :: state_bridge where
  "bridge0 = state_bridge_new house0"

definition bridge1 :: state_bridge where
  "bridge1 = fst (handle_mqtt sample_bridge 5 9 ''homecore/devices/tv/state/partial'' ''report'' bridge0)"

definition bridge_gone :: state_bridge where
  "bridge_gone = state_bridge_new (forget_device \<lparr>fd_device_id = ''tv'', fd_plugin_id = ''hue'', fd_name = ''TV'', fd_removed_at = 0\<rparr>
     (snd (delete_device ''tv'' house0)))"

lemma house0_ok: "hub_ok house0"
  by (simp add: hub_ok_def house0_def empty_hub_def device_new_def)

lemma bridge_hub [simp]: "sb_hub bridge0 = house0"
  by (simp add: bridge0_def state_bridge_new_def)

theorem clients_stay_in_step_witness:
  "\<exists>new. hb_published (sb_hub bridge1) = hb_published house0 @ new \<and> in_step (fold client_event new (get_device house0)) (sb_hub bridge1)"
proof -
  have "steps (hub_step sample_bridge sample_glue (\<lambda>i. \<not> is_reload i)) bridge0 bridge1"
    unfolding bridge1_def by (rule steps_step, rule steps_refl, rule hs_message)
  moreover have "in_step (get_device house0) (sb_hub bridge0)" by (simp add: in_step_def)
  ultimately show ?thesis using clients_stay_in_step [of bridge0 "get_device house0"] house0_ok by simp
qed

theorem removed_devices_stay_gone_witness:
  "get_device (sb_hub (run_bridge sample_bridge
     [\<lparr>bi_now = 1, bi_fresh = 9, bi_topic = ''homecore/plugins/hue/register'', bi_payload = ''registration''\<rparr>,
      \<lparr>bi_now = 2, bi_fresh = 10, bi_topic = ''homecore/devices/tv/state'', bi_payload = ''report''\<rparr>] bridge_gone)) ''tv'' = None"
proof -
  have "hub_ok (sb_hub bridge_gone)"
    using reg.wf_remove [OF house0_ok, of "''tv''"]
    by (simp add: bridge_gone_def state_bridge_new_def forget_device_def hub_ok_def)
  moreover have "is_forgotten (sb_hub bridge_gone) ''tv''" "get_device (sb_hub bridge_gone) ''tv'' = None"
    by (simp_all add: bridge_gone_def state_bridge_new_def forget_device_def is_forgotten_def get_device_def
        delete_device_def house0_def remove_key_def publish_def)
  ultimately show ?thesis using removed_devices_stay_gone by blast
qed

theorem provenance_never_stored_witness:
  "map_option (\<lambda>d. map_of (dv_attributes d) ''origin'') (get_device (sb_hub (run_bridge sample_bridge
     [\<lparr>bi_now = 2, bi_fresh = 10, bi_topic = ''homecore/devices/tv/state'', bi_payload = ''report''\<rparr>] bridge0)) ''tv'') = Some None"
proof -
  let ?s = "run_bridge sample_bridge
     [\<lparr>bi_now = 2, bi_fresh = 10, bi_topic = ''homecore/devices/tv/state'', bi_payload = ''report''\<rparr>] bridge0"
  have "get_device (sb_hub ?s) ''tv'' \<noteq> None" by code_simp
  then obtain d where d: "get_device (sb_hub ?s) ''tv'' = Some d" by auto
  have "provenance_free e" if "get_device (sb_hub bridge0) j = Some e" for j e
    using that by (auto simp: provenance_free_def house0_def get_device_def device_new_def split: if_splits)
  then have "map_of (dv_attributes d) ''origin'' = None"
    using provenance_never_stored [of bridge0 sample_bridge _ _ d "''origin''"] house0_ok d by auto
  with d show ?thesis by simp
qed

theorem report_stores_values_witness:
  "\<exists>d. get_device (sb_hub (handle_state sample_bridge 5 ''tv'' (JObj tv_report) True bridge0)) ''tv'' = Some d
    \<and> map_of (dv_attributes d) ''on'' = Some (JBool True)"
proof -
  have "get_device house0 ''tv'' \<noteq> None" "distinct (map fst tv_report)" by code_simp+
  then obtain old where "get_device house0 ''tv'' = Some old" by auto
  from report_stores_values [of bridge0 "''tv''" old tv_report sample_bridge 5 True] this \<open>distinct (map fst tv_report)\<close> house0_ok
  show ?thesis by (auto simp: reported_value_def tv_report_def)
qed

theorem removed_registration_leaves_traces_witness:
  "\<exists>h' r. handle_device_registration sample_bridge 1 9 ''hue'' ''registration'' (sb_hub bridge_gone) = Inr h'
    \<and> get_device h' ''tv'' = None \<and> get_device_schema h' ''tv'' = Some lamp_schema \<and> get_area h' (ar_id r) = Some r \<and> ar_slug r = ''cellar''"
proof -
  have ok: "rooms_ok (sb_hub bridge_gone)"
    using reg.wf_remove [OF house0_ok, of "''tv''"]
    by (intro rooms_init_ok [of sample_rooms]) (simp add: rooms_init_def bridge_gone_def state_bridge_new_def forget_device_def hub_ok_def
        delete_device_def house0_def empty_hub_def publish_def)
  have "canonical_device_type_name ''Shade'' = ''cover''" "slug ''Cellar'' = ''cellar''"
    "get_area (sb_hub bridge_gone) 9 = None" "room_for (list_areas (sb_hub bridge_gone)) ''cellar'' = None"
    "is_forgotten (sb_hub bridge_gone) ''tv''" "get_device (sb_hub bridge_gone) ''tv'' = None" by code_simp+
  then show ?thesis
    using removed_registration_leaves_traces [of sample_bridge "''registration''" tv_registration "''tv''" "''TV''" "''Cellar''" "''Shade''"
        "\<lambda>t. if t = ''cover'' then Some lamp_schema else None" lamp_schema "sb_hub bridge_gone" 9 1 "''hue''"] ok
    by (auto simp: sample_bridge_def tv_registration_def)
qed

theorem only_owner_retires_witness:
  "get_device (sb_hub (fst (handle_mqtt sample_bridge 5 9 ''homecore/plugins/hue/unregister'' ''registration'' bridge0))) ''tv'' = None
    \<and> (\<exists>rest. split_on CHR ''/'' ''homecore/plugins/hue/unregister'' = ''homecore'' # ''plugins'' # ''hue'' # ''unregister'' # rest)"
proof -
  have gone: "get_device (sb_hub (fst (handle_mqtt sample_bridge 5 9 ''homecore/plugins/hue/unregister'' ''registration'' bridge0))) ''tv'' = None"
    by code_simp
  have "map_option dv_plugin_id (get_device house0 ''tv'') = Some ''hue''" by code_simp
  then obtain d where d: "get_device (sb_hub bridge0) ''tv'' = Some d" "dv_plugin_id d = ''hue''" by auto
  have "hub_ok (sb_hub bridge0)" using house0_ok by simp
  from only_owner_retires [OF this d(1) gone] d(2) gone show ?thesis by simp
qed

end
