(* ===== verification/Topic_Map.thy ===== *)
theory Topic_Map
  imports State_Bridge
begin

text \<open>
  Mapping of foreign MQTT topics (\<open>hc-topic-map\<close>): patterns and templates (\<open>pattern.rs\<close>), coercions
  of values (\<open>coerce.rs\<close>), profiles (\<open>profile.rs\<close>) and the router over them (\<open>router.rs\<close>), which the
  state bridge asks first. A \<open>HashMap\<close> is an association list in the order of its iteration. A
  slice whose end is before its start panics, which is an outcome of its own. The JSON parser and
  printer and the script interpreter are parameters.
\<close>

subsection \<open>Patterns\<close>

type_synonym vars = "(string \<times> string) list"

datatype segment = Literal string | Capture string | PartialCapture string string string

datatype route_stop = RouteError string | RoutePanic

definition parse_segment :: "string \<Rightarrow> segment" where
  "parse_segment seg =
     (let opn = length (takeWhile (\<lambda>c. c \<noteq> CHR ''{'') seg); cls = length (takeWhile (\<lambda>c. c \<noteq> CHR ''}'') seg) in
      if opn < length seg \<and> cls < length seg \<and> opn < cls then
        let prefix = take opn seg; name = take (cls - opn - 1) (drop (opn + 1) seg); suffix = drop (cls + 1) seg in
        if prefix = [] \<and> suffix = [] then Capture name else PartialCapture prefix name suffix
      else Literal seg)"

definition parse_pattern :: "string \<Rightarrow> segment list" where
  "parse_pattern pattern = map parse_segment (split_on CHR ''/'' pattern)"

fun match_parts :: "segment list \<Rightarrow> string list \<Rightarrow> vars \<Rightarrow> (route_stop, vars option) result" where
  "match_parts (Literal lit # segs) (part # parts) vars =
     (if lit = part then match_parts segs parts vars else Inr None)"
| "match_parts (Capture name # segs) (part # parts) vars = match_parts segs parts (AList.update name part vars)"
| "match_parts (PartialCapture prefix name suffix # segs) (part # parts) vars =
     (if starts_with prefix part \<and> ends_with suffix part then
        (if length part < length prefix + length suffix then Inl RoutePanic
         else match_parts segs parts
                (AList.update name (take (length part - length suffix - length prefix) (drop (length prefix) part)) vars))
      else Inr None)"
| "match_parts _ _ vars = Inr (Some vars)"

definition match_segments :: "segment list \<Rightarrow> string \<Rightarrow> (route_stop, vars option) result" where
  "match_segments segments topic =
     (let parts = split_on CHR ''/'' topic in
      if length parts \<noteq> length segments then Inr None else match_parts segments parts [])"

text \<open>\<open>str::replace\<close>.\<close>

function str_replace :: "string \<Rightarrow> string \<Rightarrow> string \<Rightarrow> string" where
  "str_replace pat rep s =
     (if s = [] then []
      else if pat \<noteq> [] \<and> starts_with pat s then rep @ str_replace pat rep (drop (length pat) s)
      else hd s # str_replace pat rep (tl s))"
  by auto
termination
  by (relation "measure (\<lambda>(_, _, s). length s)") auto

declare str_replace.simps [simp del]

definition render_template :: "string \<Rightarrow> vars \<Rightarrow> string" where
  "render_template template vars = fold (\<lambda>(k, v) r. str_replace (''{'' @ k @ ''}'') v r) vars template"

definition sanitize_id :: "string \<Rightarrow> string" where
  "sanitize_id s = map (\<lambda>c. if c \<in> {CHR '':'', CHR '' '', CHR ''/''} then CHR ''_'' else c) s"

subsection \<open>Numbers\<close>

definition eq_ignore_ascii_case :: "string \<Rightarrow> string \<Rightarrow> bool" where
  "eq_ignore_ascii_case a b \<longleftrightarrow> map ascii_lower a = map ascii_lower b"

definition ascii_upper :: "char \<Rightarrow> char" where
  "ascii_upper c = (if 97 \<le> byte c \<and> byte c \<le> 122 then char_of (byte c - 32) else c)"

definition from_utf8 :: "bytes \<Rightarrow> string option" where
  "from_utf8 b = (if from_utf8_lossy b = b then Some b else None)"

text \<open>\<open>str::parse::<i64>\<close> and \<open>str::parse::<f64>\<close>: a decimal number is rounded once.\<close>

definition parse_i64 :: "string \<Rightarrow> int option" where
  "parse_i64 s =
     (let neg = starts_with ''-'' s; t = (if neg \<or> starts_with ''+'' s then tl s else s);
          v = (if neg then - int (digits_value 0 t) else int (digits_value 0 t)) in
      if t \<noteq> [] \<and> list_all is_digit t \<and> - (2 ^ 63) \<le> v \<and> v < 2 ^ 63 then Some v else None)"

definition parse_exponent :: "string \<Rightarrow> int option" where
  "parse_exponent s =
     (case s of
        [] \<Rightarrow> Some 0
      | _ # e \<Rightarrow>
          let neg = starts_with ''-'' e; d = (if neg \<or> starts_with ''+'' e then tl e else e) in
          if d \<noteq> [] \<and> list_all is_digit d then Some (if neg then - int (digits_value 0 d) else int (digits_value 0 d)) else None)"

definition pow10 :: "int \<Rightarrow> rat" where
  "pow10 e = (if 0 \<le> e then 10 ^ nat e else 1 / 10 ^ nat (- e))"

definition parse_decimal :: "string \<Rightarrow> rat option" where
  "parse_decimal s =
     (let mantissa = takeWhile (\<lambda>c. c \<noteq> CHR ''e'') s; whole = takeWhile (\<lambda>c. c \<noteq> CHR ''.'') mantissa;
          fraction = drop (Suc (length whole)) mantissa in
      if whole @ fraction \<noteq> [] \<and> list_all is_digit (whole @ fraction) then
        map_option (\<lambda>e. rat_of_nat (digits_value 0 (whole @ fraction)) * pow10 (e - int (length fraction)))
          (parse_exponent (drop (length mantissa) s))
      else None)"

definition parse_f64 :: "string \<Rightarrow> f64 option" where
  "parse_f64 s =
     (let neg = starts_with ''-'' s; t = map ascii_lower (if neg \<or> starts_with ''+'' s then tl s else s) in
      if t \<in> {''inf'', ''infinity''} then Some (if neg then NegInf else PosInf)
      else if t = ''nan'' then Some NaN
      else map_option (\<lambda>q. round_f64 (if neg then - q else q)) (parse_decimal t))"

text \<open>Operations with a positive constant.\<close>

definition f64_over :: "f64 \<Rightarrow> rat \<Rightarrow> f64" where
  "f64_over a c = (case a of Fin q \<Rightarrow> round_f64 (q / c) | _ \<Rightarrow> a)"

definition f64_times :: "f64 \<Rightarrow> rat \<Rightarrow> f64" where
  "f64_times a c = (case a of Fin q \<Rightarrow> round_f64 (q * c) | _ \<Rightarrow> a)"

definition f64_into :: "rat \<Rightarrow> f64 \<Rightarrow> f64" where
  "f64_into c a = (case a of Fin q \<Rightarrow> round_f64 (c / q) | NaN \<Rightarrow> NaN | _ \<Rightarrow> Fin 0)"

text \<open>\<open>f64::round\<close>, which rounds halves away from zero, and the cast \<open>as i64\<close>, which saturates.\<close>

definition f64_round :: "f64 \<Rightarrow> f64" where
  "f64_round a =
     (case a of
        Fin q \<Rightarrow> Fin (if q < 0 then - rat_of_int \<lfloor>1 / 2 - q\<rfloor> else rat_of_int \<lfloor>q + 1 / 2\<rfloor>)
      | _ \<Rightarrow> a)"

definition f64_to_i64 :: "f64 \<Rightarrow> int" where
  "f64_to_i64 a =
     (case a of
        Fin q \<Rightarrow> max (- (2 ^ 63)) (min (2 ^ 63 - 1) (if q < 0 then - \<lfloor>- q\<rfloor> else \<lfloor>q\<rfloor>))
      | PosInf \<Rightarrow> 2 ^ 63 - 1
      | NegInf \<Rightarrow> - (2 ^ 63)
      | NaN \<Rightarrow> 0)"

subsection \<open>Coercions\<close>

definition whole_number :: "f64 \<Rightarrow> json" where
  "whole_number f =
     (case f of
        Fin q \<Rightarrow> if q = rat_of_int \<lfloor>q\<rfloor> \<and> \<bar>q\<bar> < 10 ^ 15 then json_int \<lfloor>q\<rfloor> else JNum (Float f)
      | _ \<Rightarrow> JNull)"

definition coerce_str :: "json \<Rightarrow> (string, string) result" where
  "coerce_str v = (case as_str v of Some s \<Rightarrow> Inr s | None \<Rightarrow> Inl ''expected string'')"

definition coerce_bool :: "json \<Rightarrow> (string, bool) result" where
  "coerce_bool v = (case as_bool v of Some b \<Rightarrow> Inr b | None \<Rightarrow> Inl ''expected bool'')"

definition coerce_f64 :: "json \<Rightarrow> (string, f64) result" where
  "coerce_f64 v =
     (case as_f64 v of
        Some f \<Rightarrow> Inr f
      | None \<Rightarrow> (case Option.bind (as_str v) parse_f64 of Some f \<Rightarrow> Inr f | None \<Rightarrow> Inl ''expected number''))"

definition coerce_scalar_auto :: "json \<Rightarrow> json" where
  "coerce_scalar_auto v =
     (case v of
        JStr s \<Rightarrow>
          if eq_ignore_ascii_case s ''true'' then JBool True
          else if eq_ignore_ascii_case s ''false'' then JBool False
          else case parse_i64 s of
                 Some i \<Rightarrow> json_int i
               | None \<Rightarrow> (case Option.bind (parse_f64 s) from_f64 of Some n \<Rightarrow> JNum n | None \<Rightarrow> v)
      | _ \<Rightarrow> v)"

definition zero_one_to_bool :: "json \<Rightarrow> (string, json) result" where
  "zero_one_to_bool v =
     (case v of
        JStr s \<Rightarrow> Inr (JBool (s = ''1''))
      | JNum n \<Rightarrow> Inr (JBool (as_i64 v = Some 1))
      | JBool b \<Rightarrow> Inr (JBool b)
      | _ \<Rightarrow> Inl ''01_to_bool: cannot coerce'')"

definition scalar_int :: "json \<Rightarrow> (string, json) result" where
  "scalar_int v =
     (case v of
        JNum n \<Rightarrow> Inr (json_int (case as_i64 v of Some i \<Rightarrow> i | None \<Rightarrow> f64_to_i64 (number_as_f64 n)))
      | JStr s \<Rightarrow>
          (case parse_i64 s of
             Some i \<Rightarrow> Inr (json_int i)
           | None \<Rightarrow> (case parse_f64 s of Some f \<Rightarrow> Inr (json_int (f64_to_i64 f)) | None \<Rightarrow> Inl ''scalar_int: cannot parse''))
      | _ \<Rightarrow> Inl ''scalar_int: expected string or number'')"

definition pct254_to_100 :: "f64 \<Rightarrow> f64" where
  "pct254_to_100 n =
     (let pct = f64_over (f64_round (f64_times (f64_over n 254) 1000)) 10 in
      if f64_lt (Fin 0) n then f64_max pct (round_f64 (1 / 10)) else Fin 0)"

definition pct100_to_254 :: "f64 \<Rightarrow> f64" where
  "pct100_to_254 n =
     (let raw = f64_round (f64_times (f64_over n 100) 254) in
      if f64_lt (Fin 0) n then f64_max raw (Fin 1) else Fin 0)"

definition reciprocal_million :: "f64 \<Rightarrow> json" where
  "reciprocal_million n =
     (if f64_eq n (Fin 0) then json_int 0 else json_int (f64_to_i64 (f64_round (f64_into 1000000 n))))"

definition hvac_word :: "string \<Rightarrow> string" where
  "hvac_word s =
     (if s \<in> {''heat'', ''pending_heat'', ''preheating''} then ''heating''
      else if s \<in> {''cool'', ''pending_cool''} then ''cooling''
      else if s \<in> {''fan_only'', ''fan''} then ''fan''
      else if s = ''dry'' then ''drying''
      else s)"

definition coerce_value :: "string \<Rightarrow> json \<Rightarrow> (string, json) result" where
  "coerce_value name v =
     (let with_str = (\<lambda>f. try_bind (coerce_str v) (\<lambda>s. Inr (f s)));
          with_bool = (\<lambda>f. try_bind (coerce_bool v) (\<lambda>b. Inr (f b)));
          with_f64 = (\<lambda>f. try_bind (coerce_f64 v) (\<lambda>n. Inr (f n))) in
      if name = ''onoff_to_bool'' then with_str (\<lambda>s. JBool (eq_ignore_ascii_case s ''on''))
      else if name = ''bool_to_onoff'' then with_bool (\<lambda>b. JStr (if b then ''ON'' else ''OFF''))
      else if name = ''01_to_bool'' then zero_one_to_bool v
      else if name = ''bool_to_01'' then with_bool (\<lambda>b. JStr (if b then ''1'' else ''0''))
      else if name = ''scalar_bool'' then with_str (\<lambda>s. JBool (eq_ignore_ascii_case s ''true''))
      else if name = ''open_close_to_bool'' then
        with_str (\<lambda>s. JBool (eq_ignore_ascii_case s ''close'' \<or> eq_ignore_ascii_case s ''closed''))
      else if name = ''scalar_int'' then scalar_int v
      else if name = ''scalar_float'' then with_f64 json_f64
      else if name = ''scalar_auto'' then Inr (coerce_scalar_auto v)
      else if name = ''pct255_to_100'' then
        with_f64 (\<lambda>n. json_int (f64_to_i64 (f64_round (f64_times (f64_over n 255) 100))))
      else if name = ''pct100_to_255'' then
        with_f64 (\<lambda>n. json_int (f64_to_i64 (f64_round (f64_times (f64_over n 100) 255))))
      else if name = ''pct254_to_100'' then with_f64 (\<lambda>n. whole_number (pct254_to_100 n))
      else if name = ''pct100_to_254'' then with_f64 (\<lambda>n. json_int (f64_to_i64 (pct100_to_254 n)))
      else if name = ''invert_bool'' then with_bool (\<lambda>b. JBool (\<not> b))
      else if name = ''lock_to_bool'' then
        with_str (\<lambda>s. JBool (eq_ignore_ascii_case s ''lock'' \<or> eq_ignore_ascii_case s ''locked''))
      else if name = ''bool_to_lock'' then with_bool (\<lambda>b. JStr (if b then ''LOCK'' else ''UNLOCK''))
      else if name = ''hvac_action_words'' then with_str (\<lambda>s. JStr (hvac_word (map ascii_lower s)))
      else if name = ''uppercase'' then with_str (\<lambda>s. JStr (map ascii_upper s))
      else if name = ''ms_to_secs'' then with_f64 (\<lambda>n. whole_number (f64_over n 1000))
      else if name = ''secs_to_ms'' then with_f64 (\<lambda>n. json_int (f64_to_i64 (f64_round (f64_times n 1000))))
      else if name = ''mired_to_kelvin'' \<or> name = ''kelvin_to_mired'' then with_f64 reciprocal_million
      else Inl ''Unknown coercion'')"

subsection \<open>Profiles\<close>

record state_topic_config =
  st_pattern :: string
  st_device_id :: "string option"
  st_attribute :: "string option"
  st_field_map :: "(string \<times> string) list"
  st_coerce :: "(string \<times> string) list"
  st_coerce_scalar :: bool
  st_partial :: "bool option"
  st_value_map :: "(string \<times> json) list"
  st_transform :: "string option"

record availability_topic_config =
  at_pattern :: string
  at_json_field :: "string option"
  at_payload :: "string option"
  at_value_map :: "(string \<times> bool) list"

record cmd_topic_config =
  ct_source :: string
  ct_target :: "string option"
  ct_attribute :: "string option"
  ct_field_map :: "(string \<times> string) list"
  ct_coerce :: "(string \<times> string) list"
  ct_rpc_method :: "string option"
  ct_rpc_id :: "nat option"
  ct_transform :: "string option"

record ecosystem_profile =
  ep_name :: string
  ep_description :: "string option"
  ep_prefix :: string
  ep_state_topics :: "state_topic_config list"
  ep_availability_topics :: "availability_topic_config list"
  ep_cmd_topics :: "cmd_topic_config list"

record topic_ext =
  tp_parse_json :: "bytes \<Rightarrow> json option"
  tp_print_json :: "json \<Rightarrow> string"
  tp_script :: "(string \<Rightarrow> string \<Rightarrow> (string, string) result) option"

record router =
  rt_state_entries :: "(segment list \<times> string \<times> state_topic_config) list"
  rt_availability_entries :: "(segment list \<times> string \<times> availability_topic_config) list"
  rt_cmd_entries :: "(segment list \<times> cmd_topic_config) list"

definition router_new :: "ecosystem_profile list \<Rightarrow> router" where
  "router_new profiles =
     \<lparr>rt_state_entries =
        concat (map (\<lambda>p. map (\<lambda>c. (parse_pattern (st_pattern c), ep_prefix p, c)) (ep_state_topics p)) profiles),
      rt_availability_entries =
        concat (map (\<lambda>p. map (\<lambda>c. (parse_pattern (at_pattern c), ep_prefix p, c)) (ep_availability_topics p)) profiles),
      rt_cmd_entries = concat (map (\<lambda>p. map (\<lambda>c. (parse_pattern (ct_source c), c)) (ep_cmd_topics p)) profiles)\<rparr>"

definition run_rhai :: "topic_ext \<Rightarrow> string \<Rightarrow> bytes \<Rightarrow> (route_stop, bytes) result" where
  "run_rhai x fn_name payload =
     (case tp_script x of
        None \<Rightarrow> Inl (RouteError ''no script loaded'')
      | Some call \<Rightarrow>
          (case from_utf8 payload of
             None \<Rightarrow> Inl (RouteError ''Non-UTF-8 payload'')
           | Some s \<Rightarrow> (case call fn_name s of Inl e \<Rightarrow> Inl (RouteError e) | Inr out \<Rightarrow> Inr out)))"

subsection \<open>Inbound\<close>

definition extract_path :: "json \<Rightarrow> string \<Rightarrow> json option" where
  "extract_path v path = fold (\<lambda>part current. Option.bind current (\<lambda>c. json_get c part)) (split_on CHR ''.'' path) (Some v)"

text \<open>A coercion that fails leaves the value.\<close>

definition coerced_or_raw :: "string option \<Rightarrow> json \<Rightarrow> json" where
  "coerced_or_raw coercion v =
     (case coercion of None \<Rightarrow> v | Some c \<Rightarrow> (case coerce_value c v of Inr w \<Rightarrow> w | Inl _ \<Rightarrow> v))"

definition apply_field_map :: "json \<Rightarrow> (string \<times> string) list \<Rightarrow> (string \<times> string) list \<Rightarrow> json" where
  "apply_field_map payload field_map coerce_map =
     (case payload of
        JObj kvs \<Rightarrow>
          if field_map = [] then JObj kvs
          else JObj (fold (\<lambda>(src, dst) acc.
                 case extract_path payload src of
                   None \<Rightarrow> acc
                 | Some raw \<Rightarrow> obj_insert dst (coerced_or_raw (map_of coerce_map dst) raw) acc) field_map [])
      | _ \<Rightarrow> payload)"

definition capture_var :: "vars \<Rightarrow> string option" where
  "capture_var vars =
     option_or (map_of vars ''device'')
       (option_or (map_of vars ''nodeId'') (case vars of [] \<Rightarrow> None | (_, v) # _ \<Rightarrow> Some v))"

definition resolve_device_id :: "state_topic_config \<Rightarrow> string \<Rightarrow> vars \<Rightarrow> string" where
  "resolve_device_id config prefix vars =
     (case st_device_id config of
        Some tmpl \<Rightarrow> sanitize_id (render_template tmpl vars)
      | None \<Rightarrow> prefix @ sanitize_id (unwrap_or (capture_var vars) ''unknown''))"

definition map_value :: "topic_ext \<Rightarrow> (string \<times> json) list \<Rightarrow> json \<Rightarrow> json" where
  "map_value x value_map v =
     (let key = (case v of JStr s \<Rightarrow> s | JBool b \<Rightarrow> (if b then ''true'' else ''false'') | _ \<Rightarrow> tp_print_json x v) in
      unwrap_or (map_of value_map key) v)"

definition apply_state ::
  "topic_ext \<Rightarrow> string \<Rightarrow> state_topic_config \<Rightarrow> vars \<Rightarrow> bytes \<Rightarrow> (route_stop, inbound_result) result"
where
  "apply_state x prefix config vars raw_payload =
     (let device_id = resolve_device_id config prefix vars in
      try_bind (case st_transform config of Some f \<Rightarrow> run_rhai x f raw_payload | None \<Rightarrow> Inr raw_payload) (\<lambda>payload.
      case from_utf8 payload of
        None \<Rightarrow> Inl (RouteError ''Non-UTF-8 payload'')
      | Some text \<Rightarrow>
          let raw = trim text; v = unwrap_or (tp_parse_json x raw) (JStr raw) in
          (case st_attribute config of
             Some template \<Rightarrow>
               let attr_name = render_template template vars;
                   v1 = (if st_coerce_scalar config then coerce_scalar_auto v else v) in
               (case (case map_of (st_coerce config) attr_name of None \<Rightarrow> Inr v1 | Some c \<Rightarrow> coerce_value c v1) of
                  Inl e \<Rightarrow> Inl (RouteError e)
                | Inr v2 \<Rightarrow>
                    Inr (InState device_id
                      (JObj [(attr_name, if st_value_map config = [] then v2 else map_value x (st_value_map config) v2)]) True))
           | None \<Rightarrow>
               Inr (InState device_id (apply_field_map v (st_field_map config) (st_coerce config))
                 (unwrap_or (st_partial config) False)))))"

definition apply_availability ::
  "topic_ext \<Rightarrow> string \<Rightarrow> availability_topic_config \<Rightarrow> vars \<Rightarrow> bytes \<Rightarrow> inbound_result option"
where
  "apply_availability x prefix config vars raw_payload =
     (case capture_var vars of
        None \<Rightarrow> None
      | Some d \<Rightarrow>
          let raw = trim (unwrap_or (from_utf8 raw_payload) []);
              available =
                (if at_payload config = Some ''raw_bool'' then eq_ignore_ascii_case raw ''true'' \<or> raw = ''1''
                 else
                   let key = (case at_json_field config of
                                None \<Rightarrow> raw
                              | Some field \<Rightarrow>
                                  unwrap_or (Option.bind (tp_parse_json x raw) (\<lambda>v. Option.bind (json_get v field) as_str)) raw) in
                   unwrap_or (map_of (at_value_map config) key) False) in
          Some (InAvailability (prefix @ sanitize_id d) available))"

fun route_states ::
  "topic_ext \<Rightarrow> (segment list \<times> string \<times> state_topic_config) list \<Rightarrow> string \<Rightarrow> bytes \<Rightarrow> (route_stop, inbound_result option) result"
where
  "route_states x [] topic payload = Inr None"
| "route_states x ((segs, prefix, config) # rest) topic payload =
     (case match_segments segs topic of
        Inl stop \<Rightarrow> Inl stop
      | Inr None \<Rightarrow> route_states x rest topic payload
      | Inr (Some vars) \<Rightarrow> try_bind (apply_state x prefix config vars payload) (\<lambda>r. Inr (Some r)))"

fun route_availabilities ::
  "topic_ext \<Rightarrow> (segment list \<times> string \<times> availability_topic_config) list \<Rightarrow> string \<Rightarrow> bytes \<Rightarrow> (route_stop, inbound_result option) result"
where
  "route_availabilities x [] topic payload = Inr None"
| "route_availabilities x ((segs, prefix, config) # rest) topic payload =
     (case match_segments segs topic of
        Inl stop \<Rightarrow> Inl stop
      | Inr None \<Rightarrow> route_availabilities x rest topic payload
      | Inr (Some vars) \<Rightarrow>
          (case apply_availability x prefix config vars payload of
             Some r \<Rightarrow> Inr (Some r)
           | None \<Rightarrow> route_availabilities x rest topic payload))"

definition route_inbound :: "topic_ext \<Rightarrow> router \<Rightarrow> string \<Rightarrow> bytes \<Rightarrow> (route_stop, inbound_result option) result" where
  "route_inbound x r topic payload =
     try_bind (route_states x (rt_state_entries r) topic payload) (\<lambda>res.
       case res of Some _ \<Rightarrow> Inr res | None \<Rightarrow> route_availabilities x (rt_availability_entries r) topic payload)"

subsection \<open>Outbound\<close>

definition apply_field_map_cmd :: "json \<Rightarrow> (string \<times> string) list \<Rightarrow> (string \<times> string) list \<Rightarrow> json" where
  "apply_field_map_cmd payload field_map coerce_map =
     (case payload of
        JObj kvs \<Rightarrow>
          JObj (fold (\<lambda>(hc_key, v) acc.
            let eco_key = unwrap_or (map_of field_map hc_key) hc_key in
            obj_insert eco_key (coerced_or_raw (option_or (map_of coerce_map hc_key) (map_of coerce_map eco_key)) v) acc) kvs [])
      | _ \<Rightarrow> payload)"

definition build_rpc_payload :: "string \<Rightarrow> nat option \<Rightarrow> json \<Rightarrow> (string \<times> string) list \<Rightarrow> json" where
  "build_rpc_payload meth rpc_id cmd field_map =
     (let params = (case cmd of
                      JObj kvs \<Rightarrow> fold (\<lambda>(k, v). obj_insert (unwrap_or (map_of field_map k) k) v) kvs []
                    | _ \<Rightarrow> []);
          params = (case rpc_id of Some i \<Rightarrow> obj_insert ''id'' (JNum (PosInt i)) params | None \<Rightarrow> params) in
      JObj [(''id'', JNum (PosInt 1)), (''method'', JStr meth), (''params'', JObj params), (''src'', JStr ''homecore'')])"

definition value_to_bytes :: "topic_ext \<Rightarrow> json \<Rightarrow> bytes" where
  "value_to_bytes x v = (case v of JStr s \<Rightarrow> s | _ \<Rightarrow> tp_print_json x v)"

definition apply_cmd ::
  "topic_ext \<Rightarrow> cmd_topic_config \<Rightarrow> vars \<Rightarrow> bytes \<Rightarrow> (route_stop, (string \<times> bytes) list) result"
where
  "apply_cmd x config vars raw_payload =
     (case ct_target config of
        None \<Rightarrow> Inl (RouteError ''cmd_topics entry has no target'')
      | Some t \<Rightarrow>
          let target = render_template t vars in
          (case ct_transform config of
             Some f \<Rightarrow> try_bind (run_rhai x f raw_payload) (\<lambda>out. Inr [(target, out)])
           | None \<Rightarrow>
               (case tp_parse_json x raw_payload of
                  None \<Rightarrow> Inl (RouteError ''cmd payload is not valid JSON'')
                | Some cmd \<Rightarrow>
                    (case ct_rpc_method config of
                       Some m \<Rightarrow> Inr [(target, tp_print_json x (build_rpc_payload m (ct_rpc_id config) cmd (ct_field_map config)))]
                     | None \<Rightarrow>
                         (case ct_attribute config of
                            Some a \<Rightarrow>
                              let v = unwrap_or (json_get cmd a) JNull in
                              (case (case map_of (ct_coerce config) a of None \<Rightarrow> Inr v | Some c \<Rightarrow> coerce_value c v) of
                                 Inl e \<Rightarrow> Inl (RouteError e)
                               | Inr w \<Rightarrow> Inr [(target, value_to_bytes x w)])
                          | None \<Rightarrow>
                              Inr [(target, tp_print_json x (apply_field_map_cmd cmd (ct_field_map config) (ct_coerce config)))])))))"

fun route_cmds ::
  "topic_ext \<Rightarrow> (segment list \<times> cmd_topic_config) list \<Rightarrow> string \<Rightarrow> bytes \<Rightarrow> (route_stop, (string \<times> bytes) list option) result"
where
  "route_cmds x [] topic payload = Inr None"
| "route_cmds x ((segs, config) # rest) topic payload =
     (case match_segments segs topic of
        Inl stop \<Rightarrow> Inl stop
      | Inr None \<Rightarrow> route_cmds x rest topic payload
      | Inr (Some vars) \<Rightarrow> try_bind (apply_cmd x config vars payload) (\<lambda>r. Inr (Some r)))"

definition route_outbound ::
  "topic_ext \<Rightarrow> router \<Rightarrow> string \<Rightarrow> bytes \<Rightarrow> (route_stop, (string \<times> bytes) list option) result"
where
  "route_outbound x r topic payload = route_cmds x (rt_cmd_entries r) topic payload"

text \<open>The router as the bridge calls it, as long as no pattern panics.\<close>

definition stop_error :: "(route_stop, 'a) result \<Rightarrow> (string, 'a) result" where
  "stop_error r = (case r of Inr a \<Rightarrow> Inr a | Inl (RouteError e) \<Rightarrow> Inl e | Inl RoutePanic \<Rightarrow> Inl ''panic'')"

definition bridge_router :: "topic_ext \<Rightarrow> router \<Rightarrow> ecosystem_router" where
  "bridge_router x r =
     \<lparr>er_outbound = (\<lambda>topic payload. stop_error (route_outbound x r topic payload)),
      er_inbound = (\<lambda>topic payload. stop_error (route_inbound x r topic payload))\<rparr>"

end
