(* ===== verification/Topic_Theorems.thy ===== *)
theory Topic_Theorems
  imports Topic_Map
begin

text \<open>
  What the mapping of topics promises: a pattern matches exactly the topics that are instances of it,
  unless a prefix and a suffix overlap, which panics; levels of lights survive the way to per cent
  and back, and a light that is on never reads or gets zero.
\<close>

subsection \<open>The error of rounding\<close>

text \<open>The relative error of one rounding.\<close>

definition eps :: rat where
  "eps = 1 / 2 ^ 53"

lemma eps: "0 < eps" "eps \<le> 1 / 1000000000000"
  by (simp_all add: eps_def)

lemma pow2_powi: "pow2 e = 2 powi e"
  by (cases "0 \<le> e") (simp_all add: pow2_def power_int_def power_one_over inverse_eq_divide)

lemma round_half_even_error:
  assumes "0 < d"
  shows "\<bar>rat_of_nat (round_half_even n d) - rat_of_nat n / rat_of_nat d\<bar> \<le> 1 / 2"
proof -
  define q r where "q = n div d" and "r = n mod d"
  have n: "n = d * q + r" and r: "r < d" using assms by (simp_all add: q_def r_def)
  have split: "rat_of_nat n / rat_of_nat d = rat_of_nat q + rat_of_nat r / rat_of_nat d"
    using assms by (simp add: n field_simps)
  define f where "f = rat_of_nat r / rat_of_nat d"
  have f: "0 \<le> f" "f < 1" using r by (simp_all add: f_def)
  have cast: "rat_of_nat (2 * r) = 2 * rat_of_nat r" by simp
  have low: "f \<le> 1 / 2" if "2 * r \<le> d"
    using of_nat_mono [OF that, where 'a = rat] assms unfolding f_def cast by (simp add: divide_le_eq)
  have high: "1 / 2 \<le> f" if "d \<le> 2 * r"
    using of_nat_mono [OF that, where 'a = rat] assms unfolding f_def cast by (simp add: le_divide_eq)
  show ?thesis
    unfolding round_half_even_def split Let_def q_def [symmetric] r_def [symmetric] f_def [symmetric]
    using f low high by (auto simp: abs_le_iff)
qed

lemma leading_exp_below:
  assumes "0 < q"
  shows "pow2 (leading_exp q) \<le> q"
proof -
  obtain n d where nd: "quotient_of q = (n, d)" by fastforce
  have d: "0 < d" "q = rat_of_int n / rat_of_int d" using quotient_of_denom_pos [OF nd] quotient_of_div [OF nd] by simp_all
  then have n: "0 < n" using assms by (simp add: zero_less_divide_iff)
  define e where "e = bitlen n - bitlen d"
  have n_low: "2 powi (bitlen n - 1) \<le> rat_of_int n"
  proof -
    have "2 ^ nat (bitlen n - 1) \<le> n" using bitlen_bounds [OF n] by simp
    then have "(2 :: rat) ^ nat (bitlen n - 1) \<le> rat_of_int n"
      by (metis of_int_le_iff of_int_numeral of_int_power)
    then show ?thesis using bitlen_pos [OF n] by (simp add: power_int_def)
  qed
  have d_high: "rat_of_int d \<le> 2 powi (bitlen d)"
  proof -
    have "d \<le> 2 ^ nat (bitlen d)" using bitlen_bounds [OF d(1)] by simp
    then have "rat_of_int d \<le> (2 :: rat) ^ nat (bitlen d)"
      by (metis of_int_le_iff of_int_numeral of_int_power)
    then show ?thesis using bitlen_pos [OF d(1)] by (simp add: power_int_def)
  qed
  have "2 powi (e - 1) = 2 powi (bitlen n - 1) / (2 :: rat) powi (bitlen d)"
  proof -
    have "e - 1 = (bitlen n - 1) - bitlen d" by (simp add: e_def)
    then show ?thesis by (metis power_int_diff zero_neq_numeral)
  qed
  also have "\<dots> \<le> rat_of_int n / rat_of_int d"
    using n_low d_high d(1) n by (intro frac_le) simp_all
  finally show ?thesis by (simp add: leading_exp_def nd Let_def e_def [symmetric] pow2_powi d(2) [symmetric])
qed

lemma round_pos_error:
  assumes "0 < q"
  shows "\<bar>round_pos q - q\<bar> \<le> (q + 1) * eps"
proof -
  define e where "e = max (leading_exp q - 52) (- 1074)"
  define p where "p = (2 :: rat) powi e"
  have p: "0 < p" by (simp add: p_def)
  obtain n d where nd: "quotient_of (q / p) = (n, d)" by fastforce
  have d: "0 < d" "q / p = rat_of_int n / rat_of_int d" using quotient_of_denom_pos [OF nd] quotient_of_div [OF nd] by simp_all
  have "0 < q / p" using assms p by simp
  then have n: "0 \<le> n" unfolding d(2) using d(1) by (simp add: zero_less_divide_iff)
  have "\<bar>rat_of_nat (round_scaled (q / p)) - q / p\<bar> \<le> 1 / 2"
    using round_half_even_error [of "nat d" "nat n"] d(1) n by (simp add: round_scaled_def nd d(2) [symmetric])
  then have "\<bar>(rat_of_nat (round_scaled (q / p)) - q / p) * p\<bar> \<le> 1 / 2 * p"
    using p by (simp add: abs_mult mult_right_mono)
  then have err: "\<bar>round_pos q - q\<bar> \<le> p / 2"
    using p by (simp add: round_pos_def e_def [symmetric] pow2_powi p_def [symmetric] Let_def left_diff_distrib)
  show ?thesis
  proof (cases "e = leading_exp q - 52")
    case True
    then have "p = pow2 (leading_exp q) / 2 ^ 52" by (simp add: p_def pow2_powi power_int_diff)
    then have "p / 2 \<le> q * eps" using leading_exp_below [OF assms] by (simp add: eps_def)
    then show ?thesis using err eps(1) by (simp add: distrib_right)
  next
    case False
    then have "e = - 1074" by (simp add: e_def max_def split: if_splits)
    then have "p = 1 / 2 ^ 1074" by (simp add: p_def power_int_def power_one_over)
    also have "\<dots> \<le> eps" unfolding eps_def by (intro divide_left_mono power_increasing) simp_all
    finally have "p / 2 \<le> eps" using p by linarith
    then show ?thesis using err assms eps(1) by (simp add: distrib_right mult_pos_pos add_increasing)
  qed
qed

lemma round_f64_near:
  assumes "0 < q" "q \<le> 2 ^ 60"
  shows "\<exists>r. round_f64 q = Fin r \<and> \<bar>r - q\<bar> \<le> (q + 1) * eps"
proof -
  have "(q + 1) * eps \<le> 2 ^ 60" using assms by (simp add: eps_def)
  then have "round_pos q \<le> 2 ^ 60 + 2 ^ 60" using round_pos_error [OF assms(1)] assms(2) by linarith
  also have "\<dots> < (2 :: rat) ^ 1024" 
  proof -
    have "(2 :: rat) ^ 62 \<le> 2 ^ 1024" by (rule power_increasing) simp_all
    then show ?thesis by simp
  qed
  finally show ?thesis using round_pos_error [OF assms(1)] assms(1) by (simp add: round_f64_def Let_def)
qed

subsection \<open>Levels of lights\<close>

lemma near:
  assumes "\<bar>q - p\<bar> \<le> c * eps" "0 < q" "q \<le> 2 ^ 60" "q + 1 + c \<le> b"
  shows "\<exists>r. round_f64 q = Fin r \<and> \<bar>r - p\<bar> \<le> b * eps"
proof -
  obtain r where r: "round_f64 q = Fin r" "\<bar>r - q\<bar> \<le> (q + 1) * eps" using round_f64_near [OF assms(2,3)] by auto
  have "\<bar>r - p\<bar> \<le> (q + 1) * eps + c * eps" using r(2) assms(1) by linarith
  also have "\<dots> = (q + 1 + c) * eps" by (simp add: distrib_right)
  also have "\<dots> \<le> b * eps" using assms(4) eps(1) by (intro mult_right_mono) simp_all
  finally show ?thesis using r(1) by blast
qed

lemma level_percent:
  assumes "1 \<le> n" "n \<le> 254"
  shows "\<exists>c. pct254_to_100 (Fin (rat_of_int n)) = Fin c \<and> \<bar>c - 100 * rat_of_int n / 254\<bar> \<le> 1 / 20 + 1000 * eps"
proof -
  let ?n = "rat_of_int n"
  have n: "1 \<le> ?n" "?n \<le> 254" using assms by (simp_all add: of_int_le_iff [of 1 n, symmetric] of_int_le_iff [of n 254, symmetric])
  obtain a where a: "round_f64 (?n / 254) = Fin a" "\<bar>a - ?n / 254\<bar> \<le> 2 * eps"
    using near [of "?n / 254" "?n / 254" 0 2] n by auto
  have a': "0 < a" "a \<le> 2" using a(2) n eps unfolding abs_le_iff by linarith+
  obtain b where b: "round_f64 (a * 1000) = Fin b" "\<bar>b - 1000 * ?n / 254\<bar> \<le> 5000 * eps"
    using near [of "a * 1000" "1000 * ?n / 254" 2000 5000] a(2) a' by (auto simp: abs_le_iff)
  define k where "k = rat_of_int \<lfloor>b + 1 / 2\<rfloor>"
  have k: "\<bar>k - b\<bar> \<le> 1 / 2" unfolding k_def abs_le_iff by linarith
  have k': "3 \<le> k" "k \<le> 1002" using k b(2) n eps unfolding abs_le_iff by linarith+
  obtain c where c: "round_f64 (k / 10) = Fin c" "\<bar>c - k / 10\<bar> \<le> 200 * eps"
    using near [of "k / 10" "k / 10" 0 200] k' by auto
  obtain t where t: "round_f64 (1 / 10) = Fin t" "\<bar>t - 1 / 10\<bar> \<le> 2 * eps"
    using near [of "1 / 10" "1 / 10" 0 2] by auto
  have "t \<le> c" "0 \<le> b" using t(2) c(2) k' k eps unfolding abs_le_iff by linarith+
  moreover have "\<bar>c - 100 * ?n / 254\<bar> \<le> 1 / 20 + 1000 * eps"
    using c(2) k b(2) eps unfolding abs_le_iff by linarith
  ultimately show ?thesis
    using n a(1) b(1) c(1) t(1)
    by (simp add: pct254_to_100_def f64_over_def f64_times_def f64_round_def k_def [symmetric] f64_max_def is_nan_def Let_def)
qed

lemma percent_level:
  assumes "1 \<le> n" "n \<le> 254" "\<bar>c - 100 * rat_of_int n / 254\<bar> \<le> 1 / 20 + 1000 * eps"
  shows "pct100_to_254 (Fin c) = Fin (rat_of_int n)"
proof -
  let ?n = "rat_of_int n"
  have n: "1 \<le> ?n" "?n \<le> 254" using assms by (simp_all add: of_int_le_iff [of 1 n, symmetric] of_int_le_iff [of n 254, symmetric])
  have c: "1 / 5 \<le> c" "c \<le> 101" using assms(3) n eps unfolding abs_le_iff by linarith+
  obtain d where d: "round_f64 (c / 100) = Fin d" "\<bar>d - c / 100\<bar> \<le> 3 * eps"
    using near [of "c / 100" "c / 100" 0 3] c by auto
  have d': "0 < d" "d \<le> 2" using d(2) c eps unfolding abs_le_iff by linarith+
  obtain e where e: "round_f64 (d * 254) = Fin e" "\<bar>e - c * 254 / 100\<bar> \<le> 2000 * eps"
    using near [of "d * 254" "c * 254 / 100" 762 2000] d(2) d' by (auto simp: abs_le_iff)
  have "\<bar>e - ?n\<bar> < 1 / 2" using e(2) assms(3) eps unfolding abs_le_iff abs_less_iff by linarith
  then have "\<lfloor>e + 1 / 2\<rfloor> = n" "0 \<le> e" using n unfolding abs_less_iff floor_eq_iff by linarith+
  then show ?thesis
    using n c d(1) e(1)
    by (simp add: pct100_to_254_def f64_over_def f64_times_def f64_round_def f64_max_def is_nan_def Let_def)
qed

lemma f64_to_i64_int: "\<bar>i\<bar> \<le> 2 ^ 53 \<Longrightarrow> f64_to_i64 (Fin (rat_of_int i)) = i"
  by (simp add: f64_to_i64_def abs_le_iff)

text \<open>The number a coercion reads from what another one wrote.\<close>

lemma whole_number_read:
  assumes "\<bar>q\<bar> \<le> 2 ^ 20"
  shows "coerce_f64 (whole_number (Fin q)) = Inr (Fin q)"
proof (cases "q = rat_of_int \<lfloor>q\<rfloor>")
  case True
  have "\<bar>rat_of_int \<lfloor>q\<rfloor>\<bar> \<le> 2 ^ 53" using assms True by simp
  then have "\<bar>\<lfloor>q\<rfloor>\<bar> \<le> 2 ^ 53" by (metis of_int_abs of_int_le_iff of_int_numeral of_int_power)
  from as_f64_json_int [OF this] show ?thesis using True assms by (simp add: whole_number_def coerce_f64_def)
qed (simp add: whole_number_def coerce_f64_def)

text \<open>
  C26. The level of a light survives the way to per cent and back: a level from 0 to 254, read as per
  cent and written as a level again, is the level it was.
\<close>

theorem levels_round_trip:
  assumes "0 \<le> n" "n \<le> 254"
  shows "\<exists>v. coerce_value ''pct254_to_100'' (json_int n) = Inr v \<and> coerce_value ''pct100_to_254'' v = Inr (json_int n)"
proof -
  have read: "coerce_f64 (json_int n) = Inr (Fin (rat_of_int n))"
    using as_f64_json_int [of n] assms by (simp add: coerce_f64_def)
  have there: "coerce_value ''pct254_to_100'' (json_int n) = Inr (whole_number (pct254_to_100 (Fin (rat_of_int n))))"
    by (simp add: coerce_value_def read)
  have home: "coerce_value ''pct100_to_254'' (whole_number (Fin c)) = Inr (json_int (f64_to_i64 (pct100_to_254 (Fin c))))"
    if "\<bar>c\<bar> \<le> 2 ^ 20" for c
    by (simp add: coerce_value_def whole_number_read [OF that])
  show ?thesis
  proof (cases "n = 0")
    case True
    have zero: "pct254_to_100 (Fin 0) = Fin 0" "pct100_to_254 (Fin 0) = Fin 0" "f64_to_i64 (Fin 0) = 0"
      by (simp_all add: pct254_to_100_def pct100_to_254_def f64_to_i64_def Let_def)
    show ?thesis using there home [of 0] by (simp add: True zero)
  next
    case False
    then obtain c where c: "pct254_to_100 (Fin (rat_of_int n)) = Fin c" "\<bar>c - 100 * rat_of_int n / 254\<bar> \<le> 1 / 20 + 1000 * eps"
      using level_percent [of n] assms by auto
    have "0 \<le> rat_of_int n" "rat_of_int n \<le> 254"
      using assms by (simp_all add: of_int_le_iff [of n 254, symmetric])
    then have "c \<le> 200" "- 200 \<le> c" using c(2) eps unfolding abs_le_iff by linarith+
    then have "\<bar>c\<bar> \<le> 2 ^ 20" by simp
    then show ?thesis
      using there home [of c] percent_level [OF _ assms(2) c(2)] c(1) False assms f64_to_i64_int [of n] by simp
  qed
qed

theorem levels_round_trip_witness:
  "\<exists>v. coerce_value ''pct254_to_100'' (json_int 77) = Inr v \<and> coerce_value ''pct100_to_254'' v = Inr (json_int 77)"
  using levels_round_trip [of 77] by simp

lemma round_f64_range:
  assumes "0 \<le> q" "q \<le> 2 ^ 59"
  shows "\<exists>r. round_f64 q = Fin r \<and> 0 \<le> r \<and> r \<le> 2 * q + 1"
proof (cases "q = 0")
  case False
  then have q: "0 < q" "q \<le> 2 ^ 60" using assms by simp_all
  obtain r where r: "round_f64 q = Fin r" "\<bar>r - q\<bar> \<le> (q + 1) * eps" using round_f64_near [OF q] by blast
  have "(q + 1) * eps \<le> (q + 1) * 1" using eps q(1) by (intro mult_left_mono) linarith+
  then have "r \<le> 2 * q + 1" using r(2) unfolding abs_le_iff by simp
  moreover have "0 \<le> round_pos q" by (simp add: round_pos_def Let_def pow2_powi)
  then have "0 \<le> r" using r(1) q(1) by (auto simp: round_f64_def Let_def split: if_splits)
  ultimately show ?thesis using r(1) by blast
qed (simp add: round_f64_def)

lemma round_away_range:
  assumes "0 \<le> q" "q \<le> b"
  shows "\<exists>r. f64_round (Fin q) = Fin r \<and> 0 \<le> r \<and> r \<le> b + 1 / 2"
proof -
  have "0 \<le> \<lfloor>q + 1 / 2\<rfloor>" "rat_of_int \<lfloor>q + 1 / 2\<rfloor> \<le> q + 1 / 2" using assms(1) by simp_all
  then show ?thesis using assms by (simp add: f64_round_def) linarith
qed

lemma tenth: "\<exists>t. round_f64 (1 / 10) = Fin t \<and> 0 < t \<and> t \<le> 1"
proof -
  obtain t where t: "round_f64 (1 / 10) = Fin t" "\<bar>t - 1 / 10\<bar> \<le> 2 * eps" using near [of "1 / 10" "1 / 10" 0 2] by auto
  have "0 < t" "t \<le> 1" using t(2) eps unfolding abs_le_iff by linarith+
  with t(1) show ?thesis by blast
qed

lemma pct254_positive:
  assumes "0 < q" "q \<le> 2 ^ 40"
  shows "\<exists>p. pct254_to_100 (Fin q) = Fin p \<and> 0 < p \<and> p \<le> 2 ^ 60"
proof -
  obtain a where a: "round_f64 (q / 254) = Fin a" "0 \<le> a" "a \<le> 2 ^ 42"
    using round_f64_range [of "q / 254"] assms by fastforce
  obtain b where b: "round_f64 (a * 1000) = Fin b" "0 \<le> b" "b \<le> 2 ^ 54"
    using round_f64_range [of "a * 1000"] a by fastforce
  obtain c where c: "f64_round (Fin b) = Fin c" "0 \<le> c" "c \<le> 2 ^ 55"
    using round_away_range [of b "2 ^ 54"] b by fastforce
  obtain d where d: "round_f64 (c / 10) = Fin d" "0 \<le> d" "d \<le> 2 ^ 60"
    using round_f64_range [of "c / 10"] c by fastforce
  obtain t where t: "round_f64 (1 / 10) = Fin t" "0 < t" "t \<le> 1" using tenth by blast
  show ?thesis
    using assms(1) a b c d t by (simp add: pct254_to_100_def f64_over_def f64_times_def f64_max_def is_nan_def Let_def)
qed

lemma pct100_positive:
  assumes "0 < q" "q \<le> 2 ^ 40"
  shows "\<exists>n. pct100_to_254 (Fin q) = Fin (rat_of_int n) \<and> 1 \<le> n \<and> n \<le> 2 ^ 50"
proof -
  obtain a where a: "round_f64 (q / 100) = Fin a" "0 \<le> a" "a \<le> 2 ^ 36"
    using round_f64_range [of "q / 100"] assms by fastforce
  obtain b where b: "round_f64 (a * 254) = Fin b" "0 \<le> b" "b \<le> 2 ^ 46"
    using round_f64_range [of "a * 254"] a by fastforce
  define n where "n = max 1 \<lfloor>b + 1 / 2\<rfloor>"
  have "\<lfloor>b + 1 / 2\<rfloor> \<le> 2 ^ 50" using b(3) by (intro floor_le_iff [THEN iffD2]) simp
  then have "1 \<le> n" "n \<le> 2 ^ 50" by (simp_all add: n_def)
  moreover have "pct100_to_254 (Fin q) = Fin (rat_of_int n)"
    using assms(1) a b by (simp add: pct100_to_254_def f64_over_def f64_times_def f64_round_def f64_max_def is_nan_def Let_def n_def max_def)
  ultimately show ?thesis by blast
qed

lemma json_int_positive: "1 \<le> n \<Longrightarrow> n \<le> 2 ^ 53 \<Longrightarrow> \<exists>p. as_f64 (json_int n) = Some (Fin p) \<and> 0 < p"
  using as_f64_json_int [of n] by simp

text \<open>
  A light that is on never reads or gets zero: a positive number, however small, coerced from
  Zigbee's level to per cent or back, is a positive number.
\<close>

theorem dimmed_light_stays_on:
  assumes "coerce_f64 v = Inr (Fin q)" "0 < q" "q \<le> 2 ^ 40" "name \<in> {''pct254_to_100'', ''pct100_to_254''}"
  shows "\<exists>w p. coerce_value name v = Inr w \<and> as_f64 w = Some (Fin p) \<and> 0 < p"
proof (cases "name = ''pct254_to_100''")
  case True
  obtain p where p: "pct254_to_100 (Fin q) = Fin p" "0 < p" using pct254_positive [OF assms(2,3)] by blast
  have "\<exists>r. as_f64 (whole_number (Fin p)) = Some (Fin r) \<and> 0 < r"
  proof (cases "p = rat_of_int \<lfloor>p\<rfloor> \<and> \<bar>p\<bar> < 10 ^ 15")
    case True
    then have "0 < \<lfloor>p\<rfloor>" "\<lfloor>p\<rfloor> < 10 ^ 15" using p(2) by (metis of_int_0_less_iff, simp add: floor_less_iff)
    then show ?thesis using True json_int_positive [of "\<lfloor>p\<rfloor>"] by (simp add: whole_number_def)
  qed (use p(2) in \<open>auto simp: whole_number_def\<close>)
  then show ?thesis using assms(1) p(1) True by (simp add: coerce_value_def)
next
  case False
  obtain n where n: "pct100_to_254 (Fin q) = Fin (rat_of_int n)" "1 \<le> n" "n \<le> 2 ^ 50"
    using pct100_positive [OF assms(2,3)] by blast
  then show ?thesis
    using False assms(1,4) f64_to_i64_int [of n] json_int_positive [of n] by (simp add: coerce_value_def)
qed

theorem dimmed_light_stays_on_witness:
  "\<exists>w p. coerce_value ''pct254_to_100'' (json_int 1) = Inr w \<and> as_f64 w = Some (Fin p) \<and> 0 < p"
  using dimmed_light_stays_on [of "json_int 1" 1 "''pct254_to_100''"] as_f64_json_int [of 1] by (simp add: coerce_f64_def)

subsection \<open>Patterns and their instances\<close>

fun names :: "segment list \<Rightarrow> string list" where
  "names [] = []"
| "names (Literal _ # segs) = names segs"
| "names (Capture n # segs) = n # names segs"
| "names (PartialCapture _ n _ # segs) = n # names segs"

text \<open>The levels of a topic that a pattern and the texts for its variables make.\<close>

fun fill :: "segment list \<Rightarrow> string list \<Rightarrow> string list" where
  "fill [] vs = []"
| "fill (Literal lit # segs) vs = lit # fill segs vs"
| "fill (Capture _ # segs) vs = hd vs # fill segs (tl vs)"
| "fill (PartialCapture p _ s # segs) vs = (p @ hd vs @ s) # fill segs (tl vs)"

lemma update_new: "k \<notin> fst ` set al \<Longrightarrow> AList.update k v al = al @ [(k, v)]"
  by (induction al) auto

lemma ends_with_iff: "ends_with p s \<longleftrightarrow> (\<exists>t. s = t @ p)"
proof -
  have "ends_with p s \<longleftrightarrow> (\<exists>t. rev s = rev p @ t)" by (simp add: ends_with_def starts_with_iff)
  also have "\<dots> \<longleftrightarrow> (\<exists>t. s = t @ p)" by (metis rev_append rev_rev_ident)
  finally show ?thesis .
qed

lemma partial_part:
  "starts_with p part \<and> ends_with s part \<and> length p + length s \<le> length part \<and> v = take (length part - length s - length p) (drop (length p) part)
     \<longleftrightarrow> part = p @ v @ s"
proof
  assume l: "starts_with p part \<and> ends_with s part \<and> length p + length s \<le> length part
    \<and> v = take (length part - length s - length p) (drop (length p) part)"
  then have p: "take (length p) part = p" by (simp add: starts_with_def)
  from l obtain u where u: "part = u @ s" by (auto simp: ends_with_iff)
  with l have "length p \<le> length u" by simp
  with p u have "take (length p) u = p" by simp
  then have "u = p @ drop (length p) u" by (metis append_take_drop_id)
  moreover have "v = drop (length p) u" using l u by simp
  ultimately show "part = p @ v @ s" using u by (metis append.assoc)
qed (auto simp: starts_with_iff ends_with_iff)

lemma match_parts_instance:
  assumes "length parts = length segs" "distinct (names segs)" "set (names segs) \<inter> fst ` set acc = {}"
  shows "match_parts segs parts acc = Inr (Some vars)
    \<longleftrightarrow> (\<exists>vs. length vs = length (names segs) \<and> parts = fill segs vs \<and> vars = acc @ zip (names segs) vs)"
  using assms
proof (induction segs parts acc rule: match_parts.induct)
  case (2 n segs part parts acc)
  then show ?case
    by (auto simp: update_new Suc_length_conv length_Suc_conv) (metis append.assoc append_Cons append_Nil length_Cons list.sel(1,3) zip_Cons_Cons)+
next
  case (3 p n s segs part parts acc)
  define v where "v = take (length part - length s - length p) (drop (length p) part)"
  show ?case
  proof (cases "starts_with p part \<and> ends_with s part \<and> length p + length s \<le> length part")
    case True
    then have part: "part = p @ v @ s" using partial_part [of p part s v] by (simp add: v_def)
    have step: "match_parts (PartialCapture p n s # segs) (part # parts) acc = match_parts segs parts (acc @ [(n, v)])"
      using True "3.prems" by (simp add: v_def update_new)
    have IH: "match_parts segs parts (acc @ [(n, v)]) = Inr (Some vars)
      \<longleftrightarrow> (\<exists>vs. length vs = length (names segs) \<and> parts = fill segs vs \<and> vars = (acc @ [(n, v)]) @ zip (names segs) vs)"
      using "3.IH" "3.prems" True unfolding v_def by (simp add: update_new)
    have "(\<exists>vs'. length vs' = length (names (PartialCapture p n s # segs)) \<and> part # parts = fill (PartialCapture p n s # segs) vs'
        \<and> vars = acc @ zip (names (PartialCapture p n s # segs)) vs')
      \<longleftrightarrow> (\<exists>w vs. w = v \<and> length vs = length (names segs) \<and> parts = fill segs vs \<and> vars = acc @ (n, w) # zip (names segs) vs)"
      (is "?L \<longleftrightarrow> ?R")
    proof
      assume ?L
      then obtain w vs where "length vs = length (names segs)" "part # parts = fill (PartialCapture p n s # segs) (w # vs)"
        "vars = acc @ zip (names (PartialCapture p n s # segs)) (w # vs)"
        by (auto simp: length_Suc_conv)
      then have "w = v \<and> length vs = length (names segs) \<and> parts = fill segs vs \<and> vars = acc @ (n, w) # zip (names segs) vs"
        using part by simp
      then show ?R by blast
    next
      assume ?R
      then obtain vs where "length vs = length (names segs)" "parts = fill segs vs" "vars = acc @ (n, v) # zip (names segs) vs" by blast
      then show ?L using part by (intro exI [of _ "v # vs"]) simp
    qed
    then show ?thesis unfolding step IH by simp
  next
    case False
    have "part \<noteq> p @ w @ s" for w using partial_part [of p part s w] False by auto
    then show ?thesis using False by auto
  qed
qed auto

text \<open>
  C27. A pattern matches exactly the topics that are instances of it: with different names for its
  variables, it gives them the texts \<open>vs\<close> just when the levels of the topic are the pattern's with
  \<open>vs\<close> filled in.
\<close>

theorem match_is_instance:
  assumes "distinct (names (parse_pattern pattern))"
  shows "match_segments (parse_pattern pattern) topic = Inr (Some vars)
    \<longleftrightarrow> (\<exists>vs. length vs = length (names (parse_pattern pattern)) \<and> vars = zip (names (parse_pattern pattern)) vs
          \<and> split_on CHR ''/'' topic = fill (parse_pattern pattern) vs)"
proof -
  have "length (fill segs vs) = length segs" for segs vs
    by (induction segs vs rule: fill.induct) auto
  then show ?thesis
    using match_parts_instance [OF _ assms, of "split_on CHR ''/'' topic" "[]" vars]
    by (cases "length (split_on CHR ''/'' topic) = length (parse_pattern pattern)") (auto simp: match_segments_def Let_def)
qed

theorem match_is_instance_witness:
  "match_segments (parse_pattern ''shellies/{device}/relay/{n}'') ''shellies/lamp/relay/0'' = Inr (Some [(''device'', ''lamp''), (''n'', ''0'')])"
proof -
  have pat: "parse_pattern ''shellies/{device}/relay/{n}'' = [Literal ''shellies'', Capture ''device'', Literal ''relay'', Capture ''n'']"
    by code_simp
  have lev: "split_on CHR ''/'' ''shellies/lamp/relay/0'' = [''shellies'', ''lamp'', ''relay'', ''0'']" by code_simp
  show ?thesis
    by (subst match_is_instance) (use pat lev in \<open>auto intro!: exI [of _ "[''lamp'', ''0'']"]\<close>)
qed

text \<open>A level at which a prefix and a suffix overlap, with every level before it matched.\<close>

definition overlaps :: "segment \<Rightarrow> string \<Rightarrow> bool" where
  "overlaps seg part \<longleftrightarrow>
     (case seg of PartialCapture p _ s \<Rightarrow> starts_with p part \<and> ends_with s part \<and> length part < length p + length s | _ \<Rightarrow> False)"

lemma overlaps_simps [simp]:
  "\<not> overlaps (Literal l) part" "\<not> overlaps (Capture n) part"
  "overlaps (PartialCapture p n s) part \<longleftrightarrow> starts_with p part \<and> ends_with s part \<and> length part < length p + length s"
  by (simp_all add: overlaps_def)

lemma match_parts_panics:
  assumes "length parts = length segs"
  shows "match_parts segs parts acc = Inl stop \<longleftrightarrow> stop = RoutePanic \<and>
    (\<exists>k<length segs. overlaps (segs ! k) (parts ! k) \<and> (\<exists>vars. match_parts (take k segs) (take k parts) acc = Inr (Some vars)))"
  using assms
  by (induction segs parts acc rule: match_parts.induct) (auto simp: Ex_less_Suc2)

text \<open>
  A topic stops the router if a prefix and a suffix overlap in it: matching panics exactly when
  the topic has as many levels as the pattern and one of them starts with the prefix and ends with the
  suffix of its place but is shorter than both together, while all levels before it match.
\<close>

theorem overlapping_level_panics:
  "match_segments segs topic = Inl stop \<longleftrightarrow> stop = RoutePanic \<and> length (split_on CHR ''/'' topic) = length segs
    \<and> (\<exists>k<length segs. overlaps (segs ! k) (split_on CHR ''/'' topic ! k)
        \<and> (\<exists>vars. match_parts (take k segs) (take k (split_on CHR ''/'' topic)) [] = Inr (Some vars)))"
  using match_parts_panics [of "split_on CHR ''/'' topic" segs "[]" stop]
  by (auto simp: match_segments_def Let_def)

text \<open>The relay pattern of the shipped Shelly profile has such a topic.\<close>

lemma shelly_relay_topic_panics:
  "match_segments (parse_pattern ''homecore/devices/shelly_{device}_relay0/cmd'') ''homecore/devices/shelly_relay0/cmd'' = Inl RoutePanic"
  by code_simp

end
