(* ===== verification/Alerts.thy ===== *)
theory Alerts
  imports Topic_Map Battery
begin

text \<open>
  Alerts (\<open>hc-types/src/alert.rs\<close>, \<open>hc-core/src/alerts.rs\<close>, \<open>hc-state/src/alert_rule_store.rs\<close>, the
  acknowledgement of \<open>hc-api/src/alert_handlers.rs\<close>): what the house's state calls for, and how the
  difference to what was active is announced. A pass of the engine is cut where other tasks can come in
  between: it looks at the store and the active alerts, settles the acknowledgements, and announces. The
  acknowledgement of a person is cut between the change and its announcement. Case and classes of
  Unicode characters, texts of numbers and the parser of times are parameters. Locks are not
  poisoned and the store can be read.
\<close>

subsection \<open>Texts\<close>

record alert_ext =
  lx_lower :: "string \<Rightarrow> string"
  lx_upper :: "string \<Rightarrow> string"
  lx_is_uppercase :: "string \<Rightarrow> bool"
  lx_is_alphabetic :: "string \<Rightarrow> bool"
  lx_show_json :: "json \<Rightarrow> string"
  lx_show_f64 :: "f64 \<Rightarrow> string"
  lx_time_of_day :: "string \<Rightarrow> nanos option"

text \<open>The characters of a text, each as its bytes, and its words.\<close>

function chars :: "string \<Rightarrow> string list" where
  "chars s = (if s = [] then [] else take (snd (utf8_step s)) s # chars (drop (snd (utf8_step s)) s))"
  by auto
termination
  by (relation "measure length") (auto simp: utf8_step_pos)

declare chars.simps [simp del]

definition split_whitespace :: "string \<Rightarrow> string list list" where
  "split_whitespace s =
     filter (\<lambda>w. w \<noteq> []) (foldr (\<lambda>c ws. if c \<in> set white_space then [] # ws else (c # hd ws) # tl ws) (chars s) [[]])"

definition lower_first :: "alert_ext \<Rightarrow> string \<Rightarrow> string" where
  "lower_first x s =
     (let words = split_whitespace s; first = (case words of [] \<Rightarrow> [] | w # _ \<Rightarrow> w);
          letters = filter (lx_is_alphabetic x) first;
          abbreviation = (1 < length letters \<and> list_all (lx_is_uppercase x) letters);
          titled = (case words of _ # w # _ \<Rightarrow> lx_is_uppercase x (hd w) | _ \<Rightarrow> False) in
      if abbreviation \<or> titled then s
      else case chars s of [] \<Rightarrow> [] | c # cs \<Rightarrow> lx_lower x c @ concat cs)"

definition plugin_name :: "alert_ext \<Rightarrow> string \<Rightarrow> string" where
  "plugin_name x plugin_id =
     (let bare = (if starts_with ''plugin.'' plugin_id then drop 7 plugin_id else plugin_id) in
      case chars bare of [] \<Rightarrow> plugin_id | c # cs \<Rightarrow> lx_upper x c @ concat cs)"

subsection \<open>Time rules\<close>

datatype alert_op = AlEq | AlNe | AlAbove | AlBelow

record alert_rule =
  lr_id :: string
  lr_name :: string
  lr_enabled :: bool
  lr_device_ids :: "string list"
  lr_attribute :: string
  lr_value :: json
  lr_op :: alert_op
  lr_state_label :: "string option"
  lr_after :: "string option"
  lr_until :: "string option"
  lr_for_minutes :: "nat option"
  lr_severity :: alert_severity
  lr_notify :: "string option"

record topic_setting =
  ts_plugin_id :: string
  ts_topic :: string
  ts_enabled :: "bool option"
  ts_notify :: "string option"

definition same_value :: "json \<Rightarrow> json \<Rightarrow> bool" where
  "same_value a b \<longleftrightarrow> (case (as_f64 a, as_f64 b) of (Some p, Some q) \<Rightarrow> f64_eq p q | _ \<Rightarrow> a = b)"

definition alert_rule_matches :: "alert_rule \<Rightarrow> json \<Rightarrow> bool" where
  "alert_rule_matches r actual =
     (let num = option_or (as_f64 actual) (Option.bind (as_str actual) (\<lambda>s. parse_f64 (trim s)));
          both = (\<lambda>cmp. case (num, as_f64 (lr_value r)) of (Some a, Some b) \<Rightarrow> cmp a b | _ \<Rightarrow> False) in
      case lr_op r of
        AlEq \<Rightarrow> same_value actual (lr_value r)
      | AlNe \<Rightarrow> \<not> same_value actual (lr_value r)
      | AlAbove \<Rightarrow> both (\<lambda>a b. f64_lt b a)
      | AlBelow \<Rightarrow> both f64_lt)"

definition in_window :: "alert_ext \<Rightarrow> alert_rule \<Rightarrow> nanos \<Rightarrow> bool" where
  "in_window x r now =
     (case (Option.bind (lr_after r) (lx_time_of_day x), Option.bind (lr_until r) (lx_time_of_day x)) of
        (None, None) \<Rightarrow> True
      | (Some a, None) \<Rightarrow> a \<le> now
      | (None, Some u) \<Rightarrow> now < u
      | (Some a, Some u) \<Rightarrow> if a \<le> u then a \<le> now \<and> now < u else a \<le> now \<or> now < u)"

definition plain :: "alert_ext \<Rightarrow> json \<Rightarrow> string" where
  "plain x v = (case v of JStr s \<Rightarrow> s | _ \<Rightarrow> lx_show_json x v)"

definition describe_alert_rule :: "alert_ext \<Rightarrow> alert_rule \<Rightarrow> string" where
  "describe_alert_rule x r =
     unwrap_or (lr_state_label r)
       (lr_attribute r @ (case lr_op r of AlEq \<Rightarrow> '' is '' | AlNe \<Rightarrow> '' is not '' | AlAbove \<Rightarrow> '' above '' | AlBelow \<Rightarrow> '' below '')
         @ plain x (lr_value r))
     @ (case (lr_after r, lr_until r) of
          (Some a, Some u) \<Rightarrow> '' between '' @ a @ '' and '' @ u
        | (Some a, None) \<Rightarrow> '' after '' @ a
        | (None, Some u) \<Rightarrow> '' before '' @ u
        | (None, None) \<Rightarrow> [])
     @ (case lr_for_minutes r of Some m \<Rightarrow> '' for '' @ show_nat m @ '' min'' | None \<Rightarrow> [])"

definition validate_alert_rule :: "alert_ext \<Rightarrow> alert_rule \<Rightarrow> (string, unit) result" where
  "validate_alert_rule x r =
     (let bad_time = (\<lambda>t. case t of Some s \<Rightarrow> lx_time_of_day x s = None | None \<Rightarrow> False) in
      if trim (lr_name r) = [] then Inl ''give the rule a name''
      else if lr_device_ids r = [] then Inl ''choose at least one device''
      else if trim (lr_attribute r) = [] then Inl ''choose the state that counts''
      else if bad_time (lr_after r) then Inl ''`after` must be a time of day like 22:00''
      else if bad_time (lr_until r) then Inl ''`until` must be a time of day like 22:00''
      else if lr_for_minutes r = Some 0 then Inl ''`for_minutes` must be at least 1, or left out''
      else if lr_severity r \<in> {Info, SevError} then Inl ''severity is `warning` or `critical`''
      else if lr_op r \<in> {AlAbove, AlBelow} \<and> as_f64 (lr_value r) = None
        then Inl ''above and below compare numbers: `value` must be a number''
      else if (case lr_notify r of Some n \<Rightarrow> trim n = [] | None \<Rightarrow> False)
        then Inl ''`notify` names a channel, or is left out''
      else Inr ())"

definition plugin_severity :: "alert_severity \<Rightarrow> alert_severity" where
  "plugin_severity s = (case s of Critical \<Rightarrow> SevError | _ \<Rightarrow> s)"

subsection \<open>The tables\<close>

record alert_tables =
  tb_rules :: "(string \<times> alert_rule) list"
  tb_ignores :: "(string \<times> alert_ignore) list"
  tb_topics :: "(string \<times> topic_setting) list"

definition list_alert_rules :: "alert_tables \<Rightarrow> alert_rule list" where
  "list_alert_rules t = sort_key lr_name (sort_key lr_id (map snd (tb_rules t)))"

definition upsert_alert_rule :: "alert_rule \<Rightarrow> alert_tables \<Rightarrow> alert_tables" where
  "upsert_alert_rule r t = t\<lparr>tb_rules := put (lr_id r) r (tb_rules t)\<rparr>"

definition get_alert_rule :: "alert_tables \<Rightarrow> string \<Rightarrow> alert_rule option" where
  "get_alert_rule t = map_of (tb_rules t)"

definition delete_alert_rule :: "string \<Rightarrow> alert_tables \<Rightarrow> bool \<times> alert_tables" where
  "delete_alert_rule i t = (get_alert_rule t i \<noteq> None, t\<lparr>tb_rules := remove_key i (tb_rules t)\<rparr>)"

definition list_alert_ignores :: "alert_tables \<Rightarrow> alert_ignore list" where
  "list_alert_ignores t = sort_key ai_created_at (sort_key ai_id (map snd (tb_ignores t)))"

definition upsert_alert_ignore :: "alert_ignore \<Rightarrow> alert_tables \<Rightarrow> alert_tables" where
  "upsert_alert_ignore i t = t\<lparr>tb_ignores := put (ai_id i) i (tb_ignores t)\<rparr>"

definition delete_alert_ignore :: "string \<Rightarrow> alert_tables \<Rightarrow> bool \<times> alert_tables" where
  "delete_alert_ignore i t = (map_of (tb_ignores t) i \<noteq> None, t\<lparr>tb_ignores := remove_key i (tb_ignores t)\<rparr>)"

definition topic_key :: "string \<Rightarrow> string \<Rightarrow> string" where
  "topic_key plugin_id topic = plugin_id @ ''/'' @ topic"

definition list_topic_settings :: "alert_tables \<Rightarrow> topic_setting list" where
  "list_topic_settings t = map snd (tb_topics t)"

definition put_topic_setting :: "topic_setting \<Rightarrow> alert_tables \<Rightarrow> alert_tables" where
  "put_topic_setting s t =
     (let k = topic_key (ts_plugin_id s) (ts_topic s) in
      if ts_enabled s = None \<and> ts_notify s = None then t\<lparr>tb_topics := remove_key k (tb_topics t)\<rparr>
      else t\<lparr>tb_topics := put k s (tb_topics t)\<rparr>)"

subsection \<open>What the state of the house calls for\<close>

text \<open>\<open>OFFLINE_AFTER\<close>, in nanoseconds.\<close>

definition OFFLINE_AFTER :: int where
  "OFFLINE_AFTER = 5 * 60 * 1000000000"

type_synonym active = "(string \<times> alert) list"
type_synonym since = "string \<rightharpoonup> timestamp"

definition keep_raised :: "active \<Rightarrow> alert \<Rightarrow> alert" where
  "keep_raised active a = (case map_of active (al_id a) of Some was \<Rightarrow> a\<lparr>al_raised_at := al_raised_at was\<rparr> | None \<Rightarrow> a)"

definition add_alert :: "active \<Rightarrow> alert \<Rightarrow> active \<Rightarrow> active" where
  "add_alert active a out = put (al_id a) (keep_raised active a) out"

definition changed_since :: "device \<Rightarrow> string \<Rightarrow> timestamp option" where
  "changed_since d k = map_of (dv_attributes_changed_at d) k"

definition built_in_id :: "alert_kind \<Rightarrow> string \<Rightarrow> string" where
  "built_in_id kind device_id = alert_kind_as_str kind @ '':'' @ device_id"

definition built_in :: "alert_ext \<Rightarrow> timestamp \<Rightarrow> device \<Rightarrow> alert_kind \<Rightarrow> alert_severity \<Rightarrow> string \<Rightarrow> timestamp option \<Rightarrow> alert" where
  "built_in x now d kind severity reason since =
     \<lparr>al_id = built_in_id kind (dv_id d), al_kind = kind, al_device_id = dv_id d, al_rule_id = None,
      al_message = effective_name d @ '': '' @ lower_first x reason, al_reason = reason, al_severity = severity,
      al_raised_at = unwrap_or since now, al_acknowledged = None, al_plugin_id = None, al_topic = None, al_key = None,
      al_action = None, al_device_plugin_id = Some (dv_plugin_id d)\<rparr>"

definition first_true :: "device \<Rightarrow> string list \<Rightarrow> string option" where
  "first_true d attributes = find (\<lambda>a. map_of (dv_attributes d) a = Some (JBool True)) attributes"

definition offline_part :: "alert_ext \<Rightarrow> timestamp \<Rightarrow> device \<Rightarrow> since \<Rightarrow> since \<times> alert list" where
  "offline_part x now d off =
     (if dv_available d then (off(dv_id d := None), [])
      else
        let since = unwrap_or (off (dv_id d)) now in
        (off(dv_id d \<mapsto> since),
         if OFFLINE_AFTER \<le> max 0 (now - since)
         then [(built_in x now d Offline Warning ''Offline'' (Some since))\<lparr>al_message := effective_name d @ '' is offline''\<rparr>]
         else []))"

definition wet_part :: "alert_ext \<Rightarrow> timestamp \<Rightarrow> device \<Rightarrow> alert list" where
  "wet_part x now d =
     (case first_true d [''water_detected'', ''leak'', ''wet''] of
        None \<Rightarrow> []
      | Some k \<Rightarrow> [built_in x now d Wet Critical ''Wet'' (changed_since d k)])"

definition smoke_part :: "alert_ext \<Rightarrow> timestamp \<Rightarrow> device \<Rightarrow> alert list" where
  "smoke_part x now d =
     (case first_true d [''smoke'', ''smoke_detected''] of
        None \<Rightarrow> []
      | Some k \<Rightarrow> [built_in x now d Smoke Critical ''Smoke'' (changed_since d k)])"

definition is_jammed :: "device \<Rightarrow> bool" where
  "is_jammed d \<longleftrightarrow>
     map_of (dv_attributes d) ''jammed'' = Some (JBool True)
     \<or> (case Option.bind (map_of (dv_attributes d) ''last_alert'') as_str of
          Some s \<Rightarrow> str_contains ''jam'' (map ascii_lower s)
        | None \<Rightarrow> False)"

definition jammed_part :: "alert_ext \<Rightarrow> timestamp \<Rightarrow> device \<Rightarrow> alert list" where
  "jammed_part x now d =
     (if is_jammed d then
        [(built_in x now d Jammed Critical ''Jammed'' (option_or (changed_since d ''last_alert'') (changed_since d ''jammed'')))
           \<lparr>al_message := effective_name d @ '' is jammed''\<rparr>]
      else [])"

definition battery_reading :: "device \<Rightarrow> f64 option" where
  "battery_reading d =
     (let read = (\<lambda>k. Option.bind (map_of (dv_attributes d) k) as_f64) in
      option_or (read ''battery_pct'') (option_or (read ''battery'') (read ''battery_level'')))"

definition is_low :: "battery_config \<Rightarrow> bool \<Rightarrow> device \<Rightarrow> bool" where
  "is_low cfg was_low d \<longleftrightarrow>
     map_of (dv_attributes d) ''battery_low'' = Some (JBool True)
     \<or> (case battery_reading d of
          None \<Rightarrow> False
        | Some p \<Rightarrow> f64_le p (bc_threshold_pct cfg)
            \<or> was_low \<and> f64_lt p (f64_op (+) (bc_threshold_pct cfg) (bc_recover_band_pct cfg)))"

definition battery_part :: "alert_ext \<Rightarrow> battery_config \<Rightarrow> active \<Rightarrow> timestamp \<Rightarrow> device \<Rightarrow> alert list" where
  "battery_part x cfg active now d =
     (if is_low cfg (map_of active (built_in_id LowBattery (dv_id d)) \<noteq> None) d then
        [built_in x now d LowBattery Warning
           (case battery_reading d of
              Some p \<Rightarrow> ''Battery low ('' @ lx_show_f64 x (f64_round p) @ ''%)''
            | None \<Rightarrow> ''Battery low'')
           (option_or (changed_since d ''battery_low'') (changed_since d ''battery''))]
      else [])"

definition device_alerts :: "alert_ext \<Rightarrow> battery_config \<Rightarrow> active \<Rightarrow> timestamp \<Rightarrow> since \<Rightarrow> device \<Rightarrow> alert list" where
  "device_alerts x cfg active now off d =
     snd (offline_part x now d off) @ wet_part x now d @ smoke_part x now d @ jammed_part x now d
       @ battery_part x cfg active now d"

fun from_devices ::
  "alert_ext \<Rightarrow> battery_config \<Rightarrow> active \<Rightarrow> timestamp \<Rightarrow> device list \<Rightarrow> since \<times> active \<Rightarrow> since \<times> active"
where
  "from_devices x cfg active now [] (off, out) = (off, out)"
| "from_devices x cfg active now (d # ds) (off, out) =
     from_devices x cfg active now ds
       (fst (offline_part x now d off), fold (add_alert active) (device_alerts x cfg active now off d) out)"

definition device_by_id :: "device list \<Rightarrow> string \<Rightarrow> device option" where
  "device_by_id devices = map_of (rev (map (\<lambda>d. (dv_id d, d)) devices))"

definition rule_alert_id :: "string \<Rightarrow> string \<Rightarrow> string" where
  "rule_alert_id rule_id device_id = ''rule:'' @ rule_id @ '':'' @ device_id"

definition rule_alert :: "alert_ext \<Rightarrow> alert_rule \<Rightarrow> device \<Rightarrow> timestamp \<Rightarrow> alert" where
  "rule_alert x r d since =
     (let reason = describe_alert_rule x r in
      \<lparr>al_id = rule_alert_id (lr_id r) (dv_id d), al_kind = KRule, al_device_id = dv_id d, al_rule_id = Some (lr_id r),
       al_message = effective_name d @ '' '' @ lower_first x reason, al_reason = reason, al_severity = lr_severity r,
       al_raised_at = since, al_acknowledged = None, al_plugin_id = None, al_topic = None, al_key = None,
       al_action = None, al_device_plugin_id = Some (dv_plugin_id d)\<rparr>)"

text \<open>What a rule makes of one of its devices: the memory of when it began, and the alert.\<close>

definition rule_on_device ::
  "alert_ext \<Rightarrow> timestamp \<Rightarrow> nanos \<Rightarrow> device list \<Rightarrow> alert_rule \<Rightarrow> string \<Rightarrow> since \<Rightarrow> since \<times> alert list"
where
  "rule_on_device x now local devices r device_id held =
     (case device_by_id devices device_id of
        None \<Rightarrow> (held, [])
      | Some d \<Rightarrow>
          let i = rule_alert_id (lr_id r) device_id in
          if \<not> (case map_of (dv_attributes d) (lr_attribute r) of Some v \<Rightarrow> alert_rule_matches r v | None \<Rightarrow> False)
          then (held(i := None), [])
          else
            let changed = (if lr_op r = AlEq then changed_since d (lr_attribute r) else None);
                since = unwrap_or changed (unwrap_or (held i) now);
                held' = (if changed = None then held(i \<mapsto> since) else held);
                lasted = is_none_or (lr_for_minutes r) (\<lambda>m. int m * 60 \<le> num_seconds (now - since)) in
            (held', if lasted \<and> in_window x r local then [rule_alert x r d since] else []))"

fun rule_on_devices ::
  "alert_ext \<Rightarrow> active \<Rightarrow> timestamp \<Rightarrow> nanos \<Rightarrow> device list \<Rightarrow> alert_rule \<Rightarrow> string list \<Rightarrow> since \<times> active \<Rightarrow> since \<times> active"
where
  "rule_on_devices x active now local devices r [] (held, out) = (held, out)"
| "rule_on_devices x active now local devices r (i # is) (held, out) =
     (let (held', as) = rule_on_device x now local devices r i held in
      rule_on_devices x active now local devices r is (held', fold (add_alert active) as out))"

definition from_rules ::
  "alert_ext \<Rightarrow> active \<Rightarrow> timestamp \<Rightarrow> nanos \<Rightarrow> device list \<Rightarrow> alert_rule list \<Rightarrow> since \<times> active \<Rightarrow> since \<times> active"
where
  "from_rules x active now local devices rules =
     fold (\<lambda>r. rule_on_devices x active now local devices r (lr_device_ids r)) (filter lr_enabled rules)"

record memory =
  me_offline_since :: since
  me_held_since :: since

definition desired ::
  "alert_ext \<Rightarrow> device list \<Rightarrow> alert_rule list \<Rightarrow> active \<Rightarrow> timestamp \<Rightarrow> nanos \<Rightarrow> battery_config \<Rightarrow> memory \<Rightarrow> memory \<times> active"
where
  "desired x devices rules active now local cfg me =
     (let (off, out) = from_devices x cfg active now devices (me_offline_since me, []);
          (held, out') = from_rules x active now local devices rules (me_held_since me, out) in
      (\<lparr>me_offline_since = off, me_held_since = held\<rparr>, out'))"

subsection \<open>What plugins say\<close>

record reported =
  rp_plugin_id :: string
  rp_alerts :: "plugin_alert list"

record plugin_alerts =
  pl_kinds :: "(string \<times> plugin_alert_kind list) list"
  pl_reported :: "(string \<times> reported) list"

definition absorb :: "hub_event \<Rightarrow> plugin_alerts \<Rightarrow> bool \<times> plugin_alerts" where
  "absorb e p =
     (case e of
        HePluginCapabilities plugin_id _ _ _ alert_kinds _ \<Rightarrow>
          if unwrap_or (map_of (pl_kinds p) plugin_id) [] = alert_kinds then (False, p)
          else (True, p\<lparr>pl_kinds := (if alert_kinds = [] then remove_key plugin_id (pl_kinds p)
                                    else put plugin_id alert_kinds (pl_kinds p))\<rparr>)
      | HePluginAlerts plugin_id device_id alerts \<Rightarrow>
          if map_of (pl_reported p) device_id = Some \<lparr>rp_plugin_id = plugin_id, rp_alerts = alerts\<rparr> then (False, p)
          else (True, p\<lparr>pl_reported := (if alerts = [] then remove_key device_id (pl_reported p)
                 else put device_id \<lparr>rp_plugin_id = plugin_id, rp_alerts = alerts\<rparr> (pl_reported p))\<rparr>)
      | HeDeviceRemoved device_id \<Rightarrow>
          (map_of (pl_reported p) device_id \<noteq> None, p\<lparr>pl_reported := remove_key device_id (pl_reported p)\<rparr>)
      | _ \<Rightarrow> (False, p))"

definition declared_kind :: "plugin_alerts \<Rightarrow> string \<Rightarrow> string \<Rightarrow> plugin_alert_kind option" where
  "declared_kind p plugin_id topic =
     Option.bind (map_of (pl_kinds p) plugin_id) (find (\<lambda>k. pak_topic k = topic))"

definition topic_setting_for :: "topic_setting list \<Rightarrow> string \<Rightarrow> string \<Rightarrow> topic_setting option" where
  "topic_setting_for topics plugin_id topic = find (\<lambda>t. ts_plugin_id t = plugin_id \<and> ts_topic t = topic) topics"

definition plugin_alert_id :: "string \<Rightarrow> string \<Rightarrow> plugin_alert \<Rightarrow> string" where
  "plugin_alert_id plugin_id device_id pa =
     ''plugin:'' @ plugin_id @ '':'' @ pa_topic pa @ '':'' @ device_id @ (case pa_key pa of Some k \<Rightarrow> '':'' @ k | None \<Rightarrow> [])"

definition speaks_for :: "alert_ext \<Rightarrow> device list \<Rightarrow> string \<Rightarrow> string \<Rightarrow> string option" where
  "speaks_for x devices plugin_id device_id =
     (case device_by_id devices device_id of
        Some d \<Rightarrow> if dv_plugin_id d = plugin_id then Some (effective_name d) else None
      | None \<Rightarrow> if device_id = plugin_id then Some (plugin_name x plugin_id) else None)"

definition topic_on :: "plugin_alerts \<Rightarrow> topic_setting list \<Rightarrow> string \<Rightarrow> string \<Rightarrow> bool" where
  "topic_on p topics plugin_id topic =
     unwrap_or (option_or (Option.bind (topic_setting_for topics plugin_id topic) ts_enabled)
       (map_option pak_default_on (declared_kind p plugin_id topic))) True"

definition alert_of_plugin ::
  "plugin_alerts \<Rightarrow> active \<Rightarrow> timestamp \<Rightarrow> string \<Rightarrow> string \<Rightarrow> plugin_alert \<Rightarrow> string \<Rightarrow> alert_ext \<Rightarrow> alert"
where
  "alert_of_plugin p active now plugin_id device_id pa name x =
     (let i = plugin_alert_id plugin_id device_id pa in
      \<lparr>al_id = i, al_kind = KPlugin, al_device_id = device_id, al_rule_id = None,
       al_message = unwrap_or (pa_message pa) (name @ '': '' @ lower_first x (pa_reason pa)), al_reason = pa_reason pa,
       al_severity = plugin_severity (unwrap_or (option_or (pa_severity pa)
         (map_option pak_severity (declared_kind p plugin_id (pa_topic pa)))) Warning),
       al_raised_at = unwrap_or (option_or (map_option al_raised_at (map_of active i)) (pa_since pa)) now,
       al_acknowledged = None, al_plugin_id = Some plugin_id, al_topic = Some (pa_topic pa), al_key = pa_key pa,
       al_action = pa_action pa, al_device_plugin_id = Some plugin_id\<rparr>)"

definition reported_alerts ::
  "alert_ext \<Rightarrow> device list \<Rightarrow> plugin_alerts \<Rightarrow> topic_setting list \<Rightarrow> active \<Rightarrow> timestamp \<Rightarrow> string \<times> reported \<Rightarrow> alert list"
where
  "reported_alerts x devices p topics active now dr =
     (case dr of (device_id, r) \<Rightarrow>
        case speaks_for x devices (rp_plugin_id r) device_id of
          None \<Rightarrow> []
        | Some name \<Rightarrow>
            map (\<lambda>pa. alert_of_plugin p active now (rp_plugin_id r) device_id pa name x)
              (filter (\<lambda>pa. topic_on p topics (rp_plugin_id r) (pa_topic pa)) (rp_alerts r)))"

definition from_plugins ::
  "alert_ext \<Rightarrow> device list \<Rightarrow> plugin_alerts \<Rightarrow> topic_setting list \<Rightarrow> active \<Rightarrow> timestamp \<Rightarrow> active"
where
  "from_plugins x devices p topics active now =
     fold (\<lambda>a. put (al_id a) a) (concat (map (reported_alerts x devices p topics active now) (pl_reported p))) []"

definition unignored :: "alert_ignore list \<Rightarrow> timestamp \<Rightarrow> active \<Rightarrow> active" where
  "unignored ignores now alerts = filter (\<lambda>(_, a). \<not> list_ex (\<lambda>i. covers i a now) ignores) alerts"

subsection \<open>Notification\<close>

definition channel_for :: "alert \<Rightarrow> alert_rule list \<Rightarrow> topic_setting list \<Rightarrow> string option \<Rightarrow> string option" where
  "channel_for a rules topics builtin =
     (case (case al_kind a of
              KPlugin \<Rightarrow> Option.bind (find (\<lambda>t. Some (ts_plugin_id t) = al_plugin_id a \<and> Some (ts_topic t) = al_topic a) topics) ts_notify
            | KRule \<Rightarrow> Option.bind (find (\<lambda>r. Some (lr_id r) = al_rule_id a) rules) lr_notify
            | LowBattery \<Rightarrow> None
            | _ \<Rightarrow> builtin) of
        Some c \<Rightarrow> if trim c = [] then None else Some c
      | None \<Rightarrow> None)"

record alert_notify =
  nt_service :: bool
  nt_channel :: "string option"

definition send_alert :: "alert_notify \<Rightarrow> alert_rule list \<Rightarrow> topic_setting list \<Rightarrow> alert \<Rightarrow> (string \<times> string \<times> string) list" where
  "send_alert nt rules topics a =
     (if \<not> nt_service nt then []
      else case channel_for a rules topics (nt_channel nt) of
             None \<Rightarrow> []
           | Some channel \<Rightarrow>
               [(channel,
                 (case al_severity a of Critical \<Rightarrow> ''Alert'' | Info \<Rightarrow> ''For your information'' | _ \<Rightarrow> ''Needs attention''),
                 al_message a)])"

subsection \<open>The engine\<close>

record pass =
  ps_before :: active
  ps_after :: active
  ps_rules :: "alert_rule list"
  ps_topics :: "topic_setting list"

datatype stage = Resting | Looked pass | Settled pass

record alert_engine =
  ag_active :: active
  ag_acks :: "string \<rightharpoonup> acknowledged"
  ag_plugins :: plugin_alerts
  ag_memory :: memory
  ag_primed :: bool
  ag_stage :: stage
  ag_seen :: "alert list"
  ag_published :: "event list"
  ag_sent :: "(string \<times> string \<times> string) list"

definition alert_engine_new :: alert_engine where
  "alert_engine_new =
     \<lparr>ag_active = [], ag_acks = Map.empty, ag_plugins = \<lparr>pl_kinds = [], pl_reported = []\<rparr>,
      ag_memory = \<lparr>me_offline_since = Map.empty, me_held_since = Map.empty\<rparr>, ag_primed = False, ag_stage = Resting,
      ag_seen = [], ag_published = [], ag_sent = []\<rparr>"

definition relevant :: "hub_event \<Rightarrow> bool" where
  "relevant e =
     (case e of
        HeDeviceStateChanged _ _ _ _ _ _ \<Rightarrow> True
      | HeDeviceAvailabilityChanged _ _ _ \<Rightarrow> True
      | HeDeviceAdded _ \<Rightarrow> True
      | HeDeviceRemoved _ \<Rightarrow> True
      | HeDeviceMetadataChanged _ \<Rightarrow> True
      | HeDeviceNameChanged _ _ _ \<Rightarrow> True
      | _ \<Rightarrow> False)"

text \<open>An event of the bus: whether it calls for a pass.\<close>

definition hear :: "hub_event \<Rightarrow> alert_engine \<Rightarrow> bool \<times> alert_engine" where
  "hear e s = (let (changed, p) = absorb e (ag_plugins s) in (changed \<or> relevant e, s\<lparr>ag_plugins := p\<rparr>))"

definition look_round ::
  "alert_ext \<Rightarrow> device list \<Rightarrow> alert_tables \<Rightarrow> timestamp \<Rightarrow> nanos \<Rightarrow> battery_config \<Rightarrow> alert_engine \<Rightarrow> alert_engine"
where
  "look_round x devices t now local cfg s =
     (let rules = list_alert_rules t; topics = list_topic_settings t; ignores = list_alert_ignores t;
          (me, after) = desired x devices rules (ag_active s) now local cfg (ag_memory s);
          after' = fold (\<lambda>(i, a). put i a) (from_plugins x devices (ag_plugins s) topics (ag_active s) now) after in
      s\<lparr>ag_memory := me,
        ag_stage := Looked \<lparr>ps_before = ag_active s, ps_after = unignored ignores now after', ps_rules = rules, ps_topics = topics\<rparr>\<rparr>)"

definition settle_acks :: "alert_engine \<Rightarrow> alert_engine" where
  "settle_acks s =
     (case ag_stage s of
        Looked p \<Rightarrow>
          let acks = (\<lambda>i. if map_of (ps_after p) i = None then None else ag_acks s i) in
          s\<lparr>ag_acks := acks,
            ag_stage := Settled (p\<lparr>ps_after := map (\<lambda>(i, a). (i, a\<lparr>al_acknowledged := acks i\<rparr>)) (ps_after p)\<rparr>)\<rparr>
      | _ \<Rightarrow> s)"

definition raised_events :: "active \<Rightarrow> active \<Rightarrow> event list" where
  "raised_events before' after =
     map (\<lambda>(i, a). EvAlertRaised a (map_of before' i \<noteq> None)) (filter (\<lambda>(i, a). map_of before' i \<noteq> Some a) after)"

definition cleared_events :: "active \<Rightarrow> active \<Rightarrow> event list" where
  "cleared_events before' after =
     map (\<lambda>(i, a). EvAlertCleared i (al_device_id a) (Some a)) (filter (\<lambda>(i, a). map_of after i = None) before')"

definition announce_alerts :: "alert_notify \<Rightarrow> alert_engine \<Rightarrow> alert_engine" where
  "announce_alerts nt s =
     (case ag_stage s of
        Settled p \<Rightarrow>
          s\<lparr>ag_sent := ag_sent s @ (if ag_primed s
              then concat (map (send_alert nt (ps_rules p) (ps_topics p))
                     (filter (\<lambda>a. map_of (ps_before p) (al_id a) = None) (map snd (ps_after p))))
              else []),
            ag_primed := True,
            ag_published := ag_published s @ raised_events (ps_before p) (ps_after p) @ cleared_events (ps_before p) (ps_after p),
            ag_active := ps_after p, ag_stage := Resting\<rparr>
      | _ \<Rightarrow> s)"

text \<open>
  A person's acknowledgement: \<open>AlertsHandle::acknowledge\<close>, and the two announcements of the handler,
  which come later.
\<close>

definition handle_acknowledge :: "timestamp \<Rightarrow> string \<Rightarrow> string \<Rightarrow> alert_engine \<Rightarrow> alert_engine" where
  "handle_acknowledge now i who s =
     (case map_of (ag_active s) i of
        None \<Rightarrow> s
      | Some a \<Rightarrow>
          if al_acknowledged a = None then
            let ack = \<lparr>ack_by = who, ack_at = now\<rparr>; a' = a\<lparr>al_acknowledged := Some ack\<rparr> in
            s\<lparr>ag_acks := (ag_acks s)(i \<mapsto> ack), ag_active := put i a' (ag_active s), ag_seen := ag_seen s @ [a']\<rparr>
          else s\<lparr>ag_seen := ag_seen s @ [a]\<rparr>)"

definition publish_seen :: "alert \<Rightarrow> alert_engine \<Rightarrow> alert_engine" where
  "publish_seen a s =
     (if a \<in> set (ag_seen s) then
        s\<lparr>ag_seen := remove1 a (ag_seen s), ag_published := ag_published s @ [EvAlertRaised a True, EvAlertAcknowledged a]\<rparr>
      else s)"

text \<open>\<open>AlertsHandle::list\<close>: most serious first, then newest.\<close>

definition alert_rank :: "alert_severity \<Rightarrow> nat" where
  "alert_rank s = (case s of Critical \<Rightarrow> 0 | SevError \<Rightarrow> 1 | Warning \<Rightarrow> 2 | Info \<Rightarrow> 3)"

definition list_alerts :: "alert_engine \<Rightarrow> alert list" where
  "list_alerts s = sort_key (\<lambda>a. alert_rank (al_severity a)) (sort_key (\<lambda>a. - al_raised_at a) (map snd (ag_active s)))"

end
