(* ===== verification/Alert_Theorems.thy ===== *)
theory Alert_Theorems
  imports Alerts
begin

text \<open>
  What the alert engine promises: which alerts a pass leaves active, what a client of the public bus
  sees of them under every interleaving of passes and acknowledgements, the low-battery alert as
  a latch, and where memory and races go wrong.
\<close>

subsection \<open>Tables of alerts\<close>

definition alerts_ok :: "active \<Rightarrow> bool" where
  "alerts_ok t \<longleftrightarrow> table_ok t \<and> (\<forall>(i, a) \<in> set t. al_id a = i)"

lemma alerts_ok_Nil [simp]: "alerts_ok []"
  by (simp add: alerts_ok_def)

lemma keep_raised_id [simp]: "al_id (keep_raised active a) = al_id a"
  by (simp add: keep_raised_def split: option.split)

lemma alerts_ok_put: "alerts_ok t \<Longrightarrow> al_id a = i \<Longrightarrow> alerts_ok (put i a t)"
  by (auto simp: alerts_ok_def put_ok put_mem split: if_splits)

lemma alerts_ok_add: "alerts_ok t \<Longrightarrow> alerts_ok (fold (add_alert active) as t)"
  by (induction as arbitrary: t) (simp_all add: add_alert_def alerts_ok_put)

lemma alerts_ok_puts: "alerts_ok t \<Longrightarrow> \<forall>(i, a) \<in> set u. al_id a = i \<Longrightarrow> alerts_ok (fold (\<lambda>(i, a). put i a) u t)"
  by (induction u arbitrary: t) (auto simp: alerts_ok_put)

lemma alerts_ok_put_ids: "alerts_ok t \<Longrightarrow> alerts_ok (fold (\<lambda>a. put (al_id a) a) as t)"
  by (induction as arbitrary: t) (simp_all add: alerts_ok_put)

lemma alerts_ok_filter: "alerts_ok t \<Longrightarrow> alerts_ok (filter p t)"
  by (induction t) (auto simp: alerts_ok_def)

lemma alerts_ok_lookup: "alerts_ok t \<Longrightarrow> map_of t i = Some a \<longleftrightarrow> (i, a) \<in> set t"
  by (simp add: alerts_ok_def map_of_table)

lemma alerts_ok_id: "alerts_ok t \<Longrightarrow> map_of t i = Some a \<Longrightarrow> al_id a = i"
  by (auto simp: alerts_ok_def map_of_table)

lemma from_devices_ok: "alerts_ok (snd oo') \<Longrightarrow> alerts_ok (snd (from_devices x cfg active now ds oo'))"
  by (induction x cfg active now ds oo' rule: from_devices.induct) (simp_all add: alerts_ok_add)

lemma rule_on_devices_ok: "alerts_ok (snd ho) \<Longrightarrow> alerts_ok (snd (rule_on_devices x active now local devices r is ho))"
  by (induction x active now local devices r "is" ho rule: rule_on_devices.induct)
    (simp_all add: alerts_ok_add split: prod.split)

lemma from_rules_ok: "alerts_ok (snd ho) \<Longrightarrow> alerts_ok (snd (from_rules x active now local devices rules ho))"
  unfolding from_rules_def
  by (rule fold_invariant [where Q = "\<lambda>_. True"]) (simp_all add: rule_on_devices_ok)

lemma desired_ok: "alerts_ok (snd (desired x devices rules active now local cfg me))"
  using from_rules_ok [OF from_devices_ok [of "(me_offline_since me, [])" x cfg active now devices, unfolded surjective_pairing]]
  unfolding desired_def Let_def
  by (auto simp: case_prod_unfold intro!: from_rules_ok from_devices_ok)

lemma from_plugins_ok: "alerts_ok (from_plugins x devices p topics active now)"
  by (simp add: from_plugins_def alerts_ok_put_ids)

definition called_for ::
  "alert_ext \<Rightarrow> device list \<Rightarrow> alert_tables \<Rightarrow> timestamp \<Rightarrow> nanos \<Rightarrow> battery_config \<Rightarrow> alert_engine \<Rightarrow> active"
where
  "called_for x devices t now local cfg s =
     unignored (list_alert_ignores t) now
       (fold (\<lambda>(i, a). put i a) (from_plugins x devices (ag_plugins s) (list_topic_settings t) (ag_active s) now)
         (snd (desired x devices (list_alert_rules t) (ag_active s) now local cfg (ag_memory s))))"

lemma called_for_ok: "alerts_ok (called_for x devices t now local cfg s)"
  unfolding called_for_def unignored_def
  by (intro alerts_ok_filter alerts_ok_puts desired_ok) (use from_plugins_ok in \<open>auto simp: alerts_ok_def\<close>)

lemma look_round_simps:
  "ag_stage (look_round x devices t now local cfg s) =
     Looked \<lparr>ps_before = ag_active s, ps_after = called_for x devices t now local cfg s,
       ps_rules = list_alert_rules t, ps_topics = list_topic_settings t\<rparr>"
  "ag_active (look_round x devices t now local cfg s) = ag_active s"
  "ag_acks (look_round x devices t now local cfg s) = ag_acks s"
  "ag_published (look_round x devices t now local cfg s) = ag_published s"
  "ag_seen (look_round x devices t now local cfg s) = ag_seen s"
  "ag_memory (look_round x devices t now local cfg s) =
     fst (desired x devices (list_alert_rules t) (ag_active s) now local cfg (ag_memory s))"
  by (simp_all add: look_round_def called_for_def Let_def case_prod_unfold)

subsection \<open>What clients see\<close>

text \<open>A client keeps the alerts it was told of.\<close>

fun see :: "event \<Rightarrow> (string \<rightharpoonup> alert) \<Rightarrow> (string \<rightharpoonup> alert)" where
  "see (EvAlertRaised a _) m = m(al_id a \<mapsto> a)"
| "see (EvAlertCleared i _ _) m = m(i := None)"
| "see _ m = m"

definition shown :: "alert_engine \<Rightarrow> (string \<rightharpoonup> alert)" where
  "shown s = fold see (ag_published s) Map.empty"

text \<open>
  The engine's steps and the two steps of an acknowledgement, in any order: a request marks the
  alert, and announces it later, after whatever else has happened in between.
\<close>

inductive alert_step :: "alert_engine \<Rightarrow> alert_engine \<Rightarrow> bool" where
  Hear: "ag_stage s = Resting \<Longrightarrow> alert_step s (snd (hear e s))"
| Look: "ag_stage s = Resting \<Longrightarrow> alert_step s (look_round x devices t now local cfg s)"
| Settle: "alert_step s (settle_acks s)"
| Announce: "alert_step s (announce_alerts nt s)"
| Acknowledge: "alert_step s (handle_acknowledge now i who s)"
| PublishSeen: "alert_step s (publish_seen a s)"

text \<open>
  The steps in which no pass comes to its end, and so announces, while the announcement of an
  acknowledgement is outstanding.
\<close>

definition unhurried_step :: "alert_engine \<Rightarrow> alert_engine \<Rightarrow> bool" where
  "unhurried_step s s' \<longleftrightarrow> alert_step s s' \<and> (ag_stage s' = Resting \<longrightarrow> ag_stage s = Resting \<or> ag_seen s = [])"


abbreviation unhurried :: "alert_engine \<Rightarrow> bool" where
  "unhurried \<equiv> reach ((=) alert_engine_new) unhurried_step"

text \<open>
  At one alert, a client can be ahead of the engine by an acknowledgement which the engine has on record
  and will put into place.
\<close>

definition ahead :: "(string \<rightharpoonup> acknowledged) \<Rightarrow> (string \<rightharpoonup> alert) \<Rightarrow> (string \<rightharpoonup> alert) \<Rightarrow> string \<Rightarrow> bool" where
  "ahead acks m b i \<longleftrightarrow>
     m i = b i \<or> (\<exists>a k. b i = Some a \<and> al_acknowledged a = None \<and> acks i = Some k \<and> m i = Some (a\<lparr>al_acknowledged := Some k\<rparr>))"

text \<open>What a client will have once every outstanding acknowledgement is announced.\<close>

definition promised :: "alert_engine \<Rightarrow> (string \<rightharpoonup> alert)" where
  "promised s = (\<lambda>i. if i \<in> al_id ` set (ag_seen s) then map_of (ag_active s) i else shown s i)"

definition seen_active :: "alert_engine \<Rightarrow> bool" where
  "seen_active s \<longleftrightarrow> (\<forall>a \<in> set (ag_seen s). map_of (ag_active s) (al_id a) = Some a \<and> al_acknowledged a \<noteq> None)"

fun pass_of :: "alert_engine \<Rightarrow> stage \<Rightarrow> bool" where
  "pass_of s Resting \<longleftrightarrow> (\<forall>i. ahead (ag_acks s) (promised s) (map_of (ag_active s)) i)"
| "pass_of s (Looked p) \<longleftrightarrow> (\<forall>i. ahead (ag_acks s) (promised s) (map_of (ps_before p)) i
      \<and> ahead (ag_acks s) (map_of (ag_active s)) (map_of (ps_before p)) i)"
| "pass_of s (Settled p) \<longleftrightarrow>
     (\<forall>i. if map_of (ps_after p) i \<noteq> None
          then ahead (ag_acks s) (promised s) (map_of (ps_before p)) i \<and> ahead (ag_acks s) (map_of (ag_active s)) (map_of (ps_before p)) i
          else (promised s i = None \<longleftrightarrow> map_of (ps_before p) i = None)
            \<and> (map_of (ag_active s) i = None \<longleftrightarrow> map_of (ps_before p) i = None))"

fun pass_sound :: "stage \<Rightarrow> bool" where
  "pass_sound Resting \<longleftrightarrow> True"
| "pass_sound (Looked p) \<longleftrightarrow> alerts_ok (ps_before p) \<and> alerts_ok (ps_after p)"
| "pass_sound (Settled p) \<longleftrightarrow> alerts_ok (ps_before p) \<and> alerts_ok (ps_after p)"

definition alerts_sound :: "alert_engine \<Rightarrow> bool" where
  "alerts_sound s \<longleftrightarrow> alerts_ok (ag_active s) \<and> pass_sound (ag_stage s)"

definition in_step :: "alert_engine \<Rightarrow> bool" where
  "in_step s \<longleftrightarrow> alerts_sound s \<and> seen_active s \<and> pass_of s (ag_stage s)"

lemma see_raised:
  "alerts_ok u \<Longrightarrow> fold see (map (\<lambda>(i, a). EvAlertRaised a (f i)) u) m = m ++ map_of u"
proof (induction u arbitrary: m)
  case (Cons e u)
  obtain i a where e: "e = (i, a)" by fastforce
  have "al_id a = i" "alerts_ok u" "map_of u i = None"
    using Cons.prems by (auto simp: e alerts_ok_def map_of_eq_None_iff)
  moreover from this have "m(i \<mapsto> a) ++ map_of u = m ++ map_of ((i, a) # u)"
    by (auto simp: map_add_def fun_eq_iff split: option.split)
  ultimately show ?case using Cons.IH [of "m(i \<mapsto> a)"] by (simp only: e list.map fold_simps prod.case see.simps)
qed simp

lemma see_cleared:
  "fold see (map (\<lambda>(i, a). EvAlertCleared i (f a) (g a)) u) m = (\<lambda>i. if map_of u i = None then m i else None)"
proof (induction u arbitrary: m)
  case (Cons e u)
  then show ?case by (cases e) (auto simp: fun_eq_iff)
qed auto

lemma map_of_filter_table:
  "table_ok t \<Longrightarrow> map_of (filter p t) i = (case map_of t i of Some v \<Rightarrow> if p (i, v) then Some v else None | None \<Rightarrow> None)"
  by (induction t) (auto simp: map_of_eq_None_iff split: option.split)

lemma see_announced:
  assumes "alerts_ok b" "alerts_ok u"
  shows "fold see (raised_events b u @ cleared_events b u) m i = (if map_of b i = map_of u i then m i else map_of u i)"
proof -
  let ?new = "filter (\<lambda>(i, a). map_of b i \<noteq> Some a) u"
  have new: "map_of ?new i = (case map_of u i of Some a \<Rightarrow> if map_of b i \<noteq> Some a then Some a else None | None \<Rightarrow> None)"
    using assms by (simp add: alerts_ok_def map_of_filter_table cong: option.case_cong)
  have gone: "map_of (filter (\<lambda>(i, a). map_of u i = None) b) i
      = (case map_of b i of Some a \<Rightarrow> if map_of u i = None then Some a else None | None \<Rightarrow> None)"
    using assms by (simp add: alerts_ok_def map_of_filter_table cong: option.case_cong)
  have "fold see (raised_events b u) m = m ++ map_of ?new"
    unfolding raised_events_def by (rule see_raised) (simp add: alerts_ok_filter assms)
  then show ?thesis
    unfolding fold_append o_apply cleared_events_def see_cleared gone by (auto simp: map_add_def new split: option.splits)
qed

lemma ahead_refl [simp]: "ahead acks m m i"
  by (simp add: ahead_def)

lemma alerts_ok_seen: "alerts_ok t \<Longrightarrow> alerts_ok (map (\<lambda>(i, a). (i, a\<lparr>al_acknowledged := f i\<rparr>)) t)"
  by (auto simp: alerts_ok_def comp_def case_prod_unfold)

lemma map_of_seen: "map_of (map (\<lambda>(i, a). (i, a\<lparr>al_acknowledged := f i\<rparr>)) t) i = map_option (\<lambda>a. a\<lparr>al_acknowledged := f i\<rparr>) (map_of t i)"
  by (induction t) auto

lemma acknowledged_state:
  assumes "map_of (ag_active s) i = Some a" "alerts_ok (ag_active s)" "s' = handle_acknowledge now i who s"
  obtains b k where "ag_acks s' = (if al_acknowledged a = None then (ag_acks s)(i \<mapsto> k) else ag_acks s)"
    "ag_seen s' = ag_seen s @ [b]" "ag_stage s' = ag_stage s" "ag_published s' = ag_published s"
    "map_of (ag_active s') = (map_of (ag_active s))(i \<mapsto> b)" "alerts_ok (ag_active s')" "al_id b = i"
    "b = (if al_acknowledged a = None then a\<lparr>al_acknowledged := Some k\<rparr> else a)"
proof (cases "al_acknowledged a = None")
  case True
  define k where "k = \<lparr>ack_by = who, ack_at = now\<rparr>"
  have "al_id a = i" using assms(1,2) by (rule alerts_ok_id [rotated])
  then show ?thesis
    using assms True
    by (intro that [where b = "a\<lparr>al_acknowledged := Some k\<rparr>" and k = k])
      (simp_all add: handle_acknowledge_def Let_def k_def alerts_ok_put)
next
  case False
  then show ?thesis
    using assms alerts_ok_id [OF assms(2,1)]
    by (intro that [where b = a]) (auto simp: handle_acknowledge_def)
qed

lemma ahead_acknowledged:
  assumes "ahead acks m b i" "ahead acks act b i" "act i = Some a" "b' = (if al_acknowledged a = None then a\<lparr>al_acknowledged := Some k\<rparr> else a)"
  defines "acks' \<equiv> (if al_acknowledged a = None then acks(i \<mapsto> k) else acks)"
  shows "ahead acks' (m(i \<mapsto> b')) b i" "ahead acks' (act(i \<mapsto> b')) b i"
proof -
  have "b i = Some a \<or> al_acknowledged a \<noteq> None \<and> ahead acks act b i"
    using assms(2,3) by (auto simp: ahead_def)
  then have "ahead acks' (\<lambda>_. Some b') b i"
    using assms(3,4) unfolding acks'_def by (auto simp: ahead_def)
  then show "ahead acks' (m(i \<mapsto> b')) b i" "ahead acks' (act(i \<mapsto> b')) b i" by (simp_all add: ahead_def)
qed

lemma ahead_other: "j \<noteq> i \<Longrightarrow> ahead acks m b j \<Longrightarrow> ahead (if c then acks(i \<mapsto> k) else acks) (m(i := v)) b j"
  by (auto simp: ahead_def)

lemma alerts_sound_acknowledge: "alerts_sound s \<Longrightarrow> alerts_sound (handle_acknowledge now i who s)"
proof (cases "map_of (ag_active s) i")
  case (Some a)
  assume s: "alerts_sound s"
  show ?thesis
    by (rule acknowledged_state [OF Some _ refl [of "handle_acknowledge now i who s"]]) (use s in \<open>simp_all add: alerts_sound_def\<close>)
qed (simp add: handle_acknowledge_def)

lemma in_step_acknowledge:
  assumes "in_step s"
  shows "in_step (handle_acknowledge now i who s)" (is "in_step ?t")
proof (cases "map_of (ag_active s) i")
  case None
  then show ?thesis using assms by (simp add: handle_acknowledge_def)
next
  case (Some a)
  have ok: "alerts_ok (ag_active s)" "seen_active s" using assms by (auto simp: in_step_def alerts_sound_def)
  obtain b k where acks: "ag_acks ?t = (if al_acknowledged a = None then (ag_acks s)(i \<mapsto> k) else ag_acks s)"
    and f: "ag_seen ?t = ag_seen s @ [b]" "ag_stage ?t = ag_stage s" "ag_published ?t = ag_published s"
    and act: "map_of (ag_active ?t) = (map_of (ag_active s))(i \<mapsto> b)" and b: "al_id b = i"
      "b = (if al_acknowledged a = None then a\<lparr>al_acknowledged := Some k\<rparr> else a)"
    by (rule acknowledged_state [OF Some ok(1) refl])
  have prom: "promised ?t = (promised s)(i \<mapsto> b)"
    by (auto simp: promised_def f act b(1) shown_def fun_eq_iff)
  have step: "ahead (ag_acks ?t) (promised ?t) c j \<and> ahead (ag_acks ?t) (map_of (ag_active ?t)) c j"
    if "ahead (ag_acks s) (promised s) c j" "ahead (ag_acks s) (map_of (ag_active s)) c j" for c j
    using that ahead_acknowledged [where act = "map_of (ag_active s)" and m = "promised s" and b = c and acks = "ag_acks s", OF _ _ Some b(2)]
      ahead_other [of j i]
    by (cases "j = i") (simp_all add: prom act acks)
  have "pass_of ?t (ag_stage s)"
  proof (cases "ag_stage s")
    case Resting
    have "ahead (ag_acks ?t) (promised ?t) (map_of (ag_active ?t)) j" for j
    proof (cases "j = i")
      case False
      have "ahead (ag_acks s) (promised s) (map_of (ag_active s)) j" using assms Resting by (simp add: in_step_def)
      with False show ?thesis by (simp add: prom act ahead_def acks)
    qed (simp add: prom act ahead_def)
    then show ?thesis using Resting by auto
  next
    case (Looked p)
    then show ?thesis using assms step by (simp add: in_step_def)
  next
    case (Settled p)
    have "if map_of (ps_after p) j \<noteq> None
        then ahead (ag_acks ?t) (promised ?t) (map_of (ps_before p)) j \<and> ahead (ag_acks ?t) (map_of (ag_active ?t)) (map_of (ps_before p)) j
        else (promised ?t j = None \<longleftrightarrow> map_of (ps_before p) j = None) \<and> (map_of (ag_active ?t) j = None \<longleftrightarrow> map_of (ps_before p) j = None)" for j
      using assms step [of "map_of (ps_before p)" j] Some
      by (cases "j = i") (auto simp: in_step_def Settled prom act dest!: spec [of _ j] split: if_splits)
    then show ?thesis using Settled by simp
  qed
  moreover have "seen_active ?t"
  proof -
    have "map_of (ag_active ?t) (al_id c) = Some c \<and> al_acknowledged c \<noteq> None" if "c \<in> set (ag_seen s)" for c
      using that ok(2) Some b(2) by (cases "al_id c = i") (auto simp: seen_active_def act)
    then show ?thesis using b Some by (auto simp: seen_active_def f act split: if_splits)
  qed
  ultimately show ?thesis
    using alerts_sound_acknowledge assms f by (simp add: in_step_def)
qed

lemma in_step_publish:
  assumes "in_step s"
  shows "in_step (publish_seen a s)" (is "in_step ?t")
proof (cases "a \<in> set (ag_seen s)")
  case True
  then have a: "map_of (ag_active s) (al_id a) = Some a" and seen: "seen_active s"
    using assms by (auto simp: in_step_def seen_active_def)
  have f: "ag_active ?t = ag_active s" "ag_acks ?t = ag_acks s" "ag_stage ?t = ag_stage s"
    "ag_seen ?t = remove1 a (ag_seen s)" "shown ?t = (shown s)(al_id a \<mapsto> a)"
    using True by (simp_all add: publish_seen_def shown_def)
  have "promised ?t j = promised s j" for j
  proof (cases "j = al_id a")
    case False
    have "c \<in> set (remove1 a (ag_seen s)) \<longleftrightarrow> c \<in> set (ag_seen s)" if "al_id c = j" for c
      using that False by (intro in_set_remove1) auto
    then have "j \<in> al_id ` set (remove1 a (ag_seen s)) \<longleftrightarrow> j \<in> al_id ` set (ag_seen s)" by blast
    with False show ?thesis by (simp add: promised_def f)
  qed (use True a in \<open>auto simp: promised_def f\<close>)
  then have "promised ?t = promised s" by blast
  moreover have "seen_active ?t" using seen by (auto simp: seen_active_def f dest: notin_set_remove1)
  ultimately show ?thesis
    using assms f by (cases "ag_stage s") (auto simp: in_step_def alerts_sound_def)
qed (use assms in \<open>simp add: publish_seen_def\<close>)

lemma promised_cong:
  "ag_seen s' = ag_seen s \<Longrightarrow> ag_active s' = ag_active s \<Longrightarrow> ag_published s' = ag_published s \<Longrightarrow> promised s' = promised s"
  by (simp add: promised_def shown_def cong: if_cong)

lemma promised_look: "promised (look_round x devices t now local cfg s) = promised s"
  by (rule promised_cong) (simp_all add: look_round_simps)

lemma in_step_look: "in_step s \<Longrightarrow> ag_stage s = Resting \<Longrightarrow> in_step (look_round x devices t now local cfg s)"
  by (simp add: in_step_def alerts_sound_def seen_active_def look_round_simps called_for_ok promised_look)

lemma ahead_dom: "ahead acks m b i \<Longrightarrow> m i = None \<longleftrightarrow> b i = None"
  by (auto simp: ahead_def)

lemma in_step_settle:
  assumes "in_step s"
  shows "in_step (settle_acks s)"
proof (cases "ag_stage s")
  case (Looked p)
  have inv: "alerts_ok (ag_active s)" "seen_active s" "alerts_ok (ps_before p)" "alerts_ok (ps_after p)"
    "ahead (ag_acks s) (promised s) (map_of (ps_before p)) i" "ahead (ag_acks s) (map_of (ag_active s)) (map_of (ps_before p)) i" for i
    using assms Looked by (simp_all add: in_step_def alerts_sound_def)
  define acks where "acks = (\<lambda>i. if map_of (ps_after p) i = None then None else ag_acks s i)"
  have "ahead acks m b i" if "ahead (ag_acks s) m b i" "map_of (ps_after p) i \<noteq> None" for m b i
    using that by (auto simp: ahead_def acks_def)
  then have new: "map_of (ps_after p) i \<noteq> None \<Longrightarrow> ahead acks (promised s) (map_of (ps_before p)) i \<and> ahead acks (map_of (ag_active s)) (map_of (ps_before p)) i"
    for i using inv(5,6) by blast
  have doms: "(promised s i = None \<longleftrightarrow> map_of (ps_before p) i = None) \<and> (map_of (ag_active s) i = None \<longleftrightarrow> map_of (ps_before p) i = None)" for i
    using ahead_dom [OF inv(5)] ahead_dom [OF inv(6)] by blast
  have st: "settle_acks s = s\<lparr>ag_acks := acks, ag_stage := Settled (p\<lparr>ps_after := map (\<lambda>(i, a). (i, a\<lparr>al_acknowledged := acks i\<rparr>)) (ps_after p)\<rparr>)\<rparr>"
    by (simp add: settle_acks_def Looked Let_def acks_def)
  have "promised (settle_acks s) = promised s" by (rule promised_cong) (simp_all add: st)
  moreover have "seen_active (settle_acks s)" using inv(2) by (simp add: st seen_active_def)
  ultimately show ?thesis
    using inv(1,3,4) new doms by (auto simp: st in_step_def alerts_sound_def alerts_ok_seen map_of_seen)
qed (use assms in \<open>simp_all add: settle_acks_def\<close>)

lemma shown_announce:
  assumes "ag_stage s = Settled p" "alerts_ok (ps_before p)" "alerts_ok (ps_after p)"
  shows "shown (announce_alerts nt s) i =
    (if map_of (ps_before p) i = map_of (ps_after p) i then shown s i else map_of (ps_after p) i)"
  using see_announced [OF assms(2,3), of "shown s" i] assms(1)
  by (simp add: announce_alerts_def shown_def)

lemma in_step_announce:
  assumes "in_step s" "ag_stage s = Settled p" "ag_seen s = []"
  shows "in_step (announce_alerts nt s)"
proof -
  have ok: "alerts_ok (ps_before p)" "alerts_ok (ps_after p)" "promised s = shown s"
    using assms by (simp_all add: in_step_def alerts_sound_def promised_def)
  have inv: "if map_of (ps_after p) i \<noteq> None then ahead (ag_acks s) (shown s) (map_of (ps_before p)) i
      else (shown s i = None \<longleftrightarrow> map_of (ps_before p) i = None)" for i
    using assms(1,2) unfolding in_step_def ok(3) [symmetric] by (auto split: if_splits)
  have "ahead (ag_acks s) (shown (announce_alerts nt s)) (map_of (ps_after p)) i" for i
    using inv [of i] by (auto simp: shown_announce [OF assms(2) ok(1,2)] ahead_def split: if_splits)
  moreover have "promised (announce_alerts nt s) = shown (announce_alerts nt s)"
    by (simp add: promised_def announce_alerts_def assms(2,3))
  ultimately show ?thesis
    using ok(2) by (auto simp: in_step_def alerts_sound_def seen_active_def announce_alerts_def assms(2,3))
qed

lemma ahead_same:
  "ahead acks m b i \<Longrightarrow> map_option (\<lambda>a. a\<lparr>al_acknowledged := None\<rparr>) (m i) = map_option (\<lambda>a. a\<lparr>al_acknowledged := None\<rparr>) (b i)
    \<and> (m i \<noteq> b i \<longrightarrow> Option.bind (m i) al_acknowledged = acks i)"
  by (auto simp: ahead_def)


lemma in_step_step: "alert_step s s' \<Longrightarrow> ag_stage s' = Resting \<longrightarrow> ag_stage s = Resting \<or> ag_seen s = [] \<Longrightarrow> in_step s \<Longrightarrow> in_step s'"
proof (induction rule: alert_step.induct)
  case (Hear s e)
  moreover have "promised (snd (hear e s)) = promised s"
    by (rule promised_cong) (simp_all add: hear_def case_prod_unfold Let_def)
  ultimately show ?case
    by (auto simp: hear_def in_step_def alerts_sound_def seen_active_def case_prod_unfold Let_def)
next
  case (Announce s nt)
  show ?case
  proof (cases "ag_stage s")
    case (Settled p)
    moreover have "ag_stage (announce_alerts nt s) = Resting" by (simp add: announce_alerts_def Settled)
    ultimately show ?thesis using Announce by (auto intro: in_step_announce)
  qed (use Announce in \<open>simp_all add: announce_alerts_def\<close>)
qed (simp_all add: in_step_look in_step_settle in_step_acknowledge in_step_publish)


interpretation unhurried_pass: invariant_system "(=) alert_engine_new" unhurried_step in_step
proof unfold_locales
  show "in_step s'" if "in_step s" "unhurried_step s s'" for s s'
    using that in_step_step by (auto simp: unhurried_step_def)
qed (auto simp: in_step_def alerts_sound_def alerts_ok_def seen_active_def promised_def alert_engine_new_def shown_def)

text \<open>
  C28. Clients see the alerts as they are, as long as no pass announces while an acknowledgement
  waits to be announced. However passes of the engine and the two steps of acknowledgements (marking
  the alert, announcing it) follow one another and overlap otherwise: between passes, when no announcement is
  outstanding, a client of the public bus has exactly the active alerts,
  except that it can already have an acknowledgement that the engine has on record; and a pass that no
  acknowledgement comes into brings the two together exactly, whatever came before it.
\<close>

theorem alert_clients_in_step:
  assumes "unhurried s" "ag_stage s = Resting" "ag_seen s = []"
  shows "(\<forall>i. map_option (\<lambda>a. a\<lparr>al_acknowledged := None\<rparr>) (shown s i) = map_option (\<lambda>a. a\<lparr>al_acknowledged := None\<rparr>) (map_of (ag_active s) i)
      \<and> (shown s i \<noteq> map_of (ag_active s) i \<longrightarrow> Option.bind (shown s i) al_acknowledged = ag_acks s i))
    \<and> (let s' = announce_alerts nt (settle_acks (look_round x devices t now local cfg s)) in shown s' = map_of (ag_active s'))"
proof (rule conjI)
  have inv: "in_step s" using assms(1) by (rule unhurried_pass.reach_invar)
  then have a: "ahead (ag_acks s) (shown s) (map_of (ag_active s)) i" for i
    using assms(2,3) by (simp add: in_step_def promised_def)
  then show "\<forall>i. map_option (\<lambda>a. a\<lparr>al_acknowledged := None\<rparr>) (shown s i) = map_option (\<lambda>a. a\<lparr>al_acknowledged := None\<rparr>) (map_of (ag_active s) i)
      \<and> (shown s i \<noteq> map_of (ag_active s) i \<longrightarrow> Option.bind (shown s i) al_acknowledged = ag_acks s i)"
    using ahead_same by blast
  let ?after = "called_for x devices t now local cfg s"
  define acks where "acks = (\<lambda>i. if map_of ?after i = None then None else ag_acks s i)"
  let ?s = "settle_acks (look_round x devices t now local cfg s)"
  define p where "p = \<lparr>ps_before = ag_active s, ps_after = map (\<lambda>(i, a). (i, a\<lparr>al_acknowledged := acks i\<rparr>)) ?after,
    ps_rules = list_alert_rules t, ps_topics = list_topic_settings t\<rparr>"
  have st: "ag_stage ?s = Settled p" "shown ?s = shown s"
    by (auto simp: settle_acks_def look_round_simps Let_def acks_def p_def shown_def)
  have ok: "alerts_ok (ps_before p)" "alerts_ok (ps_after p)"
    using inv by (simp_all add: p_def in_step_def alerts_sound_def alerts_ok_seen called_for_ok)
  have "shown (announce_alerts nt ?s) i = map_of (ps_after p) i" for i
    using a [of i] unfolding shown_announce [OF st(1) ok] st(2)
    by (auto simp: p_def map_of_seen acks_def ahead_def)
  then show "let s' = announce_alerts nt ?s in shown s' = map_of (ag_active s')"
    using st(1) by (auto simp: Let_def announce_alerts_def)
qed

definition sample_alert_ext :: alert_ext where
  "sample_alert_ext =
     \<lparr>lx_lower = map ascii_lower, lx_upper = map ascii_upper, lx_is_uppercase = (\<lambda>c. map ascii_lower c \<noteq> c),
      lx_is_alphabetic = (\<lambda>c. map ascii_lower c \<noteq> map ascii_upper c), lx_show_json = (\<lambda>_. []), lx_show_f64 = (\<lambda>_. []),
      lx_time_of_day = (\<lambda>_. None)\<rparr>"

definition leak_sensor :: device where
  "leak_sensor = (device_new 0 ''cellar'' ''Cellar'' ''plugin.yolink'')\<lparr>dv_available := True, dv_attributes := [(''leak'', JBool True)]\<rparr>"

definition no_tables :: alert_tables where
  "no_tables = \<lparr>tb_rules = [], tb_ignores = [], tb_topics = []\<rparr>"

definition sample_pass :: "device list \<Rightarrow> timestamp \<Rightarrow> alert_engine \<Rightarrow> alert_engine" where
  "sample_pass devices now s =
     announce_alerts \<lparr>nt_service = False, nt_channel = None\<rparr> (settle_acks (look_round sample_alert_ext devices no_tables now 0 battery_config_default s))"

definition seen_then_pass :: alert_engine where
  "seen_then_pass =
     (let s = handle_acknowledge 1 ''wet:cellar'' ''sam''
            (look_round sample_alert_ext [leak_sensor] no_tables 1 0 battery_config_default (sample_pass [leak_sensor] 0 alert_engine_new));
          s' = publish_seen (hd (ag_seen s)) s in
      announce_alerts \<lparr>nt_service = False, nt_channel = None\<rparr> (settle_acks s'))"

lemma unhurried_look:
  assumes "unhurried s" "ag_stage s = Resting"
  shows "unhurried (look_round x devices t now local cfg s)"
  using assms by (intro reach_step [OF assms(1)]) (auto simp: unhurried_step_def intro: alert_step.Look)

lemma unhurried_finish:
  assumes "unhurried s" "ag_stage s = Looked p" "ag_seen s = []"
  shows "unhurried (announce_alerts nt (settle_acks s))"
proof -
  have "unhurried (settle_acks s)"
    using assms(1) by (rule reach_step) (simp add: unhurried_step_def alert_step.Settle assms)
  then show ?thesis
    by (rule reach_step) (simp add: unhurried_step_def alert_step.Announce settle_acks_def assms Let_def)
qed

lemma unhurried_seen_then_pass: "unhurried seen_then_pass"
proof -
  let ?looked = "look_round sample_alert_ext [leak_sensor] no_tables 0 0 battery_config_default alert_engine_new"
  let ?again = "look_round sample_alert_ext [leak_sensor] no_tables 1 0 battery_config_default (sample_pass [leak_sensor] 0 alert_engine_new)"
  let ?seen = "handle_acknowledge 1 ''wet:cellar'' ''sam'' ?again"
  have "unhurried ?looked" by (rule unhurried_look [OF reach_init]) (simp_all add: alert_engine_new_def)
  then have "unhurried (sample_pass [leak_sensor] 0 alert_engine_new)"
    unfolding sample_pass_def by (rule unhurried_finish) (simp_all add: look_round_simps alert_engine_new_def)
  then have "unhurried ?again"
    by (rule unhurried_look) (simp add: sample_pass_def announce_alerts_def settle_acks_def look_round_simps Let_def)
  then have "unhurried ?seen"
    by (rule reach_step) (simp add: unhurried_step_def alert_step.Acknowledge, code_simp)
  then have "unhurried (publish_seen (hd (ag_seen ?seen)) ?seen)"
    by (rule reach_step) (simp add: unhurried_step_def alert_step.PublishSeen, code_simp)
  moreover have "ag_seen (publish_seen (hd (ag_seen ?seen)) ?seen) = []" by code_simp
  moreover have "\<exists>p. ag_stage (publish_seen (hd (ag_seen ?seen)) ?seen) = Looked p"
    by (simp add: publish_seen_def handle_acknowledge_def look_round_simps Let_def split: option.split)
  ultimately show ?thesis unfolding seen_then_pass_def Let_def using unhurried_finish by blast
qed

text \<open>A pass into which an acknowledgement and its announcement came.\<close>

theorem alert_clients_in_step_witness:
  "Option.bind (map_of (ag_active seen_then_pass) ''wet:cellar'') al_acknowledged = Some \<lparr>ack_by = ''sam'', ack_at = 1\<rparr>
    \<and> map_option (\<lambda>a. a\<lparr>al_acknowledged := None\<rparr>) (shown seen_then_pass ''wet:cellar'')
        = map_option (\<lambda>a. a\<lparr>al_acknowledged := None\<rparr>) (map_of (ag_active seen_then_pass) ''wet:cellar'')
    \<and> shown (sample_pass [leak_sensor] 2 seen_then_pass) = map_of (ag_active (sample_pass [leak_sensor] 2 seen_then_pass))"
proof (rule conjI)
  show "Option.bind (map_of (ag_active seen_then_pass) ''wet:cellar'') al_acknowledged = Some \<lparr>ack_by = ''sam'', ack_at = 1\<rparr>"
    by code_simp
  have "ag_stage seen_then_pass = Resting" "ag_seen seen_then_pass = []" by code_simp+
  from alert_clients_in_step [OF unhurried_seen_then_pass this]
  show "map_option (\<lambda>a. a\<lparr>al_acknowledged := None\<rparr>) (shown seen_then_pass ''wet:cellar'')
        = map_option (\<lambda>a. a\<lparr>al_acknowledged := None\<rparr>) (map_of (ag_active seen_then_pass) ''wet:cellar'')
    \<and> shown (sample_pass [leak_sensor] 2 seen_then_pass) = map_of (ag_active (sample_pass [leak_sensor] 2 seen_then_pass))"
    unfolding sample_pass_def Let_def by blast
qed

definition full_pass ::
  "alert_ext \<Rightarrow> alert_notify \<Rightarrow> device list \<Rightarrow> alert_tables \<Rightarrow> timestamp \<Rightarrow> nanos \<Rightarrow> battery_config \<Rightarrow> alert_engine \<Rightarrow> alert_engine"
where
  "full_pass x nt devices t now local cfg s = announce_alerts nt (settle_acks (look_round x devices t now local cfg s))"

definition settled_acks ::
  "alert_ext \<Rightarrow> device list \<Rightarrow> alert_tables \<Rightarrow> timestamp \<Rightarrow> nanos \<Rightarrow> battery_config \<Rightarrow> alert_engine \<Rightarrow> string \<rightharpoonup> acknowledged"
where
  "settled_acks x devices t now local cfg s = (\<lambda>i. if map_of (called_for x devices t now local cfg s) i = None then None else ag_acks s i)"

lemma full_pass_simps:
  "map_of (ag_active (full_pass x nt devices t now local cfg s)) i =
     map_option (\<lambda>a. a\<lparr>al_acknowledged := settled_acks x devices t now local cfg s i\<rparr>) (map_of (called_for x devices t now local cfg s) i)"
  "ag_acks (full_pass x nt devices t now local cfg s) = settled_acks x devices t now local cfg s"
  "ag_seen (full_pass x nt devices t now local cfg s) = ag_seen s"
  "ag_stage (full_pass x nt devices t now local cfg s) = Resting"
  by (simp_all add: full_pass_def announce_alerts_def settle_acks_def look_round_simps map_of_seen settled_acks_def Let_def cong: if_cong)





subsection \<open>Which alerts a pass leaves active\<close>

lemma added_from:
  "map_of (fold (add_alert active) as out) i = Some v \<Longrightarrow> map_of out i = Some v \<or> (\<exists>a \<in> set as. al_id a = i \<and> v = keep_raised active a)"
  by (induction as arbitrary: out) (fastforce simp: add_alert_def split: if_splits)+

lemma added_dom: "map_of (fold (add_alert active) as out) i \<noteq> None \<longleftrightarrow> map_of out i \<noteq> None \<or> i \<in> al_id ` set as"
  by (induction as arbitrary: out) (auto simp: add_alert_def)

lemma puts_from: "map_of (fold (\<lambda>(i, a). put i a) u t) i = Some v \<Longrightarrow> map_of t i = Some v \<or> (i, v) \<in> set u"
  by (induction u arbitrary: t) (fastforce split: if_splits prod.splits)+

lemma puts_dom: "map_of (fold (\<lambda>(i, a). put i a) u t) i \<noteq> None \<longleftrightarrow> map_of t i \<noteq> None \<or> i \<in> fst ` set u"
  by (induction u arbitrary: t) (auto simp: image_iff)

lemma device_alerts_cong: "off (dv_id d) = off' (dv_id d) \<Longrightarrow> device_alerts x cfg active now off d = device_alerts x cfg active now off' d"
  by (simp add: device_alerts_def offline_part_def Let_def)

lemma offline_part_other: "i \<noteq> dv_id d \<Longrightarrow> fst (offline_part x now d off) i = off i"
  by (simp add: offline_part_def Let_def)

lemma from_devices_from:
  assumes "distinct (map dv_id ds)" "map_of (snd (from_devices x cfg active now ds (off, out))) i = Some v"
  shows "map_of out i = Some v \<or> (\<exists>d \<in> set ds. \<exists>a \<in> set (device_alerts x cfg active now off d). al_id a = i \<and> v = keep_raised active a)"
  using assms
proof (induction ds arbitrary: off out)
  case (Cons d ds)
  let ?off = "fst (offline_part x now d off)"
  have same: "device_alerts x cfg active now ?off e = device_alerts x cfg active now off e" if "e \<in> set ds" for e
    using that Cons.prems(1) by (intro device_alerts_cong offline_part_other) (auto simp: image_iff)
  show ?case using Cons.IH [of ?off] Cons.prems added_from [of active "device_alerts x cfg active now off d" out i v] same by fastforce
qed simp

lemma from_devices_dom:
  assumes "distinct (map dv_id ds)"
  shows "map_of (snd (from_devices x cfg active now ds (off, out))) i \<noteq> None
    \<longleftrightarrow> map_of out i \<noteq> None \<or> (\<exists>d \<in> set ds. i \<in> al_id ` set (device_alerts x cfg active now off d))"
  using assms
proof (induction ds arbitrary: off out)
  case (Cons d ds)
  let ?off = "fst (offline_part x now d off)"
  have same: "device_alerts x cfg active now ?off e = device_alerts x cfg active now off e" if "e \<in> set ds" for e
    using that Cons.prems(1) by (intro device_alerts_cong offline_part_other) (auto simp: image_iff)
  have "map_of (snd (from_devices x cfg active now (d # ds) (off, out))) i \<noteq> None
    \<longleftrightarrow> (map_of out i \<noteq> None \<or> i \<in> al_id ` set (device_alerts x cfg active now off d))
      \<or> (\<exists>d \<in> set ds. i \<in> al_id ` set (device_alerts x cfg active now ?off d))"
    unfolding from_devices.simps using Cons.prems by (subst Cons.IH) (simp_all only: added_dom distinct.simps list.map)
  then show ?case using same by auto
qed simp

text \<open>An alert's identifier begins with its kind, and kinds begin differently.\<close>

lemma kind_initial: "hd (alert_kind_as_str k) = hd (alert_kind_as_str k') \<longleftrightarrow> k = k'" "alert_kind_as_str k \<noteq> []"
  by (cases k; cases k'; simp add: alert_kind_as_str_def) (cases k; simp add: alert_kind_as_str_def)

lemma hd_built_in_id [simp]: "hd (built_in_id k i) = hd (alert_kind_as_str k)"
  by (simp add: built_in_id_def kind_initial)

lemma built_in_id_inj: "built_in_id k i = built_in_id k' i' \<longleftrightarrow> k = k' \<and> i = i'"
  by (metis append.assoc append_same_eq built_in_id_def hd_built_in_id kind_initial(1) same_append_eq)

lemma hd_rule_alert_id [simp]: "hd (rule_alert_id r i) = hd (alert_kind_as_str KRule)"
  by (simp add: rule_alert_id_def alert_kind_as_str_def)

lemma hd_plugin_alert_id [simp]: "hd (plugin_alert_id p d pa) = hd (alert_kind_as_str KPlugin)"
  by (simp add: plugin_alert_id_def alert_kind_as_str_def)

text \<open>What each built-in kind asks of a device.\<close>

definition due :: "battery_config \<Rightarrow> active \<Rightarrow> timestamp \<Rightarrow> since \<Rightarrow> alert_kind \<Rightarrow> device \<Rightarrow> bool" where
  "due cfg active now off k d =
     (let says = (\<lambda>a. map_of (dv_attributes d) a = Some (JBool True)) in
      case k of
        Offline \<Rightarrow> \<not> dv_available d \<and> OFFLINE_AFTER \<le> now - unwrap_or (off (dv_id d)) now
      | Wet \<Rightarrow> says ''water_detected'' \<or> says ''leak'' \<or> says ''wet''
      | Smoke \<Rightarrow> says ''smoke'' \<or> says ''smoke_detected''
      | Jammed \<Rightarrow> is_jammed d
      | LowBattery \<Rightarrow> is_low cfg (map_of active (built_in_id LowBattery (dv_id d)) \<noteq> None) d
      | _ \<Rightarrow> False)"

lemma built_in_simps [simp]:
  "al_id (built_in x now d k sev r t) = built_in_id k (dv_id d)" "al_kind (built_in x now d k sev r t) = k"
  "al_device_id (built_in x now d k sev r t) = dv_id d" "al_rule_id (built_in x now d k sev r t) = None"
  "al_plugin_id (built_in x now d k sev r t) = None" "al_topic (built_in x now d k sev r t) = None"
  "al_key (built_in x now d k sev r t) = None" "al_severity (built_in x now d k sev r t) = sev"
  "al_device_plugin_id (built_in x now d k sev r t) = Some (dv_plugin_id d)"
  by (simp_all add: built_in_def)

lemma rule_alert_simps [simp]:
  "al_id (rule_alert x r d t) = rule_alert_id (lr_id r) (dv_id d)" "al_kind (rule_alert x r d t) = KRule"
  "al_device_id (rule_alert x r d t) = dv_id d" "al_rule_id (rule_alert x r d t) = Some (lr_id r)"
  "al_plugin_id (rule_alert x r d t) = None" "al_topic (rule_alert x r d t) = None" "al_key (rule_alert x r d t) = None"
  "al_severity (rule_alert x r d t) = lr_severity r" "al_device_plugin_id (rule_alert x r d t) = Some (dv_plugin_id d)"
  by (simp_all add: rule_alert_def Let_def)

lemma keep_raised_simps [simp]:
  "al_kind (keep_raised act a) = al_kind a" "al_device_id (keep_raised act a) = al_device_id a"
  "al_rule_id (keep_raised act a) = al_rule_id a" "al_plugin_id (keep_raised act a) = al_plugin_id a"
  "al_topic (keep_raised act a) = al_topic a" "al_key (keep_raised act a) = al_key a"
  "al_severity (keep_raised act a) = al_severity a" "al_device_plugin_id (keep_raised act a) = al_device_plugin_id a"
  by (simp_all add: keep_raised_def split: option.split)

definition own_of :: "device \<Rightarrow> alert \<Rightarrow> bool" where
  "own_of d a \<longleftrightarrow> al_id a = built_in_id (al_kind a) (dv_id d) \<and> al_device_id a = dv_id d \<and> al_rule_id a = None \<and> al_plugin_id a = None
     \<and> al_topic a = None \<and> al_key a = None \<and> al_device_plugin_id a = Some (dv_plugin_id d)
     \<and> al_kind a \<notin> {KRule, KPlugin}"

lemmas part_defs = device_alerts_def offline_part_def wet_part_def smoke_part_def jammed_part_def battery_part_def

lemma device_alerts_own: "a \<in> set (device_alerts x cfg active now off d) \<Longrightarrow> own_of d a"
  by (auto simp: part_defs own_of_def Let_def split: if_splits option.splits)

lemma first_true_None: "first_true d ks = None \<longleftrightarrow> (\<forall>k \<in> set ks. map_of (dv_attributes d) k \<noteq> Some (JBool True))"
  by (auto simp: first_true_def find_None_iff)

lemma device_alerts_kinds: "k \<in> al_kind ` set (device_alerts x cfg active now off d) \<longleftrightarrow> due cfg active now off k d"
proof -
  have wet: "al_kind ` set (wet_part x now d) = (if due cfg active now off Wet d then {Wet} else {})"
    using first_true_None [of d "[''water_detected'', ''leak'', ''wet'']"] by (auto simp: wet_part_def due_def Let_def split: option.split)
  have smoke: "al_kind ` set (smoke_part x now d) = (if due cfg active now off Smoke d then {Smoke} else {})"
    using first_true_None [of d "[''smoke'', ''smoke_detected'']"] by (auto simp: smoke_part_def due_def Let_def split: option.split)
  have "OFFLINE_AFTER \<le> max 0 t \<longleftrightarrow> OFFLINE_AFTER \<le> t" for t by (auto simp: OFFLINE_AFTER_def max_def)
  then have offline: "al_kind ` set (snd (offline_part x now d off)) = (if due cfg active now off Offline d then {Offline} else {})"
    by (simp add: offline_part_def due_def Let_def)
  have jammed: "al_kind ` set (jammed_part x now d) = (if due cfg active now off Jammed d then {Jammed} else {})"
    by (simp add: jammed_part_def due_def)
  have low: "al_kind ` set (battery_part x cfg active now d) = (if due cfg active now off LowBattery d then {LowBattery} else {})"
    by (simp add: battery_part_def due_def)
  show ?thesis unfolding device_alerts_def set_append image_Un wet smoke offline jammed low by (cases k) (auto simp: due_def)
qed

lemma device_alerts_ids:
  "built_in_id k i \<in> al_id ` set (device_alerts x cfg active now off d) \<longleftrightarrow> dv_id d = i \<and> due cfg active now off k d"
proof -
  have "built_in_id k i \<in> al_id ` set (device_alerts x cfg active now off d)
      \<longleftrightarrow> (\<exists>a \<in> set (device_alerts x cfg active now off d). al_kind a = k \<and> dv_id d = i)"
    using device_alerts_own by (force simp: own_of_def image_iff built_in_id_inj)
  also have "\<dots> \<longleftrightarrow> dv_id d = i \<and> k \<in> al_kind ` set (device_alerts x cfg active now off d)" by auto
  finally show ?thesis by (simp add: device_alerts_kinds)
qed

lemma added_other: "(\<And>a. a \<in> set as \<Longrightarrow> al_id a \<noteq> i) \<Longrightarrow> map_of (fold (add_alert active) as out) i = map_of out i"
  by (induction as arbitrary: out) (auto simp: add_alert_def)

lemma rule_on_device_ids: "a \<in> set (snd (rule_on_device x now local devices r i held)) \<Longrightarrow> hd (al_id a) = hd (alert_kind_as_str KRule)"
  by (auto simp: rule_on_device_def Let_def split: option.splits if_splits)

lemma rule_on_devices_other:
  "hd i \<noteq> hd (alert_kind_as_str KRule) \<Longrightarrow> map_of (snd (rule_on_devices x active now local devices r is ho)) i = map_of (snd ho) i"
proof (induction x active now local devices r "is" ho rule: rule_on_devices.induct)
  case (2 x active now local devices r j js held out)
  obtain held' as where step: "rule_on_device x now local devices r j held = (held', as)" by fastforce
  then have "a \<in> set as \<Longrightarrow> al_id a \<noteq> i" for a using rule_on_device_ids [of a x now local devices r j held] 2(2) by auto
  then show ?case using 2 step by (simp add: added_other)
qed simp

lemma from_rules_other:
  "hd i \<noteq> hd (alert_kind_as_str KRule) \<Longrightarrow> map_of (snd (from_rules x active now local devices rules ho)) i = map_of (snd ho) i"
proof (induction rules arbitrary: ho)
  case (Cons r rules)
  then show ?case by (simp add: from_rules_def rule_on_devices_other)
qed (simp add: from_rules_def)

lemma from_plugins_ids: "(i, a) \<in> set (from_plugins x devices p topics active now) \<Longrightarrow> hd i = hd (alert_kind_as_str KPlugin)"
proof -
  assume "(i, a) \<in> set (from_plugins x devices p topics active now)"
  moreover have "fst ` set (fold (\<lambda>a. put (al_id a) a) as t) \<subseteq> fst ` set t \<union> al_id ` set as" for as and t :: active
  proof (induction as arbitrary: t)
    case (Cons a as)
    show ?case using Cons.IH [of "put (al_id a) a t"] set_put [of "al_id a" a t] by (auto simp: image_iff)
  qed simp
  ultimately have "i \<in> al_id ` set (concat (map (reported_alerts x devices p topics active now) (pl_reported p)))"
    unfolding from_plugins_def by (metis (no_types, lifting) UnE empty_iff fst_conv image_eqI image_empty list.set(1) subsetD)
  then show ?thesis
    by (auto simp: reported_alerts_def alert_of_plugin_def Let_def split: prod.splits option.splits)
qed

lemma called_for_other:
  assumes "hd j \<noteq> hd (alert_kind_as_str KPlugin)"
  shows "map_of (called_for x devices t now local cfg s) j =
    (case map_of (snd (desired x devices (list_alert_rules t) (ag_active s) now local cfg (ag_memory s))) j of
       Some a \<Rightarrow> if list_ex (\<lambda>g. covers g a now) (list_alert_ignores t) then None else Some a
     | None \<Rightarrow> None)"
proof -
  let ?p = "from_plugins x devices (ag_plugins s) (list_topic_settings t) (ag_active s) now"
  let ?d = "snd (desired x devices (list_alert_rules t) (ag_active s) now local cfg (ag_memory s))"
  have "alerts_ok (fold (\<lambda>(i, a). put i a) ?p ?d)"
    by (intro alerts_ok_puts desired_ok) (use from_plugins_ok in \<open>auto simp: alerts_ok_def\<close>)
  then have "table_ok (fold (\<lambda>(i, a). put i a) ?p ?d)" by (simp add: alerts_ok_def)
  moreover have "map_of (fold (\<lambda>(i, a). put i a) ?p ?d) j = map_of ?d j"
  proof -
    have "j \<notin> fst ` set ?p" using from_plugins_ids assms by fastforce
    moreover have "j \<notin> fst ` set u \<Longrightarrow> map_of (fold (\<lambda>(i, a). put i a) u m) j = map_of m j" for j u and m :: active
      by (induction u arbitrary: m) (auto simp: image_iff)
    ultimately show ?thesis by blast
  qed
  ultimately show ?thesis
    unfolding called_for_def unignored_def by (subst map_of_filter_table) (auto split: option.split)
qed

lemma called_for_built_in:
  assumes "k \<notin> {KRule, KPlugin}"
  shows "map_of (called_for x devices t now local cfg s) (built_in_id k i) =
    (case map_of (snd (from_devices x cfg (ag_active s) now devices (me_offline_since (ag_memory s), []))) (built_in_id k i) of
       Some a \<Rightarrow> if list_ex (\<lambda>g. covers g a now) (list_alert_ignores t) then None else Some a
     | None \<Rightarrow> None)"
proof -
  have "hd (built_in_id k i) \<noteq> hd (alert_kind_as_str KRule)" "hd (built_in_id k i) \<noteq> hd (alert_kind_as_str KPlugin)"
    using assms kind_initial by (simp_all only: hd_built_in_id) auto
  then show ?thesis
    using from_rules_other by (simp add: called_for_other desired_def Let_def case_prod_unfold)
qed

lemma low_battery_active:
  assumes "distinct (map dv_id devices)" "d \<in> set devices" "dv_id d = i" "tb_ignores t = []"
  shows "map_of (ag_active (full_pass x nt devices t now local cfg s)) (built_in_id LowBattery i) \<noteq> None
    \<longleftrightarrow> is_low cfg (map_of (ag_active s) (built_in_id LowBattery i) \<noteq> None) d"
proof -
  have "map_of (snd (from_devices x cfg (ag_active s) now devices (me_offline_since (ag_memory s), []))) (built_in_id LowBattery i) \<noteq> None
      \<longleftrightarrow> (\<exists>e \<in> set devices. dv_id e = i \<and> due cfg (ag_active s) now (me_offline_since (ag_memory s)) LowBattery e)"
    unfolding from_devices_dom [OF assms(1)] device_alerts_ids by simp
  also have "\<dots> \<longleftrightarrow> due cfg (ag_active s) now (me_offline_since (ag_memory s)) LowBattery d"
    using assms(1-3) by (metis distinct_map inj_onD)
  finally show ?thesis
    using assms(3,4) by (auto simp: full_pass_simps called_for_built_in list_alert_ignores_def due_def split: option.split)
qed

text \<open>
  C29. The built-in alerts are what the house's state calls for. After a pass a device has an active alert
  of a built-in kind exactly when it is stored, what the kind asks is true of it (offline since
  five minutes, wet, smoke, jammed, low battery with its band) and nobody ignores it; the alert is about
  that device and keeps when it was raised if it was active before.
\<close>

theorem built_in_alerts_exact:
  assumes "distinct (map dv_id devices)" "k \<notin> {KRule, KPlugin}"
  shows "case map_of (ag_active (full_pass x nt devices t now local cfg s)) (built_in_id k i) of
      None \<Rightarrow> \<not> ((\<exists>d \<in> set devices. dv_id d = i \<and> due cfg (ag_active s) now (me_offline_since (ag_memory s)) k d)
              \<and> \<not> (\<exists>g \<in> set (list_alert_ignores t). covers_parts g k i None now \<and> ai_plugin_id g = None \<and> ai_topic g = None \<and> ai_key g = None))
    | Some a \<Rightarrow> (\<exists>d \<in> set devices. dv_id d = i \<and> due cfg (ag_active s) now (me_offline_since (ag_memory s)) k d)
              \<and> \<not> (\<exists>g \<in> set (list_alert_ignores t). covers_parts g k i None now \<and> ai_plugin_id g = None \<and> ai_topic g = None \<and> ai_key g = None)
              \<and> al_kind a = k \<and> al_device_id a = i
              \<and> is_none_or (map_of (ag_active s) (built_in_id k i)) (\<lambda>was. al_raised_at a = al_raised_at was)"
proof -
  let ?j = "built_in_id k i" and ?off = "me_offline_since (ag_memory s)"
  let ?m = "map_of (snd (from_devices x cfg (ag_active s) now devices (?off, []))) ?j"
  have dom: "?m \<noteq> None \<longleftrightarrow> (\<exists>d \<in> set devices. dv_id d = i \<and> due cfg (ag_active s) now ?off k d)"
    unfolding from_devices_dom [OF assms(1)] device_alerts_ids by simp
  have val: "own_of d (keep_raised (ag_active s) b) \<Longrightarrow> al_id b = ?j \<Longrightarrow> al_kind b = k \<and> al_device_id b = i" for d b
    by (auto simp: own_of_def built_in_id_inj)
  have new: "\<exists>d b. own_of d b \<and> al_id b = ?j \<and> a = keep_raised (ag_active s) b" if "?m = Some a" for a
    using from_devices_from [OF assms(1) that] device_alerts_own by fastforce
  have cov: "covers g a now \<longleftrightarrow> covers_parts g k i None now \<and> ai_plugin_id g = None \<and> ai_topic g = None \<and> ai_key g = None"
    if "?m = Some a" for g a
    using new [OF that] by (auto simp: own_of_def built_in_id_inj covers_def is_none_or_def split: option.splits)
  have raised: "is_none_or (map_of (ag_active s) ?j) (\<lambda>was. al_raised_at a = al_raised_at was)" if "?m = Some a" for a
    using new [OF that] by (cases "map_of (ag_active s) ?j") (auto simp: keep_raised_def)
  have about: "al_kind a = k \<and> al_device_id a = i" if "?m = Some a" for a
    using new [OF that] by (auto simp: own_of_def built_in_id_inj)
  show ?thesis
    unfolding full_pass_simps called_for_built_in [OF assms(2)] dom [symmetric]
    using cov raised about by (auto simp: list_ex_iff split: option.splits)
qed

theorem built_in_alerts_exact_witness:
  "case map_of (ag_active (full_pass sample_alert_ext \<lparr>nt_service = False, nt_channel = None\<rparr> [leak_sensor] no_tables 0 0 battery_config_default alert_engine_new))
       (built_in_id Wet ''cellar'') of
     None \<Rightarrow> False
   | Some a \<Rightarrow> al_kind a = Wet \<and> al_device_id a = ''cellar''"
proof -
  have "\<exists>d \<in> set [leak_sensor]. dv_id d = ''cellar'' \<and> due battery_config_default (ag_active alert_engine_new) 0
      (me_offline_since (ag_memory alert_engine_new)) Wet d"
    by (simp add: leak_sensor_def device_new_def due_def)
  moreover have "set (list_alert_ignores no_tables) = {}" by (simp add: list_alert_ignores_def no_tables_def)
  ultimately show ?thesis
    using built_in_alerts_exact [where devices = "[leak_sensor]" and k = Wet and x = sample_alert_ext and t = no_tables and now = 0
        and local = 0 and cfg = battery_config_default and s = alert_engine_new and i = "''cellar''"
        and nt = "\<lparr>nt_service = False, nt_channel = None\<rparr>"]
    by (auto split: option.splits)
qed

subsection \<open>Low batteries\<close>

lemma is_low_advance:
  assumes "map_of (dv_attributes d) ''battery_low'' \<noteq> Some (JBool True)" "battery_reading d = Some p" "p \<noteq> NaN"
    and "f64_lt (bc_threshold_pct cfg) (f64_op (+) (bc_threshold_pct cfg) (bc_recover_band_pct cfg))"
  shows "is_low cfg b d \<longleftrightarrow> battery_advance (bc_threshold_pct cfg) (bc_recover_band_pct cfg) b p"
proof -
  let ?t = "bc_threshold_pct cfg" and ?r = "f64_op (+) (bc_threshold_pct cfg) (bc_recover_band_pct cfg)"
  have "?r \<noteq> NaN" using assms(4) by (cases "?t") (auto simp: f64_lt_def)
  then have "f64_le p ?t \<or> f64_lt p ?r \<longleftrightarrow> \<not> f64_le ?r p"
    using f64_total [of p ?r] f64_lt_not_le [of p ?r] f64_le_lt_trans [of p ?t ?r] assms(3,4) by blast
  then show ?thesis using assms(1,2) by (cases b) (simp_all add: is_low_def battery_advance_def)
qed

text \<open>
  The alert of a low battery and the battery watcher agree: if both start alike and the engine looks
  once at every report of a percentage, of a device that sends no flag for a low battery, then, with a
  band above zero and nothing ignored, the alert is active exactly when the watcher's latch says low.
\<close>

theorem battery_alert_follows_watcher:
  assumes "f64_lt (bc_threshold_pct cfg) (f64_op (+) (bc_threshold_pct cfg) (bc_recover_band_pct cfg))" "tb_ignores t = []"
    and "\<forall>(devices, p) \<in> set reports. distinct (map dv_id devices) \<and> p \<noteq> NaN
          \<and> (\<exists>d \<in> set devices. dv_id d = i \<and> map_of (dv_attributes d) ''battery_low'' \<noteq> Some (JBool True) \<and> battery_reading d = Some p)"
    and "map_of (ag_active s) (built_in_id LowBattery i) \<noteq> None \<longleftrightarrow> in_low h i"
  shows "map_of (ag_active (fold (\<lambda>(devices, _). full_pass x nt devices t now local cfg) reports s)) (built_in_id LowBattery i) \<noteq> None
    \<longleftrightarrow> in_low (fold (\<lambda>(_, p) h. snd (evaluate_battery now i p (bc_threshold_pct cfg) (bc_recover_band_pct cfg) h)) reports h) i"
  using assms(3,4)
proof (induction reports arbitrary: s h)
  case (Cons rep reports)
  obtain devices p where r: "rep = (devices, p)" by fastforce
  obtain d where d: "distinct (map dv_id devices)" "p \<noteq> NaN" "d \<in> set devices" "dv_id d = i"
      "map_of (dv_attributes d) ''battery_low'' \<noteq> Some (JBool True)" "battery_reading d = Some p"
    using Cons.prems(1) r by auto
  have "in_low (snd (evaluate_battery now i p (bc_threshold_pct cfg) (bc_recover_band_pct cfg) h)) i
      = battery_advance (bc_threshold_pct cfg) (bc_recover_band_pct cfg) (in_low h i) p"
    by (auto simp: evaluate_battery_def battery_advance_def in_low_def Let_def split: option.splits)
  then have "map_of (ag_active (full_pass x nt devices t now local cfg s)) (built_in_id LowBattery i) \<noteq> None
      \<longleftrightarrow> in_low (snd (evaluate_battery now i p (bc_threshold_pct cfg) (bc_recover_band_pct cfg) h)) i"
    using low_battery_active [OF d(1,3,4) assms(2)] is_low_advance [OF d(5,6,2) assms(1)] Cons.prems(2) by simp
  with Cons.IH [OF _ this] Cons.prems(1) show ?case by (simp add: r)
qed simp

definition lamp_at :: "int \<Rightarrow> device" where
  "lamp_at p = (device_new 0 ''lamp'' ''Lamp'' ''plugin.hue'')\<lparr>dv_available := True, dv_attributes := [(''battery'', json_int p)]\<rparr>"

theorem battery_alert_follows_watcher_witness:
  "map_of (ag_active (fold (\<lambda>(devices, _). full_pass sample_alert_ext \<lparr>nt_service = False, nt_channel = None\<rparr> devices no_tables 0 0 battery_config_default)
       [([lamp_at 15], Fin 15), ([lamp_at 22], Fin 22)] alert_engine_new)) (built_in_id LowBattery ''lamp'') \<noteq> None
   \<longleftrightarrow> in_low (fold (\<lambda>(_, p) h. snd (evaluate_battery 0 ''lamp'' p (bc_threshold_pct battery_config_default) (bc_recover_band_pct battery_config_default) h))
       [([lamp_at 15], Fin 15), ([lamp_at 22], Fin 22)] empty_hub) ''lamp''"
proof (rule battery_alert_follows_watcher)
  show "f64_lt (bc_threshold_pct battery_config_default) (f64_op (+) (bc_threshold_pct battery_config_default) (bc_recover_band_pct battery_config_default))"
    using round_f64_int [of 25] by (simp add: battery_config_default_def f64_op_def f64_lt_def rat_cmp_def)
  show "\<forall>(devices, p) \<in> set [([lamp_at 15], Fin 15), ([lamp_at 22], Fin 22)]. distinct (map dv_id devices) \<and> p \<noteq> NaN
      \<and> (\<exists>d \<in> set devices. dv_id d = ''lamp'' \<and> map_of (dv_attributes d) ''battery_low'' \<noteq> Some (JBool True) \<and> battery_reading d = Some p)"
    using as_f64_json_int [of 15] as_f64_json_int [of 22] by (simp add: lamp_at_def device_new_def battery_reading_def)
  show "tb_ignores no_tables = []" by (simp add: no_tables_def)
  show "map_of (ag_active alert_engine_new) (built_in_id LowBattery ''lamp'') \<noteq> None \<longleftrightarrow> in_low empty_hub ''lamp''"
    by (simp add: alert_engine_new_def in_low_def empty_hub_def)
qed

subsection \<open>Time rules\<close>

definition rule_holds :: "alert_rule \<Rightarrow> device \<Rightarrow> bool" where
  "rule_holds r d \<longleftrightarrow> (\<exists>v. map_of (dv_attributes d) (lr_attribute r) = Some v \<and> alert_rule_matches r v)"

text \<open>Since when, as far as the engine knows: an equality from the change of the attribute.\<close>

definition rule_since :: "alert_rule \<Rightarrow> device \<Rightarrow> since \<Rightarrow> timestamp \<Rightarrow> timestamp" where
  "rule_since r d held now =
     unwrap_or (if lr_op r = AlEq then changed_since d (lr_attribute r) else None)
       (unwrap_or (held (rule_alert_id (lr_id r) (dv_id d))) now)"

definition rule_due :: "alert_ext \<Rightarrow> timestamp \<Rightarrow> nanos \<Rightarrow> since \<Rightarrow> alert_rule \<Rightarrow> device \<Rightarrow> bool" where
  "rule_due x now local held r d \<longleftrightarrow>
     rule_holds r d \<and> is_none_or (lr_for_minutes r) (\<lambda>m. int m * 60 \<le> num_seconds (now - rule_since r d held now)) \<and> in_window x r local"

lemma device_by_id_iff: "distinct (map dv_id devices) \<Longrightarrow> device_by_id devices i = Some d \<longleftrightarrow> d \<in> set devices \<and> dv_id d = i"
  unfolding device_by_id_def by (subst map_of_eq_Some_iff) (auto simp: rev_map [symmetric] comp_def)

lemma rule_on_device_alerts:
  assumes "distinct (map dv_id devices)"
  shows "a \<in> set (snd (rule_on_device x now local devices r i held))
    \<longleftrightarrow> (\<exists>d \<in> set devices. dv_id d = i \<and> rule_due x now local held r d \<and> a = rule_alert x r d (rule_since r d held now))"
proof (cases "device_by_id devices i")
  case None
  then have "\<not> (\<exists>d \<in> set devices. dv_id d = i)" using device_by_id_iff [OF assms] by (metis option.distinct(1))
  then show ?thesis using None by (auto simp: rule_on_device_def)
next
  case (Some d)
  then have d: "d \<in> set devices" "dv_id d = i" and only: "\<And>e. e \<in> set devices \<Longrightarrow> dv_id e = i \<Longrightarrow> e = d"
    using device_by_id_iff [OF assms, of i] by (metis option.inject)+
  have "rule_holds r d \<longleftrightarrow> (case map_of (dv_attributes d) (lr_attribute r) of Some v \<Rightarrow> alert_rule_matches r v | None \<Rightarrow> False)"
    by (simp add: rule_holds_def split: option.split)
  then have "a \<in> set (snd (rule_on_device x now local devices r i held)) \<longleftrightarrow> rule_due x now local held r d \<and> a = rule_alert x r d (rule_since r d held now)"
    using d(2) by (auto simp: rule_on_device_def Some Let_def rule_due_def rule_since_def)
  then show ?thesis using d only by blast
qed

lemma rule_on_device_memory:
  "rule_on_device x now local devices r i held = (held', as) \<Longrightarrow>
     (\<forall>k. k \<noteq> rule_alert_id (lr_id r) i \<longrightarrow> held' k = held k)
     \<and> (\<forall>d. device_by_id devices i = Some d \<and> rule_holds r d \<longrightarrow>
          unwrap_or (held' (rule_alert_id (lr_id r) i)) now = unwrap_or (held (rule_alert_id (lr_id r) i)) now)"
  by (auto simp: rule_on_device_def rule_holds_def Let_def unwrap_or_def split: option.splits if_splits)

lemma rule_due_cong:
  "unwrap_or (held' (rule_alert_id (lr_id r) (dv_id d))) now = unwrap_or (held (rule_alert_id (lr_id r) (dv_id d))) now
    \<Longrightarrow> rule_due x now local held' r d = rule_due x now local held r d \<and> rule_since r d held' now = rule_since r d held now"
  by (simp add: rule_due_def rule_since_def)

text \<open>The rules and devices a pass goes through, as one list.\<close>

definition rule_pairs :: "alert_rule list \<Rightarrow> (alert_rule \<times> string) list" where
  "rule_pairs rules = concat (map (\<lambda>r. map (Pair r) (lr_device_ids r)) (filter lr_enabled rules))"

definition pair_step ::
  "alert_ext \<Rightarrow> active \<Rightarrow> timestamp \<Rightarrow> nanos \<Rightarrow> device list \<Rightarrow> alert_rule \<times> string \<Rightarrow> since \<times> active \<Rightarrow> since \<times> active"
where
  "pair_step x active now local devices ri ho =
     (fst (rule_on_device x now local devices (fst ri) (snd ri) (fst ho)),
      fold (add_alert active) (snd (rule_on_device x now local devices (fst ri) (snd ri) (fst ho))) (snd ho))"

lemma rule_on_devices_pairs:
  "rule_on_devices x active now local devices r is ho = fold (pair_step x active now local devices) (map (Pair r) is) ho"
  by (induction x active now local devices r "is" ho rule: rule_on_devices.induct) (auto simp: pair_step_def split: prod.split)

lemma from_rules_pairs: "from_rules x active now local devices rules ho = fold (pair_step x active now local devices) (rule_pairs rules) ho"
  unfolding from_rules_def rule_pairs_def
  by (induction rules arbitrary: ho) (simp_all add: rule_on_devices_pairs)

definition pair_key :: "alert_rule \<times> string \<Rightarrow> string" where
  "pair_key ri = rule_alert_id (lr_id (fst ri)) (snd ri)"

lemma pair_step_due:
  assumes "inj_on pair_key (insert p (set ps))" "(r, i) \<in> insert p (set ps)" "device_by_id devices i = Some d" "dv_id d = i"
    and held'_def: "held' = fst (pair_step x active now local devices p (held, out))"
  shows "rule_due x now local held' r d = rule_due x now local held r d
    \<and> (rule_holds r d \<longrightarrow> rule_since r d held' now = rule_since r d held now)"
proof -
  obtain as where step: "rule_on_device x now local devices (fst p) (snd p) held = (held', as)"
    unfolding held'_def pair_step_def by (metis fst_conv snd_conv surjective_pairing)
  show ?thesis
  proof (cases "pair_key p = pair_key (r, i)")
    case True
    then have "p = (r, i)" using assms(1,2) by (metis inj_onD insertI1)
    then show ?thesis
      using rule_on_device_memory [OF step] rule_due_cong [of held' r d now held x local] assms(3,4)
      by (cases "rule_holds r d") (auto simp: rule_due_def)
  next
    case False
    then have "held' (rule_alert_id (lr_id r) (dv_id d)) = held (rule_alert_id (lr_id r) (dv_id d))"
      using rule_on_device_memory [OF step] assms(4) by (auto simp: pair_key_def)
    then show ?thesis using rule_due_cong [of held' r d now held x local] by auto
  qed
qed

lemma pairs_dom:
  assumes "distinct (map dv_id devices)" "inj_on pair_key (set ps)"
  shows "map_of (snd (fold (pair_step x active now local devices) ps (held, out))) k \<noteq> None
    \<longleftrightarrow> map_of out k \<noteq> None \<or> (\<exists>(r, i) \<in> set ps. \<exists>d \<in> set devices. dv_id d = i \<and> rule_due x now local held r d \<and> rule_alert_id (lr_id r) i = k)"
  using assms(2)
proof (induction ps arbitrary: held out)
  case (Cons p ps)
  obtain r i where p: "p = (r, i)" by fastforce
  obtain held' out' where step: "pair_step x active now local devices p (held, out) = (held', out')" by fastforce
  have inj: "inj_on pair_key (set ps)" using Cons.prems by (rule inj_on_subset) auto
  have same: "rule_due x now local held' r' d = rule_due x now local held r' d"
    if "(r', j) \<in> set ps" "d \<in> set devices" "dv_id d = j" for r' j d
    using pair_step_due [where p = p and ps = ps and r = r' and i = j and d = d and devices = devices and x = x and active = active
        and now = now and local = local and held = held and out = out and held' = held'] Cons.prems step that
      device_by_id_iff [OF assms(1), of j d] by simp
  have ids: "k \<in> al_id ` set (snd (rule_on_device x now local devices r i held))
      \<longleftrightarrow> (\<exists>d \<in> set devices. dv_id d = i \<and> rule_due x now local held r d \<and> rule_alert_id (lr_id r) i = k)"
    unfolding image_iff Bex_def rule_on_device_alerts [OF assms(1)] by auto
  have out': "map_of out' k \<noteq> None \<longleftrightarrow> map_of out k \<noteq> None \<or> k \<in> al_id ` set (snd (rule_on_device x now local devices r i held))"
    using step added_dom [of active "snd (rule_on_device x now local devices r i held)" out k] by (simp add: pair_step_def p)
  have rest: "(\<exists>(r, i) \<in> set ps. \<exists>d \<in> set devices. dv_id d = i \<and> rule_due x now local held' r d \<and> rule_alert_id (lr_id r) i = k)
      \<longleftrightarrow> (\<exists>(r, i) \<in> set ps. \<exists>d \<in> set devices. dv_id d = i \<and> rule_due x now local held r d \<and> rule_alert_id (lr_id r) i = k)"
    using same by fastforce
  show ?case
    unfolding fold_simps step Cons.IH [OF inj] out' ids rest by (auto simp: p)
qed simp

lemma rule_alert_id_inj: "CHR '':'' \<notin> set r \<Longrightarrow> CHR '':'' \<notin> set r' \<Longrightarrow> rule_alert_id r i = rule_alert_id r' i' \<longleftrightarrow> r = r' \<and> i = i'"
  unfolding rule_alert_id_def by (auto simp: append_eq_append_conv2 Cons_eq_append_conv append_eq_Cons_conv)

lemma pairs_from:
  assumes "distinct (map dv_id devices)"
  shows "map_of (snd (fold (pair_step x active now local devices) ps (held, out))) k = Some v \<Longrightarrow>
    map_of out k = Some v \<or> (\<exists>(r, i) \<in> set ps. \<exists>d \<in> set devices. \<exists>since. dv_id d = i \<and> rule_alert_id (lr_id r) i = k
      \<and> rule_holds r d \<and> in_window x r local \<and> v = keep_raised active (rule_alert x r d since))"
proof (induction ps arbitrary: held out)
  case (Cons p ps)
  obtain r i where p: "p = (r, i)" by fastforce
  obtain held' out' where step: "pair_step x active now local devices p (held, out) = (held', out')" by fastforce
  have out': "out' = fold (add_alert active) (snd (rule_on_device x now local devices r i held)) out"
    using step by (simp add: pair_step_def p)
  have first: "\<exists>d \<in> set devices. \<exists>since. dv_id d = i \<and> rule_alert_id (lr_id r) i = k
      \<and> rule_holds r d \<and> in_window x r local \<and> v = keep_raised active (rule_alert x r d since)"
    if new: "map_of out' k = Some v" "map_of out k \<noteq> Some v"
  proof -
    obtain a where a: "a \<in> set (snd (rule_on_device x now local devices r i held))" "al_id a = k" "v = keep_raised active a"
      using added_from [OF new(1) [unfolded out']] new(2) by blast
    then obtain d where "d \<in> set devices" "dv_id d = i" "rule_due x now local held r d" "a = rule_alert x r d (rule_since r d held now)"
      unfolding rule_on_device_alerts [OF assms] by blast
    with a show ?thesis by (auto simp: rule_due_def intro!: bexI [of _ d])
  qed
  have "map_of (snd (fold (pair_step x active now local devices) ps (held', out'))) k = Some v"
    using Cons.prems step by simp
  from Cons.IH [OF this] show ?case
    by (elim disjE) (use first p in \<open>auto\<close>)
qed simp

text \<open>
  C30. A time rule raises what it says: after a pass it has an active alert for a device exactly when
  it is enabled and names the device, the device is stored with a value that matches, has had it for the
  rule's minutes (an equality since the attribute changed, another comparison since the
  engine first saw it), the time of day is in the rule's window, and nobody ignores it.
\<close>

theorem time_rule_alerts_exact:
  assumes "distinct (map dv_id devices)" "distinct (map lr_id (list_alert_rules t))"
    and "list_all (\<lambda>r. CHR '':'' \<notin> set (lr_id r)) (list_alert_rules t)" "r \<in> set (list_alert_rules t)"
  shows "map_of (ag_active (full_pass x nt devices t now local cfg s)) (rule_alert_id (lr_id r) i) \<noteq> None
    \<longleftrightarrow> lr_enabled r \<and> i \<in> set (lr_device_ids r) \<and> (\<exists>d \<in> set devices. dv_id d = i \<and> rule_holds r d
          \<and> is_none_or (lr_for_minutes r) (\<lambda>m. int m * 60 \<le> num_seconds (now - rule_since r d (me_held_since (ag_memory s)) now)))
        \<and> in_window x r local
        \<and> \<not> (\<exists>g \<in> set (list_alert_ignores t). covers_parts g KRule i (Some (lr_id r)) now \<and> ai_plugin_id g = None \<and> ai_topic g = None \<and> ai_key g = None)"
proof -
  let ?rules = "list_alert_rules t" and ?j = "rule_alert_id (lr_id r) i"
  let ?held = "me_held_since (ag_memory s)" and ?ps = "rule_pairs (list_alert_rules t)"
  let ?out = "snd (from_devices x cfg (ag_active s) now devices (me_offline_since (ag_memory s), []))"
  have key: "p \<in> set ?ps \<Longrightarrow> q \<in> set ?rules \<Longrightarrow> pair_key p = rule_alert_id (lr_id q) j \<Longrightarrow> p = (q, j)" for p q j
  proof -
    assume p: "p \<in> set ?ps" and q: "q \<in> set ?rules" and eq: "pair_key p = rule_alert_id (lr_id q) j"
    have r: "fst p \<in> set ?rules" using p by (auto simp: rule_pairs_def)
    then have "lr_id (fst p) = lr_id q \<and> snd p = j"
      using eq q assms(3) rule_alert_id_inj [of "lr_id (fst p)" "lr_id q"] by (simp add: pair_key_def list_all_iff)
    then show "p = (q, j)" using r q assms(2) by (metis distinct_map inj_onD prod.collapse)
  qed
  have inj: "inj_on pair_key (set ?ps)"
  proof (rule inj_onI)
    fix p q
    assume p: "p \<in> set ?ps" "q \<in> set ?ps" "pair_key p = pair_key q"
    have "fst q \<in> set ?rules" using p(2) by (auto simp: rule_pairs_def)
    then show "p = q" using key [OF p(1), of "fst q" "snd q"] p(3) by (simp add: pair_key_def)
  qed
  have none: "map_of ?out ?j = None"
  proof (rule ccontr)
    assume "map_of ?out ?j \<noteq> None"
    then obtain v where "map_of ?out ?j = Some v" by blast
    from from_devices_from [OF assms(1) this] obtain d a where "own_of d a" "al_id a = ?j" using device_alerts_own by fastforce
    then show False using kind_initial(1) [of "al_kind a" KRule] by (metis hd_built_in_id hd_rule_alert_id insertI1 own_of_def)
  qed
  define m where "m = map_of (snd (fold (pair_step x (ag_active s) now local devices) ?ps (?held, ?out))) ?j"
  have des: "map_of (snd (desired x devices ?rules (ag_active s) now local cfg (ag_memory s))) ?j = m"
    by (simp add: desired_def Let_def case_prod_unfold from_rules_pairs m_def)
  have "(q, j) \<in> set ?ps \<and> rule_alert_id (lr_id q) j = ?j \<longleftrightarrow> q = r \<and> j = i \<and> lr_enabled r \<and> i \<in> set (lr_device_ids r)" for q j
    using key [of "(q, j)" r i] assms(4) by (auto simp: pair_key_def rule_pairs_def)
  then have dom: "m \<noteq> None \<longleftrightarrow> lr_enabled r \<and> i \<in> set (lr_device_ids r) \<and> (\<exists>d \<in> set devices. dv_id d = i \<and> rule_due x now local ?held r d)"
    unfolding m_def pairs_dom [OF assms(1) inj] using none by (auto; metis)
  have cov: "covers g v now \<longleftrightarrow> covers_parts g KRule i (Some (lr_id r)) now \<and> ai_plugin_id g = None \<and> ai_topic g = None \<and> ai_key g = None"
    if v: "m = Some v" for g v
  proof -
    obtain q j d since where "(q, j) \<in> set ?ps" "rule_alert_id (lr_id q) j = ?j" "dv_id d = j"
        "v = keep_raised (ag_active s) (rule_alert x q d since)"
      using pairs_from [OF assms(1), of x "ag_active s" now local ?ps ?held ?out ?j v] v none by (auto simp: m_def)
    moreover from this have "q = r" "j = i" using key [of "(q, j)" r i] assms(4) by (auto simp: pair_key_def)
    ultimately show ?thesis by (auto simp: covers_def is_none_or_def split: option.splits)
  qed
  have "hd ?j \<noteq> hd (alert_kind_as_str KPlugin)" using kind_initial(1) [of KRule KPlugin] by simp
  from called_for_other [OF this] have "map_of (called_for x devices t now local cfg s) ?j =
      (case m of Some a \<Rightarrow> if list_ex (\<lambda>g. covers g a now) (list_alert_ignores t) then None else Some a | None \<Rightarrow> None)"
    by (simp only: des)
  then have "map_of (called_for x devices t now local cfg s) ?j \<noteq> None \<longleftrightarrow> m \<noteq> None
      \<and> \<not> (\<exists>g \<in> set (list_alert_ignores t). covers_parts g KRule i (Some (lr_id r)) now \<and> ai_plugin_id g = None \<and> ai_topic g = None \<and> ai_key g = None)"
    by (cases m) (simp_all add: list_ex_iff cov)
  then show ?thesis unfolding full_pass_simps dom by (auto simp: rule_due_def)
qed

definition garage :: device where
  "garage = (device_new 0 ''garage'' ''Garage'' ''plugin.zwave'')\<lparr>dv_available := True, dv_attributes := [(''open'', JBool True)],
     dv_attributes_changed_at := [(''open'', 0)]\<rparr>"

definition garage_rule :: alert_rule where
  "garage_rule =
     \<lparr>lr_id = ''g1'', lr_name = ''Garage'', lr_enabled = True, lr_device_ids = [''garage''], lr_attribute = ''open'', lr_value = JBool True,
      lr_op = AlEq, lr_state_label = Some ''Open'', lr_after = None, lr_until = None, lr_for_minutes = Some 10, lr_severity = Warning,
      lr_notify = None\<rparr>"

theorem time_rule_alerts_exact_witness:
  "map_of (ag_active (full_pass sample_alert_ext \<lparr>nt_service = False, nt_channel = None\<rparr> [garage] (upsert_alert_rule garage_rule no_tables)
      (601 * 1000000000) 0 battery_config_default alert_engine_new)) (rule_alert_id ''g1'' ''garage'') \<noteq> None"
proof -
  let ?t = "upsert_alert_rule garage_rule no_tables"
  have rules: "list_alert_rules ?t = [garage_rule]" by (simp add: list_alert_rules_def upsert_alert_rule_def no_tables_def garage_rule_def)
  have ignores: "list_alert_ignores ?t = []" by (simp add: list_alert_ignores_def upsert_alert_rule_def no_tables_def)
  have dist: "distinct (map dv_id [garage])" by simp
  note exact = time_rule_alerts_exact [where devices = "[garage]" and t = ?t and r = garage_rule and i = "''garage''" and now = "601 * 1000000000"
      and local = 0 and cfg = battery_config_default and s = alert_engine_new and x = sample_alert_ext
      and nt = "\<lparr>nt_service = False, nt_channel = None\<rparr>", OF dist, unfolded rules ignores]
  have "rule_holds garage_rule garage"
    by (simp add: rule_holds_def garage_rule_def garage_def device_new_def alert_rule_matches_def same_value_def Let_def as_f64_def)
  moreover have "rule_since garage_rule garage h now = 0" for h now
    by (simp add: rule_since_def garage_rule_def garage_def device_new_def changed_since_def unwrap_or_def)
  ultimately show ?thesis
    using exact by (simp add: garage_rule_def garage_def device_new_def num_seconds_def in_window_def)
qed

text \<open>
  The memory of when a comparison began outlives the rule's being off: a pass that has no enabled rule
  of that identifier leaves it, whatever the device does meanwhile, so a rule that is turned on
  again counts from before.
\<close>

lemma off_rule_remembers:
  assumes "list_all (\<lambda>r. CHR '':'' \<notin> set (lr_id r)) (list_alert_rules t)" "CHR '':'' \<notin> set rid"
    and "\<forall>r \<in> set (list_alert_rules t). lr_id r = rid \<longrightarrow> \<not> lr_enabled r"
  shows "me_held_since (ag_memory (full_pass x nt devices t now local cfg s)) (rule_alert_id rid i) = me_held_since (ag_memory s) (rule_alert_id rid i)"
proof -
  let ?k = "rule_alert_id rid i"
  have "fst (fold (pair_step x act now local devices) ps ho) ?k = fst ho ?k" if "\<forall>p \<in> set ps. pair_key p \<noteq> ?k" for ps act ho
    using that
  proof (induction ps arbitrary: ho)
    case (Cons p ps)
    obtain held' as where "rule_on_device x now local devices (fst p) (snd p) (fst ho) = (held', as)" by fastforce
    from rule_on_device_memory [OF this] have "fst (pair_step x act now local devices p ho) ?k = fst ho ?k"
      using Cons.prems \<open>rule_on_device x now local devices (fst p) (snd p) (fst ho) = (held', as)\<close>
      by (auto simp: pair_step_def pair_key_def)
    then show ?case using Cons by simp
  qed simp
  moreover have "\<forall>p \<in> set (rule_pairs (list_alert_rules t)). pair_key p \<noteq> ?k"
    using assms by (auto simp: rule_pairs_def pair_key_def list_all_iff rule_alert_id_inj)
  moreover have "ag_memory (full_pass x nt devices t now local cfg s) =
      fst (desired x devices (list_alert_rules t) (ag_active s) now local cfg (ag_memory s))"
    by (simp add: full_pass_def announce_alerts_def settle_acks_def look_round_simps Let_def)
  ultimately show ?thesis by (simp add: desired_def Let_def case_prod_unfold from_rules_pairs)
qed

end
