(* ===== verification/Alert_Links.thy ===== *)
theory Alert_Links
  imports Alert_Theorems
begin

text \<open>
  Which automations an alert starts (\<open>hc-core/src/alert_links.rs\<close>): the sources a trigger's filter can
  match, whether it waits because none of them can raise an alert now, and what becomes of an
  automation whose time rule is deleted. The theorems tie this to the alert engine: an automation
  that is shown as waiting is not started by what a pass leaves active.
\<close>

subsection \<open>Sources and links\<close>

definition OWN_KINDS :: "(alert_kind \<times> alert_severity) list" where
  "OWN_KINDS = [(Wet, Critical), (Smoke, Critical), (Offline, Warning), (Jammed, Critical), (LowBattery, Warning)]"

record sources =
  so_rules :: "alert_rule list"
  so_kinds :: "(string \<times> plugin_alert_kind list) list"
  so_topics :: "topic_setting list"
  so_ignores :: "alert_ignore list"
  so_devices :: "device list"
  so_now :: timestamp

datatype waiting = WaitOff | WaitIgnored | WaitDeleted

record alert_link =
  lk_index :: nat
  lk_when :: string
  lk_minutes :: "nat option"
  lk_filter :: alert_filter
  lk_sources :: "string list"
  lk_waiting :: "waiting option"

record automation_alerts =
  aa_rule_id :: uuid
  aa_name :: string
  aa_enabled :: bool
  aa_links :: "alert_link list"
  aa_other_triggers :: nat
  aa_waiting :: bool
  aa_alert_deleted :: bool

definition DELETED_RULE :: string where
  "DELETED_RULE = ''DELETED:''"

definition ALERT_DELETED :: string where
  "ALERT_DELETED = ''its alert was deleted '' @ [CHR 0xE2, CHR 0x80, CHR 0x94] @ '' choose another trigger or delete it''"

definition rule_deleted :: "alert_filter \<Rightarrow> bool" where
  "rule_deleted f = (case af_rule_id f of Some r \<Rightarrow> starts_with DELETED_RULE r | None \<Rightarrow> False)"

definition alert_trigger :: "trigger \<Rightarrow> (string \<times> nat option \<times> alert_filter) option" where
  "alert_trigger t =
     (case t of
        TrAlertRaised f \<Rightarrow> Some (''raised'', None, f)
      | TrAlertCleared f \<Rightarrow> Some (''cleared'', None, f)
      | TrAlertAcknowledged f \<Rightarrow> Some (''acknowledged'', None, f)
      | TrAlertActiveFor f minutes \<Rightarrow> Some (''active_for'', Some minutes, f)
      | _ \<Rightarrow> None)"

definition alert_filter_mut :: "(alert_filter \<Rightarrow> alert_filter) \<Rightarrow> trigger \<Rightarrow> trigger" where
  "alert_filter_mut g t =
     (case t of
        TrAlertRaised f \<Rightarrow> TrAlertRaised (g f)
      | TrAlertCleared f \<Rightarrow> TrAlertCleared (g f)
      | TrAlertAcknowledged f \<Rightarrow> TrAlertAcknowledged (g f)
      | TrAlertActiveFor f minutes \<Rightarrow> TrAlertActiveFor (g f) minutes
      | _ \<Rightarrow> t)"

datatype alert_source = SourceRule alert_rule | SourceOwn alert_kind alert_severity | SourcePlugin string plugin_alert_kind

definition source_key :: "alert_source \<Rightarrow> string" where
  "source_key s =
     (case s of
        SourceRule r \<Rightarrow> ''rule:'' @ lr_id r
      | SourceOwn k _ \<Rightarrow> ''kind:'' @ alert_kind_as_str k
      | SourcePlugin p k \<Rightarrow> ''plugin:'' @ p @ ''/'' @ pak_topic k)"

definition all_sources :: "sources \<Rightarrow> alert_source list" where
  "all_sources so =
     map SourceRule (so_rules so) @ map (\<lambda>(k, s). SourceOwn k s) OWN_KINDS
     @ concat (map (\<lambda>(p, kinds). map (SourcePlugin p) kinds) (so_kinds so))"

definition plugin_of :: "sources \<Rightarrow> string \<Rightarrow> string option" where
  "plugin_of so device_id = map_option dv_plugin_id (find (\<lambda>d. dv_id d = device_id) (so_devices so))"

definition of_plugin :: "sources \<Rightarrow> string list \<Rightarrow> string \<Rightarrow> bool" where
  "of_plugin so ids plugin = list_ex (\<lambda>d. d = plugin \<or> plugin_of so d = Some plugin) ids"

definition could_match :: "sources \<Rightarrow> alert_filter \<Rightarrow> alert_source \<Rightarrow> bool" where
  "could_match so f source =
     (let severe_enough = (\<lambda>s. is_none_or (af_min_severity f) (\<lambda>m. severity_rank m \<le> severity_rank s)) in
      case source of
        SourceRule r \<Rightarrow>
          let devices = (if af_device_ids f = [] then lr_device_ids r
                         else filter (\<lambda>d. d \<in> set (af_device_ids f)) (lr_device_ids r)) in
          is_none_or (af_kind f) (\<lambda>k. k = KRule) \<and> af_topic f = None \<and> af_key f = None
          \<and> is_none_or (af_rule_id f) (\<lambda>i. i = lr_id r) \<and> devices \<noteq> []
          \<and> is_none_or (af_plugin_id f) (of_plugin so devices) \<and> severe_enough (lr_severity r)
      | SourceOwn kind severity \<Rightarrow>
          is_none_or (af_kind f) (\<lambda>k. k = kind) \<and> af_topic f = None \<and> af_key f = None \<and> af_rule_id f = None
          \<and> (af_device_ids f = [] \<or> is_none_or (af_plugin_id f) (of_plugin so (af_device_ids f))) \<and> severe_enough severity
      | SourcePlugin plugin k \<Rightarrow>
          is_none_or (af_kind f) (\<lambda>k. k = KPlugin) \<and> is_none_or (af_plugin_id f) (\<lambda>p. p = plugin)
          \<and> is_none_or (af_topic f) (\<lambda>t. t = pak_topic k) \<and> af_rule_id f = None
          \<and> (af_device_ids f = [] \<or> of_plugin so (af_device_ids f) plugin)
          \<and> severe_enough (plugin_severity (pak_severity k)))"

record pinned =
  pi_kind :: alert_kind
  pi_rule_id :: "string option"
  pi_plugin_id :: "string option"
  pi_topic :: "string option"
  pi_key :: "string option"
  pi_devices :: "string list"

definition pinned_fits :: "timestamp \<Rightarrow> pinned \<Rightarrow> alert_ignore \<Rightarrow> bool" where
  "pinned_fits now p i \<longleftrightarrow>
     ignore_active i now \<and> is_none_or (ai_kind i) (\<lambda>k. k = pi_kind p) \<and> is_none_or (ai_rule_id i) (\<lambda>r. pi_rule_id p = Some r)
     \<and> is_none_or (ai_plugin_id i) (\<lambda>x. pi_plugin_id p = Some x) \<and> is_none_or (ai_topic i) (\<lambda>x. pi_topic p = Some x)
     \<and> is_none_or (ai_key i) (\<lambda>x. pi_key p = Some x)"

definition ignored :: "sources \<Rightarrow> pinned \<Rightarrow> bool" where
  "ignored so p =
     (if pi_devices p = [] then list_ex (\<lambda>i. pinned_fits (so_now so) p i \<and> ai_device_id i = None) (so_ignores so)
      else list_all (\<lambda>d. list_ex (\<lambda>i. pinned_fits (so_now so) p i \<and> is_none_or (ai_device_id i) (\<lambda>x. x = d)) (so_ignores so))
             (pi_devices p))"

definition waiting_on :: "sources \<Rightarrow> alert_filter \<Rightarrow> alert_source \<Rightarrow> waiting option" where
  "waiting_on so f source =
     (let if_ignored = (\<lambda>p. if ignored so p then Some WaitIgnored else None) in
      case source of
        SourceRule r \<Rightarrow>
          if \<not> lr_enabled r then Some WaitOff
          else if_ignored \<lparr>pi_kind = KRule, pi_rule_id = Some (lr_id r), pi_plugin_id = None, pi_topic = None, pi_key = None,
                 pi_devices = (if af_device_ids f = [] then lr_device_ids r else af_device_ids f)\<rparr>
      | SourceOwn kind _ \<Rightarrow>
          if_ignored \<lparr>pi_kind = kind, pi_rule_id = None, pi_plugin_id = None, pi_topic = None, pi_key = None,
            pi_devices = (case af_plugin_id f of
                Some p \<Rightarrow> if af_device_ids f = [] then map dv_id (filter (\<lambda>d. dv_plugin_id d = p) (so_devices so)) else af_device_ids f
              | None \<Rightarrow> af_device_ids f)\<rparr>
      | SourcePlugin plugin k \<Rightarrow>
          if \<not> unwrap_or (Option.bind (topic_setting_for (so_topics so) plugin (pak_topic k)) ts_enabled) (pak_default_on k)
          then Some WaitOff
          else if_ignored \<lparr>pi_kind = KPlugin, pi_rule_id = None, pi_plugin_id = Some plugin, pi_topic = Some (pak_topic k),
                 pi_key = af_key f, pi_devices = af_device_ids f\<rparr>)"

definition link :: "sources \<Rightarrow> nat \<Rightarrow> trigger \<Rightarrow> alert_link option" where
  "link so index t =
     (case alert_trigger t of
        None \<Rightarrow> None
      | Some (when', minutes, f) \<Rightarrow>
          let matched = filter (could_match so f) (all_sources so);
              each = map (waiting_on so f) matched in
          Some \<lparr>lk_index = index, lk_when = when', lk_minutes = minutes, lk_filter = f, lk_sources = map source_key matched,
            lk_waiting = (if matched = [] then (if af_rule_id f = None then None else Some WaitDeleted)
                          else if list_all (\<lambda>w. w \<noteq> None) each then hd each else None)\<rparr>)"

definition automation_alerts_of :: "sources \<Rightarrow> rule \<Rightarrow> automation_alerts option" where
  "automation_alerts_of so r =
     (let links = List.map_filter (\<lambda>(i, t). link so i t) (List.enumerate 0 (all_triggers r)) in
      if links = [] then None
      else
        let other = length (all_triggers r) - length links in
        Some \<lparr>aa_rule_id = ru_id r, aa_name = ru_name r, aa_enabled = ru_enabled r, aa_links = links, aa_other_triggers = other,
          aa_waiting = (ru_enabled r \<and> ru_error r = None \<and> other = 0 \<and> list_all (\<lambda>l. lk_waiting l \<noteq> None) links),
          aa_alert_deleted = list_ex (\<lambda>l. rule_deleted (lk_filter l)) links\<rparr>)"

definition automations :: "sources \<Rightarrow> rule list \<Rightarrow> automation_alerts list" where
  "automations so rules = List.map_filter (automation_alerts_of so) rules"

subsection \<open>A time rule is deleted\<close>

definition names_rule :: "string \<Rightarrow> trigger \<Rightarrow> bool" where
  "names_rule alert_rule_id t = (case alert_trigger t of Some (_, _, f) \<Rightarrow> af_rule_id f = Some alert_rule_id | None \<Rightarrow> False)"

definition starts_from_rule :: "rule \<Rightarrow> string \<Rightarrow> bool" where
  "starts_from_rule r i = list_ex (names_rule i) (all_triggers r)"

definition keeps_running_without :: "rule \<Rightarrow> string \<Rightarrow> bool" where
  "keeps_running_without r i = list_ex (\<lambda>t. \<not> names_rule i t) (all_triggers r)"

datatype detached = Untouched | LostTriggers | TurnedOff | DetachDelete

definition mark_deleted :: "string \<Rightarrow> alert_filter \<Rightarrow> alert_filter" where
  "mark_deleted i f = (if af_rule_id f = Some i then f\<lparr>af_rule_id := Some (DELETED_RULE @ i)\<rparr> else f)"

definition detach :: "rule \<Rightarrow> string \<Rightarrow> bool \<Rightarrow> detached \<times> rule" where
  "detach r i keep =
     (if \<not> starts_from_rule r i then (Untouched, r)
      else if keeps_running_without r i then
        let rest = filter (\<lambda>t. \<not> names_rule i t) (all_triggers r) in
        (LostTriggers, r\<lparr>ru_trigger := hd rest, ru_triggers := tl rest\<rparr>)
      else if \<not> keep then (DetachDelete, r)
      else (TurnedOff, r\<lparr>ru_trigger := alert_filter_mut (mark_deleted i) (ru_trigger r),
              ru_triggers := map (alert_filter_mut (mark_deleted i)) (ru_triggers r),
              ru_enabled := False, ru_error := Some ALERT_DELETED\<rparr>))"

definition deleted_trigger :: "rule \<Rightarrow> string option" where
  "deleted_trigger r =
     (if list_ex (\<lambda>t. case alert_trigger t of Some (_, _, f) \<Rightarrow> rule_deleted f | None \<Rightarrow> False) (all_triggers r)
      then Some ALERT_DELETED else None)"

text \<open>What the API does to the automations when a time rule is deleted; without a choice, and with some, nothing.\<close>

definition detach_all :: "rule list \<Rightarrow> string \<Rightarrow> bool \<Rightarrow> rule list" where
  "detach_all rules i keep =
     concat (map (\<lambda>r. case detach r i keep of (DetachDelete, _) \<Rightarrow> [] | (_, r') \<Rightarrow> [r']) rules)"

lemma alert_trigger_mut: "alert_trigger (alert_filter_mut g t) = map_option (\<lambda>(w, m, f). (w, m, g f)) (alert_trigger t)"
  by (cases t) (simp_all add: alert_trigger_def alert_filter_mut_def)

lemma names_rule_mark: "\<not> names_rule i (alert_filter_mut (mark_deleted i) t)"
  by (auto simp: names_rule_def alert_trigger_mut mark_deleted_def DELETED_RULE_def split: option.split)

lemma marked_is_deleted:
  "names_rule i t \<Longrightarrow> case alert_trigger (alert_filter_mut (mark_deleted i) t) of Some (_, _, f) \<Rightarrow> rule_deleted f | None \<Rightarrow> False"
  by (auto simp: names_rule_def alert_trigger_mut mark_deleted_def rule_deleted_def starts_with_def split: option.splits)

text \<open>
  C32. Deleting a time rule leaves no automation that names it: one that never did is as it was; one with
  other triggers keeps just these, in their order, and everything else; one that only the rule
  started is deleted or, if it is to be kept, turned off and refused until it gets another trigger.
\<close>

theorem detach_leaves_no_trigger:
  "case detach r i keep of (outcome, r') \<Rightarrow>
     (case outcome of
        Untouched \<Rightarrow> r' = r \<and> \<not> starts_from_rule r' i
      | LostTriggers \<Rightarrow> \<not> starts_from_rule r' i \<and> all_triggers r' = filter (\<lambda>t. \<not> names_rule i t) (all_triggers r)
          \<and> r' = r\<lparr>ru_trigger := ru_trigger r', ru_triggers := ru_triggers r'\<rparr>
      | TurnedOff \<Rightarrow> keep \<and> \<not> starts_from_rule r' i \<and> list_all (names_rule i) (all_triggers r) \<and> \<not> ru_enabled r'
          \<and> deleted_trigger r' = Some ALERT_DELETED \<and> ru_actions r' = ru_actions r
      | DetachDelete \<Rightarrow> \<not> keep \<and> list_all (names_rule i) (all_triggers r))"
proof -
  let ?rest = "filter (\<lambda>t. \<not> names_rule i t) (all_triggers r)"
  have rest: "keeps_running_without r i \<Longrightarrow> ?rest \<noteq> []"
    by (auto simp: keeps_running_without_def list_ex_iff filter_empty_conv)
  then have split: "keeps_running_without r i \<Longrightarrow> hd ?rest # tl ?rest = ?rest" by simp
  have none: "\<not> list_ex (names_rule i) ?rest" by (simp add: list_ex_iff)
  show ?thesis
  proof (cases "starts_from_rule r i")
    case False
    then show ?thesis by (simp add: detach_def)
  next
    case True
    show ?thesis
    proof (cases "keeps_running_without r i")
      case keeps: True
      have "all_triggers (r\<lparr>ru_trigger := hd ?rest, ru_triggers := tl ?rest\<rparr>) = ?rest"
        using split [OF keeps] by (simp add: all_triggers_def)
      then show ?thesis
        using True keeps none by (simp add: detach_def Let_def starts_from_rule_def)
    next
      case False
      then have all: "list_all (names_rule i) (all_triggers r)"
        by (auto simp: keeps_running_without_def list_ex_iff list_all_iff)
      then have "names_rule i (ru_trigger r)" by (simp add: all_triggers_def)
      then show ?thesis
        using True False all marked_is_deleted [of i "ru_trigger r"] names_rule_mark
        by (simp add: detach_def starts_from_rule_def deleted_trigger_def all_triggers_def list_ex_iff)
    qed
  qed
qed

subsection \<open>Waiting automations are not started\<close>

lemma own_severity: "a \<in> set (device_alerts x cfg active now off d) \<Longrightarrow> (al_kind a, al_severity a) \<in> set OWN_KINDS"
proof -
  have "b \<in> set (wet_part x now d) \<Longrightarrow> (al_kind b, al_severity b) = (Wet, Critical)"
    "b \<in> set (smoke_part x now d) \<Longrightarrow> (al_kind b, al_severity b) = (Smoke, Critical)"
    "b \<in> set (snd (offline_part x now d off)) \<Longrightarrow> (al_kind b, al_severity b) = (Offline, Warning)"
    "b \<in> set (jammed_part x now d) \<Longrightarrow> (al_kind b, al_severity b) = (Jammed, Critical)"
    "b \<in> set (battery_part x cfg active now d) \<Longrightarrow> (al_kind b, al_severity b) = (LowBattery, Warning)" for b
    by (auto simp: wet_part_def smoke_part_def offline_part_def jammed_part_def battery_part_def Let_def split: if_splits option.splits)
  moreover assume "a \<in> set (device_alerts x cfg active now off d)"
  ultimately show ?thesis unfolding device_alerts_def set_append OWN_KINDS_def by (elim UnE) simp_all
qed

text \<open>Where an alert that a pass calls for comes from.\<close>

definition from_source :: "alert_ext \<Rightarrow> device list \<Rightarrow> alert_tables \<Rightarrow> timestamp \<Rightarrow> plugin_alerts \<Rightarrow> alert \<Rightarrow> bool" where
  "from_source x devices t now p a \<longleftrightarrow>
     (\<exists>d \<in> set devices. own_of d a \<and> (al_kind a, al_severity a) \<in> set OWN_KINDS)
     \<or> (\<exists>r \<in> set (list_alert_rules t). \<exists>d \<in> set devices. lr_enabled r \<and> dv_id d \<in> set (lr_device_ids r) \<and> al_kind a = KRule
          \<and> al_device_id a = dv_id d \<and> al_rule_id a = Some (lr_id r) \<and> al_plugin_id a = None \<and> al_topic a = None \<and> al_key a = None
          \<and> al_severity a = lr_severity r \<and> al_device_plugin_id a = Some (dv_plugin_id d))
     \<or> (\<exists>(i, rep) \<in> set (pl_reported p). \<exists>pa \<in> set (rp_alerts rep). \<exists>name active.
          speaks_for x devices (rp_plugin_id rep) i = Some name \<and> topic_on p (list_topic_settings t) (rp_plugin_id rep) (pa_topic pa)
          \<and> a = alert_of_plugin p active now (rp_plugin_id rep) i pa name x)"

lemma from_plugins_from:
  "(i, a) \<in> set (from_plugins x devices p topics active now) \<Longrightarrow>
     \<exists>rep \<in> set (pl_reported p). a \<in> set (reported_alerts x devices p topics active now rep)"
proof -
  assume "(i, a) \<in> set (from_plugins x devices p topics active now)"
  moreover have "set (fold (\<lambda>a. put (al_id a) a) as t) \<subseteq> set t \<union> (\<lambda>a. (al_id a, a)) ` set as" for as and t :: active
  proof (induction as arbitrary: t)
    case (Cons a as)
    have "set (put k v t) \<subseteq> insert (k, v) (set t)" for k :: string and v and t :: active
      by (induction k v t rule: put.induct) auto
    then show ?case using Cons.IH [of "put (al_id a) a t"] by fastforce
  qed simp
  ultimately show ?thesis unfolding from_plugins_def by fastforce
qed

lemma called_for_from_source:
  assumes "distinct (map dv_id devices)" "map_of (called_for x devices t now local cfg s) j = Some a"
  shows "from_source x devices t now (ag_plugins s) a \<and> \<not> (\<exists>g \<in> set (list_alert_ignores t). covers g a now)"
proof
  let ?p = "from_plugins x devices (ag_plugins s) (list_topic_settings t) (ag_active s) now"
  let ?d = "snd (desired x devices (list_alert_rules t) (ag_active s) now local cfg (ag_memory s))"
  have mem: "(j, a) \<in> set (filter (\<lambda>(_, a). \<not> list_ex (\<lambda>g. covers g a now) (list_alert_ignores t)) (fold (\<lambda>(i, a). put i a) ?p ?d))"
    using assms(2) unfolding called_for_def unignored_def by (rule map_of_SomeD)
  then show "\<not> (\<exists>g \<in> set (list_alert_ignores t). covers g a now)" by (auto simp: list_ex_iff)
  have "alerts_ok (fold (\<lambda>(i, a). put i a) ?p ?d)"
    by (intro alerts_ok_puts desired_ok) (use from_plugins_ok in \<open>auto simp: alerts_ok_def\<close>)
  then have "map_of (fold (\<lambda>(i, a). put i a) ?p ?d) j = Some a" using mem by (simp add: alerts_ok_lookup)
  from puts_from [OF this] consider (plugin) "(j, a) \<in> set ?p" | (state) "map_of ?d j = Some a" by blast
  then show "from_source x devices t now (ag_plugins s) a"
  proof cases
    case plugin
    obtain i rep where rep: "(i, rep) \<in> set (pl_reported (ag_plugins s))"
        "a \<in> set (reported_alerts x devices (ag_plugins s) (list_topic_settings t) (ag_active s) now (i, rep))"
      using from_plugins_from [OF plugin] by fast
    then obtain name pa where "speaks_for x devices (rp_plugin_id rep) i = Some name" "pa \<in> set (rp_alerts rep)"
        "topic_on (ag_plugins s) (list_topic_settings t) (rp_plugin_id rep) (pa_topic pa)"
        "a = alert_of_plugin (ag_plugins s) (ag_active s) now (rp_plugin_id rep) i pa name x"
      by (cases "speaks_for x devices (rp_plugin_id rep) i") (auto simp: reported_alerts_def)
    then show ?thesis
      unfolding from_source_def by (intro disjI2 bexI [OF _ rep(1)]) auto
  next
    case state
    let ?out = "snd (from_devices x cfg (ag_active s) now devices (me_offline_since (ag_memory s), []))"
    have "map_of (snd (fold (pair_step x (ag_active s) now local devices) (rule_pairs (list_alert_rules t))
        (me_held_since (ag_memory s), ?out))) j = Some a"
      using state by (simp add: desired_def Let_def case_prod_unfold from_rules_pairs)
    from pairs_from [OF assms(1) this] show ?thesis
    proof
      assume "map_of ?out j = Some a"
      from from_devices_from [OF assms(1) this] show ?thesis
        using device_alerts_own own_severity unfolding from_source_def by (fastforce simp: own_of_def)
    next
      assume "\<exists>(r, i) \<in> set (rule_pairs (list_alert_rules t)). \<exists>d \<in> set devices. \<exists>since. dv_id d = i \<and> rule_alert_id (lr_id r) i = j
          \<and> rule_holds r d \<and> in_window x r local \<and> a = keep_raised (ag_active s) (rule_alert x r d since)"
      then show ?thesis unfolding from_source_def by (fastforce simp: rule_pairs_def)
    qed
  qed
qed

definition sources_of :: "device list \<Rightarrow> alert_tables \<Rightarrow> timestamp \<Rightarrow> plugin_alerts \<Rightarrow> sources" where
  "sources_of devices t now p =
     \<lparr>so_rules = list_alert_rules t, so_kinds = pl_kinds p, so_topics = list_topic_settings t,
      so_ignores = list_alert_ignores t, so_devices = devices, so_now = now\<rparr>"

text \<open>A source that speaks for the alert: it could match what the alert matches, and is not held back.\<close>

definition awake :: "sources \<Rightarrow> alert_filter \<Rightarrow> alert_source \<Rightarrow> bool" where
  "awake so f source \<longleftrightarrow> source \<in> set (all_sources so) \<and> could_match so f source \<and> waiting_on so f source = None"

lemma plugin_of_device: "distinct (map dv_id (so_devices so)) \<Longrightarrow> d \<in> set (so_devices so) \<Longrightarrow> plugin_of so (dv_id d) = Some (dv_plugin_id d)"
proof -
  assume d: "distinct (map dv_id (so_devices so))" "d \<in> set (so_devices so)"
  then have "find (\<lambda>e. dv_id e = dv_id d) (so_devices so) \<noteq> None" by (auto simp: find_None_iff)
  then obtain e where e: "find (\<lambda>e. dv_id e = dv_id d) (so_devices so) = Some e" by blast
  then have "e \<in> set (so_devices so)" "dv_id e = dv_id d" by (auto simp: find_Some_iff)
  with d have "e = d" by (metis distinct_map inj_onD)
  with e show ?thesis by (simp add: plugin_of_def)
qed

text \<open>What is ignored as described covers every alert of the description.\<close>

lemma ignored_covers:
  assumes "ignored so p" "al_kind a = pi_kind p" "al_rule_id a = pi_rule_id p" "al_plugin_id a = pi_plugin_id p"
    and "al_topic a = pi_topic p" "pi_key p = None \<or> al_key a = pi_key p" "pi_devices p = [] \<or> al_device_id a \<in> set (pi_devices p)"
  shows "\<exists>g \<in> set (so_ignores so). covers g a (so_now so)"
proof -
  have "pinned_fits (so_now so) p g \<Longrightarrow> is_none_or (ai_device_id g) (\<lambda>x. x = al_device_id a) \<Longrightarrow> covers g a (so_now so)" for g
    using assms(2-6) by (auto simp: pinned_fits_def covers_def covers_parts_def is_none_or_def split: option.splits)
  moreover have "\<exists>g \<in> set (so_ignores so). pinned_fits (so_now so) p g \<and> is_none_or (ai_device_id g) (\<lambda>x. x = al_device_id a)"
    using assms(1,7) by (fastforce simp: ignored_def list_ex_iff list_all_iff split: if_splits)
  ultimately show ?thesis by blast
qed

lemma own_awake:
  assumes "distinct (map dv_id (so_devices so))" "d \<in> set (so_devices so)" "own_of d a" "(al_kind a, al_severity a) \<in> set OWN_KINDS"
    and "filter_matches f a" "\<not> (\<exists>g \<in> set (so_ignores so). covers g a (so_now so))"
  shows "awake so f (SourceOwn (al_kind a) (al_severity a))"
proof -
  have f: "is_none_or (af_kind f) (\<lambda>k. k = al_kind a)" "af_topic f = None" "af_key f = None" "af_rule_id f = None"
    "is_none_or (af_plugin_id f) (\<lambda>p. p = dv_plugin_id d)" "af_device_ids f = [] \<or> dv_id d \<in> set (af_device_ids f)"
    "is_none_or (af_min_severity f) (\<lambda>m. severity_rank m \<le> severity_rank (al_severity a))"
    using assms(3,5) by (auto simp: filter_matches_def own_of_def Let_def is_none_or_def split: option.splits)
  have "is_none_or (af_plugin_id f) (of_plugin so (af_device_ids f)) \<or> af_device_ids f = []"
    using f(5,6) plugin_of_device [OF assms(1,2)] by (auto simp: of_plugin_def list_ex_iff is_none_or_def split: option.split)
  moreover have "SourceOwn (al_kind a) (al_severity a) \<in> set (all_sources so)" using assms(4) by (force simp: all_sources_def)
  moreover have "waiting_on so f (SourceOwn (al_kind a) (al_severity a)) = None"
  proof (rule ccontr)
    let ?p = "\<lparr>pi_kind = al_kind a, pi_rule_id = None, pi_plugin_id = None, pi_topic = None, pi_key = None,
            pi_devices = (case af_plugin_id f of
                Some p \<Rightarrow> if af_device_ids f = [] then map dv_id (filter (\<lambda>d. dv_plugin_id d = p) (so_devices so)) else af_device_ids f
              | None \<Rightarrow> af_device_ids f)\<rparr>"
    assume "waiting_on so f (SourceOwn (al_kind a) (al_severity a)) \<noteq> None"
    then have "ignored so ?p" by (simp add: waiting_on_def split: if_splits)
    then have "\<exists>g \<in> set (so_ignores so). covers g a (so_now so)"
      by (rule ignored_covers) (use assms(2,3) f(5,6) in \<open>auto simp: own_of_def is_none_or_def split: option.splits\<close>)
    with assms(6) show False by blast
  qed
  ultimately show ?thesis using f by (auto simp: awake_def could_match_def Let_def)
qed

lemma rule_awake:
  assumes "distinct (map dv_id (so_devices so))" "d \<in> set (so_devices so)" "r \<in> set (so_rules so)" "lr_enabled r" "dv_id d \<in> set (lr_device_ids r)"
    and "al_kind a = KRule" "al_device_id a = dv_id d" "al_rule_id a = Some (lr_id r)" "al_plugin_id a = None" "al_topic a = None" "al_key a = None"
      "al_severity a = lr_severity r" "al_device_plugin_id a = Some (dv_plugin_id d)"
    and "filter_matches f a" "\<not> (\<exists>g \<in> set (so_ignores so). covers g a (so_now so))"
  shows "awake so f (SourceRule r)"
proof -
  have f: "is_none_or (af_kind f) (\<lambda>k. k = KRule)" "af_topic f = None" "af_key f = None" "is_none_or (af_rule_id f) (\<lambda>i. i = lr_id r)"
    "is_none_or (af_plugin_id f) (\<lambda>p. p = dv_plugin_id d)" "af_device_ids f = [] \<or> dv_id d \<in> set (af_device_ids f)"
    "is_none_or (af_min_severity f) (\<lambda>m. severity_rank m \<le> severity_rank (lr_severity r))"
    using assms(6-14) by (auto simp: filter_matches_def Let_def is_none_or_def split: option.splits)
  define devices where "devices = (if af_device_ids f = [] then lr_device_ids r else filter (\<lambda>d. d \<in> set (af_device_ids f)) (lr_device_ids r))"
  have d: "dv_id d \<in> set devices" using assms(5) f(6) by (auto simp: devices_def)
  then have "is_none_or (af_plugin_id f) (of_plugin so devices)"
    using f(5) plugin_of_device [OF assms(1,2)] unfolding of_plugin_def list_ex_iff is_none_or_def by (cases "af_plugin_id f") auto
  moreover have "devices \<noteq> []" using d by (metis empty_iff list.set(1))
  moreover have "waiting_on so f (SourceRule r) = None"
  proof (rule ccontr)
    let ?p = "\<lparr>pi_kind = KRule, pi_rule_id = Some (lr_id r), pi_plugin_id = None, pi_topic = None, pi_key = None,
                 pi_devices = (if af_device_ids f = [] then lr_device_ids r else af_device_ids f)\<rparr>"
    assume "waiting_on so f (SourceRule r) \<noteq> None"
    then have "ignored so ?p" using assms(4) by (simp add: waiting_on_def split: if_splits)
    then have "\<exists>g \<in> set (so_ignores so). covers g a (so_now so)"
      by (rule ignored_covers) (use assms(5-11) f(6) in auto)
    with assms(15) show False by blast
  qed
  ultimately show ?thesis
    unfolding awake_def could_match_def Let_def alert_source.case devices_def [symmetric] using f assms(3) by (simp add: all_sources_def)
qed

lemma speaks_for_plugin:
  assumes "distinct (map dv_id (so_devices so))" "speaks_for x (so_devices so) pid i = Some name" "i \<in> set ids"
  shows "of_plugin so ids pid"
proof (cases "device_by_id (so_devices so) i")
  case None
  then show ?thesis using assms(2,3) by (auto simp: speaks_for_def of_plugin_def list_ex_iff split: if_splits)
next
  case (Some d)
  have "d \<in> set (so_devices so)" "dv_id d = i" using Some unfolding device_by_id_iff [OF assms(1)] by simp_all
  moreover have "dv_plugin_id d = pid" using assms(2) Some by (simp add: speaks_for_def split: if_splits)
  ultimately show ?thesis using plugin_of_device [OF assms(1)] assms(3) by (auto simp: of_plugin_def list_ex_iff)
qed

lemma plugin_rank: "severity_rank s \<le> severity_rank s' \<Longrightarrow> severity_rank (plugin_severity s) \<le> severity_rank (plugin_severity s')"
  by (cases s; cases s'; simp add: plugin_severity_def severity_rank_def)

lemma plugin_awake:
  assumes so: "so = sources_of devices t now p" and "distinct (map dv_id devices)"
    and a: "a = alert_of_plugin p active now pid i pa name x" "speaks_for x devices pid i = Some name"
      "topic_on p (list_topic_settings t) pid (pa_topic pa)"
    and k: "declared_kind p pid (pa_topic pa) = Some k" "is_none_or (pa_severity pa) (\<lambda>s. severity_rank s \<le> severity_rank (pak_severity k))"
    and "filter_matches f a" "\<not> (\<exists>g \<in> set (so_ignores so). covers g a (so_now so))"
  shows "awake so f (SourcePlugin pid k)"
proof -
  have parts: "al_kind a = KPlugin" "al_device_id a = i" "al_rule_id a = None" "al_plugin_id a = Some pid" "al_topic a = Some (pa_topic pa)"
    "al_key a = pa_key pa" "al_severity a = plugin_severity (unwrap_or (pa_severity pa) (pak_severity k))"
    by (simp_all add: a(1) alert_of_plugin_def Let_def k(1) option_or_def unwrap_or_def split: option.split)
  have topic: "pak_topic k = pa_topic pa" and mem: "\<exists>kinds. (pid, kinds) \<in> set (pl_kinds p) \<and> k \<in> set kinds"
    using k(1) by (auto simp: declared_kind_def bind_eq_Some_conv find_Some_iff dest!: map_of_SomeD)
  have rank: "severity_rank (al_severity a) \<le> severity_rank (plugin_severity (pak_severity k))"
    using k(2) plugin_rank by (cases "pa_severity pa") (simp_all add: parts(7) unwrap_or_def)
  have f: "is_none_or (af_kind f) (\<lambda>k. k = KPlugin)" "is_none_or (af_plugin_id f) (\<lambda>w. w = pid)" "is_none_or (af_topic f) (\<lambda>w. w = pa_topic pa)"
    "is_none_or (af_key f) (\<lambda>w. pa_key pa = Some w)" "af_rule_id f = None" "af_device_ids f = [] \<or> i \<in> set (af_device_ids f)"
    "is_none_or (af_min_severity f) (\<lambda>m. severity_rank m \<le> severity_rank (al_severity a))"
    using assms(8) parts by (auto simp: filter_matches_def Let_def is_none_or_def split: option.splits)
  have "af_device_ids f = [] \<or> of_plugin so (af_device_ids f) pid"
    using f(6) speaks_for_plugin [of so x pid i name "af_device_ids f"] assms(2) a(2) by (auto simp: so sources_of_def)
  moreover have "is_none_or (af_min_severity f) (\<lambda>m. severity_rank m \<le> severity_rank (plugin_severity (pak_severity k)))"
    using f(7) rank by (cases "af_min_severity f") auto
  ultimately have "could_match so f (SourcePlugin pid k)" using f(1-3,5) by (simp add: could_match_def topic Let_def)
  moreover have "SourcePlugin pid k \<in> set (all_sources so)" using mem by (force simp: all_sources_def so sources_of_def)
  moreover have "waiting_on so f (SourcePlugin pid k) = None"
  proof (rule ccontr)
    let ?p = "\<lparr>pi_kind = KPlugin, pi_rule_id = None, pi_plugin_id = Some pid, pi_topic = Some (pak_topic k),
                 pi_key = af_key f, pi_devices = af_device_ids f\<rparr>"
    assume "waiting_on so f (SourcePlugin pid k) \<noteq> None"
    moreover have "unwrap_or (Option.bind (topic_setting_for (so_topics so) pid (pak_topic k)) ts_enabled) (pak_default_on k)"
      using a(3) k(1) by (simp add: topic_on_def so sources_of_def topic option_or_def unwrap_or_def split: option.splits)
    ultimately have "ignored so ?p" by (simp add: waiting_on_def split: if_splits)
    then have "\<exists>g \<in> set (so_ignores so). covers g a (so_now so)"
      by (rule ignored_covers) (use parts topic f(4,6) in \<open>auto simp: is_none_or_def split: option.splits\<close>)
    with assms(9) show False by blast
  qed
  ultimately show ?thesis by (simp add: awake_def)
qed

lemma awake_not_waiting:
  assumes "link so n tr = Some l" "awake so (lk_filter l) source"
  shows "lk_waiting l = None"
proof -
  obtain w m f where tr: "alert_trigger tr = Some (w, m, f)" using assms(1) by (cases "alert_trigger tr") (auto simp: link_def)
  then have "lk_filter l = f" using assms(1) by (auto simp: link_def Let_def)
  then have src: "source \<in> set (filter (could_match so f) (all_sources so))" "waiting_on so f source = None"
    using assms(2) by (simp_all add: awake_def)
  define matched where "matched = filter (could_match so f) (all_sources so)"
  have "matched \<noteq> []" using src(1) unfolding matched_def [symmetric] by (metis empty_iff list.set(1))
  moreover have "\<not> list_all (\<lambda>w. w \<noteq> None) (map (waiting_on so f) matched)"
    using src unfolding matched_def [symmetric] by (force simp: list_all_iff)
  ultimately show ?thesis using assms(1) unfolding link_def tr option.case prod.case Let_def matched_def [symmetric] by auto
qed

text \<open>
  C31. An automation that is shown as waiting is not started: while plugins report alerts of kinds
  they declared, and no more severe than declared, no alert that a pass leaves active matches
  the filter of a trigger which the links of that moment show as waiting (its rule off or deleted, its kind
  off, or all it could match ignored).
\<close>

theorem waiting_automation_not_started:
  assumes "distinct (map dv_id devices)"
    and "\<forall>(i, rep) \<in> set (pl_reported (ag_plugins s)). \<forall>pa \<in> set (rp_alerts rep). \<exists>k.
          declared_kind (ag_plugins s) (rp_plugin_id rep) (pa_topic pa) = Some k
          \<and> is_none_or (pa_severity pa) (\<lambda>sev. severity_rank sev \<le> severity_rank (pak_severity k))"
    and "link (sources_of devices t now (ag_plugins s)) n tr = Some l" "lk_waiting l \<noteq> None"
    and "map_of (ag_active (full_pass x nt devices t now local cfg s)) j = Some a"
  shows "\<not> filter_matches (lk_filter l) a"
proof
  let ?so = "sources_of devices t now (ag_plugins s)" and ?f = "lk_filter l"
  obtain b where b: "map_of (called_for x devices t now local cfg s) j = Some b" "a = b\<lparr>al_acknowledged := settled_acks x devices t now local cfg s j\<rparr>"
    using assms(5) by (auto simp: full_pass_simps)
  assume "filter_matches ?f a"
  then have m: "filter_matches ?f b" by (simp add: b(2) filter_matches_def)
  have src: "from_source x devices t now (ag_plugins s) b" and "\<not> (\<exists>g \<in> set (list_alert_ignores t). covers g b now)"
    using called_for_from_source [OF assms(1) b(1)] by simp_all
  then have open': "\<not> (\<exists>g \<in> set (so_ignores ?so). covers g b (so_now ?so))" by (simp add: sources_of_def)
  have dist: "distinct (map dv_id (so_devices ?so))" using assms(1) by (simp add: sources_of_def)
  have "\<exists>source. awake ?so ?f source"
    using src unfolding from_source_def
  proof (elim disjE bexE conjE)
    fix d
    assume "d \<in> set devices" "own_of d b" "(al_kind b, al_severity b) \<in> set OWN_KINDS"
    then show ?thesis using own_awake [OF dist _ _ _ m open'] by (auto simp: sources_of_def)
  next
    fix r d
    assume "r \<in> set (list_alert_rules t)" "d \<in> set devices" "lr_enabled r" "dv_id d \<in> set (lr_device_ids r)" "al_kind b = KRule"
      "al_device_id b = dv_id d" "al_rule_id b = Some (lr_id r)" "al_plugin_id b = None" "al_topic b = None" "al_key b = None"
      "al_severity b = lr_severity r" "al_device_plugin_id b = Some (dv_plugin_id d)"
    then show ?thesis using rule_awake [OF dist _ _ _ _ _ _ _ _ _ _ _ _ m open'] by (auto simp: sources_of_def)
  next
    fix ir
    assume ir: "ir \<in> set (pl_reported (ag_plugins s))" and says: "case ir of (i, rep) \<Rightarrow> \<exists>pa \<in> set (rp_alerts rep). \<exists>name active.
        speaks_for x devices (rp_plugin_id rep) i = Some name \<and> topic_on (ag_plugins s) (list_topic_settings t) (rp_plugin_id rep) (pa_topic pa)
        \<and> b = alert_of_plugin (ag_plugins s) active now (rp_plugin_id rep) i pa name x"
    obtain i rep where irep: "ir = (i, rep)" by fastforce
    then obtain pa name active where pa: "pa \<in> set (rp_alerts rep)" "speaks_for x devices (rp_plugin_id rep) i = Some name"
        "topic_on (ag_plugins s) (list_topic_settings t) (rp_plugin_id rep) (pa_topic pa)"
        "b = alert_of_plugin (ag_plugins s) active now (rp_plugin_id rep) i pa name x"
      using says by auto
    obtain k where "declared_kind (ag_plugins s) (rp_plugin_id rep) (pa_topic pa) = Some k"
        "is_none_or (pa_severity pa) (\<lambda>sev. severity_rank sev \<le> severity_rank (pak_severity k))"
      using bspec [OF assms(2) ir] pa(1) by (auto simp: irep)
    from plugin_awake [OF refl assms(1) pa(4,2,3) this m open'] show ?thesis by blast
  qed
  then obtain source where "awake ?so ?f source" ..
  from awake_not_waiting [OF assms(3) this] assms(4) show False by contradiction
qed

text \<open>The cellar is wet, its alerts are ignored, and an automation waits for them.\<close>

definition ignore_cellar :: alert_ignore where
  "ignore_cellar =
     \<lparr>ai_id = ''g'', ai_kind = Some Wet, ai_device_id = Some ''cellar'', ai_rule_id = None, ai_plugin_id = None, ai_topic = None,
      ai_key = None, ai_until = None, ai_note = None, ai_by = None, ai_created_at = 0\<rparr>"

definition smoke_sensor :: device where
  "smoke_sensor = (device_new 0 ''attic'' ''Attic'' ''plugin.yolink'')\<lparr>dv_available := True, dv_attributes := [(''smoke'', JBool True)]\<rparr>"

definition wet_filter :: alert_filter where
  "wet_filter = alert_filter_default\<lparr>af_kind := Some Wet, af_device_ids := [''cellar'']\<rparr>"

theorem waiting_automation_not_started_witness:
  "map_option lk_waiting (link (sources_of [leak_sensor, smoke_sensor] (upsert_alert_ignore ignore_cellar no_tables) 5 (ag_plugins alert_engine_new))
      0 (TrAlertRaised wet_filter)) = Some (Some WaitIgnored)
   \<and> (case map_of (ag_active (full_pass sample_alert_ext \<lparr>nt_service = False, nt_channel = None\<rparr> [leak_sensor, smoke_sensor]
           (upsert_alert_ignore ignore_cellar no_tables) 5 0 battery_config_default alert_engine_new)) ''smoke:attic'' of
        None \<Rightarrow> False
      | Some a \<Rightarrow> \<not> filter_matches wet_filter a)"
proof -
  let ?t = "upsert_alert_ignore ignore_cellar no_tables" and ?ds = "[leak_sensor, smoke_sensor]"
  let ?so = "sources_of ?ds ?t 5 (ag_plugins alert_engine_new)"
  let ?s = "full_pass sample_alert_ext \<lparr>nt_service = False, nt_channel = None\<rparr> ?ds ?t 5 0 battery_config_default alert_engine_new"
  have w: "map_option lk_waiting (link ?so 0 (TrAlertRaised wet_filter)) = Some (Some WaitIgnored)" by code_simp
  then obtain l where l: "link ?so 0 (TrAlertRaised wet_filter) = Some l" "lk_waiting l \<noteq> None" by auto
  then have f: "lk_filter l = wet_filter" by (auto simp: link_def alert_trigger_def Let_def)
  have "map_of (ag_active ?s) ''smoke:attic'' \<noteq> None" by code_simp
  then obtain a where a: "map_of (ag_active ?s) ''smoke:attic'' = Some a" by blast
  have "distinct (map dv_id ?ds)" by code_simp
  from waiting_automation_not_started [OF this _ l a] have "\<not> filter_matches wet_filter a" by (simp add: f alert_engine_new_def)
  with a w show ?thesis by simp
qed

end
