(* ===== verification/Modes.thy ===== *)
theory Modes
  imports Scheduler Glue
begin

text \<open>
  Modes (\<open>hc-core/src/mode_manager.rs\<close>): named on/off devices, switched by the sun or by hand, with
  their configuration in a file. The file is what it parses to: nothing there, something that does not
  parse, or a list of modes; what is written is read back. The sun's times, local time and the zone
  are parameters, as in \<open>Scheduler\<close>. Time does not pass inside a handler. A result \<open>None\<close>
  would be an endless search for a free name, which \<open>Mode_Theorems\<close> excludes.
\<close>

subsection \<open>Configuration\<close>

definition MODE_PLUGIN_ID :: string where
  "MODE_PLUGIN_ID = ''core.mode''"

definition MODE_DAY_ID :: string where
  "MODE_DAY_ID = ''mode_day''"

definition MODE_NIGHT_ID :: string where
  "MODE_NIGHT_ID = ''mode_night''"

datatype mode_kind = SolarMode | ManualMode

definition mode_kind_as_str :: "mode_kind \<Rightarrow> string" where
  "mode_kind_as_str k = (case k of SolarMode \<Rightarrow> ''solar'' | ManualMode \<Rightarrow> ''manual'')"

record mode_config =
  mc_id :: string
  mc_name :: string
  mc_kind :: mode_kind
  mc_on_event :: "sun_event_type option"
  mc_off_event :: "sun_event_type option"
  mc_on_offset_minutes :: int
  mc_off_offset_minutes :: int

record solar_edge =
  se_event :: sun_event_type
  se_offset_minutes :: int

definition solar_window :: "mode_config \<Rightarrow> (solar_edge \<times> solar_edge) option" where
  "solar_window m =
     (case (mc_on_event m, mc_off_event m) of
        (Some on, Some off) \<Rightarrow>
          Some (\<lparr>se_event = on, se_offset_minutes = mc_on_offset_minutes m\<rparr>,
                \<lparr>se_event = off, se_offset_minutes = mc_off_offset_minutes m\<rparr>)
      | _ \<Rightarrow> None)"

definition default_mode_night :: mode_config where
  "default_mode_night =
     \<lparr>mc_id = MODE_NIGHT_ID, mc_name = ''Night Mode'', mc_kind = SolarMode, mc_on_event = Some Sunset, mc_off_event = Some Sunrise,
      mc_on_offset_minutes = 0, mc_off_offset_minutes = 0\<rparr>"

definition default_mode_day :: mode_config where
  "default_mode_day =
     \<lparr>mc_id = MODE_DAY_ID, mc_name = ''Day Mode'', mc_kind = SolarMode, mc_on_event = Some Sunrise, mc_off_event = Some Sunset,
      mc_on_offset_minutes = 0, mc_off_offset_minutes = 0\<rparr>"

datatype modes_file = ModesMissing | ModesBroken string | ModesFile "mode_config list"

definition load_modes :: "modes_file \<Rightarrow> (string, mode_config list) result" where
  "load_modes f = (case f of ModesMissing \<Rightarrow> Inr [] | ModesBroken e \<Rightarrow> Inl e | ModesFile ms \<Rightarrow> Inr ms)"

definition load_or_none :: "modes_file \<Rightarrow> mode_config list" where
  "load_or_none f = (case load_modes f of Inr ms \<Rightarrow> ms | Inl _ \<Rightarrow> [])"

definition has_mode :: "string \<Rightarrow> mode_config list \<Rightarrow> bool" where
  "has_mode i modes \<longleftrightarrow> list_ex (\<lambda>m. mc_id m = i) modes"

definition ensure_default_modes :: "modes_file \<Rightarrow> modes_file" where
  "ensure_default_modes f =
     (let modes = load_or_none f;
          with_day = (if has_mode MODE_DAY_ID modes then modes else default_mode_day # modes);
          with_night = (if has_mode MODE_NIGHT_ID with_day then with_day else default_mode_night # with_day) in
      if has_mode MODE_DAY_ID modes \<and> has_mode MODE_NIGHT_ID with_day then f else ModesFile with_night)"

definition append_mode :: "mode_config \<Rightarrow> modes_file \<Rightarrow> (string, modes_file) result" where
  "append_mode m f =
     (let modes = load_or_none f in
      if has_mode (mc_id m) modes then Inl (''mode '' @ quoted (mc_id m) @ '' already exists in modes.toml'') else Inr (ModesFile (modes @ [m])))"

definition remove_mode :: "string \<Rightarrow> modes_file \<Rightarrow> (string, modes_file) result" where
  "remove_mode i f =
     (let modes = load_or_none f; kept = filter (\<lambda>m. mc_id m \<noteq> i) modes in
      if length kept = length modes then Inl (''mode '' @ quoted i @ '' not found in modes.toml'') else Inr (ModesFile kept))"

subsection \<open>The sun\<close>

record mode_ext =
  mx_sched :: sched_ext
  mx_timer :: timer_ext
  mx_instant :: "int \<Rightarrow> nanos \<Rightarrow> timestamp option"

abbreviation solar_time :: "mode_ext \<Rightarrow> timestamp \<Rightarrow> int \<Rightarrow> sun_event_type \<Rightarrow> int \<Rightarrow> nanos option" where
  "solar_time x \<equiv> sx_solar_event_time (mx_sched x)"

definition solar_mode_is_on :: "mode_ext \<Rightarrow> timestamp \<Rightarrow> int \<Rightarrow> nanos \<Rightarrow> solar_edge \<Rightarrow> solar_edge \<Rightarrow> bool option" where
  "solar_mode_is_on x now today now_time on off =
     (case (solar_time x now today (se_event on) (se_offset_minutes on), solar_time x now today (se_event off) (se_offset_minutes off)) of
        (Some on_t, Some off_t) \<Rightarrow>
          Some (if off_t < on_t then on_t \<le> now_time \<or> now_time < off_t else on_t \<le> now_time \<and> now_time < off_t)
      | _ \<Rightarrow> None)"

definition solar_on_now :: "mode_ext \<Rightarrow> timestamp \<Rightarrow> solar_edge \<times> solar_edge \<Rightarrow> bool" where
  "solar_on_now x now w =
     (let local = sx_local (mx_sched x) now in
      case solar_mode_is_on x now (ld_date local) (ld_time local) (fst w) (snd w) of Some b \<Rightarrow> b | None \<Rightarrow> False)"

definition edge_candidates :: "mode_ext \<Rightarrow> timestamp \<Rightarrow> string \<Rightarrow> int \<Rightarrow> solar_edge \<times> bool \<Rightarrow> (timestamp \<times> string \<times> bool) list" where
  "edge_candidates x now i date e =
     (case solar_time x now date (se_event (fst e)) (se_offset_minutes (fst e)) of
        None \<Rightarrow> []
      | Some t \<Rightarrow>
          (case mx_instant x date t of
             None \<Rightarrow> []
           | Some dt \<Rightarrow> if now < dt then [(dt, i, snd e)] else []))"

definition mode_candidates :: "mode_ext \<Rightarrow> timestamp \<Rightarrow> mode_config \<Rightarrow> (timestamp \<times> string \<times> bool) list" where
  "mode_candidates x now m =
     (if mc_kind m \<noteq> SolarMode then []
      else case solar_window m of
             None \<Rightarrow> []
           | Some (on, off) \<Rightarrow>
               concat (map (\<lambda>days_ahead.
                 concat (map (edge_candidates x now (mc_id m) (ld_date (sx_local (mx_sched x) now) + days_ahead)) [(on, True), (off, False)]))
                 [0, 1]))"

definition next_solar_transition :: "mode_ext \<Rightarrow> timestamp \<Rightarrow> mode_config list \<Rightarrow> (timestamp \<times> string \<times> bool) option" where
  "next_solar_transition x now modes =
     (case sort_key fst (concat (map (mode_candidates x now) modes)) of [] \<Rightarrow> None | c # _ \<Rightarrow> Some c)"

text \<open>How long to sleep, in nanoseconds; an hour if nothing comes.\<close>

definition compute_sleep :: "mode_ext \<Rightarrow> timestamp \<Rightarrow> mode_config list \<Rightarrow> int \<times> (timestamp \<times> string \<times> bool) option" where
  "compute_sleep x now modes =
     (let next = next_solar_transition x now modes in
      ((case next of Some (dt, _) \<Rightarrow> if 0 \<le> dt - now then dt - now else 3600 * 1000000000 | None \<Rightarrow> 3600 * 1000000000), next))"

subsection \<open>Devices\<close>

definition pad2 :: "nat \<Rightarrow> string" where
  "pad2 n = (if n < 10 then ''0'' @ show_nat n else show_nat n)"

definition fmt_time :: "nanos \<Rightarrow> string" where
  "fmt_time t = pad2 (hour t) @ '':'' @ pad2 (minute t)"

definition insert_time :: "string \<Rightarrow> nanos option \<Rightarrow> attrs \<Rightarrow> attrs" where
  "insert_time k t a = (case t of Some v \<Rightarrow> obj_insert k (JStr (fmt_time v)) a | None \<Rightarrow> a)"

definition mode_attributes :: "mode_ext \<Rightarrow> timestamp \<Rightarrow> mode_config \<Rightarrow> bool \<Rightarrow> attrs \<Rightarrow> attrs" where
  "mode_attributes x now m on previous =
     (let today = ld_date (sx_local (mx_sched x) now);
          a = obj_insert ''kind'' (JStr (mode_kind_as_str (mc_kind m))) (obj_insert ''on'' (JBool on) previous) in
      if mc_kind m \<noteq> SolarMode then a
      else
        let b = obj_insert ''off_offset_minutes'' (json_int (mc_off_offset_minutes m))
                  (obj_insert ''on_offset_minutes'' (json_int (mc_on_offset_minutes m)) a) in
        case (mc_on_event m, mc_off_event m) of
          (Some on_ev, Some off_ev) \<Rightarrow>
            insert_time ''effective_off'' (solar_time x now today off_ev (mc_off_offset_minutes m))
              (insert_time ''effective_on'' (solar_time x now today on_ev (mc_on_offset_minutes m))
                (insert_time (if on_ev = Sunset then ''sunset_today'' else ''sunrise_today'') (solar_time x now today on_ev 0)
                  (insert_time (if off_ev = Sunrise then ''sunrise_today'' else ''sunset_today'') (solar_time x now today off_ev 0) b)))
        | _ \<Rightarrow> b)"

definition mode_device :: "mode_ext \<Rightarrow> timestamp \<Rightarrow> mode_config \<Rightarrow> bool \<Rightarrow> device_change \<Rightarrow> device \<Rightarrow> device" where
  "mode_device x now m on change d =
     d\<lparr>dv_device_type := option_or (dv_device_type d) (Some ''mode''), dv_attributes := mode_attributes x now m on (dv_attributes d),
       dv_last_seen := now, dv_available := True, dv_last_change := Some change\<rparr>"

definition write_mode_state :: "mode_ext \<Rightarrow> timestamp \<Rightarrow> mode_config \<Rightarrow> bool \<Rightarrow> device_change option \<Rightarrow> hub \<Rightarrow> hub option" where
  "write_mode_state x now m on change h =
     (let old = unwrap_or (get_device h (mc_id m)) (device_new now (mc_id m) (mc_name m) MODE_PLUGIN_ID);
          change' = unwrap_or change (device_change_homecore now ''mode_manager'');
          dev = mode_device x now m on change' old;
          changed = changed_keys (dv_attributes old) (dv_attributes dev) in
      map_option (\<lambda>h1.
        let h2 = (if ''on'' \<in> set changed
                  then publish (HeCustom ''mode_changed'' (JObj [(''mode_id'', JStr (mc_id m)), (''on'', JBool on)]))
                         (publish (HeModeChanged (mc_id m) (mc_name m) on) h1)
                  else h1) in
        publish (HeDeviceStateChanged (mc_id m) (Some (mc_name m)) (dv_attributes old) (dv_attributes dev) changed change') h2)
        (upsert_device_with_schema dev h))"

subsection \<open>The manager\<close>

definition initial_state :: "mode_ext \<Rightarrow> timestamp \<Rightarrow> mode_config \<Rightarrow> hub \<Rightarrow> hub option" where
  "initial_state x now m h =
     (case mc_kind m of
        SolarMode \<Rightarrow> (case solar_window m of None \<Rightarrow> Some h | Some w \<Rightarrow> write_mode_state x now m (solar_on_now x now w) None h)
      | ManualMode \<Rightarrow> if get_device h (mc_id m) = None then write_mode_state x now m False None h else Some h)"

fun apply_initial_states :: "mode_ext \<Rightarrow> timestamp \<Rightarrow> mode_config list \<Rightarrow> hub \<Rightarrow> hub option" where
  "apply_initial_states x now [] h = Some h"
| "apply_initial_states x now (m # ms) h = Option.bind (initial_state x now m h) (apply_initial_states x now ms)"

definition flip_mode :: "mode_ext \<Rightarrow> timestamp \<Rightarrow> string \<Rightarrow> bool \<Rightarrow> mode_config list \<Rightarrow> hub \<Rightarrow> hub option" where
  "flip_mode x now i new_on modes h =
     (case find (\<lambda>m. mc_id m = i) modes of None \<Rightarrow> Some h | Some m \<Rightarrow> write_mode_state x now m new_on None h)"

record mode_manager =
  mo_hub :: hub
  mo_modes :: "mode_config list"
  mo_file :: modes_file

definition on_hub_opt :: "(hub \<Rightarrow> hub option) \<Rightarrow> mode_manager \<Rightarrow> mode_manager option" where
  "on_hub_opt f s = map_option (\<lambda>h. s\<lparr>mo_hub := h\<rparr>) (f (mo_hub s))"

definition start_modes :: "mode_ext \<Rightarrow> timestamp \<Rightarrow> modes_file \<Rightarrow> hub \<Rightarrow> mode_manager option" where
  "start_modes x now f h =
     (let f' = ensure_default_modes f; modes = load_or_none f' in
      map_option (\<lambda>h'. \<lparr>mo_hub = h', mo_modes = modes, mo_file = f'\<rparr>) (apply_initial_states x now modes h))"

text \<open>The end of a sleep that was computed with \<open>next'\<close>.\<close>

definition wake_modes :: "mode_ext \<Rightarrow> timestamp \<Rightarrow> (timestamp \<times> string \<times> bool) option \<Rightarrow> mode_manager \<Rightarrow> mode_manager option" where
  "wake_modes x now next' s =
     on_hub_opt (\<lambda>h. Option.bind (case next' of Some (_, i, new_on) \<Rightarrow> flip_mode x now i new_on (mo_modes s) h | None \<Rightarrow> Some h)
       (apply_initial_states x now (mo_modes s))) s"

definition stored_on :: "hub \<Rightarrow> string \<Rightarrow> bool" where
  "stored_on h i =
     unwrap_or (Option.bind (get_device h i) (\<lambda>d. Option.bind (map_of (dv_attributes d) ''on'') as_bool)) False"

definition wrap_i32 :: "int \<Rightarrow> int" where
  "wrap_i32 i = (i + 2 ^ 31) mod 2 ^ 32 - 2 ^ 31"

definition mode_change :: "mode_ext \<Rightarrow> timestamp \<Rightarrow> json \<Rightarrow> device_change" where
  "mode_change x now cmd = unwrap_or (extract_change_from_command_payload (mx_timer x) now cmd) (device_change_unknown now)"

definition manual_command :: "hub \<Rightarrow> string \<Rightarrow> json \<Rightarrow> bool option" where
  "manual_command h i cmd =
     (case Option.bind (json_get cmd ''command'') as_str of
        Some c \<Rightarrow> if c = ''on'' then Some True else if c = ''off'' then Some False else if c = ''toggle'' then Some (\<not> stored_on h i) else None
      | None \<Rightarrow> Option.bind (json_get cmd ''on'') as_bool)"

definition new_offsets :: "json \<Rightarrow> mode_config \<Rightarrow> mode_config" where
  "new_offsets cmd m =
     (let m1 = (case Option.bind (json_get cmd ''on_offset_minutes'') as_i64 of Some v \<Rightarrow> m\<lparr>mc_on_offset_minutes := wrap_i32 v\<rparr> | None \<Rightarrow> m) in
      case Option.bind (json_get cmd ''off_offset_minutes'') as_i64 of Some v \<Rightarrow> m1\<lparr>mc_off_offset_minutes := wrap_i32 v\<rparr> | None \<Rightarrow> m1)"

definition offsets_given :: "json \<Rightarrow> bool" where
  "offsets_given cmd \<longleftrightarrow>
     Option.bind (json_get cmd ''on_offset_minutes'') as_i64 \<noteq> None \<or> Option.bind (json_get cmd ''off_offset_minutes'') as_i64 \<noteq> None"

fun update_first :: "string \<Rightarrow> (mode_config \<Rightarrow> mode_config) \<Rightarrow> mode_config list \<Rightarrow> mode_config list" where
  "update_first i f [] = []"
| "update_first i f (m # ms) = (if mc_id m = i then f m # ms else m # update_first i f ms)"

definition handle_mode_cmd :: "mode_ext \<Rightarrow> timestamp \<Rightarrow> string \<Rightarrow> json \<Rightarrow> mode_manager \<Rightarrow> mode_manager option" where
  "handle_mode_cmd x now i cmd s =
     (case find (\<lambda>m. mc_id m = i) (mo_modes s) of
        None \<Rightarrow> Some s
      | Some m \<Rightarrow>
          if mc_kind m = ManualMode then
            (case manual_command (mo_hub s) i cmd of
               None \<Rightarrow> Some s
             | Some on \<Rightarrow> on_hub_opt (write_mode_state x now m on (Some (mode_change x now cmd))) s)
          else if \<not> offsets_given cmd then Some s
          else
            let m' = new_offsets cmd m; modes = update_first i (new_offsets cmd) (mo_modes s);
                s1 = s\<lparr>mo_modes := modes, mo_file := ModesFile modes\<rparr> in
            (case solar_window m' of
               None \<Rightarrow> Some s1
             | Some w \<Rightarrow> on_hub_opt (write_mode_state x now m' (solar_on_now x now w) (Some (mode_change x now cmd))) s1))"

definition drop_modes :: "mode_config list \<Rightarrow> mode_config list \<Rightarrow> hub \<Rightarrow> hub" where
  "drop_modes old new = fold (\<lambda>m h. if has_mode (mc_id m) new then h else snd (delete_device (mc_id m) h)) old"

definition reload_mode :: "mode_ext \<Rightarrow> timestamp \<Rightarrow> mode_config list \<Rightarrow> mode_config \<Rightarrow> hub \<Rightarrow> hub option" where
  "reload_mode x now old m h =
     (let existed = has_mode (mc_id m) old; changed = list_ex (\<lambda>o'. mc_id o' = mc_id m \<and> o' \<noteq> m) old in
      if existed \<and> \<not> changed then Some h
      else write_mode_state x now m
             (case mc_kind m of
                SolarMode \<Rightarrow> (case solar_window m of Some w \<Rightarrow> solar_on_now x now w | None \<Rightarrow> False)
              | ManualMode \<Rightarrow> existed \<and> stored_on h (mc_id m)) None h)"

fun reload_modes :: "mode_ext \<Rightarrow> timestamp \<Rightarrow> mode_config list \<Rightarrow> mode_config list \<Rightarrow> hub \<Rightarrow> hub option" where
  "reload_modes x now old [] h = Some h"
| "reload_modes x now old (m # ms) h = Option.bind (reload_mode x now old m h) (reload_modes x now old ms)"

definition handle_reload :: "mode_ext \<Rightarrow> timestamp \<Rightarrow> mode_manager \<Rightarrow> mode_manager option" where
  "handle_reload x now s =
     (case load_modes (mo_file s) of
        Inl _ \<Rightarrow> Some s
      | Inr new \<Rightarrow>
          map_option (\<lambda>h. s\<lparr>mo_hub := h, mo_modes := new\<rparr>)
            (reload_modes x now (mo_modes s) new (drop_modes (mo_modes s) new (mo_hub s))))"

definition parse_mode_cmd_topic :: "string \<Rightarrow> string option" where
  "parse_mode_cmd_topic topic =
     (let p = ''homecore/devices/''; rest = drop (length p) topic; i = take (length rest - 4) rest in
      if starts_with p topic \<and> starts_with (rev ''/cmd'') (rev rest) \<and> starts_with ''mode_'' i then Some i else None)"

definition mode_message :: "mode_ext \<Rightarrow> timestamp \<Rightarrow> string \<Rightarrow> bytes \<Rightarrow> mode_manager \<Rightarrow> mode_manager option" where
  "mode_message x now topic payload s =
     (case parse_mode_cmd_topic topic of
        None \<Rightarrow> Some s
      | Some i \<Rightarrow>
          (case map_option action_as_command (tx_parse_json (mx_timer x) payload) of
             None \<Rightarrow> Some s
           | Some cmd \<Rightarrow> handle_mode_cmd x now i cmd s))"

end
