(* ===== verification/Mode_Theorems.thy ===== *)
theory Mode_Theorems
  imports Modes Glue_Theorems
begin

text \<open>
  What the mode manager keeps. A write always ends and sets the state it was asked to set. In a zone
  whose offset does not change, and for a sun whose two edges stay in the same order from day to day,
  the stored state of a solar mode agrees with the sun from every handled event until the end of the
  sleep it computes, whatever commands, reloads and edits of the file are handled before that end. What the
  manager does not keep is stated too: a transition that passes while a reload waits is missed, a
  command overwrites modes added to the file since the last reload, and a file that does not parse is
  replaced at the start.
\<close>

subsection \<open>Writing a mode\<close>

lemma insert_time_on [simp]: "k \<noteq> ''on'' \<Longrightarrow> map_of (insert_time k t a) ''on'' = map_of a ''on''"
  by (simp add: insert_time_def split: option.split)

lemma mode_attributes_on [simp]: "map_of (mode_attributes x now m on a) ''on'' = Some (JBool on)"
  by (simp add: mode_attributes_def Let_def split: option.split)

definition on_of :: "device option \<Rightarrow> bool" where
  "on_of d = unwrap_or (Option.bind d (\<lambda>d. Option.bind (map_of (dv_attributes d) ''on'') as_bool)) False"

lemma stored_on_of: "stored_on h i = on_of (get_device h i)"
  by (simp add: stored_on_def on_of_def)

lemma write_mode_state_ok:
  assumes "hub_ok h"
  obtains h' dev where "write_mode_state x now m on change h = Some h'" "hub_ok h'"
    "get_device h' = (get_device h)(mc_id m \<mapsto> dev)" "on_of (Some dev) = on"
proof -
  define old where "old = unwrap_or (get_device h (mc_id m)) (device_new now (mc_id m) (mc_name m) MODE_PLUGIN_ID)"
  define new where "new = mode_device x now m on (unwrap_or change (device_change_homecore now ''mode_manager'')) old"
  have "dv_id old = mc_id m"
    using reg.lookup_key [OF assms] by (cases "get_device h (mc_id m)") (auto simp: old_def device_new_def)
  then have new: "dv_id new = mc_id m" "dv_attributes new = mode_attributes x now m on (dv_attributes old)"
    by (simp_all add: new_def mode_device_def)
  obtain dev where dev: "dv_id dev = mc_id m" "dv_attributes dev = dv_attributes new"
    and up: "upsert_device_with_schema new h = Some (ensure_device_schema dev (upsert_device dev h))"
    using upsert_with_schema_ok [of new h] new by auto
  have "hub_ok (upsert_device dev h)" using assms by (rule reg.wf_write)
  then have ok: "hub_ok (ensure_device_schema dev (upsert_device dev h))" by simp
  have "write_mode_state x now m on change h \<noteq> None"
    unfolding write_mode_state_def Let_def old_def [symmetric] new_def [symmetric] up by simp
  then obtain h' where h': "write_mode_state x now m on change h = Some h'" by blast
  then have "hub_ok h'" "get_device h' = (get_device h)(mc_id m \<mapsto> dev)"
    using ok dev(1) unfolding write_mode_state_def Let_def old_def [symmetric] new_def [symmetric] up by (auto split: if_splits)
  with h' show thesis
    by (intro that [of h' dev]) (auto simp: dev new on_of_def)
qed

subsection \<open>The sun over a day\<close>

abbreviation day_ns :: int where
  "day_ns \<equiv> 86400000000000"

definition steady_zone :: "int \<Rightarrow> mode_ext \<Rightarrow> bool" where
  "steady_zone z x \<longleftrightarrow> fixed_zone z (mx_sched x) \<and> (\<forall>d t. mx_instant x d t = Some (d * day_ns + int t - z * 60000000000))"

definition edge_times :: "mode_ext \<Rightarrow> solar_edge \<Rightarrow> (int \<Rightarrow> nat) \<Rightarrow> bool" where
  "edge_times x e f \<longleftrightarrow> (\<forall>a d. solar_time x a d (se_event e) (se_offset_minutes e) = Some (f d) \<and> int (f d) < day_ns)"

definition steady_window :: "mode_ext \<Rightarrow> solar_edge \<times> solar_edge \<Rightarrow> bool" where
  "steady_window x w \<longleftrightarrow>
     (\<exists>f g. edge_times x (fst w) f \<and> edge_times x (snd w) g \<and> (\<forall>d. (g d < f d) = (g (d + 1) < f (d + 1))))"

definition window_on :: "(int \<Rightarrow> nat) \<Rightarrow> (int \<Rightarrow> nat) \<Rightarrow> int \<Rightarrow> bool" where
  "window_on f g u =
     (let d = u div day_ns; t = u mod day_ns; p = int (f d); q = int (g d) in
      if q < p then p \<le> t \<or> t < q else p \<le> t \<and> t < q)"

lemma day_parts_of:
  assumes "D * day_ns \<le> v" "v < (D + 1) * day_ns"
  shows "v div day_ns = D" "v mod day_ns = v - D * day_ns"
proof -
  show d: "v div day_ns = D"
    using assms by (intro int_div_pos_eq [of _ _ _ "v - D * day_ns"]) (simp_all add: distrib_right)
  show "v mod day_ns = v - D * day_ns" using d by (simp add: minus_div_mult_eq_mod [symmetric])
qed

lemma window_on_constant:
  assumes "\<And>d. int (f d) < day_ns" "\<And>d. int (g d) < day_ns" and "\<And>d. (g d < f d) = (g (d + 1) < f (d + 1))"
    and "u \<le> v"
    and none: "\<And>d e. d \<in> {u div day_ns, u div day_ns + 1} \<Longrightarrow> e \<in> {f d, g d} \<Longrightarrow>
      u < d * day_ns + int e \<Longrightarrow> v < d * day_ns + int e"
  shows "window_on f g u = window_on f g v"
proof -
  define D where "D = u div day_ns"
  define s where "s = u mod day_ns"
  have u: "u = D * day_ns + s" "0 \<le> s" "s < day_ns" by (simp_all add: D_def s_def)
  have fD: "u < D * day_ns + int (f D) \<Longrightarrow> v < D * day_ns + int (f D)"
    and gD: "u < D * day_ns + int (g D) \<Longrightarrow> v < D * day_ns + int (g D)"
    and fE: "u < (D + 1) * day_ns + int (f (D + 1)) \<Longrightarrow> v < (D + 1) * day_ns + int (f (D + 1))"
    and gE: "u < (D + 1) * day_ns + int (g (D + 1)) \<Longrightarrow> v < (D + 1) * day_ns + int (g (D + 1))"
    using none [of D] none [of "D + 1"] by (simp_all add: D_def)
  have "u < (D + 1) * day_ns" using u by (simp add: distrib_right)
  then have E: "v < (D + 1) * day_ns + int (f (D + 1))" "v < (D + 1) * day_ns + int (g (D + 1))"
    by (intro fE gE; simp)+
  show ?thesis
  proof (cases "v < (D + 1) * day_ns")
    case True
    then have v: "v div day_ns = D" "v mod day_ns = v - D * day_ns"
      using u \<open>u \<le> v\<close> by (intro day_parts_of; simp)+
    have "int (f D) \<le> s \<longleftrightarrow> int (f D) \<le> v - D * day_ns" "int (g D) \<le> s \<longleftrightarrow> int (g D) \<le> v - D * day_ns"
      using fD gD u \<open>u \<le> v\<close> by linarith+
    then show ?thesis
      by (auto simp: window_on_def Let_def v D_def [symmetric] s_def [symmetric] not_le [symmetric])
  next
    case False
    have "v < (D + 1 + 1) * day_ns" using E(1) assms(1) [of "D + 1"] by (simp add: distrib_right)
    then have v: "v div day_ns = D + 1" "v mod day_ns = v - (D + 1) * day_ns"
      using False by (intro day_parts_of; simp)+
    have "\<not> s < int (f D)" "\<not> s < int (g D)"
      using False fD gD u assms(1,2) [of D] by (auto simp: distrib_right)
    then show ?thesis
      using False E u v assms(3) [of D]
      by (auto simp: window_on_def Let_def D_def [symmetric] s_def [symmetric])
  qed
qed

lemma solar_on_window:
  assumes "steady_zone z x" "edge_times x (fst w) f" "edge_times x (snd w) g"
  shows "solar_on_now x now w = window_on f g (now + z * 60000000000)"
  using assms
  by (auto simp: steady_zone_def fixed_zone_def edge_times_def solar_on_now_def solar_mode_is_on_def window_on_def Let_def
      nat_le_iff nat_less_iff le_nat_iff zless_nat_eq_int_zless)

lemma mode_candidates_in:
  assumes "steady_zone z x" "mc_kind m = SolarMode" "solar_window m = Some w" "edge_times x (fst w) f" "edge_times x (snd w) g"
    and "D = (now + z * 60000000000) div day_ns" "d \<in> {D, D + 1}" "e \<in> {f d, g d}"
    and "now + z * 60000000000 < d * day_ns + int e"
  obtains b where "(d * day_ns + int e - z * 60000000000, mc_id m, b) \<in> set (mode_candidates x now m)"
proof -
  obtain on off where w: "w = (on, off)" by (cases w)
  have "ld_date (sx_local (mx_sched x) now) = D" using assms(1,6) by (simp add: steady_zone_def fixed_zone_def)
  moreover have "(d * day_ns + int (f d) - z * 60000000000, mc_id m, True) \<in> set (edge_candidates x now (mc_id m) d (on, True))"
    if "e = f d" using assms that w by (auto simp: edge_candidates_def edge_times_def steady_zone_def)
  moreover have "(d * day_ns + int (g d) - z * 60000000000, mc_id m, False) \<in> set (edge_candidates x now (mc_id m) d (off, False))"
    if "e = g d" using assms that w by (auto simp: edge_candidates_def edge_times_def steady_zone_def)
  ultimately show thesis
    using assms(2,3,7,8) that [of True] that [of False] w by (auto simp: mode_candidates_def)
qed

lemma candidates_later: "c \<in> set (mode_candidates x now m) \<Longrightarrow> now < fst c"
  by (auto simp: mode_candidates_def edge_candidates_def split: if_splits option.splits)

lemma sleep_until_first:
  assumes "c \<in> set (mode_candidates x now m)" "m \<in> set modes"
  shows "now + fst (compute_sleep x now modes) \<le> fst c"
proof -
  let ?cs = "sort_key fst (concat (map (mode_candidates x now) modes))"
  have c: "c \<in> set ?cs" using assms by auto
  then obtain b bs where cs: "?cs = b # bs" by (cases ?cs) auto
  have "sorted (map fst ?cs)" by simp
  then have "fst b \<le> fst c" using c unfolding cs by auto
  moreover have "b \<in> set ?cs" unfolding cs by simp
  then obtain m' where "b \<in> set (mode_candidates x now m')" by auto
  then have "now < fst b" by (rule candidates_later)
  ultimately show ?thesis using cs by (cases b) (simp add: compute_sleep_def next_solar_transition_def Let_def)
qed

lemma solar_state_constant:
  assumes "steady_zone z x" "steady_window x w" "m \<in> set modes" "mc_kind m = SolarMode" "solar_window m = Some w"
    and "now \<le> u" "u < now + fst (compute_sleep x now modes)"
  shows "solar_on_now x u w = solar_on_now x now w"
proof -
  obtain f g where fg: "edge_times x (fst w) f" "edge_times x (snd w) g" "\<And>d. (g d < f d) = (g (d + 1) < f (d + 1))"
    using assms(2) unfolding steady_window_def by blast
  let ?l = "\<lambda>t. t + z * 60000000000"
  have "window_on f g (?l now) = window_on f g (?l u)"
  proof (rule window_on_constant)
    fix d e
    assume d: "d \<in> {?l now div day_ns, ?l now div day_ns + 1}" "e \<in> {f d, g d}" "?l now < d * day_ns + int e"
    obtain b where "(d * day_ns + int e - z * 60000000000, mc_id m, b) \<in> set (mode_candidates x now m)"
      using mode_candidates_in [OF assms(1,4,5) fg(1,2) refl d] .
    from sleep_until_first [OF this assms(3)] show "?l u < d * day_ns + int e" using assms(7) by simp
  qed (use fg assms(6) in \<open>auto simp: edge_times_def\<close>)
  then show ?thesis using solar_on_window [OF assms(1) fg(1,2)] by simp
qed

subsection \<open>A pass over the modes\<close>

text \<open>
  Both passes, the one after a wake and the one after a reload, handle the modes one after the other,
  and each mode's part touches no device but its own.
\<close>

locale mode_pass =
  fixes each :: "mode_config \<Rightarrow> hub \<Rightarrow> hub option"
    and pass :: "mode_config list \<Rightarrow> hub \<Rightarrow> hub option"
    and post :: "mode_config \<Rightarrow> device option \<Rightarrow> device option \<Rightarrow> bool"
  assumes pass_Nil: "pass [] h = Some h"
    and pass_Cons: "pass (m # ms) h = Option.bind (each m h) (pass ms)"
    and each_ok: "hub_ok h \<Longrightarrow> \<exists>h' d. each m h = Some h' \<and> hub_ok h' \<and> get_device h' = (get_device h)(mc_id m := d)
          \<and> post m (get_device h (mc_id m)) d"
begin

lemma pass_ok:
  assumes "hub_ok h" "distinct (map mc_id ms)"
  shows "\<exists>h'. pass ms h = Some h' \<and> hub_ok h' \<and> (\<forall>j. j \<notin> mc_id ` set ms \<longrightarrow> get_device h' j = get_device h j)
    \<and> (\<forall>m \<in> set ms. post m (get_device h (mc_id m)) (get_device h' (mc_id m)))"
  using assms
proof (induction ms arbitrary: h)
  case (Cons m ms)
  obtain h1 d where h1: "each m h = Some h1" "hub_ok h1" "get_device h1 = (get_device h)(mc_id m := d)"
    "post m (get_device h (mc_id m)) d" using each_ok [OF Cons.prems(1)] by blast
  obtain h' where "pass ms h1 = Some h'" "hub_ok h'" and other: "\<forall>j. j \<notin> mc_id ` set ms \<longrightarrow> get_device h' j = get_device h1 j"
    and posts: "\<forall>m \<in> set ms. post m (get_device h1 (mc_id m)) (get_device h' (mc_id m))"
    using Cons.IH [OF h1(2)] Cons.prems(2) by auto
  moreover have "mc_id m \<notin> mc_id ` set ms" using Cons.prems(2) by simp
  moreover then have "get_device h1 (mc_id m') = get_device h (mc_id m')" if "m' \<in> set ms" for m'
    using that h1(3) by (metis fun_upd_other image_eqI)
  ultimately show ?case using h1 by (auto simp: pass_Cons)
qed (simp add: pass_Nil)

end

definition initial_post :: "mode_ext \<Rightarrow> timestamp \<Rightarrow> mode_config \<Rightarrow> device option \<Rightarrow> device option \<Rightarrow> bool" where
  "initial_post x now m old new \<longleftrightarrow>
     (case mc_kind m of
        SolarMode \<Rightarrow> (case solar_window m of Some w \<Rightarrow> on_of new = solar_on_now x now w | None \<Rightarrow> new = old)
      | ManualMode \<Rightarrow> new = old \<or> old = None \<and> \<not> on_of new)"

definition reload_post :: "mode_ext \<Rightarrow> timestamp \<Rightarrow> mode_config list \<Rightarrow> mode_config \<Rightarrow> device option \<Rightarrow> device option \<Rightarrow> bool" where
  "reload_post x now previous m old new \<longleftrightarrow>
     (if has_mode (mc_id m) previous \<and> \<not> list_ex (\<lambda>p. mc_id p = mc_id m \<and> p \<noteq> m) previous then new = old
      else case mc_kind m of
             SolarMode \<Rightarrow> on_of new = (case solar_window m of Some w \<Rightarrow> solar_on_now x now w | None \<Rightarrow> False)
           | ManualMode \<Rightarrow> on_of new = (has_mode (mc_id m) previous \<and> on_of old))"

lemma write_mode_state_post:
  "hub_ok h \<Longrightarrow> \<exists>h' d. write_mode_state x now m on change h = Some h' \<and> hub_ok h' \<and> get_device h' = (get_device h)(mc_id m := d)
     \<and> on_of d = on"
  by (rule write_mode_state_ok [of h x now m on change]) auto

lemma write_total: "hub_ok h \<Longrightarrow> \<exists>h'. write_mode_state x now m on change h = Some h'"
  using write_mode_state_post [of h x now m on change] by blast

text \<open>Either a mode's part does nothing, or it is one write.\<close>

lemma one_write:
  assumes "hub_ok h" "f = Some h \<and> P (get_device h i) \<or> (\<exists>on. f = write_mode_state x now m on None h \<and> (\<forall>d. on_of d = on \<longrightarrow> P d))" "i = mc_id m"
  shows "\<exists>h' d. f = Some h' \<and> hub_ok h' \<and> get_device h' = (get_device h)(i := d) \<and> P d"
  using assms(2)
proof
  assume "f = Some h \<and> P (get_device h i)"
  then show ?thesis using assms(1) by (intro exI [of _ h] exI [of _ "get_device h i"]) simp
next
  assume "\<exists>on. f = write_mode_state x now m on None h \<and> (\<forall>d. on_of d = on \<longrightarrow> P d)"
  then obtain on where "f = write_mode_state x now m on None h" "\<forall>d. on_of d = on \<longrightarrow> P d" by blast
  then show ?thesis using write_mode_state_post [OF assms(1), of x now m on None] assms(3) by auto
qed

interpretation initial: mode_pass "initial_state x now" "apply_initial_states x now" "initial_post x now" for x now
proof (unfold_locales, simp_all only: apply_initial_states.simps, rule one_write [OF _ _ refl])
  fix h m
  show "initial_state x now m h = Some h \<and> initial_post x now m (get_device h (mc_id m)) (get_device h (mc_id m))
      \<or> (\<exists>on. initial_state x now m h = write_mode_state x now m on None h
            \<and> (\<forall>d. on_of d = on \<longrightarrow> initial_post x now m (get_device h (mc_id m)) d))"
    by (auto simp: initial_state_def initial_post_def split: mode_kind.split option.split)
qed

interpretation reload: mode_pass "reload_mode x now previous" "reload_modes x now previous" "reload_post x now previous" for x now previous
proof (unfold_locales, simp_all only: reload_modes.simps, rule one_write [OF _ _ refl])
  fix h m
  show "reload_mode x now previous m h = Some h \<and> reload_post x now previous m (get_device h (mc_id m)) (get_device h (mc_id m))
      \<or> (\<exists>on. reload_mode x now previous m h = write_mode_state x now m on None h
            \<and> (\<forall>d. on_of d = on \<longrightarrow> reload_post x now previous m (get_device h (mc_id m)) d))"
    by (auto simp: reload_mode_def reload_post_def stored_on_of Let_def split: mode_kind.split option.split)
qed

subsection \<open>The manager's loop\<close>

definition file_ok :: "modes_file \<Rightarrow> bool" where
  "file_ok f \<longleftrightarrow> distinct (map mc_id (load_or_none f))"

definition manager_ok :: "mode_manager \<Rightarrow> bool" where
  "manager_ok s \<longleftrightarrow> hub_ok (mo_hub s) \<and> distinct (map mc_id (mo_modes s)) \<and> file_ok (mo_file s)"

definition mode_follows :: "mode_ext \<Rightarrow> timestamp \<Rightarrow> hub \<Rightarrow> mode_config \<Rightarrow> bool" where
  "mode_follows x t h m \<longleftrightarrow>
     (mc_kind m = SolarMode \<longrightarrow>
       (\<forall>w. solar_window m = Some w \<longrightarrow> steady_window x w \<longrightarrow> stored_on h (mc_id m) = solar_on_now x t w))"

definition in_step :: "mode_ext \<Rightarrow> timestamp \<Rightarrow> mode_manager \<Rightarrow> bool" where
  "in_step x t s \<longleftrightarrow> manager_ok s \<and> (\<forall>m \<in> set (mo_modes s). mode_follows x t (mo_hub s) m)"

text \<open>
  What happens to the manager, with the time at which its sleep was last computed: the sleep ends, at its
  time or later; a message or a reload is handled, before that or after it (when the loop finds both, it
  takes either, and a reload waits first); in between, the file is edited or other components
  change devices.
\<close>

datatype mode_turn = WakeTurn | MessageTurn string bytes | ReloadTurn | EditTurn modes_file | OtherTurn hub

inductive mode_step :: "mode_ext \<Rightarrow> mode_turn \<Rightarrow> timestamp \<times> mode_manager \<Rightarrow> timestamp \<times> mode_manager \<Rightarrow> bool" for x where
  wake: "compute_sleep x t (mo_modes s) = (d, nxt) \<Longrightarrow> t + d \<le> t' \<Longrightarrow> wake_modes x t' nxt s = Some s' \<Longrightarrow>
    mode_step x WakeTurn (t, s) (t', s')"
| message: "t \<le> t' \<Longrightarrow> mode_message x t' topic payload s = Some s' \<Longrightarrow> mode_step x (MessageTurn topic payload) (t, s) (t', s')"
| reload: "t \<le> t' \<Longrightarrow> handle_reload x t' s = Some s' \<Longrightarrow> mode_step x ReloadTurn (t, s) (t', s')"
| edit: "mode_step x (EditTurn f) (t, s) (t, s\<lparr>mo_file := f\<rparr>)"
| elsewhere: "hub_ok h \<Longrightarrow> mode_step x (OtherTurn h) (t, s) (t, s\<lparr>mo_hub := h\<rparr>)"

text \<open>
  The runs in which messages and reloads are handled before the sleep is over, no edit gives two modes
  one id, and nobody else writes the devices of modes.
\<close>

fun undisturbed :: "mode_ext \<Rightarrow> mode_turn \<Rightarrow> timestamp \<Rightarrow> mode_manager \<Rightarrow> timestamp \<Rightarrow> bool" where
  "undisturbed x WakeTurn t s t' \<longleftrightarrow> True"
| "undisturbed x (EditTurn f) t s t' \<longleftrightarrow> file_ok f"
| "undisturbed x (OtherTurn h) t s t' \<longleftrightarrow> (\<forall>m \<in> set (mo_modes s). get_device h (mc_id m) = get_device (mo_hub s) (mc_id m))"
| "undisturbed x _ t s t' \<longleftrightarrow> t' < t + fst (compute_sleep x t (mo_modes s))"

definition undisturbed_step :: "mode_ext \<Rightarrow> timestamp \<times> mode_manager \<Rightarrow> timestamp \<times> mode_manager \<Rightarrow> bool" where
  "undisturbed_step x p q \<longleftrightarrow> (\<exists>e. mode_step x e p q \<and> undisturbed x e (fst p) (snd p) (fst q))"

lemma initial_in_step:
  assumes "hub_ok h" "distinct (map mc_id modes)" "file_ok f" "apply_initial_states x t modes h = Some h'"
  shows "in_step x t \<lparr>mo_hub = h', mo_modes = modes, mo_file = f\<rparr>"
  using initial.pass_ok [OF assms(1,2), of x t] assms
  by (auto simp: in_step_def manager_ok_def mode_follows_def stored_on_of initial_post_def)

lemma flip_mode_ok: "hub_ok h \<Longrightarrow> \<exists>h'. flip_mode x now i b modes h = Some h' \<and> hub_ok h'"
  using write_mode_state_post [of h x now _ b None] by (force simp: flip_mode_def split: option.split)

lemma wake_in_step:
  assumes "manager_ok s" "wake_modes x t nxt s = Some s'"
  shows "in_step x t s'"
proof -
  obtain h1 where h1: "(case nxt of Some (_, i, b) \<Rightarrow> flip_mode x t i b (mo_modes s) (mo_hub s) | None \<Rightarrow> Some (mo_hub s)) = Some h1" "hub_ok h1"
    using that assms(1) flip_mode_ok [of "mo_hub s" x t _ _ "mo_modes s"] by (cases nxt) (fastforce simp: manager_ok_def)+
  then obtain h2 where "apply_initial_states x t (mo_modes s) h1 = Some h2" "s' = s\<lparr>mo_hub := h2\<rparr>"
    using assms(2) by (auto simp: wake_modes_def on_hub_opt_def)
  with h1(2) assms(1) initial_in_step [of h1 "mo_modes s" "mo_file s" x t h2] show ?thesis
    by (simp add: manager_ok_def in_step_def)
qed

text \<open>Before the sleep is over, a device that is not written still agrees with the sun.\<close>

lemma follows_later:
  assumes "steady_zone z x" "in_step x t s" "m \<in> set (mo_modes s)" "t \<le> t'" "t' < t + fst (compute_sleep x t (mo_modes s))"
    and "get_device h (mc_id m) = get_device (mo_hub s) (mc_id m)"
  shows "mode_follows x t' h m"
  using assms solar_state_constant [OF assms(1) _ assms(3) _ _ assms(4,5)]
  by (auto simp: in_step_def mode_follows_def stored_on_of)

lemma new_offsets_id [simp]: "mc_id (new_offsets cmd m) = mc_id m" "mc_kind (new_offsets cmd m) = mc_kind m"
  by (simp_all add: new_offsets_def Let_def split: option.split)

lemma update_first_ids [simp]: "(\<And>m. mc_id (f m) = mc_id m) \<Longrightarrow> map mc_id (update_first i f ms) = map mc_id ms"
  by (induction ms) simp_all

lemma update_first_in:
  "distinct (map mc_id ms) \<Longrightarrow> find (\<lambda>m. mc_id m = i) ms = Some m \<Longrightarrow>
   set (update_first i f ms) \<subseteq> insert (f m) {m' \<in> set ms. mc_id m' \<noteq> i}"
  by (induction ms) (auto simp: image_iff split: if_splits)

text \<open>One device was written: the modes are still in step if the written one is.\<close>

lemma written_in_step:
  assumes "steady_zone z x" "in_step x t s" "t \<le> t'" "t' < t + fst (compute_sleep x t (mo_modes s))"
    and "hub_ok (mo_hub s')" "get_device (mo_hub s') = (get_device (mo_hub s))(i := d)"
    and "distinct (map mc_id (mo_modes s'))" "file_ok (mo_file s')"
    and "\<And>m. m \<in> set (mo_modes s') \<Longrightarrow> mode_follows x t' (mo_hub s') m \<or> m \<in> set (mo_modes s) \<and> mc_id m \<noteq> i"
  shows "in_step x t' s'"
proof -
  have "mode_follows x t' (mo_hub s') m" if "m \<in> set (mo_modes s')" for m
    using assms(9) [OF that]
  proof
    assume "m \<in> set (mo_modes s) \<and> mc_id m \<noteq> i"
    then show ?thesis using assms(6) by (intro follows_later [OF assms(1,2) _ assms(3,4)]) simp_all
  qed
  then show ?thesis using assms(5,7,8) by (simp add: in_step_def manager_ok_def)
qed

lemma manual_in_step:
  assumes "steady_zone z x" "in_step x t s" "t \<le> t'" "t' < t + fst (compute_sleep x t (mo_modes s))"
    and "find (\<lambda>m. mc_id m = i) (mo_modes s) = Some m" "mc_kind m = ManualMode"
    and "write_mode_state x t' m on change (mo_hub s) = Some h"
  shows "in_step x t' (s\<lparr>mo_hub := h\<rparr>)"
proof -
  have ok: "manager_ok s" and m: "m \<in> set (mo_modes s)" "mc_id m = i" using assms(2,5) by (auto simp: in_step_def find_Some_iff)
  obtain d where d: "get_device h = (get_device (mo_hub s))(i := d)" "hub_ok h"
    using write_mode_state_post [of "mo_hub s" x t' m on change] assms(7) m ok by (auto simp: manager_ok_def)
  have "m' = m" if "m' \<in> set (mo_modes s)" "mc_id m' = i" for m'
    using that m ok by (metis manager_ok_def distinct_map inj_onD)
  with d ok assms(6) show ?thesis
    by (intro written_in_step [OF assms(1-4), of _ i d]) (auto simp: manager_ok_def mode_follows_def)
qed

lemma offsets_in_step:
  assumes "steady_zone z x" "in_step x t s" "t \<le> t'" "t' < t + fst (compute_sleep x t (mo_modes s))"
    and "find (\<lambda>m. mc_id m = i) (mo_modes s) = Some m" "ms = update_first i (new_offsets cmd) (mo_modes s)"
    and h: "case solar_window (new_offsets cmd m) of None \<Rightarrow> h = mo_hub s
      | Some w \<Rightarrow> write_mode_state x t' (new_offsets cmd m) (solar_on_now x t' w) change (mo_hub s) = Some h"
  shows "in_step x t' (s\<lparr>mo_modes := ms, mo_file := ModesFile ms, mo_hub := h\<rparr>)"
proof -
  let ?m = "new_offsets cmd m"
  have ok: "manager_ok s" and m: "m \<in> set (mo_modes s)" "mc_id m = i" using assms(2,5) by (auto simp: in_step_def find_Some_iff)
  obtain d where "get_device h = (get_device (mo_hub s))(i := d)" "hub_ok h" "\<forall>w. solar_window ?m = Some w \<longrightarrow> on_of d = solar_on_now x t' w"
  proof (cases "solar_window ?m")
    case None
    then show ?thesis using that [of "get_device (mo_hub s) i"] h ok by (simp add: manager_ok_def)
  next
    case (Some w)
    then show ?thesis
      using that h ok m write_mode_state_post [of "mo_hub s" x t' ?m "solar_on_now x t' w" change] by (auto simp: manager_ok_def)
  qed
  moreover from this have "mode_follows x t' h ?m" using m by (simp add: mode_follows_def stored_on_of)
  moreover have "m' = ?m \<or> m' \<in> set (mo_modes s) \<and> mc_id m' \<noteq> i" if "m' \<in> set ms" for m'
    using update_first_in [OF _ assms(5), of "new_offsets cmd"] ok that assms(6) by (auto simp: manager_ok_def)
  ultimately show ?thesis
    using ok assms(6) by (intro written_in_step [OF assms(1-4), of _ i d])
      (auto simp: manager_ok_def file_ok_def load_or_none_def load_modes_def)
qed

lemma command_in_step:
  assumes "steady_zone z x" "in_step x t s" "t \<le> t'" "t' < t + fst (compute_sleep x t (mo_modes s))"
    and "handle_mode_cmd x t' i cmd s = Some s'"
  shows "in_step x t' s'"
proof -
  have same: "in_step x t' s" using follows_later [OF assms(1,2) _ assms(3,4)] assms(2) by (simp add: in_step_def)
  show ?thesis
  proof (cases "find (\<lambda>m. mc_id m = i) (mo_modes s)")
    case (Some m)
    note parts = manual_in_step [OF assms(1-4) Some] offsets_in_step [OF assms(1-4) Some refl]
    show ?thesis
      using assms(5) same Some parts(1) parts(2) [of "mo_hub s" cmd] parts(2) [of _ cmd]
      by (cases "mc_kind m") (auto simp: handle_mode_cmd_def on_hub_opt_def Let_def split: option.splits if_splits)
  qed (use assms(5) same in \<open>simp add: handle_mode_cmd_def\<close>)
qed

lemma drop_modes_ok:
  "hub_ok h \<Longrightarrow> hub_ok (drop_modes old new h) \<and> (\<forall>i. has_mode i new \<longrightarrow> get_device (drop_modes old new h) i = get_device h i)"
  by (induction old arbitrary: h) (auto simp: drop_modes_def reg.wf_remove)

lemma has_mode_set: "has_mode i ms \<longleftrightarrow> i \<in> mc_id ` set ms"
  by (auto simp: has_mode_def list_ex_iff)

lemma reload_in_step:
  assumes "steady_zone z x" "in_step x t s" "t \<le> t'" "t' < t + fst (compute_sleep x t (mo_modes s))"
    and "handle_reload x t' s = Some s'"
  shows "in_step x t' s'"
proof (cases "load_modes (mo_file s)")
  case (Inl e)
  then show ?thesis using assms follows_later [OF assms(1,2) _ assms(3,4)] by (simp add: handle_reload_def in_step_def)
next
  case (Inr new)
  let ?h = "drop_modes (mo_modes s) new (mo_hub s)"
  have ok: "hub_ok (mo_hub s)" "distinct (map mc_id new)" "file_ok (mo_file s)"
    using assms(2) Inr by (simp_all add: in_step_def manager_ok_def file_ok_def load_or_none_def)
  have h: "hub_ok ?h" and keeps: "\<And>i. has_mode i new \<Longrightarrow> get_device ?h i = get_device (mo_hub s) i"
    using drop_modes_ok [OF ok(1)] by blast+
  obtain h' where h': "reload_modes x t' (mo_modes s) new ?h = Some h'" "hub_ok h'"
    and post: "\<And>m. m \<in> set new \<Longrightarrow> reload_post x t' (mo_modes s) m (get_device ?h (mc_id m)) (get_device h' (mc_id m))"
    using reload.pass_ok [OF h ok(2), of x t' "mo_modes s"] by blast
  have "mode_follows x t' h' m" if m: "m \<in> set new" for m
  proof (cases "has_mode (mc_id m) (mo_modes s) \<and> \<not> list_ex (\<lambda>p. mc_id p = mc_id m \<and> p \<noteq> m) (mo_modes s)")
    case True
    then have "m \<in> set (mo_modes s)" by (auto simp: has_mode_def list_ex_iff)
    moreover have "get_device h' (mc_id m) = get_device (mo_hub s) (mc_id m)"
      using post [OF m] True keeps [of "mc_id m"] m by (simp add: reload_post_def has_mode_set)
    ultimately show ?thesis by (intro follows_later [OF assms(1,2) _ assms(3,4)])
  next
    case False
    then show ?thesis using post [OF m] unfolding reload_post_def if_not_P [OF False]
      by (auto simp: mode_follows_def stored_on_of)
  qed
  with assms(5) Inr h' ok show ?thesis by (auto simp: handle_reload_def in_step_def manager_ok_def)
qed

lemma mode_step_in_step:
  assumes "steady_zone z x" "mode_step x e (t, s) (t', s')" "undisturbed x e t s t'" "in_step x t s"
  shows "in_step x t' s'"
  using assms(2)
proof (cases rule: mode_step.cases)
  case (wake d nxt)
  then show ?thesis using assms(4) by (intro wake_in_step) (simp_all add: in_step_def)
next
  case (message topic payload)
  have soon: "t' < t + fst (compute_sleep x t (mo_modes s))" using assms(3) message(1) by simp
  have "in_step x t' s" using follows_later [OF assms(1,4) _ message(2) soon] assms(4) by (simp add: in_step_def)
  with message(3) command_in_step [OF assms(1,4) message(2) soon] show ?thesis
    by (auto simp: mode_message_def split: option.splits)
next
  case reload
  then show ?thesis using reload_in_step [OF assms(1,4)] assms(3) by simp
next
  case (edit f)
  then show ?thesis using assms(3,4) by (simp add: in_step_def manager_ok_def)
next
  case (elsewhere h)
  then show ?thesis using assms(3,4) by (simp add: in_step_def manager_ok_def mode_follows_def stored_on_of)
qed

lemma default_file_ok: "file_ok f \<Longrightarrow> file_ok (ensure_default_modes f)"
  by (auto simp: file_ok_def ensure_default_modes_def Let_def load_or_none_def load_modes_def has_mode_set
      default_mode_day_def default_mode_night_def)

lemma start_in_step:
  assumes "hub_ok h" "file_ok f" "start_modes x t f h = Some s"
  shows "in_step x t s"
  using assms initial_in_step [OF assms(1) _ default_file_ok [OF assms(2)], of "load_or_none (ensure_default_modes f)" x t]
    default_file_ok [OF assms(2)]
  by (auto simp: start_modes_def Let_def file_ok_def)

lemma run_in_step:
  assumes "steps (undisturbed_step x) (t0, s0) ts" "steady_zone z x" "in_step x t0 s0"
  shows "in_step x (fst ts) (snd ts)"
  using assms(1)
proof (induction "(t0, s0)" ts rule: steps.induct)
  case (steps_step p q)
  then show ?case
    using mode_step_in_step [OF assms(2), of _ "fst p" "snd p" "fst q" "snd q"] by (auto simp: undisturbed_step_def)
qed (use assms(3) in simp)

text \<open>
  C34. Solar modes follow the sun, in a zone whose offset does not change and where each of the two edges of a
  mode's window comes every day, in the same order. From the start of the manager on, through any sequence of wakes
  (late ones too) and of commands, reloads, edits of the file and changes of other devices, the stored state of every solar
  mode is what the sun's position calls for, at the moment the manager last did something and at every
  later moment before the end of the sleep it then computed: provided that commands and reloads are
  handled before that end and not between it and the wake, that edits give no two modes one id, and that
  nobody but the manager writes the devices of modes.
\<close>

theorem modes_follow_the_sun:
  assumes "steady_zone z x" "hub_ok h" "file_ok f" "start_modes x t0 f h = Some s0"
    and "steps (undisturbed_step x) (t0, s0) (t, s)"
    and "m \<in> set (mo_modes s)" "mc_kind m = SolarMode" "solar_window m = Some w" "steady_window x w"
    and "t \<le> u" "u < t + fst (compute_sleep x t (mo_modes s))"
  shows "stored_on (mo_hub s) (mc_id m) = solar_on_now x u w"
proof -
  have "in_step x t s" using run_in_step [OF assms(5,1) start_in_step [OF assms(2-4)]] by simp
  then have "mode_follows x u (mo_hub s) m" by (rule follows_later [OF assms(1) _ assms(6,10,11) refl])
  then show ?thesis using assms(7-9) by (simp add: mode_follows_def)
qed

text \<open>The manager always starts, and every turn ends.\<close>

lemma start_modes_total:
  assumes "hub_ok h" "file_ok f"
  shows "\<exists>s. start_modes x t f h = Some s"
  using initial.pass_ok [OF assms(1), of "load_or_none (ensure_default_modes f)" x t] default_file_ok [OF assms(2)]
  by (auto simp: start_modes_def Let_def file_ok_def)

lemma wake_total:
  assumes "manager_ok s"
  shows "\<exists>s'. wake_modes x t nxt s = Some s'"
proof -
  obtain h1 where "(case nxt of Some (_, i, b) \<Rightarrow> flip_mode x t i b (mo_modes s) (mo_hub s) | None \<Rightarrow> Some (mo_hub s)) = Some h1" "hub_ok h1"
    using that assms flip_mode_ok [of "mo_hub s" x t _ _ "mo_modes s"] by (cases nxt) (fastforce simp: manager_ok_def)+
  then show ?thesis
    using initial.pass_ok [of h1 "mo_modes s" x t] assms by (auto simp: wake_modes_def on_hub_opt_def manager_ok_def)
qed

lemma message_total: "manager_ok s \<Longrightarrow> \<exists>s'. mode_message x t topic payload s = Some s'"
  by (auto simp: mode_message_def handle_mode_cmd_def on_hub_opt_def manager_ok_def Let_def write_total split: option.split)

lemma reload_total:
  assumes "manager_ok s"
  shows "\<exists>s'. handle_reload x t s = Some s'"
proof (cases "load_modes (mo_file s)")
  case (Inr new)
  have "hub_ok (drop_modes (mo_modes s) new (mo_hub s))" "distinct (map mc_id new)"
    using assms drop_modes_ok Inr by (auto simp: manager_ok_def file_ok_def load_or_none_def)
  from reload.pass_ok [OF this, of x t "mo_modes s"] Inr show ?thesis by (auto simp: handle_reload_def)
qed (simp add: handle_reload_def)

subsection \<open>What is missed\<close>

lemma reload_pass_same: "set ms \<subseteq> set old \<Longrightarrow> distinct (map mc_id old) \<Longrightarrow> reload_modes x t old ms h = Some h"
proof (induction ms)
  case (Cons m ms)
  have "has_mode (mc_id m) old" using Cons.prems by (auto simp: has_mode_set)
  moreover have "\<not> list_ex (\<lambda>p. mc_id p = mc_id m \<and> p \<noteq> m) old"
    using Cons.prems by (auto simp: list_ex_iff distinct_map dest: inj_onD)
  ultimately show ?case using Cons by (simp add: reload_mode_def Let_def)
qed simp

lemma reload_same:
  assumes "load_modes (mo_file s) = Inr (mo_modes s)" "distinct (map mc_id (mo_modes s))"
  shows "handle_reload x t s = Some s"
proof -
  have "drop_modes old new h = h" if "set old \<subseteq> set new" for old new and h :: hub
    using that unfolding drop_modes_def by (induction old) (auto simp: has_mode_set)
  then show ?thesis using assms reload_pass_same by (simp add: handle_reload_def)
qed

text \<open>
  C35. A transition that passes while a reload waits is missed. If the file is touched without a change
  and the wait before the reload ends after the transition the manager was sleeping for, the reload
  changes nothing, the new sleep does not know of the transition, and the stored state of a mode that
  should have changed is wrong until that sleep is over.
\<close>

theorem reload_misses_transition:
  assumes "steady_zone z x" "in_step x t s" "load_modes (mo_file s) = Inr (mo_modes s)"
    and "m \<in> set (mo_modes s)" "mc_kind m = SolarMode" "solar_window m = Some w" "steady_window x w"
    and "t + fst (compute_sleep x t (mo_modes s)) \<le> t'" "solar_on_now x t' w \<noteq> solar_on_now x t w"
    and "t' \<le> u" "u < t' + fst (compute_sleep x t' (mo_modes s))"
  shows "handle_reload x t' s = Some s \<and> stored_on (mo_hub s) (mc_id m) \<noteq> solar_on_now x u w"
proof
  show "handle_reload x t' s = Some s"
    using assms(2,3) by (intro reload_same) (simp_all add: in_step_def manager_ok_def)
  have "stored_on (mo_hub s) (mc_id m) = solar_on_now x t w"
    using assms(2,4-7) unfolding in_step_def mode_follows_def by blast
  moreover have "solar_on_now x u w = solar_on_now x t' w"
    using assms(1,7,4-6,10,11) by (rule solar_state_constant)
  ultimately show "stored_on (mo_hub s) (mc_id m) \<noteq> solar_on_now x u w" using assms(9) by simp
qed

text \<open>
  A mode added to the file is lost if the offsets of a solar mode are set before the manager has
  reloaded the file: the command writes the manager's own list.
\<close>

theorem offset_command_drops_new_mode:
  assumes "manager_ok s" "append_mode new (mo_file s) = Inr f" "\<not> has_mode (mc_id new) (mo_modes s)"
    and "find (\<lambda>m. mc_id m = i) (mo_modes s) = Some m" "mc_kind m = SolarMode" "offsets_given cmd"
  shows "has_mode (mc_id new) (load_or_none f)
    \<and> (\<exists>s'. handle_mode_cmd x t i cmd (s\<lparr>mo_file := f\<rparr>) = Some s' \<and> \<not> has_mode (mc_id new) (load_or_none (mo_file s')))"
proof -
  let ?ms = "update_first i (new_offsets cmd) (mo_modes s)"
  have lost: "\<not> has_mode (mc_id new) (load_or_none (ModesFile ?ms))"
    using assms(3) update_first_ids [of "new_offsets cmd" i "mo_modes s"]
    by (simp add: has_mode_set load_or_none_def load_modes_def flip: set_map)
  have "\<exists>h. write_mode_state x t (new_offsets cmd m) on change (mo_hub s) = Some h" for on change
    using assms(1) by (simp add: write_total manager_ok_def)
  then have "\<exists>s'. handle_mode_cmd x t i cmd (s\<lparr>mo_file := f\<rparr>) = Some s' \<and> mo_file s' = ModesFile ?ms"
    using assms(4-6) by (fastforce simp: handle_mode_cmd_def on_hub_opt_def Let_def split: option.split)
  moreover have "has_mode (mc_id new) (load_or_none f)"
    using assms(2) by (auto simp: append_mode_def has_mode_set Let_def load_or_none_def load_modes_def split: if_splits)
  ultimately show ?thesis using lost by auto
qed

lemma broken_file_replaced:
  "ensure_default_modes (ModesBroken e) = ModesFile [default_mode_night, default_mode_day]"
  "append_mode m (ModesBroken e) = Inr (ModesFile [m])"
  by (simp_all add: ensure_default_modes_def append_mode_def load_or_none_def load_modes_def has_mode_def
      default_mode_day_def MODE_DAY_ID_def MODE_NIGHT_ID_def)

subsection \<open>Day and night\<close>

lemma day_xor_night:
  assumes "steady_zone z x" "edge_times x \<lparr>se_event = Sunrise, se_offset_minutes = 0\<rparr> f" "edge_times x \<lparr>se_event = Sunset, se_offset_minutes = 0\<rparr> g"
    and "\<And>d. f d \<noteq> g d" "solar_window default_mode_day = Some wd" "solar_window default_mode_night = Some wn"
  shows "solar_on_now x t wd = (\<not> solar_on_now x t wn)"
proof -
  have w: "wd = (\<lparr>se_event = Sunrise, se_offset_minutes = 0\<rparr>, \<lparr>se_event = Sunset, se_offset_minutes = 0\<rparr>)"
    "wn = (\<lparr>se_event = Sunset, se_offset_minutes = 0\<rparr>, \<lparr>se_event = Sunrise, se_offset_minutes = 0\<rparr>)"
    using assms(5,6) by (simp_all add: solar_window_def default_mode_day_def default_mode_night_def)
  have "solar_on_now x t wd = window_on f g (t + z * 60000000000)" "solar_on_now x t wn = window_on g f (t + z * 60000000000)"
    unfolding w using assms(2,3) by (intro solar_on_window [OF assms(1)]; simp)+
  with assms(4) [of "(t + z * 60000000000) div day_ns"] show ?thesis by (auto simp: window_on_def Let_def)
qed

subsection \<open>A day with two modes\<close>

text \<open>A sun that rises at six and sets at six.\<close>

definition sample_mode_ext :: mode_ext where
  "sample_mode_ext =
     \<lparr>mx_sched = sample_sched_ext\<lparr>sx_solar_event_time := (\<lambda>_ _ e _. Some (if e = Sunset then from_hm 18 0 else from_hm 6 0))\<rparr>,
      mx_timer = gx sample_glue,
      mx_instant = (\<lambda>d t. Some (d * day_ns + int t - 120 * 60000000000))\<rparr>"

abbreviation day_window :: "solar_edge \<times> solar_edge" where
  "day_window \<equiv> (\<lparr>se_event = Sunrise, se_offset_minutes = 0\<rparr>, \<lparr>se_event = Sunset, se_offset_minutes = 0\<rparr>)"

abbreviation local_hour :: "int \<Rightarrow> timestamp" where
  "local_hour n \<equiv> n * 3600000000000 - 120 * 60000000000"

lemma sample_steady: "steady_zone 120 sample_mode_ext" "steady_window sample_mode_ext w"
proof -
  show "steady_zone 120 sample_mode_ext" using sample_zone by (simp add: steady_zone_def sample_mode_ext_def fixed_zone_def)
  have "edge_times sample_mode_ext e (\<lambda>_. if se_event e = Sunset then from_hm 18 0 else from_hm 6 0)" for e
    by (simp add: edge_times_def sample_mode_ext_def from_hm_def)
  then show "steady_window sample_mode_ext w" unfolding steady_window_def by blast
qed

lemma sample_day_window: "solar_window default_mode_day = Some day_window"
  by (simp add: solar_window_def default_mode_day_def)

lemma missing_modes: "file_ok ModesMissing" "load_or_none (ensure_default_modes ModesMissing) = [default_mode_night, default_mode_day]"
  "ensure_default_modes ModesMissing = ModesFile [default_mode_night, default_mode_day]"
  by (simp_all add: file_ok_def ensure_default_modes_def load_or_none_def load_modes_def has_mode_def default_mode_day_def
      MODE_DAY_ID_def MODE_NIGHT_ID_def)

lemma sample_on: "solar_on_now sample_mode_ext t day_window = window_on (\<lambda>_. from_hm 6 0) (\<lambda>_. from_hm 18 0) (t + 120 * 60000000000)"
  by (rule solar_on_window [OF sample_steady(1)]) (simp_all add: edge_times_def sample_mode_ext_def from_hm_def)

lemma sample_times:
  "solar_on_now sample_mode_ext (local_hour 12) day_window" "solar_on_now sample_mode_ext (local_hour 13) day_window"
  "\<not> solar_on_now sample_mode_ext (local_hour 19) day_window" "\<not> solar_on_now sample_mode_ext (local_hour 20) day_window"
  "\<not> solar_on_now sample_mode_ext (local_hour 29) day_window"
  by (simp_all add: sample_on window_on_def from_hm_def)

lemma sample_sleeps:
  "fst (compute_sleep sample_mode_ext (local_hour 12) [default_mode_night, default_mode_day]) = 6 * 3600000000000"
  "fst (compute_sleep sample_mode_ext (local_hour 19) [default_mode_night, default_mode_day]) = 11 * 3600000000000"
  by (simp_all add: compute_sleep_def next_solar_transition_def mode_candidates_def edge_candidates_def sample_mode_ext_def
      sample_sched_ext_def from_hm_def solar_window_def default_mode_day_def default_mode_night_def sort_key_def)

lemma empty_hub_ok: "hub_ok empty_hub"
  by (simp add: hub_ok_def empty_hub_def)

lemma sample_start:
  obtains s0 where "start_modes sample_mode_ext (local_hour 12) ModesMissing empty_hub = Some s0"
    "mo_modes s0 = [default_mode_night, default_mode_day]" "mo_file s0 = ModesFile [default_mode_night, default_mode_day]"
  using start_modes_total [OF empty_hub_ok missing_modes(1), of sample_mode_ext "local_hour 12"]
  by (auto simp: start_modes_def Let_def missing_modes(3) load_or_none_def load_modes_def)

theorem modes_follow_the_sun_witness:
  "\<exists>s0 s. start_modes sample_mode_ext (local_hour 12) ModesMissing empty_hub = Some s0
     \<and> mode_step sample_mode_ext WakeTurn (local_hour 12, s0) (local_hour 19, s)
     \<and> \<not> stored_on (mo_hub s) MODE_DAY_ID \<and> stored_on (mo_hub s0) MODE_DAY_ID"
proof -
  let ?x = sample_mode_ext
  obtain s0 where s0: "start_modes ?x (local_hour 12) ModesMissing empty_hub = Some s0"
    "mo_modes s0 = [default_mode_night, default_mode_day]" by (rule sample_start)
  have "manager_ok s0" using start_in_step [OF empty_hub_ok missing_modes(1) s0(1)] by (simp add: in_step_def)
  then obtain s where s: "wake_modes ?x (local_hour 19) (snd (compute_sleep ?x (local_hour 12) (mo_modes s0))) s0 = Some s"
    using wake_total by blast
  have st: "mode_step ?x WakeTurn (local_hour 12, s0) (local_hour 19, s)"
    using s sample_sleeps(1) s0(2) by (intro mode_step.wake [where d = "6 * 3600000000000"]) (auto simp: prod_eq_iff)
  have ms: "mo_modes s = mo_modes s0" using s by (auto simp: wake_modes_def on_hub_opt_def)
  have "undisturbed_step ?x (local_hour 12, s0) (local_hour 19, s)"
    unfolding undisturbed_step_def by (rule exI [of _ WakeTurn]) (use st in simp)
  then have run: "steps (undisturbed_step ?x) (local_hour 12, s0) (local_hour 19, s)" by (rule steps_step [OF steps_refl])
  have follow: "stored_on (mo_hub s') MODE_DAY_ID = solar_on_now ?x u day_window"
    if "steps (undisturbed_step ?x) (local_hour 12, s0) (t, s')" "mo_modes s' = mo_modes s0" "t \<le> u"
      "u < t + fst (compute_sleep ?x t [default_mode_night, default_mode_day])" for t s' u
    using modes_follow_the_sun [OF sample_steady(1) empty_hub_ok missing_modes(1) s0(1) that(1), of default_mode_day day_window u]
      that sample_steady(2) sample_day_window s0(2) by (simp add: default_mode_day_def)
  have "stored_on (mo_hub s) MODE_DAY_ID = solar_on_now ?x (local_hour 20) day_window"
    using sample_sleeps(2) ms by (intro follow [OF run]) simp_all
  moreover have "stored_on (mo_hub s0) MODE_DAY_ID = solar_on_now ?x (local_hour 13) day_window"
    using sample_sleeps(1) by (intro follow [OF steps_refl]) simp_all
  ultimately show ?thesis using s0(1) st sample_times by blast
qed

theorem reload_misses_transition_witness:
  "\<exists>s. start_modes sample_mode_ext (local_hour 12) ModesMissing empty_hub = Some s
     \<and> handle_reload sample_mode_ext (local_hour 19) s = Some s \<and> stored_on (mo_hub s) MODE_DAY_ID"
proof -
  let ?x = sample_mode_ext
  obtain s where s: "start_modes ?x (local_hour 12) ModesMissing empty_hub = Some s"
    "mo_modes s = [default_mode_night, default_mode_day]" "mo_file s = ModesFile [default_mode_night, default_mode_day]" by (rule sample_start)
  have "handle_reload ?x (local_hour 19) s = Some s \<and> stored_on (mo_hub s) (mc_id default_mode_day) \<noteq> solar_on_now ?x (local_hour 29) day_window"
    using s sample_times sample_sleeps sample_day_window
    by (intro reload_misses_transition [OF sample_steady(1) start_in_step [OF empty_hub_ok missing_modes(1) s(1)], where m = default_mode_day])
      (simp_all add: sample_steady(2) load_modes_def default_mode_day_def)
  with sample_times s(1) show ?thesis by (simp add: default_mode_day_def)
qed

definition away_mode :: mode_config where
  "away_mode = default_mode_day\<lparr>mc_id := ''mode_away'', mc_kind := ManualMode\<rparr>"

theorem offset_command_drops_new_mode_witness:
  "\<exists>s f s'. start_modes sample_mode_ext (local_hour 12) ModesMissing empty_hub = Some s \<and> append_mode away_mode (mo_file s) = Inr f
     \<and> handle_mode_cmd sample_mode_ext (local_hour 13) MODE_DAY_ID (JObj [(''on_offset_minutes'', json_int 10)]) (s\<lparr>mo_file := f\<rparr>) = Some s'
     \<and> has_mode ''mode_away'' (load_or_none f) \<and> \<not> has_mode ''mode_away'' (load_or_none (mo_file s'))"
proof -
  let ?x = sample_mode_ext
  obtain s where s: "start_modes ?x (local_hour 12) ModesMissing empty_hub = Some s"
    "mo_modes s = [default_mode_night, default_mode_day]" "mo_file s = ModesFile [default_mode_night, default_mode_day]" by (rule sample_start)
  have ok: "manager_ok s" using start_in_step [OF empty_hub_ok missing_modes(1) s(1)] by (simp add: in_step_def)
  have ids: "mc_id default_mode_day = ''mode_day''" "mc_id default_mode_night = ''mode_night''" "mc_id away_mode = ''mode_away''"
    "mc_kind default_mode_day = SolarMode"
    by (simp_all add: default_mode_day_def default_mode_night_def away_mode_def MODE_DAY_ID_def MODE_NIGHT_ID_def)
  have f: "append_mode away_mode (mo_file s) = Inr (ModesFile [default_mode_night, default_mode_day, away_mode])"
    by (simp add: append_mode_def s load_or_none_def load_modes_def has_mode_def ids)
  have "offsets_given (JObj [(''on_offset_minutes'', json_int 10)])" by (simp add: offsets_given_def as_i64_json_int)
  from offset_command_drops_new_mode [OF ok f _ _ _ this, of MODE_DAY_ID default_mode_day ?x "local_hour 13"] f s(1)
  show ?thesis by (auto simp: s(2) has_mode_def ids MODE_DAY_ID_def)
qed

end
