(* ===== verification/Thermostat_Config.thy ===== *)
theory Thermostat_Config
  imports Topic_Map
begin

text \<open>
  The thermostat plugin (\<open>plugins/hc-thermostat\<close>): its entries, what is wrong with them, and the file
  (\<open>config.rs\<close>), and the arithmetic of control (\<open>control.rs\<close>). The file is the list of its tables,
  each read by the TOML parser into an entry or an error text; a value's number texts, Unicode case
  and time texts are parameters.
\<close>

subsection \<open>Kinds\<close>

datatype thermo_kind = Ac | Heater | Fan

definition kind_parse :: "string \<Rightarrow> thermo_kind option" where
  "kind_parse s = (if s = ''ac'' then Some Ac else if s = ''heater'' then Some Heater else if s = ''fan'' then Some Fan else None)"

definition kind_as_str :: "thermo_kind \<Rightarrow> string" where
  "kind_as_str k = (case k of Ac \<Rightarrow> ''ac'' | Heater \<Rightarrow> ''heater'' | Fan \<Rightarrow> ''fan'')"

definition kind_modes :: "thermo_kind \<Rightarrow> string list" where
  "kind_modes k = (case k of Heater \<Rightarrow> [''heat'', ''off''] | Ac \<Rightarrow> [''cool'', ''off''] | Fan \<Rightarrow> [''cool'', ''off''])"

definition active_mode :: "thermo_kind \<Rightarrow> string" where
  "active_mode k = hd (kind_modes k)"

definition kind_only :: "thermo_kind \<Rightarrow> string" where
  "kind_only k =
     (case k of Ac \<Rightarrow> ''An AC only cools'' | Heater \<Rightarrow> ''A heater only heats'' | Fan \<Rightarrow> ''A fan only runs when it is too warm'')"

definition default_guards :: "thermo_kind \<Rightarrow> nat \<times> nat" where
  "default_guards k = (case k of Ac \<Rightarrow> (180, 300) | Heater \<Rightarrow> (120, 120) | Fan \<Rightarrow> (60, 60))"

definition default_hysteresis :: "thermo_kind \<Rightarrow> f64" where
  "default_hysteresis k = (case k of Fan \<Rightarrow> Fin 2 | Ac \<Rightarrow> Fin 1 | Heater \<Rightarrow> Fin 1)"

definition default_max_run_secs :: "thermo_kind \<Rightarrow> nat" where
  "default_max_run_secs k = (case k of Heater \<Rightarrow> 4 * 3600 | Ac \<Rightarrow> 0 | Fan \<Rightarrow> 0)"

definition MAX_HYSTERESIS :: f64 where
  "MAX_HYSTERESIS = Fin 5"

definition MAX_GUARD_SECS :: nat where
  "MAX_GUARD_SECS = 3600"

definition MAX_RUN_LIMIT_SECS :: nat where
  "MAX_RUN_LIMIT_SECS = 24 * 3600"

definition MIN_SENSOR_TIMEOUT_SECS :: nat where
  "MIN_SENSOR_TIMEOUT_SECS = 60"

definition MAX_SENSOR_TIMEOUT_SECS :: nat where
  "MAX_SENSOR_TIMEOUT_SECS = 24 * 3600"

definition DEFAULT_SENSOR_TIMEOUT_SECS :: nat where
  "DEFAULT_SENSOR_TIMEOUT_SECS = 2 * 3600"

definition MAX_OVERRIDE_SECS :: nat where
  "MAX_OVERRIDE_SECS = 24 * 3600"

definition DEFAULT_OVERRIDE_SECS :: nat where
  "DEFAULT_OVERRIDE_SECS = 3600"

subsection \<open>Entries\<close>

record thermostat_entry =
  te_id :: string
  te_name :: string
  te_sensor_device_ids :: "string list"
  te_sensor_attribute :: string
  te_aggregation :: string
  te_setpoint :: f64
  te_hysteresis :: f64
  te_mode :: string
  te_kind :: "string option"
  te_actuator_device_id :: string
  te_actuator_on_cmd :: "json option"
  te_actuator_off_cmd :: "json option"
  te_min_on_secs :: nat
  te_min_off_secs :: nat
  te_max_run_secs :: "nat option"
  te_sensor_timeout_secs :: "nat option"
  te_on_stale :: "string option"
  te_override_secs :: "nat option"

definition kind_of :: "thermostat_entry \<Rightarrow> thermo_kind" where
  "kind_of e = unwrap_or (Option.bind (te_kind e) kind_parse) (if te_mode e = ''heat'' then Heater else Ac)"

definition sensor_timeout_secs :: "thermostat_entry \<Rightarrow> nat" where
  "sensor_timeout_secs e =
     min (max (unwrap_or (te_sensor_timeout_secs e) DEFAULT_SENSOR_TIMEOUT_SECS) MIN_SENSOR_TIMEOUT_SECS) MAX_SENSOR_TIMEOUT_SECS"

definition max_run_secs :: "thermostat_entry \<Rightarrow> nat" where
  "max_run_secs e = min (unwrap_or (te_max_run_secs e) (default_max_run_secs (kind_of e))) MAX_RUN_LIMIT_SECS"

definition override_secs :: "thermostat_entry \<Rightarrow> nat" where
  "override_secs e = min (unwrap_or (te_override_secs e) DEFAULT_OVERRIDE_SECS) MAX_OVERRIDE_SECS"

definition off_when_stale :: "thermostat_entry \<Rightarrow> bool" where
  "off_when_stale e \<longleftrightarrow> te_on_stale e \<noteq> Some ''hold''"

definition thermostat_device_id :: "thermostat_entry \<Rightarrow> string" where
  "thermostat_device_id e = ''thermostat_'' @ te_id e"

record plugin_ext =
  hx_midnight :: "timestamp \<Rightarrow> timestamp"
  hx_clock :: "timestamp \<Rightarrow> string"
  hx_iso :: "timestamp \<Rightarrow> string"
  hx_parse_time :: "string \<Rightarrow> timestamp option"
  hx_show_f64 :: "f64 \<Rightarrow> string"
  hx_lower :: "string \<Rightarrow> string"
  hx_entry_of_json :: "json \<Rightarrow> thermostat_entry option"
  hx_hash_order :: "string list \<Rightarrow> string list"

text \<open>Characters outside ASCII in the plugin's texts.\<close>

definition degree :: string where
  "degree = [CHR 0xC2, CHR 0xB0]"

definition em_dash :: string where
  "em_dash = [CHR 0xE2, CHR 0x80, CHR 0x94]"

definition en_dash :: string where
  "en_dash = [CHR 0xE2, CHR 0x80, CHR 0x93]"

definition in_marks :: "string \<Rightarrow> string" where
  "in_marks s = [CHR 0xE2, CHR 0x80, CHR 0x9C] @ s @ [CHR 0xE2, CHR 0x80, CHR 0x9D]"

definition dquoted :: "string \<Rightarrow> string" where
  "dquoted s = [CHR 0x22] @ s @ [CHR 0x22]"

definition cap :: "plugin_ext \<Rightarrow> thermostat_entry \<Rightarrow> thermostat_entry \<times> string list" where
  "cap x e =
     (let (e1, s1) = (if f64_lt MAX_HYSTERESIS (te_hysteresis e)
            then (e\<lparr>te_hysteresis := MAX_HYSTERESIS\<rparr>,
                  [''swing '' @ hx_show_f64 x (te_hysteresis e) @ '' '' @ degree @ ''C is more than '' @ hx_show_f64 x MAX_HYSTERESIS @ '' '' @ degree @ ''C''])
            else (e, []));
          too_long = (\<lambda>name v. name @ '' '' @ show_nat v @ '' s is more than '' @ show_nat MAX_GUARD_SECS @ '' s'');
          (e2, s2) = (if MAX_GUARD_SECS < te_min_on_secs e1
            then (e1\<lparr>te_min_on_secs := MAX_GUARD_SECS\<rparr>, [too_long ''minimum on'' (te_min_on_secs e1)]) else (e1, []));
          (e3, s3) = (if MAX_GUARD_SECS < te_min_off_secs e2
            then (e2\<lparr>te_min_off_secs := MAX_GUARD_SECS\<rparr>, [too_long ''minimum off'' (te_min_off_secs e2)]) else (e2, [])) in
      (e3, s1 @ s2 @ s3))"

subsection \<open>What is wrong with an entry\<close>

record setpoint_fix =
  sf_fahrenheit :: f64
  sf_celsius :: f64

record problem =
  pr_message :: string
  pr_fix :: "setpoint_fix option"

definition in_f64_range :: "rat \<Rightarrow> rat \<Rightarrow> f64 \<Rightarrow> bool" where
  "in_f64_range lo hi v \<longleftrightarrow> f64_le (Fin lo) v \<and> f64_le v (Fin hi)"

definition f_to_c_half :: "f64 \<Rightarrow> f64" where
  "f_to_c_half f = f64_over (f64_round (f64_times (f64_over (f64_times (f64_op (-) f (Fin 32)) 5) 9) 2)) 2"

definition setpoint_problem :: "plugin_ext \<Rightarrow> f64 \<Rightarrow> problem option" where
  "setpoint_problem x v =
     (let s = hx_show_f64 x v in
      if in_f64_range (- 40) 45 v then None
      else if in_f64_range 46 110 v then
        let c = f_to_c_half v in
        Some \<lparr>pr_message = ''its target is '' @ s @ '', which looks like '' @ degree @ ''F ('' @ s @ '' '' @ degree @ ''F is '' @ hx_show_f64 x c @ '' '' @ degree
                @ ''C) '' @ em_dash @ '' thermostats keep '' @ degree @ ''C, and '' @ s @ '' '' @ degree @ ''C would run without end'',
              pr_fix = Some \<lparr>sf_fahrenheit = v, sf_celsius = c\<rparr>\<rparr>
      else Some \<lparr>pr_message = ''its target '' @ s @ '' is outside '' @ hx_show_f64 x (Fin (- 40)) @ en_dash @ hx_show_f64 x (Fin 45) @ '' '' @ degree @ ''C'',
                 pr_fix = None\<rparr>)"

definition ascii_alnum :: "char \<Rightarrow> bool" where
  "ascii_alnum c \<longleftrightarrow> 48 \<le> byte c \<and> byte c \<le> 57 \<or> 65 \<le> byte c \<and> byte c \<le> 90 \<or> 97 \<le> byte c \<and> byte c \<le> 122"

definition id_problem :: "string \<Rightarrow> string option" where
  "id_problem i =
     (if i = [] then Some ''it has no id''
      else if \<not> list_all (\<lambda>c. ascii_alnum c \<or> c = CHR ''_'' \<or> c = CHR ''-'') i
           then Some (''its id '' @ dquoted i @ '' may hold only letters, digits, _ and - (no spaces, / + or #)'')
      else None)"

definition entry_problem :: "plugin_ext \<Rightarrow> thermostat_entry \<Rightarrow> problem option" where
  "entry_problem x e =
     (let say = (\<lambda>s. Some \<lparr>pr_message = s, pr_fix = None\<rparr>); kind = kind_of e in
      case id_problem (te_id e) of Some p \<Rightarrow> say p | None \<Rightarrow>
      if (case te_kind e of Some k \<Rightarrow> kind_parse k = None | None \<Rightarrow> False)
        then say (''kind must be ac, heater or fan (got '' @ the (te_kind e) @ '')'')
      else if te_mode e \<notin> set [''heat'', ''cool'', ''off''] then say (''mode must be heat, cool or off (got '' @ te_mode e @ '')'')
      else if te_mode e \<notin> set (kind_modes kind)
        then say (kind_only kind @ '' '' @ em_dash @ '' mode '' @ te_mode e @ '' isn't one it has ('' @ join_with '' or '' (kind_modes kind) @ '')'')
      else if te_aggregation e \<notin> set [''average'', ''min'', ''max'']
        then say (''aggregation must be average, min or max (got '' @ te_aggregation e @ '')'')
      else if f64_lt (te_hysteresis e) (Fin 0) \<or> \<not> is_finite (te_hysteresis e) then say ''the swing (hysteresis) must be 0 or more''
      else if te_on_stale e \<notin> {None, Some ''off'', Some ''hold''} then say (''on_stale must be off or hold (got '' @ the (te_on_stale e) @ '')'')
      else case setpoint_problem x (te_setpoint e) of Some p \<Rightarrow> Some p | None \<Rightarrow>
      if te_mode e \<noteq> ''off'' \<and> te_sensor_device_ids e = []
        then say (''it is set to '' @ te_mode e @ '' but reads no sensor '' @ em_dash @ '' add one under Sensors'')
      else None)"

subsection \<open>Reading the file\<close>

record skipped_entry =
  sk_index :: nat
  sk_id :: "string option"
  sk_name :: "string option"
  sk_problem :: string
  sk_fix :: "setpoint_fix option"

definition skipped_code :: "skipped_entry \<Rightarrow> string" where
  "skipped_code s = ''config_entry_skipped:'' @ unwrap_or (sk_id s) (show_nat (sk_index s))"

definition skipped_called :: "skipped_entry \<Rightarrow> string" where
  "skipped_called s = unwrap_or (option_or (sk_name s) (sk_id s)) (''thermostat '' @ show_nat (sk_index s + 1))"

text \<open>A table of the file: its id and name if they are texts, and what the TOML parser makes of it.\<close>

record raw_entry =
  rw_id :: "string option"
  rw_name :: "string option"
  rw_entry :: "(string, thermostat_entry) result"

record loaded =
  ld_thermostats :: "thermostat_entry list"
  ld_skipped :: "skipped_entry list"
  ld_capped :: "(string \<times> string list) list"

definition plain_toml_error :: "string \<Rightarrow> string" where
  "plain_toml_error e = trim (unwrap_or (find (\<lambda>l. trim l \<noteq> []) (split_on (CHR 0x0A) e)) e)"

definition skip_entry :: "nat \<Rightarrow> raw_entry \<Rightarrow> string \<Rightarrow> setpoint_fix option \<Rightarrow> loaded \<Rightarrow> loaded" where
  "skip_entry index v p fix l =
     l\<lparr>ld_skipped := ld_skipped l @ [\<lparr>sk_index = index, sk_id = rw_id v, sk_name = rw_name v, sk_problem = p, sk_fix = fix\<rparr>]\<rparr>"

definition load_thermostat :: "plugin_ext \<Rightarrow> nat \<Rightarrow> raw_entry \<Rightarrow> loaded \<Rightarrow> loaded" where
  "load_thermostat x index v l =
     (case rw_entry v of
        Inl e \<Rightarrow> skip_entry index v (plain_toml_error e) None l
      | Inr e \<Rightarrow>
          (case entry_problem x e of
             Some p \<Rightarrow> skip_entry index v (pr_message p) (pr_fix p) l
           | None \<Rightarrow>
               if te_id e \<in> te_id ` set (ld_thermostats l)
               then skip_entry index v (''another thermostat above it already has the id '' @ dquoted (te_id e)) None l
               else let (e', said) = cap x e in
                 l\<lparr>ld_thermostats := ld_thermostats l @ [e'],
                   ld_capped := ld_capped l @ (if said = [] then [] else [(te_id e, said)])\<rparr>))"

fun load_from :: "plugin_ext \<Rightarrow> nat \<Rightarrow> raw_entry list \<Rightarrow> loaded \<Rightarrow> loaded" where
  "load_from x index [] l = l"
| "load_from x index (v # vs) l = load_from x (Suc index) vs (load_thermostat x index v l)"

definition config_parse :: "plugin_ext \<Rightarrow> raw_entry list \<Rightarrow> loaded" where
  "config_parse x raw = load_from x 0 raw \<lparr>ld_thermostats = [], ld_skipped = [], ld_capped = []\<rparr>"

subsection \<open>Adding a thermostat\<close>

definition id_step :: "char \<Rightarrow> string \<Rightarrow> string" where
  "id_step c out = (if ascii_alnum c then out @ [c] else if out \<noteq> [] \<and> last out \<noteq> CHR ''_'' then out @ ''_'' else out)"

definition id_from_name :: "plugin_ext \<Rightarrow> string \<Rightarrow> string" where
  "id_from_name x name =
     (let out = rev (dropWhile (\<lambda>c. c = CHR ''_'') (rev (fold id_step (hx_lower x (trim name)) []))) in
      if out = [] then ''thermostat'' else out)"

record add_request =
  ad_id :: "string option"
  ad_name :: string
  ad_kind :: string
  ad_sensor_device_ids :: "string list"
  ad_aggregation :: "string option"
  ad_setpoint :: f64
  ad_hysteresis :: "f64 option"
  ad_mode :: "string option"
  ad_actuator_device_id :: string
  ad_min_on_secs :: "nat option"
  ad_min_off_secs :: "nat option"
  ad_max_run_secs :: "nat option"
  ad_sensor_timeout_secs :: "nat option"
  ad_on_stale :: "string option"
  ad_override_secs :: "nat option"

partial_function (option) free_id :: "string \<Rightarrow> (string \<Rightarrow> bool) \<Rightarrow> string \<Rightarrow> nat \<Rightarrow> string option" where
  "free_id base taken i n = (if taken i then free_id base taken (base @ ''_'' @ show_nat n) (n + 1) else Some i)"

definition into_entry :: "plugin_ext \<Rightarrow> (string \<Rightarrow> bool) \<Rightarrow> add_request \<Rightarrow> (string, thermostat_entry) result option" where
  "into_entry x taken r =
     (case kind_parse (ad_kind r) of
        None \<Rightarrow> Some (Inl (''kind must be ac, heater or fan (got '' @ ad_kind r @ '')''))
      | Some kind \<Rightarrow>
          if trim (ad_name r) = [] then Some (Inl ''it needs a name'')
          else if ad_id r \<notin> {None, Some []} \<and> taken (the (ad_id r))
            then Some (Inl (''a thermostat with the id '' @ dquoted (the (ad_id r)) @ '' already exists''))
          else
            map_option (\<lambda>i.
              let e = \<lparr>te_id = i, te_name = trim (ad_name r), te_sensor_device_ids = ad_sensor_device_ids r,
                       te_sensor_attribute = ''temperature'', te_aggregation = unwrap_or (ad_aggregation r) ''average'',
                       te_setpoint = ad_setpoint r, te_hysteresis = unwrap_or (ad_hysteresis r) (default_hysteresis kind),
                       te_mode = unwrap_or (ad_mode r) (active_mode kind), te_kind = Some (kind_as_str kind),
                       te_actuator_device_id = ad_actuator_device_id r, te_actuator_on_cmd = None, te_actuator_off_cmd = None,
                       te_min_on_secs = unwrap_or (ad_min_on_secs r) (fst (default_guards kind)),
                       te_min_off_secs = unwrap_or (ad_min_off_secs r) (snd (default_guards kind)),
                       te_max_run_secs = ad_max_run_secs r, te_sensor_timeout_secs = ad_sensor_timeout_secs r,
                       te_on_stale = ad_on_stale r, te_override_secs = ad_override_secs r\<rparr> in
              case entry_problem x e of Some p \<Rightarrow> Inl (pr_message p) | None \<Rightarrow> Inr (fst (cap x e)))
              (if ad_id r \<notin> {None, Some []} then ad_id r
               else let base = id_from_name x (ad_name r) in free_id base taken base 2))"

subsection \<open>Control\<close>

definition aggregate :: "f64 list \<Rightarrow> string \<Rightarrow> f64 option" where
  "aggregate vs mode =
     (case vs of
        [] \<Rightarrow> None
      | v # rest \<Rightarrow>
          if mode = ''min'' then Some (fold (\<lambda>w a. f64_min a w) rest v)
          else if mode = ''max'' then Some (fold (\<lambda>w a. f64_max a w) rest v)
          else Some (f64_op (/) (fold (\<lambda>w a. f64_op (+) a w) vs (Fin 0)) (f64_of_nat (length vs))))"

definition compute_call_for :: "f64 \<Rightarrow> f64 \<Rightarrow> f64 \<Rightarrow> string \<Rightarrow> string \<Rightarrow> string" where
  "compute_call_for current setpoint hysteresis mode prev_call =
     (let half = f64_max (f64_over hysteresis 2) (Fin 0) in
      if mode = ''heat'' then
        if prev_call = ''heat''
        then (if f64_lt current (f64_op (+) setpoint half) then ''heat'' else ''idle'')
        else if f64_lt current (f64_op (-) setpoint half) then ''heat'' else ''idle''
      else if mode = ''cool'' then
        if prev_call = ''cool''
        then (if f64_lt (f64_op (-) setpoint half) current then ''cool'' else ''idle'')
        else if f64_lt (f64_op (+) setpoint half) current then ''cool'' else ''idle''
      else ''idle'')"

definition lockout_remaining :: "bool \<Rightarrow> nat \<Rightarrow> nat \<Rightarrow> timestamp option \<Rightarrow> timestamp \<Rightarrow> nat" where
  "lockout_remaining prev_act min_on_secs min_off_secs last_change now =
     (let limit = (if prev_act then min_on_secs else min_off_secs) in
      if limit = 0 then 0
      else case last_change of None \<Rightarrow> 0 | Some t \<Rightarrow> limit - nat (max (num_seconds (now - t)) 0))"

end
