(* ===== verification/Thermostat.thy ===== *)
theory Thermostat
  imports Thermostat_Config
begin

text \<open>
  The thermostat plugin's controller (\<open>plugins/hc-thermostat/src/controller.rs\<close>): one state machine
  over all thermostats, whose inputs queue effects for the plugin's actor to carry out. Thermostats are
  in the order of their ids; a hash map is a partial function where only single keys are asked for,
  and where one is walked through, the order is a parameter. Seconds, attempts and counts have the
  width the code gives them. The alerts last sent are compared as lists instead of by their JSON, which
  determines them.
\<close>

definition CONFIRM_SECS :: nat where
  "CONFIRM_SECS = 30"

definition MAX_RETRY_SECS :: nat where
  "MAX_RETRY_SECS = 600"

definition SHOWN_AT_EVERY_SECS :: int where
  "SHOWN_AT_EVERY_SECS = 300"

definition CANDIDATE_SECS :: nat where
  "CANDIDATE_SECS = 10"

definition MAX_HOLD_SECS :: nat where
  "MAX_HOLD_SECS = 7 * 24 * 3600"

definition FIRST_READING_SECS :: nat where
  "FIRST_READING_SECS = 15"

definition STARTUP_GRACE_SECS :: nat where
  "STARTUP_GRACE_SECS = 120"

definition thermo_secs :: "nat \<Rightarrow> int" where
  "thermo_secs s = int s * 1000000000"

datatype thermo_effect =
    FxRegister thermostat_entry
  | FxUnregister string
  | FxReconcile "string list"
  | FxPublishState string json
  | FxCommand string json
  | FxAlerts string "plugin_alert list"
  | FxPluginAlerts "plugin_alert list"
  | FxNotices "plugin_notice list"
  | FxSubscribe string
  | FxUnsubscribe string
  | FxUnsubscribeOwn string
  | FxCommandResult string string "string option"
  | FxPersistLearned json

subsection \<open>Payloads\<close>

definition actuator_word :: "json \<Rightarrow> bool option" where
  "actuator_word v =
     (case as_str v of
        None \<Rightarrow> None
      | Some s \<Rightarrow>
          let w = map ascii_lower s in
          if w \<in> set [''on'', ''true'', ''1''] then Some True else if w \<in> set [''off'', ''false'', ''0''] then Some False else None)"

definition interpret_actuator_on :: "json \<Rightarrow> bool option" where
  "interpret_actuator_on payload =
     (case Option.bind (json_get payload ''on'') as_bool of Some b \<Rightarrow> Some b | None \<Rightarrow>
      case Option.bind (json_get payload ''state'') actuator_word of Some b \<Rightarrow> Some b | None \<Rightarrow>
      case Option.bind (json_get payload ''power'') as_bool of Some b \<Rightarrow> Some b | None \<Rightarrow>
      Option.bind (json_get payload ''power'') actuator_word)"

definition first_str :: "string list \<Rightarrow> json \<Rightarrow> string option" where
  "first_str ks payload = Option.bind (find (\<lambda>k. Option.bind (json_get payload k) as_str \<noteq> None) ks) (\<lambda>k. Option.bind (json_get payload k) as_str)"

definition thermo_command_of :: "json \<Rightarrow> string" where
  "thermo_command_of payload = unwrap_or (first_str [''action'', ''command''] payload) []"

definition attribute_writes :: "json \<Rightarrow> f64 option \<times> string option" where
  "attribute_writes payload = (Option.bind (json_get payload ''setpoint'') as_f64, first_str [''hvac_mode'', ''mode''] payload)"

definition sensor_ids_of :: "json \<Rightarrow> string list option" where
  "sensor_ids_of v =
     (case v of
        JArr ids \<Rightarrow> Some (List.map_filter as_str ids)
      | JStr s \<Rightarrow> Some (filter (\<lambda>s. s \<noteq> []) (map trim (split_on CHR '','' s)))
      | _ \<Rightarrow> None)"

definition operation_of :: "json \<Rightarrow> string" where
  "operation_of cmd =
     (let c = thermo_command_of cmd in
      if c \<noteq> [] then c
      else case cmd of
             JObj kvs \<Rightarrow> join_with '','' (filter (\<lambda>k. \<not> starts_with ''_'' k \<and> k \<noteq> ''correlation_id'') (map fst kvs))
           | _ \<Rightarrow> [])"

definition json_opt :: "('a \<Rightarrow> json) \<Rightarrow> 'a option \<Rightarrow> json" where
  "json_opt f v = (case v of Some a \<Rightarrow> f a | None \<Rightarrow> JNull)"

definition some_field :: "string \<Rightarrow> ('a \<Rightarrow> json) \<Rightarrow> 'a option \<Rightarrow> (string \<times> json) list" where
  "some_field k f v = (case v of Some a \<Rightarrow> [(k, f a)] | None \<Rightarrow> [])"

definition entry_to_json :: "thermostat_entry \<Rightarrow> json" where
  "entry_to_json e = JObj (entries
     ([(''id'', JStr (te_id e)), (''name'', JStr (te_name e)), (''sensor_device_ids'', JArr (map JStr (te_sensor_device_ids e))),
       (''sensor_attribute'', JStr (te_sensor_attribute e)), (''aggregation'', JStr (te_aggregation e)),
       (''setpoint'', json_f64 (te_setpoint e)), (''hysteresis'', json_f64 (te_hysteresis e)), (''mode'', JStr (te_mode e))]
      @ some_field ''kind'' JStr (te_kind e)
      @ [(''actuator_device_id'', JStr (te_actuator_device_id e))]
      @ some_field ''actuator_on_cmd'' (\<lambda>v. v) (te_actuator_on_cmd e) @ some_field ''actuator_off_cmd'' (\<lambda>v. v) (te_actuator_off_cmd e)
      @ [(''min_on_secs'', json_int (int (te_min_on_secs e))), (''min_off_secs'', json_int (int (te_min_off_secs e)))]
      @ some_field ''max_run_secs'' (\<lambda>n. json_int (int n)) (te_max_run_secs e)
      @ some_field ''sensor_timeout_secs'' (\<lambda>n. json_int (int n)) (te_sensor_timeout_secs e)
      @ some_field ''on_stale'' JStr (te_on_stale e) @ some_field ''override_secs'' (\<lambda>n. json_int (int n)) (te_override_secs e)))"

definition runtime_change :: "thermostat_entry \<Rightarrow> thermostat_entry \<Rightarrow> json option" where
  "runtime_change file now =
     (if entry_to_json file \<noteq> entry_to_json now
      then Some (JObj (entries [(''based_on'', entry_to_json file), (''entry'', entry_to_json now)])) else None)"

definition learned_entry :: "plugin_ext \<Rightarrow> thermostat_entry \<Rightarrow> json \<Rightarrow> thermostat_entry option" where
  "learned_entry x file kept =
     (case json_get kept ''based_on'' of
        None \<Rightarrow> None
      | Some b \<Rightarrow>
          if b \<noteq> entry_to_json file then None
          else case Option.bind (json_get kept ''entry'') (hx_entry_of_json x) of
                 None \<Rightarrow> None
               | Some e \<Rightarrow> if te_id e = te_id file \<and> entry_problem x e = None then Some e else None)"

definition runtime_of :: "json \<Rightarrow> json" where
  "runtime_of state = JObj (entries (List.map_filter (\<lambda>k. map_option (Pair k) (json_get state k))
     [''actuator_last_change'', ''on_since'', ''reason'', ''hold_setpoint'', ''hold_until'', ''override_until'', ''today_from'',
      ''run_secs_today'', ''cycles_today'', ''longest_run_secs_today'']))"

definition running_word :: "string \<Rightarrow> string" where
  "running_word mode = (if mode = ''heat'' then ''heating'' else ''cooling'')"

definition backoff_secs :: "nat \<Rightarrow> nat" where
  "backoff_secs attempts = min (CONFIRM_SECS * 2 ^ min (attempts - 1) 5) MAX_RETRY_SECS"

definition iso :: "plugin_ext \<Rightarrow> timestamp option \<Rightarrow> json" where
  "iso x t = json_opt (\<lambda>t. JStr (hx_iso x t)) t"

definition parse_time :: "plugin_ext \<Rightarrow> json option \<Rightarrow> timestamp option" where
  "parse_time x v = Option.bind (Option.bind v as_str) (hx_parse_time x)"

subsection \<open>State\<close>

record sensor_reading =
  rd_value :: "f64 option"
  rd_at :: "timestamp option"
  rd_shown_at :: "timestamp option"

record seen =
  sn_on :: "bool option"
  sn_online :: "bool option"
  sn_has_on :: bool
  sn_lockish :: bool

record thermo_hold =
  ho_setpoint :: f64
  ho_until :: timestamp

record candidate =
  cd_thermostat :: string
  cd_deadline :: timestamp

record thermo =
  th_cfg :: thermostat_entry
  th_temperature :: "f64 option"
  th_calling :: bool
  th_stale :: bool
  th_commanded :: "bool option"
  th_confirmed :: bool
  th_waiting_since :: "timestamp option"
  th_attempts :: nat
  th_retry_at :: "timestamp option"
  th_not_responding :: bool
  th_last_change :: "timestamp option"
  th_on_since :: "timestamp option"
  th_pending :: "string option"
  th_lockout_until :: "timestamp option"
  th_force :: bool
  th_bypass_guard :: bool
  th_entering_off :: bool
  th_override_until :: "timestamp option"
  th_override_at :: "timestamp option"
  th_hold :: "thermo_hold option"
  th_max_run_tripped :: bool
  th_tripped_at :: "timestamp option"
  th_grace_until :: "timestamp option"
  th_day_start :: "timestamp option"
  th_run_secs_today :: nat
  th_cycles_today :: nat
  th_longest_run_secs_today :: nat
  th_last_command_error :: "string option"
  th_published :: "json option"
  th_alerts_sent :: "plugin_alert list option"

definition reading_default :: sensor_reading where
  "reading_default = \<lparr>rd_value = None, rd_at = None, rd_shown_at = None\<rparr>"

definition seen_default :: seen where
  "seen_default = \<lparr>sn_on = None, sn_online = None, sn_has_on = False, sn_lockish = False\<rparr>"

definition thermo_new :: "thermostat_entry \<Rightarrow> thermo" where
  "thermo_new cfg =
     \<lparr>th_cfg = cfg, th_temperature = None, th_calling = False, th_stale = False, th_commanded = None, th_confirmed = False,
      th_waiting_since = None, th_attempts = 0, th_retry_at = None, th_not_responding = False, th_last_change = None,
      th_on_since = None, th_pending = None, th_lockout_until = None, th_force = False, th_bypass_guard = False,
      th_entering_off = False, th_override_until = None, th_override_at = None, th_hold = None, th_max_run_tripped = False,
      th_tripped_at = None, th_grace_until = None, th_day_start = None, th_run_secs_today = 0, th_cycles_today = 0,
      th_longest_run_secs_today = 0, th_last_command_error = None, th_published = None, th_alerts_sent = None\<rparr>"

definition thermo_active :: "thermo \<Rightarrow> bool" where
  "thermo_active t \<longleftrightarrow> te_mode (th_cfg t) \<noteq> ''off''"

definition thermo_target :: "thermo \<Rightarrow> f64" where
  "thermo_target t = (case th_hold t of Some h \<Rightarrow> ho_setpoint h | None \<Rightarrow> te_setpoint (th_cfg t))"

definition roll_day :: "plugin_ext \<Rightarrow> timestamp \<Rightarrow> bool \<Rightarrow> thermo \<Rightarrow> thermo" where
  "roll_day x now on t =
     (let midnight = hx_midnight x now in
      case th_day_start t of
        None \<Rightarrow> t\<lparr>th_day_start := Some midnight\<rparr>
      | Some start \<Rightarrow>
          if midnight - start < thermo_secs (20 * 3600) then t\<lparr>th_day_start := Some midnight\<rparr>
          else t\<lparr>th_day_start := Some midnight, th_run_secs_today := 0, th_longest_run_secs_today := 0, th_cycles_today := of_bool on\<rparr>)"

definition note_switch :: "plugin_ext \<Rightarrow> bool \<Rightarrow> timestamp \<Rightarrow> thermo \<Rightarrow> thermo" where
  "note_switch x on now t =
     (let t1 = roll_day x now (\<not> on) t in
      if on then t1\<lparr>th_on_since := Some now, th_cycles_today := (th_cycles_today t1 + 1) mod 2 ^ 32\<rparr>
      else case th_on_since t1 of
             None \<Rightarrow> t1
           | Some since \<Rightarrow>
               let secs = nat (max (num_seconds (now - max since (hx_midnight x now))) 0) in
               t1\<lparr>th_on_since := None, th_run_secs_today := (th_run_secs_today t1 + secs) mod 2 ^ 64,
                  th_longest_run_secs_today := max (th_longest_run_secs_today t1) secs\<rparr>)"

definition person_changed_it :: "thermo \<Rightarrow> thermo" where
  "person_changed_it t = t\<lparr>th_override_until := None, th_override_at := None, th_max_run_tripped := False, th_tripped_at := None\<rparr>"

definition reset_switch :: "thermo \<Rightarrow> thermo" where
  "reset_switch t =
     t\<lparr>th_commanded := None, th_confirmed := False, th_waiting_since := None, th_attempts := 0, th_retry_at := None,
       th_not_responding := False, th_pending := None, th_lockout_until := None, th_on_since := None, th_force := True\<rparr>"

type_synonym reading_map = "string \<rightharpoonup> sensor_reading"
type_synonym seen_map = "string \<rightharpoonup> seen"

record controller =
  tc_started :: bool
  tc_therms :: "(string \<times> thermo) list"
  tc_file_entries :: "string \<rightharpoonup> thermostat_entry"
  tc_skipped :: "skipped_entry list"
  tc_capped :: "(string \<times> string list) list"
  tc_readings :: reading_map
  tc_seen :: seen_map
  tc_restored :: "string \<rightharpoonup> f64 \<times> timestamp"
  tc_own_restored :: "string set"
  tc_runtime_kept :: "json option"
  tc_candidates :: "(string \<times> candidate) list"
  tc_sync_pending :: "string list option"
  tc_fx :: "thermo_effect list"

definition push_fx :: "thermo_effect list \<Rightarrow> controller \<Rightarrow> controller" where
  "push_fx es c = c\<lparr>tc_fx := tc_fx c @ es\<rparr>"

definition set_thermo :: "string \<Rightarrow> thermo \<Rightarrow> controller \<Rightarrow> controller" where
  "set_thermo i t c = c\<lparr>tc_therms := put i t (tc_therms c)\<rparr>"

definition get_thermo :: "controller \<Rightarrow> string \<Rightarrow> thermo option" where
  "get_thermo c = map_of (tc_therms c)"

definition seen_of :: "seen_map \<Rightarrow> string \<Rightarrow> seen" where
  "seen_of m i = unwrap_or (m i) seen_default"

subsection \<open>What is said\<close>

definition is_current :: "timestamp \<Rightarrow> nat \<Rightarrow> sensor_reading \<Rightarrow> bool" where
  "is_current now timeout r \<longleftrightarrow> (case rd_at r of Some t \<Rightarrow> num_seconds (now - t) \<le> int timeout | None \<Rightarrow> False)"

definition reading_json :: "plugin_ext \<Rightarrow> reading_map \<Rightarrow> seen_map \<Rightarrow> timestamp \<Rightarrow> nat \<Rightarrow> string \<Rightarrow> json" where
  "reading_json x rs sn now timeout s =
     (let r = unwrap_or (rs s) reading_default; online = sn_online (seen_of sn s) \<noteq> Some False in
      JObj (entries [(''temperature'', json_opt json_f64 (rd_value r)), (''at'', iso x (rd_shown_at r)),
        (''stale'', JBool (\<not> (online \<and> rd_value r \<noteq> None \<and> is_current now timeout r))), (''online'', JBool online)]))"

definition hvac_action :: "thermo \<Rightarrow> bool option \<Rightarrow> string" where
  "hvac_action t observed =
     (if \<not> thermo_active t then ''off'' else if observed = Some True then running_word (te_mode (th_cfg t)) else ''idle'')"

definition thermo_reason :: "thermo \<Rightarrow> string" where
  "thermo_reason t =
     (if \<not> thermo_active t then ''off''
      else if te_actuator_device_id (th_cfg t) = [] then ''no_switch''
      else if th_stale t then ''sensors_stale''
      else if th_override_until t \<noteq> None then ''override''
      else if th_max_run_tripped t then ''max_run_exceeded''
      else if th_not_responding t then ''actuator_not_responding''
      else case th_pending t of
             Some p \<Rightarrow> p
           | None \<Rightarrow> if th_calling t then running_word (te_mode (th_cfg t)) else ''idle_in_band'')"

definition nat_json :: "nat \<Rightarrow> json" where
  "nat_json n = json_int (int n)"

definition state_payload :: "plugin_ext \<Rightarrow> thermo \<Rightarrow> reading_map \<Rightarrow> seen_map \<Rightarrow> timestamp \<Rightarrow> json" where
  "state_payload x t rs sn now =
     (let cfg = th_cfg t; sw = sn (te_actuator_device_id cfg); observed = Option.bind sw sn_on in
      JObj (entries
       [(''kind'', JStr (kind_as_str (kind_of cfg))),
        (''temperature'', json_opt (\<lambda>v. json_f64 (f64_over (f64_round (f64_times v 10)) 10)) (th_temperature t)),
        (''setpoint'', json_f64 (te_setpoint cfg)), (''hvac_mode'', JStr (te_mode cfg)), (''hvac_action'', JStr (hvac_action t observed)),
        (''reason'', JStr (thermo_reason t)), (''hold_setpoint'', json_opt (\<lambda>h. json_f64 (ho_setpoint h)) (th_hold t)),
        (''hold_until'', iso x (map_option ho_until (th_hold t))), (''override_until'', iso x (th_override_until t)),
        (''sensors_stale'', JBool (th_stale t)),
        (''sensor_readings'', JObj (entries (map (\<lambda>s. (s, reading_json x rs sn now (sensor_timeout_secs cfg) s)) (te_sensor_device_ids cfg)))),
        (''actuator_state'', JBool (unwrap_or (option_or observed (th_commanded t)) False)),
        (''actuator_confirmed'', JBool (th_commanded t = None \<or> th_confirmed t)),
        (''actuator_online'', JBool (unwrap_or (Option.bind sw sn_online) True)),
        (''actuator_last_change'', iso x (th_last_change t)), (''on_since'', iso x (th_on_since t)),
        (''pending_call'', json_opt (\<lambda>_. JStr (running_word (te_mode cfg))) (th_pending t)),
        (''lockout_until'', iso x (th_lockout_until t)), (''last_command_error'', json_opt JStr (th_last_command_error t)),
        (''today_from'', iso x (th_day_start t)), (''run_secs_today'', nat_json (th_run_secs_today t)),
        (''cycles_today'', nat_json (th_cycles_today t)), (''longest_run_secs_today'', nat_json (th_longest_run_secs_today t)),
        (''settled'', JBool True), (''hysteresis'', json_f64 (te_hysteresis cfg)), (''aggregation'', JStr (te_aggregation cfg)),
        (''sensor_ids'', JArr (map JStr (te_sensor_device_ids cfg))), (''sensor_attribute'', JStr (te_sensor_attribute cfg)),
        (''actuator_device_id'', JStr (te_actuator_device_id cfg)), (''min_on_secs'', nat_json (te_min_on_secs cfg)),
        (''min_off_secs'', nat_json (te_min_off_secs cfg)), (''max_run_secs'', nat_json (max_run_secs cfg)),
        (''sensor_timeout_secs'', nat_json (sensor_timeout_secs cfg)),
        (''on_stale'', JStr (if off_when_stale cfg then ''off'' else ''hold'')), (''override_secs'', nat_json (override_secs cfg))]))"

definition words_secs :: "nat \<Rightarrow> string" where
  "words_secs s =
     (if 3600 \<le> s \<and> s mod 3600 = 0 then show_nat (s div 3600) @ '' h''
      else if 60 \<le> s then show_nat (s div 60) @ '' min''
      else show_nat s @ '' s'')"

definition plugin_alert_new :: "string \<Rightarrow> string \<Rightarrow> plugin_alert" where
  "plugin_alert_new topic reason =
     \<lparr>pa_topic = topic, pa_key = None, pa_reason = reason, pa_message = None, pa_severity = None, pa_action = None, pa_since = None\<rparr>"

definition with_action :: "string \<Rightarrow> string \<Rightarrow> bool \<Rightarrow> plugin_alert \<Rightarrow> plugin_alert" where
  "with_action label i confirm a =
     a\<lparr>pa_action := Some \<lparr>aa_label = label, aa_id = i, aa_target = TargetDevice, aa_params = JNull, aa_confirm = confirm\<rparr>\<rparr>"

definition at_clock :: "plugin_ext \<Rightarrow> timestamp option \<Rightarrow> string" where
  "at_clock x t = (case t of Some u \<Rightarrow> '' at '' @ hx_clock x u | None \<Rightarrow> [])"

definition alerts_of :: "plugin_ext \<Rightarrow> thermo \<Rightarrow> seen \<Rightarrow> plugin_alert list" where
  "alerts_of x t sw =
     (if th_stale t
      then [plugin_alert_new ''sensors_stale''
        (if off_when_stale (th_cfg t) then ''No current temperature reading, so its switch was turned off''
         else ''No current temperature reading; its switch is left as it is'')] else [])
     @ (if th_not_responding t
        then [with_action ''Send it again'' ''resync'' False (plugin_alert_new ''actuator_not_responding''
          (if sn_online sw = Some False then ''Its switch is offline and can't be told anything''
           else ''Its switch hasn't confirmed turning '' @ (if th_commanded t = Some True then ''on'' else ''off'')
             @ '' (asked '' @ show_nat (th_attempts t) @ '' time'' @ (if th_attempts t = 1 then [] else ''s'') @ '')''))] else [])
     @ (if th_max_run_tripped t
        then [with_action ''Start it again'' ''resume'' True (plugin_alert_new ''max_run_exceeded''
          (''Ran '' @ words_secs (max_run_secs (th_cfg t)) @ '' without a break, so it was turned off'' @ at_clock x (th_tripped_at t)))] else [])
     @ (case (th_override_until t, thermo_active t) of
          (Some until, True) \<Rightarrow>
            [with_action ''Take over now'' ''resume'' False (plugin_alert_new ''manual_override''
              (''Switched by hand'' @ at_clock x (th_override_at t) @ '' '' @ em_dash @ '' left alone until '' @ hx_clock x until))]
        | _ \<Rightarrow> [])"

subsection \<open>Deciding\<close>

definition end_hold_override :: "timestamp \<Rightarrow> thermo \<Rightarrow> thermo" where
  "end_hold_override now t =
     (let t1 = (case th_hold t of Some h \<Rightarrow> if ho_until h \<le> now then t\<lparr>th_hold := None\<rparr> else t | None \<Rightarrow> t) in
      case th_override_until t1 of
        Some u \<Rightarrow> if u \<le> now then t1\<lparr>th_override_until := None, th_override_at := None, th_force := True\<rparr> else t1
      | None \<Rightarrow> t1)"

definition fresh_values :: "timestamp \<Rightarrow> thermostat_entry \<Rightarrow> reading_map \<Rightarrow> seen_map \<Rightarrow> f64 list" where
  "fresh_values now cfg rs sn =
     List.map_filter rd_value (filter (is_current now (sensor_timeout_secs cfg))
       (List.map_filter rs (filter (\<lambda>s. Option.bind (sn s) sn_online \<noteq> Some False) (te_sensor_device_ids cfg))))"

definition heard_any :: "thermostat_entry \<Rightarrow> reading_map \<Rightarrow> seen_map \<Rightarrow> bool" where
  "heard_any cfg rs sn \<longleftrightarrow>
     list_ex (\<lambda>s. Option.bind (rs s) rd_at \<noteq> None \<or> Option.bind (sn s) sn_online = Some False) (te_sensor_device_ids cfg)"

text \<open>The readings that count; with the flag that the first ones are still on their way.\<close>

definition read_sensors :: "timestamp \<Rightarrow> reading_map \<Rightarrow> seen_map \<Rightarrow> thermo \<Rightarrow> thermo \<times> bool" where
  "read_sensors now rs sn t =
     (let fresh = fresh_values now (th_cfg t) rs sn;
          t1 = t\<lparr>th_temperature := aggregate fresh (te_aggregation (th_cfg t)),
                th_grace_until := (case th_grace_until t of Some g \<Rightarrow> if g \<le> now then None else Some g | None \<Rightarrow> None)\<rparr>;
          waiting_for_first = (th_grace_until t1 \<noteq> None \<and> fresh = [] \<and> \<not> heard_any (th_cfg t) rs sn) in
      (t1\<lparr>th_stale := thermo_active t \<and> fresh = [] \<and> \<not> waiting_for_first\<rparr>, waiting_for_first))"

definition check_run :: "timestamp \<Rightarrow> bool option \<Rightarrow> thermo \<Rightarrow> thermo" where
  "check_run now now_on t =
     (let max_run = max_run_secs (th_cfg t) in
      if thermo_active t \<and> 0 < max_run \<and> now_on = Some True \<and> \<not> th_max_run_tripped t then
        (case th_on_since t of
           Some since \<Rightarrow>
             if int max_run \<le> num_seconds (now - since) then t\<lparr>th_max_run_tripped := True, th_tripped_at := Some now\<rparr> else t
         | None \<Rightarrow> t)
      else t)"

text \<open>What the switch should be, if anything, and whether for safety.\<close>

definition desired_state :: "bool \<Rightarrow> thermo \<Rightarrow> thermo \<times> bool option \<times> bool" where
  "desired_state waiting_for_first t =
     (if te_actuator_device_id (th_cfg t) = [] then (t\<lparr>th_entering_off := False\<rparr>, None, False)
      else if th_entering_off t then (t, Some False, True)
      else if \<not> thermo_active t \<or> th_override_until t \<noteq> None \<or> waiting_for_first then (t, None, False)
      else if th_stale t then
        if off_when_stale (th_cfg t) then (t\<lparr>th_calling := False\<rparr>, Some False, True) else (t\<lparr>th_calling := False\<rparr>, None, False)
      else
        let prev = (if th_calling t then te_mode (th_cfg t) else ''idle'');
            current = unwrap_or (th_temperature t) (thermo_target t);
            t1 = t\<lparr>th_calling := compute_call_for current (thermo_target t) (te_hysteresis (th_cfg t)) (te_mode (th_cfg t)) prev \<noteq> ''idle''\<rparr>;
            t2 = (if th_max_run_tripped t1 \<and> \<not> th_calling t1 then t1\<lparr>th_max_run_tripped := False, th_tripped_at := None\<rparr> else t1) in
        (t2, Some (th_calling t2 \<and> \<not> th_max_run_tripped t2), th_max_run_tripped t2))"

definition want_transition :: "timestamp \<Rightarrow> bool option \<Rightarrow> bool \<Rightarrow> bool \<Rightarrow> thermo \<Rightarrow> thermo \<times> bool option" where
  "want_transition now now_on safety w t =
     (let transition = (now_on \<noteq> Some w \<and> th_commanded t \<noteq> Some w);
          remaining = (if safety \<or> th_bypass_guard t \<or> \<not> transition then 0
            else lockout_remaining (now_on = Some True) (te_min_on_secs (th_cfg t)) (te_min_off_secs (th_cfg t)) (th_last_change t) now) in
      if 0 < remaining
      then (t\<lparr>th_pending := Some (if now_on = Some True then ''waiting_min_on'' else ''waiting_min_off''),
              th_lockout_until := Some (now + thermo_secs remaining)\<rparr>, None)
      else (if transition then t\<lparr>th_last_change := Some now\<rparr> else t, Some w))"

definition choose_send :: "timestamp \<Rightarrow> seen \<Rightarrow> bool option \<Rightarrow> bool option \<Rightarrow> bool \<Rightarrow> thermo \<Rightarrow> thermo \<times> bool option" where
  "choose_send now sw now_on desired safety t =
     (let t1 = t\<lparr>th_pending := None, th_lockout_until := None\<rparr> in
      case desired of
        None \<Rightarrow> (t1\<lparr>th_retry_at := None, th_force := False\<rparr>, None)
      | Some w \<Rightarrow>
          if th_commanded t1 = Some w \<and> \<not> th_confirmed t1 \<and> \<not> th_force t1
          then (t1, if sn_online sw \<noteq> Some False \<and> (case th_retry_at t1 of Some r \<Rightarrow> r \<le> now | None \<Rightarrow> False) then Some w else None)
          else if now_on = Some w \<and> \<not> th_force t1
          then (if sn_on sw = Some w then t1\<lparr>th_commanded := Some w, th_confirmed := True\<rparr> else t1, None)
          else want_transition now now_on safety w t1)"

definition switch_payload :: "thermostat_entry \<Rightarrow> bool \<Rightarrow> json" where
  "switch_payload cfg w =
     unwrap_or (if w then te_actuator_on_cmd cfg else te_actuator_off_cmd cfg) (JObj [(''on'', JBool w)])"

definition send_switch :: "timestamp \<Rightarrow> bool option \<Rightarrow> bool \<Rightarrow> thermo \<Rightarrow> thermo" where
  "send_switch now observed w t =
     (let retry = (th_commanded t = Some w \<and> \<not> th_confirmed t);
          t1 = (if retry then t\<lparr>th_attempts := (th_attempts t + 1) mod 2 ^ 32\<rparr> else t\<lparr>th_attempts := 1, th_waiting_since := Some now\<rparr>);
          t2 = t1\<lparr>th_commanded := Some w, th_confirmed := (observed = Some w),
                 th_retry_at := Some (now + thermo_secs (backoff_secs (th_attempts t1))), th_force := False, th_bypass_guard := False,
                 th_entering_off := th_entering_off t1 \<and> \<not> 3 \<le> th_attempts t1\<rparr>;
          t3 = (if w \<and> th_on_since t2 = None then t2\<lparr>th_on_since := Some now\<rparr> else t2) in
      if \<not> w \<and> observed = None then t3\<lparr>th_on_since := None\<rparr> else t3)"

definition judge_response :: "timestamp \<Rightarrow> seen \<Rightarrow> bool option \<Rightarrow> thermo \<Rightarrow> thermo" where
  "judge_response now sw desired t =
     t\<lparr>th_not_responding := (desired \<noteq> None \<and>
        (sn_online sw = Some False \<or>
         th_commanded t \<noteq> None \<and> \<not> th_confirmed t \<and>
         (case th_waiting_since t of Some s \<Rightarrow> int CONFIRM_SECS \<le> num_seconds (now - s) | None \<Rightarrow> False)))\<rparr>"

text \<open>One decision: the thermostat after it, and the command it sends.\<close>

definition decide :: "plugin_ext \<Rightarrow> timestamp \<Rightarrow> reading_map \<Rightarrow> seen_map \<Rightarrow> thermo \<Rightarrow> thermo \<times> thermo_effect list" where
  "decide x now rs sn t =
     (let sw = seen_of sn (te_actuator_device_id (th_cfg t));
          now_on = option_or (sn_on sw) (th_commanded t);
          t1 = end_hold_override now (roll_day x now (now_on = Some True) t);
          (t2, waiting_for_first) = read_sensors now rs sn t1;
          (t3, desired, safety) = desired_state waiting_for_first (check_run now now_on t2);
          (t4, send) = choose_send now sw now_on desired safety t3;
          t5 = (case send of Some w \<Rightarrow> send_switch now (sn_on sw) w t4 | None \<Rightarrow> t4) in
      (judge_response now sw desired t5,
       case send of Some w \<Rightarrow> [FxCommand (te_actuator_device_id (th_cfg t)) (switch_payload (th_cfg t) w)] | None \<Rightarrow> []))"

definition say_state :: "plugin_ext \<Rightarrow> timestamp \<Rightarrow> reading_map \<Rightarrow> seen_map \<Rightarrow> thermo \<Rightarrow> thermo \<times> thermo_effect list" where
  "say_state x now rs sn t =
     (let state = state_payload x t rs sn now; alerts = alerts_of x t (seen_of sn (te_actuator_device_id (th_cfg t))); d = thermostat_device_id (th_cfg t) in
      (t\<lparr>th_published := Some state, th_alerts_sent := Some alerts\<rparr>,
       (if th_published t = Some state then [] else [FxPublishState d state]) @ (if th_alerts_sent t = Some alerts then [] else [FxAlerts d alerts])))"

definition evaluate :: "plugin_ext \<Rightarrow> timestamp \<Rightarrow> string \<Rightarrow> controller \<Rightarrow> controller" where
  "evaluate x now i c =
     (if \<not> tc_started c then c
      else case get_thermo c i of
             None \<Rightarrow> c
           | Some t \<Rightarrow>
               let (t1, fx1) = decide x now (tc_readings c) (tc_seen c) t;
                   (t2, fx2) = say_state x now (tc_readings c) (tc_seen c) t1 in
               push_fx (fx1 @ fx2) (set_thermo i t2 c))"

subsection \<open>Devices used\<close>

definition used_ids :: "controller \<Rightarrow> string set" where
  "used_ids c =
     set (concat (map (\<lambda>(_, t). te_sensor_device_ids (th_cfg t)
        @ (if te_actuator_device_id (th_cfg t) = [] then [] else [te_actuator_device_id (th_cfg t)])) (tc_therms c)))
     \<union> set (map fst (tc_candidates c))"

definition external_ids :: "controller \<Rightarrow> string list" where
  "external_ids c = sorted_list_of_set (used_ids c)"

definition own_ids :: "controller \<Rightarrow> string list" where
  "own_ids c = map (\<lambda>(_, t). thermostat_device_id (th_cfg t)) (tc_therms c)"

definition own_id :: "controller \<Rightarrow> string \<Rightarrow> string option" where
  "own_id c device_id =
     (let p = ''thermostat_''; i = drop (length p) device_id in
      if starts_with p device_id \<and> get_thermo c i \<noteq> None then Some i else None)"

definition id_taken :: "controller \<Rightarrow> string \<Rightarrow> bool" where
  "id_taken c i \<longleftrightarrow> get_thermo c i \<noteq> None"

definition resubscribe :: "string set \<Rightarrow> controller \<Rightarrow> controller" where
  "resubscribe old c =
     (let now = used_ids c; added = sorted_list_of_set (now - old); gone = sorted_list_of_set (old - now) in
      push_fx (map FxSubscribe added @ map FxUnsubscribe gone)
        (c\<lparr>tc_readings := (\<lambda>i. if i \<in> set gone then None else tc_readings c i),
           tc_seen := (\<lambda>i. if i \<in> set gone then None else tc_seen c i)\<rparr>))"

definition begin_sync :: "string list \<Rightarrow> controller \<Rightarrow> controller" where
  "begin_sync ids c = c\<lparr>tc_sync_pending := Some (remdups ids)\<rparr>"

definition sync_remaining :: "plugin_ext \<Rightarrow> controller \<Rightarrow> string list" where
  "sync_remaining x c = (case tc_sync_pending c of Some s \<Rightarrow> hx_hash_order x s | None \<Rightarrow> [])"

definition heard :: "string \<Rightarrow> controller \<Rightarrow> controller" where
  "heard i c = c\<lparr>tc_sync_pending := map_option (filter (\<lambda>s. s \<noteq> i)) (tc_sync_pending c)\<rparr>"

definition observed_of :: "controller \<Rightarrow> string \<Rightarrow> bool option" where
  "observed_of c i =
     Option.bind (get_thermo c i) (\<lambda>t. Option.bind (tc_seen c (te_actuator_device_id (th_cfg t))) sn_on)"

subsection \<open>Notices\<close>

definition notice_new :: "notice_level \<Rightarrow> string \<Rightarrow> string \<Rightarrow> string option \<Rightarrow> plugin_notice" where
  "notice_new level code message remedy = \<lparr>pn_level = level, pn_code = code, pn_message = message, pn_remedy = remedy\<rparr>"

definition skipped_notice :: "plugin_ext \<Rightarrow> skipped_entry \<Rightarrow> plugin_notice" where
  "skipped_notice x s =
     notice_new NoticeWarning (skipped_code s)
       (''Not running: '' @ in_marks (skipped_called s) @ '' '' @ em_dash @ '' '' @ sk_problem s @ ''.'')
       (Some (case sk_fix s of
          Some f \<Rightarrow> ''Make it '' @ hx_show_f64 x (sf_fahrenheit f) @ '' '' @ degree @ ''F ('' @ hx_show_f64 x (sf_celsius f) @ '' '' @ degree
            @ ''C) from this page, or change it in Settings.''
        | None \<Rightarrow> ''Change it in Settings; the others run as normal.''))"

definition skipped_alert :: "skipped_entry \<Rightarrow> plugin_alert" where
  "skipped_alert s =
     (plugin_alert_new ''config_entry_skipped'' (in_marks (skipped_called s) @ '' isn't running: '' @ sk_problem s))
       \<lparr>pa_key := Some (unwrap_or (sk_id s) (show_nat (sk_index s)))\<rparr>"

definition unguarded_notice :: "thermostat_entry \<Rightarrow> plugin_notice" where
  "unguarded_notice e =
     notice_new NoticeWarning (''short_cycle_unguarded:'' @ te_id e)
       (in_marks (te_name e) @ '' runs an AC with no short-cycle guard: it can be switched back on seconds after it went off, which wears out a compressor.'')
       (Some ''Set Once on 3 min and Once off 5 min under How it switches.'')"

definition refresh_notices :: "plugin_ext \<Rightarrow> controller \<Rightarrow> controller" where
  "refresh_notices x c =
     push_fx
       [FxNotices
         ((if tc_therms c = [] \<and> tc_skipped c = []
           then [notice_new NoticeWarning ''no_thermostats_configured'' ''No thermostats yet, so this plugin publishes no devices.''
             (Some ''Add one from this page: a temperature sensor in the room and the plug or switch that runs the AC, heater or fan.'')] else [])
          @ map (skipped_notice x) (tc_skipped c)
          @ map (\<lambda>(i, said). notice_new NoticeInfo (''config_value_capped:'' @ i)
              (i @ '': '' @ join_with ''; '' said @ '' '' @ em_dash @ '' the largest is used.'') None) (tc_capped c)
          @ map unguarded_notice (filter (\<lambda>e. kind_of e = Ac \<and> te_min_on_secs e = 0 \<and> te_min_off_secs e = 0)
              (map (\<lambda>(_, t). th_cfg t) (tc_therms c)))),
        FxPluginAlerts (map skipped_alert (tc_skipped c))] c"

definition controller_new :: "plugin_ext \<Rightarrow> loaded \<Rightarrow> controller" where
  "controller_new x l =
     refresh_notices x
      \<lparr>tc_started = False, tc_therms = fold (\<lambda>e. put (te_id e) (thermo_new e)) (ld_thermostats l) [],
       tc_file_entries = map_of (rev (map (\<lambda>e. (te_id e, e)) (ld_thermostats l))), tc_skipped = ld_skipped l, tc_capped = ld_capped l,
       tc_readings = Map.empty, tc_seen = Map.empty, tc_restored = Map.empty, tc_own_restored = {}, tc_runtime_kept = None,
       tc_candidates = [], tc_sync_pending = None, tc_fx = []\<rparr>"

definition keep_running :: "controller \<Rightarrow> controller" where
  "keep_running c =
     (if \<not> tc_started c then c
      else let now = JObj (entries (List.map_filter (\<lambda>(i, t). map_option (\<lambda>p. (i, runtime_of p)) (th_published t)) (tc_therms c))) in
           if tc_runtime_kept c = Some now then c
           else push_fx [FxPersistLearned (JObj [(''runtime'', now)])] (c\<lparr>tc_runtime_kept := Some now\<rparr>))"

definition take_effects :: "controller \<Rightarrow> thermo_effect list \<times> controller" where
  "take_effects c = (let c1 = keep_running c in (tc_fx c1, c1\<lparr>tc_fx := []\<rparr>))"

definition keep_runtime_changes :: "plugin_ext \<Rightarrow> controller \<Rightarrow> controller" where
  "keep_runtime_changes x c =
     refresh_notices x (push_fx [FxPersistLearned (JObj [(''thermostats'', JObj (entries (List.map_filter
       (\<lambda>(i, t). Option.bind (tc_file_entries c i) (\<lambda>file. map_option (Pair i) (runtime_change file (th_cfg t)))) (tc_therms c))))])] c)"

definition report :: "string \<Rightarrow> string \<Rightarrow> string option \<Rightarrow> controller \<Rightarrow> controller" where
  "report i operation err c =
     (case get_thermo c i of
        None \<Rightarrow> c
      | Some t \<Rightarrow> push_fx [FxCommandResult (thermostat_device_id (th_cfg t)) operation err] (set_thermo i (t\<lparr>th_last_command_error := err\<rparr>) c))"

subsection \<open>Starting\<close>

definition settle :: "plugin_ext \<Rightarrow> timestamp \<Rightarrow> bool option \<Rightarrow> thermo \<Rightarrow> thermo" where
  "settle x now observed t =
     (let t1 = (if observed = Some False then t\<lparr>th_on_since := None\<rparr> else t);
          t2 = (if observed = Some True \<and> th_on_since t1 = None then t1\<lparr>th_on_since := Some now\<rparr> else t1);
          t3 = (if observed = Some True \<and> th_cycles_today t2 = 0 then t2\<lparr>th_cycles_today := 1\<rparr> else t2) in
      t3\<lparr>th_day_start := Some (unwrap_or (th_day_start t3) (hx_midnight x now)), th_force := thermo_active t3,
         th_grace_until := Some (now + thermo_secs STARTUP_GRACE_SECS)\<rparr>)"

definition evaluate_all :: "plugin_ext \<Rightarrow> timestamp \<Rightarrow> string list \<Rightarrow> controller \<Rightarrow> controller" where
  "evaluate_all x now = fold (evaluate x now)"

definition start :: "plugin_ext \<Rightarrow> timestamp \<Rightarrow> controller \<Rightarrow> controller" where
  "start x now c =
     (let ids = map fst (tc_therms c);
          c1 = push_fx (concat (map (\<lambda>(_, t). [FxRegister (th_cfg t), FxUnsubscribeOwn (thermostat_device_id (th_cfg t))]) (tc_therms c))
                 @ [FxReconcile (own_ids c)]) (c\<lparr>tc_started := True, tc_sync_pending := None\<rparr>);
          c2 = c1\<lparr>tc_therms := map (\<lambda>(i, t). (i, settle x now (observed_of c i) t)) (tc_therms c)\<rparr> in
      refresh_notices x (evaluate_all x now ids c2))"

definition restored_hold :: "plugin_ext \<Rightarrow> timestamp \<Rightarrow> json \<Rightarrow> thermo_hold option \<Rightarrow> thermo_hold option" where
  "restored_hold x now p old =
     (case (parse_time x (json_get p ''hold_until''), Option.bind (json_get p ''hold_setpoint'') as_f64) of
        (Some until, Some sp) \<Rightarrow>
          if now < until \<and> setpoint_problem x sp = None then Some \<lparr>ho_setpoint = sp, ho_until = until\<rparr> else old
      | _ \<Rightarrow> old)"

definition restored_figures :: "plugin_ext \<Rightarrow> timestamp \<Rightarrow> json \<Rightarrow> thermo \<Rightarrow> thermo" where
  "restored_figures x now p t =
     (case parse_time x (json_get p ''today_from'') of
        None \<Rightarrow> t
      | Some from_t \<Rightarrow>
          if from_t \<le> now \<and> now - from_t < thermo_secs (25 * 3600) then
            let n = (\<lambda>k. unwrap_or (Option.bind (json_get p k) as_u64) 0) in
            t\<lparr>th_day_start := Some from_t, th_run_secs_today := n ''run_secs_today'', th_cycles_today := n ''cycles_today'' mod 2 ^ 32,
              th_longest_run_secs_today := n ''longest_run_secs_today''\<rparr>
          else t)"

definition close_to :: "f64 \<Rightarrow> f64 \<Rightarrow> bool" where
  "close_to a b \<longleftrightarrow> (case f64_op (-) a b of Fin d \<Rightarrow> f64_lt (Fin \<bar>d\<bar>) (round_f64 (1 / 1000000)) | _ \<Rightarrow> False)"

definition restore_reading :: "plugin_ext \<Rightarrow> string \<times> json \<Rightarrow> controller \<Rightarrow> controller" where
  "restore_reading x e c =
     (case (Option.bind (json_get (snd e) ''temperature'') as_f64, parse_time x (json_get (snd e) ''at'')) of
        (Some v, Some u) \<Rightarrow>
          c\<lparr>tc_restored := (tc_restored c)(fst e \<mapsto> (v, u)),
            tc_readings := (case tc_readings c (fst e) of
                Some cur \<Rightarrow>
                  if (case rd_value cur of Some cv \<Rightarrow> close_to cv v | None \<Rightarrow> False)
                  then (tc_readings c)(fst e \<mapsto> cur\<lparr>rd_at := Some u, rd_shown_at := Some u\<rparr>) else tc_readings c
              | None \<Rightarrow> tc_readings c)\<rparr>
      | _ \<Rightarrow> c)"

definition restore_thermo :: "plugin_ext \<Rightarrow> timestamp \<Rightarrow> json \<Rightarrow> thermo \<Rightarrow> thermo" where
  "restore_thermo x now p t =
     (let t1 = (case parse_time x (json_get p ''actuator_last_change'') of Some ts \<Rightarrow> t\<lparr>th_last_change := Some ts\<rparr> | None \<Rightarrow> t);
          until = (case parse_time x (json_get p ''override_until'') of Some u \<Rightarrow> if now < u then Some u else None | None \<Rightarrow> None);
          t2 = t1\<lparr>th_override_until := until, th_override_at := (if until \<noteq> None then th_last_change t1 else th_override_at t1),
                 th_hold := restored_hold x now p (th_hold t1), th_on_since := parse_time x (json_get p ''on_since''),
                 th_calling := (case Option.bind (json_get p ''reason'') as_str of
                    Some r \<Rightarrow> r \<in> set [''heating'', ''cooling'', ''waiting_min_off''] | None \<Rightarrow> False)\<rparr> in
      restored_figures x now p t2)"

definition restore_own :: "plugin_ext \<Rightarrow> timestamp \<Rightarrow> string \<Rightarrow> json \<Rightarrow> controller \<Rightarrow> controller" where
  "restore_own x now i p c =
     (case get_thermo c i of
        None \<Rightarrow> c
      | Some t \<Rightarrow>
          let c1 = set_thermo i (restore_thermo x now p t) c in
          (case json_get p ''sensor_readings'' of Some (JObj rs) \<Rightarrow> fold (restore_reading x) rs c1 | _ \<Rightarrow> c1))"

definition apply_runtime :: "plugin_ext \<Rightarrow> timestamp \<Rightarrow> string \<times> json \<Rightarrow> controller \<Rightarrow> controller" where
  "apply_runtime x now e c =
     (if fst e \<notin> tc_own_restored c \<and> get_thermo c (fst e) \<noteq> None then restore_own x now (fst e) (snd e) c else c)"

definition apply_kept :: "plugin_ext \<Rightarrow> string \<times> json \<Rightarrow> controller \<Rightarrow> controller" where
  "apply_kept x e c =
     (case Option.bind (tc_file_entries c (fst e)) (\<lambda>file. learned_entry x file (snd e)) of
        None \<Rightarrow> c
      | Some entry \<Rightarrow> (case get_thermo c (fst e) of Some t \<Rightarrow> set_thermo (fst e) (t\<lparr>th_cfg := entry\<rparr>) c | None \<Rightarrow> c))"

definition apply_learned :: "plugin_ext \<Rightarrow> timestamp \<Rightarrow> json \<Rightarrow> controller \<Rightarrow> controller" where
  "apply_learned x now doc c =
     (if tc_started c then c
      else
        let c1 = (case json_get doc ''runtime'' of Some (JObj rs) \<Rightarrow> fold (apply_runtime x now) rs c | _ \<Rightarrow> c) in
        (case json_get doc ''thermostats'' of Some (JObj kept) \<Rightarrow> resubscribe (used_ids c1) (fold (apply_kept x) kept c1) | _ \<Rightarrow> c1))"

subsection \<open>What others say\<close>

definition users_of :: "string \<Rightarrow> controller \<Rightarrow> string list" where
  "users_of d c =
     map (\<lambda>(_, t). te_id (th_cfg t))
       (filter (\<lambda>(_, t). te_actuator_device_id (th_cfg t) = d \<or> d \<in> set (te_sensor_device_ids (th_cfg t))) (tc_therms c))"

definition evaluate_using :: "plugin_ext \<Rightarrow> timestamp \<Rightarrow> string \<Rightarrow> controller \<Rightarrow> controller" where
  "evaluate_using x now d c = evaluate_all x now (users_of d c) c"

definition sensor_attrs :: "string \<Rightarrow> controller \<Rightarrow> string list" where
  "sensor_attrs d c =
     remdups (map (\<lambda>(_, t). te_sensor_attribute (th_cfg t)) (filter (\<lambda>(_, t). d \<in> set (te_sensor_device_ids (th_cfg t))) (tc_therms c)))"

definition take_reading :: "timestamp \<Rightarrow> f64 \<Rightarrow> sensor_reading \<Rightarrow> sensor_reading" where
  "take_reading u v r =
     (let changed = (case rd_value r of Some w \<Rightarrow> \<not> f64_eq w v | None \<Rightarrow> True) in
      r\<lparr>rd_value := Some v, rd_at := Some u,
        rd_shown_at := (if changed \<or> (case rd_shown_at r of Some s \<Rightarrow> SHOWN_AT_EVERY_SECS \<le> num_seconds (u - s) | None \<Rightarrow> True)
                        then Some u else rd_shown_at r)\<rparr>)"

definition on_sensor_state :: "plugin_ext \<Rightarrow> timestamp \<Rightarrow> string \<Rightarrow> json \<Rightarrow> controller \<Rightarrow> controller" where
  "on_sensor_state x now d payload c =
     (case List.map_filter (json_get payload) (hx_hash_order x (sensor_attrs d c)) of
        [] \<Rightarrow> c
      | raw # _ \<Rightarrow>
          let r = unwrap_or (tc_readings c d) reading_default;
              store = (\<lambda>r'. c\<lparr>tc_readings := (tc_readings c)(d \<mapsto> r')\<rparr>) in
          (case as_f64 raw of
             None \<Rightarrow>
               if raw = JNull then evaluate_using x now d (store (r\<lparr>rd_value := None, rd_at := Some now, rd_shown_at := Some now\<rparr>))
               else store r
           | Some v \<Rightarrow>
               if \<not> in_f64_range (- 40) 60 v then store r
               else
                 let u = (case tc_restored c d of
                     Some (rv, rat) \<Rightarrow> if \<not> tc_started c \<and> close_to rv v then rat else now
                   | None \<Rightarrow> now) in
                 evaluate_using x now d (store (take_reading u v r))))"

text \<open>What a report of its switch does to a thermostat; \<open>prev\<close> is what was known before.\<close>

definition hear_switch :: "plugin_ext \<Rightarrow> timestamp \<Rightarrow> bool \<Rightarrow> bool option \<Rightarrow> bool \<Rightarrow> thermo \<Rightarrow> thermo" where
  "hear_switch x now started prev on t =
     (let changed = (prev \<noteq> None \<and> prev \<noteq> Some on);
          t1 = (if changed then note_switch x on now t
                else if prev = None \<and> on \<and> th_on_since t = None \<and> started then t\<lparr>th_on_since := Some now\<rparr> else t) in
      if th_commanded t1 = Some on \<and> \<not> th_confirmed t1 then
        t1\<lparr>th_confirmed := True, th_attempts := 0, th_retry_at := None, th_waiting_since := None, th_not_responding := False,
           th_entering_off := th_entering_off t1 \<and> on\<rparr>
      else if th_commanded t1 = Some (\<not> on) \<and> \<not> th_confirmed t1 then t1
      else if started \<and> changed then
        let t2 = t1\<lparr>th_last_change := Some now, th_commanded := Some on, th_confirmed := True\<rparr>; secs = override_secs (th_cfg t2) in
        if thermo_active t2 \<and> te_actuator_device_id (th_cfg t2) \<noteq> [] \<and> 0 < secs
        then t2\<lparr>th_override_until := Some (now + thermo_secs secs), th_override_at := Some now\<rparr> else t2
      else t1)"

definition hear_switch_in :: "plugin_ext \<Rightarrow> timestamp \<Rightarrow> bool option \<Rightarrow> bool \<Rightarrow> string \<Rightarrow> controller \<Rightarrow> controller" where
  "hear_switch_in x now prev on i c =
     (case get_thermo c i of
        None \<Rightarrow> c
      | Some t \<Rightarrow> evaluate x now i (set_thermo i (hear_switch x now (tc_started c) prev on t) c))"

definition switched_by :: "string \<Rightarrow> controller \<Rightarrow> string list" where
  "switched_by d c = map (\<lambda>(_, t). te_id (th_cfg t)) (filter (\<lambda>(_, t). te_actuator_device_id (th_cfg t) = d) (tc_therms c))"

definition on_switch_state :: "plugin_ext \<Rightarrow> timestamp \<Rightarrow> string \<Rightarrow> bool \<Rightarrow> controller \<Rightarrow> controller" where
  "on_switch_state x now d on c =
     (let s = seen_of (tc_seen c) d in
      fold (hear_switch_in x now (sn_on s) on) (switched_by d c) (c\<lparr>tc_seen := (tc_seen c)(d \<mapsto> s\<lparr>sn_on := Some on\<rparr>)\<rparr>))"

definition on_availability :: "plugin_ext \<Rightarrow> timestamp \<Rightarrow> string \<Rightarrow> bool \<Rightarrow> controller \<Rightarrow> controller" where
  "on_availability x now d online c =
     (if own_id c d \<noteq> None then c
      else
        let s = seen_of (tc_seen c) d;
            again = (\<lambda>t. if te_actuator_device_id (th_cfg t) = d \<and> th_commanded t \<noteq> None \<and> \<not> th_confirmed t
                         then t\<lparr>th_retry_at := Some now\<rparr> else t);
            c1 = c\<lparr>tc_seen := (tc_seen c)(d \<mapsto> s\<lparr>sn_online := Some online\<rparr>)\<rparr> in
        evaluate_using x now d
          (if online \<and> sn_online s = Some False then c1\<lparr>tc_therms := map (\<lambda>(i, t). (i, again t)) (tc_therms c1)\<rparr> else c1))"

subsection \<open>Choosing a switch\<close>

definition switch_to :: "timestamp \<Rightarrow> string \<Rightarrow> string \<Rightarrow> controller \<Rightarrow> controller" where
  "switch_to now i new c =
     (case get_thermo c i of
        None \<Rightarrow> c
      | Some t \<Rightarrow>
          let old = te_actuator_device_id (th_cfg t);
              t1 = t\<lparr>th_cfg := (th_cfg t)\<lparr>te_actuator_device_id := new\<rparr>\<rparr>;
              fx = (if old \<noteq> [] \<and> thermo_active t \<and> (observed_of c i = Some True \<or> th_commanded t = Some True)
                    then [FxCommand old (switch_payload (th_cfg t) False)] else []) in
          set_thermo i ((reset_switch t1)\<lparr>th_last_change := Some now, th_force := thermo_active t\<rparr>) (push_fx fx c))"

definition used_ids_with :: "controller \<Rightarrow> string \<Rightarrow> string set" where
  "used_ids_with c extra = insert extra (used_ids c)"

definition settle_candidate :: "plugin_ext \<Rightarrow> timestamp \<Rightarrow> string \<Rightarrow> controller \<Rightarrow> controller" where
  "settle_candidate x now d c =
     (let s = seen_of (tc_seen c) d in
      if \<not> (sn_has_on s \<or> sn_lockish s) then c
      else case map_of (tc_candidates c) d of
             None \<Rightarrow> c
           | Some cd \<Rightarrow>
               let i = cd_thermostat cd; c1 = c\<lparr>tc_candidates := remove_key d (tc_candidates c)\<rparr>;
                   old = used_ids_with c1 d;
                   c2 = (if sn_has_on s \<and> \<not> sn_lockish s
                         then keep_runtime_changes x (report i ''set_actuator'' None (switch_to now i d c1))
                         else report i ''set_actuator'' (Some (d @ '' is a lock, not a plug or switch'')) c1) in
               evaluate x now i (resubscribe old c2))"

definition on_state :: "plugin_ext \<Rightarrow> timestamp \<Rightarrow> string \<Rightarrow> json \<Rightarrow> controller \<Rightarrow> controller" where
  "on_state x now d payload c =
     (case own_id c d of
        Some i \<Rightarrow>
          if tc_started c then c
          else let c1 = heard d c in restore_own x now i payload (c1\<lparr>tc_own_restored := insert i (tc_own_restored c1)\<rparr>)
      | None \<Rightarrow>
          let s = seen_of (tc_seen c) d;
              s1 = s\<lparr>sn_has_on := sn_has_on s \<or> Option.bind (json_get payload ''on'') as_bool \<noteq> None,
                    sn_lockish := sn_lockish s \<or> json_get payload ''locked'' \<noteq> None\<rparr>;
              c1 = heard d c;
              c2 = c1\<lparr>tc_seen := (tc_seen c1)(d \<mapsto> s1)\<rparr>;
              c3 = (if map_of (tc_candidates c2) d \<noteq> None then settle_candidate x now d c2 else c2);
              c4 = on_sensor_state x now d payload c3 in
          (case interpret_actuator_on payload of Some on \<Rightarrow> on_switch_state x now d on c4 | None \<Rightarrow> c4))"

subsection \<open>The tick and the end\<close>

definition give_up :: "plugin_ext \<Rightarrow> string \<Rightarrow> controller \<Rightarrow> controller" where
  "give_up x d c =
     (case map_of (tc_candidates c) d of
        None \<Rightarrow> c
      | Some cd \<Rightarrow>
          let c1 = c\<lparr>tc_candidates := remove_key d (tc_candidates c)\<rparr>; old = used_ids_with c1 d in
          resubscribe old (report (cd_thermostat cd) ''set_actuator''
            (Some (d @ '' didn't report a state in '' @ show_nat CANDIDATE_SECS @ '' s '' @ em_dash @ '' is it a plug or switch?'')) c1))"

definition thermo_tick :: "plugin_ext \<Rightarrow> timestamp \<Rightarrow> controller \<Rightarrow> controller" where
  "thermo_tick x now c =
     (let expired = filter (\<lambda>d. case map_of (tc_candidates c) d of Some cd \<Rightarrow> cd_deadline cd \<le> now | None \<Rightarrow> False)
            (hx_hash_order x (map fst (tc_candidates c)));
          c1 = fold (give_up x) expired c in
      evaluate_all x now (map fst (tc_therms c1)) c1)"

definition shutdown :: "controller \<Rightarrow> controller" where
  "shutdown c =
     push_fx (concat (map (\<lambda>(_, t).
       if kind_of (th_cfg t) = Heater \<and> thermo_active t \<and> te_actuator_device_id (th_cfg t) \<noteq> []
          \<and> (Option.bind (tc_seen c (te_actuator_device_id (th_cfg t))) sn_on = Some True \<or> th_commanded t = Some True)
       then [FxCommand (te_actuator_device_id (th_cfg t)) (switch_payload (th_cfg t) False)] else []) (tc_therms c))) c"

definition recalculate_all :: "plugin_ext \<Rightarrow> bool \<Rightarrow> timestamp \<Rightarrow> controller \<Rightarrow> controller" where
  "recalculate_all x force now c =
     thermo_tick x now (if force
       then c\<lparr>tc_therms := map (\<lambda>(i, t). (i, t\<lparr>th_force := thermo_active t \<and> te_actuator_device_id (th_cfg t) \<noteq> []\<rparr>)) (tc_therms c)\<rparr> else c)"

subsection \<open>Commands\<close>

datatype cmd_outcome = CmdDone bool | CmdLater

type_synonym cmd_result = "controller \<times> (string, cmd_outcome) result"

text \<open>A change of one thermostat; an unknown id is an error.\<close>

definition change_thermo :: "string \<Rightarrow> controller \<Rightarrow> (thermo \<Rightarrow> thermo \<times> (string, cmd_outcome) result) \<Rightarrow> cmd_result" where
  "change_thermo i c f =
     (case get_thermo c i of
        None \<Rightarrow> (c, Inl (''no thermostat '' @ i))
      | Some t \<Rightarrow> let (t', r) = f t in (set_thermo i t' c, r))"

definition set_setpoint :: "plugin_ext \<Rightarrow> string \<Rightarrow> f64 \<Rightarrow> controller \<Rightarrow> cmd_result" where
  "set_setpoint x i v c =
     (case setpoint_problem x v of
        Some p \<Rightarrow> (c, Inl (pr_message p))
      | None \<Rightarrow> change_thermo i c (\<lambda>t.
          (person_changed_it (t\<lparr>th_cfg := (th_cfg t)\<lparr>te_setpoint := v\<rparr>, th_hold := None\<rparr>),
           Inr (CmdDone (\<not> f64_eq (te_setpoint (th_cfg t)) v)))))"

definition change_mode :: "string \<Rightarrow> thermo \<Rightarrow> thermo" where
  "change_mode m t =
     (let t1 = t\<lparr>th_cfg := (th_cfg t)\<lparr>te_mode := m\<rparr>, th_calling := False\<rparr> in
      if m = ''off'' then t1\<lparr>th_entering_off := (te_actuator_device_id (th_cfg t1) \<noteq> []), th_force := True, th_hold := None\<rparr>
      else t1\<lparr>th_entering_off := False\<rparr>)"

definition set_mode :: "string \<Rightarrow> string \<Rightarrow> controller \<Rightarrow> cmd_result" where
  "set_mode i m c = change_thermo i c (\<lambda>t.
     let kind = kind_of (th_cfg t); changed = (te_mode (th_cfg t) \<noteq> m) in
     if m \<notin> set (kind_modes kind)
     then (t, Inl (kind_only kind @ '' '' @ em_dash @ '' '' @ m @ '' isn't one of its modes ('' @ join_with '' or '' (kind_modes kind) @ '')''))
     else (person_changed_it (if changed then change_mode m t else t), Inr (CmdDone changed)))"

definition set_actuator :: "timestamp \<Rightarrow> string \<Rightarrow> json \<Rightarrow> controller \<Rightarrow> cmd_result" where
  "set_actuator now i p c =
     (if json_get p ''on_cmd'' \<noteq> None \<or> json_get p ''off_cmd'' \<noteq> None
      then (c, Inl ''custom on/off payloads come from the config file only'')
      else case Option.bind (json_get p ''device_id'') as_str of
        None \<Rightarrow> (c, Inl ''set_actuator needs `device_id`'')
      | Some new \<Rightarrow>
          (case get_thermo c i of
             None \<Rightarrow> (c, Inl ''no such thermostat'')
           | Some t \<Rightarrow>
               if new = [] then (switch_to now i [] c, Inr (CmdDone True))
               else if starts_with ''thermostat_'' new then (c, Inl ''a thermostat can't switch a thermostat'')
               else if new \<in> set (te_sensor_device_ids (th_cfg t)) then (c, Inl (new @ '' is one of its sensors''))
               else if new = te_actuator_device_id (th_cfg t) then (c, Inr (CmdDone False))
               else case tc_seen c new of
                      Some s \<Rightarrow>
                        if sn_has_on s \<and> \<not> sn_lockish s then (switch_to now i new c, Inr (CmdDone True))
                        else if sn_lockish s then (c, Inl (new @ '' is a lock, not a plug or switch''))
                        else (c\<lparr>tc_candidates := AList.update new \<lparr>cd_thermostat = i, cd_deadline = now + thermo_secs CANDIDATE_SECS\<rparr> (tc_candidates c)\<rparr>,
                              Inr CmdLater)
                    | None \<Rightarrow>
                        (c\<lparr>tc_candidates := AList.update new \<lparr>cd_thermostat = i, cd_deadline = now + thermo_secs CANDIDATE_SECS\<rparr> (tc_candidates c)\<rparr>,
                         Inr CmdLater)))"

definition write_attributes :: "plugin_ext \<Rightarrow> string \<Rightarrow> json \<Rightarrow> controller \<Rightarrow> cmd_result" where
  "write_attributes x i p c =
     (case attribute_writes p of
        (sp, mode) \<Rightarrow>
          if sp = None \<and> mode = None then (c, Inl ''nothing to do: send setpoint, hvac_mode or an action'')
          else
            let (c1, r1) = (case mode of Some m \<Rightarrow> set_mode i m c | None \<Rightarrow> (c, Inr (CmdDone False))) in
            (case r1 of
               Inl e \<Rightarrow> (c1, Inl e)
             | Inr o1 \<Rightarrow>
                 let (c2, r2) = (case sp of Some v \<Rightarrow> set_setpoint x i v c1 | None \<Rightarrow> (c1, Inr (CmdDone False))) in
                 (case r2 of Inl e \<Rightarrow> (c2, Inl e) | Inr o2 \<Rightarrow> (c2, Inr (CmdDone (o1 = CmdDone True \<or> o2 = CmdDone True))))))"

definition hold_command :: "plugin_ext \<Rightarrow> timestamp \<Rightarrow> string \<Rightarrow> json \<Rightarrow> controller \<Rightarrow> cmd_result" where
  "hold_command x now i p c =
     (case Option.bind (json_get p ''setpoint'') as_f64 of
        None \<Rightarrow> (c, Inl (''hold needs `setpoint` ('' @ degree @ ''C)''))
      | Some sp \<Rightarrow>
          (case setpoint_problem x sp of
             Some pr \<Rightarrow> (c, Inl (pr_message pr))
           | None \<Rightarrow>
               (case (case Option.bind (json_get p ''for_secs'') as_u64 of
                        Some s \<Rightarrow> Some s
                      | None \<Rightarrow> map_option (\<lambda>u. nat (max (num_seconds (u - now)) 0)) (parse_time x (json_get p ''until''))) of
                  None \<Rightarrow> (c, Inl ''hold needs `for_secs` (or `until`)'')
                | Some secs \<Rightarrow>
                    if secs < 60 \<or> MAX_HOLD_SECS < secs
                    then (c, Inl (''a hold lasts from a minute to '' @ show_nat (MAX_HOLD_SECS div 86400) @ '' days''))
                    else change_thermo i c (\<lambda>t.
                      ((person_changed_it t)\<lparr>th_hold := Some \<lparr>ho_setpoint = sp, ho_until = now + thermo_secs secs\<rparr>\<rparr>, Inr (CmdDone False))))))"

definition set_short_cycle :: "string \<Rightarrow> json \<Rightarrow> controller \<Rightarrow> cmd_result" where
  "set_short_cycle i p c =
     (let on = Option.bind (json_get p ''min_on_secs'') as_u64; off = Option.bind (json_get p ''min_off_secs'') as_u64;
          too_long = (\<lambda>v. case v of Some n \<Rightarrow> MAX_GUARD_SECS < n | None \<Rightarrow> False) in
      if on = None \<and> off = None then (c, Inl ''set_short_cycle needs min_on_secs or min_off_secs'')
      else if too_long on \<or> too_long off then (c, Inl (''a guard is at most '' @ show_nat MAX_GUARD_SECS @ '' s''))
      else change_thermo i c (\<lambda>t.
        (t\<lparr>th_cfg := (th_cfg t)\<lparr>te_min_on_secs := unwrap_or on (te_min_on_secs (th_cfg t)),
                             te_min_off_secs := unwrap_or off (te_min_off_secs (th_cfg t))\<rparr>\<rparr>, Inr (CmdDone True))))"

definition set_sensors :: "timestamp \<Rightarrow> string \<Rightarrow> json \<Rightarrow> controller \<Rightarrow> cmd_result" where
  "set_sensors now i p c =
     (let own = own_ids c; ids = Option.bind (json_get p ''sensor_ids'') sensor_ids_of; attribute = Option.bind (json_get p ''attribute'') as_str in
      change_thermo i c (\<lambda>t.
        let bad = (case ids of
              None \<Rightarrow> if attribute = None then Some ''set_sensors needs sensor_ids'' else None
            | Some ss \<Rightarrow>
                if list_ex (\<lambda>s. s \<in> set own) ss then Some ''a thermostat isn't a sensor''
                else if ss = [] \<and> thermo_active t then Some (''it is set to '' @ te_mode (th_cfg t) @ '' and needs at least one sensor'')
                else if te_actuator_device_id (th_cfg t) \<in> set ss then Some ''its switch can't be one of its sensors''
                else None) in
        case bad of
          Some e \<Rightarrow> (t, Inl e)
        | None \<Rightarrow>
            let t1 = (case ids of
                  Some ss \<Rightarrow>
                    t\<lparr>th_grace_until := (if ss \<noteq> te_sensor_device_ids (th_cfg t) then Some (now + thermo_secs FIRST_READING_SECS) else th_grace_until t),
                      th_cfg := (th_cfg t)\<lparr>te_sensor_device_ids := ss\<rparr>\<rparr>
                | None \<Rightarrow> t);
                t2 = (case attribute of Some a \<Rightarrow> t1\<lparr>th_cfg := (th_cfg t1)\<lparr>te_sensor_attribute := a\<rparr>\<rparr> | None \<Rightarrow> t1) in
            (t2, Inr (CmdDone True))))"

definition apply_command :: "plugin_ext \<Rightarrow> timestamp \<Rightarrow> string \<Rightarrow> string \<Rightarrow> json \<Rightarrow> controller \<Rightarrow> cmd_result" where
  "apply_command x now i cmd p c =
     (if cmd = ''set_setpoint'' then
        (case Option.bind (json_get p ''value'') as_f64 of
           None \<Rightarrow> (c, Inl (''set_setpoint needs a number `value` ('' @ degree @ ''C)''))
         | Some v \<Rightarrow> set_setpoint x i v c)
      else if cmd = ''set_mode'' then
        (case Option.bind (json_get p ''value'') as_str of None \<Rightarrow> (c, Inl ''set_mode needs `value`'') | Some m \<Rightarrow> set_mode i m c)
      else if cmd = [] then write_attributes x i p c
      else if cmd = ''hold'' then hold_command x now i p c
      else if cmd = ''resume'' then
        change_thermo i c (\<lambda>t. ((person_changed_it (t\<lparr>th_hold := None\<rparr>))\<lparr>th_force := thermo_active t\<rparr>, Inr (CmdDone False)))
      else if cmd = ''resync'' \<or> cmd = ''recalculate'' then
        change_thermo i c (\<lambda>t. (t\<lparr>th_force := thermo_active t \<and> te_actuator_device_id (th_cfg t) \<noteq> []\<rparr>, Inr (CmdDone False)))
      else if cmd = ''start_now'' then change_thermo i c (\<lambda>t. (t\<lparr>th_bypass_guard := True\<rparr>, Inr (CmdDone False)))
      else if cmd = ''set_hysteresis'' then
        (case Option.bind (json_get p ''value'') as_f64 of
           None \<Rightarrow> (c, Inl (''set_hysteresis needs a number `value` ('' @ degree @ ''C)''))
         | Some v \<Rightarrow>
             if \<not> (f64_le (Fin 0) v \<and> f64_le v MAX_HYSTERESIS)
             then (c, Inl (''the swing is 0 to '' @ hx_show_f64 x MAX_HYSTERESIS @ '' '' @ degree @ ''C''))
             else change_thermo i c (\<lambda>t. (t\<lparr>th_cfg := (th_cfg t)\<lparr>te_hysteresis := v\<rparr>\<rparr>, Inr (CmdDone True))))
      else if cmd = ''set_aggregation'' then
        (let v = unwrap_or (Option.bind (json_get p ''value'') as_str) [] in
         if v \<notin> set [''average'', ''min'', ''max''] then (c, Inl ''aggregation is average, min or max'')
         else change_thermo i c (\<lambda>t. (t\<lparr>th_cfg := (th_cfg t)\<lparr>te_aggregation := v\<rparr>\<rparr>, Inr (CmdDone True))))
      else if cmd = ''set_short_cycle'' then set_short_cycle i p c
      else if cmd = ''set_sensors'' then set_sensors now i p c
      else if cmd = ''set_actuator'' then set_actuator now i p c
      else (c, Inl (''unknown command '' @ dquoted cmd)))"

definition on_command :: "plugin_ext \<Rightarrow> timestamp \<Rightarrow> string \<Rightarrow> json \<Rightarrow> controller \<Rightarrow> controller" where
  "on_command x now d payload c =
     (case own_id c d of
        None \<Rightarrow> c
      | Some i \<Rightarrow>
          let operation = operation_of payload; old = used_ids c;
              (c1, r) = apply_command x now i (thermo_command_of payload) payload c;
              c2 = (case r of
                  Inr CmdLater \<Rightarrow> c1
                | Inr (CmdDone changed) \<Rightarrow> let c' = report i operation None c1 in if changed then keep_runtime_changes x c' else c'
                | Inl e \<Rightarrow> report i operation (Some e) c1) in
          evaluate x now i (resubscribe old c2))"

subsection \<open>Adding and removing\<close>

definition add_thermostat :: "plugin_ext \<Rightarrow> timestamp \<Rightarrow> thermostat_entry \<Rightarrow> controller \<Rightarrow> controller" where
  "add_thermostat x now e c =
     (let i = te_id e; t = thermo_new e;
          t1 = t\<lparr>th_force := thermo_active t, th_grace_until := Some (now + thermo_secs FIRST_READING_SECS), th_day_start := Some (hx_midnight x now)\<rparr>;
          c1 = resubscribe (used_ids c) (set_thermo i t1 (c\<lparr>tc_file_entries := (tc_file_entries c)(i \<mapsto> e)\<rparr>));
          c2 = (if tc_started c1 then push_fx [FxRegister e] c1 else c1) in
      refresh_notices x (evaluate x now i c2))"

definition remove_thermostat :: "plugin_ext \<Rightarrow> string \<Rightarrow> controller \<Rightarrow> controller \<times> bool" where
  "remove_thermostat x i c =
     (case get_thermo c i of
        None \<Rightarrow>
          let kept = filter (\<lambda>s. sk_id s \<noteq> Some i) (tc_skipped c); c1 = c\<lparr>tc_skipped := kept\<rparr> in
          (if length kept \<noteq> length (tc_skipped c) then refresh_notices x c1 else c1, False)
      | Some t \<Rightarrow>
          let d = thermostat_device_id (th_cfg t);
              off = (if te_actuator_device_id (th_cfg t) \<noteq> [] \<and> thermo_active t \<and> (observed_of c i = Some True \<or> th_commanded t = Some True)
                     then [FxCommand (te_actuator_device_id (th_cfg t)) (switch_payload (th_cfg t) False)] else []);
              c1 = push_fx (off @ [FxAlerts d [], FxUnregister d])
                     (c\<lparr>tc_therms := remove_key i (tc_therms c), tc_file_entries := (tc_file_entries c)(i := None)\<rparr>) in
          (refresh_notices x (resubscribe (used_ids c) c1), True))"

subsection \<open>The actor\<close>

text \<open>
  What reaches the actor (\<open>bridge.rs\<close>), one at a time; after each, the effects are carried out. For an
  added thermostat the flag says whether the file could be written. \<open>None\<close> would be an endless search
  for a free id.
\<close>

datatype thermo_event =
    TvState string json
  | TvAvailability string bool
  | TvCommand string json
  | TvLearned json
  | TvStart
  | TvTick
  | TvRecalculateAll bool
  | TvAdd add_request bool
  | TvRemove string
  | TvShutdown

definition mgmt_add :: "plugin_ext \<Rightarrow> timestamp \<Rightarrow> add_request \<Rightarrow> bool \<Rightarrow> controller \<Rightarrow> controller option" where
  "mgmt_add x now r written c =
     (let a = ad_actuator_device_id r in
      if starts_with ''thermostat_'' a \<or> a \<in> set (own_ids c) then Some c
      else if a \<in> set (ad_sensor_device_ids r) \<and> a \<noteq> [] then Some c
      else map_option (\<lambda>res. case res of Inl _ \<Rightarrow> c | Inr e \<Rightarrow> if written then add_thermostat x now e c else c)
             (into_entry x (id_taken c) r))"

definition thermo_handle :: "plugin_ext \<Rightarrow> timestamp \<Rightarrow> thermo_event \<Rightarrow> controller \<Rightarrow> controller option" where
  "thermo_handle x now ev c =
     (case ev of
        TvState d p \<Rightarrow> Some (on_state x now d p c)
      | TvAvailability d online \<Rightarrow> Some (on_availability x now d online c)
      | TvCommand d p \<Rightarrow> Some (on_command x now d p c)
      | TvLearned doc \<Rightarrow> Some (apply_learned x now doc c)
      | TvStart \<Rightarrow> Some (start x now c)
      | TvTick \<Rightarrow> Some (if tc_started c then thermo_tick x now c else c)
      | TvRecalculateAll force \<Rightarrow> Some (recalculate_all x force now c)
      | TvAdd r written \<Rightarrow> mgmt_add x now r written c
      | TvRemove i \<Rightarrow> Some (fst (remove_thermostat x i c))
      | TvShutdown \<Rightarrow> Some (shutdown c))"

end
