(* ===== verification/Thermostat_Steps.thy ===== *)
theory Thermostat_Steps
  imports Thermostat Glue_Theorems
begin

text \<open>
  Every input of the thermostat controller changes each thermostat only by the steps of one thermostat:
  a decision, a report of its switch, a setting. The interface \<open>thermo_steps\<close> says so for any
  relation that holds over these steps.
\<close>

subsection \<open>Reading the state\<close>

lemma get_thermo_simps [simp]:
  "get_thermo (push_fx es c) = get_thermo c"
  "get_thermo (set_thermo i t c) = (get_thermo c)(i \<mapsto> t)"
  "get_thermo (refresh_notices x c) = get_thermo c"
  "get_thermo (keep_runtime_changes x c) = get_thermo c"
  "get_thermo (keep_running c) = get_thermo c"
  "get_thermo (resubscribe old c) = get_thermo c"
  "get_thermo (heard d c) = get_thermo c"
  "get_thermo (begin_sync ids c) = get_thermo c"
  by (simp_all add: get_thermo_def push_fx_def set_thermo_def refresh_notices_def keep_runtime_changes_def keep_running_def
      resubscribe_def heard_def begin_sync_def Let_def)

lemma tc_simps [simp]:
  "tc_seen (push_fx es c) = tc_seen c" "tc_readings (push_fx es c) = tc_readings c" "tc_started (push_fx es c) = tc_started c"
  "tc_seen (set_thermo i t c) = tc_seen c" "tc_readings (set_thermo i t c) = tc_readings c" "tc_started (set_thermo i t c) = tc_started c"
  "tc_file_entries (push_fx es c) = tc_file_entries c" "tc_file_entries (set_thermo i t c) = tc_file_entries c"
  "tc_candidates (push_fx es c) = tc_candidates c" "tc_candidates (set_thermo i t c) = tc_candidates c"
  "tc_therms (push_fx es c) = tc_therms c" "tc_fx (set_thermo i t c) = tc_fx c" "tc_fx (push_fx es c) = tc_fx c @ es"
  by (simp_all add: push_fx_def set_thermo_def)

lemma tc_started_simps [simp]:
  "tc_started (refresh_notices x c) = tc_started c" "tc_started (keep_runtime_changes x c) = tc_started c"
  "tc_started (resubscribe old c) = tc_started c" "tc_started (heard d c) = tc_started c"
  "tc_file_entries (refresh_notices x c) = tc_file_entries c" "tc_file_entries (keep_runtime_changes x c) = tc_file_entries c"
  "tc_file_entries (resubscribe old c) = tc_file_entries c" "tc_file_entries (heard d c) = tc_file_entries c"
  by (simp_all add: refresh_notices_def keep_runtime_changes_def resubscribe_def heard_def Let_def)

lemma get_thermo_cong [simp]:
  "get_thermo (c\<lparr>tc_seen := a\<rparr>) = get_thermo c" "get_thermo (c\<lparr>tc_readings := b\<rparr>) = get_thermo c"
  "get_thermo (c\<lparr>tc_candidates := d\<rparr>) = get_thermo c" "get_thermo (c\<lparr>tc_own_restored := e\<rparr>) = get_thermo c"
  "get_thermo (c\<lparr>tc_file_entries := f\<rparr>) = get_thermo c"
  "get_thermo (c\<lparr>tc_skipped := k\<rparr>) = get_thermo c" "get_thermo (c\<lparr>tc_fx := l\<rparr>) = get_thermo c"
  "get_thermo (c\<lparr>tc_restored := m\<rparr>) = get_thermo c" "get_thermo (c\<lparr>tc_started := g\<rparr>) = get_thermo c"
  "get_thermo (c\<lparr>tc_sync_pending := h\<rparr>) = get_thermo c" "get_thermo (c\<lparr>tc_runtime_kept := n\<rparr>) = get_thermo c"
  by (simp_all add: get_thermo_def)

lemma get_thermo_remove [simp]: "get_thermo (c\<lparr>tc_therms := remove_key i (tc_therms c)\<rparr>) = (get_thermo c)(i := None)"
  by (simp add: get_thermo_def)

lemma get_thermo_map [simp]:
  "get_thermo (c\<lparr>tc_therms := map (\<lambda>(i, t). (i, f i t)) ts\<rparr>) i = map_option (f i) (map_of ts i)"
  unfolding get_thermo_def by (induction ts) auto

lemma started_report [simp]: "tc_started (report i ope e c) = tc_started c" "tc_file_entries (report i ope e c) = tc_file_entries c"
  by (simp_all add: report_def split: option.split)

subsection \<open>The steps of a thermostat\<close>

definition decided :: "plugin_ext \<Rightarrow> timestamp \<Rightarrow> reading_map \<Rightarrow> seen_map \<Rightarrow> thermo \<Rightarrow> thermo" where
  "decided x now rs sn t = fst (say_state x now rs sn (fst (decide x now rs sn t)))"

lemma evaluate_eq:
  "evaluate x now i c = (if tc_started c then case get_thermo c i of None \<Rightarrow> c
     | Some t \<Rightarrow> push_fx (snd (decide x now (tc_readings c) (tc_seen c) t)
         @ snd (say_state x now (tc_readings c) (tc_seen c) (fst (decide x now (tc_readings c) (tc_seen c) t))))
         (set_thermo i (decided x now (tc_readings c) (tc_seen c) t) c)
   else c)"
  by (simp add: evaluate_def decided_def Let_def split: option.split prod.split)

lemma evaluate_simps [simp]:
  "tc_started (evaluate x now i c) = tc_started c" "tc_seen (evaluate x now i c) = tc_seen c"
  "tc_readings (evaluate x now i c) = tc_readings c" "tc_file_entries (evaluate x now i c) = tc_file_entries c"
  "tc_candidates (evaluate x now i c) = tc_candidates c"
  by (simp_all add: evaluate_eq split: option.split)

text \<open>
  A relation between the states of a thermostat that holds over each of its steps, with what the
  controller makes sure of before it takes the step; \<open>start_ok\<close> says whether someone may ask for a start now.
\<close>

locale thermo_steps =
  fixes x :: plugin_ext and now :: timestamp and started :: bool and start_ok :: bool and R :: "thermo \<Rightarrow> thermo \<Rightarrow> bool"
  assumes R_refl: "R t t"
    and R_trans: "R t ta \<Longrightarrow> R ta tb \<Longrightarrow> R t tb"
    and R_decided: "started \<Longrightarrow> R t (decided x now rs sn t)"
    and R_hear: "R t (hear_switch x now started prev on t)"
    and R_settle: "\<not> started \<Longrightarrow> R t (settle x now observed t)"
    and R_restore: "\<not> started \<Longrightarrow> R t (restore_thermo x now p t)"
    and R_learned: "\<not> started \<Longrightarrow> entry_problem x e = None \<Longrightarrow> R t (t\<lparr>th_cfg := e\<rparr>)"
    and R_error: "R t (t\<lparr>th_last_command_error := err\<rparr>)"
    and R_retry: "R t (t\<lparr>th_retry_at := r\<rparr>)"
    and R_force: "R t (t\<lparr>th_force := b\<rparr>)"
    and R_start_now: "start_ok \<Longrightarrow> R t (t\<lparr>th_bypass_guard := True\<rparr>)"
    and R_person: "R t (person_changed_it t)"
    and R_setpoint: "setpoint_problem x v = None \<Longrightarrow> R t (t\<lparr>th_cfg := (th_cfg t)\<lparr>te_setpoint := v\<rparr>, th_hold := None\<rparr>)"
    and R_mode: "m \<in> set (kind_modes (kind_of (th_cfg t))) \<Longrightarrow> R t (change_mode m t)"
    and R_hold: "setpoint_problem x v = None \<Longrightarrow> R t (t\<lparr>th_hold := Some \<lparr>ho_setpoint = v, ho_until = u\<rparr>\<rparr>)"
    and R_no_hold: "R t (t\<lparr>th_hold := None\<rparr>)"
    and R_hysteresis: "f64_le (Fin 0) v \<Longrightarrow> f64_le v MAX_HYSTERESIS \<Longrightarrow> R t (t\<lparr>th_cfg := (th_cfg t)\<lparr>te_hysteresis := v\<rparr>\<rparr>)"
    and R_aggregation: "a \<in> set [''average'', ''min'', ''max''] \<Longrightarrow> R t (t\<lparr>th_cfg := (th_cfg t)\<lparr>te_aggregation := a\<rparr>\<rparr>)"
    and R_guards: "n \<le> MAX_GUARD_SECS \<or> n = te_min_on_secs (th_cfg t) \<Longrightarrow> k \<le> MAX_GUARD_SECS \<or> k = te_min_off_secs (th_cfg t) \<Longrightarrow>
      R t (t\<lparr>th_cfg := (th_cfg t)\<lparr>te_min_on_secs := n, te_min_off_secs := k\<rparr>\<rparr>)"
    and R_sensors: "ss \<noteq> [] \<or> \<not> thermo_active t \<Longrightarrow> R t (t\<lparr>th_grace_until := g, th_cfg := (th_cfg t)\<lparr>te_sensor_device_ids := ss\<rparr>\<rparr>)"
    and R_attribute: "R t (t\<lparr>th_cfg := (th_cfg t)\<lparr>te_sensor_attribute := a\<rparr>\<rparr>)"
    and R_switch: "R t ((reset_switch (t\<lparr>th_cfg := (th_cfg t)\<lparr>te_actuator_device_id := d\<rparr>\<rparr>))\<lparr>th_last_change := Some now, th_force := b\<rparr>)"
begin

text \<open>All thermostats of \<open>c\<close> are still there and have gone some steps.\<close>

definition stepped :: "controller \<Rightarrow> controller \<Rightarrow> bool" where
  "stepped c c' \<longleftrightarrow> tc_started c' = tc_started c \<and> tc_file_entries c' = tc_file_entries c \<and>
     (\<forall>i. rel_option R (get_thermo c i) (get_thermo c' i))"

lemma rel_refl: "rel_option R o1 o1"
  by (cases o1) (simp_all add: R_refl)

lemma moved_refl: "tc_started c' = tc_started c \<Longrightarrow> tc_file_entries c' = tc_file_entries c \<Longrightarrow> get_thermo c' = get_thermo c \<Longrightarrow> stepped c c'"
  by (simp add: stepped_def rel_refl)

lemma rel_trans: "rel_option R o1 o2 \<Longrightarrow> rel_option R o2 o3 \<Longrightarrow> rel_option R o1 o3"
  by (cases o1; cases o2; cases o3) (auto intro: R_trans)

lemma moved_trans: "stepped a b \<Longrightarrow> stepped b c \<Longrightarrow> stepped a c"
  unfolding stepped_def using rel_trans by metis

lemma moved_set:
  "get_thermo c i = Some t \<Longrightarrow> R t t' \<Longrightarrow> tc_started c' = tc_started c \<Longrightarrow> tc_file_entries c' = tc_file_entries c \<Longrightarrow>
   get_thermo c' = (get_thermo c)(i \<mapsto> t') \<Longrightarrow> stepped c c'"
  by (simp add: stepped_def rel_refl)

lemma moved_evaluate: "tc_started c = started \<Longrightarrow> stepped c (evaluate x now i c)"
  by (auto simp: evaluate_eq moved_refl split: option.split intro!: moved_set R_decided)

lemma moved_fold: "(\<And>i c. tc_started c = started \<Longrightarrow> stepped c (f i c)) \<Longrightarrow> tc_started c = started \<Longrightarrow> stepped c (fold f is c)"
proof (induction "is" arbitrary: c)
  case (Cons i "is")
  have "stepped c (f i c)" using Cons.prems by blast
  moreover have "stepped (f i c) (fold f is (f i c))" using Cons calculation by (simp add: stepped_def)
  ultimately show ?case by (auto intro: moved_trans)
qed (simp add: moved_refl)

lemma moved_evaluate_all: "tc_started c = started \<Longrightarrow> stepped c (evaluate_all x now is c)"
  unfolding evaluate_all_def by (rule moved_fold) (rule moved_evaluate)

lemma moved_report: "stepped c (report i ope e c)"
  by (auto simp: report_def moved_refl split: option.split intro!: moved_set R_error)

lemma moved_started: "stepped c d \<Longrightarrow> tc_started d = tc_started c"
  by (simp add: stepped_def)

text \<open>A chain of changes, each from a controller that has started just as the first.\<close>

lemma moved_then:
  assumes "stepped c d" "tc_started c = started" "\<And>d. tc_started d = started \<Longrightarrow> stepped d (f d)"
  shows "stepped c (f d)"
  using assms moved_trans moved_started by metis

lemma moved_evaluate_using: "tc_started c = started \<Longrightarrow> stepped c (evaluate_using x now d c)"
  unfolding evaluate_using_def by (rule moved_evaluate_all)

lemma moved_store: "stepped c (c\<lparr>tc_readings := r\<rparr>)" "stepped c (c\<lparr>tc_seen := s\<rparr>)" "stepped c (c\<lparr>tc_candidates := k\<rparr>)"
  "stepped c (resubscribe old c)" "stepped c (keep_runtime_changes x c)" "stepped c (heard d c)" "stepped c (push_fx es c)"
  "stepped c (c\<lparr>tc_own_restored := w\<rparr>)" "stepped c (refresh_notices x c)"
  by (simp_all add: moved_refl)

lemma moved_sensor_state: "tc_started c = started \<Longrightarrow> stepped c (on_sensor_state x now d payload c)"
proof -
  assume st: "tc_started c = started"
  have "stepped c (evaluate_using x now d (c\<lparr>tc_readings := r\<rparr>))" for r
    using moved_then [where f = "evaluate_using x now d", OF moved_store(1) st moved_evaluate_using] .
  then show ?thesis by (auto simp: on_sensor_state_def Let_def moved_store moved_refl split: list.split option.split)
qed

lemma moved_hear: "tc_started c = started \<Longrightarrow> stepped c (hear_switch_in x now prev on i c)"
proof (cases "get_thermo c i")
  case (Some t)
  assume st: "tc_started c = started"
  have "stepped c (set_thermo i (hear_switch x now started prev on t) c)" by (rule moved_set [OF Some R_hear]) simp_all
  from moved_then [where f = "evaluate x now i", OF this st moved_evaluate] Some st show ?thesis by (simp add: hear_switch_in_def)
qed (simp add: hear_switch_in_def moved_refl)

lemma moved_switch_state: "tc_started c = started \<Longrightarrow> stepped c (on_switch_state x now d on c)"
  unfolding on_switch_state_def Let_def
  by (rule moved_then [where f = "fold (hear_switch_in x now _ on) _", OF moved_store(2)])
    (simp_all add: moved_fold moved_hear)

lemma moved_switch_to: "stepped c (switch_to now i new c)"
  by (auto simp: switch_to_def Let_def moved_refl split: option.split intro!: moved_set R_switch)

lemma moved_settle_candidate: "tc_started c = started \<Longrightarrow> stepped c (settle_candidate x now d c)"
  unfolding settle_candidate_def Let_def
  by (auto simp: moved_refl split: option.split intro!: moved_then [where f = "evaluate x now _"] moved_evaluate
      moved_then [where f = "resubscribe _"] moved_then [where f = "report _ _ _"] moved_then [where f = "keep_runtime_changes x"]
      moved_then [where f = "switch_to now _ _"] moved_store moved_report moved_switch_to)

lemma moved_restore_reading: "stepped c (restore_reading x e c)"
  by (auto simp: restore_reading_def moved_refl split: option.split)

lemma moved_restore_own: "\<not> started \<Longrightarrow> tc_started c = started \<Longrightarrow> stepped c (restore_own x now i p c)"
proof (cases "get_thermo c i")
  case (Some t)
  assume st: "\<not> started" "tc_started c = started"
  have "stepped c (set_thermo i (restore_thermo x now p t) c)" using st(1) by (intro moved_set [OF Some R_restore]) simp_all
  moreover from moved_then [where f = "fold (restore_reading x) rs" for rs, OF this st(2) moved_fold [OF moved_restore_reading]]
  have "stepped c (fold (restore_reading x) rs (set_thermo i (restore_thermo x now p t) c))" for rs .
  ultimately show ?thesis using Some by (auto simp: restore_own_def Let_def split: option.split json.split)
qed (simp add: restore_own_def moved_refl)

lemma moved_state:
  assumes "tc_started c = started"
  shows "stepped c (on_state x now d payload c)"
proof (cases "own_id c d")
  case (Some i)
  have "stepped c ((heard d c)\<lparr>tc_own_restored := insert i (tc_own_restored (heard d c))\<rparr>)" by (simp add: moved_refl)
  from moved_then [where f = "restore_own x now i payload", OF this assms moved_restore_own] Some assms
  show ?thesis by (auto simp: on_state_def Let_def moved_refl)
next
  case None
  have a: "stepped c ((heard d c)\<lparr>tc_seen := sm\<rparr>)" for sm by (simp add: moved_refl)
  have b: "stepped c (if k then settle_candidate x now d ((heard d c)\<lparr>tc_seen := sm\<rparr>) else (heard d c)\<lparr>tc_seen := sm\<rparr>)" for k sm
    using a moved_then [where f = "settle_candidate x now d", OF a assms moved_settle_candidate] by simp
  note c = moved_then [where f = "on_sensor_state x now d payload", OF b assms moved_sensor_state]
  note e = moved_then [where f = "on_switch_state x now d on" for on, OF c assms moved_switch_state]
  show ?thesis unfolding on_state_def Let_def None option.case
    by (cases "interpret_actuator_on payload") (simp_all only: option.case c e)
qed

lemma moved_availability:
  assumes "tc_started c = started"
  shows "stepped c (on_availability x now d online c)"
proof -
  let ?again = "\<lambda>t. if te_actuator_device_id (th_cfg t) = d \<and> th_commanded t \<noteq> None \<and> \<not> th_confirmed t then t\<lparr>th_retry_at := Some now\<rparr> else t"
  have "rel_option R o1 (map_option ?again o1)" for o1 by (cases o1) (simp_all add: R_refl R_retry)
  then have "stepped c (c\<lparr>tc_seen := sm, tc_therms := map (\<lambda>(i, t). (i, ?again t)) (tc_therms c)\<rparr>)" for sm
    unfolding stepped_def using get_thermo_map [where f = "\<lambda>_. ?again" and ts = "tc_therms c" and c = "c\<lparr>tc_seen := sm\<rparr>"]
    by (simp add: get_thermo_def)
  then have "stepped c (if k then c\<lparr>tc_seen := sm, tc_therms := map (\<lambda>(i, t). (i, ?again t)) (tc_therms c)\<rparr> else c\<lparr>tc_seen := sm\<rparr>)" for k sm
    using moved_store(2) by simp
  note again = moved_then [where f = "evaluate_using x now d", OF this assms moved_evaluate_using]
  show ?thesis
  proof (cases "own_id c d = None")
    case True
    have t: "tc_therms (c\<lparr>tc_seen := sm\<rparr>) = tc_therms c" for sm by simp
    show ?thesis unfolding on_availability_def Let_def t by (simp only: True simp_thms if_False, rule again)
  qed (simp add: on_availability_def moved_refl)
qed

lemma moved_give_up: "stepped c (give_up x d c)"
proof -
  have "stepped c (resubscribe old (report i ope e (c\<lparr>tc_candidates := k\<rparr>)))" for old i ope e k
    using moved_trans [OF moved_trans [OF moved_store(3) moved_report] moved_store(4)] .
  then show ?thesis by (simp add: give_up_def Let_def moved_refl split: option.split)
qed

lemma moved_tick:
  assumes "tc_started c = started"
  shows "stepped c (thermo_tick x now c)"
proof -
  have "stepped c (fold (give_up x) ds c)" for ds
    by (rule moved_fold [where f = "give_up x", OF moved_give_up assms])
  from moved_then [where f = "\<lambda>d. evaluate_all x now (map fst (tc_therms d)) d", OF this assms moved_evaluate_all]
  show ?thesis by (simp add: thermo_tick_def Let_def)
qed

lemma moved_recalculate:
  assumes "tc_started c = started"
  shows "stepped c (recalculate_all x force now c)"
proof -
  let ?f = "\<lambda>t. t\<lparr>th_force := thermo_active t \<and> te_actuator_device_id (th_cfg t) \<noteq> []\<rparr>"
  have "rel_option R o1 (map_option ?f o1)" for o1 by (cases o1) (simp_all add: R_force)
  then have "stepped c (c\<lparr>tc_therms := map (\<lambda>(i, t). (i, ?f t)) (tc_therms c)\<rparr>)"
    unfolding stepped_def using get_thermo_map [where f = "\<lambda>_. ?f" and ts = "tc_therms c" and c = c] by (simp add: get_thermo_def)
  then have "stepped c (if force then c\<lparr>tc_therms := map (\<lambda>(i, t). (i, ?f t)) (tc_therms c)\<rparr> else c)" by (simp add: moved_refl)
  from moved_then [where f = "thermo_tick x now", OF this assms moved_tick] show ?thesis by (simp add: recalculate_all_def)
qed

text \<open>The commands.\<close>

lemma moved_change:
  assumes "\<And>t. get_thermo c i = Some t \<Longrightarrow> R t (fst (f t))"
  shows "stepped c (fst (change_thermo i c f))"
  using assms by (auto simp: change_thermo_def Let_def split_beta moved_refl split: option.split intro!: moved_set)

lemma moved_set_setpoint: "stepped c (fst (set_setpoint x i v c))"
  by (auto simp: set_setpoint_def moved_refl split: option.split
      intro!: moved_change R_trans [OF R_setpoint R_person])

lemma moved_set_mode: "stepped c (fst (set_mode i m c))"
  unfolding set_mode_def by (rule moved_change) (auto simp: Let_def R_refl R_person intro: R_trans [OF R_mode R_person])

lemma moved_set_actuator: "stepped c (fst (set_actuator now i p c))"
  by (simp add: set_actuator_def moved_refl moved_switch_to moved_store split: option.split)

lemma moved_write_attributes: "stepped c (fst (write_attributes x i p c))"
proof -
  have m: "stepped c (fst (case mode of Some m \<Rightarrow> set_mode i m c | None \<Rightarrow> (c, Inr (CmdDone False))))" for mode
    by (simp add: moved_set_mode moved_refl split: option.split)
  have s: "stepped c1 (fst (case sp of Some v \<Rightarrow> set_setpoint x i v c1 | None \<Rightarrow> (c1, Inr (CmdDone False))))" for sp c1
    by (simp add: moved_set_setpoint moved_refl split: option.split)
  show ?thesis using m moved_trans [OF m s]
    by (auto simp: write_attributes_def Let_def split_beta moved_refl split: prod.split sum.split)
qed

lemma moved_hold: "stepped c (fst (hold_command x now i p c))"
  unfolding hold_command_def
  by (auto simp: moved_refl split: option.split intro!: moved_change R_trans [OF R_person R_hold])

lemma R_one_guard:
  "n \<le> MAX_GUARD_SECS \<Longrightarrow> R t (t\<lparr>th_cfg := (th_cfg t)\<lparr>te_min_on_secs := n\<rparr>\<rparr>)"
  "n \<le> MAX_GUARD_SECS \<Longrightarrow> R t (t\<lparr>th_cfg := (th_cfg t)\<lparr>te_min_off_secs := n\<rparr>\<rparr>)"
  using R_guards [where t = t and n = n and k = "te_min_off_secs (th_cfg t)"]
    R_guards [where t = t and n = "te_min_on_secs (th_cfg t)" and k = n] by simp_all

lemma moved_short_cycle: "stepped c (fst (set_short_cycle i p c))"
  by (auto simp: set_short_cycle_def Let_def moved_refl split: option.split intro!: moved_change R_guards R_one_guard)

lemma R_sensors_attribute:
  "ss \<noteq> [] \<or> \<not> thermo_active t \<Longrightarrow> R t (t\<lparr>th_grace_until := g, th_cfg := (th_cfg t)\<lparr>te_sensor_device_ids := ss, te_sensor_attribute := a\<rparr>\<rparr>)"
  using R_trans [OF R_sensors [where ss = ss and t = t and g = g] R_attribute [where a = a]] by simp

lemma moved_set_sensors: "stepped c (fst (set_sensors now i p c))"
  unfolding set_sensors_def Let_def
  by (rule moved_change)
    (auto simp: R_refl split: option.split intro!: R_sensors R_attribute R_sensors_attribute)

lemma moved_adjust: "(\<And>t. R t (g t)) \<Longrightarrow> stepped c (fst (change_thermo i c (\<lambda>t. (g t, r))))"
  by (rule moved_change) simp

lemma moved_command: "cmd = ''start_now'' \<longrightarrow> start_ok \<Longrightarrow> stepped c (fst (apply_command x now i cmd p c))"
proof -
  assume ok: "cmd = ''start_now'' \<longrightarrow> start_ok"
  have resume: "R t ((person_changed_it (t\<lparr>th_hold := None\<rparr>))\<lparr>th_force := b\<rparr>)" for t b
    by (rule R_trans [OF R_trans [OF R_no_hold R_person] R_force])
  note adjusts = moved_adjust [OF resume] moved_adjust [OF R_force] moved_adjust [OF R_start_now]
    moved_adjust [OF R_hysteresis] moved_adjust [OF R_aggregation]
  note others = moved_set_setpoint moved_set_mode moved_write_attributes moved_hold moved_short_cycle moved_set_sensors moved_set_actuator
  have "fst (if b then u else v) = (if b then fst u else fst v)" for b and u v :: cmd_result by simp
  then show ?thesis
    using ok unfolding apply_command_def Let_def by (simp add: adjusts others moved_refl split: option.split)
qed

lemma moved_on_command:
  assumes "tc_started c = started" "thermo_command_of payload = ''start_now'' \<longrightarrow> start_ok"
  shows "stepped c (on_command x now d payload c)"
proof (cases "own_id c d")
  case (Some i)
  let ?a = "apply_command x now i (thermo_command_of payload) payload c"
  have "stepped c (case snd ?a of
      Inr CmdLater \<Rightarrow> fst ?a
    | Inr (CmdDone changed) \<Rightarrow> if changed then keep_runtime_changes x (report i (operation_of payload) None (fst ?a)) else report i (operation_of payload) None (fst ?a)
    | Inl e \<Rightarrow> report i (operation_of payload) (Some e) (fst ?a))"
    using moved_command [OF assms(2)] moved_trans [OF moved_command [OF assms(2)] moved_report]
      moved_trans [OF moved_trans [OF moved_command [OF assms(2)] moved_report] moved_store(5)]
    by (simp split: sum.split cmd_outcome.split)
  from moved_then [where f = "evaluate x now i", OF moved_trans [OF this moved_store(4)] assms(1) moved_evaluate] Some show ?thesis
    unfolding on_command_def Let_def by (simp add: split_beta)
qed (simp add: on_command_def moved_refl)

lemma moved_learned:
  assumes "\<not> started" "tc_started c = started"
  shows "stepped c (apply_learned x now doc c)"
proof -
  have r: "stepped c (apply_runtime x now e c)" if "tc_started c = started" for e c
    using that assms(1) by (simp add: apply_runtime_def moved_restore_own moved_refl)
  have "entry_problem x en = None" if "Option.bind (tc_file_entries c i) (\<lambda>file. learned_entry x file v) = Some en" for c i v en
    using that by (auto simp: learned_entry_def Option.bind_eq_Some_conv split: option.split_asm if_split_asm)
  then have k: "stepped c (apply_kept x e c)" for e c
    using assms(1) by (auto simp: apply_kept_def moved_refl split: option.split intro!: moved_set R_learned)
  have "stepped c (fold (apply_runtime x now) rs c)" for rs by (rule moved_fold [where f = "apply_runtime x now", OF r assms(2)])
  then have c1: "stepped c (case json_get doc ''runtime'' of Some (JObj rs) \<Rightarrow> fold (apply_runtime x now) rs c | _ \<Rightarrow> c)"
    by (simp add: moved_refl split: option.split json.split)
  have f: "stepped d (resubscribe (used_ids d) (fold (apply_kept x) kept d))" if "tc_started d = started" for d kept
    using moved_trans [OF moved_fold [where f = "apply_kept x", OF k that] moved_store(4)] .
  from c1 moved_then [where f = "\<lambda>d. resubscribe (used_ids d) (fold (apply_kept x) kept d)" for kept, OF c1 assms(2) f]
  show ?thesis using assms unfolding apply_learned_def Let_def by (auto split: option.split json.split)
qed

end

subsection \<open>What a decision leaves alone\<close>

lemma roll_day_keeps [simp]: "th_cfg (roll_day x now b t) = th_cfg t" "th_hold (roll_day x now b t) = th_hold t"
  by (simp_all add: roll_day_def Let_def split: option.split)

lemma note_switch_keeps [simp]: "th_cfg (note_switch x b now t) = th_cfg t" "th_hold (note_switch x b now t) = th_hold t"
  by (simp_all add: note_switch_def Let_def split: option.split)

lemma person_changed_it_keeps [simp]: "th_cfg (person_changed_it t) = th_cfg t" "th_hold (person_changed_it t) = th_hold t"
  by (simp_all add: person_changed_it_def Let_def split: option.split)

lemma reset_switch_keeps [simp]: "th_cfg (reset_switch t) = th_cfg t" "th_hold (reset_switch t) = th_hold t"
  by (simp_all add: reset_switch_def Let_def split: option.split)

lemma end_hold_override_keeps [simp]: "th_cfg (end_hold_override now t) = th_cfg t"
  by (simp_all add: end_hold_override_def Let_def split: option.split)

lemma read_sensors_keeps [simp]: "th_cfg (fst (read_sensors now rs sn t)) = th_cfg t" "th_hold (fst (read_sensors now rs sn t)) = th_hold t"
  by (simp_all add: read_sensors_def Let_def split: option.split)

lemma check_run_keeps [simp]: "th_cfg (check_run now on t) = th_cfg t" "th_hold (check_run now on t) = th_hold t"
  by (simp_all add: check_run_def Let_def split: option.split)

lemma desired_state_keeps [simp]: "th_cfg (fst (desired_state w t)) = th_cfg t" "th_hold (fst (desired_state w t)) = th_hold t"
  by (simp_all add: desired_state_def Let_def split: option.split)

lemma want_transition_keeps [simp]: "th_cfg (fst (want_transition now on sf b t)) = th_cfg t" "th_hold (fst (want_transition now on sf b t)) = th_hold t"
  by (simp_all add: want_transition_def Let_def split: option.split)

lemma choose_send_keeps [simp]: "th_cfg (fst (choose_send now sw on de sf t)) = th_cfg t" "th_hold (fst (choose_send now sw on de sf t)) = th_hold t"
  by (simp_all add: choose_send_def Let_def split: option.split)

lemma send_switch_keeps [simp]: "th_cfg (send_switch now ob b t) = th_cfg t" "th_hold (send_switch now ob b t) = th_hold t"
  by (simp_all add: send_switch_def Let_def split: option.split)

lemma judge_response_keeps [simp]: "th_cfg (judge_response now sw de t) = th_cfg t" "th_hold (judge_response now sw de t) = th_hold t"
  by (simp_all add: judge_response_def Let_def split: option.split)

lemma say_state_keeps [simp]: "th_cfg (fst (say_state x now rs sn t)) = th_cfg t" "th_hold (fst (say_state x now rs sn t)) = th_hold t"
  by (simp_all add: say_state_def Let_def split: option.split)

lemma hear_switch_keeps [simp]: "th_cfg (hear_switch x now st prev b t) = th_cfg t" "th_hold (hear_switch x now st prev b t) = th_hold t"
  by (simp_all add: hear_switch_def Let_def split: option.split)

lemma settle_keeps [simp]: "th_cfg (settle x now ob t) = th_cfg t" "th_hold (settle x now ob t) = th_hold t"
  by (simp_all add: settle_def Let_def split: option.split)

lemma restored_figures_keeps [simp]: "th_cfg (restored_figures x now p t) = th_cfg t" "th_hold (restored_figures x now p t) = th_hold t"
  by (simp_all add: restored_figures_def Let_def split: option.split)

lemma restore_thermo_keeps [simp]: "th_cfg (restore_thermo x now p t) = th_cfg t"
  by (simp_all add: restore_thermo_def Let_def split: option.split)

lemma end_hold: "th_hold (end_hold_override now t) \<in> {th_hold t, None}"
  by (simp add: end_hold_override_def Let_def split: option.split)

lemma restore_hold: "th_hold (restore_thermo x now p t) = restored_hold x now p (th_hold t)"
  by (simp add: restore_thermo_def Let_def split: option.split)

lemma decide_eq:
  assumes "sw = seen_of sn (te_actuator_device_id (th_cfg t))" "on = option_or (sn_on sw) (th_commanded t)"
    and "t1 = end_hold_override now (roll_day x now (on = Some True) t)" "rd = read_sensors now rs sn t1"
    and "de = desired_state (snd rd) (check_run now on (fst rd))" "se = choose_send now sw on (fst (snd de)) (snd (snd de)) (fst de)"
  shows "decide x now rs sn t =
    (judge_response now sw (fst (snd de)) (case snd se of Some w \<Rightarrow> send_switch now (sn_on sw) w (fst se) | None \<Rightarrow> fst se),
     case snd se of Some w \<Rightarrow> [FxCommand (te_actuator_device_id (th_cfg t)) (switch_payload (th_cfg t) w)] | None \<Rightarrow> [])"
  unfolding assms decide_def Let_def by (simp only: case_prod_beta fst_conv snd_conv)

lemma decide_keeps [simp]: "th_cfg (fst (decide x now rs sn t)) = th_cfg t"
  by (simp add: decide_eq [OF refl refl refl refl refl refl] split: option.split)

lemma decided_cfg [simp]: "th_cfg (decided x now rs sn t) = th_cfg t"
  by (simp add: decided_def)

lemma decided_hold: "th_hold (decided x now rs sn t) \<in> {th_hold t, None}"
  using end_hold [of now "roll_day x now _ t"]
  by (simp add: decided_def decide_eq [OF refl refl refl refl refl refl] split: option.split)

end
