(* ===== verification/Thermostat_Theorems.thy ===== *)
theory Thermostat_Theorems
  imports Thermostat_Steps
begin

text \<open>
  What the thermostat controller keeps. On the interface of \<open>Thermostat_Steps\<close> rest the validity of all
  settings and the short-cycle guard. The set of devices listened to follows the settings. The call
  for heat or cold is a latch. A run that is too long is ended, with exactly stated exceptions, one of
  which is not meant.
\<close>

subsection \<open>Settings stay valid\<close>

definition entry_sound :: "plugin_ext \<Rightarrow> thermostat_entry \<Rightarrow> bool" where
  "entry_sound x e \<longleftrightarrow>
     id_problem (te_id e) = None \<and> (case te_kind e of Some k \<Rightarrow> kind_parse k \<noteq> None | None \<Rightarrow> True)
     \<and> te_mode e \<in> set (kind_modes (kind_of e)) \<and> te_aggregation e \<in> set [''average'', ''min'', ''max'']
     \<and> \<not> f64_lt (te_hysteresis e) (Fin 0) \<and> is_finite (te_hysteresis e) \<and> te_on_stale e \<in> {None, Some ''off'', Some ''hold''}
     \<and> setpoint_problem x (te_setpoint e) = None"

definition settings_ok :: "plugin_ext \<Rightarrow> thermo \<Rightarrow> bool" where
  "settings_ok x t \<longleftrightarrow>
     entry_sound x (th_cfg t) \<and> (case th_hold t of Some h \<Rightarrow> setpoint_problem x (ho_setpoint h) = None | None \<Rightarrow> True)"

lemma no_problem_sound: "entry_problem x e = None \<Longrightarrow> entry_sound x e"
  unfolding entry_problem_def entry_sound_def Let_def
  by (simp split: option.split_asm if_split_asm option.split)

lemma setpoint_problem_None: "setpoint_problem x v = None \<longleftrightarrow> in_f64_range (- 40) 45 v"
  by (simp add: setpoint_problem_def Let_def)

lemma kind_of_keeps [simp]:
  "kind_of (e\<lparr>te_setpoint := v\<rparr>) = kind_of e" "kind_of (e\<lparr>te_hysteresis := v\<rparr>) = kind_of e" "kind_of (e\<lparr>te_aggregation := a\<rparr>) = kind_of e"
  "kind_of (e\<lparr>te_min_on_secs := n\<rparr>) = kind_of e" "kind_of (e\<lparr>te_min_off_secs := n\<rparr>) = kind_of e"
  "kind_of (e\<lparr>te_sensor_device_ids := ss\<rparr>) = kind_of e" "kind_of (e\<lparr>te_sensor_attribute := a\<rparr>) = kind_of e"
  "kind_of (e\<lparr>te_actuator_device_id := a\<rparr>) = kind_of e"
  by (simp_all add: kind_of_def)

lemma sound_keeps [simp]:
  "entry_sound x (e\<lparr>te_min_on_secs := n\<rparr>) = entry_sound x e" "entry_sound x (e\<lparr>te_min_off_secs := n\<rparr>) = entry_sound x e"
  "entry_sound x (e\<lparr>te_sensor_device_ids := ss\<rparr>) = entry_sound x e" "entry_sound x (e\<lparr>te_sensor_attribute := a\<rparr>) = entry_sound x e"
  "entry_sound x (e\<lparr>te_actuator_device_id := a\<rparr>) = entry_sound x e"
  by (simp_all add: entry_sound_def)

lemma kind_modes_off [simp]: "''off'' \<in> set (kind_modes k)"
  by (simp add: kind_modes_def split: thermo_kind.split)

lemma mode_stays_offered:
  "m \<in> set (kind_modes (kind_of e)) \<Longrightarrow> te_mode e \<in> set (kind_modes (kind_of e)) \<Longrightarrow> m \<in> set (kind_modes (kind_of (e\<lparr>te_mode := m\<rparr>)))"
  by (cases "Option.bind (te_kind e) kind_parse") (auto simp: kind_of_def kind_modes_def split: if_splits)

lemma settings_settings:
  "settings_ok x t \<Longrightarrow> settings_ok x (decided x now rs sn t)"
  "settings_ok x t \<Longrightarrow> settings_ok x (restore_thermo x now p t)"
  "settings_ok x t \<Longrightarrow> m \<in> set (kind_modes (kind_of (th_cfg t))) \<Longrightarrow> settings_ok x (change_mode m t)"
  using decided_hold [of x now rs sn t] mode_stays_offered [of m "th_cfg t"]
  by (auto simp: settings_ok_def restore_hold restored_hold_def change_mode_def entry_sound_def Let_def split: option.split)

lemma settings_keeps [simp]:
  "settings_ok x (t\<lparr>th_last_command_error := err\<rparr>) = settings_ok x t" "settings_ok x (t\<lparr>th_retry_at := r\<rparr>) = settings_ok x t"
  "settings_ok x (t\<lparr>th_force := b\<rparr>) = settings_ok x t" "settings_ok x (t\<lparr>th_bypass_guard := b\<rparr>) = settings_ok x t"
  "settings_ok x (t\<lparr>th_grace_until := g\<rparr>) = settings_ok x t" "settings_ok x (t\<lparr>th_last_change := g\<rparr>) = settings_ok x t"
  "settings_ok x (person_changed_it t) = settings_ok x t" "settings_ok x (reset_switch t) = settings_ok x t"
  "settings_ok x (hear_switch x now st prev on t) = settings_ok x t" "settings_ok x (settle x now ob t) = settings_ok x t"
  by (simp_all add: settings_ok_def)

lemma settings_changes:
  "settings_ok x t \<Longrightarrow> setpoint_problem x v = None \<Longrightarrow> settings_ok x (t\<lparr>th_cfg := (th_cfg t)\<lparr>te_setpoint := v\<rparr>, th_hold := None\<rparr>)"
  "settings_ok x t \<Longrightarrow> setpoint_problem x v = None \<Longrightarrow> settings_ok x (t\<lparr>th_hold := Some \<lparr>ho_setpoint = v, ho_until = u\<rparr>\<rparr>)"
  "settings_ok x t \<Longrightarrow> settings_ok x (t\<lparr>th_hold := None\<rparr>)"
  "settings_ok x t \<Longrightarrow> a \<in> set [''average'', ''min'', ''max''] \<Longrightarrow> settings_ok x (t\<lparr>th_cfg := (th_cfg t)\<lparr>te_aggregation := a\<rparr>\<rparr>)"
  "settings_ok x t \<Longrightarrow> entry_problem x e = None \<Longrightarrow> settings_ok x (t\<lparr>th_cfg := e\<rparr>)"
  "settings_ok x t \<Longrightarrow> settings_ok x (t\<lparr>th_cfg := (th_cfg t)\<lparr>te_min_on_secs := n, te_min_off_secs := k\<rparr>\<rparr>)"
  "settings_ok x t \<Longrightarrow> settings_ok x (t\<lparr>th_cfg := (th_cfg t)\<lparr>te_sensor_device_ids := ss\<rparr>\<rparr>)"
  "settings_ok x t \<Longrightarrow> settings_ok x (t\<lparr>th_cfg := (th_cfg t)\<lparr>te_sensor_attribute := b\<rparr>\<rparr>)"
  "settings_ok x t \<Longrightarrow> settings_ok x (t\<lparr>th_cfg := (th_cfg t)\<lparr>te_actuator_device_id := b\<rparr>\<rparr>)"
  by (simp_all add: settings_ok_def no_problem_sound) (simp_all add: entry_sound_def)

lemma settings_sensors: "settings_ok x t \<Longrightarrow> settings_ok x (t\<lparr>th_grace_until := g, th_cfg := (th_cfg t)\<lparr>te_sensor_device_ids := ss\<rparr>\<rparr>)"
  by (simp add: settings_ok_def)

lemma settings_hysteresis:
  assumes "settings_ok x t" "f64_le (Fin 0) v" "f64_le v MAX_HYSTERESIS"
  shows "settings_ok x (t\<lparr>th_cfg := (th_cfg t)\<lparr>te_hysteresis := v\<rparr>\<rparr>)"
proof -
  have "\<not> f64_lt v (Fin 0)" using assms(2) f64_lt_not_le by blast
  moreover have "is_finite v" using assms(2,3) by (cases v) (simp_all add: is_finite_def MAX_HYSTERESIS_def f64_le_def)
  ultimately show ?thesis using assms(1) by (simp add: settings_ok_def entry_sound_def)
qed

interpretation settings: thermo_steps x now st True "\<lambda>t u. settings_ok x t \<longrightarrow> settings_ok x u" for x now st
  by unfold_locales
    (simp_all add: settings_settings settings_changes settings_hysteresis settings_sensors)

lemma cap_keeps:
  "te_id (fst (cap x e)) = te_id e" "te_mode (fst (cap x e)) = te_mode e" "te_setpoint (fst (cap x e)) = te_setpoint e"
  "entry_sound x e \<Longrightarrow> entry_sound x (fst (cap x e))"
  by (simp_all add: cap_def Let_def split_beta entry_sound_def) (simp add: kind_of_def MAX_HYSTERESIS_def is_finite_def)

lemma loaded_sound:
  assumes "\<forall>e \<in> set (ld_thermostats l). entry_sound x e"
  shows "\<forall>e \<in> set (ld_thermostats (load_from x n raw l)). entry_sound x e"
  using assms
proof (induction raw arbitrary: n l)
  case (Cons v raw)
  have "\<forall>e \<in> set (ld_thermostats (load_thermostat x n v l)). entry_sound x e"
    using Cons.prems no_problem_sound cap_keeps(4)
    by (auto simp: load_thermostat_def skip_entry_def Let_def split_beta split: sum.split option.split)
  then show ?case using Cons.IH by simp
qed simp

lemma new_settings: "settings_ok x (thermo_new e) = entry_sound x e"
  by (simp add: settings_ok_def thermo_new_def)

definition all_settings_ok :: "plugin_ext \<Rightarrow> controller \<Rightarrow> bool" where
  "all_settings_ok x c \<longleftrightarrow> (\<forall>i t. get_thermo c i = Some t \<longrightarrow> settings_ok x t)"

lemma all_settings_simps [simp]:
  "all_settings_ok x (push_fx es c) = all_settings_ok x c" "all_settings_ok x (resubscribe old c) = all_settings_ok x c"
  "all_settings_ok x (refresh_notices x' c) = all_settings_ok x c" "all_settings_ok x (c\<lparr>tc_file_entries := fe\<rparr>) = all_settings_ok x c"
  by (simp_all add: all_settings_ok_def)

lemma all_settings_set: "all_settings_ok x c \<Longrightarrow> settings_ok x t \<Longrightarrow> all_settings_ok x (set_thermo i t c)"
  by (simp add: all_settings_ok_def)

lemma moved_settings: "settings.stepped x c c' \<Longrightarrow> all_settings_ok x c \<Longrightarrow> all_settings_ok x c'"
  unfolding settings.stepped_def all_settings_ok_def by (metis option.rel_distinct(1) option.rel_inject(2) option.exhaust)

lemma put_all: "map_of (fold (\<lambda>e. put (te_id e) (f e)) es ts) i = Some t \<Longrightarrow> t \<in> f ` set es \<or> map_of ts i = Some t"
proof (induction es arbitrary: ts)
  case (Cons e es)
  show ?case using Cons.IH [of "put (te_id e) (f e) ts"] Cons.prems by (auto split: if_splits)
qed simp

lemma new_controller_settings: "all_settings_ok x (controller_new x (config_parse x raw))"
proof -
  have "entry_sound x e" if "e \<in> set (ld_thermostats (config_parse x raw))" for e
    using loaded_sound [of "\<lparr>ld_thermostats = [], ld_skipped = [], ld_capped = []\<rparr>" x 0 raw] that by (simp add: config_parse_def)
  then show ?thesis
    using put_all [where f = thermo_new and ts = "[]"]
    by (fastforce simp: all_settings_ok_def controller_new_def get_thermo_def refresh_notices_def push_fx_def new_settings)
qed

lemma start_settings:
  assumes "all_settings_ok x c"
  shows "all_settings_ok x (start x now c)"
proof -
  let ?c = "(push_fx (concat (map (\<lambda>(_, t). [FxRegister (th_cfg t), FxUnsubscribeOwn (thermostat_device_id (th_cfg t))]) (tc_therms c))
                 @ [FxReconcile (own_ids c)]) (c\<lparr>tc_started := True, tc_sync_pending := None\<rparr>))
      \<lparr>tc_therms := map (\<lambda>(i, t). (i, settle x now (observed_of c i) t)) (tc_therms c)\<rparr>"
  have "all_settings_ok x ?c" using assms by (auto simp: all_settings_ok_def get_thermo_def [symmetric])
  moreover have "settings.stepped x ?c (evaluate_all x now is ?c)" for "is" by (rule settings.moved_evaluate_all [OF refl])
  ultimately have "all_settings_ok x (evaluate_all x now is ?c)" for "is" using moved_settings by blast
  then show ?thesis by (simp add: start_def Let_def all_settings_ok_def)
qed

lemma add_settings:
  assumes "all_settings_ok x c" "entry_sound x e"
  shows "all_settings_ok x (add_thermostat x now e c)"
proof -
  have "all_settings_ok x c1 \<Longrightarrow> all_settings_ok x (evaluate x now i c1)" for i c1
    using settings.moved_evaluate [OF refl] moved_settings by blast
  moreover have "settings_ok x ((thermo_new e)\<lparr>th_force := f, th_grace_until := g, th_day_start := d\<rparr>)" for f g d
    using assms(2) by (simp add: settings_ok_def thermo_new_def)
  ultimately show ?thesis using assms(1) by (simp add: add_thermostat_def Let_def all_settings_set)
qed

lemma into_entry_sound: "into_entry x taken r = Some (Inr e) \<Longrightarrow> entry_sound x e"
  using cap_keeps(4) no_problem_sound
  by (fastforce simp: into_entry_def Let_def split: option.splits if_splits)

lemma remove_settings: "all_settings_ok x c \<Longrightarrow> all_settings_ok x (fst (remove_thermostat x i c))"
  by (auto simp: remove_thermostat_def Let_def all_settings_ok_def split: option.split if_splits)

lemma handle_settings:
  assumes "all_settings_ok x c" "thermo_handle x now ev c = Some c'"
  shows "all_settings_ok x c'"
proof -
  note moves = settings.moved_state [OF refl] settings.moved_availability [OF refl] settings.moved_on_command [OF refl impI [OF TrueI]]
    settings.moved_tick [OF refl] settings.moved_recalculate [OF refl]
  note kept = moves [THEN moved_settings, OF assms(1)]
  have "all_settings_ok x (apply_learned x now doc c)" for doc
    using settings.moved_learned [of False c x now doc, THEN moved_settings] assms(1) by (cases "tc_started c") (auto simp: apply_learned_def)
  moreover have "all_settings_ok x c'" if "mgmt_add x now r w c = Some c'" for r w c'
    using that add_settings [OF assms(1) into_entry_sound] assms(1)
    by (auto simp: mgmt_add_def Let_def split: if_splits sum.split)
  ultimately show ?thesis
    using assms(2) kept start_settings [OF assms(1)] remove_settings [OF assms(1)] assms(1)
    by (cases ev) (auto simp: thermo_handle_def shutdown_def)
qed

subsection \<open>Runs\<close>

text \<open>
  A turn of the actor, at a time not before the last one's: an event (one of \<open>P\<close>; the start comes once)
  and the effects carried out.
\<close>

inductive thermo_step :: "plugin_ext \<Rightarrow> (thermo_event \<Rightarrow> bool) \<Rightarrow> timestamp \<times> controller \<Rightarrow> timestamp \<times> controller \<Rightarrow> bool" for x P where
  turn: "u \<le> v \<Longrightarrow> P ev \<Longrightarrow> ev = TvStart \<longrightarrow> \<not> tc_started c \<Longrightarrow> thermo_handle x v ev c = Some c' \<Longrightarrow>
    thermo_step x P (u, c) (v, snd (take_effects c'))"

lemma taken_get [simp]: "get_thermo (snd (take_effects c)) = get_thermo c" "tc_started (snd (take_effects c)) = tc_started c"
  by (simp_all add: take_effects_def keep_running_def push_fx_def Let_def)

lemma run_settings:
  assumes "(thermo_step x P)\<^sup>*\<^sup>* (u, c) vc" "all_settings_ok x c"
  shows "all_settings_ok x (snd vc)"
  using assms
proof (induction rule: rtranclp_induct)
  case (step vc wc)
  then show ?case using handle_settings by (auto elim!: thermo_step.cases simp: all_settings_ok_def)
qed simp

text \<open>
  C38. Whatever is in the file, and whatever is then sent, learned, added or removed, every thermostat
  of the plugin has settings it can run with: its target, also during a hold, is between -40 and 45
  degrees (what looks like Fahrenheit is never obeyed), its mode is one its kind has, its swing is a
  finite number and not negative, and its way to combine sensors is a known one.
\<close>

theorem settings_stay_valid:
  assumes "(thermo_step x P)\<^sup>*\<^sup>* (u, controller_new x (config_parse x raw)) (v, c)" "get_thermo c i = Some t"
  shows "in_f64_range (- 40) 45 (thermo_target t) \<and> te_mode (th_cfg t) \<in> set (kind_modes (kind_of (th_cfg t)))
    \<and> is_finite (te_hysteresis (th_cfg t)) \<and> \<not> f64_lt (te_hysteresis (th_cfg t)) (Fin 0)
    \<and> te_aggregation (th_cfg t) \<in> set [''average'', ''min'', ''max'']"
proof -
  have "settings_ok x t"
    using run_settings [OF assms(1) new_controller_settings] assms(2) by (simp add: all_settings_ok_def)
  then show ?thesis
    by (auto simp: settings_ok_def entry_sound_def thermo_target_def setpoint_problem_None split: option.split)
qed

subsection \<open>The short-cycle guard\<close>

definition switched_since :: "timestamp \<Rightarrow> thermo \<Rightarrow> bool" where
  "switched_since a t \<longleftrightarrow> (case th_last_change t of Some l \<Rightarrow> a \<le> l | None \<Rightarrow> False)"

lemma stage_last_change [simp]:
  "th_last_change (roll_day x now b t) = th_last_change t" "th_last_change (person_changed_it t) = th_last_change t"
  "th_last_change (end_hold_override now t) = th_last_change t" "th_last_change (fst (read_sensors now rs sn t)) = th_last_change t"
  "th_last_change (check_run now on t) = th_last_change t" "th_last_change (fst (desired_state w t)) = th_last_change t"
  "th_last_change (send_switch now ob b t) = th_last_change t" "th_last_change (judge_response now sw de t) = th_last_change t"
  "th_last_change (fst (say_state x now rs sn t)) = th_last_change t" "th_last_change (change_mode m t) = th_last_change t"
  by (simp_all add: roll_day_def person_changed_it_def end_hold_override_def read_sensors_def check_run_def desired_state_def
      send_switch_def judge_response_def say_state_def change_mode_def Let_def split: option.split)

lemma note_switch_last_change [simp]: "th_last_change (note_switch x b now t) = th_last_change t"
  by (simp add: note_switch_def Let_def split: option.split)

lemma last_change_now:
  "th_last_change (fst (choose_send now sw on de sf t)) \<in> {th_last_change t, Some now}"
  "th_last_change (hear_switch x now st prev b t) \<in> {th_last_change t, Some now}"
  by (simp_all add: choose_send_def want_transition_def hear_switch_def Let_def split: option.split)

lemma decided_last_change: "th_last_change (decided x now rs sn t) \<in> {th_last_change t, Some now}"
  unfolding decided_def decide_eq [OF refl refl refl refl refl refl]
  using last_change_now(1) [of now _ _ _ _ "fst (desired_state _ (check_run now _ (fst (read_sensors now rs sn (end_hold_override now (roll_day x now _ t))))))"]
  by (simp split: option.split)

text \<open>The steps of one thermostat of a controller that runs, short of a request to start now.\<close>

inductive thermo_move :: "plugin_ext \<Rightarrow> timestamp \<Rightarrow> thermo \<Rightarrow> thermo \<Rightarrow> bool" for x now where
  mv_decided: "thermo_move x now t (decided x now rs sn t)"
| mv_hear: "thermo_move x now t (hear_switch x now True prev on t)"
| mv_error: "thermo_move x now t (t\<lparr>th_last_command_error := err\<rparr>)"
| mv_retry: "thermo_move x now t (t\<lparr>th_retry_at := r\<rparr>)"
| mv_force: "thermo_move x now t (t\<lparr>th_force := b\<rparr>)"
| mv_person: "thermo_move x now t (person_changed_it t)"
| mv_setpoint: "setpoint_problem x v = None \<Longrightarrow> thermo_move x now t (t\<lparr>th_cfg := (th_cfg t)\<lparr>te_setpoint := v\<rparr>, th_hold := None\<rparr>)"
| mv_mode: "m \<in> set (kind_modes (kind_of (th_cfg t))) \<Longrightarrow> thermo_move x now t (change_mode m t)"
| mv_hold: "thermo_move x now t (t\<lparr>th_hold := h\<rparr>)"
| mv_hysteresis: "thermo_move x now t (t\<lparr>th_cfg := (th_cfg t)\<lparr>te_hysteresis := v\<rparr>\<rparr>)"
| mv_aggregation: "thermo_move x now t (t\<lparr>th_cfg := (th_cfg t)\<lparr>te_aggregation := g\<rparr>\<rparr>)"
| mv_guards: "thermo_move x now t (t\<lparr>th_cfg := (th_cfg t)\<lparr>te_min_on_secs := n, te_min_off_secs := k\<rparr>\<rparr>)"
| mv_sensors: "thermo_move x now t (t\<lparr>th_grace_until := u, th_cfg := (th_cfg t)\<lparr>te_sensor_device_ids := ss\<rparr>\<rparr>)"
| mv_attribute: "thermo_move x now t (t\<lparr>th_cfg := (th_cfg t)\<lparr>te_sensor_attribute := g\<rparr>\<rparr>)"
| mv_switch: "thermo_move x now t ((reset_switch (t\<lparr>th_cfg := (th_cfg t)\<lparr>te_actuator_device_id := d\<rparr>\<rparr>))\<lparr>th_last_change := Some now, th_force := b\<rparr>)"

abbreviation thermo_moves :: "plugin_ext \<Rightarrow> timestamp \<Rightarrow> thermo \<Rightarrow> thermo \<Rightarrow> bool" where
  "thermo_moves x now \<equiv> (thermo_move x now)\<^sup>*\<^sup>*"

interpretation moves: thermo_steps x now True False "thermo_moves x now" for x now
  by unfold_locales (auto intro: thermo_move.intros)

text \<open>The switch has not changed before \<open>a\<close>, and no request to start now is outstanding.\<close>

definition locked_since :: "timestamp \<Rightarrow> thermo \<Rightarrow> bool" where
  "locked_since a t \<longleftrightarrow> switched_since a t \<and> \<not> th_bypass_guard t"

lemma desired_state_bypass [simp]:
  "th_bypass_guard (fst (desired_state w t)) = th_bypass_guard t" "th_commanded (fst (desired_state w t)) = th_commanded t"
  "th_bypass_guard (check_run now on t) = th_bypass_guard t" "th_commanded (check_run now on t) = th_commanded t"
  "th_bypass_guard (fst (read_sensors now rs sn t)) = th_bypass_guard t" "th_commanded (fst (read_sensors now rs sn t)) = th_commanded t"
  "th_bypass_guard (end_hold_override now t) = th_bypass_guard t" "th_commanded (end_hold_override now t) = th_commanded t"
  "th_bypass_guard (roll_day x now b t) = th_bypass_guard t" "th_commanded (roll_day x now b t) = th_commanded t"
  by (simp_all add: desired_state_def check_run_def read_sensors_def end_hold_override_def roll_day_def Let_def split: option.split)

lemma note_switch_bypass [simp]: "th_bypass_guard (note_switch x b now t) = th_bypass_guard t"
  by (simp add: note_switch_def Let_def split: option.split)

lemma hear_switch_bypass [simp]: "th_bypass_guard (hear_switch x now st prev b t) = th_bypass_guard t"
  by (simp add: hear_switch_def Let_def)

lemma stage_bypass [simp]:
  "th_bypass_guard (person_changed_it t) = th_bypass_guard t" "th_bypass_guard (change_mode m t) = th_bypass_guard t"
  "th_bypass_guard (judge_response now sw de t) = th_bypass_guard t" "th_bypass_guard (fst (say_state x now rs sn t)) = th_bypass_guard t"
  "th_bypass_guard (fst (choose_send now sw on de sf t)) = th_bypass_guard t" "\<not> th_bypass_guard (send_switch now ob b t)"
  by (simp_all add: person_changed_it_def change_mode_def judge_response_def say_state_def choose_send_def
      want_transition_def send_switch_def Let_def split: option.split)

lemma decided_bypass: "th_bypass_guard (decided x now rs sn t) \<Longrightarrow> th_bypass_guard t"
  unfolding decided_def decide_eq [OF refl refl refl refl refl refl] by (simp split: option.splits)

lemma move_locked:
  assumes "thermo_move x now t u" "a \<le> now" "locked_since a t"
  shows "locked_since a u"
  using assms
proof (cases rule: thermo_move.cases)
  case (mv_decided rs sn)
  then show ?thesis using assms decided_last_change [of x now rs sn t] decided_bypass [of x now rs sn t]
    by (auto simp: locked_since_def switched_since_def)
next
  case (mv_hear prev on)
  then show ?thesis using assms last_change_now(2) [of x now True prev on t] by (auto simp: locked_since_def switched_since_def)
qed (simp_all add: locked_since_def switched_since_def reset_switch_def)

lemma moves_locked: "thermo_moves x now t u \<Longrightarrow> a \<le> now \<Longrightarrow> locked_since a t \<Longrightarrow> locked_since a u"
  by (induction rule: rtranclp_induct) (auto intro: move_locked)

lemma free_id_free: "free_id base taken i n = Some j \<Longrightarrow> \<not> taken j"
  by (rule free_id.raw_induct [where P = "\<lambda>base taken i n j. \<not> taken j"]) (simp split: if_splits, blast)

lemma free_id_step:
  "taken i \<Longrightarrow> free_id base taken i n = free_id base taken (numbered base n) (n + 1)" "\<not> taken i \<Longrightarrow> free_id base taken i n = Some i"
  by (subst free_id.simps, simp add: numbered_def)+

lemma free_id_finds: "\<not> taken (numbered base (n + k)) \<Longrightarrow> free_id base taken i n \<noteq> None"
proof (induction k arbitrary: i n)
  case 0
  then show ?case by (cases "taken i") (simp_all add: free_id_step)
next
  case (Suc k)
  then show ?case by (cases "taken i") (use Suc.IH [of "n + 1"] in \<open>simp_all add: free_id_step\<close>)
qed

text \<open>The search for a free id ends, so every event is handled.\<close>

lemma free_id_exists: "\<exists>k. \<not> id_taken c (numbered base (n + k))"
proof (rule ccontr)
  assume "\<nexists>k. \<not> id_taken c (numbered base (n + k))"
  then have "range (\<lambda>k. numbered base (n + k)) \<subseteq> fst ` set (tc_therms c)"
    by (force simp: id_taken_def get_thermo_def map_of_eq_None_iff)
  then have "finite (range (\<lambda>k. numbered base (n + k)))" by (rule finite_subset) simp
  moreover have "inj (\<lambda>k. numbered base (n + k))" by (rule injI) (simp add: numbered_inj)
  ultimately show False using finite_imageD by blast
qed

lemma every_event_handled: "thermo_handle x now ev c \<noteq> None"
proof -
  have "free_id base (id_taken c) i n \<noteq> None" for base i n using free_id_exists free_id_finds by blast
  then have "into_entry x (id_taken c) r \<noteq> None" for r by (simp add: into_entry_def Let_def split: option.split)
  then show ?thesis by (simp add: thermo_handle_def mgmt_add_def Let_def split: thermo_event.split)
qed

lemma added_id_free:
  assumes "into_entry x taken r = Some (Inr e)"
  shows "\<not> taken (te_id e)"
  using assms
  by (auto simp: into_entry_def Let_def cap_keeps(1) split: option.splits if_splits dest!: free_id_free)

text \<open>The controller runs, and the thermostat is there and has not switched before \<open>a\<close>.\<close>

definition guarded :: "timestamp \<Rightarrow> string \<Rightarrow> controller \<Rightarrow> bool" where
  "guarded a i c \<longleftrightarrow> tc_started c \<and> (\<exists>t. get_thermo c i = Some t \<and> locked_since a t)"

lemma moved_guarded:
  assumes "moves.stepped x now c d" "a \<le> now" "guarded a i c"
  shows "guarded a i d"
proof -
  obtain t where t: "get_thermo c i = Some t" "locked_since a t" "tc_started c" using assms(3) by (auto simp: guarded_def)
  have "rel_option (thermo_moves x now) (get_thermo c i) (get_thermo d i)"
    using assms(1) unfolding moves.stepped_def by blast
  then show ?thesis using t assms(1,2) moves_locked unfolding moves.stepped_def guarded_def by (auto simp: option_rel_Some1)
qed

lemma add_guarded:
  assumes "mgmt_add x now r w c = Some d" "guarded a i c"
  shows "guarded a i d"
proof -
  have "guarded a i (add_thermostat x now e c)" if "into_entry x (id_taken c) r = Some (Inr e)" for e
  proof -
    have "te_id e \<noteq> i" using added_id_free [OF that] assms(2) by (auto simp: id_taken_def guarded_def)
    then show ?thesis using assms(2)
      by (simp add: guarded_def add_thermostat_def evaluate_eq Let_def split: option.split)
  qed
  then show ?thesis using assms by (auto simp: mgmt_add_def Let_def split: if_splits sum.split)
qed

lemma remove_guarded: "j \<noteq> i \<Longrightarrow> guarded a i c \<Longrightarrow> guarded a i (fst (remove_thermostat x j c))"
  by (simp add: guarded_def remove_thermostat_def Let_def split: option.split)

text \<open>A request to start now.\<close>

fun asks_start :: "string \<Rightarrow> thermo_event \<Rightarrow> bool" where
  "asks_start i (TvCommand d p) \<longleftrightarrow> d = ''thermostat_'' @ i \<and> thermo_command_of p = ''start_now''"
| "asks_start i _ \<longleftrightarrow> False"

definition leaves_alone :: "string \<Rightarrow> thermo_event \<Rightarrow> bool" where
  "leaves_alone i ev \<longleftrightarrow> ev \<noteq> TvRemove i \<and> \<not> asks_start i ev"

lemma starts_with_drop: "starts_with p d \<Longrightarrow> p @ drop (length p) d = d"
  unfolding starts_with_def by (metis append_take_drop_id)

lemma own_id_Some: "own_id c d = Some i \<Longrightarrow> d = ''thermostat_'' @ i"
  using starts_with_drop [of "''thermostat_''" d] unfolding own_id_def Let_def by (metis option.distinct(1) option.inject)

lemma start_now_elsewhere:
  assumes "thermo_command_of p = ''start_now''" "own_id c d \<noteq> Some i"
  shows "get_thermo (on_command x now d p c) i = get_thermo c i \<and> tc_started (on_command x now d p c) = tc_started c"
proof (cases "own_id c d")
  case (Some j)
  with assms have j: "j \<noteq> i" by simp
  have "get_thermo (fst (apply_command x now j ''start_now'' p c)) i = get_thermo c i
      \<and> tc_started (fst (apply_command x now j ''start_now'' p c)) = tc_started c"
    using j by (simp add: apply_command_def change_thermo_def Let_def split: option.split)
  moreover have "get_thermo (report j ope e c') i = get_thermo c' i" "get_thermo (evaluate x now j c') i = get_thermo c' i" for ope e c'
    using j by (simp_all add: report_def evaluate_eq split: option.split)
  ultimately show ?thesis using Some assms(1)
    by (simp add: on_command_def Let_def split_beta split: sum.split cmd_outcome.split)
qed (simp add: on_command_def)

lemma handle_guarded:
  assumes "thermo_handle x now ev c = Some c'" "ev = TvStart \<longrightarrow> \<not> tc_started c" "leaves_alone i ev" "a \<le> now" "guarded a i c"
  shows "guarded a i c'"
proof -
  have st: "tc_started c = True" using assms(5) by (simp add: guarded_def)
  note moves = moves.moved_state [OF st] moves.moved_availability [OF st] moves.moved_tick [OF st] moves.moved_recalculate [OF st]
  note kept = moves [THEN moved_guarded, OF assms(4,5)]
  have sh: "guarded a i (shutdown c)" using assms(5) by (simp add: shutdown_def guarded_def)
  have le: "guarded a i (apply_learned x now doc c)" for doc using assms(5) st by (simp add: apply_learned_def)
  show ?thesis
  proof (cases ev)
    case (TvCommand d p)
    show ?thesis
    proof (cases "thermo_command_of p = ''start_now''")
      case True
      then have "own_id c d \<noteq> Some i" using assms(3) own_id_Some [of c d i] by (auto simp: leaves_alone_def TvCommand)
      then show ?thesis using start_now_elsewhere [OF True] assms(1,5) TvCommand by (auto simp: guarded_def thermo_handle_def)
    next
      case False
      then show ?thesis
        using moves.moved_on_command [OF st, THEN moved_guarded, OF _ assms(4,5)] assms(1) TvCommand by (auto simp: thermo_handle_def)
    qed
  next
    case (TvAdd r w)
    then show ?thesis using assms(1,5) add_guarded by (simp add: thermo_handle_def)
  next
    case (TvRemove j)
    then show ?thesis using assms(1,3,5) remove_guarded by (auto simp: thermo_handle_def leaves_alone_def)
  qed (use assms(1,2) st kept sh le in \<open>auto simp: thermo_handle_def\<close>)
qed

lemma run_guarded:
  assumes "(thermo_step x (leaves_alone i))\<^sup>*\<^sup>* (u, c) vc" "a \<le> u" "guarded a i c"
  shows "a \<le> fst vc \<and> guarded a i (snd vc)"
  using assms(1)
proof (induction rule: rtranclp_induct)
  case base
  then show ?case using assms by simp
next
  case (step vc wc)
  from step.hyps(2) obtain v w ev d d' where w: "vc = (v, d)" "wc = (w, snd (take_effects d'))" "v \<le> w" "leaves_alone i ev"
      "ev = TvStart \<longrightarrow> \<not> tc_started d" "thermo_handle x w ev d = Some d'"
    by (cases rule: thermo_step.cases) blast
  have "a \<le> w" using step.IH w(1,3) by simp
  with handle_guarded [OF w(6,5,4)] step.IH w(1,2) show ?case by (simp add: guarded_def)
qed

lemma num_seconds_mono:
  assumes "d \<le> e"
  shows "num_seconds d \<le> num_seconds e"
proof (cases "0 \<le> d \<or> e < 0")
  case True
  then show ?thesis using assms by (auto simp: num_seconds_def intro!: zdiv_mono1)
next
  case False
  then have "0 \<le> - d div 1000000000" "0 \<le> e div 1000000000" by (simp_all add: pos_imp_zdiv_nonneg_iff del: zdiv_zminus1_eq_if)
  then show ?thesis using False by (simp add: num_seconds_def del: zdiv_zminus1_eq_if)
qed

lemma safety_is_off: "snd (snd (desired_state w t)) \<Longrightarrow> fst (snd (desired_state w t)) = Some False"
  by (simp add: desired_state_def Let_def split: if_splits)

lemma choose_on_guard:
  assumes "snd (choose_send now sw on (Some True) False t) = Some True" "on \<noteq> Some True" "th_commanded t \<noteq> Some True"
    and "\<not> th_bypass_guard t" "switched_since a t" "a \<le> now"
  shows "int (te_min_off_secs (th_cfg t)) \<le> num_seconds (now - a)"
proof -
  obtain l where l: "th_last_change t = Some l" "a \<le> l" using assms(5) by (auto simp: switched_since_def split: option.splits)
  have "lockout_remaining False (te_min_on_secs (th_cfg t)) (te_min_off_secs (th_cfg t)) (Some l) now = 0"
    using assms(1-4) l(1) by (auto simp: choose_send_def want_transition_def Let_def split: if_splits)
  moreover have "num_seconds (now - l) \<le> num_seconds (now - a)" using l(2) by (intro num_seconds_mono) simp
  moreover have "0 \<le> num_seconds (now - a)" using assms(6) by (simp add: num_seconds_def)
  ultimately show ?thesis by (auto simp: lockout_remaining_def Let_def split: if_splits)
qed

text \<open>
  C36. The short-cycle guard. If a thermostat's switch last changed (was told to, or was switched by
  hand) at \<open>a\<close> or later, then however the run goes on, as long as the thermostat is not removed
  and nobody asks it to \<open>start_now\<close>, no decision tells the switch to turn on that was not told so already and is not
  seen on before \<open>min_off_secs\<close> have passed. The decision can be one inside an event: whatever steps the event has made the
  thermostat take before it, and whatever readings and reports it has brought. (A repeat of
  an ON that was not confirmed is not a decision of this kind.)
\<close>

theorem short_cycle_guard:
  assumes "tc_started c0" "get_thermo c0 i = Some t0" "switched_since a t0" "\<not> th_bypass_guard t0" "a \<le> u"
    and "(thermo_step x (leaves_alone i))\<^sup>*\<^sup>* (u, c0) (v, c)" "v \<le> b" "get_thermo c i = Some t1" "thermo_moves x b t1 t"
    and "snd (decide x b rs sn t) \<noteq> []" "th_commanded (fst (decide x b rs sn t)) = Some True"
    and "th_commanded t \<noteq> Some True" "sn_on (seen_of sn (te_actuator_device_id (th_cfg t))) \<noteq> Some True"
  shows "int (te_min_off_secs (th_cfg t)) \<le> num_seconds (b - a)"
proof -
  have "a \<le> v" "guarded a i c" using run_guarded [OF assms(6,5)] assms(1-4) by (auto simp: guarded_def locked_since_def)
  then have since: "switched_since a t" "\<not> th_bypass_guard t" "a \<le> b"
    using moves_locked [OF assms(9), of a] assms(7,8) by (auto simp: guarded_def locked_since_def)
  define sw where "sw = seen_of sn (te_actuator_device_id (th_cfg t))"
  define on where "on = option_or (sn_on sw) (th_commanded t)"
  define rd where "rd = read_sensors b rs sn (end_hold_override b (roll_day x b (on = Some True) t))"
  define de where "de = desired_state (snd rd) (check_run b on (fst rd))"
  define se where "se = choose_send b sw on (fst (snd de)) (snd (snd de)) (fst de)"
  have d: "decide x b rs sn t =
      (judge_response b sw (fst (snd de)) (case snd se of Some w \<Rightarrow> send_switch b (sn_on sw) w (fst se) | None \<Rightarrow> fst se),
       case snd se of Some w \<Rightarrow> [FxCommand (te_actuator_device_id (th_cfg t)) (switch_payload (th_cfg t) w)] | None \<Rightarrow> [])"
    by (rule decide_eq [OF sw_def on_def refl rd_def de_def se_def])
  obtain w where w: "snd se = Some w" using assms(10) unfolding d by (auto split: option.splits)
  have "w" using assms(11) unfolding d w by (simp add: judge_response_def send_switch_def Let_def split: if_splits)
  with w have se: "snd se = Some True" by simp
  have "fst (snd de) = Some True"
    using se unfolding se_def by (auto simp: choose_send_def want_transition_def Let_def split: option.splits if_splits)
  moreover from this have "\<not> snd (snd de)" using safety_is_off unfolding de_def by force
  moreover have "th_last_change (fst de) = th_last_change t" "th_commanded (fst de) = th_commanded t" "th_bypass_guard (fst de) = th_bypass_guard t"
    "th_cfg (fst de) = th_cfg t" by (simp_all add: de_def rd_def)
  moreover have "on \<noteq> Some True" using assms(12,13) by (auto simp: on_def sw_def option_or_def split: option.splits)
  ultimately show ?thesis
    using choose_on_guard [of b sw on "fst de" a] se since assms(12) by (simp add: se_def switched_since_def)
qed

subsection \<open>The longest run\<close>

text \<open>A switch seen on that has been on for the longest run or more, of a thermostat that runs and was not overridden by hand.\<close>

definition overrun :: "timestamp \<Rightarrow> seen_map \<Rightarrow> thermo \<Rightarrow> bool" where
  "overrun now sn t \<longleftrightarrow>
     thermo_active t \<and> te_actuator_device_id (th_cfg t) \<noteq> [] \<and> th_override_until t = None
     \<and> sn_on (seen_of sn (te_actuator_device_id (th_cfg t))) = Some True
     \<and> 0 < max_run_secs (th_cfg t)
     \<and> (case th_on_since t of Some s \<Rightarrow> int (max_run_secs (th_cfg t)) \<le> num_seconds (now - s) | None \<Rightarrow> False)"

lemma stage_run [simp]:
  "th_on_since (roll_day x now b t) = th_on_since t" "th_entering_off (roll_day x now b t) = th_entering_off t"
  "th_override_until (roll_day x now b t) = th_override_until t" "th_max_run_tripped (roll_day x now b t) = th_max_run_tripped t"
  "th_on_since (end_hold_override now t) = th_on_since t" "th_entering_off (end_hold_override now t) = th_entering_off t"
  "th_max_run_tripped (end_hold_override now t) = th_max_run_tripped t"
  "th_on_since (fst (read_sensors now rs sn t)) = th_on_since t" "th_entering_off (fst (read_sensors now rs sn t)) = th_entering_off t"
  "th_override_until (fst (read_sensors now rs sn t)) = th_override_until t"
  "th_max_run_tripped (fst (read_sensors now rs sn t)) = th_max_run_tripped t"
  "th_entering_off (check_run now on t) = th_entering_off t" "th_override_until (check_run now on t) = th_override_until t"
  "th_stale (check_run now on t) = th_stale t"
  by (simp_all add: roll_day_def end_hold_override_def read_sensors_def check_run_def Let_def split: option.split)

lemma end_override_None: "th_override_until t = None \<Longrightarrow> th_override_until (end_hold_override now t) = None"
  by (simp add: end_hold_override_def Let_def split: option.split)

lemma thermo_active_cfg: "th_cfg t = th_cfg t' \<Longrightarrow> thermo_active t = thermo_active t'"
  by (simp add: thermo_active_def)

lemma read_sensors_stale:
  assumes "heard_any (th_cfg t) rs sn \<or> fresh_values now (th_cfg t) rs sn \<noteq> []"
  shows "th_stale (fst (read_sensors now rs sn t)) \<longleftrightarrow> thermo_active t \<and> fresh_values now (th_cfg t) rs sn = []"
    and "\<not> snd (read_sensors now rs sn t)"
  using assms by (auto simp: read_sensors_def Let_def)

lemma overrun_trips:
  assumes "overrun now sn t" "th_cfg u = th_cfg t" "th_on_since u = th_on_since t"
  shows "th_max_run_tripped (check_run now (Some True) u)"
  using assms thermo_active_cfg [OF assms(2)] by (auto simp: overrun_def check_run_def Let_def split: option.splits)



lemma judge_response_fields [simp]:
  "th_commanded (judge_response now sw de t) = th_commanded t" "th_pending (judge_response now sw de t) = th_pending t"
  "th_calling (judge_response now sw de t) = th_calling t" "th_max_run_tripped (judge_response now sw de t) = th_max_run_tripped t"
  "th_tripped_at (judge_response now sw de t) = th_tripped_at t"
  by (simp_all add: judge_response_def)

lemma send_switch_commanded [simp]: "th_commanded (send_switch now ob w t) = Some w"
  by (simp add: send_switch_def Let_def)

lemma stage_confirmed [simp]:
  "th_confirmed (roll_day x now b t) = th_confirmed t" "th_confirmed (end_hold_override now t) = th_confirmed t"
  "th_confirmed (fst (read_sensors now rs sn t)) = th_confirmed t" "th_confirmed (check_run now on t) = th_confirmed t"
  by (simp_all add: roll_day_def end_hold_override_def read_sensors_def check_run_def Let_def split: option.split)


text \<open>
  C40. With \<open>on_stale = "hold"\<close> the longest run ends nothing: once its sensors are silent a heater that
  is on is sent no command, however long it runs, while the alert says that it ran too long and was
  turned off.
\<close>

theorem held_heater_runs_on:
  assumes "overrun now sn t" "heard_any (th_cfg t) rs sn" "fresh_values now (th_cfg t) rs sn = []" "\<not> off_when_stale (th_cfg t)"
    and "\<not> th_entering_off t"
  shows "snd (decide x now rs sn t) = []
    \<and> (''Ran '' @ words_secs (max_run_secs (th_cfg t)) @ '' without a break, so it was turned off'' @ at_clock x (th_tripped_at (fst (decide x now rs sn t))))
      \<in> pa_reason ` set (alerts_of x (fst (decide x now rs sn t)) sw)"
proof -
  define s where "s = seen_of sn (te_actuator_device_id (th_cfg t))"
  have on: "Some True = option_or (sn_on s) (th_commanded t)" using assms(1) by (simp add: overrun_def s_def option_or_def)
  define rd where "rd = read_sensors now rs sn (end_hold_override now (roll_day x now (Some True = Some True) t))"
  define u where "u = check_run now (Some True) (fst rd)"
  have cfg: "th_cfg u = th_cfg t" by (simp_all add: u_def rd_def)
  have active: "thermo_active (end_hold_override now (roll_day x now b t))" for b
    using assms(1) by (simp add: overrun_def thermo_active_def)
  have st: "snd rd = False" "th_stale u" using assms(2,3) read_sensors_stale active by (simp_all add: rd_def u_def)
  have trip: "th_max_run_tripped u" unfolding u_def using assms(1) by (rule overrun_trips) (simp_all add: rd_def)
  have de: "desired_state False u = (u\<lparr>th_calling := False\<rparr>, None, False)"
    using assms(1,4,5) st(2) thermo_active_cfg [OF cfg] cfg
    by (simp add: desired_state_def overrun_def u_def rd_def end_override_None)
  define se where "se = choose_send now s (Some True) (fst (snd (desired_state False u))) (snd (snd (desired_state False u))) (fst (desired_state False u))"
  have se: "snd se = None" "th_max_run_tripped (fst se)" "th_cfg (fst se) = th_cfg t"
    using trip cfg by (simp_all add: se_def de choose_send_def)
  have "decide x now rs sn t =
      (judge_response now s (fst (snd (desired_state False u))) (case snd se of Some w \<Rightarrow> send_switch now (sn_on s) w (fst se) | None \<Rightarrow> fst se),
       case snd se of Some w \<Rightarrow> [FxCommand (te_actuator_device_id (th_cfg t)) (switch_payload (th_cfg t) w)] | None \<Rightarrow> [])"
    by (rule decide_eq [OF s_def on refl rd_def _ se_def]) (simp only: u_def st)
  then show ?thesis using se by (simp add: alerts_of_def with_action_def plugin_alert_new_def)
qed

subsection \<open>The kind of a thermostat\<close>

text \<open>
  An entry from before kinds has its kind from its mode. A heater of that sort that is turned off
  counts as an AC from then on: heating is refused, cooling is accepted, and then its switch is a
  heater that comes on when the room is too warm, without the four-hour limit a heater has.
\<close>

theorem kindless_heater_becomes_ac:
  assumes "get_thermo c i = Some t" "te_kind (th_cfg t) = None" "te_mode (th_cfg t) = ''heat''" "te_max_run_secs (th_cfg t) = None"
  defines "off \<equiv> fst (set_mode i ''off'' c)"
  shows "kind_of (th_cfg t) = Heater \<and> max_run_secs (th_cfg t) = 4 * 3600 \<and> isl (snd (set_mode i ''heat'' off))
    \<and> snd (set_mode i ''cool'' off) = Inr (CmdDone True)
    \<and> (\<exists>u. get_thermo (fst (set_mode i ''cool'' off)) i = Some u \<and> kind_of (th_cfg u) = Ac \<and> max_run_secs (th_cfg u) = 0
         \<and> te_actuator_device_id (th_cfg u) = te_actuator_device_id (th_cfg t))"
proof -
  have k: "kind_of (th_cfg t) = Heater" "max_run_secs (th_cfg t) = 4 * 3600"
    using assms(2-4) by (simp_all add: kind_of_def max_run_secs_def default_max_run_secs_def MAX_RUN_LIMIT_SECS_def)
  define u where "u = person_changed_it (change_mode ''off'' t)"
  have u: "th_cfg u = (th_cfg t)\<lparr>te_mode := ''off''\<rparr>" by (simp add: u_def change_mode_def Let_def)
  have g: "get_thermo off i = Some u"
    using assms(1,3) k(1) by (simp add: off_def set_mode_def change_thermo_def u_def Let_def)
  have ku: "kind_of (th_cfg u) = Ac" using assms(2) by (simp add: u kind_of_def)
  have c: "th_cfg (change_mode ''cool'' u) = (th_cfg t)\<lparr>te_mode := ''cool''\<rparr>" by (simp add: change_mode_def Let_def u)
  show ?thesis
    using g k ku c u assms(2,4)
    by (simp add: set_mode_def change_thermo_def Let_def kind_modes_def kind_of_def max_run_secs_def default_max_run_secs_def)
qed

subsection \<open>Witnesses\<close>

definition sample_plugin :: plugin_ext where
  "sample_plugin = \<lparr>hx_midnight = (\<lambda>u. u - u mod thermo_secs 86400), hx_clock = (\<lambda>_. ''12:00''), hx_iso = (\<lambda>_. ''2026-01-01T12:00:00Z''),
     hx_parse_time = (\<lambda>_. None), hx_show_f64 = (\<lambda>_. ''20''), hx_lower = (\<lambda>s. s), hx_entry_of_json = (\<lambda>_. None), hx_hash_order = (\<lambda>s. s)\<rparr>"

definition sample_heater :: thermostat_entry where
  "sample_heater = \<lparr>te_id = ''h'', te_name = ''Hall'', te_sensor_device_ids = [''s''], te_sensor_attribute = ''temperature'',
     te_aggregation = ''min'', te_setpoint = Fin 20, te_hysteresis = Fin 2, te_mode = ''heat'', te_kind = None,
     te_actuator_device_id = ''p'', te_actuator_on_cmd = None, te_actuator_off_cmd = None, te_min_on_secs = 0, te_min_off_secs = 300,
     te_max_run_secs = None, te_sensor_timeout_secs = None, te_on_stale = None, te_override_secs = None\<rparr>"

definition sample_loaded :: controller where
  "sample_loaded = controller_new sample_plugin (config_parse sample_plugin [\<lparr>rw_id = None, rw_name = None, rw_entry = Inr sample_heater\<rparr>])"

lemma sample_loaded_get: "get_thermo sample_loaded = [''h'' \<mapsto> thermo_new sample_heater]" "tc_started sample_loaded = False"
  by (simp_all add: sample_loaded_def controller_new_def config_parse_def load_thermostat_def entry_problem_def sample_heater_def kind_of_def
      kind_modes_def id_problem_def ascii_alnum_def byte_def setpoint_problem_def in_f64_range_def is_finite_def cap_def Let_def refresh_notices_def push_fx_def
      get_thermo_def MAX_HYSTERESIS_def MAX_GUARD_SECS_def fun_eq_iff)

theorem kindless_heater_becomes_ac_witness:
  "isl (snd (set_mode ''h'' ''heat'' (fst (set_mode ''h'' ''off'' sample_loaded))))"
  using kindless_heater_becomes_ac [of sample_loaded "''h''" "thermo_new sample_heater"]
  by (simp add: sample_loaded_get thermo_new_def sample_heater_def)

text \<open>A sensor that said 18 degrees at \<open>u\<close> and a switch seen in state \<open>b\<close>.\<close>

definition sample_readings :: "timestamp \<Rightarrow> reading_map" where
  "sample_readings u = [''s'' \<mapsto> \<lparr>rd_value = Some (Fin 18), rd_at = Some u, rd_shown_at = Some u\<rparr>]"

definition sample_seen :: "bool \<Rightarrow> seen_map" where
  "sample_seen b = [''p'' \<mapsto> seen_default\<lparr>sn_on := Some b\<rparr>]"

definition sample_running :: "string option \<Rightarrow> thermo" where
  "sample_running st = (thermo_new (sample_heater\<lparr>te_on_stale := st\<rparr>))\<lparr>th_on_since := Some 0, th_commanded := Some True, th_confirmed := True\<rparr>"

lemmas sample_eval = sample_running_def sample_readings_def sample_seen_def sample_heater_def thermo_new_def overrun_def seen_of_def
  seen_default_def thermo_active_def max_run_secs_def default_max_run_secs_def MAX_RUN_LIMIT_SECS_def kind_of_def num_seconds_def thermo_secs_def
  fresh_values_def heard_any_def is_current_def sensor_timeout_secs_def DEFAULT_SENSOR_TIMEOUT_SECS_def
  MIN_SENSOR_TIMEOUT_SECS_def MAX_SENSOR_TIMEOUT_SECS_def List.map_filter_def off_when_stale_def

lemmas sample_stages = roll_day_def end_hold_override_def read_sensors_def check_run_def desired_state_def choose_send_def want_transition_def
  send_switch_def judge_response_def aggregate_def compute_call_for_def lockout_remaining_def thermo_target_def f64_max_def f64_over_def f64_op_def
  f64_lt_def f64_le_def is_nan_def Let_def


theorem held_heater_runs_on_witness:
  "snd (decide sample_plugin (thermo_secs 15000) (sample_readings 0) (sample_seen True) (sample_running (Some ''hold''))) = []"
proof -
  have "overrun (thermo_secs 15000) (sample_seen True) (sample_running (Some ''hold''))"
    "heard_any (th_cfg (sample_running (Some ''hold''))) (sample_readings 0) (sample_seen True)"
    "fresh_values (thermo_secs 15000) (th_cfg (sample_running (Some ''hold''))) (sample_readings 0) (sample_seen True) = []"
    "\<not> off_when_stale (th_cfg (sample_running (Some ''hold'')))" "\<not> th_entering_off (sample_running (Some ''hold''))"
    by (simp_all add: sample_eval)
  from held_heater_runs_on [OF this] show ?thesis by simp
qed

definition sample_started :: controller where
  "sample_started = sample_loaded\<lparr>tc_started := True, tc_seen := sample_seen False, tc_readings := sample_readings (thermo_secs 290),
     tc_therms := [(''h'', (thermo_new sample_heater)\<lparr>th_last_change := Some 0, th_commanded := Some False, th_confirmed := True\<rparr>)]\<rparr>"

lemma sample_started_get:
  "get_thermo sample_started ''h'' = Some ((thermo_new sample_heater)\<lparr>th_last_change := Some 0, th_commanded := Some False, th_confirmed := True\<rparr>)"
  "tc_started sample_started"
  by (simp_all add: sample_started_def get_thermo_def)

lemma sample_echo:
  "thermo_step sample_plugin (leaves_alone i) (0, sample_started) (thermo_secs 1, snd (take_effects sample_started))"
  by (rule thermo_step.turn [of _ _ _ "TvState ''thermostat_h'' JNull"])
    (simp_all add: thermo_secs_def thermo_handle_def on_state_def own_id_def sample_started_get starts_with_def leaves_alone_def)

theorem settings_stay_valid_witness:
  "in_f64_range (- 40) 45 (thermo_target (person_changed_it ((thermo_new sample_heater)\<lparr>th_cfg := sample_heater\<lparr>te_setpoint := Fin 21\<rparr>, th_hold := None, th_last_command_error := None\<rparr>)))"
proof -
  let ?raw = "[\<lparr>rw_id = None, rw_name = None, rw_entry = Inr sample_heater\<rparr>]"
  let ?p = "JObj [(''command'', JStr ''set_setpoint''), (''value'', json_f64 (Fin 21))]"
  let ?t = "person_changed_it ((thermo_new sample_heater)\<lparr>th_cfg := sample_heater\<lparr>te_setpoint := Fin 21\<rparr>, th_hold := None, th_last_command_error := None\<rparr>)"
  have "thermo_step sample_plugin (\<lambda>_. True) (0, sample_loaded) (1, snd (take_effects (on_command sample_plugin 1 ''thermostat_h'' ?p sample_loaded)))"
    by (rule thermo_step.turn [of _ _ _ "TvCommand ''thermostat_h'' ?p"]) (simp_all add: thermo_handle_def)
  moreover have "get_thermo (on_command sample_plugin 1 ''thermostat_h'' ?p sample_loaded) ''h'' = Some ?t"
    by (simp add: on_command_def own_id_def sample_loaded_get starts_with_def Let_def split_beta apply_command_def thermo_command_of_def
        first_str_def json_get_def json_f64_def from_f64_def is_finite_def set_setpoint_def change_thermo_def setpoint_problem_def in_f64_range_def report_def evaluate_eq
        person_changed_it_def thermo_new_def sample_heater_def)
  ultimately show ?thesis
    using settings_stay_valid [of sample_plugin "\<lambda>_. True" 0 ?raw 1 _ "''h''" ?t] by (fastforce simp: sample_loaded_def)
qed

theorem short_cycle_guard_witness:
  "get_thermo (snd (take_effects sample_started)) ''h'' \<noteq> None \<and> int (te_min_off_secs sample_heater) \<le> num_seconds (thermo_secs 300 - 0)"
proof -
  let ?t = "(thermo_new sample_heater)\<lparr>th_last_change := Some 0, th_commanded := Some False, th_confirmed := True\<rparr>"
  let ?c = "snd (take_effects sample_started)"
  have c: "tc_readings ?c = sample_readings (thermo_secs 290)" "tc_seen ?c = sample_seen False"
    by (simp_all add: take_effects_def keep_running_def Let_def sample_started_def)
  have "snd (decide sample_plugin (thermo_secs 300) (tc_readings ?c) (tc_seen ?c) ?t) \<noteq> []
      \<and> th_commanded (fst (decide sample_plugin (thermo_secs 300) (tc_readings ?c) (tc_seen ?c) ?t)) = Some True"
    unfolding c decide_eq [OF refl refl refl refl refl refl]
    using round_f64_int [of 1] round_f64_int [of 19]
    by (simp add: sample_eval sample_stages)
  moreover have "(thermo_step sample_plugin (leaves_alone ''h''))\<^sup>*\<^sup>* (0, sample_started) (thermo_secs 1, ?c)"
    using sample_echo by (rule r_into_rtranclp)
  ultimately show ?thesis
    using short_cycle_guard [of sample_started "''h''" ?t 0 0 sample_plugin "thermo_secs 1" ?c "thermo_secs 300" ?t ?t "tc_readings ?c" "tc_seen ?c"]
    by (simp add: c sample_started_get switched_since_def sample_seen_def seen_of_def thermo_new_def sample_heater_def thermo_secs_def)
qed

end
