(* ===== verification/Thermostat_Listening.thy ===== *)
theory Thermostat_Listening
  imports Thermostat_Theorems
begin

text \<open>
  Which devices the thermostat plugin listens to. The controller never looks at its subscriptions: it
  queues a subscription when a device comes into use and its end when the last use is gone. That the two
  sets agree after every event is an invariant of the controller and the actor together.
\<close>

subsection \<open>Subscriptions\<close>

text \<open>
  The devices whose availability is subscribed to, and those whose state is, after some effects
  (\<open>bridge.rs\<close>, \<open>apply\<close>), when the broker takes each request; the code logs one that fails and goes on.
  \<open>FxUnsubscribeOwn\<close> ends the subscription to the state of a thermostat's own device, after its last
  stored state has been read.
\<close>

definition listens :: "thermo_effect list \<Rightarrow> string set \<Rightarrow> string set" where
  "listens = fold (\<lambda>e S. case e of FxSubscribe d \<Rightarrow> insert d S | FxUnsubscribe d \<Rightarrow> S - {d} | _ \<Rightarrow> S)"

definition hears_state :: "thermo_effect list \<Rightarrow> string set \<Rightarrow> string set" where
  "hears_state = fold (\<lambda>e S. case e of FxSubscribe d \<Rightarrow> insert d S | FxUnsubscribe d \<Rightarrow> S - {d} | FxUnsubscribeOwn d \<Rightarrow> S - {d} | _ \<Rightarrow> S)"

text \<open>A device is subscribed to in both ways or in neither, unless it is one of the plugin's own.\<close>

lemma state_as_availability:
  "FxUnsubscribeOwn d \<notin> set es \<Longrightarrow> (d \<in> S \<longleftrightarrow> d \<in> T) \<Longrightarrow> d \<in> hears_state es S \<longleftrightarrow> d \<in> listens es T"
proof (induction es arbitrary: S T)
  case (Cons e es)
  have ih: "d \<in> fold f es S' \<longleftrightarrow> d \<in> fold g es T'" if "f = (\<lambda>e S. case e of FxSubscribe d \<Rightarrow> insert d S | FxUnsubscribe d \<Rightarrow> S - {d} | FxUnsubscribeOwn d \<Rightarrow> S - {d} | _ \<Rightarrow> S)"
    "g = (\<lambda>e S. case e of FxSubscribe d \<Rightarrow> insert d S | FxUnsubscribe d \<Rightarrow> S - {d} | _ \<Rightarrow> S)" "d \<in> S' \<longleftrightarrow> d \<in> T'" for f g S' T'
    using Cons.IH [of S' T'] Cons.prems(1) that by (simp add: hears_state_def listens_def)
  show ?case
    unfolding hears_state_def listens_def fold_simps
    by (rule ih [OF refl refl]) (use Cons.prems in \<open>cases e; simp\<close>)
qed (simp add: hears_state_def listens_def)

definition subscribe_initial :: "controller \<Rightarrow> controller \<times> string set" where
  "subscribe_initial c = (snd (take_effects (begin_sync (external_ids c @ own_ids c) c)), set (external_ids c))"

definition is_quiet :: "thermo_effect \<Rightarrow> bool" where
  "is_quiet e \<longleftrightarrow> (case e of FxSubscribe _ \<Rightarrow> False | FxUnsubscribe _ \<Rightarrow> False | _ \<Rightarrow> True)"

lemma is_quiet_simps [simp]:
  "is_quiet (FxRegister a)" "is_quiet (FxUnregister d)" "is_quiet (FxReconcile ds)" "is_quiet (FxPublishState d p)"
  "is_quiet (FxCommand d p)" "is_quiet (FxAlerts d as)" "is_quiet (FxPluginAlerts as)" "is_quiet (FxNotices ns)"
  "is_quiet (FxUnsubscribeOwn d)" "is_quiet (FxCommandResult d ope r)" "is_quiet (FxPersistLearned p)"
  by (simp_all add: is_quiet_def)

lemma listens_simps [simp]:
  "listens [] S = S" "listens (FxSubscribe d # es) S = listens es (insert d S)"
  "listens (FxUnsubscribe d # es) S = listens es (S - {d})" "is_quiet e \<Longrightarrow> listens (e # es) S = listens es S"
  by (simp_all add: listens_def is_quiet_def split: thermo_effect.splits)

lemma listens_append [simp]: "listens (es @ fs) S = listens fs (listens es S)"
  by (simp add: listens_def)

lemma listens_quiet: "list_all is_quiet es \<Longrightarrow> listens es S = S"
  by (induction es) simp_all

lemma listens_changes [simp]: "listens (map FxSubscribe ds) S = S \<union> set ds" "listens (map FxUnsubscribe ds) S = S - set ds"
  by (induction ds arbitrary: S) auto

subsection \<open>Devices in use\<close>

definition entry_devices :: "thermostat_entry \<Rightarrow> string set" where
  "entry_devices e = set (te_sensor_device_ids e) \<union> ({te_actuator_device_id e} - {[]})"

lemma used_ids_eq: "used_ids c = (\<Union>t \<in> snd ` set (tc_therms c). entry_devices (th_cfg t)) \<union> fst ` set (tc_candidates c)"
proof -
  have "set (concat (map (\<lambda>(_, t). te_sensor_device_ids (th_cfg t)
      @ (if te_actuator_device_id (th_cfg t) = [] then [] else [te_actuator_device_id (th_cfg t)])) ts))
    = (\<Union>t \<in> snd ` set ts. entry_devices (th_cfg t))" for ts :: "(string \<times> thermo) list"
    by (induction ts) (auto simp: entry_devices_def)
  then show ?thesis by (simp add: used_ids_def)
qed

lemma finite_used [simp]: "finite (used_ids c)"
  by (simp add: used_ids_eq entry_devices_def)

lemma used_ids_simps [simp]:
  "used_ids (push_fx es c) = used_ids c" "used_ids (c\<lparr>tc_seen := a\<rparr>) = used_ids c" "used_ids (c\<lparr>tc_readings := b\<rparr>) = used_ids c"
  "used_ids (resubscribe old c) = used_ids c"
  by (simp_all add: used_ids_def push_fx_def resubscribe_def Let_def)

abbreviation therms_ok :: "controller \<Rightarrow> bool" where
  "therms_ok c \<equiv> table_ok (tc_therms c)"

text \<open>
  \<open>silent\<close>: nothing about subscriptions was queued. \<open>same_use\<close>: moreover the same devices are in use.
  \<open>tuned\<close>: what was queued follows the devices in use.
\<close>

definition silent :: "controller \<Rightarrow> controller \<Rightarrow> bool" where
  "silent c c' \<longleftrightarrow> (therms_ok c \<longrightarrow> therms_ok c') \<and> (\<exists>es. list_all is_quiet es \<and> tc_fx c' = tc_fx c @ es)"

definition same_use :: "controller \<Rightarrow> controller \<Rightarrow> bool" where
  "same_use c c' \<longleftrightarrow> silent c c' \<and> (therms_ok c \<longrightarrow> used_ids c' = used_ids c)"

definition tuned :: "controller \<Rightarrow> controller \<Rightarrow> bool" where
  "tuned c c' \<longleftrightarrow> (therms_ok c \<longrightarrow> therms_ok c' \<and> (\<exists>es. tc_fx c' = tc_fx c @ es \<and> listens es (used_ids c) = used_ids c'))"

lemma silent_refl: "silent c c"
  by (auto simp: silent_def intro: exI [of _ "[]"])

lemma silent_trans: "silent a b \<Longrightarrow> silent b c \<Longrightarrow> silent a c"
  unfolding silent_def by (metis append.assoc list_all_append)

lemma same_silent: "same_use a b \<Longrightarrow> silent a b"
  by (simp add: same_use_def)

lemma same_refl: "same_use c c"
  by (simp add: same_use_def silent_refl)

lemma same_trans: "same_use a b \<Longrightarrow> same_use b c \<Longrightarrow> same_use a c"
  using silent_trans by (auto simp: same_use_def silent_def)

lemma same_tuned: "same_use a b \<Longrightarrow> tuned a b"
  by (auto simp: same_use_def silent_def tuned_def listens_quiet)

lemma tuned_trans: "tuned a b \<Longrightarrow> tuned b c \<Longrightarrow> tuned a c"
  unfolding tuned_def by (metis append.assoc listens_append)

lemma same_fold: "(\<And>a c. same_use c (f a c)) \<Longrightarrow> same_use c (fold f as c)"
  by (induction "as" arbitrary: c) (auto intro: same_refl same_trans)

lemma silent_fold: "(\<And>a c. silent c (f a c)) \<Longrightarrow> silent c (fold f as c)"
  by (induction "as" arbitrary: c) (auto intro: silent_refl silent_trans)

lemma tuned_refl: "tuned c c"
  by (rule same_tuned [OF same_refl])

lemma tuned_fold: "(\<And>a c. tuned c (f a c)) \<Longrightarrow> tuned c (fold f as c)"
  by (induction "as" arbitrary: c) (auto intro: same_refl same_tuned tuned_trans)

lemma tuned_resubscribe:
  assumes "silent c d" "therms_ok c \<Longrightarrow> old = used_ids c"
  shows "tuned c (resubscribe old d)"
proof -
  obtain es where es: "list_all is_quiet es" "tc_fx d = tc_fx c @ es" using assms(1) by (auto simp: silent_def)
  define new where "new = map FxSubscribe (sorted_list_of_set (used_ids d - old)) @ map FxUnsubscribe (sorted_list_of_set (old - used_ids d))"
  have fx: "tc_fx (resubscribe old d) = tc_fx c @ es @ new" and th: "tc_therms (resubscribe old d) = tc_therms d"
    by (simp_all add: resubscribe_def Let_def push_fx_def es(2) new_def)
  have "listens (es @ new) (used_ids c) = used_ids d" if "therms_ok c"
    unfolding new_def using assms(2) [OF that] by (auto simp: listens_quiet [OF es(1)])
  then show ?thesis using fx th assms(1) by (auto simp: tuned_def silent_def)
qed

subsection \<open>Changes of a thermostat\<close>

lemma same_push: "list_all is_quiet es \<Longrightarrow> same_use c (push_fx es c)"
  by (auto simp: same_use_def silent_def)

lemma silent_set: "silent c (set_thermo i t c)"
  by (auto simp: silent_def set_thermo_def put_ok intro: exI [of _ "[]"])

lemma put_uses:
  assumes "table_ok ts" "map_of ts i = Some t" "entry_devices (th_cfg t') = entry_devices (th_cfg t)"
  shows "(\<Union>t \<in> snd ` set (put i t' ts). entry_devices (th_cfg t)) = (\<Union>t \<in> snd ` set ts. entry_devices (th_cfg t))"
  using assms(1,2)
proof (induction ts)
  case (Cons e ts)
  obtain j u where e: "e = (j, u)" by fastforce
  show ?case
  proof (cases "i = j")
    case True
    then show ?thesis using Cons.prems assms(3) e by simp
  next
    case False
    moreover have "j < i" using Cons.prems False e by (force dest!: map_of_SomeD)
    moreover from this have "\<not> i < j" using order.asym by blast
    ultimately show ?thesis using Cons e by simp
  qed
qed simp

lemma same_set:
  assumes "get_thermo c i = Some t" "entry_devices (th_cfg t') = entry_devices (th_cfg t)"
  shows "same_use c (set_thermo i t' c)"
proof -
  have "used_ids (set_thermo i t' c) = used_ids c" if "therms_ok c"
    using put_uses [OF that _ assms(2)] assms(1) by (simp add: used_ids_eq set_thermo_def get_thermo_def)
  then show ?thesis by (simp add: same_use_def silent_set)
qed

lemma same_map:
  assumes "\<And>i t. entry_devices (th_cfg (f i t)) = entry_devices (th_cfg t)"
  shows "same_use c (c\<lparr>tc_therms := map (\<lambda>(i, t). (i, f i t)) (tc_therms c)\<rparr>)"
proof -
  have "map fst (map (\<lambda>(i, t). (i, f i t)) ts) = map fst ts" for ts :: "(string \<times> thermo) list" by (induction ts) auto
  moreover have "(\<Union>t \<in> snd ` set (map (\<lambda>(i, t). (i, f i t)) ts). entry_devices (th_cfg t)) = (\<Union>t \<in> snd ` set ts. entry_devices (th_cfg t))" for ts
    using assms by (induction ts) auto
  ultimately show ?thesis by (simp add: same_use_def silent_def used_ids_eq del: map_map)
qed

lemma same_store:
  "same_use c (c\<lparr>tc_seen := a\<rparr>)" "same_use c (c\<lparr>tc_readings := b\<rparr>)" "same_use c (heard d c)" "same_use c (c\<lparr>tc_own_restored := w\<rparr>)"
  "same_use c (c\<lparr>tc_file_entries := fe\<rparr>)" "same_use c (c\<lparr>tc_skipped := sk\<rparr>)" "same_use c (c\<lparr>tc_started := st, tc_sync_pending := sp\<rparr>)"
  "same_use c (c\<lparr>tc_restored := r, tc_readings := b\<rparr>)"
  by (simp_all add: same_use_def silent_def used_ids_def heard_def)

subsection \<open>The operations\<close>

text \<open>What does not concern the subscriptions.\<close>

lemma decide_quiet: "list_all is_quiet (snd (decide x now rs sn t))" "list_all is_quiet (snd (say_state x now rs sn t))"
  by (simp_all add: decide_eq [OF refl refl refl refl refl refl] say_state_def Let_def split: option.split)

lemma same_evaluate: "same_use c (evaluate x now i c)"
proof (cases "get_thermo c i")
  case (Some t)
  have "same_use c (set_thermo i (decided x now (tc_readings c) (tc_seen c) t) c)" by (rule same_set [OF Some]) simp
  from same_trans [OF this same_push] Some show ?thesis by (simp add: evaluate_eq decide_quiet same_refl)
qed (simp add: evaluate_eq same_refl)

lemma same_evaluate_all: "same_use c (evaluate_all x now is c)"
  unfolding evaluate_all_def by (rule same_fold) (rule same_evaluate)

lemma same_evaluate_using: "same_use c (evaluate_using x now d c)"
  unfolding evaluate_using_def by (rule same_evaluate_all)

lemma same_report: "same_use c (report i ope err c)"
  by (auto simp: report_def same_refl split: option.split intro!: same_trans [OF same_set same_push])

lemma same_refresh: "same_use c (refresh_notices x c)" "same_use c (keep_runtime_changes x c)"
proof -
  show a: "same_use c (refresh_notices x c)" for c by (simp add: refresh_notices_def same_push)
  show "same_use c (keep_runtime_changes x c)" unfolding keep_runtime_changes_def by (rule same_trans [OF same_push a]) simp
qed

lemma same_hear: "same_use c (hear_switch_in x now prev on i c)"
  by (auto simp: hear_switch_in_def same_refl split: option.split intro!: same_trans [OF same_set same_evaluate])

lemma same_switch_state: "same_use c (on_switch_state x now d on c)"
  unfolding on_switch_state_def Let_def by (rule same_trans [OF same_store(1) same_fold]) (rule same_hear)

lemma same_sensor_state: "same_use c (on_sensor_state x now d payload c)"
  by (auto simp: on_sensor_state_def Let_def same_refl same_store split: list.split option.split
      intro!: same_trans [OF same_store(2) same_evaluate_using])

lemma same_restore: "same_use c (restore_own x now i p c)"
proof (cases "get_thermo c i")
  case (Some t)
  have "same_use c (set_thermo i (restore_thermo x now p t) c)" by (rule same_set [OF Some]) simp
  moreover have "same_use c (restore_reading x e c)" for e c
    by (auto simp: restore_reading_def same_refl same_store split: option.split)
  ultimately have "same_use c (fold (restore_reading x) rs (set_thermo i (restore_thermo x now p t) c))" for rs
    using same_trans same_fold by metis
  with Some \<open>same_use c (set_thermo i (restore_thermo x now p t) c)\<close> show ?thesis
    by (simp add: restore_own_def Let_def split: option.split json.split)
qed (simp add: restore_own_def same_refl)

lemma same_availability: "same_use c (on_availability x now d online c)"
proof -
  let ?again = "\<lambda>t. if te_actuator_device_id (th_cfg t) = d \<and> th_commanded t \<noteq> None \<and> \<not> th_confirmed t then t\<lparr>th_retry_at := Some now\<rparr> else t"
  have "same_use c1 (c1\<lparr>tc_therms := map (\<lambda>(i, t). (i, ?again t)) (tc_therms c1)\<rparr>)" for c1 by (rule same_map) simp
  from same_trans [OF same_store(1) this] same_store(1)
  have "same_use c (if b then c\<lparr>tc_seen := s\<rparr>\<lparr>tc_therms := map (\<lambda>(i, t). (i, ?again t)) (tc_therms (c\<lparr>tc_seen := s\<rparr>))\<rparr> else c\<lparr>tc_seen := s\<rparr>)" for b s
    by (cases b) (simp_all only: if_True if_False)
  from same_trans [OF this same_evaluate_using] show ?thesis
    unfolding on_availability_def Let_def by (simp only: same_refl if_split simp_thms)
qed

lemma same_start: "same_use c (start x now c)"
proof -
  have "same_use c (c\<lparr>tc_started := True, tc_sync_pending := None\<rparr>)" by (rule same_store)
  moreover have "same_use d (d\<lparr>tc_therms := map (\<lambda>(i, t). (i, settle x now (observed_of c i) t)) (tc_therms d)\<rparr>)" for d by (rule same_map) simp
  moreover have "list_all is_quiet (concat (map (\<lambda>(_, t). [FxRegister (th_cfg t), FxUnsubscribeOwn (thermostat_device_id (th_cfg t))]) ts) @ [FxReconcile ds])" for ts ds
    by (induction ts) auto
  ultimately have "same_use c ((push_fx (concat (map (\<lambda>(_, t). [FxRegister (th_cfg t), FxUnsubscribeOwn (thermostat_device_id (th_cfg t))]) (tc_therms c))
                 @ [FxReconcile (own_ids c)]) (c\<lparr>tc_started := True, tc_sync_pending := None\<rparr>))
      \<lparr>tc_therms := map (\<lambda>(i, t). (i, settle x now (observed_of c i) t)) (tc_therms c)\<rparr>)"
    using same_trans [OF same_trans [OF _ same_push]] by fastforce
  from same_trans [OF same_trans [OF this same_evaluate_all] same_refresh(1)] show ?thesis by (simp add: start_def Let_def)
qed

text \<open>What changes the devices in use, and what queues the subscriptions for it.\<close>

lemma silent_change: "silent c (fst (change_thermo i c f))"
  by (simp add: change_thermo_def split_beta Let_def silent_refl silent_set split: option.split)

lemma silent_candidates: "silent c (c\<lparr>tc_candidates := k\<rparr>)"
  by (simp add: silent_def)

lemma silent_switch_to: "silent c (switch_to now i new c)"
  by (auto simp: switch_to_def Let_def silent_refl split: option.split intro!: silent_trans [OF same_silent [OF same_push] silent_set])

lemma silent_write: "silent c (fst (write_attributes x i p c))"
proof -
  have m: "silent c (fst (case mode of Some m \<Rightarrow> set_mode i m c | None \<Rightarrow> (c, Inr (CmdDone False))))" for mode
    by (simp add: set_mode_def silent_change silent_refl split: option.split)
  have s: "silent c1 (fst (case sp of Some v \<Rightarrow> set_setpoint x i v c1 | None \<Rightarrow> (c1, Inr (CmdDone False))))" for sp c1
    by (simp add: set_setpoint_def silent_change silent_refl split: option.split)
  show ?thesis using m silent_trans [OF m s]
    by (auto simp: write_attributes_def Let_def split_beta silent_refl split: prod.split sum.split)
qed

lemma silent_command: "silent c (fst (apply_command x now i cmd p c))"
proof -
  have others: "silent c (fst (set_actuator now i p c))" "silent c (fst (hold_command x now i p c))" "silent c (fst (set_short_cycle i p c))"
    "silent c (fst (set_sensors now i p c))" "silent c (fst (set_mode i m c))" "silent c (fst (set_setpoint x i v c))" for m v
    by (simp_all add: set_actuator_def hold_command_def set_short_cycle_def set_sensors_def set_mode_def set_setpoint_def Let_def
        silent_change silent_refl silent_switch_to silent_candidates split: option.split)
  have "fst (if b then u else v) = (if b then fst u else fst v)" for b and u v :: cmd_result by simp
  then show ?thesis
    unfolding apply_command_def Let_def by (simp add: others silent_write silent_change silent_refl split: option.split)
qed

lemma tuned_command: "tuned c (on_command x now d payload c)"
proof (cases "own_id c d")
  case (Some i)
  let ?a = "apply_command x now i (thermo_command_of payload) payload c"
  have "silent c (case snd ?a of
      Inr CmdLater \<Rightarrow> fst ?a
    | Inr (CmdDone changed) \<Rightarrow> if changed then keep_runtime_changes x (report i (operation_of payload) None (fst ?a)) else report i (operation_of payload) None (fst ?a)
    | Inl e \<Rightarrow> report i (operation_of payload) (Some e) (fst ?a))"
    using silent_command silent_trans [OF silent_command same_silent [OF same_report]]
      silent_trans [OF silent_command same_silent [OF same_trans [OF same_report same_refresh(2)]]]
    by (simp split: sum.split cmd_outcome.split)
  from tuned_trans [OF tuned_resubscribe [OF this refl] same_tuned [OF same_evaluate]] Some show ?thesis
    unfolding on_command_def Let_def by (simp add: split_beta)
qed (simp add: on_command_def tuned_refl)

lemma used_candidate:
  "map_of (tc_candidates c) d = Some cd \<Longrightarrow> used_ids_with (c\<lparr>tc_candidates := remove_key d (tc_candidates c)\<rparr>) d = used_ids c"
  by (force simp: used_ids_with_def used_ids_eq remove_key_def dest: map_of_SomeD)

lemma tuned_settle: "tuned c (settle_candidate x now d c)"
proof (cases "map_of (tc_candidates c) d")
  case (Some cd)
  let ?c = "c\<lparr>tc_candidates := remove_key d (tc_candidates c)\<rparr>"
  have "silent c (if b then keep_runtime_changes x (report i ope None (switch_to now i d ?c)) else report i ope (Some e) ?c)" for b i ope e
    using silent_trans [OF silent_candidates same_silent [OF same_report]]
      silent_trans [OF silent_trans [OF silent_candidates silent_switch_to] same_silent [OF same_trans [OF same_report same_refresh(2)]]] by simp
  from tuned_trans [OF tuned_resubscribe [OF this used_candidate [OF Some]] same_tuned [OF same_evaluate]] Some show ?thesis
    by (simp add: settle_candidate_def Let_def tuned_refl)
qed (simp add: settle_candidate_def Let_def tuned_refl)

lemma tuned_give_up: "tuned c (give_up x d c)"
proof (cases "map_of (tc_candidates c) d")
  case (Some cd)
  from tuned_resubscribe [OF silent_trans [OF silent_candidates same_silent [OF same_report]] used_candidate [OF Some]] Some show ?thesis
    by (simp add: give_up_def Let_def)
qed (simp add: give_up_def tuned_refl)

lemma tuned_tick: "tuned c (thermo_tick x now c)"
  unfolding thermo_tick_def Let_def by (rule tuned_trans [OF tuned_fold [OF tuned_give_up] same_tuned [OF same_evaluate_all]])

lemma tuned_recalculate: "tuned c (recalculate_all x force now c)"
proof -
  have "same_use c (c\<lparr>tc_therms := map (\<lambda>(i, t). (i, t\<lparr>th_force := thermo_active t \<and> te_actuator_device_id (th_cfg t) \<noteq> []\<rparr>)) (tc_therms c)\<rparr>)"
    by (rule same_map) simp
  from tuned_trans [OF same_tuned [OF this] tuned_tick] show ?thesis by (simp add: recalculate_all_def tuned_tick)
qed

lemma tuned_state: "tuned c (on_state x now d payload c)"
proof (cases "own_id c d")
  case (Some i)
  have "same_use c ((heard d c)\<lparr>tc_own_restored := insert i (tc_own_restored (heard d c))\<rparr>)" by (rule same_trans [OF same_store(3,4)])
  from same_tuned [OF same_trans [OF this same_restore]] Some show ?thesis by (simp add: on_state_def Let_def tuned_refl)
next
  case None
  have a: "tuned c ((heard d c)\<lparr>tc_seen := sm\<rparr>)" for sm by (rule same_tuned [OF same_trans [OF same_store(3,1)]])
  have "tuned c (if k then settle_candidate x now d ((heard d c)\<lparr>tc_seen := sm\<rparr>) else (heard d c)\<lparr>tc_seen := sm\<rparr>)" for k sm
    using a tuned_trans [OF a tuned_settle] by simp
  note s = tuned_trans [OF this same_tuned [OF same_sensor_state]]
  note o1 = tuned_trans [OF s same_tuned [OF same_switch_state]]
  show ?thesis unfolding on_state_def Let_def None option.case
    by (cases "interpret_actuator_on payload") (simp_all only: option.case s o1)
qed

lemma tuned_learned: "tuned c (apply_learned x now doc c)"
proof -
  have "same_use c (apply_runtime x now e c)" for e c by (simp add: apply_runtime_def same_restore same_refl)
  then have c1: "same_use c (case json_get doc ''runtime'' of Some (JObj rs) \<Rightarrow> fold (apply_runtime x now) rs c | _ \<Rightarrow> c)"
    by (simp add: same_refl same_fold split: option.split json.split)
  have "silent c (apply_kept x e c)" for e c by (simp add: apply_kept_def silent_refl silent_set split: option.split)
  then have "silent c (fold (apply_kept x) kept c)" for kept c by (rule silent_fold)
  from tuned_trans [OF same_tuned [OF c1] tuned_resubscribe [OF this refl]] same_tuned [OF c1]
  show ?thesis unfolding apply_learned_def Let_def by (auto simp: tuned_refl split: option.split json.split)
qed

lemma tuned_add: "tuned c (add_thermostat x now e c)"
proof -
  have "tuned c (resubscribe (used_ids c) (set_thermo i t (c\<lparr>tc_file_entries := fe\<rparr>)))" for i t fe
    by (rule tuned_resubscribe [OF silent_trans [OF same_silent [OF same_store(5)] silent_set] refl])
  from tuned_trans [OF this same_tuned [OF same_push]] this
  have "tuned c (if b then push_fx [FxRegister e] (resubscribe (used_ids c) (set_thermo i t (c\<lparr>tc_file_entries := fe\<rparr>)))
      else resubscribe (used_ids c) (set_thermo i t (c\<lparr>tc_file_entries := fe\<rparr>)))" for b i t fe by simp
  from tuned_trans [OF this same_tuned [OF same_trans [OF same_evaluate same_refresh(1)]]] show ?thesis
    unfolding add_thermostat_def Let_def .
qed

lemma tuned_remove: "tuned c (fst (remove_thermostat x i c))"
proof -
  have "silent c (push_fx es (c\<lparr>tc_therms := remove_key i (tc_therms c), tc_file_entries := fe\<rparr>))" if "list_all is_quiet es" for es fe
    using that by (auto simp: silent_def remove_key_ok)
  from tuned_trans [OF tuned_resubscribe [OF this refl] same_tuned [OF same_refresh(1)]]
  have "tuned c (refresh_notices x (resubscribe (used_ids c) (push_fx es (c\<lparr>tc_therms := remove_key i (tc_therms c), tc_file_entries := fe\<rparr>))))"
    if "list_all is_quiet es" for es fe using that by simp
  moreover have "tuned c (if b then refresh_notices x (c\<lparr>tc_skipped := k\<rparr>) else c\<lparr>tc_skipped := k\<rparr>)" for b k
    using same_tuned [OF same_trans [OF same_store(6) same_refresh(1)]] same_tuned [OF same_store(6)] by simp
  ultimately show ?thesis by (simp add: remove_thermostat_def Let_def split: option.split)
qed

lemma tuned_shutdown: "tuned c (shutdown c)"
proof -
  have "list_all is_quiet (concat (map (\<lambda>(_, t). if P t then [FxCommand (D t) (W t)] else []) ts))"
    for P D W and ts :: "(string \<times> thermo) list" by (induction ts) auto
  then show ?thesis unfolding shutdown_def by (intro same_tuned [OF same_push])
qed

lemma tuned_handle: "thermo_handle x now ev c = Some c' \<Longrightarrow> tuned c c'"
  by (cases ev) (auto simp: thermo_handle_def mgmt_add_def Let_def tuned_state tuned_command tuned_learned tuned_tick tuned_recalculate
      tuned_add tuned_remove tuned_shutdown same_availability same_start tuned_refl split: if_splits sum.split intro: same_tuned)

subsection \<open>The actor\<close>

text \<open>A turn of the actor: an event, then the queued effects are carried out on the subscriptions.\<close>

inductive listen_step :: "plugin_ext \<Rightarrow> controller \<times> string set \<Rightarrow> controller \<times> string set \<Rightarrow> bool" for x where
  turn: "thermo_handle x now ev c = Some c' \<Longrightarrow> listen_step x (c, S) (snd (take_effects c'), listens (fst (take_effects c')) S)"

lemma taken_uses [simp]: "tc_therms (snd (take_effects c)) = tc_therms c" "used_ids (snd (take_effects c)) = used_ids c" "tc_fx (snd (take_effects c)) = []"
  by (simp_all add: take_effects_def keep_running_def push_fx_def Let_def used_ids_def)

lemma taken_listens:
  assumes "tuned c c'" "therms_ok c" "tc_fx c = []" "S = used_ids c"
  shows "therms_ok (snd (take_effects c'))" "listens (fst (take_effects c')) S = used_ids (snd (take_effects c'))"
proof -
  have "listens (tc_fx c') S = used_ids c'" "therms_ok c'" using assms by (auto simp: tuned_def)
  moreover have "listens (fst (take_effects c')) S = listens (tc_fx c') S"
    by (simp add: take_effects_def keep_running_def push_fx_def Let_def)
  ultimately show "therms_ok (snd (take_effects c'))" "listens (fst (take_effects c')) S = used_ids (snd (take_effects c'))" by simp_all
qed

lemma run_listens:
  assumes "(listen_step x)\<^sup>*\<^sup>* (c, S) cs" "therms_ok c" "tc_fx c = []" "S = used_ids c"
  shows "therms_ok (fst cs) \<and> tc_fx (fst cs) = [] \<and> snd cs = used_ids (fst cs)"
  using assms(1)
proof (induction rule: rtranclp_induct)
  case (step cs ds)
  from step.hyps(2) show ?case
    by cases (use step.IH taken_listens [OF tuned_handle] in auto)
qed (use assms in simp)

lemma fold_put_ok: "table_ok ts \<Longrightarrow> table_ok (fold (\<lambda>e. put (k e) (f e)) es ts)"
  by (induction es arbitrary: ts) (simp_all add: put_ok)

text \<open>
  C39. After every event the plugin listens to exactly the devices it has a use for: the sensors and
  switches of its thermostats as they are set now, and the switches that someone chose and that
  have not shown themselves yet. That is the set of availability topics; for every device but the plugin's own,
  the state topics go with it (\<open>state_as_availability\<close>). Requests to the broker are taken to succeed.
\<close>

theorem listens_to_what_it_uses:
  assumes "(listen_step x)\<^sup>*\<^sup>* (subscribe_initial (controller_new x (config_parse x raw))) (c, S)"
  shows "S = used_ids c"
proof -
  let ?c = "controller_new x (config_parse x raw)"
  have ok: "therms_ok ?c"
    by (simp add: controller_new_def refresh_notices_def push_fx_def fold_put_ok)
  let ?b = "begin_sync (external_ids ?c @ own_ids ?c) ?c"
  have b: "tc_therms (begin_sync ids d) = tc_therms d" "used_ids (begin_sync ids d) = used_ids d" for ids d by (simp_all add: begin_sync_def used_ids_def)
  have "therms_ok (snd (take_effects ?b))" "tc_fx (snd (take_effects ?b)) = []" "set (external_ids ?c) = used_ids (snd (take_effects ?b))"
    using ok by (simp_all add: b external_ids_def)
  from run_listens [OF assms [unfolded subscribe_initial_def] this] show ?thesis by simp
qed

theorem listens_to_what_it_uses_witness:
  "let s = subscribe_initial sample_loaded; p = JObj [(''action'', JStr ''set_sensors''), (''sensor_ids'', JStr ''k'')];
       t = take_effects (on_command sample_plugin 1 ''thermostat_h'' p (fst s)) in
   listens (fst t) (snd s) = used_ids (snd t)"
proof -
  let ?s = "subscribe_initial sample_loaded"
  let ?p = "JObj [(''action'', JStr ''set_sensors''), (''sensor_ids'', JStr ''k'')]"
  have "listen_step sample_plugin (fst ?s, snd ?s) (snd (take_effects (on_command sample_plugin 1 ''thermostat_h'' ?p (fst ?s))),
      listens (fst (take_effects (on_command sample_plugin 1 ''thermostat_h'' ?p (fst ?s)))) (snd ?s))"
    by (rule listen_step.turn [of _ 1 "TvCommand ''thermostat_h'' ?p"]) (simp add: thermo_handle_def)
  then have "(listen_step sample_plugin)\<^sup>*\<^sup>* ?s (snd (take_effects (on_command sample_plugin 1 ''thermostat_h'' ?p (fst ?s))),
      listens (fst (take_effects (on_command sample_plugin 1 ''thermostat_h'' ?p (fst ?s)))) (snd ?s))"
    unfolding prod.collapse by (rule r_into_rtranclp)
  from listens_to_what_it_uses [OF this [unfolded sample_loaded_def]] show ?thesis by (simp only: Let_def sample_loaded_def)
qed

end
